(* ===== verification/Bridge_Prelude.thy ===== *)
theory Bridge_Prelude
  imports Main "HOL-Library.Word"
begin

unbundle bit_operations_syntax

text \<open>
  Shared vocabulary of the development.  It holds the machine types of the bridge
  (\<open>uint8_t\<close>, \<open>uint16_t\<close>, \<open>uint32_t\<close>, \<open>uint64_t\<close> as words), the \<open>Result\<close> enumeration and
  \<open>align\<close> of \<open>util_common.h\<close>, the error values the fallible operations return, the
  \<open>bindE\<close> combinator that threads them, a byte memory with little-endian word access (the
  shared-memory mappings of the two processes), and the generic lemmas on lists and words
  that the component theories use.
\<close>

named_theorems mem_simps "reads after writes in a byte memory"
named_theorems bind_simps "evaluation and inversion of the error monad"

section \<open>Machine types\<close>

type_synonym u8 = "8 word"
type_synonym u16 = "16 word"
type_synonym u32 = "32 word"
type_synonym u64 = "64 word"
type_synonym memory = "u8 list"

text \<open>\<open>enum class Result\<close> of \<open>util_common.h\<close>.\<close>

datatype Result = Success | Timeout | Failure

text \<open>The \<open>caps\<close> namespace of \<open>util_common.h\<close>.\<close>

definition MaxClipPlanes :: nat where "MaxClipPlanes = 6"
definition MaxSamplers :: nat where "MaxSamplers = 16"
definition MaxStreams :: nat where "MaxStreams = 16"
definition MaxSimultaneousTextures :: nat where "MaxSimultaneousTextures = 8"
definition MaxTextureBlendStages :: nat where "MaxTextureBlendStages = MaxSimultaneousTextures"
definition MaxSimultaneousRenderTargets :: nat where "MaxSimultaneousRenderTargets = 4"
definition MaxFloatConstantsVS :: nat where "MaxFloatConstantsVS = 256"
definition MaxFloatConstantsPS :: nat where "MaxFloatConstantsPS = 224"
definition MaxOtherConstants :: nat where "MaxOtherConstants = 16"
definition MaxFloatConstantsSoftware :: nat where "MaxFloatConstantsSoftware = 8192"
definition MaxOtherConstantsSoftware :: nat where "MaxOtherConstantsSoftware = 2048"
definition MaxTransforms :: nat where "MaxTransforms = 10 + 256"
definition MaxTexturesVS :: nat where "MaxTexturesVS = 4"
definition MaxTexturesPS :: nat where "MaxTexturesPS = 16"

lemmas caps_defs = MaxClipPlanes_def MaxSamplers_def MaxStreams_def MaxSimultaneousTextures_def
  MaxTextureBlendStages_def MaxSimultaneousRenderTargets_def MaxFloatConstantsVS_def
  MaxFloatConstantsPS_def MaxOtherConstants_def MaxFloatConstantsSoftware_def
  MaxOtherConstantsSoftware_def MaxTransforms_def MaxTexturesVS_def MaxTexturesPS_def

text \<open>\<open>bridge_util::align\<close>: the template works on any unsigned width.\<close>

definition align :: "'a::len word \<Rightarrow> 'a word \<Rightarrow> 'a word" where
  "align v a = (v + a - 1) AND NOT (a - 1)"

section \<open>Errors as values\<close>

text \<open>
  What an operation can end with when it does not return: undefined behaviour by an access
  outside its array or through a null pointer, a reader that pulls another kind of datum than the
  writer pushed (\<open>Desync\<close>), a thrown exception, or \<open>Logger::errLogMessageBoxAndExit\<close>, which ends
  the process.
\<close>

datatype bridge_error = OutOfBounds | BatchAlreadyInProgress | OutOfBufferMemory
  | CommandInProgress | InvalidCommand | ProcessExit | NullDereference | Desync

type_synonym 'a or_error = "bridge_error + 'a"

definition bindE :: "'a or_error \<Rightarrow> ('a \<Rightarrow> 'b or_error) \<Rightarrow> 'b or_error" where
  "bindE m f = (case m of Inl e \<Rightarrow> Inl e | Inr x \<Rightarrow> f x)"

lemma bindE_Inl [simp, bind_simps]: "bindE (Inl e) f = Inl e"
  by (simp add: bindE_def)

lemma bindE_Inr [simp, bind_simps]: "bindE (Inr x) f = f x"
  by (simp add: bindE_def)

lemma bindE_eq_Inr [bind_simps]: "bindE m f = Inr y \<longleftrightarrow> (\<exists>x. m = Inr x \<and> f x = Inr y)"
  by (cases m) auto

lemma bindE_assoc: "bindE (bindE m f) g = bindE m (\<lambda>x. bindE (f x) g)"
  by (cases m) auto

section \<open>Alignment\<close>

lemma and_not_mask_push_drop: "(w::'a::len word) AND NOT (mask n) = push_bit n (drop_bit n w)"
  by (rule bit_word_eqI) (auto simp: bit_simps)

lemma unat_align_4:
  assumes "n + 3 < 2 ^ 32"
  shows "unat (align (word_of_nat n :: u32) 4) = 4 * ((n + 3) div 4)"
proof -
  have sum: "(word_of_nat n :: u32) + 4 - 1 = word_of_nat (n + 3)"
    by (simp add: algebra_simps)
  have three: "(4 - 1 :: u32) = mask 2"
    by (simp add: mask_eq_exp_minus_1)
  have "align (word_of_nat n :: u32) 4 = push_bit 2 (drop_bit 2 (word_of_nat (n + 3)))"
    by (simp only: align_def sum three and_not_mask_push_drop)
  then show ?thesis
    using assms
    by (simp add: push_bit_eq_mult drop_bit_eq_div unat_word_ariths unat_div unat_of_nat
        del: of_nat_add of_nat_numeral)
qed

section \<open>Byte memory\<close>

definition mem_read :: "nat \<Rightarrow> nat \<Rightarrow> memory \<Rightarrow> memory" where
  "mem_read off n m = take n (drop off m)"

definition mem_write :: "nat \<Rightarrow> memory \<Rightarrow> memory \<Rightarrow> memory" where
  "mem_write off bs m = take off m @ bs @ drop (off + length bs) m"

text \<open>Both processes are little-endian x86: a \<open>uint32_t\<close> and its four bytes.\<close>

definition u32_bytes :: "u32 \<Rightarrow> memory" where
  "u32_bytes w = [ucast w, ucast (drop_bit 8 w), ucast (drop_bit 16 w), ucast (drop_bit 24 w)]"

definition u32_of_bytes :: "memory \<Rightarrow> u32" where
  "u32_of_bytes bs = ucast (bs ! 0) OR push_bit 8 (ucast (bs ! 1))
     OR push_bit 16 (ucast (bs ! 2)) OR push_bit 24 (ucast (bs ! 3))"

lemma length_u32_bytes [simp]: "length (u32_bytes w) = 4"
  by (simp add: u32_bytes_def)

lemma u32_of_bytes_u32_bytes [simp]: "u32_of_bytes (u32_bytes w) = w"
proof (rule bit_word_eqI)
  fix n
  show "bit (u32_of_bytes (u32_bytes w)) n = bit w n" if "n < LENGTH(32)"
    using that unfolding u32_of_bytes_def u32_bytes_def
    by (cases "n < 8"; cases "n < 16"; cases "n < 24") (auto simp: bit_simps)
qed

lemma length_mem_write [simp]:
  "off + length bs \<le> length m \<Longrightarrow> length (mem_write off bs m) = length m"
  by (simp add: mem_write_def)

lemma mem_read_write_same [simp, mem_simps]:
  "off + length bs \<le> length m \<Longrightarrow> n = length bs \<Longrightarrow> mem_read off n (mem_write off bs m) = bs"
  by (simp add: mem_read_def mem_write_def)

lemma mem_write_nth:
  "off + length bs \<le> length m \<Longrightarrow> i < length m \<Longrightarrow>
   mem_write off bs m ! i = (if off \<le> i \<and> i < off + length bs then bs ! (i - off) else m ! i)"
  by (auto simp: mem_write_def nth_append min_def)

lemma mem_read_write_disjoint [mem_simps]:
  assumes "off + length bs \<le> length m" and "o' + n \<le> off \<or> off + length bs \<le> o'"
    and "o' + n \<le> length m"
  shows "mem_read o' n (mem_write off bs m) = mem_read o' n m"
  using assms by (intro nth_equalityI) (auto simp: mem_read_def mem_write_nth)

end
