(* ===== verification/Channel_Interface.thy ===== *)
theory Channel_Interface
  imports Bridge_Prelude
begin

text \<open>
  The contract the bridge relies on for its command queue: bounded first-in first-out delivery
  with batched publication.  The clients' lemmas are proved once from the laws; the command queue of
  \<open>util_atomiccircularqueue.h\<close> is shown to meet them in \<open>Atomic_Queue\<close>.
\<close>

datatype 'a queue_op = Enqueue 'a | Dequeue | Flush

text \<open>
  A sequence of operations on a queue: which elements were accepted, which were handed out, and the
  final state.
\<close>

fun run_ops :: "('a \<Rightarrow> 's \<Rightarrow> bool \<times> 's) \<Rightarrow> ('s \<Rightarrow> 'a option \<times> 's) \<Rightarrow> ('s \<Rightarrow> 's) \<Rightarrow>
    'a queue_op list \<Rightarrow> 's \<Rightarrow> 'a list \<times> 'a list \<times> 's" where
  "run_ops enq deq fl [] s = ([], [], s)"
| "run_ops enq deq fl (Enqueue x # ops) s = (let (acc, s1) = enq x s; (ins, outs, s2) = run_ops enq deq fl ops s1
     in (if acc then x # ins else ins, outs, s2))"
| "run_ops enq deq fl (Dequeue # ops) s = (let (r, s1) = deq s; (ins, outs, s2) = run_ops enq deq fl ops s1
     in (ins, case r of None \<Rightarrow> outs | Some x \<Rightarrow> x # outs, s2))"
| "run_ops enq deq fl (Flush # ops) s = run_ops enq deq fl ops (fl s)"

locale fifo_queue =
  fixes enq :: "'a \<Rightarrow> 's \<Rightarrow> bool \<times> 's"
    and deq :: "'s \<Rightarrow> 'a option \<times> 's"
    and fl :: "'s \<Rightarrow> 's"
    and contents :: "'s \<Rightarrow> 'a list"
    and wf :: "'s \<Rightarrow> bool"
    and published :: "'s \<Rightarrow> bool"
  assumes enq_law: "wf s \<Longrightarrow> enq x s = (acc, s') \<Longrightarrow>
      wf s' \<and> contents s' = (if acc then contents s @ [x] else contents s)"
    and deq_some_law: "wf s \<Longrightarrow> deq s = (Some x, s') \<Longrightarrow> wf s' \<and> contents s = x # contents s'"
    and deq_none_law: "wf s \<Longrightarrow> deq s = (None, s') \<Longrightarrow> wf s' \<and> contents s' = contents s"
    and flush_law: "wf s \<Longrightarrow> wf (fl s) \<and> contents (fl s) = contents s \<and> published (fl s)"
    and published_law: "wf s \<Longrightarrow> published s \<Longrightarrow> contents s \<noteq> [] \<Longrightarrow>
      fst (deq s) \<noteq> None \<and> published (snd (deq s))"
begin

lemma run_fifo:
  assumes "wf s" and "run_ops enq deq fl ops s = (ins, outs, s')"
  shows "wf s' \<and> contents s @ ins = outs @ contents s'"
  using assms
proof (induction ops arbitrary: s ins outs s')
  case Nil
  then show ?case by simp
next
  case (Cons op ops)
  show ?case
  proof (cases op)
    case (Enqueue x)
    obtain acc s1 where e: "enq x s = (acc, s1)" by (cases "enq x s")
    obtain i o' s2 where r: "run_ops enq deq fl ops s1 = (i, o', s2)" by (metis prod_cases3)
    show ?thesis
      using Cons.IH [OF _ r] enq_law [OF Cons.prems(1) e] Cons.prems(2) Enqueue e r
      by (auto split: if_splits)
  next
    case Dequeue
    obtain d s1 where e: "deq s = (d, s1)" by (cases "deq s")
    obtain i o' s2 where r: "run_ops enq deq fl ops s1 = (i, o', s2)" by (metis prod_cases3)
    show ?thesis
      using Cons.IH [OF _ r] deq_some_law [OF Cons.prems(1)] deq_none_law [OF Cons.prems(1)]
        Cons.prems(2) Dequeue e r
      by (cases d) auto
  next
    case Flush
    then show ?thesis
      using Cons.IH [of "fl s" ins outs s'] flush_law [OF Cons.prems(1)] Cons.prems(2) by simp
  qed
qed

lemma drain:
  assumes "wf s" and "published s"
  shows "\<exists>s'. run_ops enq deq fl (replicate (length (contents s)) Dequeue) s = ([], contents s, s')
    \<and> contents s' = []"
  using assms
proof (induction "contents s" arbitrary: s)
  case Nil
  then show ?case by (metis list.size(3) replicate_0 run_ops.simps(1))
next
  case (Cons x xs)
  have ne: "contents s \<noteq> []" using Cons.hyps(2) by auto
  then obtain y s1 where d: "deq s = (Some y, s1)" and pub: "published s1"
    using published_law [OF Cons.prems ne] by (cases "deq s") auto
  then have s1: "wf s1" "contents s = y # contents s1"
    using deq_some_law [OF Cons.prems(1)] by auto
  then have "\<exists>s'. run_ops enq deq fl (replicate (length (contents s1)) Dequeue) s1 = ([], contents s1, s')
      \<and> contents s' = []"
    using Cons.hyps pub by auto
  then show ?case using s1(2) d by auto
qed

end

end
