(* ===== verification/Atomic_Queue.thy ===== *)
theory Atomic_Queue
  imports Channel_Interface
begin

text \<open>
  \<open>AtomicCircularQueue\<close> of \<open>util_atomiccircularqueue.h\<close>: the single-producer, single-consumer
  command queue in shared memory.  The first half models its operations as the code has them, one
  function per loop body and one per blocking loop; the second half splits the loop bodies into
  the accesses to shared memory and shows, for every interleaving of the producer's and the consumer's
  accesses, that the consumer receives a prefix of what was pushed, in order, and that no unread
  element is overwritten.  As in the code \<open>m_write\<close> is the consumer's index and \<open>m_read\<close>
  the index the producer publishes.
\<close>

section \<open>State and operations\<close>

record 'a acq =
  m_data :: "'a list"
  m_write :: nat
  m_read :: nat
  m_queueSize :: nat
  m_cachedConsumer :: nat
  m_localWrite :: nat
  m_pending :: nat
  m_publishBatch :: nat
  m_cachedProducer :: nat
  m_lastPulled :: 'a
  m_default :: 'a

definition acq_new :: "nat \<Rightarrow> 'a \<Rightarrow> 'a acq" where
  "acq_new queueSize dflt = \<lparr>m_data = replicate queueSize dflt, m_write = 0, m_read = 0,
     m_queueSize = queueSize, m_cachedConsumer = 0, m_localWrite = 0, m_pending = 0,
     m_publishBatch = 1, m_cachedProducer = 0, m_lastPulled = dflt, m_default = dflt\<rparr>"

definition queueIdxInc :: "'a acq \<Rightarrow> nat \<Rightarrow> nat" where
  "queueIdxInc s idx = (if idx + 1 < m_queueSize s then idx + 1 else 0)"

definition queueIdxDec :: "'a acq \<Rightarrow> nat \<Rightarrow> nat" where
  "queueIdxDec s idx = (if idx = 0 then m_queueSize s - 1 else idx - 1)"

definition setPublishBatch :: "nat \<Rightarrow> 'a acq \<Rightarrow> 'a acq" where
  "setPublishBatch n s = s\<lparr>m_publishBatch := (if n \<noteq> 0 then n else 1)\<rparr>"

definition acq_flush :: "'a acq \<Rightarrow> 'a acq" where
  "acq_flush s = (if m_pending s \<noteq> 0 then s\<lparr>m_read := m_localWrite s, m_pending := 0\<rparr> else s)"

subsection \<open>\<open>push\<close>\<close>

definition refresh_consumer :: "'a acq \<Rightarrow> 'a acq" where
  "refresh_consumer s =
     (if queueIdxInc s (m_localWrite s) = m_cachedConsumer s then s\<lparr>m_cachedConsumer := m_write s\<rparr> else s)"

definition store_elem :: "'a \<Rightarrow> 'a acq \<Rightarrow> 'a acq" where
  "store_elem obj s = s\<lparr>m_data := (m_data s)[m_localWrite s := obj],
     m_localWrite := queueIdxInc s (m_localWrite s), m_pending := m_pending s + 1\<rparr>"

definition publish :: "'a acq \<Rightarrow> 'a acq" where
  "publish s = (if m_pending s \<ge> m_publishBatch s then s\<lparr>m_read := m_localWrite s, m_pending := 0\<rparr> else s)"

text \<open>One iteration of the loop of \<open>push\<close>: \<open>True\<close> when it returns \<open>Success\<close>.\<close>

definition push_iter :: "'a \<Rightarrow> 'a acq \<Rightarrow> bool \<times> 'a acq" where
  "push_iter obj s = (let s1 = refresh_consumer s in
     if queueIdxInc s1 (m_localWrite s1) \<noteq> m_cachedConsumer s1
     then (True, publish (store_elem obj s1))
     else (False, acq_flush s1))"

text \<open>
  The loop.  Each element of \<open>env\<close> is what happens while the thread yields: an effect of the
  other process on the shared state, and the tick count read afterwards.  \<open>None\<close> means
  that \<open>env\<close> ended while the loop was still waiting.
\<close>

fun acq_push :: "nat \<Rightarrow> 'a \<Rightarrow> (('a acq \<Rightarrow> 'a acq) \<times> nat) list \<Rightarrow> nat \<Rightarrow> 'a acq \<Rightarrow> (Result \<times> 'a acq) option" where
  "acq_push timeoutMS obj env start s = (case push_iter obj s of
     (True, s1) \<Rightarrow> Some (Success, s1)
   | (False, s1) \<Rightarrow> (case env of [] \<Rightarrow> None
       | (act, curTick) # env' \<Rightarrow>
           let start' = (if start > 0 then start else curTick) in
           if timeoutMS = 0 \<or> start' + timeoutMS > curTick
           then acq_push timeoutMS obj env' start' (act s1)
           else Some (Failure, act s1)))"

subsection \<open>\<open>peek\<close> and \<open>pull\<close>\<close>

definition refresh_producer :: "'a acq \<Rightarrow> 'a acq" where
  "refresh_producer s = (if m_write s = m_cachedProducer s then s\<lparr>m_cachedProducer := m_read s\<rparr> else s)"

definition peek_iter :: "'a acq \<Rightarrow> 'a option \<times> 'a acq" where
  "peek_iter s = (let s1 = refresh_producer s in
     if m_write s1 \<noteq> m_cachedProducer s1 then (Some (m_data s1 ! m_write s1), s1) else (None, s1))"

definition copy_out :: "'a acq \<Rightarrow> 'a acq" where
  "copy_out s = s\<lparr>m_lastPulled := m_data s ! m_write s\<rparr>"

definition release_slot :: "'a acq \<Rightarrow> 'a acq" where
  "release_slot s = s\<lparr>m_write := queueIdxInc s (m_write s)\<rparr>"

definition pull_iter :: "'a acq \<Rightarrow> 'a option \<times> 'a acq" where
  "pull_iter s = (let s1 = refresh_producer s in
     if m_write s1 \<noteq> m_cachedProducer s1
     then let s2 = copy_out s1 in (Some (m_lastPulled s2), release_slot s2)
     else (None, s1))"

text \<open>
  The loops of \<open>peek\<close> and \<open>pull\<close>; \<open>env\<close> also gives the value of the early-out signal
  (\<open>False\<close> when there is none).  \<open>result\<close> is the caller's variable before the call: \<open>pull\<close>
  does not assign it when it times out.
\<close>

fun acq_peek :: "nat \<Rightarrow> (('a acq \<Rightarrow> 'a acq) \<times> nat \<times> bool) list \<Rightarrow> nat \<Rightarrow> 'a acq \<Rightarrow> (Result \<times> 'a \<times> 'a acq) option" where
  "acq_peek timeoutMS env start s = (case peek_iter s of
     (Some x, s1) \<Rightarrow> Some (Success, x, s1)
   | (None, s1) \<Rightarrow> (case env of [] \<Rightarrow> None
       | (act, curTick, earlyOut) # env' \<Rightarrow>
           let start' = (if start > 0 then start else curTick) in
           if earlyOut then Some (Timeout, m_default s1, act s1)
           else if timeoutMS = 0 \<or> start' + timeoutMS > curTick
           then acq_peek timeoutMS env' start' (act s1)
           else Some (Timeout, m_default s1, act s1)))"

fun acq_pull :: "Result \<Rightarrow> nat \<Rightarrow> (('a acq \<Rightarrow> 'a acq) \<times> nat \<times> bool) list \<Rightarrow> nat \<Rightarrow> 'a acq
    \<Rightarrow> (Result \<times> 'a \<times> 'a acq) option" where
  "acq_pull result timeoutMS env start s = (case pull_iter s of
     (Some x, s1) \<Rightarrow> Some (Success, x, s1)
   | (None, s1) \<Rightarrow> (case env of [] \<Rightarrow> None
       | (act, curTick, earlyOut) # env' \<Rightarrow>
           let start' = (if start > 0 then start else curTick) in
           if earlyOut then Some (Timeout, m_default s1, act s1)
           else if timeoutMS = 0 \<or> start' + timeoutMS > curTick
           then acq_pull result timeoutMS env' start' (act s1)
           else Some (result, m_default s1, act s1)))"

definition isEmpty :: "'a acq \<Rightarrow> bool" where
  "isEmpty s \<longleftrightarrow> m_write s = m_read s"

subsection \<open>Command history\<close>

text \<open>
  \<open>buildQueueData\<close>: walks back from \<open>currentIndex\<close>; \<open>command\<close> projects an entry and \<open>invalid\<close>
  is \<open>Bridge_Invalid\<close>.  \<open>fuel\<close> is the number of iterations left, the smaller of the queue
  size and \<open>maxQueueElements\<close>.
\<close>

fun build_history :: "('a \<Rightarrow> 'c) \<Rightarrow> 'c \<Rightarrow> 'a acq \<Rightarrow> nat \<Rightarrow> nat \<Rightarrow> 'c list" where
  "build_history command invalid s 0 currentIndex = []"
| "build_history command invalid s (Suc fuel) currentIndex =
     (if command (m_data s ! currentIndex) = invalid then []
      else command (m_data s ! currentIndex)
           # build_history command invalid s fuel (queueIdxDec s currentIndex))"

definition buildQueueData :: "('a \<Rightarrow> 'c) \<Rightarrow> 'c \<Rightarrow> nat \<Rightarrow> nat \<Rightarrow> 'a acq \<Rightarrow> 'c list" where
  "buildQueueData command invalid maxQueueElements currentIndex s =
     build_history command invalid s (min (m_queueSize s) maxQueueElements) currentIndex"

definition getWriterQueueData :: "('a \<Rightarrow> 'c) \<Rightarrow> 'c \<Rightarrow> nat \<Rightarrow> 'a acq \<Rightarrow> 'c list" where
  "getWriterQueueData command invalid maxQueueElements s =
     buildQueueData command invalid maxQueueElements (queueIdxDec s (m_localWrite s)) s"

definition getReaderQueueData :: "('a \<Rightarrow> 'c) \<Rightarrow> 'c \<Rightarrow> nat \<Rightarrow> 'a acq \<Rightarrow> 'c list" where
  "getReaderQueueData command invalid maxQueueElements s =
     buildQueueData command invalid maxQueueElements (queueIdxDec s (m_write s)) s"

section \<open>Interleaved execution\<close>

text \<open>
  Program counters of the two threads, one value per point between two accesses to shared memory.
  \<open>sent\<close> and \<open>rcvd\<close> are history variables: the elements stored and the elements pulled so far.
\<close>

datatype 'a producer_pc = PIdle | PCheck 'a | PStore 'a | PPublish | PFull 'a
datatype consumer_pc = CIdle | CCopy | CRelease

record 'a spsc =
  queue :: "'a acq"
  ppc :: "'a producer_pc"
  cpc :: consumer_pc
  sent :: "'a list"
  rcvd :: "'a list"

definition spsc_init :: "nat \<Rightarrow> 'a \<Rightarrow> 'a spsc" where
  "spsc_init n d = \<lparr>queue = acq_new n d, ppc = PIdle, cpc = CIdle, sent = [], rcvd = []\<rparr>"

inductive producer_step :: "'a spsc \<Rightarrow> 'a spsc \<Rightarrow> bool" where
  begin_push: "ppc s = PIdle \<Longrightarrow> producer_step s (s\<lparr>ppc := PCheck obj\<rparr>)"
| check_room: "ppc s = PCheck obj \<Longrightarrow> q = refresh_consumer (queue s) \<Longrightarrow>
    queueIdxInc q (m_localWrite q) \<noteq> m_cachedConsumer q \<Longrightarrow>
    producer_step s (s\<lparr>queue := q, ppc := PStore obj\<rparr>)"
| check_full: "ppc s = PCheck obj \<Longrightarrow> q = refresh_consumer (queue s) \<Longrightarrow>
    queueIdxInc q (m_localWrite q) = m_cachedConsumer q \<Longrightarrow>
    producer_step s (s\<lparr>queue := q, ppc := PFull obj\<rparr>)"
| store: "ppc s = PStore obj \<Longrightarrow>
    producer_step s (s\<lparr>queue := store_elem obj (queue s), ppc := PPublish, sent := sent s @ [obj]\<rparr>)"
| publish: "ppc s = PPublish \<Longrightarrow> producer_step s (s\<lparr>queue := publish (queue s), ppc := PIdle\<rparr>)"
| full_retry: "ppc s = PFull obj \<Longrightarrow> producer_step s (s\<lparr>queue := acq_flush (queue s), ppc := PCheck obj\<rparr>)"
| full_timeout: "ppc s = PFull obj \<Longrightarrow> producer_step s (s\<lparr>queue := acq_flush (queue s), ppc := PIdle\<rparr>)"
| flush: "ppc s = PIdle \<Longrightarrow> producer_step s (s\<lparr>queue := acq_flush (queue s)\<rparr>)"
| set_batch: "ppc s = PIdle \<Longrightarrow> producer_step s (s\<lparr>queue := setPublishBatch n (queue s)\<rparr>)"

inductive consumer_step :: "'a spsc \<Rightarrow> 'a spsc \<Rightarrow> bool" where
  pull_found: "cpc s = CIdle \<Longrightarrow> q = refresh_producer (queue s) \<Longrightarrow> m_write q \<noteq> m_cachedProducer q \<Longrightarrow>
    consumer_step s (s\<lparr>queue := q, cpc := CCopy\<rparr>)"
| look: "cpc s = CIdle \<Longrightarrow> consumer_step s (s\<lparr>queue := refresh_producer (queue s)\<rparr>)"
| copy: "cpc s = CCopy \<Longrightarrow> consumer_step s (s\<lparr>queue := copy_out (queue s), cpc := CRelease\<rparr>)"
| release: "cpc s = CRelease \<Longrightarrow>
    consumer_step s (s\<lparr>queue := release_slot (queue s), cpc := CIdle, rcvd := rcvd s @ [m_lastPulled (queue s)]\<rparr>)"

inductive spsc_step :: "'a spsc \<Rightarrow> 'a spsc \<Rightarrow> bool" where
  "producer_step s s' \<Longrightarrow> spsc_step s s'"
| "consumer_step s s' \<Longrightarrow> spsc_step s s'"

definition spsc_reachable :: "nat \<Rightarrow> 'a \<Rightarrow> 'a spsc \<Rightarrow> bool" where
  "spsc_reachable n d s \<longleftrightarrow> spsc_step\<^sup>*\<^sup>* (spsc_init n d) s"

inductive_cases producer_stepE: "producer_step s s'"
inductive_cases consumer_stepE: "consumer_step s s'"

section \<open>The invariant\<close>

text \<open>
  \<open>S\<close> elements were stored and \<open>R\<close> pulled.  Every index is one of these counters, or an
  older value of one of them, reduced modulo the queue size.
\<close>

definition ring_inv :: "nat \<Rightarrow> nat \<Rightarrow> 'a spsc \<Rightarrow> bool" where
  "ring_inv k j s \<longleftrightarrow> (let q = queue s; n = m_queueSize q; S = length (sent s); R = length (rcvd s) in
     2 \<le> n \<and> length (m_data q) = n
   \<and> m_pending q \<le> S \<and> R \<le> S - m_pending q \<and> S < R + n
   \<and> m_localWrite q = S mod n \<and> m_read q = (S - m_pending q) mod n \<and> m_write q = R mod n
   \<and> k \<le> R \<and> m_cachedConsumer q = k mod n \<and> S < k + n \<and> (\<forall>x. ppc s = PStore x \<longrightarrow> S + 1 < k + n)
   \<and> j \<le> S - m_pending q \<and> m_cachedProducer q = j mod n \<and> R \<le> j \<and> (cpc s \<noteq> CIdle \<longrightarrow> R < j)
   \<and> (cpc s = CRelease \<longrightarrow> m_lastPulled q = sent s ! R)
   \<and> rcvd s = take R (sent s)
   \<and> (\<forall>i. R \<le> i \<and> i < S \<longrightarrow> m_data q ! (i mod n) = sent s ! i))"

definition spsc_inv :: "'a spsc \<Rightarrow> bool" where
  "spsc_inv s \<longleftrightarrow> (\<exists>k j. ring_inv k j s)"

lemma inc_mod: "0 < m_queueSize q \<Longrightarrow> idx = i mod m_queueSize q \<Longrightarrow> queueIdxInc q idx = (i + 1) mod m_queueSize q"
  using mod_less_divisor [of "m_queueSize q" i]
  by (cases "Suc (i mod m_queueSize q) = m_queueSize q") (auto simp: queueIdxInc_def mod_Suc intro: Suc_lessI)

lemma mod_window_inj:
  fixes i j k n :: nat
  assumes "i mod n = j mod n" and "k \<le> i" "i < k + n" and "k \<le> j" "j < k + n"
  shows "i = j"
proof -
  have "i = j" if "i mod n = j mod n" "k \<le> i" "i \<le> j" "j < k + n" for i j :: nat
  proof -
    have "n dvd j - i" using that mod_eq_dvd_iff_nat [of i j n] by simp
    then show ?thesis using that by (auto dest: dvd_imp_le)
  qed
  from this [of i j] this [of j i] show ?thesis
    using assms by (cases "i \<le> j") auto
qed

lemma spsc_inv_init: "2 \<le> n \<Longrightarrow> spsc_inv (spsc_init n d)"
  unfolding spsc_inv_def by (rule exI [of _ 0], rule exI [of _ 0]) (simp add: ring_inv_def spsc_init_def acq_new_def Let_def)

subsection \<open>Producer accesses\<close>

lemma refresh_consumer_fields [simp]:
  "m_data (refresh_consumer q) = m_data q" "m_write (refresh_consumer q) = m_write q"
  "m_read (refresh_consumer q) = m_read q" "m_queueSize (refresh_consumer q) = m_queueSize q"
  "m_localWrite (refresh_consumer q) = m_localWrite q" "m_pending (refresh_consumer q) = m_pending q"
  "m_cachedProducer (refresh_consumer q) = m_cachedProducer q" "m_lastPulled (refresh_consumer q) = m_lastPulled q"
  by (simp_all add: refresh_consumer_def)

lemma queueIdxInc_refresh [simp]: "queueIdxInc (refresh_consumer q) i = queueIdxInc q i"
  by (simp add: queueIdxInc_def)

lemma inv_refresh_consumer:
  assumes inv: "ring_inv k j s" and pc: "ppc s = PCheck obj"
  defines "q \<equiv> refresh_consumer (queue s)"
  shows "\<exists>k'. ring_inv k' j (s\<lparr>queue := q, ppc :=
           (if queueIdxInc q (m_localWrite q) \<noteq> m_cachedConsumer q then PStore obj else PFull obj)\<rparr>)"
proof -
  let ?n = "m_queueSize (queue s)" and ?S = "length (sent s)" and ?R = "length (rcvd s)"
  have n: "2 \<le> ?n" "m_localWrite (queue s) = ?S mod ?n" "m_write (queue s) = ?R mod ?n"
    "m_cachedConsumer (queue s) = k mod ?n" "?S < k + ?n" "k \<le> ?R" "?S < ?R + ?n" "?R \<le> ?S"
    using inv by (auto simp: ring_inv_def Let_def)
  have inc: "queueIdxInc (queue s) (?S mod ?n) = (?S + 1) mod ?n"
    using n by (intro inc_mod) auto
  have room: "?S + 1 < c + ?n" if "(?S + 1) mod ?n \<noteq> c mod ?n" "?S < c + ?n" for c
    using that by (metis Suc_eq_plus1 Suc_lessI mod_add_self2)
  show ?thesis
  proof (cases "queueIdxInc (queue s) (m_localWrite (queue s)) = m_cachedConsumer (queue s)")
    case True
    then have "m_cachedConsumer q = ?R mod ?n" by (simp add: q_def refresh_consumer_def n(3))
    then have "ring_inv ?R j (s\<lparr>queue := q, ppc :=
        (if queueIdxInc q (m_localWrite q) \<noteq> m_cachedConsumer q then PStore obj else PFull obj)\<rparr>)"
      using inv n room [of ?R] by (simp add: ring_inv_def Let_def q_def inc)
    then show ?thesis ..
  next
    case False
    then have "m_cachedConsumer q = k mod ?n" by (simp add: q_def refresh_consumer_def n(4))
    then have "ring_inv k j (s\<lparr>queue := q, ppc :=
        (if queueIdxInc q (m_localWrite q) \<noteq> m_cachedConsumer q then PStore obj else PFull obj)\<rparr>)"
      using inv n room [of k] by (simp add: ring_inv_def Let_def q_def inc)
    then show ?thesis ..
  qed
qed

lemma inv_store:
  assumes inv: "ring_inv k j s" and pc: "ppc s = PStore obj"
  shows "ring_inv k j (s\<lparr>queue := store_elem obj (queue s), ppc := PPublish, sent := sent s @ [obj]\<rparr>)"
proof -
  let ?q = "queue s" and ?n = "m_queueSize (queue s)" and ?S = "length (sent s)" and ?R = "length (rcvd s)"
  have n: "2 \<le> ?n" "m_localWrite ?q = ?S mod ?n" "length (m_data ?q) = ?n" "?S + 1 < k + ?n" "k \<le> ?R"
    "?R \<le> ?S" and old: "\<forall>i. ?R \<le> i \<and> i < ?S \<longrightarrow> m_data ?q ! (i mod ?n) = sent s ! i"
    using inv pc by (auto simp: ring_inv_def Let_def)
  have "(m_data ?q)[?S mod ?n := obj] ! (i mod ?n) = (sent s @ [obj]) ! i" if "?R \<le> i" "i < ?S + 1" for i
  proof (cases "i = ?S")
    case True
    then show ?thesis using n by (simp add: nth_append)
  next
    case False
    then have i: "i < ?S" using that by simp
    moreover have "i mod ?n \<noteq> ?S mod ?n"
      using mod_window_inj [of i ?n ?S k] that i n by auto
    ultimately show ?thesis using old that by (simp add: nth_append)
  qed
  moreover have "queueIdxInc ?q (?S mod ?n) = (?S + 1) mod ?n"
    using n by (intro inc_mod) auto
  ultimately show ?thesis
    using inv pc n by (auto simp: ring_inv_def Let_def store_elem_def nth_append less_Suc_eq)
qed

lemma inv_publish_read:
  assumes "ring_inv k j s" and "\<forall>x. p \<noteq> PStore x"
  shows "ring_inv k j (s\<lparr>queue := (queue s)\<lparr>m_read := m_localWrite (queue s), m_pending := 0\<rparr>, ppc := p\<rparr>)"
  using assms by (auto simp: ring_inv_def Let_def)

lemma inv_ppc: "ring_inv k j s \<Longrightarrow> \<forall>x. p \<noteq> PStore x \<Longrightarrow> ring_inv k j (s\<lparr>ppc := p\<rparr>)"
  by (auto simp: ring_inv_def Let_def)

lemma inv_flush: "ring_inv k j s \<Longrightarrow> \<forall>x. p \<noteq> PStore x \<Longrightarrow> ring_inv k j (s\<lparr>queue := acq_flush (queue s), ppc := p\<rparr>)"
  using inv_publish_read [of k j s p] inv_ppc [of k j s p] by (simp add: acq_flush_def)

lemma inv_publish: "ring_inv k j s \<Longrightarrow> ring_inv k j (s\<lparr>queue := publish (queue s), ppc := PIdle\<rparr>)"
  using inv_publish_read [of k j s PIdle] inv_ppc [of k j s PIdle] by (simp add: publish_def)

lemma ppc_same: "ppc s = p \<Longrightarrow> s\<lparr>queue := q, ppc := p\<rparr> = s\<lparr>queue := q\<rparr>"
  by (cases s) simp

lemma cpc_same: "cpc s = c \<Longrightarrow> s\<lparr>queue := q, cpc := c\<rparr> = s\<lparr>queue := q\<rparr>"
  by (cases s) simp

lemma producer_step_inv:
  assumes "producer_step s s'" and "spsc_inv s"
  shows "spsc_inv s'"
proof -
  obtain k j where inv: "ring_inv k j s" using assms(2) by (auto simp: spsc_inv_def)
  from assms(1) have "\<exists>k j. ring_inv k j s'"
  proof cases
    case (check_room obj q)
    then show ?thesis using inv_refresh_consumer [OF inv, of obj] by auto
  next
    case (check_full obj q)
    then show ?thesis using inv_refresh_consumer [OF inv, of obj] by auto
  next
    case flush
    then show ?thesis using inv_flush [OF inv, of PIdle] by (auto simp: ppc_same)
  next
    case (set_batch n)
    then show ?thesis using inv by (auto simp: ring_inv_def Let_def setPublishBatch_def)
  qed (use inv in \<open>blast intro: inv_store inv_flush inv_publish inv_ppc\<close>)+
  then show ?thesis by (simp add: spsc_inv_def)
qed

subsection \<open>Consumer accesses\<close>

lemma refresh_producer_fields [simp]:
  "m_data (refresh_producer q) = m_data q" "m_write (refresh_producer q) = m_write q"
  "m_read (refresh_producer q) = m_read q" "m_queueSize (refresh_producer q) = m_queueSize q"
  "m_localWrite (refresh_producer q) = m_localWrite q" "m_pending (refresh_producer q) = m_pending q"
  "m_cachedConsumer (refresh_producer q) = m_cachedConsumer q" "m_lastPulled (refresh_producer q) = m_lastPulled q"
  by (simp_all add: refresh_producer_def)

lemma inv_refresh_producer:
  assumes inv: "ring_inv k j s" and pc: "cpc s = CIdle"
  defines "q \<equiv> refresh_producer (queue s)"
  assumes c: "c = CIdle \<or> c = CCopy \<and> m_write q \<noteq> m_cachedProducer q"
  shows "\<exists>j'. ring_inv k j' (s\<lparr>queue := q, cpc := c\<rparr>)"
proof -
  let ?n = "m_queueSize (queue s)" and ?S = "length (sent s)" and ?R = "length (rcvd s)"
  obtain j' where j': "m_cachedProducer q = j' mod ?n" "?R \<le> j'" "j' \<le> ?S - m_pending (queue s)"
  proof (cases "m_write (queue s) = m_cachedProducer (queue s)")
    case True
    then show thesis using inv that [of "?S - m_pending (queue s)"]
      by (simp add: q_def refresh_producer_def ring_inv_def Let_def)
  next
    case False
    then show thesis using inv that [of j]
      by (simp add: q_def refresh_producer_def ring_inv_def Let_def)
  qed
  have "?R < j'" if "c \<noteq> CIdle"
    using that c j' inv by (cases "?R = j'") (auto simp: ring_inv_def Let_def q_def)
  then have "ring_inv k j' (s\<lparr>queue := q, cpc := c\<rparr>)"
    using inv j' c pc by (auto simp: ring_inv_def Let_def q_def)
  then show ?thesis ..
qed

lemma inv_copy:
  assumes "ring_inv k j s" and "cpc s = CCopy"
  shows "ring_inv k j (s\<lparr>queue := copy_out (queue s), cpc := CRelease\<rparr>)"
  using assms by (auto simp: ring_inv_def Let_def copy_out_def)

lemma inv_release:
  assumes inv: "ring_inv k j s" and pc: "cpc s = CRelease"
  shows "ring_inv k j (s\<lparr>queue := release_slot (queue s), cpc := CIdle, rcvd := rcvd s @ [m_lastPulled (queue s)]\<rparr>)"
proof -
  let ?n = "m_queueSize (queue s)" and ?S = "length (sent s)" and ?R = "length (rcvd s)"
  have n: "2 \<le> ?n" "m_write (queue s) = ?R mod ?n" "?R < ?S"
    using inv pc by (auto simp: ring_inv_def Let_def)
  have "queueIdxInc (queue s) (?R mod ?n) = (?R + 1) mod ?n"
    using n by (intro inc_mod) auto
  then show ?thesis
    using inv pc n by (simp add: ring_inv_def Let_def release_slot_def take_Suc_conv_app_nth)
qed

lemma consumer_step_inv:
  assumes "consumer_step s s'" and "spsc_inv s"
  shows "spsc_inv s'"
proof -
  obtain k j where inv: "ring_inv k j s" using assms(2) by (auto simp: spsc_inv_def)
  from assms(1) have "\<exists>k j. ring_inv k j s'"
  proof cases
    case (pull_found q)
    then show ?thesis using inv_refresh_producer [OF inv, of CCopy] by auto
  next
    case look
    then show ?thesis using inv_refresh_producer [OF inv, of CIdle] by (auto simp: cpc_same)
  qed (use inv in \<open>blast intro: inv_copy inv_release\<close>)+
  then show ?thesis by (simp add: spsc_inv_def)
qed

lemma spsc_reachable_inv:
  assumes "spsc_reachable n d s" and "2 \<le> n"
  shows "spsc_inv s"
  using assms(1) unfolding spsc_reachable_def
proof (induction rule: rtranclp_induct)
  case base
  then show ?case using spsc_inv_init [OF assms(2)] .
next
  case (step y z)
  then show ?case by (auto elim!: spsc_step.cases intro: producer_step_inv consumer_step_inv)
qed

section \<open>The loop bodies are runs of the accesses\<close>

abbreviation steps_to :: "'a spsc \<Rightarrow> 'a spsc \<Rightarrow> bool" where
  "steps_to \<equiv> spsc_step\<^sup>*\<^sup>*"

lemma steps_trans3: "spsc_step a b \<Longrightarrow> spsc_step b c \<Longrightarrow> spsc_step c d \<Longrightarrow> steps_to a d"
  by (meson converse_rtranclp_into_rtranclp r_into_rtranclp)

lemma push_iter_steps:
  assumes "ppc s = PIdle" and "push_iter obj (queue s) = (acc, q')"
  shows "steps_to s (s\<lparr>queue := q', sent := (if acc then sent s @ [obj] else sent s)\<rparr>)"
proof -
  let ?q = "refresh_consumer (queue s)"
  let ?s1 = "s\<lparr>ppc := PCheck obj\<rparr>"
  have 1: "spsc_step s ?s1" using assms(1) by (intro spsc_step.intros(1) begin_push)
  show ?thesis
  proof (cases "queueIdxInc ?q (m_localWrite ?q) \<noteq> m_cachedConsumer ?q")
    case True
    let ?s2 = "s\<lparr>queue := ?q, ppc := PStore obj\<rparr>"
    let ?s3 = "s\<lparr>queue := store_elem obj ?q, ppc := PPublish, sent := sent s @ [obj]\<rparr>"
    let ?s4 = "s\<lparr>queue := publish (store_elem obj ?q), ppc := PIdle, sent := sent s @ [obj]\<rparr>"
    have "spsc_step ?s1 ?s2"
      using producer_step.check_room [of ?s1 obj ?q] True by (auto intro: spsc_step.intros(1))
    moreover have "spsc_step ?s2 ?s3"
      using producer_step.store [of ?s2 obj] by (auto intro: spsc_step.intros(1))
    moreover have "spsc_step ?s3 ?s4"
      using producer_step.publish [of ?s3] by (cases s) (auto intro: spsc_step.intros(1))
    moreover have "?s4 = s\<lparr>queue := q', sent := (if acc then sent s @ [obj] else sent s)\<rparr>"
      using assms True by (cases s) (auto simp: push_iter_def Let_def)
    ultimately show ?thesis
      using 1 steps_trans3 [of s ?s1 ?s2 ?s3] by (auto intro: rtranclp.rtrancl_into_rtrancl)
  next
    case False
    let ?s2 = "s\<lparr>queue := ?q, ppc := PFull obj\<rparr>"
    let ?s3 = "s\<lparr>queue := acq_flush ?q, ppc := PIdle\<rparr>"
    have "spsc_step ?s1 ?s2"
      using producer_step.check_full [of ?s1 obj ?q] False by (auto intro: spsc_step.intros(1))
    moreover have "spsc_step ?s2 ?s3"
      using producer_step.full_timeout [of ?s2 obj] by (auto intro: spsc_step.intros(1))
    moreover have "?s3 = s\<lparr>queue := q', sent := (if acc then sent s @ [obj] else sent s)\<rparr>"
      using assms False by (cases s) (auto simp: push_iter_def Let_def)
    ultimately show ?thesis
      using 1 steps_trans3 [of s ?s1 ?s2 ?s3] by simp
  qed
qed

lemma pull_iter_steps:
  assumes "cpc s = CIdle" and "pull_iter (queue s) = (r, q')"
  shows "steps_to s (s\<lparr>queue := q', rcvd := (case r of Some x \<Rightarrow> rcvd s @ [x] | None \<Rightarrow> rcvd s)\<rparr>)"
proof -
  let ?q = "refresh_producer (queue s)"
  show ?thesis
  proof (cases "m_write ?q \<noteq> m_cachedProducer ?q")
    case True
    let ?s1 = "s\<lparr>queue := ?q, cpc := CCopy\<rparr>" and ?s2 = "s\<lparr>queue := copy_out ?q, cpc := CRelease\<rparr>"
    let ?s3 = "s\<lparr>queue := release_slot (copy_out ?q), cpc := CIdle, rcvd := rcvd s @ [m_lastPulled (copy_out ?q)]\<rparr>"
    have "spsc_step s ?s1"
      using pull_found [OF assms(1) refl True] by (rule spsc_step.intros(2))
    moreover have "spsc_step ?s1 ?s2"
      using copy [of ?s1] by (auto intro: spsc_step.intros(2))
    moreover have "spsc_step ?s2 ?s3"
      using release [of ?s2] by (auto intro: spsc_step.intros(2))
    moreover have "?s3 = s\<lparr>queue := q', rcvd := (case r of Some x \<Rightarrow> rcvd s @ [x] | None \<Rightarrow> rcvd s)\<rparr>"
      using assms True by (cases s) (auto simp: pull_iter_def Let_def)
    ultimately show ?thesis using steps_trans3 [of s ?s1 ?s2 ?s3] by simp
  next
    case False
    then have "r = None" "q' = ?q" using assms(2) by (auto simp: pull_iter_def Let_def)
    then show ?thesis
      using look [OF assms(1)] by (cases s) (auto intro: spsc_step.intros(2))
  qed
qed

lemma queue_size_step: "spsc_step s s' \<Longrightarrow> m_queueSize (queue s') = m_queueSize (queue s)"
  by (auto elim!: spsc_step.cases producer_step.cases consumer_step.cases
      simp: store_elem_def publish_def acq_flush_def setPublishBatch_def copy_out_def release_slot_def)

section \<open>Contents, and the queue contract\<close>

definition ring_contents :: "'a acq \<Rightarrow> 'a list" where
  "ring_contents q = map (\<lambda>i. m_data q ! ((m_write q + i) mod m_queueSize q))
     [0..<(m_localWrite q + m_queueSize q - m_write q) mod m_queueSize q]"

definition queue_wf :: "'a acq \<Rightarrow> bool" where
  "queue_wf q \<longleftrightarrow> (\<exists>snt rcv. spsc_inv \<lparr>queue = q, ppc = PIdle, cpc = CIdle, sent = snt, rcvd = rcv\<rparr>)"

lemma ring_distance:
  fixes S R n :: nat
  assumes "R \<le> S" and "S < R + n"
  shows "(S mod n + n - R mod n) mod n = S - R"
proof -
  have "0 < n" using assms by simp
  then have le: "R mod n \<le> S mod n + n" by (meson less_imp_le mod_less_divisor trans_le_add2)
  have "int ((S mod n + n - R mod n) mod n) = ((int S mod int n - int R mod int n) + int n) mod int n"
    using le by (simp add: of_nat_mod of_nat_diff algebra_simps)
  also have "\<dots> = (int S - int R) mod int n"
    by (simp only: mod_add_self2 mod_diff_eq)
  also have "\<dots> = int (S - R)" using assms by (simp add: of_nat_diff)
  finally show ?thesis by linarith
qed

lemma spsc_inv_bounds:
  assumes "spsc_inv s"
  shows "length (rcvd s) \<le> length (sent s)" "length (sent s) < length (rcvd s) + m_queueSize (queue s)"
    "m_localWrite (queue s) = length (sent s) mod m_queueSize (queue s)"
    "m_write (queue s) = length (rcvd s) mod m_queueSize (queue s)"
    "rcvd s = take (length (rcvd s)) (sent s)"
  using assms by (auto simp: spsc_inv_def ring_inv_def Let_def)

lemma ring_contents_eq:
  assumes "spsc_inv s"
  shows "ring_contents (queue s) = drop (length (rcvd s)) (sent s)"
proof (rule nth_equalityI)
  note b = spsc_inv_bounds [OF assms]
  show len: "length (ring_contents (queue s)) = length (drop (length (rcvd s)) (sent s))"
    using b by (simp add: ring_contents_def ring_distance)
  fix i assume "i < length (ring_contents (queue s))"
  then have i: "i < length (sent s) - length (rcvd s)" using len by simp
  have "\<forall>i. length (rcvd s) \<le> i \<and> i < length (sent s) \<longrightarrow> m_data (queue s) ! (i mod m_queueSize (queue s)) = sent s ! i"
    using assms by (auto simp: spsc_inv_def ring_inv_def Let_def)
  then show "ring_contents (queue s) ! i = drop (length (rcvd s)) (sent s) ! i"
    using i b by (simp add: ring_contents_def ring_distance mod_simps)
qed

lemma steps_inv: "steps_to s s' \<Longrightarrow> spsc_inv s \<Longrightarrow> spsc_inv s'"
  by (induction rule: rtranclp_induct)
     (auto elim!: spsc_step.cases intro: producer_step_inv consumer_step_inv)

lemma push_iter_wf:
  assumes "queue_wf q" and "push_iter x q = (acc, q')"
  shows "queue_wf q' \<and> ring_contents q' = (if acc then ring_contents q @ [x] else ring_contents q)"
proof -
  obtain snt rcv where inv: "spsc_inv \<lparr>queue = q, ppc = PIdle, cpc = CIdle, sent = snt, rcvd = rcv\<rparr>"
    (is "spsc_inv ?s") using assms(1) by (auto simp: queue_wf_def)
  let ?s' = "\<lparr>queue = q', ppc = PIdle, cpc = CIdle, sent = (if acc then snt @ [x] else snt), rcvd = rcv\<rparr>"
  have inv': "spsc_inv ?s'"
    using steps_inv [OF push_iter_steps [of ?s x acc q'] inv] assms(2) by (cases acc) simp_all
  then have wf': "queue_wf q'" unfolding queue_wf_def by blast
  have "length rcv \<le> length snt" using spsc_inv_bounds(1) [OF inv] by simp
  then show ?thesis
    using ring_contents_eq [OF inv] ring_contents_eq [OF inv'] wf' by simp
qed

lemma pull_iter_wf:
  assumes "queue_wf q" and "pull_iter q = (r, q')"
  shows "queue_wf q' \<and> ring_contents q = (case r of Some x \<Rightarrow> x # ring_contents q' | None \<Rightarrow> ring_contents q')"
proof -
  obtain snt rcv where inv: "spsc_inv \<lparr>queue = q, ppc = PIdle, cpc = CIdle, sent = snt, rcvd = rcv\<rparr>"
    (is "spsc_inv ?s") using assms(1) by (auto simp: queue_wf_def)
  let ?rcv = "case r of Some x \<Rightarrow> rcv @ [x] | None \<Rightarrow> rcv"
  let ?s' = "\<lparr>queue = q', ppc = PIdle, cpc = CIdle, sent = snt, rcvd = ?rcv\<rparr>"
  have inv': "spsc_inv ?s'"
    using steps_inv [OF pull_iter_steps [of ?s r q'] inv] assms(2) by (cases r) simp_all
  then have wf': "queue_wf q'" unfolding queue_wf_def by blast
  have t: "?rcv = take (length ?rcv) snt" "length ?rcv \<le> length snt"
    using spsc_inv_bounds [OF inv'] by simp_all
  have "drop (length rcv) snt = (case r of Some x \<Rightarrow> x # drop (length ?rcv) snt | None \<Rightarrow> drop (length ?rcv) snt)"
  proof (cases r)
    case (Some x)
    then have "rcv @ [x] = take (length rcv + 1) snt" using t(1) by simp
    moreover have "length rcv < length snt" using t(2) Some by simp
    ultimately have "rcv @ [x] = take (length rcv + 1) snt" "length rcv < length snt" by simp_all
    then have "snt ! length rcv = x"
      using nth_append_length [of rcv x "[]"] by simp
    then show ?thesis using Some \<open>length rcv < length snt\<close> Cons_nth_drop_Suc [of "length rcv" snt] by simp
  qed simp
  then show ?thesis
    using ring_contents_eq [OF inv] ring_contents_eq [OF inv'] wf' by (cases r) simp_all
qed

lemma flush_wf:
  assumes "queue_wf q"
  shows "queue_wf (acq_flush q) \<and> ring_contents (acq_flush q) = ring_contents q \<and> m_pending (acq_flush q) = 0"
proof -
  obtain snt rcv where inv: "spsc_inv \<lparr>queue = q, ppc = PIdle, cpc = CIdle, sent = snt, rcvd = rcv\<rparr>"
    (is "spsc_inv ?s") using assms(1) by (auto simp: queue_wf_def)
  have "spsc_inv (?s\<lparr>queue := acq_flush q\<rparr>)"
    using producer_step_inv [OF producer_step.flush [of ?s] inv] by simp
  then have "spsc_inv \<lparr>queue = acq_flush q, ppc = PIdle, cpc = CIdle, sent = snt, rcvd = rcv\<rparr>"
    by simp
  then have "queue_wf (acq_flush q)"
    unfolding queue_wf_def by blast
  then show ?thesis
    by (simp add: acq_flush_def ring_contents_def)
qed

lemma pull_iter_published:
  assumes "queue_wf q" and "m_pending q = 0" and "ring_contents q \<noteq> []"
  shows "fst (pull_iter q) \<noteq> None \<and> m_pending (snd (pull_iter q)) = 0"
proof -
  obtain snt rcv where inv: "spsc_inv \<lparr>queue = q, ppc = PIdle, cpc = CIdle, sent = snt, rcvd = rcv\<rparr>"
    (is "spsc_inv ?s") using assms(1) by (auto simp: queue_wf_def)
  have lt: "length rcv < length snt" using ring_contents_eq [OF inv] assms(3) by simp
  have "m_read q = length snt mod m_queueSize q" "m_write q = length rcv mod m_queueSize q"
    "length snt < length rcv + m_queueSize q"
    using inv assms(2) by (auto simp: spsc_inv_def ring_inv_def Let_def)
  then have "m_write q \<noteq> m_read q"
    using mod_window_inj [of "length rcv" "m_queueSize q" "length snt" "length rcv"] lt by auto
  then show ?thesis
    using assms(2) by (auto simp: pull_iter_def refresh_producer_def Let_def copy_out_def release_slot_def)
qed

interpretation acq: fifo_queue push_iter pull_iter acq_flush ring_contents queue_wf "\<lambda>q. m_pending q = 0"
proof (unfold_locales, goal_cases)
  case (1 s x acc s')
  then show ?case using push_iter_wf [of s x acc s'] by blast
next
  case (2 s x s')
  then show ?case using pull_iter_wf [of s "Some x" s'] by simp
next
  case (3 s s')
  then show ?case using pull_iter_wf [of s None s'] by simp
next
  case (4 s)
  then show ?case by (rule flush_wf)
next
  case (5 s)
  then show ?case by (rule pull_iter_published)
qed

section \<open>Properties\<close>

text \<open>C1. In every reachable state, whatever the interleaving of the two threads' accesses, the
  elements pulled so far are a prefix of the elements pushed, in push order; the rest is exactly
  what the ring holds between the two indices, and it never fills the ring.\<close>

theorem spsc_delivers_in_order:
  assumes "spsc_reachable n d s" and "2 \<le> n"
  shows "sent s = rcvd s @ ring_contents (queue s) \<and> length (ring_contents (queue s)) < n"
proof -
  have inv: "spsc_inv s" using spsc_reachable_inv [OF assms] .
  have size: "m_queueSize (queue s) = n"
    using assms(1) unfolding spsc_reachable_def
    by (induction rule: rtranclp_induct) (auto simp: spsc_init_def acq_new_def queue_size_step)
  have "sent s = take (length (rcvd s)) (sent s) @ drop (length (rcvd s)) (sent s)" by simp
  then have "sent s = rcvd s @ ring_contents (queue s)"
    using spsc_inv_bounds(5) [OF inv] ring_contents_eq [OF inv] by simp
  then show ?thesis
    using spsc_inv_bounds(1,2) [OF inv] ring_contents_eq [OF inv] size by auto
qed

text \<open>A run that pushes 7 into a queue of four slots.\<close>

definition demo_state :: "nat spsc" where
  "demo_state = (spsc_init 4 0)\<lparr>queue := snd (push_iter 7 (acq_new 4 0)), sent := [7]\<rparr>"

lemma demo_reachable: "spsc_reachable 4 0 demo_state"
proof -
  have "push_iter 7 (acq_new 4 (0::nat)) = (True, snd (push_iter 7 (acq_new 4 0)))"
    by (simp add: push_iter_def acq_new_def refresh_consumer_def queueIdxInc_def)
  then show ?thesis
    using push_iter_steps [of "spsc_init 4 (0::nat)" 7 True "snd (push_iter 7 (acq_new 4 0))"]
    by (simp add: spsc_reachable_def demo_state_def spsc_init_def)
qed

theorem spsc_delivers_in_order_witness:
  "spsc_reachable 4 0 demo_state \<and> ring_contents (queue demo_state) = [7]"
  using spsc_delivers_in_order [OF demo_reachable] demo_reachable
  by (simp add: demo_state_def spsc_init_def)

text \<open>The producer never overwrites an element that has not been pulled: when it is about to
  store, the slot it writes is different from the slot of every unread element.\<close>

theorem spsc_store_hits_free_slot:
  assumes "spsc_reachable n d s" and "2 \<le> n" and "ppc s = PStore obj"
    and "i < length (ring_contents (queue s))"
  shows "(m_write (queue s) + i) mod m_queueSize (queue s) \<noteq> m_localWrite (queue s)"
proof -
  let ?n = "m_queueSize (queue s)" and ?S = "length (sent s)" and ?R = "length (rcvd s)"
  have inv: "spsc_inv s" using spsc_reachable_inv [OF assms(1,2)] .
  then obtain k j where "ring_inv k j s" by (auto simp: spsc_inv_def)
  then have "?S + 1 < ?R + ?n" using assms(3) by (auto simp: ring_inv_def Let_def)
  moreover have "?R + i < ?S" using assms(4) ring_contents_eq [OF inv] by simp
  ultimately have "(?R + i) mod ?n \<noteq> ?S mod ?n"
    using mod_window_inj [of "?R + i" ?n ?S ?R] by auto
  then show ?thesis
    using spsc_inv_bounds [OF inv] by (simp add: mod_simps)
qed

definition demo_storing :: "nat spsc" where
  "demo_storing = demo_state\<lparr>ppc := PStore 8\<rparr>"

lemma demo_storing_reachable: "spsc_reachable 4 0 demo_storing"
proof -
  have a: "producer_step demo_state (demo_state\<lparr>ppc := PCheck 8\<rparr>)"
    by (rule begin_push) (simp add: demo_state_def spsc_init_def)
  have "producer_step (demo_state\<lparr>ppc := PCheck 8\<rparr>) demo_storing"
    using check_room [of "demo_state\<lparr>ppc := PCheck 8\<rparr>" 8 "queue demo_state"]
    by (simp add: demo_storing_def demo_state_def push_iter_def acq_new_def refresh_consumer_def queueIdxInc_def
        store_elem_def publish_def spsc_init_def)
  then show ?thesis
    using demo_reachable a unfolding spsc_reachable_def
    by (meson rtranclp.rtrancl_into_rtrancl spsc_step.intros(1))
qed

theorem spsc_store_hits_free_slot_witness:
  "ppc demo_storing = PStore 8 \<and> (m_write (queue demo_storing) + 0) mod m_queueSize (queue demo_storing)
     \<noteq> m_localWrite (queue demo_storing)"
proof -
  have p: "ppc demo_storing = PStore 8" by (simp add: demo_storing_def)
  have l: "0 < length (ring_contents (queue demo_storing))"
    by (simp add: demo_storing_def demo_state_def push_iter_def acq_new_def refresh_consumer_def queueIdxInc_def
        store_elem_def publish_def spsc_init_def ring_contents_def)
  show ?thesis
    using spsc_store_hits_free_slot [OF demo_storing_reachable _ p l] p by simp
qed

text \<open>C25. Batched publication loses nothing: once the producer flushes, as many pulls as there are
  elements hand out all of them, in order, and leave the queue empty.\<close>

theorem flush_then_drain:
  assumes "queue_wf q"
  shows "\<exists>q'. run_ops push_iter pull_iter acq_flush (replicate (length (ring_contents q)) Dequeue) (acq_flush q)
      = ([], ring_contents q, q') \<and> ring_contents q' = []"
  using acq.drain [of "acq_flush q"] acq.flush_law [OF assms] by simp

lemma queue_wf_new: "2 \<le> n \<Longrightarrow> queue_wf (acq_new n d)"
  using spsc_inv_init [of n d] unfolding queue_wf_def spsc_init_def by blast

theorem flush_then_drain_witness:
  "\<exists>q'. run_ops push_iter pull_iter acq_flush [Dequeue, Dequeue]
      (acq_flush (snd (snd (run_ops push_iter pull_iter acq_flush [Enqueue 5, Enqueue (6::nat)]
          (setPublishBatch 64 (acq_new 8 0))))))
      = ([], [5, 6], q') \<and> ring_contents q' = []"
proof -
  let ?q = "snd (snd (run_ops push_iter pull_iter acq_flush [Enqueue 5, Enqueue (6::nat)] (setPublishBatch 64 (acq_new 8 0))))"
  have "ring_contents ?q = [5, 6]"
    by (simp add: ring_contents_def push_iter_def acq_new_def refresh_consumer_def queueIdxInc_def store_elem_def
        publish_def setPublishBatch_def upt_rec)
  moreover have wf: "queue_wf (setPublishBatch 64 (acq_new 8 (0::nat)))"
    using queue_wf_new [of 8 "0::nat"]
    by (auto simp: queue_wf_def setPublishBatch_def spsc_inv_def ring_inv_def Let_def)
  moreover have "queue_wf ?q"
    using acq.run_fifo [OF wf] by (metis prod.collapse)
  ultimately show ?thesis using flush_then_drain [of ?q] by (simp add: numeral_2_eq_2)
qed

subsection \<open>Timeouts\<close>

declare acq_push.simps [simp del] acq_peek.simps [simp del] acq_pull.simps [simp del]

lemma acq_push_returns_started:
  assumes "0 < timeoutMS" and "0 < start" and "\<exists>e \<in> set env. start + timeoutMS \<le> snd e"
  shows "acq_push timeoutMS obj env start s \<noteq> None"
  using assms
proof (induction env arbitrary: s)
  case Nil
  then show ?case by simp
next
  case (Cons e env)
  obtain act tick where e: "e = (act, tick)" by (cases e)
  show ?case
  proof (cases "start + timeoutMS \<le> tick")
    case True
    then show ?thesis
      using e Cons.prems by (subst acq_push.simps) (simp split: prod.splits bool.splits)
  next
    case False
    then have "\<exists>e \<in> set env. start + timeoutMS \<le> snd e" using Cons.prems e by auto
    then show ?thesis
      using e Cons.prems Cons.IH by (subst acq_push.simps) (simp split: prod.splits bool.splits)
  qed
qed

text \<open>A push with a finite timeout always returns: as soon as the clock, read once per retry, has
  passed the first reading by the timeout, the loop has ended with \<open>Success\<close> or \<open>Failure\<close>, whatever
  the consumer did meanwhile.\<close>

theorem acq_push_returns:
  assumes "0 < timeoutMS" and "0 < t0" and "\<exists>e \<in> set env. t0 + timeoutMS \<le> snd e"
  shows "\<exists>r s'. acq_push timeoutMS obj ((act, t0) # env) 0 s = Some (r, s')"
proof -
  have "acq_push timeoutMS obj ((act, t0) # env) 0 s \<noteq> None"
    using assms acq_push_returns_started [of timeoutMS t0 env]
    by (subst acq_push.simps) (simp split: prod.splits bool.splits)
  then show ?thesis by auto
qed

theorem acq_push_returns_witness:
  "\<exists>r s'. acq_push 10 (7::nat) [(id, 100), (id, 105), (id, 110)] 0
     (snd (snd (run_ops push_iter pull_iter acq_flush [Enqueue 5] (acq_new 2 0)))) = Some (r, s')"
  by (rule acq_push_returns) simp_all

text \<open>When \<open>pull\<close> gives up on an empty queue it returns the default element and leaves the
  caller's result variable as it was, while \<open>peek\<close> reports \<open>Timeout\<close> in the same situation.\<close>

theorem pull_timeout_leaves_result:
  assumes "0 < timeoutMS" and "0 < t0" and "0 < n"
  shows "(\<exists>s'. acq_pull r timeoutMS [(id, t0, False), (id, t0 + timeoutMS, False)] 0 (acq_new n d) = Some (r, d, s'))
    \<and> (\<exists>s'. acq_peek timeoutMS [(id, t0, False), (id, t0 + timeoutMS, False)] 0 (acq_new n d) = Some (Timeout, d, s'))"
proof -
  have s: "pull_iter (acq_new n d) = (None, acq_new n d)" "peek_iter (acq_new n d) = (None, acq_new n d)"
    and dflt: "m_default (acq_new n d) = d"
    by (simp_all add: pull_iter_def peek_iter_def refresh_producer_def acq_new_def Let_def)
  then show ?thesis
    using assms by (simp add: acq_pull.simps acq_peek.simps Let_def)
qed

theorem pull_timeout_leaves_result_witness:
  "(\<exists>s'. acq_pull Success 10 [(id, 1, False), (id, 1 + 10, False)] 0 (acq_new 4 (0::nat)) = Some (Success, 0, s'))
   \<and> (\<exists>s'. acq_peek 10 [(id, 1, False), (id, 1 + 10, False)] 0 (acq_new 4 (0::nat)) = Some (Timeout, 0, s'))"
  using pull_timeout_leaves_result [of 10 1 4 Success "0::nat"] by simp

end
