(* ===== verification/Circular_Queue.thy ===== *)
theory Circular_Queue
  imports Bridge_Prelude
begin

text \<open>
  \<open>CircularQueue<uint32_t>\<close> of \<open>util_circularqueue.h\<close>: the word ring under the data channel.
  The ring lives in shared memory, so it is a byte \<^typ>\<open>memory\<close> that both ends are given;
  the private members of one end are the record \<open>queue_end\<close>.  Positions are natural
  numbers: \<open>size_t\<close> cannot wrap because a position never exceeds \<open>m_size\<close>, which is bounded by the size
  of the mapping.  An access at \<open>m_pos \<ge> m_size\<close> is the error value \<open>OutOfBounds\<close>.
\<close>

section \<open>State\<close>

record queue_end =
  m_size :: nat
  m_pos :: nat
  m_batchSize :: nat
  m_batchInProgress :: bool

type_synonym queue = "queue_end \<times> memory"

definition cq_new :: "nat \<Rightarrow> queue_end" where
  "cq_new memSize = \<lparr>m_size = memSize div 4, m_pos = 0, m_batchSize = 0, m_batchInProgress = False\<rparr>"

section \<open>Operations\<close>

definition store_word :: "queue_end \<Rightarrow> u32 \<Rightarrow> memory \<Rightarrow> memory or_error" where
  "store_word q w mem =
     (if m_pos q < m_size q then Inr (mem_write (4 * m_pos q) (u32_bytes w) mem) else Inl OutOfBounds)"

definition load_word :: "queue_end \<Rightarrow> memory \<Rightarrow> u32 or_error" where
  "load_word q mem =
     (if m_pos q < m_size q then Inr (u32_of_bytes (mem_read (4 * m_pos q) 4 mem)) else Inl OutOfBounds)"

definition cq_pop :: "queue_end \<Rightarrow> Result \<times> queue_end" where
  "cq_pop q = (Success, q\<lparr>m_pos := (if m_pos q + 1 < m_size q then m_pos q + 1 else 0)\<rparr>)"

definition pushImpl :: "bool \<Rightarrow> u32 \<Rightarrow> queue \<Rightarrow> (Result \<times> queue) or_error" where
  "pushImpl batching obj s = (case s of (q, mem) \<Rightarrow>
     let q1 = (if batching then q\<lparr>m_batchSize := m_batchSize q + 1\<rparr> else q) in
     bindE (store_word q1 obj mem) (\<lambda>mem1. let (r, q2) = cq_pop q1 in Inr (r, (q2, mem1))))"

definition cq_push :: "u32 \<Rightarrow> queue \<Rightarrow> (Result \<times> queue) or_error" where
  "cq_push obj s = (if m_batchInProgress (fst s) then pushImpl True obj s else pushImpl False obj s)"

fun push_fold :: "u32 list \<Rightarrow> queue \<Rightarrow> queue or_error" where
  "push_fold [] s = Inr s"
| "push_fold (w # ws) s = bindE (pushImpl False w s) (\<lambda>(_, s1). push_fold ws s1)"

definition cq_push_many :: "u32 list \<Rightarrow> queue \<Rightarrow> (Result \<times> queue) or_error" where
  "cq_push_many objs s = (case s of (q, mem) \<Rightarrow>
     let count = length objs;
         q1 = (if m_batchInProgress q then q\<lparr>m_batchSize := m_batchSize q + count\<rparr> else q) in
     if m_size q1 - m_pos q1 > count
     then Inr (Success, (q1\<lparr>m_pos := m_pos q1 + count\<rparr>,
                mem_write (4 * m_pos q1) (concat (map u32_bytes objs)) mem))
     else bindE (push_fold objs (q1, mem)) (\<lambda>s1. Inr (Success, s1)))"

definition cq_peek :: "queue \<Rightarrow> u32 or_error" where
  "cq_peek s = load_word (fst s) (snd s)"

definition cq_pull :: "queue \<Rightarrow> (u32 \<times> queue_end) or_error" where
  "cq_pull s = bindE (load_word (fst s) (snd s)) (\<lambda>w. Inr (w, snd (cq_pop (fst s))))"

definition begin_batch :: "queue_end \<Rightarrow> (Result \<times> queue_end) or_error" where
  "begin_batch q =
     (if m_batchInProgress q then Inl BatchAlreadyInProgress
      else Inr (Success, q\<lparr>m_batchInProgress := True, m_batchSize := 0\<rparr>))"

definition end_batch :: "queue_end \<Rightarrow> nat \<times> queue_end" where
  "end_batch q =
     (if \<not> m_batchInProgress q then (0, q)
      else (m_batchSize q, q\<lparr>m_batchInProgress := False, m_batchSize := 0\<rparr>))"

section \<open>Invariant\<close>

definition queue_ok :: "queue \<Rightarrow> bool" where
  "queue_ok s \<longleftrightarrow> m_pos (fst s) < m_size (fst s) \<and> 4 * m_size (fst s) \<le> length (snd s)"

definition cell :: "nat \<Rightarrow> memory \<Rightarrow> u32" where
  "cell c mem = u32_of_bytes (mem_read (4 * c) 4 mem)"

lemma queue_okD:
  assumes "queue_ok (q, mem)"
  shows "m_pos q < m_size q" and "4 * m_size q \<le> length mem"
  using assms by (simp_all add: queue_ok_def)

lemma queue_ok_new: "0 < memSize div 4 \<Longrightarrow> memSize \<le> length mem \<Longrightarrow> queue_ok (cq_new memSize, mem)"
  by (simp add: queue_ok_def cq_new_def)

lemma pos_batch_commute [simp]: "q\<lparr>m_pos := p, m_batchSize := b\<rparr> = q\<lparr>m_batchSize := b, m_pos := p\<rparr>"
  by (cases q) simp

lemma ring_next: "p < n \<Longrightarrow> (if p + 1 < n then p + 1 else 0) = (p + 1) mod (n::nat)"
  by (cases "p + 1 = n") auto

lemma pos_cq_pop [simp]: "m_pos q < m_size q \<Longrightarrow> snd (cq_pop q) = q\<lparr>m_pos := (m_pos q + 1) mod m_size q\<rparr>"
  by (simp only: cq_pop_def snd_conv ring_next)

lemma fst_cq_pop [simp]: "fst (cq_pop q) = Success"
  by (simp add: cq_pop_def)

lemma pushImpl_eq:
  assumes "queue_ok (q, mem)"
  shows "pushImpl b w (q, mem) =
    Inr (Success, (q\<lparr>m_batchSize := (if b then m_batchSize q + 1 else m_batchSize q),
                    m_pos := (m_pos q + 1) mod m_size q\<rparr>,
         mem_write (4 * m_pos q) (u32_bytes w) mem))"
  using queue_okD [OF assms] ring_next [OF queue_okD(1) [OF assms]]
  by (cases "m_pos q + 1 < m_size q") (simp_all add: pushImpl_def store_word_def cq_pop_def Let_def)

lemma cq_push_eq:
  assumes "queue_ok (q, mem)"
  shows "cq_push w (q, mem) =
    Inr (Success, (q\<lparr>m_batchSize := (if m_batchInProgress q then m_batchSize q + 1 else m_batchSize q),
                    m_pos := (m_pos q + 1) mod m_size q\<rparr>,
         mem_write (4 * m_pos q) (u32_bytes w) mem))"
  by (auto simp: cq_push_def pushImpl_eq [OF assms])

lemma cq_pull_eq:
  assumes "queue_ok (q, mem)"
  shows "cq_pull (q, mem) = Inr (cell (m_pos q) mem, q\<lparr>m_pos := (m_pos q + 1) mod m_size q\<rparr>)"
  using queue_okD [OF assms] by (simp add: cq_pull_def load_word_def cell_def)

lemma queue_ok_upd:
  assumes "queue_ok (q, mem)" and "m_size q' = m_size q" and "m_pos q' < m_size q" and "length mem' = length mem"
  shows "queue_ok (q', mem')"
  using assms by (simp add: queue_ok_def)

lemma queue_ok_push:
  assumes ok: "queue_ok (q, mem)" and "cq_push w (q, mem) = Inr (r, s')"
  shows "r = Success \<and> queue_ok s'"
proof -
  note d = queue_okD [OF ok]
  have "length (mem_write (4 * m_pos q) (u32_bytes w) mem) = length mem"
    using d by (intro length_mem_write) simp
  then show ?thesis
    using assms(2) d by (auto simp: cq_push_eq [OF ok] queue_ok_def)
qed

lemma cell_write_same:
  "4 * c + 4 \<le> length mem \<Longrightarrow> cell c (mem_write (4 * c) (u32_bytes w) mem) = w"
  by (simp add: cell_def)

lemma cell_write_other:
  "4 * c + 4 \<le> length mem \<Longrightarrow> 4 * d + 4 \<le> length mem \<Longrightarrow> c \<noteq> d \<Longrightarrow>
   cell d (mem_write (4 * c) (u32_bytes w) mem) = cell d mem"
  unfolding cell_def by (subst mem_read_write_disjoint) auto

lemma mem_write_write:
  assumes "off + length bs + length cs \<le> length m"
  shows "mem_write (off + length bs) cs (mem_write off bs m) = mem_write off (bs @ cs) m"
  using assms by (simp add: mem_write_def ac_simps)

section \<open>\<open>push_many\<close> agrees with repeated \<open>push\<close>\<close>

text \<open>The reference: the caller pushes the words one by one.\<close>

fun push_each :: "u32 list \<Rightarrow> queue \<Rightarrow> queue or_error" where
  "push_each [] s = Inr s"
| "push_each (w # ws) s = bindE (cq_push w s) (\<lambda>(_, s1). push_each ws s1)"

lemma queue_ok_step:
  assumes "queue_ok (q, mem)"
  shows "queue_ok (q\<lparr>m_batchSize := b, m_pos := (m_pos q + 1) mod m_size q\<rparr>,
           mem_write (4 * m_pos q) (u32_bytes w) mem)"
proof -
  note d = queue_okD [OF assms]
  have "4 * m_pos q + 4 \<le> length mem"
    using d by linarith
  then show ?thesis
    using d by (simp add: queue_ok_def)
qed

lemma push_each_push_fold:
  assumes "queue_ok (q, mem)"
  shows "push_each ws (q, mem) =
    push_fold ws (q\<lparr>m_batchSize := (if m_batchInProgress q then m_batchSize q + length ws else m_batchSize q)\<rparr>, mem)"
  using assms
proof (induction ws arbitrary: q mem)
  case (Cons w ws)
  have ok: "queue_ok (q\<lparr>m_batchSize := b\<rparr>, mem)" for b
    using Cons.prems by (simp add: queue_ok_def)
  note IH = Cons.IH [OF queue_ok_step [OF Cons.prems]]
  show ?case
  proof (cases "m_batchInProgress q")
    case True
    then show ?thesis
      using Cons.prems IH [of "m_batchSize q + 1" w] by (simp add: cq_push_eq pushImpl_eq [OF ok])
  next
    case False
    then show ?thesis
      using Cons.prems IH [of "m_batchSize q" w] by (simp add: cq_push_eq pushImpl_eq)
  qed
qed simp

lemma push_fold_block:
  assumes "queue_ok (q, mem)" and "m_pos q + length ws < m_size q"
  shows "push_fold ws (q, mem) =
    Inr (q\<lparr>m_pos := m_pos q + length ws\<rparr>, mem_write (4 * m_pos q) (concat (map u32_bytes ws)) mem)"
  using assms
proof (induction ws arbitrary: q mem)
  case Nil
  then show ?case by (simp add: mem_write_def)
next
  case (Cons w ws)
  let ?q = "q\<lparr>m_pos := m_pos q + 1\<rparr>" and ?m = "mem_write (4 * m_pos q) (u32_bytes w) mem"
  have len: "length (concat (map u32_bytes ws)) = 4 * length ws" for ws
    by (induction ws) auto
  have "queue_ok (?q, ?m)"
    using queue_ok_step [OF Cons.prems(1), of "m_batchSize q" w] Cons.prems by simp
  moreover have "pushImpl False w (q, mem) = Inr (Success, (?q, ?m))"
    using Cons.prems by (simp add: pushImpl_eq)
  moreover have "mem_write (4 * m_pos q + 4) (concat (map u32_bytes ws)) ?m
      = mem_write (4 * m_pos q) (u32_bytes w @ concat (map u32_bytes ws)) mem"
    using mem_write_write [of "4 * m_pos q" "u32_bytes w" "concat (map u32_bytes ws)" mem]
      queue_okD [OF Cons.prems(1)] Cons.prems(2) by (simp add: len)
  ultimately show ?case
    using Cons.prems Cons.IH [of ?q ?m] by (simp add: algebra_simps)
qed

lemma cq_push_many_each:
  assumes "queue_ok s"
  shows "cq_push_many ws s = bindE (push_each ws s) (\<lambda>s1. Inr (Success, s1))"
proof (cases s)
  case (Pair q mem)
  let ?q = "q\<lparr>m_batchSize := (if m_batchInProgress q then m_batchSize q + length ws else m_batchSize q)\<rparr>"
  have ok: "queue_ok (q, mem)" and ok': "queue_ok (?q, mem)"
    using assms Pair by (simp_all add: queue_ok_def)
  have "push_each ws s = push_fold ws (?q, mem)"
    using push_each_push_fold [OF ok] Pair by simp
  then show ?thesis
    using push_fold_block [OF ok'] queue_okD [OF ok] Pair
    by (cases "m_pos q + length ws < m_size q") (auto simp: cq_push_many_def Let_def)
qed

section \<open>Properties\<close>

text \<open>\<open>push_many\<close>, which writes the words as one block when they fit before the end of the
  ring, has the same effect as pushing the words one by one, the batch counter and the wrap-around at
  the end of the ring included.\<close>

theorem push_many_is_repeated_push:
  assumes "queue_ok s"
  shows "cq_push_many ws s = bindE (push_each ws s) (\<lambda>s1. Inr (Success, s1))"
  by (rule cq_push_many_each [OF assms])

theorem push_many_is_repeated_push_witness:
  "queue_ok (cq_new 12, replicate 12 0)
   \<and> cq_push_many [1, 2, 3, 4] (cq_new 12, replicate 12 0)
     = bindE (push_each [1, 2, 3, 4] (cq_new 12, replicate 12 0)) (\<lambda>s1. Inr (Success, s1))"
  using push_many_is_repeated_push [of "(cq_new 12, replicate 12 0)" "[1, 2, 3, 4]"]
  by (simp add: queue_ok_def cq_new_def)

end
