(* ===== verification/Circular_Buffer.thy ===== *)
theory Circular_Buffer
  imports Circular_Queue
begin

text \<open>
  \<open>CircularBuffer<uint32_t>\<close> (\<open>DataQueue\<close>) of \<open>util_circularbuffer.h\<close>: words and
  size-prefixed objects in the word ring.  An object is never split at the end of the ring: both
  the writer and the reader roll over to position 0 when it does not fit.  The theory shows that a
  reader that pulls the shapes the writer pushed gets the same items and stays at the writer's position, which is what
  \<open>CHECK_DATA_OFFSET\<close> of the server asserts after each command.
\<close>

section \<open>Operations\<close>

definition chunk_size :: "nat \<Rightarrow> nat" where
  "chunk_size sz = unat (align (word_of_nat sz :: u32) 4) div 4"

definition ensure_space :: "nat \<Rightarrow> queue_end \<Rightarrow> (nat \<times> queue_end) or_error" where
  "ensure_space sz q = (let space_needed = chunk_size sz in
     if m_pos q + space_needed \<ge> m_size q
     then if space_needed > m_size q then Inl OutOfBufferMemory
          else Inr (space_needed, q\<lparr>m_pos := 0\<rparr>)
     else Inr (space_needed, q))"

definition advance :: "bool \<Rightarrow> nat \<Rightarrow> queue_end \<Rightarrow> queue_end" where
  "advance space_ensured step q = (let q1 = q\<lparr>m_pos := m_pos q + step\<rparr> in
     if space_ensured then q1 else q1\<lparr>m_pos := m_pos q1 mod m_size q1\<rparr>)"

text \<open>\<open>memcpy(m_data + m_pos, obj, sz)\<close>, undefined when it leaves the array.\<close>

definition copy_in :: "memory \<Rightarrow> queue \<Rightarrow> memory or_error" where
  "copy_in bs s = (case s of (q, mem) \<Rightarrow>
     if 4 * m_pos q + length bs \<le> 4 * m_size q then Inr (mem_write (4 * m_pos q) bs mem) else Inl OutOfBounds)"

definition cb_push :: "memory option \<Rightarrow> queue \<Rightarrow> (Result \<times> queue) or_error" where
  "cb_push obj s = (case obj of
     Some bs \<Rightarrow> bindE (cq_push (word_of_nat (length bs)) s) (\<lambda>(r, (q, mem)).
       if r = Success
       then bindE (ensure_space (length bs) q) (\<lambda>(ensured_space, q1).
            bindE (copy_in bs (q1, mem)) (\<lambda>mem1. Inr (r, (advance True ensured_space q1, mem1))))
       else Inr (r, (q, mem)))
   | None \<Rightarrow> bindE (cq_push 0 s) (\<lambda>(r, s1). if r = Success then Inr (r, s1) else Inr (Failure, s1)))"

definition begin_blob_push :: "nat \<Rightarrow> queue \<Rightarrow> (Result \<times> nat option \<times> queue) or_error" where
  "begin_blob_push sz s = bindE (cq_push (word_of_nat sz) s) (\<lambda>(r, (q, mem)).
     if r = Success
     then bindE (ensure_space sz q) (\<lambda>(ensured_space, q1).
       if ensured_space \<noteq> 0 then Inr (Success, Some (m_pos q1), (advance True ensured_space q1, mem))
       else Inr (Failure, None, (q1, mem)))
     else Inr (Failure, None, (q, mem)))"

text \<open>\<open>pull(void**)\<close>: the size word and the index of the object in the ring (\<open>None\<close> for \<open>nullptr\<close>).\<close>

definition cb_pull :: "queue \<Rightarrow> (u32 \<times> nat option \<times> queue_end) or_error" where
  "cb_pull s = bindE (cq_pull s) (\<lambda>(sz, q).
     bindE (ensure_space (unat sz) q) (\<lambda>(ensured_space, q1).
       if ensured_space \<noteq> 0 then Inr (sz, Some (m_pos q1), advance True ensured_space q1)
       else Inr (sz, None, q1)))"

text \<open>\<open>pull_and_copy<V>\<close>: copies \<open>sizeof(V)\<close> bytes, or the default value of \<open>V\<close>.\<close>

definition pull_and_copy :: "nat \<Rightarrow> memory \<Rightarrow> queue \<Rightarrow> (u32 \<times> memory \<times> queue_end) or_error" where
  "pull_and_copy sizeofV defaultV s = bindE (cq_pull s) (\<lambda>(sz, q).
     bindE (ensure_space (unat sz) q) (\<lambda>(ensured_space, q1).
       if ensured_space \<noteq> 0
       then Inr (sz, mem_read (4 * m_pos q1) sizeofV (snd s), advance True ensured_space q1)
       else Inr (sz, defaultV, q1)))"

section \<open>Sequences of items\<close>

text \<open>What one command puts on the channel: words and objects.\<close>

datatype item = Word u32 | Obj "memory option"
datatype shape = WordShape | ObjShape

primrec item_shape :: "item \<Rightarrow> shape" where
  "item_shape (Word _) = WordShape"
| "item_shape (Obj _) = ObjShape"

text \<open>What the receiver makes of an item: an empty object arrives as a null pointer.\<close>

primrec received :: "item \<Rightarrow> item" where
  "received (Word w) = Word w"
| "received (Obj b) = Obj (if b = Some [] then None else b)"

primrec write_item :: "item \<Rightarrow> queue \<Rightarrow> queue or_error" where
  "write_item (Word w) s = bindE (cq_push w s) (\<lambda>(_, s1). Inr s1)"
| "write_item (Obj b) s = bindE (cb_push b s) (\<lambda>(_, s1). Inr s1)"

primrec read_item :: "shape \<Rightarrow> queue \<Rightarrow> (item \<times> queue_end) or_error" where
  "read_item WordShape s = bindE (cq_pull s) (\<lambda>(w, q). Inr (Word w, q))"
| "read_item ObjShape s = bindE (cb_pull s) (\<lambda>(sz, p, q). Inr (Obj (case p of None \<Rightarrow> None
     | Some i \<Rightarrow> Some (mem_read (4 * i) (unat sz) (snd s))), q))"

fun write_items :: "item list \<Rightarrow> queue \<Rightarrow> queue or_error" where
  "write_items [] s = Inr s"
| "write_items (x # xs) s = bindE (write_item x s) (write_items xs)"

fun read_items :: "shape list \<Rightarrow> queue \<Rightarrow> (item list \<times> queue_end) or_error" where
  "read_items [] s = Inr ([], fst s)"
| "read_items (x # xs) s = bindE (read_item x s) (\<lambda>(i, q).
     bindE (read_items xs (q, snd s)) (\<lambda>(is, q1). Inr (i # is, q1)))"

text \<open>The number of ring cells an item takes from a position, the cells skipped by a roll-over included.\<close>

definition obj_span :: "nat \<Rightarrow> nat \<Rightarrow> nat \<Rightarrow> nat" where
  "obj_span sz pos n = (if pos + n \<ge> sz then (sz - pos) + n else n)"

primrec item_span :: "nat \<Rightarrow> nat \<Rightarrow> item \<Rightarrow> nat" where
  "item_span sz pos (Word _) = 1"
| "item_span sz pos (Obj b) = 1 + (case b of None \<Rightarrow> 0
     | Some bs \<Rightarrow> obj_span sz ((pos + 1) mod sz) (chunk_size (length bs)))"

fun items_span :: "nat \<Rightarrow> nat \<Rightarrow> item list \<Rightarrow> nat" where
  "items_span sz pos [] = 0"
| "items_span sz pos (x # xs) =
     item_span sz pos x + items_span sz ((pos + item_span sz pos x) mod sz) xs"

text \<open>An item fits a ring of \<open>sz\<close> words when its bytes leave one word for the roll-over test.\<close>

primrec item_fits :: "nat \<Rightarrow> item \<Rightarrow> bool" where
  "item_fits sz (Word _) \<longleftrightarrow> True"
| "item_fits sz (Obj b) \<longleftrightarrow> (case b of None \<Rightarrow> True
     | Some bs \<Rightarrow> length bs + 3 < 2 ^ 32 \<and> (length bs + 3) div 4 < sz)"

section \<open>Single items\<close>

lemma chunk_size_eq: "n + 3 < 2 ^ 32 \<Longrightarrow> chunk_size n = (n + 3) div 4"
  by (simp add: chunk_size_def unat_align_4)

lemma ensure_space_eq:
  assumes "chunk_size n < m_size q" and "m_pos q < m_size q"
  shows "ensure_space n q = Inr (chunk_size n, q\<lparr>m_pos := (if m_pos q + chunk_size n \<ge> m_size q then 0 else m_pos q)\<rparr>)"
  using assms by (auto simp: ensure_space_def Let_def)

lemma obj_span_pos:
  assumes "n < sz" and "p < sz"
  shows "(p + obj_span sz p n) mod sz = (if p + n \<ge> sz then 0 else p) + n"
  using assms by (auto simp: obj_span_def)

lemma obj_span_ge: "n \<le> obj_span sz p n"
  by (simp add: obj_span_def)

lemma ring_inj:
  fixes p j k n :: nat
  assumes "(p + j) mod n = (p + k) mod n" and "j < n" and "k < n"
  shows "j = k"
proof -
  have "j = k" if "(p + j) mod n = (p + k) mod n" "j \<le> k" "k < n" for j k :: nat
  proof -
    have "n dvd (p + k) - (p + j)"
      using that mod_eq_dvd_iff_nat [of "p + j" "p + k" n] by simp
    then show ?thesis
      using that by (auto dest: dvd_imp_le)
  qed
  from this [of j k] this [of k j] show ?thesis
    using assms by (cases "j \<le> k") auto
qed

text \<open>Cells \<open>(pos + k) mod n\<close> with \<open>k\<close> in the given range are the same in two memories.\<close>

definition same_cells :: "nat \<Rightarrow> nat \<Rightarrow> nat set \<Rightarrow> memory \<Rightarrow> memory \<Rightarrow> bool" where
  "same_cells n pos K m m' \<longleftrightarrow>
     (\<forall>k \<in> K. mem_read (4 * ((pos + k) mod n)) 4 m' = mem_read (4 * ((pos + k) mod n)) 4 m)"

lemma same_cells_trans:
  "same_cells n p K m m1 \<Longrightarrow> same_cells n p K m1 m2 \<Longrightarrow> same_cells n p K m m2"
  by (simp add: same_cells_def)

lemma same_cells_mono: "same_cells n p K m m' \<Longrightarrow> L \<subseteq> K \<Longrightarrow> same_cells n p L m m'"
  by (auto simp: same_cells_def)

lemma same_cells_shift:
  "same_cells n ((p + d) mod n) K m m' \<longleftrightarrow> same_cells n p ((+) d ` K) m m'"
  by (auto simp: same_cells_def mod_simps add.assoc)

lemma same_cells_round:
  assumes "same_cells n p {n..<n + k} m m'"
  shows "same_cells n p {..<k} m m'"
  unfolding same_cells_def
proof
  fix j assume "j \<in> {..<k}"
  then have "n + j \<in> {n..<n + k}" by simp
  moreover have "(p + (n + j)) mod n = (p + j) mod n" by (simp add: add.left_commute [of p n])
  ultimately show "mem_read (4 * ((p + j) mod n)) 4 m' = mem_read (4 * ((p + j) mod n)) 4 m"
    using assms unfolding same_cells_def by metis
qed

lemma mem_read_nth: "i < k \<Longrightarrow> off + k \<le> length m \<Longrightarrow> mem_read off k m ! i = m ! (off + i)"
  by (simp add: mem_read_def)

lemma length_mem_read: "off + k \<le> length m \<Longrightarrow> length (mem_read off k m) = k"
  by (simp add: mem_read_def)

lemma read_from_cells:
  assumes agree: "\<And>c. st \<le> c \<Longrightarrow> c < st + cnt \<Longrightarrow> mem_read (4 * c) 4 m' = mem_read (4 * c) 4 m"
    and len: "L \<le> 4 * cnt" "4 * (st + cnt) \<le> length m" "length m' = length m"
  shows "mem_read (4 * st) L m' = mem_read (4 * st) L m"
proof (rule nth_equalityI)
  show "length (mem_read (4 * st) L m') = length (mem_read (4 * st) L m)"
    using len by (simp add: mem_read_def)
next
  fix i assume "i < length (mem_read (4 * st) L m')"
  then have i: "i < L" using len by (simp add: mem_read_def)
  define c where "c = st + i div 4"
  have c: "st \<le> c" "c < st + cnt" using i len by (auto simp: c_def)
  have pos: "4 * st + i = 4 * c + i mod 4" by (simp add: c_def)
  have "m' ! (4 * c + i mod 4) = m ! (4 * c + i mod 4)"
    using arg_cong [OF agree [OF c], of "\<lambda>xs. xs ! (i mod 4)"] c len by (simp add: mem_read_nth)
  then show "mem_read (4 * st) L m' ! i = mem_read (4 * st) L m ! i"
    using i len pos by (simp add: mem_read_nth)
qed

text \<open>Where the object of an item starts, and that its cells are the last ones of the span.\<close>

definition obj_start :: "nat \<Rightarrow> nat \<Rightarrow> nat \<Rightarrow> nat" where
  "obj_start sz pos n = (if pos + n \<ge> sz then 0 else pos)"

lemma obj_start_ring:
  assumes "n < sz" and "p < sz" and "i < n"
  shows "obj_start sz ((p + 1) mod sz) n + i
    = (p + (1 + obj_span sz ((p + 1) mod sz) n - n + i)) mod sz"
proof -
  let ?p = "(p + 1) mod sz"
  define k where "k = obj_span sz ?p n - n + i"
  have "1 + obj_span sz ?p n - n + i = 1 + k"
    using obj_span_ge [of n sz ?p] by (simp add: k_def)
  moreover have "(p + (1 + k)) mod sz = (?p + k) mod sz"
    by (simp add: mod_simps)
  moreover have "?p < sz" using assms by simp
  moreover have "(?p + k) mod sz = obj_start sz ?p n + i"
  proof (cases "sz \<le> ?p + n")
    case True
    then have "?p + k = sz + i" using \<open>?p < sz\<close> by (simp add: k_def obj_span_def)
    then show ?thesis using True assms by (simp add: obj_start_def)
  next
    case False
    then show ?thesis using assms by (simp add: k_def obj_span_def obj_start_def)
  qed
  ultimately show ?thesis by simp
qed

lemma write_obj:
  assumes ok: "queue_ok (q, mem)" and fits: "item_fits (m_size q) (Obj (Some bs))"
  defines "n \<equiv> m_size q" and "p1 \<equiv> (m_pos q + 1) mod m_size q" and "c \<equiv> chunk_size (length bs)"
  defines "st \<equiv> obj_start n p1 c"
  shows "write_item (Obj (Some bs)) (q, mem) =
    Inr (q\<lparr>m_batchSize := (if m_batchInProgress q then m_batchSize q + 1 else m_batchSize q), m_pos := st + c\<rparr>,
         mem_write (4 * st) bs (mem_write (4 * m_pos q) (u32_bytes (word_of_nat (length bs))) mem))"
    and "4 * st + length bs \<le> 4 * n" and "st + c < n" and "length bs \<le> 4 * c" and "c < n"
proof -
  note d = queue_okD [OF ok]
  define b where "b = (if m_batchInProgress q then m_batchSize q + 1 else m_batchSize q)"
  have c: "c < n" "length bs \<le> 4 * c"
    using fits by (auto simp: c_def n_def chunk_size_eq)
  have p1: "p1 < n" using d by (simp add: p1_def n_def)
  show st: "4 * st + length bs \<le> 4 * n" "st + c < n"
    using c p1 by (auto simp: st_def obj_start_def)
  show "length bs \<le> 4 * c" "c < n" by (rule c)+
  have "ensure_space (length bs) (q\<lparr>m_batchSize := b, m_pos := p1\<rparr>)
      = Inr (c, q\<lparr>m_batchSize := b, m_pos := st\<rparr>)"
    using c p1 by (simp add: ensure_space_eq c_def n_def st_def obj_start_def)
  moreover have "cq_push (word_of_nat (length bs)) (q, mem) = Inr (Success, (q\<lparr>m_batchSize := b, m_pos := p1\<rparr>,
      mem_write (4 * m_pos q) (u32_bytes (word_of_nat (length bs))) mem))"
    by (simp only: cq_push_eq [OF ok] b_def p1_def)
  ultimately show "write_item (Obj (Some bs)) (q, mem) =
    Inr (q\<lparr>m_batchSize := (if m_batchInProgress q then m_batchSize q + 1 else m_batchSize q), m_pos := st + c\<rparr>,
         mem_write (4 * st) bs (mem_write (4 * m_pos q) (u32_bytes (word_of_nat (length bs))) mem))"
    using st unfolding b_def [symmetric]
    by (simp add: cb_push_def copy_in_def advance_def n_def)
qed

text \<open>A cell outside the object's cells keeps its bytes.\<close>

lemma cell_outside_obj:
  assumes "4 * st + length bs \<le> 4 * n" and "4 * n \<le> length m" and "length bs \<le> 4 * c"
    and "d < n" and "d < st \<or> st + c \<le> d"
  shows "mem_read (4 * d) 4 (mem_write (4 * st) bs m) = mem_read (4 * d) 4 m"
  using assms by (intro mem_read_write_disjoint) auto

lemma ring_outside_obj:
  assumes "c < n" and "p < n" and "k < n"
    and out: "k < 1 + obj_span n ((p + 1) mod n) c - c \<or> 1 + obj_span n ((p + 1) mod n) c \<le> k"
    and sp: "1 + obj_span n ((p + 1) mod n) c \<le> n \<or> 1 + obj_span n ((p + 1) mod n) c \<le> k"
  defines "st \<equiv> obj_start n ((p + 1) mod n) c"
  shows "(p + k) mod n < st \<or> st + c \<le> (p + k) mod n"
proof (rule ccontr)
  let ?sp = "1 + obj_span n ((p + 1) mod n) c"
  assume "\<not> ?thesis"
  then obtain i where i: "i < c" "(p + k) mod n = st + i"
    by (metis le_iff_add linorder_not_le nat_add_left_cancel_less)
  have eq: "(p + k) mod n = (p + (?sp - c + i)) mod n"
    using obj_start_ring [OF assms(1,2) i(1)] i by (simp add: st_def)
  have "?sp - c + i < ?sp" using i obj_span_ge [of c n "(p + 1) mod n"] by simp
  then have "k = ?sp - c + i" if "?sp \<le> n"
    using ring_inj [OF eq] that assms(3) by simp
  then show False using i out sp obj_span_ge [of c n "(p + 1) mod n"] assms(3) by auto
qed

section \<open>Writing and reading back one item\<close>

lemma queue_ok_lengths:
  assumes "queue_ok (q, mem)"
  shows "4 * m_pos q + 4 \<le> length mem"
  using queue_okD [OF assms] by linarith

lemma write_item_word:
  assumes ok: "queue_ok (q, mem)"
  shows "\<exists>q' mem'. write_item (Word w) (q, mem) = Inr (q', mem') \<and> m_size q' = m_size q
    \<and> m_pos q' = (m_pos q + 1) mod m_size q \<and> mem' = mem_write (4 * m_pos q) (u32_bytes w) mem"
  using cq_push_eq [OF ok] by auto

lemma same_cells_word:
  assumes "queue_ok (q, mem)"
  shows "same_cells (m_size q) (m_pos q) {1..<m_size q} mem (mem_write (4 * m_pos q) (u32_bytes w) mem)"
  unfolding same_cells_def
proof
  fix k assume k: "k \<in> {1..<m_size q}"
  note d = queue_okD [OF assms]
  let ?c = "(m_pos q + k) mod m_size q"
  have "?c \<noteq> m_pos q"
    using ring_inj [of "m_pos q" k "m_size q" 0] k d by auto
  moreover have "?c < m_size q" using d by simp
  ultimately have "4 * ?c + 4 \<le> 4 * m_pos q \<or> 4 * m_pos q + 4 \<le> 4 * ?c" "4 * ?c + 4 \<le> length mem"
    using d by linarith+
  then show "mem_read (4 * ?c) 4 (mem_write (4 * m_pos q) (u32_bytes w) mem) = mem_read (4 * ?c) 4 mem"
    using queue_ok_lengths [OF assms] by (intro mem_read_write_disjoint) auto
qed

definition wrote :: "item \<Rightarrow> queue_end \<Rightarrow> memory \<Rightarrow> queue_end \<Rightarrow> memory \<Rightarrow> bool" where
  "wrote it q mem q' mem' \<longleftrightarrow> write_item it (q, mem) = Inr (q', mem') \<and> queue_ok (q', mem')
     \<and> m_size q' = m_size q \<and> m_pos q' = (m_pos q + item_span (m_size q) (m_pos q) it) mod m_size q
     \<and> length mem' = length mem
     \<and> same_cells (m_size q) (m_pos q) {item_span (m_size q) (m_pos q) it..<m_size q} mem mem'"

lemma write_item_wrote:
  assumes ok: "queue_ok (q, mem)" and fits: "item_fits (m_size q) it"
  shows "\<exists>q' mem'. wrote it q mem q' mem'"
proof -
  note d = queue_okD [OF ok]
  have word: "\<exists>q' mem'. wrote (Word w) q mem q' mem'" for w
  proof -
    obtain q' mem' where "write_item (Word w) (q, mem) = Inr (q', mem')" "m_size q' = m_size q"
      "m_pos q' = (m_pos q + 1) mod m_size q" "mem' = mem_write (4 * m_pos q) (u32_bytes w) mem"
      using write_item_word [OF ok] by blast
    then show ?thesis
      using d same_cells_word [OF ok, of w] queue_ok_lengths [OF ok]
      by (intro exI [of _ q'] exI [of _ mem']) (auto simp: wrote_def queue_ok_def)
  qed
  show ?thesis
  proof (cases it)
    case (Word w)
    then show ?thesis using word by simp
  next
    case (Obj b)
    show ?thesis
    proof (cases b)
      case None
      then show ?thesis
        using word [of 0] Obj by (auto simp: wrote_def cb_push_def cq_push_eq [OF ok])
    next
      case (Some bs)
      let ?n = "m_size q" and ?c = "chunk_size (length bs)" and ?p = "(m_pos q + 1) mod m_size q"
      let ?st = "obj_start ?n ?p ?c" and ?m = "mem_write (4 * m_pos q) (u32_bytes (word_of_nat (length bs))) mem"
      let ?sp = "1 + obj_span ?n ?p ?c"
      note w = write_obj [OF ok fits [unfolded Obj Some]]
      have len: "length ?m = length mem" using queue_ok_lengths [OF ok] by simp
      have "same_cells ?n (m_pos q) {?sp..<?n} ?m (mem_write (4 * ?st) bs ?m)"
        unfolding same_cells_def
      proof
        fix k assume k: "k \<in> {?sp..<?n}"
        then have "(m_pos q + k) mod ?n < ?st \<or> ?st + ?c \<le> (m_pos q + k) mod ?n"
          using d w(5) by (intro ring_outside_obj) auto
        then show "mem_read (4 * ((m_pos q + k) mod ?n)) 4 (mem_write (4 * ?st) bs ?m) =
            mem_read (4 * ((m_pos q + k) mod ?n)) 4 ?m"
          using d w(2,4) len by (intro cell_outside_obj [where n = ?n and c = ?c]) auto
      qed
      moreover have "same_cells ?n (m_pos q) {?sp..<?n} mem ?m"
        using same_cells_word [OF ok] by (auto simp: same_cells_def)
      ultimately have "same_cells ?n (m_pos q) {?sp..<?n} mem (mem_write (4 * ?st) bs ?m)"
        by (rule same_cells_trans [rotated])
      moreover have "(m_pos q + ?sp) mod ?n = ?st + ?c"
      proof -
        have "(m_pos q + ?sp) mod ?n = (?p + obj_span ?n ?p ?c) mod ?n"
          by (simp add: mod_simps)
        then show ?thesis
          using obj_span_pos [OF w(5), of ?p] d by (simp add: obj_start_def)
      qed
      moreover have "length (mem_write (4 * ?st) bs ?m) = length mem"
        using w(2) d len by simp
      moreover obtain q' where "write_item it (q, mem) = Inr (q', mem_write (4 * ?st) bs ?m)"
        "m_size q' = ?n" "m_pos q' = ?st + ?c"
        using w(1) Obj Some by simp
      ultimately show ?thesis
        using w(3) d Obj Some
        by (intro exI [of _ q'] exI [of _ "mem_write (4 * ?st) bs ?m"]) (simp add: wrote_def queue_ok_def)
    qed
  qed
qed

lemma mem_read_cell: "u32_of_bytes (mem_read (4 * c) 4 m) = cell c m"
  by (simp add: cell_def)

lemma read_item_received:
  assumes ok: "queue_ok (q, mem)" and fits: "item_fits (m_size q) it"
    and w: "wrote it q mem q' mem'" and sp: "item_span (m_size q) (m_pos q) it \<le> m_size q"
    and same: "same_cells (m_size q) (m_pos q) {..<item_span (m_size q) (m_pos q) it} mem' mem''"
    and r: "m_size r = m_size q" "m_pos r = m_pos q" and len: "length mem'' = length mem"
  shows "read_item (item_shape it) (r, mem'') = Inr (received it, r\<lparr>m_pos := m_pos q'\<rparr>)"
proof -
  note d = queue_okD [OF ok]
  have rok: "queue_ok (r, mem'')" using ok r len by (simp add: queue_ok_def)
  have "0 < item_span (m_size q) (m_pos q) it" by (cases it) auto
  then have first: "cell (m_pos q) mem'' = cell (m_pos q) mem'"
    using same d by (auto simp: same_cells_def cell_def dest: bspec [of _ _ 0])
  have pull: "cq_pull (r, mem'') = Inr (cell (m_pos q) mem', r\<lparr>m_pos := (m_pos q + 1) mod m_size q\<rparr>)"
    using cq_pull_eq [OF rok] r first by simp
  have written: "cell (m_pos q) (mem_write (4 * m_pos q) (u32_bytes v) mem) = v" for v
    using queue_ok_lengths [OF ok] by (intro cell_write_same) simp
  show ?thesis
  proof (cases it)
    case (Word v)
    then show ?thesis
      using w pull written by (auto simp: wrote_def cq_push_eq [OF ok])
  next
    case (Obj b)
    show ?thesis
    proof (cases b)
      case None
      have "\<not> m_size q \<le> Suc (m_pos q) mod m_size q" using d by (simp add: not_le)
      then show ?thesis
        using w pull written Obj None d r
        by (auto simp: wrote_def cb_push_def cq_push_eq [OF ok] cb_pull_def ensure_space_eq chunk_size_eq)
    next
      case (Some bs)
      let ?n = "m_size q" and ?c = "chunk_size (length bs)" and ?p = "(m_pos q + 1) mod m_size q"
      let ?st = "obj_start ?n ?p ?c" and ?m = "mem_write (4 * m_pos q) (u32_bytes (word_of_nat (length bs))) mem"
      note wo = write_obj [OF ok fits [unfolded Obj Some]]
      have mem': "mem' = mem_write (4 * ?st) bs ?m" and q': "m_pos q' = ?st + ?c"
        using w wo(1) Obj Some by (auto simp: wrote_def)
      have sp': "1 + obj_span ?n ?p ?c \<le> ?n" using sp Obj Some by simp
      have lenm: "length ?m = length mem" using queue_ok_lengths [OF ok] by simp
      have fit: "length bs + 3 < 2 ^ 32" using fits Obj Some by simp
      have "m_pos q < ?st \<or> ?st + ?c \<le> m_pos q"
        using ring_outside_obj [of ?c ?n "m_pos q" 0] wo(5) d sp' obj_span_ge [of ?c ?n ?p] by simp
      then have "cell (m_pos q) mem' = cell (m_pos q) ?m"
        unfolding mem' cell_def using wo(2,4) d lenm
        by (subst cell_outside_obj [where n = ?n and c = ?c]) auto
      then have word: "cell (m_pos q) mem' = word_of_nat (length bs)" using written by simp
      have "mem_read (4 * ?st) (length bs) mem'' = mem_read (4 * ?st) (length bs) mem'"
      proof (rule read_from_cells [where cnt = ?c])
        fix k assume k: "?st \<le> k" "k < ?st + ?c"
        then obtain i where i: "k = ?st + i" "i < ?c" by (metis le_iff_add nat_add_left_cancel_less)
        let ?j = "1 + obj_span ?n ?p ?c - ?c + i"
        have "?j < item_span ?n (m_pos q) it"
          using i obj_span_ge [of ?c ?n ?p] Obj Some by simp
        moreover have "k = (m_pos q + ?j) mod ?n"
          unfolding i(1) by (rule obj_start_ring [OF wo(5) d(1) i(2)])
        ultimately show "mem_read (4 * k) 4 mem'' = mem_read (4 * k) 4 mem'"
          using same unfolding same_cells_def by (metis lessThan_iff)
      qed (use wo d len lenm mem' in auto)
      also have "\<dots> = bs" using wo(2) d lenm by (simp add: mem')
      finally have bytes: "mem_read (4 * ?st) (length bs) mem'' = bs" .
      have un: "unat (word_of_nat (length bs) :: u32) = length bs"
        using fit by (simp add: unat_of_nat)
      have es: "ensure_space (length bs) (r\<lparr>m_pos := ?p\<rparr>) = Inr (?c, r\<lparr>m_pos := ?st\<rparr>)"
        using wo(5) d r by (simp add: ensure_space_eq obj_start_def)
      have c0: "?c = 0 \<longleftrightarrow> bs = []"
        using fit by (cases bs) (simp_all add: chunk_size_eq)
      show ?thesis
        using pull word es bytes un c0 q' Obj Some
        by (auto simp: cb_pull_def advance_def Let_def)
    qed
  qed
qed

section \<open>Sequences of items\<close>

lemma write_items_ok:
  assumes "queue_ok (q, mem)" and "\<forall>it \<in> set its. item_fits (m_size q) it"
  shows "\<exists>q' mem'. write_items its (q, mem) = Inr (q', mem') \<and> queue_ok (q', mem') \<and> m_size q' = m_size q
    \<and> m_pos q' = (m_pos q + items_span (m_size q) (m_pos q) its) mod m_size q \<and> length mem' = length mem
    \<and> same_cells (m_size q) (m_pos q) {items_span (m_size q) (m_pos q) its..<m_size q} mem mem'"
  using assms
proof (induction its arbitrary: q mem)
  case Nil
  then show ?case using queue_okD [OF Nil(1)] by (auto simp: same_cells_def)
next
  case (Cons it its)
  let ?n = "m_size q" and ?p = "m_pos q"
  let ?sp = "item_span ?n ?p it"
  let ?sps = "items_span ?n ((?p + ?sp) mod ?n) its"
  obtain q1 mem1 where w: "wrote it q mem q1 mem1"
    using write_item_wrote [of q mem it] Cons.prems by auto
  then have w': "queue_ok (q1, mem1)" "m_size q1 = ?n" "m_pos q1 = (?p + ?sp) mod ?n"
    "write_item it (q, mem) = Inr (q1, mem1)" "length mem1 = length mem"
    "same_cells ?n ?p {?sp..<?n} mem mem1"
    by (simp_all add: wrote_def)
  obtain q' mem' where t: "write_items its (q1, mem1) = Inr (q', mem')" "queue_ok (q', mem')" "m_size q' = ?n"
    "m_pos q' = (m_pos q1 + ?sps) mod ?n" "length mem' = length mem"
    "same_cells ?n (m_pos q1) {?sps..<?n} mem1 mem'"
    using Cons.IH [OF w'(1)] Cons.prems w' by auto
  have "same_cells ?n ?p ((+) ?sp ` {?sps..<?n}) mem1 mem'"
    using t(6) w'(3) by (simp add: same_cells_shift)
  then have "same_cells ?n ?p {?sp + ?sps..<?n} mem1 mem'"
    by (rule same_cells_mono) auto
  moreover have "same_cells ?n ?p {?sp + ?sps..<?n} mem mem1"
    using w'(6) by (rule same_cells_mono) auto
  ultimately have "same_cells ?n ?p {?sp + ?sps..<?n} mem mem'"
    by (rule same_cells_trans [rotated])
  moreover have "m_pos q' = (?p + (?sp + ?sps)) mod ?n"
    by (simp add: t(4) w'(3) mod_add_left_eq add.assoc)
  ultimately show ?case
    using t w' by simp
qed

lemma items_roundtrip:
  assumes "queue_ok (q, mem)" and "\<forall>it \<in> set its. item_fits (m_size q) it"
    and "items_span (m_size q) (m_pos q) its \<le> m_size q"
    and "m_size r = m_size q" and "m_pos r = m_pos q"
  shows "\<exists>q' mem'. write_items its (q, mem) = Inr (q', mem') \<and> queue_ok (q', mem') \<and> m_size q' = m_size q
    \<and> read_items (map item_shape its) (r, mem') = Inr (map received its, r\<lparr>m_pos := m_pos q'\<rparr>)"
  using assms
proof (induction its arbitrary: q mem r)
  case Nil
  then show ?case by auto
next
  case (Cons it its)
  let ?n = "m_size q" and ?p = "m_pos q"
  let ?sp = "item_span ?n ?p it"
  let ?sps = "items_span ?n ((?p + ?sp) mod ?n) its"
  obtain q1 mem1 where w: "wrote it q mem q1 mem1"
    using write_item_wrote [of q mem it] Cons.prems by auto
  then have w': "queue_ok (q1, mem1)" "m_size q1 = ?n" "m_pos q1 = (?p + ?sp) mod ?n"
    "write_item it (q, mem) = Inr (q1, mem1)" "length mem1 = length mem"
    by (simp_all add: wrote_def)
  let ?r = "r\<lparr>m_pos := m_pos q1\<rparr>"
  have "?sps \<le> ?n" using Cons.prems by simp
  then obtain q' mem' where t: "write_items its (q1, mem1) = Inr (q', mem')" "queue_ok (q', mem')" "m_size q' = ?n"
    "read_items (map item_shape its) (?r, mem') = Inr (map received its, ?r\<lparr>m_pos := m_pos q'\<rparr>)"
    using Cons.IH [OF w'(1), of ?r] Cons.prems w' by auto
  have lens: "length mem' = length mem" "same_cells ?n (m_pos q1) {?sps..<?n} mem1 mem'"
    using write_items_ok [OF w'(1), of its] Cons.prems w' t by auto
  have "same_cells ?n ?p ((+) ?sp ` {?sps..<?n}) mem1 mem'"
    using lens(2) w'(3) by (simp add: same_cells_shift)
  then have "same_cells ?n ?p {?sp + ?sps..<?sp + ?n} mem1 mem'"
    by (simp add: add.commute)
  then have "same_cells ?n ?p {?n..<?n + ?sp} mem1 mem'"
    using Cons.prems(3) by (rule_tac same_cells_mono) auto
  then have "same_cells ?n ?p {..<?sp} mem1 mem'"
    by (rule same_cells_round)
  then have "read_item (item_shape it) (r, mem') = Inr (received it, ?r)"
    using Cons.prems w lens by (intro read_item_received) auto
  then show ?case
    using t w' by auto
qed

section \<open>Properties\<close>

text \<open>C2. The data channel round trip.  The writer pushes any sequence of words and objects that
  together take at most the whole ring; no push fails or leaves the array.  A reader that
  starts at the writer's position and pulls the same shapes gets back every word and every object's bytes (an
  empty object as a null pointer) and ends at the writer's new position.\<close>

theorem reader_follows_writer:
  assumes "queue_ok (w, mem)" and "\<forall>it \<in> set its. item_fits (m_size w) it"
    and "items_span (m_size w) (m_pos w) its \<le> m_size w"
    and "m_size r = m_size w" and "m_pos r = m_pos w"
  shows "\<exists>w' mem'. write_items its (w, mem) = Inr (w', mem') \<and> queue_ok (w', mem')
    \<and> read_items (map item_shape its) (r, mem') = Inr (map received its, r\<lparr>m_pos := m_pos w'\<rparr>)"
  using items_roundtrip [OF assms] by blast

theorem reader_follows_writer_witness:
  "\<exists>w' mem'. write_items [Word 9, Obj (Some [1, 2, 3, 4, 5]), Word 8, Obj None]
       ((cq_new 32)\<lparr>m_pos := 5\<rparr>, replicate 32 0) = Inr (w', mem')
    \<and> read_items [WordShape, ObjShape, WordShape, ObjShape] ((cq_new 32)\<lparr>m_pos := 5\<rparr>, mem')
      = Inr ([Word 9, Obj (Some [1, 2, 3, 4, 5]), Word 8, Obj None], (cq_new 32)\<lparr>m_pos := m_pos w'\<rparr>)"
  using reader_follows_writer [of "(cq_new 32)\<lparr>m_pos := 5\<rparr>" "replicate 32 0"
      "[Word 9, Obj (Some [1, 2, 3, 4, 5]), Word 8, Obj None]" "(cq_new 32)\<lparr>m_pos := 5\<rparr>"]
  by (auto simp: queue_ok_def cq_new_def chunk_size_eq obj_span_def)

text \<open>\<open>ensure_space\<close> only refuses objects larger than the ring: one of exactly the ring's
  size is stored, the position is then one past the end, and the next word pushed is written
  outside the array.\<close>

theorem ring_sized_object_overruns:
  assumes "queue_ok (q, mem)" and "length bs = 4 * m_size q" and "length bs + 3 < 2 ^ 32"
  shows "\<exists>q' mem'. cb_push (Some bs) (q, mem) = Inr (Success, (q', mem')) \<and> m_pos q' = m_size q'
    \<and> cq_push w (q', mem') = Inl OutOfBounds"
proof -
  note d = queue_okD [OF assms(1)]
  have c: "chunk_size (length bs) = m_size q"
    using assms(2,3) by (simp add: chunk_size_eq)
  have "\<exists>q' mem'. cb_push (Some bs) (q, mem) = Inr (Success, (q', mem')) \<and> m_pos q' = m_size q'"
    using d c unfolding cb_push_def
    by (simp add: cq_push_eq [OF assms(1)] ensure_space_def copy_in_def advance_def assms(2))
  moreover have "cq_push w (q', mem') = Inl OutOfBounds" if "m_pos q' = m_size q'" for q' mem'
    using that by (simp add: cq_push_def pushImpl_def store_word_def)
  ultimately show ?thesis by blast
qed

theorem ring_sized_object_overruns_witness:
  "\<exists>q' mem'. cb_push (Some [1, 2, 3, 4, 5, 6, 7, 8]) (cq_new 8, replicate 8 0) = Inr (Success, (q', mem'))
    \<and> m_pos q' = m_size q' \<and> cq_push 5 (q', mem') = Inl OutOfBounds"
  using ring_sized_object_overruns [of "cq_new 8" "replicate 8 0" "[1, 2, 3, 4, 5, 6, 7, 8]" 5]
  by (simp add: queue_ok_def cq_new_def)

end
