(* ===== verification/Shared_Heap.thy ===== *)
theory Shared_Heap
  imports Bridge_Prelude "HOL-Library.AList"
begin

text \<open>
  \<open>SharedHeap::Instance\<close> of \<open>util_sharedheap.cpp\<close>: the client's chunk allocator over shared
  memory segments, the server's mirror of it, and the per-chunk state bytes (\<open>SharedHeap_meta\<close>) both see.  Chunk
  and allocation ids are natural numbers with the 32-bit wrap-around written out
  where the code relies on it (\<open>(ChunkId)-1 + 1\<close>); byte sizes that are doubled are 32-bit words.  The creation of
  a mapping by the operating system is the parameter \<open>can_map\<close>.  Requests to the server
  are the returned list of messages.
\<close>

section \<open>State\<close>

definition kInvalidId :: nat where "kInvalidId = 2 ^ 32 - 1"
definition kMax32BitHeapSize :: u32 where "kMax32BitHeapSize = push_bit 30 2"

datatype ChunkState = Unallocated | Allocated | Deallocated

record Segment =
  m_shMemSize :: nat
  m_baseChunkId :: nat
  seg_nChunks :: nat

record heap =
  m_chunkSize :: nat
  m_defaultSegmentSize :: u32
  m_nChunks :: nat
  m_cache :: "(nat \<times> nat) list"
  m_nextUid :: nat
  m_allocations :: "(nat \<times> nat) list"
  m_sizeAllocated :: nat
  m_segments :: "Segment list"
  m_meta :: "nat \<Rightarrow> ChunkState"

datatype heap_msg = AddSeg nat | AllocMsg nat nat | DeallocMsg nat

type_synonym Allocation = "nat \<times> nat"

section \<open>Helpers shared by client and server\<close>

definition new_segment :: "nat \<Rightarrow> nat \<Rightarrow> nat \<Rightarrow> Segment" where
  "new_segment segmentSize chunkSize baseChunkId =
     \<lparr>m_shMemSize = segmentSize, m_baseChunkId = baseChunkId, seg_nChunks = segmentSize div chunkSize\<rparr>"

definition getTotalHeapSize :: "heap \<Rightarrow> nat" where
  "getTotalHeapSize h = sum_list (map m_shMemSize (m_segments h))"

fun seg_search :: "nat \<Rightarrow> nat \<Rightarrow> Segment list \<Rightarrow> nat" where
  "seg_search chunkId segId [] = kInvalidId"
| "seg_search chunkId segId (seg # segs) =
     (if m_baseChunkId seg \<le> chunkId \<and> chunkId < m_baseChunkId seg + seg_nChunks seg then segId
      else seg_search chunkId (segId + 1) segs)"

definition chunkIdToSegId :: "heap \<Rightarrow> nat \<Rightarrow> nat" where
  "chunkIdToSegId h chunkId = seg_search chunkId 0 (m_segments h)"

text \<open>\<open>getBuf\<close>: the segment and the byte offset in it (\<open>None\<close> for an unknown id).\<close>

definition getBuf :: "heap \<Rightarrow> nat \<Rightarrow> (nat \<times> nat) option" where
  "getBuf h i = (case map_of (m_cache h) i of None \<Rightarrow> None
   | Some firstChunk \<Rightarrow> let segId = chunkIdToSegId h firstChunk in
       if segId < length (m_segments h)
       then Some (segId, (firstChunk - m_baseChunkId (m_segments h ! segId)) * m_chunkSize h) else None)"

definition setChunkState :: "nat \<Rightarrow> ChunkState \<Rightarrow> heap \<Rightarrow> heap" where
  "setChunkState c st h = h\<lparr>m_meta := (m_meta h)(c := st)\<rparr>"

section \<open>Client\<close>

text \<open>The halving loop of \<open>addNewHeapSegment\<close>; the result is the size of the mapping created.\<close>

function try_segment :: "(nat \<Rightarrow> bool) \<Rightarrow> nat \<Rightarrow> nat \<Rightarrow> nat option" where
  "try_segment can_map chunkSize segmentSize =
     (if segmentSize > chunkSize
      then if can_map segmentSize then Some segmentSize else try_segment can_map chunkSize (segmentSize div 2)
      else None)"
  by auto
termination by (relation "measure (\<lambda>(_, _, s). s)") auto

declare try_segment.simps [simp del]

definition addNewHeapSegment :: "(nat \<Rightarrow> bool) \<Rightarrow> heap \<Rightarrow> bool \<times> heap \<times> heap_msg list" where
  "addNewHeapSegment can_map h = (let
     segmentSizeUnaligned = min (kMax32BitHeapSize - word_of_nat (getTotalHeapSize h)) (m_defaultSegmentSize h);
     segmentSize = segmentSizeUnaligned AND NOT (word_of_nat (m_chunkSize h) - 1) in
     case try_segment can_map (m_chunkSize h) (unat segmentSize) of
       Some sz \<Rightarrow> let newSeg = new_segment sz (m_chunkSize h) (m_nChunks h) in
         (True, h\<lparr>m_segments := m_segments h @ [newSeg], m_nChunks := m_nChunks h + seg_nChunks newSeg\<rparr>, [AddSeg sz])
     | None \<Rightarrow> (False, h, []))"

definition heap_new :: "(nat \<Rightarrow> bool) \<Rightarrow> nat \<Rightarrow> u32 \<Rightarrow> bool \<times> heap \<times> heap_msg list" where
  "heap_new can_map chunkSize defaultSegmentSize = addNewHeapSegment can_map
     \<lparr>m_chunkSize = chunkSize, m_defaultSegmentSize = defaultSegmentSize, m_nChunks = 0, m_cache = [],
      m_nextUid = 0, m_allocations = [], m_sizeAllocated = 0, m_segments = [], m_meta = (\<lambda>_. Unallocated)\<rparr>"

definition createAllocation :: "nat \<Rightarrow> nat \<Rightarrow> Allocation" where
  "createAllocation firstChunk numChunks = (firstChunk, (firstChunk + numChunks + (2 ^ 32 - 1)) mod 2 ^ 32)"

definition allocationCrossesHeapSegBound :: "heap \<Rightarrow> Allocation \<Rightarrow> bool" where
  "allocationCrossesHeapSegBound h alloc \<longleftrightarrow> chunkIdToSegId h (fst alloc) \<noteq> chunkIdToSegId h (snd alloc)"

definition isValidAllocation :: "heap \<Rightarrow> Allocation \<Rightarrow> bool" where
  "isValidAllocation h alloc \<longleftrightarrow> \<not> (fst alloc \<ge> m_nChunks h \<or> snd alloc \<ge> m_nChunks h
     \<or> snd alloc < fst alloc \<or> allocationCrossesHeapSegBound h alloc)"

fun free_in_middle :: "nat \<Rightarrow> nat \<Rightarrow> (nat \<times> nat) list \<Rightarrow> Allocation" where
  "free_in_middle numChunks prevFinal [] = (kInvalidId, kInvalidId)"
| "free_in_middle numChunks prevFinal ((allocatedFirst, allocatedFinal) # rest) =
     (let potentiallyFree = (prevFinal + 1) mod 2 ^ 32 in
      if potentiallyFree < allocatedFirst \<and> allocatedFirst - potentiallyFree \<ge> numChunks
      then createAllocation potentiallyFree numChunks
      else free_in_middle numChunks allocatedFinal rest)"

definition findFreeInMiddle :: "nat \<Rightarrow> heap \<Rightarrow> Allocation" where
  "findFreeInMiddle numChunks h = free_in_middle numChunks (2 ^ 32 - 1) (m_allocations h)"

text \<open>\<open>--m_allocations.cend()\<close> is undefined when there is no allocation.\<close>

definition findFreeOnEnd :: "nat \<Rightarrow> heap \<Rightarrow> Allocation or_error" where
  "findFreeOnEnd numChunks h =
     (if m_allocations h = [] then Inl OutOfBounds
      else Inr (createAllocation (snd (last (m_allocations h)) + 1) numChunks))"

definition free_one :: "nat \<times> nat \<Rightarrow> heap \<Rightarrow> heap" where
  "free_one e h = (case e of (deallocatedId, firstChunk) \<Rightarrow>
     let finalChunk = the (map_of (m_allocations h) firstChunk);
         numChunks = finalChunk - firstChunk + 1 in
     setChunkState firstChunk Unallocated
       (h\<lparr>m_cache := AList.delete deallocatedId (m_cache h),
         m_allocations := AList.delete firstChunk (m_allocations h),
         m_sizeAllocated := m_sizeAllocated h - numChunks * m_chunkSize h\<rparr>))"

definition freeDeallocations :: "heap \<Rightarrow> heap" where
  "freeDeallocations h = fold free_one (filter (\<lambda>(_, firstChunk). m_meta h firstChunk = Deallocated) (m_cache h)) h"

text \<open>
  The retry loop of \<open>findAllocation\<close>.  Each element of \<open>env\<close> is one pass: the chunks the server
  marks \<open>Deallocated\<close> before it, and the milliseconds elapsed read at its end.
\<close>

fun find_loop :: "(nat \<Rightarrow> bool) \<Rightarrow> nat \<Rightarrow> nat \<Rightarrow> nat \<Rightarrow> (nat list \<times> nat) list \<Rightarrow> heap
    \<Rightarrow> (Allocation \<times> heap \<times> heap_msg list) or_error option" where
  "find_loop can_map timeoutS numChunks nFailedIterations [] h = None"
| "find_loop can_map timeoutS numChunks nFailedIterations ((freed, dt) # env) h0 =
     (let h = fold (\<lambda>c. setChunkState c Deallocated) freed h0 in
      if isValidAllocation h (findFreeInMiddle numChunks h) then Some (Inr (findFreeInMiddle numChunks h, h, []))
      else case findFreeOnEnd numChunks h of
        Inl e \<Rightarrow> Some (Inl e)
      | Inr alloc \<Rightarrow>
        if isValidAllocation h alloc then Some (Inr (alloc, h, []))
        else let h1 = freeDeallocations h;
                 (grown, h2, msgs) = (if nFailedIterations = 2 then addNewHeapSegment can_map h1 else (False, h1, [])) in
          if grown then Some (Inr (createAllocation (m_baseChunkId (last (m_segments h2))) numChunks, h2, msgs))
          else if dt div 1000 \<ge> timeoutS then Some (Inr ((kInvalidId, kInvalidId), h2, msgs))
          else find_loop can_map timeoutS numChunks (nFailedIterations + 1) env h2)"

definition findAllocation :: "(nat \<Rightarrow> bool) \<Rightarrow> nat \<Rightarrow> nat \<Rightarrow> (nat list \<times> nat) list \<Rightarrow> heap
    \<Rightarrow> (Allocation \<times> heap \<times> heap_msg list) or_error option" where
  "findAllocation can_map timeoutS numChunks env h =
     (if m_allocations h = [] then Some (Inr (createAllocation 0 numChunks, h, []))
      else find_loop can_map timeoutS numChunks 0 env h)"

text \<open>The doubling loop of \<open>allocate\<close>, on 32-bit \<open>size_t\<close>; \<open>None\<close> when it does not end.\<close>

partial_function (option) grow_segment :: "u32 \<Rightarrow> u32 \<Rightarrow> u32 option" where
  "grow_segment sz newDefaultSegmentSize =
     (if sz > newDefaultSegmentSize then grow_segment sz (push_bit 1 newDefaultSegmentSize)
      else Some newDefaultSegmentSize)"

text \<open>\<open>std::map::operator[]=\<close>: insertion that keeps the keys in order.\<close>

fun omap_insert :: "nat \<Rightarrow> nat \<Rightarrow> (nat \<times> nat) list \<Rightarrow> (nat \<times> nat) list" where
  "omap_insert k v [] = [(k, v)]"
| "omap_insert k v ((k', v') # xs) =
     (if k < k' then (k, v) # (k', v') # xs else if k = k' then (k, v) # xs else (k', v') # omap_insert k v xs)"

definition num_chunks :: "heap \<Rightarrow> u32 \<Rightarrow> nat" where
  "num_chunks h sz = (if unat sz mod m_chunkSize h = 0 then unat sz div m_chunkSize h else unat sz div m_chunkSize h + 1)"

definition allocate :: "(nat \<Rightarrow> bool) \<Rightarrow> nat \<Rightarrow> u32 \<Rightarrow> (nat list \<times> nat) list \<Rightarrow> heap
    \<Rightarrow> (nat \<times> heap \<times> heap_msg list) or_error option" where
  "allocate can_map timeoutS sz env h =
     (case (if sz > m_defaultSegmentSize h then grow_segment sz (m_defaultSegmentSize h) else Some (m_defaultSegmentSize h)) of
        None \<Rightarrow> None
      | Some d \<Rightarrow>
        let h0 = h\<lparr>m_defaultSegmentSize := d\<rparr>;
            numChunks = num_chunks h0 sz in
        case findAllocation can_map timeoutS numChunks env h0 of
          None \<Rightarrow> None
        | Some (Inl e) \<Rightarrow> Some (Inl e)
        | Some (Inr (alloc, h1, msgs)) \<Rightarrow>
            if \<not> isValidAllocation h1 alloc then Some (Inr (kInvalidId, h1, msgs))
            else let i = m_nextUid h1 in
              Some (Inr (i, setChunkState (fst alloc) Allocated
                (h1\<lparr>m_nextUid := (i + 1) mod 2 ^ 32, m_cache := AList.update i (fst alloc) (m_cache h1),
                    m_allocations := omap_insert (fst alloc) (snd alloc) (m_allocations h1),
                    m_sizeAllocated := m_sizeAllocated h1 + numChunks * m_chunkSize h1\<rparr>),
                msgs @ [AllocMsg i (fst alloc)])))"

definition deallocate :: "nat \<Rightarrow> heap_msg list" where
  "deallocate i = [DeallocMsg i]"

section \<open>Server\<close>

text \<open>The server's handlers of the three messages, on its own heap record and the shared states.\<close>

definition server_addNewHeapSegment :: "(nat \<Rightarrow> bool) \<Rightarrow> nat \<Rightarrow> heap \<Rightarrow> heap" where
  "server_addNewHeapSegment can_map segmentSize h =
     (if can_map segmentSize
      then let newSeg = new_segment segmentSize (m_chunkSize h) (m_nChunks h) in
        h\<lparr>m_segments := m_segments h @ [newSeg], m_nChunks := m_nChunks h + seg_nChunks newSeg\<rparr>
      else h)"

definition server_allocate :: "nat \<Rightarrow> nat \<Rightarrow> heap \<Rightarrow> heap" where
  "server_allocate i firstChunk h = h\<lparr>m_cache := AList.update i firstChunk (m_cache h)\<rparr>"

definition server_deallocate :: "nat \<Rightarrow> heap \<Rightarrow> heap" where
  "server_deallocate i h = (let firstChunk = the (map_of (m_cache h) i) in
     (setChunkState firstChunk Deallocated h)\<lparr>m_cache := AList.delete i (m_cache h)\<rparr>)"

primrec server_heap_msg :: "(nat \<Rightarrow> bool) \<Rightarrow> heap_msg \<Rightarrow> heap \<Rightarrow> heap" where
  "server_heap_msg can_map (AddSeg sz) h = server_addNewHeapSegment can_map sz h"
| "server_heap_msg can_map (AllocMsg i c) h = server_allocate i c h"
| "server_heap_msg can_map (DeallocMsg i) h = server_deallocate i h"

section \<open>Well-formed heaps\<close>

fun segs_from :: "nat \<Rightarrow> nat \<Rightarrow> Segment list \<Rightarrow> bool" where
  "segs_from chunk base [] \<longleftrightarrow> True"
| "segs_from chunk base (g # gs) \<longleftrightarrow> m_baseChunkId g = base \<and> seg_nChunks g = m_shMemSize g div chunk
     \<and> segs_from chunk (base + seg_nChunks g) gs"

text \<open>Allocated ranges in increasing order, pairwise disjoint, from \<open>lo\<close> on.\<close>

fun chain :: "nat \<Rightarrow> (nat \<times> nat) list \<Rightarrow> bool" where
  "chain lo [] \<longleftrightarrow> True"
| "chain lo ((f, l) # xs) \<longleftrightarrow> lo \<le> f \<and> f \<le> l \<and> chain (l + 1) xs"

definition range_chunks :: "(nat \<times> nat) list \<Rightarrow> nat" where
  "range_chunks xs = sum_list (map (\<lambda>(f, l). l - f + 1) xs)"

definition heap_wf :: "heap \<Rightarrow> bool" where
  "heap_wf h \<longleftrightarrow> 0 < m_chunkSize h
   \<and> segs_from (m_chunkSize h) 0 (m_segments h)
   \<and> m_nChunks h = sum_list (map seg_nChunks (m_segments h))
   \<and> getTotalHeapSize h \<le> 2 ^ 31
   \<and> chain 0 (m_allocations h) \<and> (\<forall>a \<in> set (m_allocations h). isValidAllocation h a)
   \<and> distinct (map fst (m_cache h)) \<and> distinct (map snd (m_cache h))
   \<and> set (map snd (m_cache h)) = set (map fst (m_allocations h))
   \<and> (\<forall>i \<in> fst ` set (m_cache h). i < m_nextUid h)
   \<and> m_sizeAllocated h = range_chunks (m_allocations h) * m_chunkSize h"

subsection \<open>Segments\<close>

lemma segs_from_append:
  "segs_from c b (gs @ hs) \<longleftrightarrow> segs_from c b gs \<and> segs_from c (b + sum_list (map seg_nChunks gs)) hs"
  by (induction gs arbitrary: b) (auto simp: add.assoc)

lemma seg_search_covered:
  assumes "segs_from c b gs" and "b \<le> k" and "k < b + sum_list (map seg_nChunks gs)"
  shows "\<exists>i < length gs. seg_search k n gs = n + i
    \<and> m_baseChunkId (gs ! i) \<le> k \<and> k < m_baseChunkId (gs ! i) + seg_nChunks (gs ! i)"
  using assms
proof (induction gs arbitrary: b n)
  case (Cons g gs)
  show ?case
  proof (cases "k < b + seg_nChunks g")
    case True
    then show ?thesis using Cons.prems by (intro exI [of _ 0]) auto
  next
    case False
    then obtain i where "i < length gs" "seg_search k (n + 1) gs = n + 1 + i"
      "m_baseChunkId (gs ! i) \<le> k" "k < m_baseChunkId (gs ! i) + seg_nChunks (gs ! i)"
      using Cons.IH [of "b + seg_nChunks g" "n + 1"] Cons.prems by (auto simp: add.assoc)
    then show ?thesis
      using False Cons.prems by (intro exI [of _ "i + 1"]) auto
  qed
qed simp

lemma seg_search_append:
  assumes "segs_from c b gs" and "b \<le> k" and "k < b + sum_list (map seg_nChunks gs)"
  shows "seg_search k n (gs @ hs) = seg_search k n gs"
  using assms
proof (induction gs arbitrary: b n)
  case (Cons g gs)
  show ?case
  proof (cases "k < b + seg_nChunks g")
    case True
    then show ?thesis using Cons.prems by auto
  next
    case False
    then show ?thesis
      using Cons.IH [of "b + seg_nChunks g" "n + 1"] Cons.prems by (auto simp: add.assoc)
  qed
qed simp

lemma sum_chunks_le:
  assumes "segs_from c b gs" and "0 < c"
  shows "sum_list (map seg_nChunks gs) \<le> sum_list (map m_shMemSize gs)"
  using assms by (induction gs arbitrary: b) (auto intro!: add_mono)

lemma heap_wf_total: "heap_wf h \<Longrightarrow> getTotalHeapSize h \<le> 2 ^ 31"
  by (simp add: heap_wf_def)

lemma heap_wf_nChunks:
  assumes "heap_wf h"
  shows "m_nChunks h \<le> 2 ^ 31"
  using assms sum_chunks_le [of "m_chunkSize h" 0 "m_segments h"]
  by (simp add: heap_wf_def getTotalHeapSize_def)

lemma heap_wf_seg:
  assumes "heap_wf h" and "c < m_nChunks h"
  shows "chunkIdToSegId h c < length (m_segments h)"
    "m_baseChunkId (m_segments h ! chunkIdToSegId h c) \<le> c"
    "c < m_baseChunkId (m_segments h ! chunkIdToSegId h c) + seg_nChunks (m_segments h ! chunkIdToSegId h c)"
  using seg_search_covered [of "m_chunkSize h" 0 "m_segments h" c 0] assms
  by (auto simp: heap_wf_def chunkIdToSegId_def)

text \<open>What validity means in a well-formed heap: a range inside one segment.\<close>

lemma isValidAllocation_seg:
  assumes "heap_wf h" and "isValidAllocation h (f, l)"
  shows "\<exists>g \<in> set (m_segments h). m_baseChunkId g \<le> f \<and> f \<le> l \<and> l < m_baseChunkId g + seg_nChunks g"
proof -
  have v: "f < m_nChunks h" "l < m_nChunks h" "f \<le> l" "chunkIdToSegId h f = chunkIdToSegId h l"
    using assms(2) by (auto simp: isValidAllocation_def allocationCrossesHeapSegBound_def)
  show ?thesis
    using heap_wf_seg [OF assms(1) v(1)] heap_wf_seg [OF assms(1) v(2)] v
    by (intro bexI [of _ "m_segments h ! chunkIdToSegId h f"]) auto
qed

subsection \<open>Chains of ranges\<close>

lemma chain_mono: "chain lo xs \<Longrightarrow> lo' \<le> lo \<Longrightarrow> chain lo' xs"
  by (cases xs) (auto simp: split: prod.splits)

lemma chain_ge: "chain lo xs \<Longrightarrow> (f, l) \<in> set xs \<Longrightarrow> lo \<le> f \<and> f \<le> l"
  by (induction lo xs rule: chain.induct) fastforce+

lemma chain_distinct: "chain lo xs \<Longrightarrow> distinct (map fst xs)"
proof (induction lo xs rule: chain.induct)
  case (2 lo f l xs)
  then show ?case using chain_ge [of "l + 1" xs] by fastforce
qed simp

lemma chain_disjoint:
  assumes "chain lo xs" and "(f, l) \<in> set xs" and "(f', l') \<in> set xs" and "f \<noteq> f'"
  shows "l < f' \<or> l' < f"
  using assms
proof (induction lo xs rule: chain.induct)
  case (2 lo g m xs)
  then show ?case using chain_ge [of "m + 1" xs] by fastforce
qed simp

lemma chain_delete: "chain lo xs \<Longrightarrow> chain lo (AList.delete k xs)"
proof (induction lo xs rule: chain.induct)
  case (2 lo f l xs)
  then have "chain (l + 1) (AList.delete k xs)" by simp
  then show ?case using 2 chain_mono [of "l + 1" "AList.delete k xs" lo] by auto
qed simp

lemma chain_insert:
  assumes "chain lo xs" and "lo \<le> f" and "f \<le> l" and "\<forall>(g, m) \<in> set xs. m < f \<or> l < g"
  shows "chain lo (omap_insert f l xs)"
  using assms
proof (induction lo xs rule: chain.induct)
  case (2 lo g m xs)
  show ?case
  proof (cases "f < g")
    case True
    then show ?thesis using 2 by auto
  next
    case False
    then have "m < f" using 2 by auto
    then show ?thesis using 2 False by auto
  qed
qed simp

lemma chain_last: "chain lo xs \<Longrightarrow> (f, l) \<in> set xs \<Longrightarrow> l \<le> snd (last xs)"
proof (induction lo xs rule: chain.induct)
  case (2 lo g m xs)
  show ?case
  proof (cases "xs = []")
    case True
    then show ?thesis using 2 by simp
  next
    case False
    then have "last xs \<in> set xs" by simp
    then have "m < snd (last xs)"
      using chain_ge [of "m + 1" xs "fst (last xs)" "snd (last xs)"] 2 by simp
    then show ?thesis using 2 False by auto
  qed
qed simp

lemma set_omap_insert: "k \<notin> fst ` set xs \<Longrightarrow> set (omap_insert k v xs) = insert (k, v) (set xs)"
  by (induction k v xs rule: omap_insert.induct) auto

lemma omap_insert_mem: "(k, v) \<in> set (omap_insert k v xs)"
  by (induction k v xs rule: omap_insert.induct) auto

lemma range_chunks_insert:
  "k \<notin> fst ` set xs \<Longrightarrow> range_chunks (omap_insert k v xs) = (v - k + 1) + range_chunks xs"
  by (induction k v xs rule: omap_insert.induct) (auto simp: range_chunks_def)

lemma range_chunks_delete:
  "distinct (map fst xs) \<Longrightarrow> (k, v) \<in> set xs \<Longrightarrow> range_chunks xs = (v - k + 1) + range_chunks (AList.delete k xs)"
proof (induction xs)
  case (Cons x xs)
  obtain f l where x: "x = (f, l)" by (cases x)
  show ?case
  proof (cases "f = k")
    case True
    then have "k \<notin> fst ` set xs" using Cons.prems x by auto
    then have "AList.delete k xs = xs" "(k, v) \<notin> set xs" by (auto simp: AList.delete_eq filter_id_conv image_iff)
    then show ?thesis using True Cons.prems x by (auto simp: range_chunks_def)
  next
    case False
    then show ?thesis using Cons x by (auto simp: range_chunks_def)
  qed
qed simp

subsection \<open>Operations keep the heap well-formed\<close>

lemma valid_cong:
  assumes "m_nChunks h' = m_nChunks h" and "m_segments h' = m_segments h"
  shows "isValidAllocation h' a = isValidAllocation h a"
  using assms by (simp add: isValidAllocation_def allocationCrossesHeapSegBound_def chunkIdToSegId_def)

lemma setChunkState_fields [simp]:
  "m_chunkSize (setChunkState c st h) = m_chunkSize h" "m_defaultSegmentSize (setChunkState c st h) = m_defaultSegmentSize h"
  "m_nChunks (setChunkState c st h) = m_nChunks h" "m_cache (setChunkState c st h) = m_cache h"
  "m_nextUid (setChunkState c st h) = m_nextUid h" "m_allocations (setChunkState c st h) = m_allocations h"
  "m_sizeAllocated (setChunkState c st h) = m_sizeAllocated h" "m_segments (setChunkState c st h) = m_segments h"
  by (simp_all add: setChunkState_def)

lemma heap_wf_cong:
  assumes "m_chunkSize h' = m_chunkSize h" "m_nChunks h' = m_nChunks h" "m_cache h' = m_cache h"
    "m_nextUid h' = m_nextUid h" "m_allocations h' = m_allocations h"
    "m_sizeAllocated h' = m_sizeAllocated h" "m_segments h' = m_segments h"
  shows "heap_wf h' = heap_wf h"
  using assms valid_cong [of h' h] by (simp add: heap_wf_def getTotalHeapSize_def)

lemma heap_wf_setChunkState [simp]: "heap_wf (setChunkState c st h) = heap_wf h"
  by (rule heap_wf_cong) simp_all

lemma heap_wf_default [simp]: "heap_wf (h\<lparr>m_defaultSegmentSize := d\<rparr>) = heap_wf h"
  by (rule heap_wf_cong) simp_all

lemma fold_setChunkState_fields [simp]:
  "heap_wf (fold (\<lambda>c. setChunkState c st) cs h) = heap_wf h"
  "m_cache (fold (\<lambda>c. setChunkState c st) cs h) = m_cache h"
  "m_allocations (fold (\<lambda>c. setChunkState c st) cs h) = m_allocations h"
  "m_nextUid (fold (\<lambda>c. setChunkState c st) cs h) = m_nextUid h"
  "m_chunkSize (fold (\<lambda>c. setChunkState c st) cs h) = m_chunkSize h"
  "m_segments (fold (\<lambda>c. setChunkState c st) cs h) = m_segments h"
  by (induction cs arbitrary: h) simp_all

lemma set_delete: "set (AList.delete k xs) = {x \<in> set xs. fst x \<noteq> k}"
  by (auto simp: AList.delete_eq)

lemma distinct_map_delete: "distinct (map f xs) \<Longrightarrow> distinct (map f (AList.delete k xs))"
  by (simp add: AList.delete_eq distinct_map_filter)

lemma free_one_fields [simp]:
  "m_chunkSize (free_one (i, f) h) = m_chunkSize h" "m_nChunks (free_one (i, f) h) = m_nChunks h"
  "m_segments (free_one (i, f) h) = m_segments h" "m_nextUid (free_one (i, f) h) = m_nextUid h"
  "m_cache (free_one (i, f) h) = AList.delete i (m_cache h)"
  "m_allocations (free_one (i, f) h) = AList.delete f (m_allocations h)"
  by (simp_all add: free_one_def Let_def)

lemma free_one_wf:
  assumes wf: "heap_wf h" and e: "(i, f) \<in> set (m_cache h)"
  shows "heap_wf (free_one (i, f) h)"
proof -
  have keys: "distinct (map fst (m_allocations h))"
    using wf chain_distinct by (auto simp: heap_wf_def)
  have "f \<in> fst ` set (m_allocations h)"
    using wf e by (metis heap_wf_def image_eqI list.set_map snd_conv)
  then obtain l where l: "(f, l) \<in> set (m_allocations h)" by auto
  then have ml: "map_of (m_allocations h) f = Some l" using keys by simp
  have iff: "snd e' = f \<longleftrightarrow> fst e' = i" if "e' \<in> set (m_cache h)" for e'
    using wf e that by (metis distinct_map fst_conv heap_wf_def inj_onD snd_conv)
  have "snd ` set (AList.delete i (m_cache h)) = snd ` set (m_cache h) - {f}"
    unfolding set_delete using iff by fastforce
  also have "\<dots> = fst ` set (m_allocations h) - {f}"
    using wf by (simp add: heap_wf_def)
  also have "\<dots> = fst ` set (AList.delete f (m_allocations h))"
    unfolding set_delete by fastforce
  finally have "snd ` set (AList.delete i (m_cache h)) = fst ` set (AList.delete f (m_allocations h))" .
  moreover have "m_sizeAllocated (free_one (i, f) h) = range_chunks (AList.delete f (m_allocations h)) * m_chunkSize h"
    using wf range_chunks_delete [OF keys l] ml
    by (simp add: heap_wf_def free_one_def Let_def add_mult_distrib)
  moreover have "isValidAllocation (free_one (i, f) h) a = isValidAllocation h a" for a
    by (rule valid_cong) simp_all
  ultimately show ?thesis
    using wf by (auto simp: heap_wf_def getTotalHeapSize_def chain_delete distinct_map_delete set_delete)
qed

lemma fold_free_one_wf:
  assumes "heap_wf h" and "set es \<subseteq> set (m_cache h)" and "distinct (map fst es)"
  shows "heap_wf (fold free_one es h)"
  using assms
proof (induction es arbitrary: h)
  case (Cons e es)
  obtain i f where e: "e = (i, f)" by (cases e)
  have "set es \<subseteq> set (m_cache (free_one e h))"
    using Cons.prems e by (auto simp: set_delete image_iff)
  then show ?case
    using Cons.IH [of "free_one e h"] Cons.prems free_one_wf [of h i f] e by simp
qed simp

lemma freeDeallocations_wf:
  assumes "heap_wf h"
  shows "heap_wf (freeDeallocations h)"
proof -
  have "distinct (map fst (m_cache h))" using assms by (simp add: heap_wf_def)
  then show ?thesis
    unfolding freeDeallocations_def
    using assms by (intro fold_free_one_wf) (auto simp: distinct_map_filter)
qed

lemma try_segment_le: "try_segment can_map c n = Some sz \<Longrightarrow> sz \<le> n \<and> can_map sz"
proof (induction can_map c n rule: try_segment.induct)
  case (1 can_map c n)
  then show ?case
    by (subst (asm) (2) try_segment.simps) (auto split: if_splits dest: le_trans [OF _ div_le_dividend])
qed

lemma kMax_minus: "n \<le> 2 ^ 31 \<Longrightarrow> unat (kMax32BitHeapSize - word_of_nat n) = 2 ^ 31 - n"
proof -
  assume n: "n \<le> 2 ^ 31"
  have k: "kMax32BitHeapSize = word_of_nat (2 ^ 31)" by (simp add: kMax32BitHeapSize_def)
  have "kMax32BitHeapSize - word_of_nat n = word_of_nat (2 ^ 31 - n)"
    unfolding k using n by (simp only: of_nat_diff)
  moreover have "2 ^ 31 - n < 2 ^ 32" by (rule less_le_trans [of _ "2 ^ 31 + 1"]) simp_all
  ultimately show ?thesis by (simp add: unat_of_nat)
qed

lemma addNewHeapSegment_wf:
  assumes wf: "heap_wf h" and r: "addNewHeapSegment can_map h = (ok, h', msgs)"
  shows "heap_wf h' \<and> m_allocations h' = m_allocations h \<and> m_nextUid h' = m_nextUid h \<and> m_cache h' = m_cache h
    \<and> m_chunkSize h' = m_chunkSize h
    \<and> (ok \<longrightarrow> m_segments h' \<noteq> [] \<and> m_baseChunkId (last (m_segments h')) = m_nChunks h)"
proof -
  let ?n = "min (kMax32BitHeapSize - word_of_nat (getTotalHeapSize h)) (m_defaultSegmentSize h)
      AND NOT (word_of_nat (m_chunkSize h) - 1)"
  show ?thesis
  proof (cases "try_segment can_map (m_chunkSize h) (unat ?n)")
    case None
    then show ?thesis using r wf by (auto simp: addNewHeapSegment_def Let_def)
  next
    case (Some sz)
    have "?n \<le> kMax32BitHeapSize - word_of_nat (getTotalHeapSize h)"
      using word_and_le2 min.cobounded1 order_trans by blast
    then have "unat ?n \<le> 2 ^ 31 - getTotalHeapSize h"
      using kMax_minus [of "getTotalHeapSize h"] wf by (simp add: word_le_nat_alt heap_wf_def)
    then have total: "sz + getTotalHeapSize h \<le> 2 ^ 31"
      using try_segment_le [OF Some] heap_wf_total [OF wf] by linarith
    let ?g = "new_segment sz (m_chunkSize h) (m_nChunks h)"
    have h': "h' = h\<lparr>m_segments := m_segments h @ [?g], m_nChunks := m_nChunks h + seg_nChunks ?g\<rparr>" "ok"
      using r Some by (auto simp: addNewHeapSegment_def Let_def)
    have "isValidAllocation h' a" if "isValidAllocation h a" for a
    proof -
      have "fst a < m_nChunks h" "snd a < m_nChunks h"
        using that by (auto simp: isValidAllocation_def)
      then have "chunkIdToSegId h' (fst a) = chunkIdToSegId h (fst a)" "chunkIdToSegId h' (snd a) = chunkIdToSegId h (snd a)"
        using wf h' by (auto simp: chunkIdToSegId_def heap_wf_def intro!: seg_search_append)
      then show ?thesis
        using that h' by (auto simp: isValidAllocation_def allocationCrossesHeapSegBound_def)
    qed
    then show ?thesis
      using wf h' total
      by (auto simp: heap_wf_def getTotalHeapSize_def segs_from_append new_segment_def)
  qed
qed

subsection \<open>The ranges the searches return are free\<close>

definition free_range :: "heap \<Rightarrow> Allocation \<Rightarrow> bool" where
  "free_range h a \<longleftrightarrow> (\<forall>(g, m) \<in> set (m_allocations h). m < fst a \<or> snd a < g)"

lemma wrap_pred:
  fixes s M :: nat
  assumes "s < M"
  shows "(s + (M - 1)) mod M = (if s = 0 then M - 1 else s - 1)"
proof (cases s)
  case (Suc k)
  then have "s + (M - 1) = k + M" using assms by simp
  then show ?thesis using Suc assms by simp
qed (use assms in simp)

lemma wrap_pred_ge:
  fixes s M :: nat
  assumes "M \<le> s" and "s < 2 * M"
  shows "(s + (M - 1)) mod M = (if s = M then M - 1 else s - M - 1)"
proof -
  have "s + (M - 1) = (s - M + (M - 1)) + M" using assms by simp
  then have "(s + (M - 1)) mod M = (s - M + (M - 1)) mod M" by (metis mod_add_self2)
  then show ?thesis using wrap_pred [of "s - M" M] assms by auto
qed

lemma createAllocation_small:
  assumes "a + n < 2 ^ 32" and "0 < n"
  shows "createAllocation a n = (a, a + n - 1)"
  using assms wrap_pred [of "a + n" "2 ^ 32"] by (simp add: createAllocation_def)

lemma createAllocation_valid:
  assumes "heap_wf h" and v: "isValidAllocation h (createAllocation a n)" and "n \<le> 2 ^ 32"
  shows "createAllocation a n = (a, a + n - 1)" and "1 \<le> n"
proof -
  define M :: nat where "M = 2 ^ 32"
  define x where "x = (a + n + (M - 1)) mod M"
  have c: "createAllocation a n = (a, x)" by (simp add: createAllocation_def x_def M_def)
  have ax: "a \<le> x" "x < m_nChunks h"
    using v unfolding c by (auto simp: isValidAllocation_def)
  have b: "x < M - 1" "n \<le> M" "a < M" using ax heap_wf_nChunks [OF assms(1)] assms(3) by (simp_all add: M_def)
  have "x = a + n - 1 \<and> 1 \<le> n"
  proof (cases "a + n < M")
    case True
    then show ?thesis using wrap_pred [OF True, folded x_def] b ax by (auto split: if_splits)
  next
    case False
    then have "M \<le> a + n" "a + n < 2 * M" using b by simp_all
    from wrap_pred_ge [OF this, folded x_def] have "x < a"
      using b \<open>M \<le> a + n\<close> by (auto split: if_splits)
    then show ?thesis using ax by simp
  qed
  then show "createAllocation a n = (a, a + n - 1)" "1 \<le> n" using c by auto
qed

lemma free_in_middle_free:
  assumes "chain lo xs" and "(prev + 1) mod 2 ^ 32 = lo" and "free_in_middle n prev xs = (a, b)"
    and "a \<le> b" and "\<forall>(f, l) \<in> set xs. l < 2 ^ 31" and "b < 2 ^ 31"
  shows "lo \<le> a \<and> createAllocation a n = (a, b) \<and> (\<forall>(f, l) \<in> set xs. l < a \<or> b < f)"
  using assms
proof (induction n prev xs arbitrary: lo rule: free_in_middle.induct)
  case (1 n prev)
  then show ?case by (simp add: kInvalidId_def)
next
  case (2 n prev f l rest)
  let ?p = "(prev + 1) mod 2 ^ 32"
  have fl: "f \<le> l" "l < 2 ^ 31" "lo \<le> f" and rest: "chain (l + 1) rest" using 2(2,6) by simp_all
  show ?case
  proof (cases "?p < f \<and> f - ?p \<ge> n")
    case True
    then have ab: "createAllocation lo n = (a, b)" using 2(3,4) by (simp add: Let_def)
    have lo: "lo < f" "lo + n \<le> f" using True unfolding 2(3) by linarith+
    have "a = lo" using ab by (simp add: createAllocation_def)
    moreover have "b < f"
    proof (cases "n = 0")
      case True
      then have "b = (lo + (2 ^ 32 - 1)) mod 2 ^ 32" using ab by (auto simp: createAllocation_def)
      then show ?thesis
        using wrap_pred [of lo "2 ^ 32"] lo fl 2(5,7) \<open>a = lo\<close> by (auto split: if_splits)
    next
      case False
      then show ?thesis
        using createAllocation_small [of lo n] ab lo fl by auto
    qed
    moreover have "\<forall>(g, m) \<in> set rest. f < g"
      using chain_ge [OF rest] fl by fastforce
    ultimately show ?thesis using ab by auto
  next
    case False
    have "(l + 1) mod 2 ^ 32 = l + 1" using fl by simp
    moreover have "free_in_middle n l rest = (a, b)"
      using 2(4) unfolding free_in_middle.simps(2) Let_def if_not_P [OF False] .
    ultimately have "l + 1 \<le> a \<and> createAllocation a n = (a, b) \<and> (\<forall>(g, m) \<in> set rest. m < a \<or> b < g)"
      using 2(1) [OF refl False rest] 2(5,6,7) by simp
    then show ?thesis using fl by auto
  qed
qed

lemma findFreeInMiddle_free:
  assumes wf: "heap_wf h" and v: "isValidAllocation h (findFreeInMiddle n h)"
  shows "(\<exists>a. findFreeInMiddle n h = createAllocation a n) \<and> free_range h (findFreeInMiddle n h)"
proof -
  obtain a b where ab: "findFreeInMiddle n h = (a, b)" by (cases "findFreeInMiddle n h")
  have lt: "\<forall>(f, l) \<in> set (m_allocations h). l < 2 ^ 31"
    using wf heap_wf_nChunks [OF wf] by (fastforce simp: heap_wf_def isValidAllocation_def)
  have "a \<le> b" "b < 2 ^ 31"
    using v heap_wf_nChunks [OF wf] unfolding ab by (auto simp: isValidAllocation_def)
  moreover have "chain 0 (m_allocations h)" using wf by (simp add: heap_wf_def)
  ultimately have "createAllocation a n = (a, b) \<and> (\<forall>(f, l) \<in> set (m_allocations h). l < a \<or> b < f)"
    using free_in_middle_free [of 0 "m_allocations h" "2 ^ 32 - 1" n a b] ab lt
    by (simp add: findFreeInMiddle_def)
  then show ?thesis unfolding ab by (metis fst_conv free_range_def snd_conv)
qed

lemma findFreeOnEnd_free:
  assumes wf: "heap_wf h" and r: "findFreeOnEnd n h = Inr al" and v: "isValidAllocation h al"
  shows "(\<exists>a. al = createAllocation a n) \<and> free_range h al"
proof -
  have al: "al = createAllocation (snd (last (m_allocations h)) + 1) n"
    using r by (simp add: findFreeOnEnd_def split: if_splits)
  then have "fst al = snd (last (m_allocations h)) + 1" by (simp add: createAllocation_def)
  moreover have "l \<le> snd (last (m_allocations h))" if "(f, l) \<in> set (m_allocations h)" for f l
    using chain_last [of 0 "m_allocations h" f l] wf that by (simp add: heap_wf_def)
  ultimately show ?thesis using al by (fastforce simp: free_range_def)
qed

definition kept :: "heap \<Rightarrow> heap \<Rightarrow> bool" where
  "kept h h' \<longleftrightarrow> heap_wf h' \<and> m_nextUid h' = m_nextUid h \<and> m_chunkSize h' = m_chunkSize h"

lemma fold_free_one_fields:
  "m_nextUid (fold free_one es h) = m_nextUid h \<and> m_chunkSize (fold free_one es h) = m_chunkSize h"
  by (induction es arbitrary: h) (auto split: prod.splits)

lemma freeDeallocations_kept: "heap_wf h \<Longrightarrow> kept h (freeDeallocations h)"
  using freeDeallocations_wf by (simp add: kept_def freeDeallocations_def fold_free_one_fields)

lemma invalid_kInvalidId: "heap_wf h \<Longrightarrow> \<not> isValidAllocation h (kInvalidId, kInvalidId)"
  using heap_wf_nChunks [of h] by (simp add: isValidAllocation_def kInvalidId_def)

lemma find_loop_spec:
  assumes "heap_wf h0" and "find_loop can_map tmo n k env h0 = Some (Inr (al, h', msgs))"
  shows "kept h0 h' \<and> (isValidAllocation h' al \<longrightarrow> (\<exists>a. al = createAllocation a n) \<and> free_range h' al)"
  using assms
proof (induction can_map tmo n k env h0 rule: find_loop.induct)
  case (1 can_map tmo n k h)
  then show ?case by simp
next
  case (2 can_map tmo n k freed dt env h0)
  define h where "h = fold (\<lambda>c. setChunkState c Deallocated) freed h0"
  have wf: "heap_wf h" and kept: "kept h0 h" using 2(2) by (simp_all add: h_def kept_def)
  show ?case
  proof (cases "isValidAllocation h (findFreeInMiddle n h)")
    case True
    then show ?thesis
      using 2(3) findFreeInMiddle_free [OF wf] kept by (auto simp: h_def [symmetric] Let_def)
  next
    case mid: False
    then obtain e where e: "findFreeOnEnd n h = Inr e"
      using 2(3) by (auto simp: h_def [symmetric] Let_def split: sum.splits)
    show ?thesis
    proof (cases "isValidAllocation h e")
      case True
      then show ?thesis
        using 2(3) mid e findFreeOnEnd_free [OF wf e] kept by (auto simp: h_def [symmetric] Let_def)
    next
      case tail: False
      define h1 where "h1 = freeDeallocations h"
      have k1: "kept h h1" using freeDeallocations_kept [OF wf] by (simp add: h1_def)
      obtain grown h2 ms where g: "(if k = 2 then addNewHeapSegment can_map h1 else (False, h1, [])) = (grown, h2, ms)"
        by (metis prod_cases3)
      have k2: "kept h1 h2" and base: "grown \<longrightarrow> m_baseChunkId (last (m_segments h2)) = m_nChunks h1 \<and> m_allocations h2 = m_allocations h1"
        using addNewHeapSegment_wf [of h1 can_map grown h2 ms] k1 g by (auto simp: kept_def split: if_splits)
      show ?thesis
      proof (cases grown)
        case True
        then have r: "al = createAllocation (m_nChunks h1) n" "h' = h2"
          using 2(3) mid e tail g base
          by (auto simp: h_def [symmetric] h1_def [symmetric] Let_def)
        have "\<forall>(f, l) \<in> set (m_allocations h1). l < m_nChunks h1"
          using k1 by (auto simp: kept_def heap_wf_def isValidAllocation_def)
        then have "free_range h2 al" using base True r by (auto simp: free_range_def createAllocation_def)
        then show ?thesis using r kept k1 k2 by (auto simp: kept_def)
      next
        case ng: False
        show ?thesis
        proof (cases "dt div 1000 \<ge> tmo")
          case True
          then show ?thesis
            using 2(3) mid e tail g ng kept k1 k2 invalid_kInvalidId [of h2]
            by (auto simp: h_def [symmetric] h1_def [symmetric] Let_def kept_def)
        next
          case False
          then have "find_loop can_map tmo n (k + 1) env h2 = Some (Inr (al, h', msgs))"
            using 2(3) mid e tail g ng by (simp add: h_def [symmetric] h1_def [symmetric])
          then show ?thesis
            using 2(1) [OF h_def mid e tail h1_def refl g [symmetric] refl ng False] k2 kept k1 by (auto simp: kept_def)
        qed
      qed
    qed
  qed
qed

lemma findAllocation_spec:
  assumes "heap_wf h" and "findAllocation can_map tmo n env h = Some (Inr (al, h', msgs))"
  shows "kept h h' \<and> (isValidAllocation h' al \<longrightarrow> (\<exists>a. al = createAllocation a n) \<and> free_range h' al)"
proof (cases "m_allocations h = []")
  case True
  then show ?thesis using assms by (auto simp: findAllocation_def kept_def free_range_def)
next
  case False
  then show ?thesis using assms find_loop_spec by (simp add: findAllocation_def)
qed

subsection \<open>\<open>allocate\<close>\<close>

lemma num_chunks_cover: "0 < m_chunkSize h \<Longrightarrow> unat sz \<le> num_chunks h sz * m_chunkSize h"
  using dividend_less_div_times [of "m_chunkSize h" "unat sz"]
  by (cases "unat sz mod m_chunkSize h = 0") (auto simp: num_chunks_def)

lemma num_chunks_le: "num_chunks h sz \<le> 2 ^ 32"
proof -
  have "unat sz < 2 ^ 32" using unsigned_less [of sz] by simp
  moreover have "unat sz div m_chunkSize h \<le> unat sz" by (rule div_le_dividend)
  ultimately have "unat sz div m_chunkSize h + 1 \<le> 2 ^ 32" by linarith
  then show ?thesis unfolding num_chunks_def by (auto split: if_splits)
qed

lemma alist_update_new: "k \<notin> fst ` set xs \<Longrightarrow> AList.update k v xs = xs @ [(k, v)]"
  by (induction xs) auto

text \<open>Recording an allocation whose range is valid and free.\<close>

lemma heap_wf_record:
  assumes wf: "heap_wf h" and v: "isValidAllocation h (a, b)" and fr: "free_range h (a, b)"
    and uid: "m_nextUid h + 1 < 2 ^ 32" and n: "n = b - a + 1"
  shows "heap_wf (h\<lparr>m_nextUid := (m_nextUid h + 1) mod 2 ^ 32, m_cache := AList.update (m_nextUid h) a (m_cache h),
    m_allocations := omap_insert a b (m_allocations h), m_sizeAllocated := m_sizeAllocated h + n * m_chunkSize h\<rparr>)"
    (is "heap_wf ?h")
proof -
  have ab: "a \<le> b" using v by (auto simp: isValidAllocation_def)
  have new: "a \<notin> fst ` set (m_allocations h)"
  proof
    assume "a \<in> fst ` set (m_allocations h)"
    then obtain m where m: "(a, m) \<in> set (m_allocations h)" by auto
    then have "a \<le> m" using wf chain_ge [of 0 "m_allocations h" a m] by (simp add: heap_wf_def)
    then show False using fr m ab by (auto simp: free_range_def)
  qed
  have uid_new: "m_nextUid h \<notin> fst ` set (m_cache h)"
    using wf by (auto simp: heap_wf_def)
  have cache: "AList.update (m_nextUid h) a (m_cache h) = m_cache h @ [(m_nextUid h, a)]"
    using uid_new by (rule alist_update_new)
  have ch: "chain 0 (omap_insert a b (m_allocations h))"
    using chain_insert [of 0 "m_allocations h" a b] wf fr ab by (auto simp: heap_wf_def free_range_def)
  have val: "isValidAllocation ?h x = isValidAllocation h x" for x
    by (rule valid_cong) simp_all
  have next_uid: "(m_nextUid h + 1) mod 2 ^ 32 = m_nextUid h + 1" using uid by simp
  have "snd ` set (m_cache h) = fst ` set (m_allocations h)" using wf by (simp add: heap_wf_def)
  then show ?thesis
    using wf v uid_new new ch val unfolding next_uid
    by (auto simp: heap_wf_def cache set_omap_insert range_chunks_insert getTotalHeapSize_def n
        add_mult_distrib less_Suc_eq)
qed

lemma allocate_cases:
  assumes wf: "heap_wf h" and r: "allocate can_map tmo sz env h = Some (Inr (i, h', msgs))"
    and uid: "m_nextUid h + 1 < 2 ^ 32"
  shows "heap_wf h' \<and> (i = kInvalidId \<or> i = m_nextUid h \<and> (\<exists>a b. map_of (m_cache h') i = Some a
    \<and> (a, b) \<in> set (m_allocations h') \<and> unat sz \<le> (b - a + 1) * m_chunkSize h'))"
proof -
  obtain d where d: "(if sz > m_defaultSegmentSize h then grow_segment sz (m_defaultSegmentSize h)
      else Some (m_defaultSegmentSize h)) = Some d"
    using r by (auto simp: allocate_def split: option.splits)
  let ?h0 = "h\<lparr>m_defaultSegmentSize := d\<rparr>"
  let ?n = "num_chunks h sz"
  have n: "num_chunks ?h0 sz = ?n"
    by (simp add: num_chunks_def)
  obtain al h1 ms where f: "findAllocation can_map tmo ?n env ?h0 = Some (Inr (al, h1, ms))"
    using r d n by (auto simp: allocate_def Let_def split: option.splits sum.splits)
  have k: "kept ?h0 h1" and fr: "isValidAllocation h1 al \<longrightarrow> (\<exists>a. al = createAllocation a ?n) \<and> free_range h1 al"
    using findAllocation_spec [OF _ f] wf by simp_all
  show ?thesis
  proof (cases "isValidAllocation h1 al")
    case False
    then show ?thesis
      using r d n f k by (auto simp: allocate_def Let_def kept_def)
  next
    case True
    then obtain a where al: "al = createAllocation a ?n" using fr by blast
    have wf1: "heap_wf h1" "m_nextUid h1 = m_nextUid h" "m_chunkSize h1 = m_chunkSize h"
      using k by (simp_all add: kept_def)
    have c: "createAllocation a ?n = (a, a + ?n - 1)" "1 \<le> ?n"
      using createAllocation_valid [OF wf1(1)] True al num_chunks_le by metis+
    define b where "b = a + ?n - 1"
    have ab: "al = (a, b)" "?n = b - a + 1" using al c by (auto simp: b_def)
    let ?h1 = "h1\<lparr>m_nextUid := (m_nextUid h1 + 1) mod 2 ^ 32, m_cache := AList.update (m_nextUid h1) a (m_cache h1),
      m_allocations := omap_insert a b (m_allocations h1), m_sizeAllocated := m_sizeAllocated h1 + ?n * m_chunkSize h1\<rparr>"
    have res: "i = m_nextUid h" "h' = setChunkState a Allocated ?h1"
      using r d n f True ab(1) wf1 by (auto simp: allocate_def Let_def)
    have "heap_wf ?h1"
      using heap_wf_record [OF wf1(1)] True fr ab wf1(2) uid by auto
    moreover have "(a, b) \<in> set (omap_insert a b (m_allocations h1))"
      by (rule omap_insert_mem)
    moreover have "unat sz \<le> ?n * m_chunkSize h"
      using num_chunks_cover [of h sz] wf by (simp add: heap_wf_def)
    ultimately show ?thesis
      using res wf1 ab(2) by (auto simp: update_conv')
  qed
qed

section \<open>Growing the default segment size\<close>

lemma push_bit_1_double: "w < 2 ^ 31 \<Longrightarrow> unat (push_bit 1 (w::u32)) = 2 * unat w"
proof -
  assume "w < 2 ^ 31"
  then have "unat w < 2 ^ 31" by (simp add: word_less_nat_alt)
  then show ?thesis by (simp add: push_bit_eq_mult unat_word_ariths)
qed

lemma grow_segment_terminates:
  assumes "sz \<le> 2 ^ 31" and "0 < d"
  shows "\<exists>r. grow_segment sz d = Some r \<and> sz \<le> r"
  using assms
proof (induction "unat sz - unat d" arbitrary: d rule: less_induct)
  case less
  show ?case
  proof (cases "sz > d")
    case True
    then have d: "d < 2 ^ 31" using less.prems by simp
    have "0 < unat d" "unat d < unat sz" using less.prems True by (simp_all add: word_less_nat_alt unat_gt_0)
    then have "0 < push_bit 1 d" "unat sz - unat (push_bit 1 d) < unat sz - unat d"
      using push_bit_1_double [OF d] by (simp_all add: word_less_nat_alt)
    then obtain r where "grow_segment sz (push_bit 1 d) = Some r" "sz \<le> r"
      using less.hyps [of "push_bit 1 d"] less.prems by blast
    then show ?thesis using True by (subst grow_segment.simps) simp
  next
    case False
    then show ?thesis by (subst grow_segment.simps) simp
  qed
qed

lemma grow_segment_diverges:
  "grow_segment sz d = Some r \<Longrightarrow> sz \<le> 2 ^ 31 \<or> d \<notin> {2 ^ 28, 2 ^ 29, 2 ^ 30, 2 ^ 31, 0}"
proof (erule grow_segment.raw_induct [rotated])
  fix grow :: "u32 \<Rightarrow> u32 \<Rightarrow> u32 option" and sz d r
  assume IH: "\<And>sz d r. grow sz d = Some r \<Longrightarrow> sz \<le> 2 ^ 31 \<or> d \<notin> {2 ^ 28, 2 ^ 29, 2 ^ 30, 2 ^ 31, 0}"
    and step: "(if d < sz then grow sz (push_bit 1 d) else Some d) = Some r"
  show "sz \<le> 2 ^ 31 \<or> d \<notin> {2 ^ 28, 2 ^ 29, 2 ^ 30, 2 ^ 31, 0}"
  proof (rule ccontr)
    assume n: "\<not> ?thesis"
    then have big: "2 ^ 31 < sz" and d: "d \<in> {2 ^ 28, 2 ^ 29, 2 ^ 30, 2 ^ 31, 0}" by (simp_all add: not_le)
    have "d \<le> 2 ^ 31" using d by auto
    then have "d < sz" using big by simp
    then have "grow sz (push_bit 1 d) = Some r" using step by simp
    moreover have "push_bit 1 d \<in> {2 ^ 28, 2 ^ 29, 2 ^ 30, 2 ^ 31, 0}" using d by auto
    ultimately show False using IH [of sz "push_bit 1 d" r] big by (simp add: not_le)
  qed
qed

section \<open>Properties\<close>

text \<open>C18. What \<open>allocate\<close> promises.  In a well-formed heap, when it returns an id, that id
  is new and names a block of consecutive chunks that lies inside one segment, is large enough for the request and
  overlaps the block of no other live id; the heap stays well-formed, also when the allocation
  fails.\<close>

theorem allocate_gives_disjoint_block:
  assumes "heap_wf h" and "m_nextUid h + 1 < 2 ^ 32"
    and "allocate can_map tmo sz env h = Some (Inr (i, h', msgs))"
  shows "heap_wf h' \<and> (i \<noteq> kInvalidId \<longrightarrow> map_of (m_cache h) i = None
    \<and> (\<exists>a b. map_of (m_cache h') i = Some a \<and> (a, b) \<in> set (m_allocations h')
      \<and> unat sz \<le> (b - a + 1) * m_chunkSize h'
      \<and> (\<exists>g \<in> set (m_segments h'). m_baseChunkId g \<le> a \<and> a \<le> b \<and> b < m_baseChunkId g + seg_nChunks g)
      \<and> (\<forall>j a' b'. j \<noteq> i \<and> map_of (m_cache h') j = Some a' \<and> (a', b') \<in> set (m_allocations h')
          \<longrightarrow> b' < a \<or> b < a')))"
proof -
  have wf': "heap_wf h'" and c: "i = kInvalidId \<or> i = m_nextUid h \<and> (\<exists>a b. map_of (m_cache h') i = Some a
    \<and> (a, b) \<in> set (m_allocations h') \<and> unat sz \<le> (b - a + 1) * m_chunkSize h')"
    using allocate_cases [OF assms(1,3,2)] by simp_all
  show ?thesis
  proof (cases "i = kInvalidId")
    case True
    then show ?thesis using wf' by simp
  next
    case False
    then obtain a b where ab: "i = m_nextUid h" "map_of (m_cache h') i = Some a" "(a, b) \<in> set (m_allocations h')"
      "unat sz \<le> (b - a + 1) * m_chunkSize h'" using c by auto
    have fresh: "map_of (m_cache h) i = None"
      using assms(1) ab(1) by (auto simp: heap_wf_def map_of_eq_None_iff)
    have val: "isValidAllocation h' (a, b)" using wf' ab(3) by (simp add: heap_wf_def)
    have "b' < a \<or> b < a'" if "j \<noteq> i" "map_of (m_cache h') j = Some a'" "(a', b') \<in> set (m_allocations h')" for j a' b'
    proof -
      have "(j, a') \<in> set (m_cache h')" "(i, a) \<in> set (m_cache h')"
        using that(2) ab(2) by (simp_all add: map_of_SomeD)
      then have "a' \<noteq> a"
        using wf' that(1) by (auto simp: heap_wf_def distinct_map dest!: inj_onD [where x = "(j, a)" and y = "(i, a)"])
      moreover have "chain 0 (m_allocations h')" using wf' by (simp add: heap_wf_def)
      ultimately show ?thesis
        using chain_disjoint [of 0 "m_allocations h'" a' b' a b] that(3) ab(3) by blast
    qed
    then show ?thesis
      using wf' fresh ab isValidAllocation_seg [OF wf' val] by blast
  qed
qed

definition demo_heap :: heap where
  "demo_heap = \<lparr>m_chunkSize = 16, m_defaultSegmentSize = 256, m_nChunks = 16, m_cache = [(0, 0)], m_nextUid = 1,
     m_allocations = [(0, 11)], m_sizeAllocated = 192, m_segments = [new_segment 256 16 0],
     m_meta = (\<lambda>_. Unallocated)(0 := Deallocated)\<rparr>"

lemma demo_heap_wf: "heap_wf demo_heap"
  by (simp add: heap_wf_def demo_heap_def new_segment_def getTotalHeapSize_def isValidAllocation_def
      allocationCrossesHeapSegBound_def chunkIdToSegId_def range_chunks_def)

lemmas demo_eval = demo_heap_def new_segment_def isValidAllocation_def allocationCrossesHeapSegBound_def
  chunkIdToSegId_def allocate_def findAllocation_def findFreeInMiddle_def findFreeOnEnd_def createAllocation_def
  kInvalidId_def setChunkState_def num_chunks_def

theorem allocate_gives_disjoint_block_witness:
  "\<exists>h' msgs. allocate (\<lambda>_. True) 10 40 [([], 0)] demo_heap = Some (Inr (1, h', msgs)) \<and> heap_wf h'
     \<and> (\<exists>a b. map_of (m_cache h') 1 = Some a \<and> (a, b) \<in> set (m_allocations h') \<and> 40 \<le> (b - a + 1) * m_chunkSize h')"
proof -
  have "\<exists>h' msgs. allocate (\<lambda>_. True) 10 40 [([], 0)] demo_heap = Some (Inr (1, h', msgs))"
    by (simp add: demo_eval)
  then obtain h' msgs where r: "allocate (\<lambda>_. True) 10 40 [([], 0)] demo_heap = Some (Inr (1, h', msgs))" by blast
  moreover have "m_nextUid demo_heap + 1 < 2 ^ 32" "(1::nat) \<noteq> kInvalidId"
    by (simp_all add: demo_heap_def kInvalidId_def)
  ultimately show ?thesis
    using allocate_gives_disjoint_block [OF demo_heap_wf _ r] by auto
qed

text \<open>The loop that doubles the default segment size ends for every request of at most 2 GB, with a
  size that holds the request; for a larger request and the default of 256 MB it never ends, since
  the 32-bit size wraps to zero.\<close>

theorem grow_segment_ends_iff_2GB:
  "((\<exists>r. grow_segment sz (2 ^ 28) = Some r) \<longleftrightarrow> sz \<le> 2 ^ 31)
   \<and> (sz \<le> 2 ^ 31 \<and> 0 < d \<longrightarrow> (\<exists>r. grow_segment sz d = Some r \<and> sz \<le> r))"
  using grow_segment_terminates [of sz "2 ^ 28"] grow_segment_terminates [of sz d]
    grow_segment_diverges [of sz "2 ^ 28"] by auto

theorem grow_segment_ends_iff_2GB_witness:
  "(\<exists>r. grow_segment (3 * 2 ^ 28) (2 ^ 28) = Some r \<and> 3 * 2 ^ 28 \<le> r)
   \<and> \<not> (\<exists>r. grow_segment (2 ^ 31 + 1) (2 ^ 28) = Some r)"
  using grow_segment_ends_iff_2GB [of "3 * 2 ^ 28" "2 ^ 28"] grow_segment_ends_iff_2GB [of "2 ^ 31 + 1" "2 ^ 28"]
  by simp

lemma fold_free_one_allocations:
  "m_allocations (fold free_one es h) = filter (\<lambda>x. fst x \<notin> snd ` set es) (m_allocations h)"
proof (induction es arbitrary: h)
  case (Cons e es)
  then show ?case by (cases e) (auto simp: AList.delete_eq intro!: filter_cong)
qed simp

lemma freeDeallocations_all:
  assumes "heap_wf h" and "\<forall>e \<in> set (m_cache h). m_meta h (snd e) = Deallocated"
  shows "m_allocations (freeDeallocations h) = []"
proof -
  have "filter (\<lambda>(_, c). m_meta h c = Deallocated) (m_cache h) = m_cache h"
    using assms(2) by (auto simp: filter_id_conv)
  moreover have "snd ` set (m_cache h) = fst ` set (m_allocations h)" using assms(1) by (simp add: heap_wf_def)
  ultimately show ?thesis
    unfolding freeDeallocations_def fold_free_one_allocations by (auto simp: filter_empty_conv)
qed

text \<open>When every live block has been released by the server but the request fits neither in a gap
  nor at the end, the first pass frees them all and the second pass looks at the last element of
  the empty allocation map, which is undefined.\<close>

theorem allocate_after_all_released_undefined:
  assumes "heap_wf h" and "m_allocations h \<noteq> []" and "\<forall>e \<in> set (m_cache h). m_meta h (snd e) = Deallocated"
    and "n = num_chunks h sz" and "sz \<le> m_defaultSegmentSize h"
    and "\<not> isValidAllocation h (findFreeInMiddle n h)"
    and "\<not> isValidAllocation h (createAllocation (snd (last (m_allocations h)) + 1) n)"
    and "dt div 1000 < timeoutS"
  shows "allocate can_map timeoutS sz [([], dt), ([], dt')] h = Some (Inl OutOfBounds)"
proof -
  let ?h = "freeDeallocations h"
  have e: "m_allocations ?h = []" by (rule freeDeallocations_all [OF assms(1,3)])
  then have "findFreeInMiddle n ?h = (kInvalidId, kInvalidId)" by (simp add: findFreeInMiddle_def)
  then have mid: "\<not> isValidAllocation ?h (findFreeInMiddle n ?h)"
    using invalid_kInvalidId [OF freeDeallocations_wf [OF assms(1)]] by simp
  have "find_loop can_map timeoutS n 0 [([], dt), ([], dt')] h = Some (Inl OutOfBounds)"
    using assms(2,6,7,8) mid e by (simp add: findFreeOnEnd_def)
  then have "findAllocation can_map timeoutS n [([], dt), ([], dt')] h = Some (Inl OutOfBounds)"
    using assms(2) by (simp only: findAllocation_def if_False)
  moreover have "\<not> m_defaultSegmentSize h < sz" using assms(5) by (simp add: not_less)
  moreover have "h\<lparr>m_defaultSegmentSize := m_defaultSegmentSize h\<rparr> = h" by simp
  ultimately show ?thesis
    using assms(4) by (simp add: allocate_def)
qed

theorem allocate_after_all_released_undefined_witness:
  "allocate (\<lambda>_. True) 10 128 [([], 0), ([], 1)] demo_heap = Some (Inl OutOfBounds)"
  by (rule allocate_after_all_released_undefined [OF demo_heap_wf _ _ refl])
     (simp_all add: demo_eval)

end
