(* ===== verification/Heap_Protocol.thy ===== *)
theory Heap_Protocol
  imports Shared_Heap
begin

text \<open>
  The client's allocator and the server's mirror together: the server executes the
  \<open>Bridge_SharedHeap_AddSeg\<close>, \<open>_Alloc\<close> and \<open>_Dealloc\<close> commands in the order the client sent
  them.  \<open>can_map\<close> says which sizes the client's operating system can map and \<open>can_open\<close> which the server's can; that a
  mapping that was created can be opened is the hypothesis \<open>\<forall>sz. can_map sz \<longrightarrow> can_open sz\<close>.  The
  chunk states are one shared array, so the two records are given the same \<open>m_meta\<close>.
\<close>

definition serve :: "(nat \<Rightarrow> bool) \<Rightarrow> heap_msg list \<Rightarrow> heap \<Rightarrow> heap" where
  "serve can_open msgs s = fold (server_heap_msg can_open) msgs s"

definition empty_heap :: "nat \<Rightarrow> u32 \<Rightarrow> heap" where
  "empty_heap chunkSize d = \<lparr>m_chunkSize = chunkSize, m_defaultSegmentSize = d, m_nChunks = 0, m_cache = [],
      m_nextUid = 0, m_allocations = [], m_sizeAllocated = 0, m_segments = [], m_meta = (\<lambda>_. Unallocated)\<rparr>"

inductive heap_run :: "(nat \<Rightarrow> bool) \<Rightarrow> (nat \<Rightarrow> bool) \<Rightarrow> nat \<Rightarrow> u32 \<Rightarrow> heap \<Rightarrow> heap \<Rightarrow> bool"
  for can_map can_open chunkSize d where
  start: "heap_new can_map chunkSize d = (ok, c, msgs) \<Longrightarrow>
    heap_run can_map can_open chunkSize d c (serve can_open msgs (empty_heap chunkSize d))"
| alloc: "heap_run can_map can_open chunkSize d c s \<Longrightarrow> m_nextUid c + 1 < 2 ^ 32 \<Longrightarrow> \<forall>e \<in> set env. fst e = [] \<Longrightarrow>
    allocate can_map timeoutS sz env c = Some (Inr (i, c', msgs)) \<Longrightarrow>
    heap_run can_map can_open chunkSize d c' (serve can_open msgs s)"
| dealloc: "heap_run can_map can_open chunkSize d c s \<Longrightarrow> map_of (m_cache s) i \<noteq> None \<Longrightarrow>
    s' = serve can_open (deallocate i) (s\<lparr>m_meta := m_meta c\<rparr>) \<Longrightarrow>
    heap_run can_map can_open chunkSize d (c\<lparr>m_meta := m_meta s'\<rparr>) s'"

section \<open>Agreement\<close>

definition agree :: "heap \<Rightarrow> heap \<Rightarrow> bool" where
  "agree c s \<longleftrightarrow> m_chunkSize s = m_chunkSize c \<and> m_segments s = m_segments c \<and> m_nChunks s = m_nChunks c
     \<and> (\<forall>i a. map_of (m_cache s) i = Some a \<longrightarrow> map_of (m_cache c) i = Some a \<and> m_meta c a = Allocated)"

lemma map_of_cache: "heap_wf h \<Longrightarrow> (i, f) \<in> set (m_cache h) \<longleftrightarrow> map_of (m_cache h) i = Some f"
  by (auto simp: heap_wf_def dest: map_of_SomeD)

lemma agree_free_one:
  assumes wf: "heap_wf c" and ag: "agree c s" and e: "(i, f) \<in> set (m_cache c)" and f: "m_meta c f = Deallocated"
  shows "agree (free_one (i, f) c) s"
proof -
  have "map_of (m_cache c) i = Some f" using e map_of_cache [OF wf] by simp
  then have "map_of (m_cache s) i = None"
    using ag f by (cases "map_of (m_cache s) i") (auto simp: agree_def)
  then show ?thesis
    using ag f by (auto simp: agree_def delete_conv' free_one_def Let_def setChunkState_def)
qed

lemma meta_free_one: "m_meta (free_one (i, f) c) = (m_meta c)(f := Unallocated)"
  by (simp add: free_one_def Let_def setChunkState_def)

lemma agree_fold_free_one:
  assumes "heap_wf c" and "agree c s" and "set es \<subseteq> set (m_cache c)"
    and "distinct (map fst es)" and "\<forall>e \<in> set es. m_meta c (snd e) = Deallocated"
  shows "agree (fold free_one es c) s"
  using assms
proof (induction es arbitrary: c)
  case (Cons e es)
  obtain i f where e: "e = (i, f)" by (cases e)
  have "snd x \<noteq> f" if "x \<in> set es" for x
  proof -
    have "x \<in> set (m_cache c)" "(i, f) \<in> set (m_cache c)" "fst x \<noteq> i"
      using that Cons.prems(3,4) e by (auto simp: image_iff)
    then show ?thesis
      using Cons.prems(1) by (metis distinct_map fst_conv heap_wf_def inj_onD snd_conv)
  qed
  then have "\<forall>x \<in> set es. m_meta (free_one e c) (snd x) = Deallocated"
    using Cons.prems(5) e by (simp add: meta_free_one)
  moreover have "set es \<subseteq> set (m_cache (free_one e c))"
    using Cons.prems(3,4) e by (auto simp: set_delete image_iff)
  ultimately show ?case
    using Cons.IH [of "free_one e c"] Cons.prems e free_one_wf [of c i f] agree_free_one [of c s i f] by simp
qed simp

lemma agree_freeDeallocations:
  assumes "heap_wf c" and "agree c s"
  shows "agree (freeDeallocations c) s"
proof -
  have "distinct (map fst (m_cache c))" using assms(1) by (simp add: heap_wf_def)
  then show ?thesis
    unfolding freeDeallocations_def
    using assms by (intro agree_fold_free_one) (auto simp: distinct_map_filter)
qed

lemma agree_addNewHeapSegment:
  assumes ag: "agree c s" and r: "addNewHeapSegment can_map c = (ok, c', msgs)"
    and open': "\<forall>sz. can_map sz \<longrightarrow> can_open sz"
  shows "agree c' (serve can_open msgs s)"
proof -
  let ?n = "min (kMax32BitHeapSize - word_of_nat (getTotalHeapSize c)) (m_defaultSegmentSize c)
      AND NOT (word_of_nat (m_chunkSize c) - 1)"
  show ?thesis
  proof (cases "try_segment can_map (m_chunkSize c) (unat ?n)")
    case None
    then show ?thesis using r ag by (auto simp: addNewHeapSegment_def Let_def serve_def)
  next
    case (Some sz)
    then have "can_open sz" using try_segment_le open' by blast
    then show ?thesis
      using r ag Some by (auto simp: addNewHeapSegment_def Let_def serve_def server_addNewHeapSegment_def agree_def)
  qed
qed

lemma addNewHeapSegment_failed:
  "addNewHeapSegment can_map c = (False, c', msgs) \<Longrightarrow> c' = c \<and> msgs = []"
  by (auto simp: addNewHeapSegment_def Let_def split: option.splits)

lemma serve_append: "serve can_open (xs @ ys) s = serve can_open ys (serve can_open xs s)"
  by (simp add: serve_def)

lemma serve_Nil [simp]: "serve can_open [] s = s"
  by (simp add: serve_def)

lemma find_loop_agree:
  assumes "heap_wf c" and "agree c s" and "find_loop can_map tmo n k env c = Some (Inr (al, c', msgs))"
    and "\<forall>e \<in> set env. fst e = []" and op: "\<forall>sz. can_map sz \<longrightarrow> can_open sz"
  shows "agree c' (serve can_open msgs s)"
  using assms
proof (induction can_map tmo n k env c rule: find_loop.induct)
  case (1 can_map tmo n k h)
  then show ?case by simp
next
  case (2 can_map tmo n k freed dt env h)
  have fr: "freed = []" using 2(5) by simp
  define h1 where "h1 = freeDeallocations h"
  have h1: "heap_wf h1" "agree h1 s"
    using freeDeallocations_wf agree_freeDeallocations 2(2,3) by (simp_all add: h1_def)
  obtain grown h2 ms where g: "(if k = 2 then addNewHeapSegment can_map h1 else (False, h1, [])) = (grown, h2, ms)"
    by (metis prod_cases3)
  have h2: "heap_wf h2" "agree h2 (serve can_open ms s)"
    using g h1 2(6) addNewHeapSegment_wf [OF h1(1)] agree_addNewHeapSegment [OF h1(2)] by (auto split: if_splits)
  have ng: "\<not> grown \<Longrightarrow> ms = []"
    using g addNewHeapSegment_failed by (auto split: if_splits)
  show ?case
  proof (cases "isValidAllocation h (findFreeInMiddle n h)")
    case True
    then show ?thesis using 2(3,4) fr by (auto simp: Let_def)
  next
    case mid: False
    then obtain e where e: "findFreeOnEnd n h = Inr e"
      using 2(4) fr by (auto simp: Let_def split: sum.splits)
    show ?thesis
    proof (cases "isValidAllocation h e")
      case True
      then show ?thesis using 2(3,4) fr mid e by (auto simp: Let_def)
    next
      case tail: False
      have r: "(if grown then Some (Inr (createAllocation (m_baseChunkId (last (m_segments h2))) n, h2, ms))
          else if dt div 1000 \<ge> tmo then Some (Inr ((kInvalidId, kInvalidId), h2, ms))
          else find_loop can_map tmo n (k + 1) env h2) = Some (Inr (al, c', msgs))"
        using 2(4) fr mid e tail g by (simp add: h1_def [symmetric])
      show ?thesis
      proof (cases "grown \<or> dt div 1000 \<ge> tmo")
        case True
        then show ?thesis using r h2 by (auto split: if_splits)
      next
        case False
        have h: "h = fold (\<lambda>c. setChunkState c Deallocated) freed h" using fr by simp
        have "find_loop can_map tmo n (k + 1) env h2 = Some (Inr (al, c', msgs))" using r False by simp
        then show ?thesis
          using 2(1) [OF h mid e tail h1_def refl g [symmetric] refl] False ng h2 2(5,6) by simp
      qed
    qed
  qed
qed

lemma findAllocation_agree:
  assumes "heap_wf c" and "agree c s" and "findAllocation can_map tmo n env c = Some (Inr (al, c', msgs))"
    and "\<forall>e \<in> set env. fst e = []" and "\<forall>sz. can_map sz \<longrightarrow> can_open sz"
  shows "agree c' (serve can_open msgs s)"
  using assms find_loop_agree by (auto simp: findAllocation_def split: if_splits)

lemma agree_default [simp]: "agree (c\<lparr>m_defaultSegmentSize := d\<rparr>) s = agree c s"
  by (simp add: agree_def)

lemma agree_record:
  assumes "agree c s" and "map_of (m_cache c) i = None"
  shows "agree (setChunkState a Allocated (c\<lparr>m_nextUid := u, m_cache := AList.update i a (m_cache c),
      m_allocations := xs, m_sizeAllocated := z\<rparr>)) (serve can_open [AllocMsg i a] s)"
  using assms by (auto simp: agree_def serve_def server_allocate_def update_conv' setChunkState_def)

lemma allocate_agree:
  assumes wf: "heap_wf c" and ag: "agree c s" and r: "allocate can_map tmo sz env c = Some (Inr (i, c', msgs))"
    and env: "\<forall>e \<in> set env. fst e = []" and op: "\<forall>sz. can_map sz \<longrightarrow> can_open sz"
  shows "agree c' (serve can_open msgs s)"
proof -
  obtain d where d: "(if sz > m_defaultSegmentSize c then grow_segment sz (m_defaultSegmentSize c)
      else Some (m_defaultSegmentSize c)) = Some d"
    using r by (auto simp: allocate_def split: option.splits)
  let ?c0 = "c\<lparr>m_defaultSegmentSize := d\<rparr>"
  obtain al h1 ms where f: "findAllocation can_map tmo (num_chunks ?c0 sz) env ?c0 = Some (Inr (al, h1, ms))"
    using r d by (auto simp: allocate_def Let_def split: option.splits sum.splits)
  have ag1: "agree h1 (serve can_open ms s)"
    using findAllocation_agree [OF _ _ f env op] wf ag by simp
  have wf1: "heap_wf h1" using findAllocation_spec [OF _ f] wf by (simp add: kept_def)
  then have new: "map_of (m_cache h1) (m_nextUid h1) = None"
    by (auto simp: heap_wf_def map_of_eq_None_iff)
  show ?thesis
  proof (cases "isValidAllocation h1 al")
    case False
    then show ?thesis using r d f ag1 by (auto simp: allocate_def Let_def)
  next
    case True
    then have "i = m_nextUid h1" "msgs = ms @ [AllocMsg i (fst al)]"
      "c' = setChunkState (fst al) Allocated (h1\<lparr>m_nextUid := (i + 1) mod 2 ^ 32,
        m_cache := AList.update i (fst al) (m_cache h1), m_allocations := omap_insert (fst al) (snd al) (m_allocations h1),
        m_sizeAllocated := m_sizeAllocated h1 + num_chunks ?c0 sz * m_chunkSize h1\<rparr>)"
      using r d f by (auto simp: allocate_def Let_def)
    then show ?thesis using agree_record [OF ag1 new] by (simp add: serve_append)
  qed
qed

lemma deallocate_agree:
  assumes wf: "heap_wf c" and ag: "agree c s" and i: "map_of (m_cache s) i \<noteq> None"
    and s': "s' = serve can_open (deallocate i) (s\<lparr>m_meta := m_meta c\<rparr>)"
  shows "agree (c\<lparr>m_meta := m_meta s'\<rparr>) s'"
proof -
  obtain f where f: "map_of (m_cache s) i = Some f" using i by auto
  then have fc: "(i, f) \<in> set (m_cache c)" using ag map_of_cache [OF wf] by (auto simp: agree_def)
  have "a \<noteq> f" if "j \<noteq> i" "map_of (m_cache s) j = Some a" for j a
  proof -
    have "(j, a) \<in> set (m_cache c)" using that(2) ag map_of_cache [OF wf] by (auto simp: agree_def)
    then show ?thesis
      using fc that(1) wf by (metis distinct_map fst_conv heap_wf_def inj_onD snd_conv)
  qed
  then show ?thesis
    using ag f s'
    by (auto simp: agree_def serve_def deallocate_def server_deallocate_def Let_def setChunkState_def
        delete_conv' split: if_splits)
qed

lemma heap_wf_meta [simp]: "heap_wf (c\<lparr>m_meta := m\<rparr>) = heap_wf c"
  by (rule heap_wf_cong) simp_all

lemma heap_run_agree:
  assumes "heap_run can_map can_open chunkSize d c s" and "0 < chunkSize" and op: "\<forall>sz. can_map sz \<longrightarrow> can_open sz"
  shows "heap_wf c \<and> agree c s"
  using assms(1)
proof induction
  case (start ok c msgs)
  have wf0: "heap_wf (empty_heap chunkSize d)"
    using assms(2) by (simp add: heap_wf_def empty_heap_def getTotalHeapSize_def range_chunks_def)
  have "addNewHeapSegment can_map (empty_heap chunkSize d) = (ok, c, msgs)"
    using start by (simp add: heap_new_def empty_heap_def)
  moreover have "agree (empty_heap chunkSize d) (empty_heap chunkSize d)"
    by (simp add: agree_def empty_heap_def)
  ultimately show ?case
    using addNewHeapSegment_wf [OF wf0] agree_addNewHeapSegment op by blast
next
  case (alloc c s env timeoutS sz i c' msgs)
  then show ?case using allocate_cases [of c] allocate_agree [OF _ _ _ _ op] by blast
next
  case (dealloc c s i s')
  then show ?case using deallocate_agree [of c s i s'] by simp
qed

section \<open>Properties\<close>

text \<open>C17. Client and server agree on every shared buffer: after any sequence of allocations and
  releases whose messages the server has executed, each allocation the server still holds resolves on both sides to
  the same segment and the same byte offset in it.\<close>

theorem shared_buffers_agree:
  assumes "heap_run can_map can_open chunkSize d c s" and "0 < chunkSize"
    and "\<forall>sz. can_map sz \<longrightarrow> can_open sz" and "map_of (m_cache s) i = Some a"
  shows "\<exists>seg off. getBuf s i = Some (seg, off) \<and> getBuf c i = Some (seg, off) \<and> seg < length (m_segments s)"
proof -
  have wf: "heap_wf c" and ag: "agree c s" using heap_run_agree [OF assms(1-3)] by simp_all
  have a: "map_of (m_cache c) i = Some a" using ag assms(4) by (simp add: agree_def)
  then have "a \<in> snd ` set (m_cache c)" by (force dest: map_of_SomeD)
  then obtain b where "(a, b) \<in> set (m_allocations c)" using wf by (auto simp: heap_wf_def)
  then have "a < m_nChunks c" using wf by (fastforce simp: heap_wf_def isValidAllocation_def)
  then show ?thesis
    using heap_wf_seg(1) [OF wf] ag a assms(4)
    by (simp add: getBuf_def agree_def chunkIdToSegId_def Let_def)
qed

definition demo_client :: heap where
  "demo_client = (empty_heap 16 256)\<lparr>m_nChunks := 16, m_segments := [new_segment 256 16 0]\<rparr>"

lemma demo_client_new: "heap_new (\<lambda>_. True) 16 256 = (True, demo_client, [AddSeg 256])"
proof -
  have "min (kMax32BitHeapSize - word_of_nat 0) 256 AND NOT (word_of_nat 16 - 1) = (256::u32)"
    by (simp add: kMax32BitHeapSize_def min_def)
  then show ?thesis
    by (simp add: heap_new_def addNewHeapSegment_def Let_def getTotalHeapSize_def try_segment.simps
        demo_client_def empty_heap_def new_segment_def)
qed

theorem shared_buffers_agree_witness:
  "\<exists>c s. heap_run (\<lambda>_. True) (\<lambda>_. True) 16 256 c s \<and> map_of (m_cache s) 0 = Some 0
     \<and> (\<exists>seg off. getBuf s 0 = Some (seg, off) \<and> getBuf c 0 = Some (seg, off) \<and> seg < length (m_segments s))"
proof -
  let ?m = "\<lambda>_::nat. True"
  let ?s = "serve ?m [AddSeg 256] (empty_heap 16 256)"
  have 1: "heap_run ?m ?m 16 256 demo_client ?s" by (rule start [OF demo_client_new])
  have "\<exists>c'. allocate ?m 10 40 [] demo_client = Some (Inr (0, c', [AllocMsg 0 0]))"
    by (simp add: allocate_def findAllocation_def createAllocation_def demo_client_def empty_heap_def num_chunks_def
        isValidAllocation_def allocationCrossesHeapSegBound_def chunkIdToSegId_def new_segment_def)
  then obtain c' where "allocate ?m 10 40 [] demo_client = Some (Inr (0, c', [AllocMsg 0 0]))" by blast
  then have 2: "heap_run ?m ?m 16 256 c' (serve ?m [AllocMsg 0 0] ?s)"
    by (intro alloc [OF 1, of "[]" 10 40 0]) (simp_all add: demo_client_def empty_heap_def)
  have 3: "map_of (m_cache (serve ?m [AllocMsg 0 0] ?s)) 0 = Some 0"
    by (simp add: serve_def server_allocate_def update_conv')
  have "\<exists>seg off. getBuf (serve ?m [AllocMsg 0 0] ?s) 0 = Some (seg, off) \<and> getBuf c' 0 = Some (seg, off)
      \<and> seg < length (m_segments (serve ?m [AllocMsg 0 0] ?s))"
    by (rule shared_buffers_agree [OF 2 _ _ 3]) simp_all
  with 2 3 show ?thesis by blast
qed

end
