(* ===== verification/State_Batch.thy ===== *)
theory State_Batch
  imports Bridge_Prelude
begin

text \<open>
  State batching.  The client packs its hot state setters into records in \<open>m_batchBuf\<close>
  (\<open>batchCmd\<close>, \<open>batchConst\<close>, \<open>flushStateBatch\<close> of \<open>d3d9_device.h\<close>); the server's handler of
  \<open>IDirect3DDevice9Ex_StateBatch\<close> in \<open>main.cpp\<close> replays them on the real device.  The theory shows that
  the server's calls are the client's setters, in order, however the batches were cut.
\<close>

section \<open>Commands that are batched\<close>

text \<open>Their values in \<open>enum D3D9Command\<close> of \<open>util_commands.h\<close>.\<close>

definition IDirect3DDevice9Ex_SetRenderState :: u16 where "IDirect3DDevice9Ex_SetRenderState = 105"
definition IDirect3DDevice9Ex_SetTexture :: u16 where "IDirect3DDevice9Ex_SetTexture = 113"
definition IDirect3DDevice9Ex_SetTextureStageState :: u16 where "IDirect3DDevice9Ex_SetTextureStageState = 115"
definition IDirect3DDevice9Ex_SetSamplerState :: u16 where "IDirect3DDevice9Ex_SetSamplerState = 117"
definition IDirect3DDevice9Ex_SetVertexDeclaration :: u16 where "IDirect3DDevice9Ex_SetVertexDeclaration = 135"
definition IDirect3DDevice9Ex_SetVertexShader :: u16 where "IDirect3DDevice9Ex_SetVertexShader = 140"
definition IDirect3DDevice9Ex_SetVertexShaderConstantF :: u16 where "IDirect3DDevice9Ex_SetVertexShaderConstantF = 142"
definition IDirect3DDevice9Ex_SetStreamSource :: u16 where "IDirect3DDevice9Ex_SetStreamSource = 148"
definition IDirect3DDevice9Ex_SetStreamSourceFreq :: u16 where "IDirect3DDevice9Ex_SetStreamSourceFreq = 150"
definition IDirect3DDevice9Ex_SetIndices :: u16 where "IDirect3DDevice9Ex_SetIndices = 152"
definition IDirect3DDevice9Ex_SetPixelShader :: u16 where "IDirect3DDevice9Ex_SetPixelShader = 155"
definition IDirect3DDevice9Ex_SetPixelShaderConstantF :: u16 where "IDirect3DDevice9Ex_SetPixelShaderConstantF = 157"

lemmas batch_cmd_defs = IDirect3DDevice9Ex_SetRenderState_def IDirect3DDevice9Ex_SetTexture_def
  IDirect3DDevice9Ex_SetTextureStageState_def IDirect3DDevice9Ex_SetSamplerState_def
  IDirect3DDevice9Ex_SetVertexDeclaration_def IDirect3DDevice9Ex_SetVertexShader_def
  IDirect3DDevice9Ex_SetVertexShaderConstantF_def IDirect3DDevice9Ex_SetStreamSource_def
  IDirect3DDevice9Ex_SetStreamSourceFreq_def IDirect3DDevice9Ex_SetIndices_def
  IDirect3DDevice9Ex_SetPixelShader_def IDirect3DDevice9Ex_SetPixelShaderConstantF_def

section \<open>Client\<close>

definition kBatchWords :: u32 where "kBatchWords = 16384"

text \<open>The array \<open>m_batchBuf\<close> as a function on its indices, its length and the global pending flag.\<close>

record batch =
  m_batchBuf :: "nat \<Rightarrow> u32"
  m_batchLen :: u32
  g_stateBatchPending :: bool

definition batch_new :: batch where
  "batch_new = \<lparr>m_batchBuf = (\<lambda>_. 0), m_batchLen = 0, g_stateBatchPending = False\<rparr>"

text \<open>\<open>flushStateBatch\<close>; the payload of the \<open>StateBatch\<close> message, if one is sent.\<close>

definition flushStateBatch :: "batch \<Rightarrow> batch \<times> u32 list list" where
  "flushStateBatch b =
     (if m_batchLen b = 0 then (b\<lparr>g_stateBatchPending := False\<rparr>, [])
      else (b\<lparr>m_batchLen := 0, g_stateBatchPending := False\<rparr>,
            [map (m_batchBuf b) [0..<unat (m_batchLen b)]]))"

definition put_word :: "u32 \<Rightarrow> batch \<Rightarrow> batch or_error" where
  "put_word w b = (if m_batchLen b < kBatchWords
     then Inr (b\<lparr>m_batchBuf := (m_batchBuf b)(unat (m_batchLen b) := w), m_batchLen := m_batchLen b + 1\<rparr>)
     else Inl OutOfBounds)"

fun put_words :: "u32 list \<Rightarrow> batch \<Rightarrow> batch or_error" where
  "put_words [] b = Inr b"
| "put_words (w # ws) b = bindE (put_word w b) (put_words ws)"

definition make_room :: "u32 \<Rightarrow> batch \<Rightarrow> batch \<times> u32 list list" where
  "make_room n b = (if m_batchLen b + 1 + n > kBatchWords then flushStateBatch b else (b, []))"

definition batchCmd :: "u16 \<Rightarrow> u32 list \<Rightarrow> batch \<Rightarrow> (batch \<times> u32 list list) or_error" where
  "batchCmd cmd args b = (let n = word_of_nat (length args); (b1, msgs) = make_room n b in
     bindE (put_word (ucast cmd OR push_bit 16 n) b1) (\<lambda>b2.
     bindE (put_words args b2) (\<lambda>b3. Inr (b3\<lparr>g_stateBatchPending := True\<rparr>, msgs))))"

text \<open>\<open>batchConst\<close>: \<open>data\<close> are the words the pointer gives access to.\<close>

definition batchConst :: "u16 \<Rightarrow> u32 \<Rightarrow> u32 \<Rightarrow> u32 list \<Rightarrow> batch \<Rightarrow> (batch \<times> u32 list list) or_error" where
  "batchConst cmd start count data b = (let n = 2 + count * 4 in
     if n + 1 > kBatchWords then Inr (b, [])
     else let (b1, msgs) = make_room n b in
     bindE (put_word (ucast cmd OR push_bit 16 n) b1) (\<lambda>b2.
     bindE (put_word start b2) (\<lambda>b3.
     bindE (put_word count b3) (\<lambda>b4.
     bindE (if unat (count * 4) \<le> length data then put_words (take (unat (count * 4)) data) b4 else Inl OutOfBounds)
       (\<lambda>b5. Inr (b5\<lparr>g_stateBatchPending := True\<rparr>, msgs))))))"

section \<open>Server\<close>

text \<open>The calls the replay makes on \<open>pD3DDevice\<close>; a handle 0 is \<open>nullptr\<close>, another is looked up in the
  server's table of its kind.\<close>

datatype d3d_call =
    SetRenderState u32 u32
  | SetSamplerState u32 u32 u32
  | SetTextureStageState u32 u32 u32
  | SetTexture u32 "u32 option"
  | SetVertexDeclaration "u32 option"
  | SetVertexShader "u32 option"
  | SetPixelShader "u32 option"
  | SetIndices "u32 option"
  | SetStreamSource u32 "u32 option" u32 u32
  | SetStreamSourceFreq u32 u32
  | SetVertexShaderConstantF u32 "u32 list" u32
  | SetPixelShaderConstantF u32 "u32 list" u32

definition handle :: "u32 \<Rightarrow> u32 option" where
  "handle h = (if h \<noteq> 0 then Some h else None)"

text \<open>Reading \<open>p[i]\<close> and \<open>count * 4\<close> floats from \<open>p + 2\<close>.\<close>

definition arg :: "u32 list \<Rightarrow> nat \<Rightarrow> u32 or_error" where
  "arg p i = (if i < length p then Inr (p ! i) else Inl OutOfBounds)"

definition floats :: "u32 list \<Rightarrow> u32 \<Rightarrow> (u32 list) or_error" where
  "floats p count = (if 2 + 4 * unat count \<le> length p then Inr (take (4 * unat count) (drop 2 p)) else Inl OutOfBounds)"

definition replay_record :: "u16 \<Rightarrow> u32 list \<Rightarrow> (d3d_call option) or_error" where
  "replay_record cmd p =
    (if cmd = IDirect3DDevice9Ex_SetRenderState
       then bindE (arg p 0) (\<lambda>a. bindE (arg p 1) (\<lambda>b. Inr (Some (SetRenderState a b))))
     else if cmd = IDirect3DDevice9Ex_SetSamplerState
       then bindE (arg p 0) (\<lambda>a. bindE (arg p 1) (\<lambda>b. bindE (arg p 2) (\<lambda>c. Inr (Some (SetSamplerState a b c)))))
     else if cmd = IDirect3DDevice9Ex_SetTextureStageState
       then bindE (arg p 0) (\<lambda>a. bindE (arg p 1) (\<lambda>b. bindE (arg p 2) (\<lambda>c. Inr (Some (SetTextureStageState a b c)))))
     else if cmd = IDirect3DDevice9Ex_SetTexture
       then bindE (arg p 1) (\<lambda>b. bindE (arg p 0) (\<lambda>a. Inr (Some (SetTexture a (handle b)))))
     else if cmd = IDirect3DDevice9Ex_SetVertexDeclaration
       then bindE (arg p 0) (\<lambda>a. Inr (Some (SetVertexDeclaration (handle a))))
     else if cmd = IDirect3DDevice9Ex_SetVertexShader
       then bindE (arg p 0) (\<lambda>a. Inr (Some (SetVertexShader (handle a))))
     else if cmd = IDirect3DDevice9Ex_SetPixelShader
       then bindE (arg p 0) (\<lambda>a. Inr (Some (SetPixelShader (handle a))))
     else if cmd = IDirect3DDevice9Ex_SetIndices
       then bindE (arg p 0) (\<lambda>a. Inr (Some (SetIndices (handle a))))
     else if cmd = IDirect3DDevice9Ex_SetStreamSource
       then bindE (arg p 0) (\<lambda>a. bindE (arg p 1) (\<lambda>b. bindE (arg p 2) (\<lambda>c. bindE (arg p 3) (\<lambda>d.
              Inr (Some (SetStreamSource a (handle b) c d))))))
     else if cmd = IDirect3DDevice9Ex_SetStreamSourceFreq
       then bindE (arg p 0) (\<lambda>a. bindE (arg p 1) (\<lambda>b. Inr (Some (SetStreamSourceFreq a b))))
     else if cmd = IDirect3DDevice9Ex_SetVertexShaderConstantF
       then bindE (arg p 0) (\<lambda>a. bindE (arg p 1) (\<lambda>b. bindE (floats p b) (\<lambda>f. Inr (Some (SetVertexShaderConstantF a f b)))))
     else if cmd = IDirect3DDevice9Ex_SetPixelShaderConstantF
       then bindE (arg p 0) (\<lambda>a. bindE (arg p 1) (\<lambda>b. bindE (floats p b) (\<lambda>f. Inr (Some (SetPixelShaderConstantF a f b)))))
     else Inr None)"

text \<open>The loop over one payload: it stops at a truncated record and at an unknown one.\<close>

function replay :: "u32 list \<Rightarrow> (d3d_call list) or_error" where
  "replay [] = Inr []"
| "replay (w # p) = (let cmd = ucast (w AND 0xFFFF); n = unat (drop_bit 16 w) in
     if n > length p then Inr []
     else bindE (replay_record cmd p) (\<lambda>r. case r of None \<Rightarrow> Inr []
       | Some c \<Rightarrow> bindE (replay (drop n p)) (\<lambda>cs. Inr (c # cs))))"
  by pat_completeness auto
termination by (relation "measure length") auto

fun replay_all :: "u32 list list \<Rightarrow> (d3d_call list) or_error" where
  "replay_all [] = Inr []"
| "replay_all (m # ms) = bindE (replay m) (\<lambda>cs. bindE (replay_all ms) (\<lambda>ds. Inr (cs @ ds)))"

section \<open>The setters and their records\<close>

definition handle_word :: "u32 option \<Rightarrow> u32" where
  "handle_word h = (case h of None \<Rightarrow> 0 | Some x \<Rightarrow> x)"

text \<open>How the setters of \<open>d3d9_device.cpp\<close> call the batch.\<close>

primrec batch_call :: "d3d_call \<Rightarrow> batch \<Rightarrow> (batch \<times> u32 list list) or_error" where
  "batch_call (SetRenderState State Value) = batchCmd IDirect3DDevice9Ex_SetRenderState [State, Value]"
| "batch_call (SetSamplerState Sampler Type Value) = batchCmd IDirect3DDevice9Ex_SetSamplerState [Sampler, Type, Value]"
| "batch_call (SetTextureStageState Stage Type Value) = batchCmd IDirect3DDevice9Ex_SetTextureStageState [Stage, Type, Value]"
| "batch_call (SetTexture Stage tex) = batchCmd IDirect3DDevice9Ex_SetTexture [Stage, handle_word tex]"
| "batch_call (SetVertexDeclaration d) = batchCmd IDirect3DDevice9Ex_SetVertexDeclaration [handle_word d]"
| "batch_call (SetVertexShader h) = batchCmd IDirect3DDevice9Ex_SetVertexShader [handle_word h]"
| "batch_call (SetPixelShader h) = batchCmd IDirect3DDevice9Ex_SetPixelShader [handle_word h]"
| "batch_call (SetIndices h) = batchCmd IDirect3DDevice9Ex_SetIndices [handle_word h]"
| "batch_call (SetStreamSource n h off stride) = batchCmd IDirect3DDevice9Ex_SetStreamSource [n, handle_word h, off, stride]"
| "batch_call (SetStreamSourceFreq n d) = batchCmd IDirect3DDevice9Ex_SetStreamSourceFreq [n, d]"
| "batch_call (SetVertexShaderConstantF start data count) = batchConst IDirect3DDevice9Ex_SetVertexShaderConstantF start count data"
| "batch_call (SetPixelShaderConstantF start data count) = batchConst IDirect3DDevice9Ex_SetPixelShaderConstantF start count data"

text \<open>Handles are not zero, constant data has four words per register, and the record fits the batch buffer.\<close>

primrec call_ok :: "d3d_call \<Rightarrow> bool" where
  "call_ok (SetRenderState a b) \<longleftrightarrow> True"
| "call_ok (SetSamplerState a b c) \<longleftrightarrow> True"
| "call_ok (SetTextureStageState a b c) \<longleftrightarrow> True"
| "call_ok (SetTexture a h) \<longleftrightarrow> h \<noteq> Some 0"
| "call_ok (SetVertexDeclaration h) \<longleftrightarrow> h \<noteq> Some 0"
| "call_ok (SetVertexShader h) \<longleftrightarrow> h \<noteq> Some 0"
| "call_ok (SetPixelShader h) \<longleftrightarrow> h \<noteq> Some 0"
| "call_ok (SetIndices h) \<longleftrightarrow> h \<noteq> Some 0"
| "call_ok (SetStreamSource a h c d) \<longleftrightarrow> h \<noteq> Some 0"
| "call_ok (SetStreamSourceFreq a b) \<longleftrightarrow> True"
| "call_ok (SetVertexShaderConstantF a fs n) \<longleftrightarrow> length fs = 4 * unat n \<and> unat n \<le> 4095"
| "call_ok (SetPixelShaderConstantF a fs n) \<longleftrightarrow> length fs = 4 * unat n \<and> unat n \<le> 4095"

primrec call_code :: "d3d_call \<Rightarrow> u16" where
  "call_code (SetRenderState a b) = IDirect3DDevice9Ex_SetRenderState"
| "call_code (SetSamplerState a b c) = IDirect3DDevice9Ex_SetSamplerState"
| "call_code (SetTextureStageState a b c) = IDirect3DDevice9Ex_SetTextureStageState"
| "call_code (SetTexture a h) = IDirect3DDevice9Ex_SetTexture"
| "call_code (SetVertexDeclaration h) = IDirect3DDevice9Ex_SetVertexDeclaration"
| "call_code (SetVertexShader h) = IDirect3DDevice9Ex_SetVertexShader"
| "call_code (SetPixelShader h) = IDirect3DDevice9Ex_SetPixelShader"
| "call_code (SetIndices h) = IDirect3DDevice9Ex_SetIndices"
| "call_code (SetStreamSource a h c d) = IDirect3DDevice9Ex_SetStreamSource"
| "call_code (SetStreamSourceFreq a b) = IDirect3DDevice9Ex_SetStreamSourceFreq"
| "call_code (SetVertexShaderConstantF a fs n) = IDirect3DDevice9Ex_SetVertexShaderConstantF"
| "call_code (SetPixelShaderConstantF a fs n) = IDirect3DDevice9Ex_SetPixelShaderConstantF"

primrec call_args :: "d3d_call \<Rightarrow> u32 list" where
  "call_args (SetRenderState a b) = [a, b]"
| "call_args (SetSamplerState a b c) = [a, b, c]"
| "call_args (SetTextureStageState a b c) = [a, b, c]"
| "call_args (SetTexture a h) = [a, handle_word h]"
| "call_args (SetVertexDeclaration h) = [handle_word h]"
| "call_args (SetVertexShader h) = [handle_word h]"
| "call_args (SetPixelShader h) = [handle_word h]"
| "call_args (SetIndices h) = [handle_word h]"
| "call_args (SetStreamSource a h c d) = [a, handle_word h, c, d]"
| "call_args (SetStreamSourceFreq a b) = [a, b]"
| "call_args (SetVertexShaderConstantF a fs n) = a # n # fs"
| "call_args (SetPixelShaderConstantF a fs n) = a # n # fs"

definition call_record :: "d3d_call \<Rightarrow> u32 list" where
  "call_record c = (ucast (call_code c) OR push_bit 16 (word_of_nat (length (call_args c)))) # call_args c"

subsection \<open>Decoding one record\<close>

lemma header_cmd: "ucast ((ucast (cmd::u16) OR push_bit 16 (n::u32)) AND 0xFFFF) = cmd"
proof -
  have m: "(0xFFFF :: u32) = mask 16" by (simp add: mask_eq_exp_minus_1)
  show ?thesis unfolding m by (auto intro!: bit_word_eqI simp: bit_simps)
qed

lemma header_count: "unat n < 2 ^ 16 \<Longrightarrow> drop_bit 16 (ucast (cmd::u16) OR push_bit 16 (n::u32)) = n"
proof -
  assume "unat n < 2 ^ 16"
  then have n: "take_bit 16 n = n"
    by (simp add: take_bit_eq_mod word_unat_eq_iff unat_mod)
  have "bit n i \<Longrightarrow> i < 16" for i
    using arg_cong [OF n, of "\<lambda>w. bit w i"] by (simp add: bit_simps)
  moreover have "\<not> bit cmd (16 + k)" for k
    using bit_imp_le_length [of cmd "16 + k"] by auto
  ultimately show ?thesis by (auto intro!: bit_word_eqI simp: bit_simps)
qed

lemma handle_handle_word: "h \<noteq> Some 0 \<Longrightarrow> handle (handle_word h) = h"
  by (cases h) (auto simp: handle_def handle_word_def)

lemma call_args_length: "call_ok c \<Longrightarrow> length (call_args c) \<le> 16382"
  by (cases c) auto

lemma replay_record_call: "call_ok c \<Longrightarrow> replay_record (call_code c) (call_args c @ rest) = Inr (Some c)"
  by (cases c) (simp_all add: replay_record_def batch_cmd_defs arg_def floats_def handle_handle_word)

lemma replay_call:
  assumes "call_ok c"
  shows "replay (call_record c @ rest) = bindE (replay rest) (\<lambda>cs. Inr (c # cs))"
proof -
  have l: "length (call_args c) < 2 ^ 16" using call_args_length [OF assms] by simp
  then have u: "unat (word_of_nat (length (call_args c)) :: u32) = length (call_args c)"
    by (simp add: unat_of_nat)
  define w :: u32 where "w = ucast (call_code c) OR push_bit 16 (word_of_nat (length (call_args c)))"
  have "ucast (w AND 0xFFFF) = call_code c" unfolding w_def by (rule header_cmd)
  moreover have "unat (drop_bit 16 w) = length (call_args c)"
    unfolding w_def using u l by (subst header_count) simp_all
  ultimately show ?thesis
    using assms by (simp add: call_record_def w_def [symmetric] replay_record_call)
qed

lemma replay_records:
  assumes "\<forall>c \<in> set cs. call_ok c"
  shows "replay (concat (map call_record cs)) = Inr cs"
  using assms by (induction cs) (simp_all add: replay_call)

subsection \<open>What the client puts in the buffer\<close>

definition buffered :: "batch \<Rightarrow> u32 list" where
  "buffered b = map (m_batchBuf b) [0..<unat (m_batchLen b)]"

lemma kBatchWords_nat: "unat kBatchWords = 16384"
  by (simp add: kBatchWords_def)

lemma put_word_ok:
  assumes "unat (m_batchLen b) < 16384"
  shows "\<exists>b'. put_word w b = Inr b' \<and> buffered b' = buffered b @ [w] \<and> unat (m_batchLen b') = unat (m_batchLen b) + 1"
proof -
  have "m_batchLen b < kBatchWords" using assms by (simp add: word_less_nat_alt kBatchWords_nat)
  moreover have u: "unat (m_batchLen b + 1) = unat (m_batchLen b) + 1"
    using assms by (simp add: unat_word_ariths)
  moreover have "map ((m_batchBuf b)(unat (m_batchLen b) := w)) [0..<unat (m_batchLen b)] = buffered b"
    by (simp add: buffered_def)
  ultimately show ?thesis by (simp add: put_word_def buffered_def)
qed

lemma put_words_ok:
  assumes "unat (m_batchLen b) + length ws \<le> 16384"
  shows "\<exists>b'. put_words ws b = Inr b' \<and> buffered b' = buffered b @ ws
    \<and> unat (m_batchLen b') = unat (m_batchLen b) + length ws"
  using assms
proof (induction ws arbitrary: b)
  case (Cons w ws)
  then obtain b1 where "put_word w b = Inr b1" "buffered b1 = buffered b @ [w]" "unat (m_batchLen b1) = unat (m_batchLen b) + 1"
    using put_word_ok [of b w] by auto
  then show ?case using Cons.IH [of b1] Cons.prems by auto
qed simp

lemma make_room_ok:
  assumes "make_room n b = (b1, msgs)" and "unat n + 1 \<le> 16384" and "unat (m_batchLen b) \<le> 16384"
  shows "(msgs = [] \<and> buffered b1 = buffered b \<or> msgs = [buffered b] \<and> buffered b1 = [])
    \<and> unat (m_batchLen b1) + 1 + unat n \<le> 16384"
proof -
  have "unat (m_batchLen b + 1 + n) = unat (m_batchLen b) + 1 + unat n"
    using assms(2,3) by (simp add: unat_word_ariths)
  then have gt: "m_batchLen b + 1 + n > kBatchWords \<longleftrightarrow> unat (m_batchLen b) + 1 + unat n > 16384"
    by (simp add: word_less_nat_alt kBatchWords_nat)
  show ?thesis
    using assms gt unfolding make_room_def flushStateBatch_def buffered_def
    by (auto split: if_splits)
qed

definition puts :: "d3d_call \<Rightarrow> batch \<Rightarrow> batch \<Rightarrow> u32 list list \<Rightarrow> bool" where
  "puts c b b' msgs \<longleftrightarrow> unat (m_batchLen b') \<le> 16384
     \<and> (msgs = [] \<and> buffered b' = buffered b @ call_record c \<or> msgs = [buffered b] \<and> buffered b' = call_record c)"

lemma puts_record:
  assumes "unat (m_batchLen b) \<le> 16384" and "call_ok c"
  defines "n \<equiv> word_of_nat (length (call_args c)) :: u32"
  shows "\<exists>b1 b2 b3 msgs. make_room n b = (b1, msgs) \<and> put_word (ucast (call_code c) OR push_bit 16 n) b1 = Inr b2
    \<and> put_words (call_args c) b2 = Inr b3 \<and> puts c b (b3\<lparr>g_stateBatchPending := True\<rparr>) msgs"
proof -
  have l: "length (call_args c) \<le> 16382" by (rule call_args_length [OF assms(2)])
  then have n: "unat n = length (call_args c)" by (simp add: n_def unat_of_nat)
  obtain b1 msgs where r: "make_room n b = (b1, msgs)" by (cases "make_room n b")
  have room: "msgs = [] \<and> buffered b1 = buffered b \<or> msgs = [buffered b] \<and> buffered b1 = []"
    "unat (m_batchLen b1) + 1 + unat n \<le> 16384"
    using make_room_ok [OF r] n l assms(1) by simp_all
  let ?w = "ucast (call_code c) OR push_bit 16 n"
  obtain b2 where b2: "put_word ?w b1 = Inr b2" "buffered b2 = buffered b1 @ [?w]"
    "unat (m_batchLen b2) = unat (m_batchLen b1) + 1"
    using put_word_ok [of b1 ?w] room(2) by auto
  obtain b3 where b3: "put_words (call_args c) b2 = Inr b3" "buffered b3 = buffered b2 @ call_args c"
    "unat (m_batchLen b3) = unat (m_batchLen b2) + length (call_args c)"
    using put_words_ok [of b2 "call_args c"] b2 room(2) n by auto
  have "buffered (b3\<lparr>g_stateBatchPending := True\<rparr>) = buffered b3" by (simp add: buffered_def)
  then have "puts c b (b3\<lparr>g_stateBatchPending := True\<rparr>) msgs"
    using room b2 b3 n by (auto simp: puts_def call_record_def n_def)
  then show ?thesis using r b2(1) b3(1) by blast
qed

lemma batchCmd_puts:
  assumes "unat (m_batchLen b) \<le> 16384" and "call_ok c"
  shows "\<exists>b' msgs. batchCmd (call_code c) (call_args c) b = Inr (b', msgs) \<and> puts c b b' msgs"
  using puts_record [OF assms] by (auto simp: batchCmd_def Let_def)

lemma batchConst_puts:
  assumes b: "unat (m_batchLen b) \<le> 16384" and c: "call_ok c" and args: "call_args c = start # count # data"
    and len: "length data = 4 * unat count" "unat count \<le> 4095"
  shows "\<exists>b' msgs. batchConst (call_code c) start count data b = Inr (b', msgs) \<and> puts c b b' msgs"
proof -
  let ?n = "word_of_nat (length (call_args c)) :: u32"
  have cnt: "unat (count * 4) = 4 * unat count" using len(2) by (simp add: unat_word_ariths)
  have "word_of_nat (unat count) = count" by simp
  then have n: "?n = 2 + count * 4" using len args by (simp add: algebra_simps)
  have "unat (2 + count * 4) = 2 + 4 * unat count" using cnt len(2) by (simp add: unat_word_ariths)
  then have "unat (2 + count * 4 + 1) = 3 + 4 * unat count" using len(2) by (simp add: unat_word_ariths)
  then have small: "\<not> 2 + count * 4 + 1 > kBatchWords"
    using len(2) by (simp add: word_less_nat_alt kBatchWords_nat)
  obtain b1 b2 b3 msgs where r: "make_room ?n b = (b1, msgs)" "put_word (ucast (call_code c) OR push_bit 16 ?n) b1 = Inr b2"
    "put_words (call_args c) b2 = Inr b3" "puts c b (b3\<lparr>g_stateBatchPending := True\<rparr>) msgs"
    using puts_record [OF b c] by blast
  then obtain x y where "put_word start b2 = Inr x" "put_word count x = Inr y" "put_words data y = Inr b3"
    using args by (auto simp: bind_simps)
  then have "batchConst (call_code c) start count data b = Inr (b3\<lparr>g_stateBatchPending := True\<rparr>, msgs)"
    using r(1,2) small cnt len unfolding batchConst_def n by simp
  then show ?thesis using r(4) by blast
qed

lemma batch_call_puts:
  assumes "unat (m_batchLen b) \<le> 16384" and "call_ok c"
  shows "\<exists>b' msgs. batch_call c b = Inr (b', msgs) \<and> puts c b b' msgs"
  using batchCmd_puts [OF assms] batchConst_puts [OF assms] assms(2)
  by (cases c) simp_all

fun batch_calls :: "d3d_call list \<Rightarrow> batch \<Rightarrow> (batch \<times> u32 list list) or_error" where
  "batch_calls [] b = Inr (b, [])"
| "batch_calls (c # cs) b = bindE (batch_call c b) (\<lambda>(b1, ms). bindE (batch_calls cs b1) (\<lambda>(b2, ns). Inr (b2, ms @ ns)))"

lemma replay_all_append:
  "replay_all (ms @ ns) = bindE (replay_all ms) (\<lambda>cs. bindE (replay_all ns) (\<lambda>ds. Inr (cs @ ds)))"
  by (induction ms) (auto simp: bindE_def split: sum.splits)

text \<open>The buffer holds the records of the calls \<open>ds\<close>, and a buffer that is not empty is marked pending.\<close>

definition holds_calls :: "batch \<Rightarrow> d3d_call list \<Rightarrow> bool" where
  "holds_calls b ds \<longleftrightarrow> unat (m_batchLen b) \<le> 16384 \<and> buffered b = concat (map call_record ds)
     \<and> (\<forall>c \<in> set ds. call_ok c) \<and> (m_batchLen b \<noteq> 0 \<longrightarrow> g_stateBatchPending b)"

lemma holds_calls_new: "holds_calls batch_new []"
  by (simp add: holds_calls_def batch_new_def buffered_def)

lemma holds_calls_empty: "holds_calls b ds \<Longrightarrow> m_batchLen b = 0 \<Longrightarrow> ds = []"
  by (cases ds) (auto simp: holds_calls_def buffered_def call_record_def)

lemma batch_call_pending: "batch_call c b = Inr (b', ms) \<Longrightarrow> call_ok c \<Longrightarrow> g_stateBatchPending b'"
proof (cases c)
  case (SetVertexShaderConstantF a fs n)
  assume "batch_call c b = Inr (b', ms)" "call_ok c"
  then have "unat (2 + n * 4 + 1) = 3 + 4 * unat n" using SetVertexShaderConstantF by (simp add: unat_word_ariths)
  then show ?thesis
    using \<open>batch_call c b = Inr (b', ms)\<close> \<open>call_ok c\<close> SetVertexShaderConstantF
    by (auto simp: batchConst_def Let_def bind_simps word_less_nat_alt kBatchWords_nat split: prod.splits if_splits)
next
  case (SetPixelShaderConstantF a fs n)
  assume "batch_call c b = Inr (b', ms)" "call_ok c"
  then have "unat (2 + n * 4 + 1) = 3 + 4 * unat n" using SetPixelShaderConstantF by (simp add: unat_word_ariths)
  then show ?thesis
    using \<open>batch_call c b = Inr (b', ms)\<close> \<open>call_ok c\<close> SetPixelShaderConstantF
    by (auto simp: batchConst_def Let_def bind_simps word_less_nat_alt kBatchWords_nat split: prod.splits if_splits)
qed (auto simp: batchCmd_def Let_def bind_simps split: prod.splits)

lemma batch_call_step:
  assumes b: "holds_calls b ds" and c: "call_ok c"
  shows "\<exists>b1 ms ds1 es. batch_call c b = Inr (b1, ms) \<and> holds_calls b1 ds1
    \<and> (ms = [] \<and> es = [] \<or> ms = [concat (map call_record es)] \<and> es = ds) \<and> es @ ds1 = ds @ [c]"
proof -
  obtain b1 ms where p: "batch_call c b = Inr (b1, ms)" "puts c b b1 ms"
    using batch_call_puts [OF _ c, of b] b by (auto simp: holds_calls_def)
  have h: "unat (m_batchLen b1) \<le> 16384" "g_stateBatchPending b1"
    using p(2) batch_call_pending [OF p(1) c] by (auto simp: puts_def)
  show ?thesis
  proof (cases "ms = []")
    case True
    then have "holds_calls b1 (ds @ [c])" using p(2) b c h by (auto simp: puts_def holds_calls_def)
    then show ?thesis using p(1) True by blast
  next
    case False
    then have "holds_calls b1 [c]" "ms = [concat (map call_record ds)]"
      using p(2) b c h by (auto simp: puts_def holds_calls_def)
    then show ?thesis using p(1) by blast
  qed
qed

lemma holds_calls_replay: "holds_calls b ds \<Longrightarrow> replay (concat (map call_record ds)) = Inr ds"
  by (rule replay_records) (simp add: holds_calls_def)

lemma flush_step:
  assumes "holds_calls b ds" and "flushStateBatch b = (b1, ms)"
  shows "holds_calls b1 [] \<and> (ms = [] \<and> ds = [] \<or> ms = [concat (map call_record ds)])"
  using assms holds_calls_empty [OF assms(1)]
  by (auto simp: flushStateBatch_def holds_calls_def buffered_def split: if_splits)

lemma batch_calls_replay:
  assumes "holds_calls b ds" and "\<forall>c \<in> set cs. call_ok c"
  shows "\<exists>b' msgs es ds'. batch_calls cs b = Inr (b', msgs) \<and> replay_all msgs = Inr es \<and> holds_calls b' ds' \<and> es @ ds' = ds @ cs"
  using assms
proof (induction cs arbitrary: b ds)
  case (Cons c cs)
  obtain b1 ms ds1 es1 where 1: "batch_call c b = Inr (b1, ms)" "holds_calls b1 ds1" "es1 @ ds1 = ds @ [c]"
    "ms = [] \<and> es1 = [] \<or> ms = [concat (map call_record es1)] \<and> es1 = ds"
    using batch_call_step [OF Cons.prems(1), of c] Cons.prems(2) by auto
  have r: "replay_all ms = Inr es1" using 1(4) holds_calls_replay [OF Cons.prems(1)] by auto
  obtain b' ns es ds' where "batch_calls cs b1 = Inr (b', ns)" "replay_all ns = Inr es" "holds_calls b' ds'" "es @ ds' = ds1 @ cs"
    using Cons.IH [OF 1(2)] Cons.prems(2) by auto
  then show ?case
    using 1 r by (auto simp: replay_all_append intro!: exI [of _ "es1 @ es"] exI [of _ ds'])
qed auto

section \<open>Properties\<close>

text \<open>C20. Batched state setters reach the server's device unchanged and in order: whatever sequence of
  setters the client batches, and wherever the buffer overflows cut it into messages, replaying the
  messages sent, the final flush included, performs exactly those calls; no write leaves the buffer.\<close>

theorem batch_replay_roundtrip:
  assumes "\<forall>c \<in> set cs. call_ok c"
  shows "\<exists>b msgs. batch_calls cs batch_new = Inr (b, msgs) \<and> replay_all (msgs @ snd (flushStateBatch b)) = Inr cs"
proof -
  obtain b msgs es ds where r: "batch_calls cs batch_new = Inr (b, msgs)" "replay_all msgs = Inr es" "holds_calls b ds" "es @ ds = cs"
    using batch_calls_replay [OF holds_calls_new assms] by auto
  obtain b1 ms where f: "flushStateBatch b = (b1, ms)" by (cases "flushStateBatch b")
  have "replay_all ms = Inr ds" using flush_step [OF r(3) f] holds_calls_replay [OF r(3)] by auto
  then show ?thesis using r f by (auto simp: replay_all_append)
qed

theorem batch_replay_roundtrip_witness:
  "\<exists>b msgs. batch_calls [SetRenderState 7 1, SetTexture 0 (Some 42), SetVertexShaderConstantF 3 [1, 2, 3, 4] 1] batch_new = Inr (b, msgs)
     \<and> replay_all (msgs @ snd (flushStateBatch b))
       = Inr [SetRenderState 7 1, SetTexture 0 (Some 42), SetVertexShaderConstantF 3 [1, 2, 3, 4] 1]"
  by (rule batch_replay_roundtrip) simp

text \<open>\<open>batchConst\<close> drops an update of more than 4095 registers (up to the 8192 that software vertex
  processing has): nothing is stored and nothing is sent, and the caller is not told.\<close>

theorem large_constant_update_dropped:
  assumes "4095 < unat count" and "unat count \<le> 8192"
  shows "batchConst cmd start count data b = Inr (b, [])"
proof -
  have "unat (2 + count * 4 + 1) = 3 + 4 * unat count" using assms by (simp add: unat_word_ariths)
  then show ?thesis
    using assms by (simp add: batchConst_def Let_def word_less_nat_alt kBatchWords_nat)
qed

theorem large_constant_update_dropped_witness:
  "batchConst IDirect3DDevice9Ex_SetVertexShaderConstantF 0 4096 (replicate 16384 0) batch_new = Inr (batch_new, [])"
  by (rule large_constant_update_dropped) simp_all

end
