(* ===== verification/Device_State.thy ===== *)
theory Device_State
  imports Circular_Buffer State_Batch
begin

text \<open>
  The client's shadow of the Direct3D device (\<open>State\<close> and \<open>StateCaptureDirtyFlags\<close> of
  \<open>d3d9_device_base.h\<close>) and the state setters and getters of \<open>d3d9_device.cpp\<close>.  A setter
  writes the shadow state, or the state block that is being recorded, skips calls that change
  nothing, and sends the call to the server, batched or as a message of its own.  Structures passed by
  pointer are byte lists, or \<open>None\<close> for a null pointer; interface pointers are the wrappers' ids, 0 for
  null.  \<open>resp\<close> is the answer the server gives when answers are asked for.
\<close>

section \<open>State\<close>

datatype HRESULT = S_OK | S_FALSE | E_FAIL | D3DERR_INVALIDCALL | Answer u32

definition kNumRenderStates :: nat where "kNumRenderStates = 256"
definition kNumStageSamplers :: nat where "kNumStageSamplers = MaxTexturesPS + MaxTexturesVS + 1"
definition kMaxTexStageStateTypes :: nat where "kMaxTexStageStateTypes = 18"
definition kMaxStageSamplerStateTypes :: nat where "kMaxStageSamplerStateTypes = 13 + 1"

lemmas shape_defs = kNumRenderStates_def kNumStageSamplers_def kMaxTexStageStateTypes_def
  kMaxStageSamplerStateTypes_def caps_defs

text \<open>\<open>struct State\<close>.  The light maps are read with \<open>operator[]\<close> only, so they are total functions.\<close>

record dev_state =
  renderTargets :: "u32 list"
  depthStencil :: u32
  transforms :: "memory list"
  viewport :: memory
  material :: memory
  lights :: "u32 \<Rightarrow> memory"
  bLightEnables :: "u32 \<Rightarrow> bool"
  clipPlanes :: "memory list"
  renderStates :: "u32 list"
  textures :: "(u32 \<times> u32) list"
  textureStageStates :: "u32 list list"
  samplerStates :: "u32 list list"
  scissorRect :: memory
  vertexDecl :: u32
  vertexShader :: u32
  vs_fConsts :: "memory list"
  vs_iConsts :: "memory list"
  vs_bConsts :: "u32 list"
  streams :: "u32 list"
  streamOffsetsStrides :: "(u32 \<times> u32) list"
  streamFreqs :: "u32 list"
  indices :: u32
  pixelShader :: u32
  ps_fConsts :: "memory list"
  ps_iConsts :: "memory list"
  ps_bConsts :: "u32 list"

text \<open>\<open>struct StateCaptureDirtyFlags\<close>; the light maps by their keys, which is all the transfer uses.\<close>

record dirty_flags =
  f_vertexDecl :: bool
  f_indices :: bool
  f_renderStates :: "bool list"
  f_samplerStates :: "bool list list"
  f_streams :: "bool list"
  f_streamOffsetsAndStrides :: "bool list"
  f_streamFreqs :: "bool list"
  f_textures :: "bool list"
  f_vertexShader :: bool
  f_pixelShader :: bool
  f_material :: bool
  f_lights :: "u32 \<Rightarrow> bool"
  f_bLightEnables :: "u32 \<Rightarrow> bool"
  f_transforms :: "bool list"
  f_textureStageStates :: "bool list list"
  f_viewport :: bool
  f_scissorRect :: bool
  f_clipPlanes :: "bool list"
  f_vs_fConsts :: "bool list"
  f_vs_iConsts :: "bool list"
  f_vs_bConsts :: "bool list"
  f_ps_fConsts :: "bool list"
  f_ps_iConsts :: "bool list"
  f_ps_bConsts :: "bool list"

text \<open>A state block (\<open>Direct3DStateBlock9_LSS\<close>) and the device members the setters use.  The options are
  \<open>eliminateRedundantSetterCalls\<close>, \<open>sendAllServerResponses\<close> and \<open>clientStateBatch\<close>.\<close>

record stateblock =
  sb_id :: u32
  m_dirtyFlags :: dirty_flags
  m_captureState :: dev_state

record device =
  m_state :: dev_state
  m_stateRecording :: "stateblock option"
  m_clipStatus :: memory
  m_paletteEntries :: "u32 \<Rightarrow> memory"
  m_curTexPalette :: u32
  m_bSoftwareVtxProcessing :: u32
  m_NPatchMode :: u32
  m_FVF :: u32
  opt_eliminate :: bool
  opt_sendAll :: bool
  opt_batch :: bool

datatype dev_msg = Batched d3d_call | Sent string "item list"

type_synonym dev_result = "(HRESULT \<times> device \<times> dev_msg list) or_error"

section \<open>Helpers\<close>

definition getE :: "'a list \<Rightarrow> nat \<Rightarrow> 'a or_error" where
  "getE xs i = (if i < length xs then Inr (xs ! i) else Inl OutOfBounds)"

definition optional_response :: "device \<Rightarrow> HRESULT \<Rightarrow> HRESULT" where
  "optional_response d resp = (if opt_sendAll d then resp else S_OK)"

definition batchActive :: "device \<Rightarrow> bool" where
  "batchActive d \<longleftrightarrow> opt_batch d \<and> \<not> opt_sendAll d \<and> m_stateRecording d = None"

text \<open>The two ways a batched setter's call leaves the client.\<close>

definition send_or_batch :: "device \<Rightarrow> d3d_call \<Rightarrow> string \<Rightarrow> item list \<Rightarrow> dev_msg list" where
  "send_or_batch d c name items = (if batchActive d then [Batched c] else [Sent name items])"

definition set_capture :: "stateblock \<Rightarrow> (dev_state \<Rightarrow> dev_state) \<Rightarrow> (dirty_flags \<Rightarrow> dirty_flags) \<Rightarrow> device \<Rightarrow> device" where
  "set_capture sb f g d = d\<lparr>m_stateRecording :=
     Some (sb\<lparr>m_captureState := f (m_captureState sb), m_dirtyFlags := g (m_dirtyFlags sb)\<rparr>)\<rparr>"

definition set_state :: "(dev_state \<Rightarrow> dev_state) \<Rightarrow> device \<Rightarrow> device" where
  "set_state f d = d\<lparr>m_state := f (m_state d)\<rparr>"

subsection \<open>Index maps\<close>

definition mapXformStateTypeToIdx :: "u32 \<Rightarrow> nat" where
  "mapXformStateTypeToIdx Type =
     (if Type = 2 then 0 else if Type = 3 then 1
      else if Type \<ge> 16 \<and> Type \<le> 23 then 2 + unat (Type - 16)
      else unat (10 + (Type - 256)))"

definition isValidD3drtansformstatetype :: "u32 \<Rightarrow> bool" where
  "isValidD3drtansformstatetype Type \<longleftrightarrow> Type = 2 \<or> Type = 3 \<or> Type \<ge> 16 \<and> Type \<le> 23 \<or> Type \<ge> 256 \<and> Type < 512"

definition isInvalidSamplerStage :: "u32 \<Rightarrow> bool" where
  "isInvalidSamplerStage samplerStage \<longleftrightarrow> samplerStage > 15 \<and> samplerStage < 256 \<or> samplerStage > 260"

definition mapSamplerStageToIdx :: "u32 \<Rightarrow> nat" where
  "mapSamplerStageToIdx samplerStage =
     (if samplerStage \<ge> 256 then MaxTexturesPS + unat (samplerStage - 256) else unat samplerStage)"

definition TexStageStateTypeToIdx :: "u32 \<Rightarrow> nat" where
  "TexStageStateTypeToIdx Type =
     (if 1 \<le> Type \<and> Type \<le> 11 then unat Type - 1
      else if Type = 22 then 11 else if Type = 23 then 12 else if Type = 24 then 13
      else if Type = 26 then 14 else if Type = 27 then 15 else if Type = 28 then 16
      else if Type = 32 then 17 else 2 ^ 32 - 1)"

section \<open>Transforms, viewport, material, lights, clip planes\<close>

definition dev_SetTransform :: "HRESULT \<Rightarrow> u32 \<Rightarrow> memory option \<Rightarrow> device \<Rightarrow> dev_result" where
  "dev_SetTransform resp State pMatrix d = (case pMatrix of None \<Rightarrow> Inr (D3DERR_INVALIDCALL, d, [])
   | Some mat \<Rightarrow> if \<not> isValidD3drtansformstatetype State then Inr (D3DERR_INVALIDCALL, d, []) else
     let idx = mapXformStateTypeToIdx State;
         msg = [Sent ''SetTransform'' [Word State, Obj (Some mat)]] in
     case m_stateRecording d of
       Some sb \<Rightarrow> bindE (getE (f_transforms (m_dirtyFlags sb)) idx) (\<lambda>dirty.
         bindE (getE (transforms (m_captureState sb)) idx) (\<lambda>old.
         if opt_eliminate d \<and> dirty \<and> old = mat then Inr (S_OK, d, [])
         else Inr (optional_response d resp, set_capture sb (transforms_update (\<lambda>xs. xs[idx := mat]))
                (f_transforms_update (\<lambda>xs. xs[idx := True])) d, msg)))
     | None \<Rightarrow> bindE (getE (transforms (m_state d)) idx) (\<lambda>old.
         if opt_eliminate d \<and> old = mat then Inr (S_OK, d, [])
         else Inr (optional_response d resp, set_state (transforms_update (\<lambda>xs. xs[idx := mat])) d, msg)))"

definition dev_GetTransform :: "u32 \<Rightarrow> device \<Rightarrow> memory or_error" where
  "dev_GetTransform State d = getE (transforms (m_state d)) (mapXformStateTypeToIdx State)"

text \<open>\<open>MultiplyTransform\<close>; the floating-point product is the parameter \<open>mul\<close>.  Nothing is sent.\<close>

definition dev_MultiplyTransform :: "(memory \<Rightarrow> memory \<Rightarrow> memory) \<Rightarrow> u32 \<Rightarrow> memory option \<Rightarrow> device \<Rightarrow> dev_result" where
  "dev_MultiplyTransform mul State pMatrix d = (case pMatrix of None \<Rightarrow> Inr (D3DERR_INVALIDCALL, d, [])
   | Some mat \<Rightarrow> let idx = mapXformStateTypeToIdx State in
     bindE (getE (transforms (m_state d)) idx) (\<lambda>cur.
     case m_stateRecording d of
       Some sb \<Rightarrow> bindE (getE (f_transforms (m_dirtyFlags sb)) idx) (\<lambda>dirty.
         bindE (getE (transforms (m_captureState sb)) idx) (\<lambda>cap.
         let r = mul (if dirty then cap else cur) mat in
         Inr (S_OK, set_capture sb (transforms_update (\<lambda>xs. xs[idx := r])) (f_transforms_update (\<lambda>xs. xs[idx := True])) d, [])))
     | None \<Rightarrow> Inr (S_OK, set_state (transforms_update (\<lambda>xs. xs[idx := mul cur mat])) d, [])))"

definition dev_SetViewport :: "HRESULT \<Rightarrow> memory option \<Rightarrow> device \<Rightarrow> dev_result" where
  "dev_SetViewport resp pViewport d = (case pViewport of None \<Rightarrow> Inr (D3DERR_INVALIDCALL, d, [])
   | Some v \<Rightarrow> let msg = [Sent ''SetViewport'' [Obj (Some v)]] in
     case m_stateRecording d of
       Some sb \<Rightarrow> Inr (optional_response d resp, set_capture sb (viewport_update (\<lambda>_. v)) (f_viewport_update (\<lambda>_. True)) d, msg)
     | None \<Rightarrow> if opt_eliminate d \<and> viewport (m_state d) = v then Inr (S_OK, d, [])
         else Inr (optional_response d resp, set_state (viewport_update (\<lambda>_. v)) d, msg))"

definition dev_SetMaterial :: "HRESULT \<Rightarrow> memory option \<Rightarrow> device \<Rightarrow> dev_result" where
  "dev_SetMaterial resp pMaterial d = (case pMaterial of None \<Rightarrow> Inr (D3DERR_INVALIDCALL, d, [])
   | Some m \<Rightarrow> let msg = [Sent ''SetMaterial'' [Obj (Some m)]] in
     case m_stateRecording d of
       Some sb \<Rightarrow> Inr (optional_response d resp, set_capture sb (material_update (\<lambda>_. m)) (f_material_update (\<lambda>_. True)) d, msg)
     | None \<Rightarrow> Inr (optional_response d resp, set_state (material_update (\<lambda>_. m)) d, msg))"

definition dev_SetLight :: "HRESULT \<Rightarrow> u32 \<Rightarrow> memory option \<Rightarrow> device \<Rightarrow> dev_result" where
  "dev_SetLight resp Index pLight d = (case pLight of None \<Rightarrow> Inr (D3DERR_INVALIDCALL, d, [])
   | Some l \<Rightarrow> let msg = [Sent ''SetLight'' [Word Index, Obj (Some l)]] in
     case m_stateRecording d of
       Some sb \<Rightarrow>
         if opt_eliminate d \<and> f_lights (m_dirtyFlags sb) Index \<and> lights (m_captureState sb) Index = l then Inr (S_OK, d, [])
         else Inr (optional_response d resp, set_capture sb (lights_update (\<lambda>f. f(Index := l)))
                (f_lights_update (\<lambda>f. f(Index := True))) d, msg)
     | None \<Rightarrow> if opt_eliminate d \<and> lights (m_state d) Index = l then Inr (S_OK, d, [])
         else Inr (optional_response d resp, set_state (lights_update (\<lambda>f. f(Index := l))) d, msg))"

definition dev_LightEnable :: "HRESULT \<Rightarrow> u32 \<Rightarrow> u32 \<Rightarrow> device \<Rightarrow> dev_result" where
  "dev_LightEnable resp LightIndex bEnable d = (let b = (bEnable \<noteq> 0);
       msg = [Sent ''LightEnable'' [Word LightIndex, Word bEnable]] in
     case m_stateRecording d of
       Some sb \<Rightarrow>
         if opt_eliminate d \<and> f_bLightEnables (m_dirtyFlags sb) LightIndex \<and> bLightEnables (m_captureState sb) LightIndex = b
         then Inr (S_OK, d, [])
         else Inr (optional_response d resp, set_capture sb (bLightEnables_update (\<lambda>f. f(LightIndex := b)))
                (f_bLightEnables_update (\<lambda>f. f(LightIndex := True))) d, msg)
     | None \<Rightarrow> if opt_eliminate d \<and> bLightEnables (m_state d) LightIndex = b then Inr (S_OK, d, [])
         else Inr (optional_response d resp, set_state (bLightEnables_update (\<lambda>f. f(LightIndex := b))) d, msg))"

definition dev_GetLightEnable :: "u32 \<Rightarrow> device \<Rightarrow> u32" where
  "dev_GetLightEnable Index d = (if bLightEnables (m_state d) Index then 128 else 0)"

definition dev_SetClipPlane :: "HRESULT \<Rightarrow> u32 \<Rightarrow> memory option \<Rightarrow> device \<Rightarrow> dev_result" where
  "dev_SetClipPlane resp Index pPlane d = (case pPlane of None \<Rightarrow> Inr (D3DERR_INVALIDCALL, d, [])
   | Some p \<Rightarrow> let idx = unat Index; msg = [Sent ''SetClipPlane'' [Word Index, Obj (Some p)]] in
     case m_stateRecording d of
       Some sb \<Rightarrow> bindE (getE (clipPlanes (m_captureState sb)) idx) (\<lambda>_.
         Inr (optional_response d resp, set_capture sb (clipPlanes_update (\<lambda>xs. xs[idx := p]))
           (f_clipPlanes_update (\<lambda>xs. xs[idx := True])) d, msg))
     | None \<Rightarrow> bindE (getE (clipPlanes (m_state d)) idx) (\<lambda>_.
         Inr (optional_response d resp, set_state (clipPlanes_update (\<lambda>xs. xs[idx := p])) d, msg)))"

definition dev_SetScissorRect :: "HRESULT \<Rightarrow> memory option \<Rightarrow> device \<Rightarrow> dev_result" where
  "dev_SetScissorRect resp pRect d = (case pRect of None \<Rightarrow> Inr (D3DERR_INVALIDCALL, d, [])
   | Some r \<Rightarrow> let msg = [Sent ''SetScissorRect'' [Obj (Some r)]] in
     case m_stateRecording d of
       Some sb \<Rightarrow> Inr (optional_response d resp, set_capture sb (scissorRect_update (\<lambda>_. r)) (f_scissorRect_update (\<lambda>_. True)) d, msg)
     | None \<Rightarrow> Inr (optional_response d resp, set_state (scissorRect_update (\<lambda>_. r)) d, msg))"

section \<open>Render, texture stage and sampler states\<close>

definition dev_SetRenderState :: "HRESULT \<Rightarrow> u32 \<Rightarrow> u32 \<Rightarrow> device \<Rightarrow> dev_result" where
  "dev_SetRenderState resp State Value d = (let idx = unat State;
       msg = send_or_batch d (SetRenderState State Value) ''SetRenderState'' [Word State, Word Value] in
     case m_stateRecording d of
       Some sb \<Rightarrow> bindE (getE (f_renderStates (m_dirtyFlags sb)) idx) (\<lambda>dirty.
         bindE (getE (renderStates (m_captureState sb)) idx) (\<lambda>old.
         if opt_eliminate d \<and> dirty \<and> old = Value then Inr (S_OK, d, [])
         else Inr (optional_response d resp, set_capture sb (renderStates_update (\<lambda>xs. xs[idx := Value]))
                (f_renderStates_update (\<lambda>xs. xs[idx := True])) d, msg)))
     | None \<Rightarrow> bindE (getE (renderStates (m_state d)) idx) (\<lambda>old.
         if opt_eliminate d \<and> old = Value then Inr (S_OK, d, [])
         else Inr (optional_response d resp, set_state (renderStates_update (\<lambda>xs. xs[idx := Value])) d, msg)))"

definition dev_GetRenderState :: "u32 \<Rightarrow> device \<Rightarrow> u32 or_error" where
  "dev_GetRenderState State d = getE (renderStates (m_state d)) (unat State)"

definition get2 :: "'a list list \<Rightarrow> nat \<Rightarrow> nat \<Rightarrow> 'a or_error" where
  "get2 xss i j = bindE (getE xss i) (\<lambda>xs. getE xs j)"

definition upd2 :: "nat \<Rightarrow> nat \<Rightarrow> 'a \<Rightarrow> 'a list list \<Rightarrow> 'a list list" where
  "upd2 i j v xss = xss[i := (xss ! i)[j := v]]"

definition dev_SetTextureStageState :: "HRESULT \<Rightarrow> u32 \<Rightarrow> u32 \<Rightarrow> u32 \<Rightarrow> device \<Rightarrow> dev_result" where
  "dev_SetTextureStageState resp Stage Type Value d =
    (if unat Stage \<ge> MaxSimultaneousTextures then Inr (D3DERR_INVALIDCALL, d, []) else
     let typeIdx = TexStageStateTypeToIdx Type in
     if typeIdx \<ge> kMaxTexStageStateTypes then Inr (D3DERR_INVALIDCALL, d, []) else
     let i = mapSamplerStageToIdx Stage;
         msg = send_or_batch d (SetTextureStageState Stage Type Value) ''SetTextureStageState'' [Word Stage, Word Type, Word Value] in
     case m_stateRecording d of
       Some sb \<Rightarrow> bindE (get2 (f_textureStageStates (m_dirtyFlags sb)) i typeIdx) (\<lambda>dirty.
         bindE (get2 (textureStageStates (m_captureState sb)) i typeIdx) (\<lambda>old.
         if opt_eliminate d \<and> dirty \<and> old = Value then Inr (S_OK, d, [])
         else Inr (optional_response d resp, set_capture sb (textureStageStates_update (upd2 i typeIdx Value))
                (f_textureStageStates_update (upd2 i typeIdx True)) d, msg)))
     | None \<Rightarrow> bindE (get2 (textureStageStates (m_state d)) i typeIdx) (\<lambda>old.
         if opt_eliminate d \<and> old = Value then Inr (S_OK, d, [])
         else Inr (optional_response d resp, set_state (textureStageStates_update (upd2 i typeIdx Value)) d, msg)))"

definition dev_GetTextureStageState :: "u32 \<Rightarrow> u32 \<Rightarrow> device \<Rightarrow> (HRESULT \<times> u32 option) or_error" where
  "dev_GetTextureStageState Stage Type d =
    (if isInvalidSamplerStage Stage \<or> TexStageStateTypeToIdx Type \<ge> kMaxTexStageStateTypes then Inr (D3DERR_INVALIDCALL, None)
     else bindE (get2 (textureStageStates (m_state d)) (mapSamplerStageToIdx Stage) (TexStageStateTypeToIdx Type))
       (\<lambda>v. Inr (S_OK, Some v)))"

text \<open>\<open>Type - 1\<close> is compared as \<open>size_t\<close>: \<open>Type = 0\<close> gives a large index.\<close>

definition samplerTypeIdx :: "u32 \<Rightarrow> nat" where
  "samplerTypeIdx Type = unat (Type - 1)"

definition dev_SetSamplerState :: "HRESULT \<Rightarrow> u32 \<Rightarrow> u32 \<Rightarrow> u32 \<Rightarrow> device \<Rightarrow> dev_result" where
  "dev_SetSamplerState resp Sampler Type Value d =
    (if isInvalidSamplerStage Sampler then Inr (D3DERR_INVALIDCALL, d, []) else
     let typeIdx = samplerTypeIdx Type in
     if typeIdx \<ge> kMaxStageSamplerStateTypes then Inr (D3DERR_INVALIDCALL, d, []) else
     let i = mapSamplerStageToIdx Sampler;
         msg = send_or_batch d (SetSamplerState Sampler Type Value) ''SetSamplerState'' [Word Sampler, Word Type, Word Value] in
     case m_stateRecording d of
       Some sb \<Rightarrow> bindE (get2 (f_samplerStates (m_dirtyFlags sb)) i typeIdx) (\<lambda>dirty.
         bindE (get2 (samplerStates (m_captureState sb)) i typeIdx) (\<lambda>old.
         if opt_eliminate d \<and> dirty \<and> old = Value then Inr (S_OK, d, [])
         else Inr (optional_response d resp, set_capture sb (samplerStates_update (upd2 i typeIdx Value))
                (f_samplerStates_update (upd2 i typeIdx True)) d, msg)))
     | None \<Rightarrow> bindE (get2 (samplerStates (m_state d)) i typeIdx) (\<lambda>old.
         if opt_eliminate d \<and> old = Value then Inr (S_OK, d, [])
         else Inr (optional_response d resp, set_state (samplerStates_update (upd2 i typeIdx Value)) d, msg)))"

definition dev_GetSamplerState :: "u32 \<Rightarrow> u32 \<Rightarrow> device \<Rightarrow> (HRESULT \<times> u32 option) or_error" where
  "dev_GetSamplerState Sampler Type d =
    (if isInvalidSamplerStage Sampler \<or> samplerTypeIdx Type \<ge> kMaxStageSamplerStateTypes then Inr (D3DERR_INVALIDCALL, None)
     else bindE (get2 (samplerStates (m_state d)) (mapSamplerStageToIdx Sampler) (samplerTypeIdx Type)) (\<lambda>v. Inr (S_OK, Some v)))"

text \<open>\<open>SetTexture\<close>: the texture's id and its \<open>GetType\<close>; \<open>D3DRTYPE_TEXTURE\<close>, \<open>_VOLUMETEXTURE\<close> and
  \<open>_CUBETEXTURE\<close> are 3, 4 and 5.\<close>

definition dev_SetTexture :: "HRESULT \<Rightarrow> u32 \<Rightarrow> (u32 \<times> u32) option \<Rightarrow> device \<Rightarrow> dev_result" where
  "dev_SetTexture resp Stage pTexture d =
    (if isInvalidSamplerStage Stage then Inr (D3DERR_INVALIDCALL, d, []) else
     let i = mapSamplerStageToIdx Stage in
     if (\<exists>t. pTexture = Some t \<and> snd t \<notin> {3, 4, 5}) then Inr (E_FAIL, d, []) else
     let obj = (case pTexture of Some t \<Rightarrow> t | None \<Rightarrow> (0, 0x7fffffff));
         msg = send_or_batch d (SetTexture Stage (handle (fst obj))) ''SetTexture'' [Word Stage, Word (fst obj)] in
     case m_stateRecording d of
       Some sb \<Rightarrow> bindE (getE (textures (m_captureState sb)) i) (\<lambda>_.
         Inr (optional_response d resp, set_capture sb (textures_update (\<lambda>xs. xs[i := obj])) (f_textures_update (\<lambda>xs. xs[i := True])) d, msg))
     | None \<Rightarrow> bindE (getE (textures (m_state d)) i) (\<lambda>old.
         if opt_eliminate d \<and> fst old = fst obj then Inr (S_OK, d, [])
         else Inr (optional_response d resp, set_state (textures_update (\<lambda>xs. xs[i := obj])) d, msg)))"

definition dev_GetTexture :: "u32 \<Rightarrow> device \<Rightarrow> (HRESULT \<times> u32) or_error" where
  "dev_GetTexture Stage d =
    (if isInvalidSamplerStage Stage then Inr (D3DERR_INVALIDCALL, 0)
     else bindE (getE (textures (m_state d)) (mapSamplerStageToIdx Stage)) (\<lambda>(p, t).
       if p = 0 then Inr (S_OK, 0) else if t \<in> {3, 4, 5} then Inr (S_OK, p) else Inr (E_FAIL, 0)))"

section \<open>Vertex declaration, shaders, streams, indices\<close>

text \<open>\<open>SetVertexDeclaration\<close> writes the device state even while a state block is recorded.\<close>

definition dev_SetVertexDeclaration :: "HRESULT \<Rightarrow> u32 \<Rightarrow> device \<Rightarrow> dev_result" where
  "dev_SetVertexDeclaration resp i d =
    (if opt_eliminate d \<and> m_stateRecording d = None \<and> vertexDecl (m_state d) = i then Inr (S_OK, d, [])
     else Inr (optional_response d resp, set_state (vertexDecl_update (\<lambda>_. i)) d,
            send_or_batch d (SetVertexDeclaration (handle i)) ''SetVertexDeclaration'' [Word i]))"

definition dev_SetVertexShader :: "HRESULT \<Rightarrow> u32 \<Rightarrow> device \<Rightarrow> dev_result" where
  "dev_SetVertexShader resp i d = (let msg = send_or_batch d (SetVertexShader (handle i)) ''SetVertexShader'' [Word i] in
     case m_stateRecording d of
       Some sb \<Rightarrow> Inr (optional_response d resp, set_capture sb (vertexShader_update (\<lambda>_. i)) (f_vertexShader_update (\<lambda>_. True)) d, msg)
     | None \<Rightarrow> if opt_eliminate d \<and> vertexShader (m_state d) = i then Inr (S_OK, d, [])
         else Inr (optional_response d resp, set_state (vertexShader_update (\<lambda>_. i)) d, msg))"

definition dev_SetPixelShader :: "HRESULT \<Rightarrow> u32 \<Rightarrow> device \<Rightarrow> dev_result" where
  "dev_SetPixelShader resp i d = (let msg = send_or_batch d (SetPixelShader (handle i)) ''SetPixelShader'' [Word i] in
     case m_stateRecording d of
       Some sb \<Rightarrow> Inr (optional_response d resp, set_capture sb (pixelShader_update (\<lambda>_. i)) (f_pixelShader_update (\<lambda>_. True)) d, msg)
     | None \<Rightarrow> if opt_eliminate d \<and> pixelShader (m_state d) = i then Inr (S_OK, d, [])
         else Inr (optional_response d resp, set_state (pixelShader_update (\<lambda>_. i)) d, msg))"

definition dev_SetIndices :: "HRESULT \<Rightarrow> u32 \<Rightarrow> device \<Rightarrow> dev_result" where
  "dev_SetIndices resp i d = (let msg = send_or_batch d (SetIndices (handle i)) ''SetIndices'' [Word i] in
     case m_stateRecording d of
       Some sb \<Rightarrow> Inr (optional_response d resp, set_capture sb (indices_update (\<lambda>_. i)) (f_indices_update (\<lambda>_. True)) d, msg)
     | None \<Rightarrow> if opt_eliminate d \<and> indices (m_state d) = i then Inr (S_OK, d, [])
         else Inr (optional_response d resp, set_state (indices_update (\<lambda>_. i)) d, msg))"

definition dev_SetStreamSource :: "HRESULT \<Rightarrow> u32 \<Rightarrow> u32 \<Rightarrow> u32 \<Rightarrow> u32 \<Rightarrow> device \<Rightarrow> dev_result" where
  "dev_SetStreamSource resp StreamNumber i OffsetInBytes Stride d = (let n = unat StreamNumber;
       upd = (\<lambda>s. s\<lparr>streams := (streams s)[n := i],
                    streamOffsetsStrides := (if i \<noteq> 0 then (streamOffsetsStrides s)[n := (OffsetInBytes, Stride)]
                                            else streamOffsetsStrides s)\<rparr>);
       msg = send_or_batch d (SetStreamSource StreamNumber (handle i) OffsetInBytes Stride) ''SetStreamSource''
               [Word StreamNumber, Word i, Word OffsetInBytes, Word Stride] in
     case m_stateRecording d of
       Some sb \<Rightarrow> bindE (getE (streams (m_captureState sb)) n) (\<lambda>_.
         Inr (optional_response d resp, set_capture sb upd
           (\<lambda>f. f\<lparr>f_streams := (f_streams f)[n := True],
                  f_streamOffsetsAndStrides := (if i \<noteq> 0 then (f_streamOffsetsAndStrides f)[n := True]
                                                else f_streamOffsetsAndStrides f)\<rparr>) d, msg))
     | None \<Rightarrow> bindE (getE (streams (m_state d)) n) (\<lambda>old.
         if opt_eliminate d \<and> old = i \<and> (i = 0 \<or> streamOffsetsStrides (m_state d) ! n = (OffsetInBytes, Stride))
         then Inr (S_OK, d, [])
         else Inr (optional_response d resp, set_state upd d, msg)))"

definition dev_SetStreamSourceFreq :: "HRESULT \<Rightarrow> u32 \<Rightarrow> u32 \<Rightarrow> device \<Rightarrow> dev_result" where
  "dev_SetStreamSourceFreq resp StreamNumber Divider d = (let n = unat StreamNumber;
       msg = send_or_batch d (SetStreamSourceFreq StreamNumber Divider) ''SetStreamSourceFreq'' [Word StreamNumber, Word Divider] in
     case m_stateRecording d of
       Some sb \<Rightarrow> bindE (getE (streamFreqs (m_captureState sb)) n) (\<lambda>_.
         Inr (optional_response d resp, set_capture sb (streamFreqs_update (\<lambda>xs. xs[n := Divider]))
           (f_streamFreqs_update (\<lambda>xs. xs[n := True])) d, msg))
     | None \<Rightarrow> bindE (getE (streamFreqs (m_state d)) n) (\<lambda>old.
         if opt_eliminate d \<and> old = Divider then Inr (S_OK, d, [])
         else Inr (optional_response d resp, set_state (streamFreqs_update (\<lambda>xs. xs[n := Divider])) d, msg)))"

section \<open>Members outside the captured state\<close>

definition dev_SetFVF :: "HRESULT \<Rightarrow> u32 \<Rightarrow> device \<Rightarrow> dev_result" where
  "dev_SetFVF resp FVF d = Inr (optional_response d resp, d\<lparr>m_FVF := FVF\<rparr>, [Sent ''SetFVF'' [Word FVF]])"

definition dev_SetNPatchMode :: "HRESULT \<Rightarrow> u32 \<Rightarrow> device \<Rightarrow> dev_result" where
  "dev_SetNPatchMode resp nSegments d =
     Inr (optional_response d resp, d\<lparr>m_NPatchMode := nSegments\<rparr>, [Sent ''SetNPatchMode'' [Obj (Some (u32_bytes nSegments))]])"

text \<open>\<open>SetSoftwareVertexProcessing\<close> always waits for the server's answer when it sends.\<close>

definition dev_SetSoftwareVertexProcessing :: "HRESULT \<Rightarrow> u32 \<Rightarrow> device \<Rightarrow> dev_result" where
  "dev_SetSoftwareVertexProcessing resp bSoftware d =
    (if m_bSoftwareVtxProcessing d = bSoftware then Inr (S_OK, d, [])
     else Inr (resp, d\<lparr>m_bSoftwareVtxProcessing := bSoftware\<rparr>, [Sent ''SetSoftwareVertexProcessing'' [Word bSoftware]]))"

definition dev_SetClipStatus :: "memory option \<Rightarrow> device \<Rightarrow> dev_result" where
  "dev_SetClipStatus p d = (case p of None \<Rightarrow> Inr (D3DERR_INVALIDCALL, d, []) | Some c \<Rightarrow> Inr (S_OK, d\<lparr>m_clipStatus := c\<rparr>, []))"

definition dev_SetPaletteEntries :: "u32 \<Rightarrow> memory option \<Rightarrow> device \<Rightarrow> dev_result" where
  "dev_SetPaletteEntries n p d = (case p of None \<Rightarrow> Inr (D3DERR_INVALIDCALL, d, [])
   | Some e \<Rightarrow> Inr (S_OK, d\<lparr>m_paletteEntries := (m_paletteEntries d)(n := e)\<rparr>, []))"

definition dev_SetCurrentTexturePalette :: "u32 \<Rightarrow> device \<Rightarrow> dev_result" where
  "dev_SetCurrentTexturePalette n d = Inr (S_OK, d\<lparr>m_curTexPalette := n\<rparr>, [])"

text \<open>The arrays of \<open>struct State\<close> have their declared lengths.\<close>

definition state_shape :: "dev_state \<Rightarrow> bool" where
  "state_shape s \<longleftrightarrow> length (transforms s) = MaxTransforms \<and> length (clipPlanes s) = MaxClipPlanes
     \<and> length (renderStates s) = kNumRenderStates \<and> length (textures s) = kNumStageSamplers
     \<and> length (textureStageStates s) = kNumStageSamplers \<and> (\<forall>r \<in> set (textureStageStates s). length r = kMaxTexStageStateTypes)
     \<and> length (samplerStates s) = kNumStageSamplers \<and> (\<forall>r \<in> set (samplerStates s). length r = kMaxStageSamplerStateTypes)
     \<and> length (streams s) = MaxStreams \<and> length (streamOffsetsStrides s) = MaxStreams \<and> length (streamFreqs s) = MaxStreams"

section \<open>Index maps\<close>

lemma mapXformStateTypeToIdx_bound:
  assumes "isValidD3drtansformstatetype t"
  shows "mapXformStateTypeToIdx t < MaxTransforms"
proof -
  consider "t = 2" | "t = 3" | "16 \<le> t" "t \<le> 23" | "256 \<le> t" "t < 512"
    using assms by (auto simp: isValidD3drtansformstatetype_def)
  then show ?thesis
  proof cases
    case 3
    then have "unat (t - 16) = unat t - 16" "unat t \<le> 23" "16 \<le> unat t"
      by (auto simp: word_le_nat_alt unat_sub)
    then show ?thesis using 3 by (auto simp: mapXformStateTypeToIdx_def caps_defs)
  next
    case 4
    then have u: "256 \<le> unat t" "unat t < 512" by (auto simp: word_le_nat_alt word_less_nat_alt)
    then have "246 \<le> t" by (simp add: word_le_nat_alt)
    then have "unat (t - 246) = unat t - 246" by (simp add: unat_sub)
    moreover have "t \<noteq> 2" "t \<noteq> 3" "\<not> t \<le> 23" using u by (auto simp: word_le_nat_alt)
    ultimately show ?thesis using u by (simp add: mapXformStateTypeToIdx_def caps_defs)
  qed (simp_all add: mapXformStateTypeToIdx_def caps_defs)
qed

lemma mapSamplerStageToIdx_bound:
  assumes "\<not> isInvalidSamplerStage s"
  shows "mapSamplerStageToIdx s < kNumStageSamplers"
proof -
  have "unat s \<le> 15 \<or> 256 \<le> unat s \<and> unat s \<le> 260"
    using assms by (auto simp: isInvalidSamplerStage_def word_less_nat_alt)
  moreover have "256 \<le> s \<Longrightarrow> unat (s - 256) = unat s - 256" by (simp add: unat_sub)
  ultimately show ?thesis
    by (auto simp: mapSamplerStageToIdx_def shape_defs word_le_nat_alt)
qed

lemma stage_bound: "unat s < MaxSimultaneousTextures \<Longrightarrow> mapSamplerStageToIdx s < kNumStageSamplers"
  by (auto simp: mapSamplerStageToIdx_def shape_defs word_le_nat_alt)

lemma state_shape_simps:
  assumes "state_shape s"
  shows "state_shape (viewport_update f0 s)"
    "state_shape (material_update f1 s)"
    "state_shape (lights_update f2 s)"
    "state_shape (bLightEnables_update f3 s)"
    "state_shape (scissorRect_update f4 s)"
    "state_shape (vertexDecl_update f5 s)"
    "state_shape (vertexShader_update f6 s)"
    "state_shape (pixelShader_update f7 s)"
    "state_shape (indices_update f8 s)"
    "length (g0 (transforms s)) = MaxTransforms \<Longrightarrow> state_shape (transforms_update g0 s)"
    "length (g1 (clipPlanes s)) = MaxClipPlanes \<Longrightarrow> state_shape (clipPlanes_update g1 s)"
    "length (g2 (renderStates s)) = kNumRenderStates \<Longrightarrow> state_shape (renderStates_update g2 s)"
    "length (g3 (textures s)) = kNumStageSamplers \<Longrightarrow> state_shape (textures_update g3 s)"
    "length (g4 (streams s)) = MaxStreams \<Longrightarrow> state_shape (streams_update g4 s)"
    "length (g5 (streamOffsetsStrides s)) = MaxStreams \<Longrightarrow> state_shape (streamOffsetsStrides_update g5 s)"
    "length (g6 (streamFreqs s)) = MaxStreams \<Longrightarrow> state_shape (streamFreqs_update g6 s)"
  using assms by (simp_all add: state_shape_def)

lemma state_shape_lengths:
  assumes "state_shape s"
  shows "length (transforms s) = MaxTransforms" "length (clipPlanes s) = MaxClipPlanes" "length (renderStates s) = kNumRenderStates"
    "length (textures s) = kNumStageSamplers" "length (textureStageStates s) = kNumStageSamplers"
    "length (samplerStates s) = kNumStageSamplers" "length (streams s) = MaxStreams"
    "length (streamOffsetsStrides s) = MaxStreams" "length (streamFreqs s) = MaxStreams"
  using assms unfolding state_shape_def by blast+

lemma state_shape_rows:
  assumes "state_shape s" "i < kNumStageSamplers"
  shows "length (textureStageStates s ! i) = kMaxTexStageStateTypes" "length (samplerStates s ! i) = kMaxStageSamplerStateTypes"
  using assms by (simp_all add: state_shape_def)

lemma upd2_rows: "i < length xss \<Longrightarrow> \<forall>r \<in> set xss. length r = n \<Longrightarrow> \<forall>r \<in> set (upd2 i j v xss). length r = n"
  by (auto simp: upd2_def dest: set_update_subset_insert [THEN subsetD])

lemma state_shape_upd2:
  assumes "state_shape s" "i < kNumStageSamplers"
  shows "state_shape (textureStageStates_update (upd2 i j v) s)"
    "state_shape (samplerStates_update (upd2 i j v) s)"
  using assms upd2_rows [of i "textureStageStates s"] upd2_rows [of i "samplerStates s"]
  by (auto simp: state_shape_def upd2_def)

lemmas shape_rules = state_shape_simps state_shape_lengths state_shape_upd2


section \<open>Properties\<close>

lemma mapXformStateTypeToIdx_unat:
  assumes "isValidD3drtansformstatetype t"
  shows "mapXformStateTypeToIdx t = (if unat t = 2 then 0 else if unat t = 3 then 1 else if unat t < 256 then unat t - 14 else unat t - 246)"
proof -
  have "246 \<le> unat t \<Longrightarrow> unat (t - 246) = unat t - 246" by (simp add: unat_sub word_le_nat_alt)
  moreover have "16 \<le> unat t \<Longrightarrow> unat (t - 16) = unat t - 16" by (simp add: unat_sub word_le_nat_alt)
  moreover have "t = 2 \<longleftrightarrow> unat t = 2" "t = 3 \<longleftrightarrow> unat t = 3" by (auto simp: word_unat_eq_iff)
  ultimately show ?thesis
    using assms unfolding isValidD3drtansformstatetype_def mapXformStateTypeToIdx_def
    by (auto simp: word_le_nat_alt word_less_nat_alt)
qed

lemma mapSamplerStageToIdx_unat:
  assumes "\<not> isInvalidSamplerStage s"
  shows "mapSamplerStageToIdx s = (if unat s < 256 then unat s else unat s - 240) \<and> (unat s \<le> 15 \<or> 256 \<le> unat s \<and> unat s \<le> 260)"
proof -
  have "256 \<le> unat s \<Longrightarrow> unat (s - 256) = unat s - 256" by (simp add: unat_sub word_le_nat_alt)
  then show ?thesis
    using assms by (auto simp: isInvalidSamplerStage_def mapSamplerStageToIdx_def word_le_nat_alt word_less_nat_alt MaxTexturesPS_def)
qed

text \<open>Distinct transform types and distinct sampler stages that the interface accepts never share a slot of
  the client's state, and every slot they use lies inside its array.\<close>

theorem state_slots_distinct:
  "(isValidD3drtansformstatetype t \<and> isValidD3drtansformstatetype u \<longrightarrow> mapXformStateTypeToIdx t < MaxTransforms
      \<and> (mapXformStateTypeToIdx t = mapXformStateTypeToIdx u \<longrightarrow> t = u))
   \<and> (\<not> isInvalidSamplerStage a \<and> \<not> isInvalidSamplerStage b \<longrightarrow> mapSamplerStageToIdx a < kNumStageSamplers
      \<and> (mapSamplerStageToIdx a = mapSamplerStageToIdx b \<longrightarrow> a = b))"
proof -
  have v: "isValidD3drtansformstatetype x \<Longrightarrow> unat x = 2 \<or> unat x = 3 \<or> 16 \<le> unat x \<and> unat x \<le> 23 \<or> 256 \<le> unat x" for x
    by (auto simp: isValidD3drtansformstatetype_def word_le_nat_alt)
  have "isValidD3drtansformstatetype t \<Longrightarrow> isValidD3drtansformstatetype u \<Longrightarrow>
      mapXformStateTypeToIdx t = mapXformStateTypeToIdx u \<Longrightarrow> unat t = unat u"
    using v [of t] v [of u] by (auto simp: mapXformStateTypeToIdx_unat split: if_splits)
  moreover have "\<not> isInvalidSamplerStage a \<Longrightarrow> \<not> isInvalidSamplerStage b \<Longrightarrow>
      mapSamplerStageToIdx a = mapSamplerStageToIdx b \<Longrightarrow> unat a = unat b"
    using mapSamplerStageToIdx_unat [of a] mapSamplerStageToIdx_unat [of b] by (auto split: if_splits)
  ultimately show ?thesis
    using mapXformStateTypeToIdx_bound mapSamplerStageToIdx_bound by (auto simp: word_unat_eq_iff)
qed

theorem state_slots_distinct_witness:
  "mapXformStateTypeToIdx 16 < MaxTransforms \<and> mapXformStateTypeToIdx 16 \<noteq> mapXformStateTypeToIdx 256
   \<and> mapSamplerStageToIdx 260 < kNumStageSamplers \<and> mapSamplerStageToIdx 15 \<noteq> mapSamplerStageToIdx 256"
  using state_slots_distinct [of 16 256 260 260] state_slots_distinct [of 16 256 15 256]
  by (simp add: isValidD3drtansformstatetype_def isInvalidSamplerStage_def)

end
