(* ===== verification/Server_Dispatch.thy ===== *)
theory Server_Dispatch
  imports State_Batch Circular_Buffer
begin

text \<open>
  The device command loop of the server (\<open>ProcessDeviceCommandQueue\<close> of \<open>server/main.cpp\<close>): for each
  command of the device interface, the data it pulls from the channel in order, the Direct3D call it makes
  with them, the table the created object is stored in, and whether an answer is sent.  The Direct3D
  runtime is the parameter \<open>d3d9\<close>: what it answers to a call after a history of calls.  Assertions are
  compiled out, as in a release build.
\<close>

section \<open>Calls, tables and requests\<close>

text \<open>The handle tables; a null pointer is 0, as is a missing entry, which \<open>operator[]\<close> makes a null pointer.\<close>

datatype table = Devices | Resources | Volumes | VertexDeclarations | StateBlocks | VertexShaders
  | PixelShaders | SwapChains | Queries

type_synonym ptr = nat

text \<open>An argument as the handler decodes it: a word, a pointer to data, presentation parameters read from
  data, a handle that is looked up in a table, a handle that is looked up when it is not null, the
  address of a local variable.\<close>

datatype api_arg = W u32 | P "memory option" | Pres "memory option" | H table u32 | HN table u32 | Out

datatype answer = NoAnswer | OptionalAnswer | CreateAnswer | AlwaysAnswer

text \<open>\<open>recv\<close> is the table entry the method is called on, \<open>None\<close> for the Direct3D module; \<open>needs\<close> are handles
  that must resolve for the call to be made; \<open>stores\<close> is where the created object goes.\<close>

record req =
  recv :: "(table \<times> u32) option"
  meth :: string
  args :: "api_arg list"
  needs :: "api_arg list"
  stores :: "(table \<times> u32) option"
  answers :: answer
  releases_present :: bool

definition request :: "(table \<times> u32) option \<Rightarrow> string \<Rightarrow> api_arg list \<Rightarrow> answer \<Rightarrow> req" where
  "request r m as ans = \<lparr>recv = r, meth = m, args = as, needs = [], stores = None, answers = ans, releases_present = False\<rparr>"

type_synonym decoder = "u32 \<Rightarrow> item list \<Rightarrow> (req list \<times> item list) or_error"

text \<open>\<open>PULL\<close>, \<open>PULL_OBJ\<close> and \<open>PULL_DATA\<close>, and an object that is dereferenced as a 32-bit value.\<close>

definition pull :: "(u32 \<Rightarrow> decoder) \<Rightarrow> decoder" where
  "pull k h its = (case its of Word w # r \<Rightarrow> k w h r | _ \<Rightarrow> Inl Desync)"

definition pull_data :: "(memory option \<Rightarrow> decoder) \<Rightarrow> decoder" where
  "pull_data k h its = (case its of Obj b # r \<Rightarrow> k b h r | _ \<Rightarrow> Inl Desync)"

definition pull_deref :: "(u32 \<Rightarrow> decoder) \<Rightarrow> decoder" where
  "pull_deref k = pull_data (\<lambda>b. case b of None \<Rightarrow> (\<lambda>h its. Inl NullDereference) | Some bs \<Rightarrow> k (u32_of_bytes bs))"

definition call :: "req \<Rightarrow> decoder" where
  "call q h its = Inr ([q], its)"

definition nop :: decoder where
  "nop h its = Inr ([], its)"

text \<open>A call on the device of the header's handle, and one whose result is stored.\<close>

definition dev :: "string \<Rightarrow> api_arg list \<Rightarrow> answer \<Rightarrow> decoder" where
  "dev m as ans h = call (request (Some (Devices, h)) m as ans) h"

definition dev_store :: "table \<Rightarrow> u32 \<Rightarrow> string \<Rightarrow> api_arg list \<Rightarrow> answer \<Rightarrow> decoder" where
  "dev_store t hnd m as ans h = call ((request (Some (Devices, h)) m as ans)\<lparr>stores := Some (t, hnd)\<rparr>) h"

definition dev_need :: "api_arg list \<Rightarrow> string \<Rightarrow> api_arg list \<Rightarrow> answer \<Rightarrow> decoder" where
  "dev_need ns m as ans h = call ((request (Some (Devices, h)) m as ans)\<lparr>needs := ns\<rparr>) h"

lemmas decode_defs = pull_def pull_data_def pull_deref_def call_def nop_def dev_def dev_store_def dev_need_def request_def

section \<open>The cases of the switch\<close>

text \<open>Module commands and the \<open>Ex\<close> creation functions.\<close>

definition on_CreateDeviceEx :: decoder where
  "on_CreateDeviceEx = pull (\<lambda>Adapter. pull (\<lambda>DeviceType. pull (\<lambda>hFocusWindow. pull (\<lambda>BehaviorFlags.
    pull_data (\<lambda>pFullscreenDisplayMode. pull_data (\<lambda>raw. \<lambda>h.
    call ((request None ''CreateDeviceEx''
    [W Adapter, W DeviceType, W hFocusWindow, W BehaviorFlags, Pres raw, P pFullscreenDisplayMode, Out] AlwaysAnswer)
    \<lparr>stores := Some (Devices, h)\<rparr>) h))))))"

definition on_CreateDevice :: decoder where
  "on_CreateDevice = pull (\<lambda>Adapter. pull (\<lambda>DeviceType. pull (\<lambda>hFocusWindow. pull (\<lambda>BehaviorFlags.
    pull_data (\<lambda>raw. \<lambda>h.
    call ((request None ''CreateDevice'' [W Adapter, W DeviceType, W hFocusWindow, W BehaviorFlags, Pres raw, Out] AlwaysAnswer)
    \<lparr>stores := Some (Devices, h)\<rparr>) h)))))"

definition dec_create_device :: "(string \<times> decoder) list" where
  "dec_create_device =
   [(''CreateDeviceEx'', on_CreateDeviceEx),
    (''CreateDevice'', on_CreateDevice)]"

definition on_GetDisplayModeEx :: decoder where
  "on_GetDisplayModeEx = pull (\<lambda>iSwapChain. dev ''GetDisplayModeEx'' [W iSwapChain, Out, Out] AlwaysAnswer)"

definition on_CreateRenderTargetEx :: decoder where
  "on_CreateRenderTargetEx = pull (\<lambda>Width. pull (\<lambda>Height. pull (\<lambda>Format. pull (\<lambda>MultiSample. pull (\<lambda>MultisampleQuality.
    pull (\<lambda>Lockable. pull (\<lambda>Usage. pull (\<lambda>pHandle.
    dev_store Resources pHandle ''CreateRenderTargetEx''
    [W Width, W Height, W Format, W MultiSample, W MultisampleQuality, W Lockable, Out, P None, W Usage] CreateAnswer))))))))"

definition on_CreateOffscreenPlainSurfaceEx :: decoder where
  "on_CreateOffscreenPlainSurfaceEx = pull (\<lambda>Width. pull (\<lambda>Height. pull (\<lambda>Format. pull (\<lambda>Pool. pull (\<lambda>Usage. pull (\<lambda>pHandle.
    dev_store Resources pHandle ''CreateOffscreenPlainSurfaceEx'' [W Width, W Height, W Format, W Pool, Out, P None, W Usage] CreateAnswer))))))"

definition on_CreateDepthStencilSurfaceEx :: decoder where
  "on_CreateDepthStencilSurfaceEx = pull (\<lambda>Width. pull (\<lambda>Height. pull (\<lambda>Format. pull (\<lambda>MultiSample. pull (\<lambda>MultisampleQuality.
    pull (\<lambda>Discard. pull (\<lambda>Usage. pull (\<lambda>pHandle.
    dev_store Resources pHandle ''CreateDepthStencilSurfaceEx''
    [W Width, W Height, W Format, W MultiSample, W MultisampleQuality, W Discard, Out, P None, W Usage] CreateAnswer))))))))"

definition dec_ex :: "(string \<times> decoder) list" where
  "dec_ex =
   [(''GetDisplayModeEx'', on_GetDisplayModeEx),
    (''CreateRenderTargetEx'', on_CreateRenderTargetEx),
    (''CreateOffscreenPlainSurfaceEx'', on_CreateOffscreenPlainSurfaceEx),
    (''CreateDepthStencilSurfaceEx'', on_CreateDepthStencilSurfaceEx)]"

text \<open>Links of implicit objects, device queries, cursor, swap chains, reset and present.  \<open>Reset\<close> releases the
  implicit swap chain before the call; that reference count is the runtime's.\<close>

definition on_LinkSwapchain :: decoder where
  "on_LinkSwapchain = pull (\<lambda>pClientSwapchain. dev_store SwapChains pClientSwapchain ''GetSwapChain'' [W 0, Out] NoAnswer)"

definition on_LinkBackBuffer :: decoder where
  "on_LinkBackBuffer = pull (\<lambda>index. pull (\<lambda>pSurfaceHandle.
    dev_store Resources pSurfaceHandle ''GetBackBuffer'' [W 0, W index, W 0, Out] NoAnswer))"

definition on_LinkAutoDepthStencil :: decoder where
  "on_LinkAutoDepthStencil = pull (\<lambda>pSurfaceHandle. dev_store Resources pSurfaceHandle ''GetDepthStencilSurface'' [Out] NoAnswer)"

definition on_TestCooperativeLevel :: decoder where
  "on_TestCooperativeLevel = dev ''TestCooperativeLevel'' [] NoAnswer"

definition on_GetAvailableTextureMem :: decoder where
  "on_GetAvailableTextureMem = dev ''GetAvailableTextureMem'' [] AlwaysAnswer"

definition on_EvictManagedResources :: decoder where
  "on_EvictManagedResources = dev ''EvictManagedResources'' [] OptionalAnswer"

definition on_GetDirect3D :: decoder where
  "on_GetDirect3D = dev ''GetDirect3D'' [Out] NoAnswer"

definition on_GetDeviceCaps :: decoder where
  "on_GetDeviceCaps = dev ''GetDeviceCaps'' [Out] AlwaysAnswer"

definition on_GetDisplayMode :: decoder where
  "on_GetDisplayMode = pull (\<lambda>iSwapChain. dev ''GetDisplayMode'' [W iSwapChain, Out] AlwaysAnswer)"

definition on_SetCursorProperties :: decoder where
  "on_SetCursorProperties = pull (\<lambda>XHotSpot. pull (\<lambda>YHotSpot. pull (\<lambda>pHandle.
    dev ''SetCursorProperties'' [W XHotSpot, W YHotSpot, HN Resources pHandle] OptionalAnswer)))"

definition on_SetCursorPosition :: decoder where
  "on_SetCursorPosition = pull (\<lambda>X. pull (\<lambda>Y. pull (\<lambda>Flags. dev ''SetCursorPosition'' [W X, W Y, W Flags] NoAnswer)))"

definition on_ShowCursor :: decoder where
  "on_ShowCursor = pull (\<lambda>bShow. dev ''ShowCursor'' [W bShow] AlwaysAnswer)"

definition dec_link :: "(string \<times> decoder) list" where
  "dec_link =
   [(''LinkSwapchain'', on_LinkSwapchain),
    (''LinkBackBuffer'', on_LinkBackBuffer),
    (''LinkAutoDepthStencil'', on_LinkAutoDepthStencil),
    (''TestCooperativeLevel'', on_TestCooperativeLevel),
    (''GetAvailableTextureMem'', on_GetAvailableTextureMem),
    (''EvictManagedResources'', on_EvictManagedResources),
    (''GetDirect3D'', on_GetDirect3D),
    (''GetDeviceCaps'', on_GetDeviceCaps),
    (''GetDisplayMode'', on_GetDisplayMode),
    (''SetCursorProperties'', on_SetCursorProperties),
    (''SetCursorPosition'', on_SetCursorPosition),
    (''ShowCursor'', on_ShowCursor)]"

definition on_CreateAdditionalSwapChain :: decoder where
  "on_CreateAdditionalSwapChain = pull (\<lambda>pHandle. pull_data (\<lambda>raw.
    dev_store SwapChains pHandle ''CreateAdditionalSwapChain'' [Pres raw, Out] CreateAnswer))"

definition on_GetSwapChain :: decoder where
  "on_GetSwapChain = pull (\<lambda>iSwapChain. dev ''GetSwapChain'' [W iSwapChain, Out] NoAnswer)"

definition on_GetNumberOfSwapChains :: decoder where
  "on_GetNumberOfSwapChains = pull (\<lambda>orig_cnt. dev ''GetNumberOfSwapChains'' [] NoAnswer)"

definition on_Reset :: decoder where
  "on_Reset = pull_data (\<lambda>raw. dev ''Reset'' [Pres raw] OptionalAnswer)"

definition on_ResetEx :: decoder where
  "on_ResetEx = pull_data (\<lambda>raw. pull_data (\<lambda>pFullscreenDisplayMode.
    dev ''ResetEx'' [Pres raw, P pFullscreenDisplayMode] OptionalAnswer))"

definition on_Present :: decoder where
  "on_Present = pull_data (\<lambda>pSourceRect. pull_data (\<lambda>pDestRect. pull (\<lambda>hDestWindowOverride. pull_data (\<lambda>pDirtyRegion. \<lambda>h.
    call ((request (Some (Devices, h)) ''Present'' [P pSourceRect, P pDestRect, W hDestWindowOverride, P pDirtyRegion] NoAnswer)
    \<lparr>releases_present := True\<rparr>) h))))"

definition on_GetBackBuffer :: decoder where
  "on_GetBackBuffer = pull (\<lambda>iSwapChain. pull (\<lambda>iBackBuffer. pull (\<lambda>pSurfaceHandle.
    dev_store Resources pSurfaceHandle ''GetBackBuffer'' [W iSwapChain, W iBackBuffer, W 0, Out] NoAnswer)))"

definition on_SetDialogBoxMode :: decoder where
  "on_SetDialogBoxMode = pull (\<lambda>bEnableDialogs. dev ''SetDialogBoxMode'' [W bEnableDialogs] OptionalAnswer)"

definition on_SetGammaRamp :: decoder where
  "on_SetGammaRamp = pull (\<lambda>iSwapChain. pull (\<lambda>Flags. pull_data (\<lambda>pRamp.
    dev ''SetGammaRamp'' [W iSwapChain, W Flags, P pRamp] NoAnswer)))"

definition on_GetGammaRamp :: decoder where
  "on_GetGammaRamp = pull (\<lambda>iSwapChain. dev ''GetGammaRamp'' [W iSwapChain, Out] NoAnswer)"

definition dec_swap :: "(string \<times> decoder) list" where
  "dec_swap =
   [(''CreateAdditionalSwapChain'', on_CreateAdditionalSwapChain),
    (''GetSwapChain'', on_GetSwapChain),
    (''GetNumberOfSwapChains'', on_GetNumberOfSwapChains),
    (''Reset'', on_Reset),
    (''ResetEx'', on_ResetEx),
    (''Present'', on_Present),
    (''GetBackBuffer'', on_GetBackBuffer),
    (''SetDialogBoxMode'', on_SetDialogBoxMode),
    (''SetGammaRamp'', on_SetGammaRamp),
    (''GetGammaRamp'', on_GetGammaRamp)]"

text \<open>Creation of textures, buffers and surfaces.\<close>

definition on_CreateTexture :: decoder where
  "on_CreateTexture = pull (\<lambda>Width. pull (\<lambda>Height. pull (\<lambda>Levels. pull (\<lambda>Usage. pull (\<lambda>Format. pull (\<lambda>Pool. pull (\<lambda>pHandle.
    dev_store Resources pHandle ''CreateTexture'' [W Width, W Height, W Levels, W Usage, W Format, W Pool, Out, P None] CreateAnswer)))))))"

definition on_CreateVolumeTexture :: decoder where
  "on_CreateVolumeTexture = pull (\<lambda>Width. pull (\<lambda>Height. pull (\<lambda>Depth. pull (\<lambda>Levels. pull (\<lambda>Usage. pull (\<lambda>Format. pull (\<lambda>Pool. pull (\<lambda>pHandle.
    dev_store Resources pHandle ''CreateVolumeTexture''
    [W Width, W Height, W Depth, W Levels, W Usage, W Format, W Pool, Out, P None] CreateAnswer))))))))"

definition on_CreateCubeTexture :: decoder where
  "on_CreateCubeTexture = pull (\<lambda>EdgeLength. pull (\<lambda>Levels. pull (\<lambda>Usage. pull (\<lambda>Format. pull (\<lambda>Pool. pull (\<lambda>pHandle.
    dev_store Resources pHandle ''CreateCubeTexture'' [W EdgeLength, W Levels, W Usage, W Format, W Pool, Out, P None] CreateAnswer))))))"

definition on_CreateVertexBuffer :: decoder where
  "on_CreateVertexBuffer = pull (\<lambda>Length. pull (\<lambda>Usage. pull (\<lambda>FVF. pull (\<lambda>Pool. pull (\<lambda>pHandle.
    dev_store Resources pHandle ''CreateVertexBuffer'' [W Length, W Usage, W FVF, W Pool, Out, P None] CreateAnswer)))))"

definition on_CreateIndexBuffer :: decoder where
  "on_CreateIndexBuffer = pull (\<lambda>Length. pull (\<lambda>Usage. pull (\<lambda>Format. pull (\<lambda>Pool. pull (\<lambda>pHandle.
    dev_store Resources pHandle ''CreateIndexBuffer'' [W Length, W Usage, W Format, W Pool, Out, P None] CreateAnswer)))))"

definition on_CreateRenderTarget :: decoder where
  "on_CreateRenderTarget = pull (\<lambda>Width. pull (\<lambda>Height. pull (\<lambda>Format. pull (\<lambda>MultiSample. pull (\<lambda>MultisampleQuality. pull (\<lambda>Lockable.
    pull (\<lambda>pHandle. dev_store Resources pHandle ''CreateRenderTarget''
    [W Width, W Height, W Format, W MultiSample, W MultisampleQuality, W Lockable, Out, P None] CreateAnswer)))))))"

definition on_CreateDepthStencilSurface :: decoder where
  "on_CreateDepthStencilSurface = pull (\<lambda>Width. pull (\<lambda>Height. pull (\<lambda>Format. pull (\<lambda>MultiSample. pull (\<lambda>MultisampleQuality. pull (\<lambda>Discard.
    pull (\<lambda>pHandle. dev_store Resources pHandle ''CreateDepthStencilSurface''
    [W Width, W Height, W Format, W MultiSample, W MultisampleQuality, W Discard, Out, P None] CreateAnswer)))))))"

definition dec_create :: "(string \<times> decoder) list" where
  "dec_create =
   [(''CreateTexture'', on_CreateTexture),
    (''CreateVolumeTexture'', on_CreateVolumeTexture),
    (''CreateCubeTexture'', on_CreateCubeTexture),
    (''CreateVertexBuffer'', on_CreateVertexBuffer),
    (''CreateIndexBuffer'', on_CreateIndexBuffer),
    (''CreateRenderTarget'', on_CreateRenderTarget),
    (''CreateDepthStencilSurface'', on_CreateDepthStencilSurface)]"

text \<open>Copies between surfaces and the render targets.  The surface data that two of them return is an answer.\<close>

definition on_UpdateSurface :: decoder where
  "on_UpdateSurface = pull (\<lambda>pSourceHandle. pull_data (\<lambda>pSourceRect. pull (\<lambda>pDestHandle. pull_data (\<lambda>pDestPoint.
    dev_need [H Resources pSourceHandle, H Resources pDestHandle] ''UpdateSurface''
    [H Resources pSourceHandle, P pSourceRect, H Resources pDestHandle, P pDestPoint] OptionalAnswer))))"

definition on_UpdateTexture :: decoder where
  "on_UpdateTexture = pull (\<lambda>pSourceTextureHandle. pull (\<lambda>pDestinationTextureHandle.
    dev_need [H Resources pSourceTextureHandle, H Resources pDestinationTextureHandle] ''UpdateTexture''
    [H Resources pSourceTextureHandle, H Resources pDestinationTextureHandle] OptionalAnswer))"

definition on_GetRenderTargetData :: decoder where
  "on_GetRenderTargetData = pull (\<lambda>pRenderTargetHandle. pull (\<lambda>pDestSurfaceHandle.
    dev ''GetRenderTargetData'' [H Resources pRenderTargetHandle, H Resources pDestSurfaceHandle] AlwaysAnswer))"

definition on_GetFrontBufferData :: decoder where
  "on_GetFrontBufferData = pull (\<lambda>iSwapChain. pull (\<lambda>pDestSurfaceHandle.
    dev ''GetFrontBufferData'' [W iSwapChain, H Resources pDestSurfaceHandle] AlwaysAnswer))"

definition on_StretchRect :: decoder where
  "on_StretchRect = pull (\<lambda>pSourceHandle. pull_data (\<lambda>pSourceRect. pull (\<lambda>pDestHandle. pull_data (\<lambda>pDestRect. pull (\<lambda>Filter.
    dev ''StretchRect'' [H Resources pSourceHandle, P pSourceRect, H Resources pDestHandle, P pDestRect, W Filter] OptionalAnswer)))))"

definition on_ColorFill :: decoder where
  "on_ColorFill = pull (\<lambda>pHandle. pull_data (\<lambda>pRect. pull_deref (\<lambda>color.
    dev ''ColorFill'' [H Resources pHandle, P pRect, W color] OptionalAnswer)))"

definition on_CreateOffscreenPlainSurface :: decoder where
  "on_CreateOffscreenPlainSurface = pull (\<lambda>Width. pull (\<lambda>Height. pull (\<lambda>Format. pull (\<lambda>Pool. pull (\<lambda>pHandle.
    dev_store Resources pHandle ''CreateOffscreenPlainSurface'' [W Width, W Height, W Format, W Pool, Out, P None] CreateAnswer)))))"

definition on_SetRenderTarget :: decoder where
  "on_SetRenderTarget = pull (\<lambda>RenderTargetIndex. pull (\<lambda>pHandle.
    dev_need (if pHandle \<noteq> 0 then [HN Resources pHandle] else []) ''SetRenderTarget''
    [W RenderTargetIndex, HN Resources pHandle] OptionalAnswer))"

definition on_GetRenderTarget :: decoder where
  "on_GetRenderTarget = pull (\<lambda>RenderTargetIndex. pull (\<lambda>pSurfaceHandle.
    dev_store Resources pSurfaceHandle ''GetRenderTarget'' [W RenderTargetIndex, Out] OptionalAnswer))"

definition dec_surface :: "(string \<times> decoder) list" where
  "dec_surface =
   [(''UpdateSurface'', on_UpdateSurface),
    (''UpdateTexture'', on_UpdateTexture),
    (''GetRenderTargetData'', on_GetRenderTargetData),
    (''GetFrontBufferData'', on_GetFrontBufferData),
    (''StretchRect'', on_StretchRect),
    (''ColorFill'', on_ColorFill),
    (''CreateOffscreenPlainSurface'', on_CreateOffscreenPlainSurface),
    (''SetRenderTarget'', on_SetRenderTarget),
    (''GetRenderTarget'', on_GetRenderTarget)]"

definition on_SetDepthStencilSurface :: decoder where
  "on_SetDepthStencilSurface = pull (\<lambda>pHandle.
    dev_need (if pHandle \<noteq> 0 then [HN Resources pHandle] else []) ''SetDepthStencilSurface'' [HN Resources pHandle] OptionalAnswer)"

definition on_GetDepthStencilSurface :: decoder where
  "on_GetDepthStencilSurface = pull (\<lambda>pSurfaceHandle.
    dev_store Resources pSurfaceHandle ''GetDepthStencilSurface'' [Out] OptionalAnswer)"

definition on_BeginScene :: decoder where
  "on_BeginScene = dev ''BeginScene'' [] OptionalAnswer"

definition on_EndScene :: decoder where
  "on_EndScene = dev ''EndScene'' [] OptionalAnswer"

definition on_Clear :: decoder where
  "on_Clear = pull (\<lambda>Count. pull (\<lambda>Flags. pull_deref (\<lambda>Z. pull (\<lambda>Stencil. pull_data (\<lambda>pRects. pull_deref (\<lambda>Color.
    dev ''Clear'' [W Count, P pRects, W Flags, W Color, W Z, W Stencil] OptionalAnswer))))))"

definition dec_frame :: "(string \<times> decoder) list" where
  "dec_frame =
   [(''SetDepthStencilSurface'', on_SetDepthStencilSurface),
    (''GetDepthStencilSurface'', on_GetDepthStencilSurface),
    (''BeginScene'', on_BeginScene),
    (''EndScene'', on_EndScene),
    (''Clear'', on_Clear)]"

text \<open>State setters.\<close>

definition on_SetTransform :: decoder where
  "on_SetTransform = pull (\<lambda>State. pull_data (\<lambda>pMatrix. dev ''SetTransform'' [W State, P pMatrix] OptionalAnswer))"

definition on_MultiplyTransform :: decoder where
  "on_MultiplyTransform = nop"

definition on_SetViewport :: decoder where
  "on_SetViewport = pull_data (\<lambda>pViewport. dev ''SetViewport'' [P pViewport] OptionalAnswer)"

definition on_SetMaterial :: decoder where
  "on_SetMaterial = pull_data (\<lambda>pMaterial. dev ''SetMaterial'' [P pMaterial] OptionalAnswer)"

definition on_SetLight :: decoder where
  "on_SetLight = pull (\<lambda>Index. pull_data (\<lambda>pLight. dev ''SetLight'' [W Index, P pLight] OptionalAnswer))"

definition on_LightEnable :: decoder where
  "on_LightEnable = pull (\<lambda>LightIndex. pull (\<lambda>bEnable. dev ''LightEnable'' [W LightIndex, W bEnable] OptionalAnswer))"

definition on_SetClipPlane :: decoder where
  "on_SetClipPlane = pull (\<lambda>Index. pull_data (\<lambda>pPlane. dev ''SetClipPlane'' [W Index, P pPlane] OptionalAnswer))"

definition dec_state1 :: "(string \<times> decoder) list" where
  "dec_state1 =
   [(''SetTransform'', on_SetTransform),
    (''MultiplyTransform'', on_MultiplyTransform),
    (''SetViewport'', on_SetViewport),
    (''SetMaterial'', on_SetMaterial),
    (''SetLight'', on_SetLight),
    (''LightEnable'', on_LightEnable),
    (''SetClipPlane'', on_SetClipPlane)]"

text \<open>The state batch: its payload is read as 32-bit words, and each record gives a call.\<close>

fun words_of_bytes :: "memory \<Rightarrow> u32 list" where
  "words_of_bytes (a # b # c # d # r) = u32_of_bytes [a, b, c, d] # words_of_bytes r"
| "words_of_bytes _ = []"

definition handle_arg :: "table \<Rightarrow> u32 option \<Rightarrow> api_arg" where
  "handle_arg t x = HN t (handle_word x)"

primrec call_req :: "u32 \<Rightarrow> d3d_call \<Rightarrow> req" where
  "call_req h (SetRenderState a b) = request (Some (Devices, h)) ''SetRenderState'' [W a, W b] NoAnswer"
| "call_req h (SetSamplerState a b c) = request (Some (Devices, h)) ''SetSamplerState'' [W a, W b, W c] NoAnswer"
| "call_req h (SetTextureStageState a b c) = request (Some (Devices, h)) ''SetTextureStageState'' [W a, W b, W c] NoAnswer"
| "call_req h (SetTexture a t) = request (Some (Devices, h)) ''SetTexture'' [W a, handle_arg Resources t] NoAnswer"
| "call_req h (SetVertexDeclaration d) = request (Some (Devices, h)) ''SetVertexDeclaration'' [handle_arg VertexDeclarations d] NoAnswer"
| "call_req h (SetVertexShader x) = request (Some (Devices, h)) ''SetVertexShader'' [handle_arg VertexShaders x] NoAnswer"
| "call_req h (SetPixelShader x) = request (Some (Devices, h)) ''SetPixelShader'' [handle_arg PixelShaders x] NoAnswer"
| "call_req h (SetIndices x) = request (Some (Devices, h)) ''SetIndices'' [handle_arg Resources x] NoAnswer"
| "call_req h (SetStreamSource a x off stride) =
     request (Some (Devices, h)) ''SetStreamSource'' [W a, handle_arg Resources x, W off, W stride] NoAnswer"
| "call_req h (SetStreamSourceFreq a b) = request (Some (Devices, h)) ''SetStreamSourceFreq'' [W a, W b] NoAnswer"
| "call_req h (SetVertexShaderConstantF a fs n) =
     request (Some (Devices, h)) ''SetVertexShaderConstantF'' [W a, P (Some (concat (map u32_bytes fs))), W n] NoAnswer"
| "call_req h (SetPixelShaderConstantF a fs n) =
     request (Some (Devices, h)) ''SetPixelShaderConstantF'' [W a, P (Some (concat (map u32_bytes fs))), W n] NoAnswer"

definition on_StateBatch :: decoder where
  "on_StateBatch = pull_data (\<lambda>p h its.
    bindE (replay (case p of None \<Rightarrow> [] | Some bs \<Rightarrow> words_of_bytes bs)) (\<lambda>cs. Inr (map (call_req h) cs, its)))"

definition dec_batch :: "(string \<times> decoder) list" where
  "dec_batch =
   [(''StateBatch'', on_StateBatch)]"

definition on_SetRenderState :: decoder where
  "on_SetRenderState = pull (\<lambda>State. pull (\<lambda>Value. dev ''SetRenderState'' [W State, W Value] OptionalAnswer))"

definition on_CreateStateBlock :: decoder where
  "on_CreateStateBlock = pull (\<lambda>Type. pull (\<lambda>pHandle. dev_store StateBlocks pHandle ''CreateStateBlock'' [W Type, Out] CreateAnswer))"

definition on_BeginStateBlock :: decoder where
  "on_BeginStateBlock = dev ''BeginStateBlock'' [] OptionalAnswer"

definition on_EndStateBlock :: decoder where
  "on_EndStateBlock = pull (\<lambda>pHandle. dev_store StateBlocks pHandle ''EndStateBlock'' [Out] OptionalAnswer)"

definition on_SetTexture :: decoder where
  "on_SetTexture = pull (\<lambda>Stage. pull (\<lambda>pHandle. dev ''SetTexture'' [W Stage, HN Resources pHandle] OptionalAnswer))"

definition on_SetTextureStageState :: decoder where
  "on_SetTextureStageState = pull (\<lambda>Stage. pull (\<lambda>Type. pull (\<lambda>Value.
    dev ''SetTextureStageState'' [W Stage, W Type, W Value] OptionalAnswer)))"

definition on_SetSamplerState :: decoder where
  "on_SetSamplerState = pull (\<lambda>Sampler. pull (\<lambda>Type. pull (\<lambda>Value.
    dev ''SetSamplerState'' [W Sampler, W Type, W Value] OptionalAnswer)))"

definition on_SetScissorRect :: decoder where
  "on_SetScissorRect = pull_data (\<lambda>pRect. dev ''SetScissorRect'' [P pRect] OptionalAnswer)"

definition on_SetSoftwareVertexProcessing :: decoder where
  "on_SetSoftwareVertexProcessing = pull (\<lambda>bSoftware. dev ''SetSoftwareVertexProcessing'' [W bSoftware] AlwaysAnswer)"

definition on_SetNPatchMode :: decoder where
  "on_SetNPatchMode = pull_deref (\<lambda>nSegments. dev ''SetNPatchMode'' [W nSegments] OptionalAnswer)"

definition dec_state2 :: "(string \<times> decoder) list" where
  "dec_state2 =
   [(''SetRenderState'', on_SetRenderState),
    (''CreateStateBlock'', on_CreateStateBlock),
    (''BeginStateBlock'', on_BeginStateBlock),
    (''EndStateBlock'', on_EndStateBlock),
    (''SetTexture'', on_SetTexture),
    (''SetTextureStageState'', on_SetTextureStageState),
    (''SetSamplerState'', on_SetSamplerState),
    (''SetScissorRect'', on_SetScissorRect),
    (''SetSoftwareVertexProcessing'', on_SetSoftwareVertexProcessing),
    (''SetNPatchMode'', on_SetNPatchMode)]"

text \<open>Draw calls, declarations, shaders and their constants, streams.\<close>

definition on_DrawPrimitive :: decoder where
  "on_DrawPrimitive = pull (\<lambda>PrimitiveType. pull (\<lambda>StartVertex. pull (\<lambda>PrimitiveCount.
    dev ''DrawPrimitive'' [W PrimitiveType, W StartVertex, W PrimitiveCount] OptionalAnswer)))"

definition on_DrawIndexedPrimitive :: decoder where
  "on_DrawIndexedPrimitive = pull (\<lambda>Type. pull (\<lambda>BaseVertexIndex. pull (\<lambda>MinVertexIndex. pull (\<lambda>NumVertices. pull (\<lambda>startIndex.
    pull (\<lambda>primCount. dev ''DrawIndexedPrimitive''
    [W Type, W BaseVertexIndex, W MinVertexIndex, W NumVertices, W startIndex, W primCount] OptionalAnswer))))))"

definition on_DrawPrimitiveUP :: decoder where
  "on_DrawPrimitiveUP = pull (\<lambda>PrimitiveType. pull (\<lambda>PrimitiveCount. pull_data (\<lambda>pVertexStreamZeroData. pull (\<lambda>VertexStreamZeroStride.
    dev ''DrawPrimitiveUP'' [W PrimitiveType, W PrimitiveCount, P pVertexStreamZeroData, W VertexStreamZeroStride] OptionalAnswer))))"

definition on_DrawIndexedPrimitiveUP :: decoder where
  "on_DrawIndexedPrimitiveUP = pull (\<lambda>PrimitiveType. pull (\<lambda>MinVertexIndex. pull (\<lambda>NumVertices. pull (\<lambda>PrimitiveCount.
    pull (\<lambda>IndexDataFormat. pull (\<lambda>VertexStreamZeroStride. pull_data (\<lambda>pIndexData. pull_data (\<lambda>pVertexStreamZeroData.
    dev ''DrawIndexedPrimitiveUP'' [W PrimitiveType, W MinVertexIndex, W NumVertices, W PrimitiveCount, P pIndexData,
    W IndexDataFormat, P pVertexStreamZeroData, W VertexStreamZeroStride] OptionalAnswer))))))))"

definition on_ProcessVertices :: decoder where
  "on_ProcessVertices = pull (\<lambda>SrcStartIndex. pull (\<lambda>DestIndex. pull (\<lambda>VertexCount. pull (\<lambda>pVertexBufferHandle. pull (\<lambda>pVertexDeclHandle.
    pull (\<lambda>Flags. dev ''ProcessVertices'' [W SrcStartIndex, W DestIndex, W VertexCount, H Resources pVertexBufferHandle,
    H VertexDeclarations pVertexDeclHandle, W Flags] OptionalAnswer))))))"

definition on_CreateVertexDeclaration :: decoder where
  "on_CreateVertexDeclaration = pull (\<lambda>numOfElements. pull_data (\<lambda>pVertexElements. pull (\<lambda>pHandle.
    dev_store VertexDeclarations pHandle ''CreateVertexDeclaration'' [P pVertexElements, Out] CreateAnswer)))"

definition on_SetVertexDeclaration :: decoder where
  "on_SetVertexDeclaration = pull (\<lambda>pHandle. dev ''SetVertexDeclaration'' [HN VertexDeclarations pHandle] OptionalAnswer)"

definition on_SetFVF :: decoder where
  "on_SetFVF = pull (\<lambda>FVF. dev ''SetFVF'' [W FVF] OptionalAnswer)"

definition dec_draw :: "(string \<times> decoder) list" where
  "dec_draw =
   [(''DrawPrimitive'', on_DrawPrimitive),
    (''DrawIndexedPrimitive'', on_DrawIndexedPrimitive),
    (''DrawPrimitiveUP'', on_DrawPrimitiveUP),
    (''DrawIndexedPrimitiveUP'', on_DrawIndexedPrimitiveUP),
    (''ProcessVertices'', on_ProcessVertices),
    (''CreateVertexDeclaration'', on_CreateVertexDeclaration),
    (''SetVertexDeclaration'', on_SetVertexDeclaration),
    (''SetFVF'', on_SetFVF)]"

definition on_CreateVertexShader :: decoder where
  "on_CreateVertexShader = pull (\<lambda>pHandle. pull (\<lambda>dataSize. pull_data (\<lambda>pFunction.
    dev_store VertexShaders pHandle ''CreateVertexShader'' [P pFunction, Out] CreateAnswer)))"

definition on_SetVertexShader :: decoder where
  "on_SetVertexShader = pull (\<lambda>pHandle. dev ''SetVertexShader'' [HN VertexShaders pHandle] OptionalAnswer)"

definition on_SetVertexShaderConstantF :: decoder where
  "on_SetVertexShaderConstantF = pull (\<lambda>StartRegister. pull (\<lambda>Count. pull_data (\<lambda>pConstantData.
    dev ''SetVertexShaderConstantF'' [W StartRegister, P pConstantData, W Count] OptionalAnswer)))"

definition on_SetVertexShaderConstantI :: decoder where
  "on_SetVertexShaderConstantI = pull (\<lambda>StartRegister. pull (\<lambda>Count. pull_data (\<lambda>pConstantData.
    dev ''SetVertexShaderConstantI'' [W StartRegister, P pConstantData, W Count] OptionalAnswer)))"

definition on_SetVertexShaderConstantB :: decoder where
  "on_SetVertexShaderConstantB = pull (\<lambda>StartRegister. pull (\<lambda>Count. pull_data (\<lambda>pConstantData.
    dev ''SetVertexShaderConstantB'' [W StartRegister, P pConstantData, W Count] OptionalAnswer)))"

definition on_SetStreamSource :: decoder where
  "on_SetStreamSource = pull (\<lambda>StreamNumber. pull (\<lambda>pHandle. pull (\<lambda>OffsetInBytes. pull (\<lambda>Stride.
    dev ''SetStreamSource'' [W StreamNumber, HN Resources pHandle, W OffsetInBytes, W Stride] OptionalAnswer))))"

definition on_SetStreamSourceFreq :: decoder where
  "on_SetStreamSourceFreq = pull (\<lambda>StreamNumber. pull (\<lambda>Divider. dev ''SetStreamSourceFreq'' [W StreamNumber, W Divider] OptionalAnswer))"

definition on_SetIndices :: decoder where
  "on_SetIndices = pull (\<lambda>pHandle. dev ''SetIndices'' [HN Resources pHandle] OptionalAnswer)"

definition dec_vs :: "(string \<times> decoder) list" where
  "dec_vs =
   [(''CreateVertexShader'', on_CreateVertexShader),
    (''SetVertexShader'', on_SetVertexShader),
    (''SetVertexShaderConstantF'', on_SetVertexShaderConstantF),
    (''SetVertexShaderConstantI'', on_SetVertexShaderConstantI),
    (''SetVertexShaderConstantB'', on_SetVertexShaderConstantB),
    (''SetStreamSource'', on_SetStreamSource),
    (''SetStreamSourceFreq'', on_SetStreamSourceFreq),
    (''SetIndices'', on_SetIndices)]"

definition on_CreatePixelShader :: decoder where
  "on_CreatePixelShader = pull (\<lambda>pHandle. pull (\<lambda>dataSize. pull_data (\<lambda>pFunction.
    dev_store PixelShaders pHandle ''CreatePixelShader'' [P pFunction, Out] CreateAnswer)))"

definition on_SetPixelShader :: decoder where
  "on_SetPixelShader = pull (\<lambda>pHandle. dev ''SetPixelShader'' [HN PixelShaders pHandle] OptionalAnswer)"

definition on_SetPixelShaderConstantF :: decoder where
  "on_SetPixelShaderConstantF = pull (\<lambda>StartRegister. pull (\<lambda>Count. pull_data (\<lambda>pConstantData.
    dev ''SetPixelShaderConstantF'' [W StartRegister, P pConstantData, W Count] OptionalAnswer)))"

definition on_SetPixelShaderConstantI :: decoder where
  "on_SetPixelShaderConstantI = pull (\<lambda>StartRegister. pull (\<lambda>Count. pull_data (\<lambda>pConstantData.
    dev ''SetPixelShaderConstantI'' [W StartRegister, P pConstantData, W Count] OptionalAnswer)))"

definition on_SetPixelShaderConstantB :: decoder where
  "on_SetPixelShaderConstantB = pull (\<lambda>StartRegister. pull (\<lambda>Count. pull_data (\<lambda>pConstantData.
    dev ''SetPixelShaderConstantB'' [W StartRegister, P pConstantData, W Count] OptionalAnswer)))"

definition on_WaitForVBlank :: decoder where
  "on_WaitForVBlank = pull (\<lambda>ISwapChain. dev ''WaitForVBlank'' [W ISwapChain] NoAnswer)"

definition on_SetConvolutionMonoKernel :: decoder where
  "on_SetConvolutionMonoKernel = pull (\<lambda>WIDTH. pull (\<lambda>HEIGHT. pull_data (\<lambda>pRows. pull_data (\<lambda>pColumns.
    dev ''SetConvolutionMonoKernel'' [W WIDTH, W HEIGHT, P pRows, P pColumns] OptionalAnswer))))"

definition on_ComposeRects :: decoder where
  "on_ComposeRects = pull (\<lambda>pSrcSurface. pull (\<lambda>pDestSurface. pull (\<lambda>pSrcRect. pull (\<lambda>pDestRect. pull (\<lambda>NumRects. pull (\<lambda>Operation.
    pull (\<lambda>Xoffset. pull (\<lambda>Yoffset. dev ''ComposeRects'' [H Resources pSrcSurface, H Resources pDestSurface, H Resources pSrcRect,
    W NumRects, H Resources pDestRect, W Operation, W Xoffset, W Yoffset] OptionalAnswer))))))))"

definition on_CheckDeviceState :: decoder where
  "on_CheckDeviceState = pull (\<lambda>hDestinationWindow. dev ''CheckDeviceState'' [W hDestinationWindow] AlwaysAnswer)"

definition on_CreateQuery :: decoder where
  "on_CreateQuery = pull (\<lambda>Type. pull (\<lambda>pHandle. dev_store Queries pHandle ''CreateQuery'' [W Type, Out] NoAnswer))"

definition dec_ps :: "(string \<times> decoder) list" where
  "dec_ps =
   [(''CreatePixelShader'', on_CreatePixelShader),
    (''SetPixelShader'', on_SetPixelShader),
    (''SetPixelShaderConstantF'', on_SetPixelShaderConstantF),
    (''SetPixelShaderConstantI'', on_SetPixelShaderConstantI),
    (''SetPixelShaderConstantB'', on_SetPixelShaderConstantB),
    (''WaitForVBlank'', on_WaitForVBlank),
    (''SetConvolutionMonoKernel'', on_SetConvolutionMonoKernel),
    (''ComposeRects'', on_ComposeRects),
    (''CheckDeviceState'', on_CheckDeviceState),
    (''CreateQuery'', on_CreateQuery)]"

lemmas on_defs = on_CreateDeviceEx_def on_CreateDevice_def on_GetDisplayModeEx_def on_CreateRenderTargetEx_def on_CreateOffscreenPlainSurfaceEx_def on_CreateDepthStencilSurfaceEx_def
  on_LinkSwapchain_def on_LinkBackBuffer_def on_LinkAutoDepthStencil_def on_TestCooperativeLevel_def on_GetAvailableTextureMem_def on_EvictManagedResources_def
  on_GetDirect3D_def on_GetDeviceCaps_def on_GetDisplayMode_def on_SetCursorProperties_def on_SetCursorPosition_def on_ShowCursor_def
  on_CreateAdditionalSwapChain_def on_GetSwapChain_def on_GetNumberOfSwapChains_def on_Reset_def on_ResetEx_def on_Present_def
  on_GetBackBuffer_def on_SetDialogBoxMode_def on_SetGammaRamp_def on_GetGammaRamp_def on_CreateTexture_def on_CreateVolumeTexture_def
  on_CreateCubeTexture_def on_CreateVertexBuffer_def on_CreateIndexBuffer_def on_CreateRenderTarget_def on_CreateDepthStencilSurface_def on_UpdateSurface_def
  on_UpdateTexture_def on_GetRenderTargetData_def on_GetFrontBufferData_def on_StretchRect_def on_ColorFill_def on_CreateOffscreenPlainSurface_def
  on_SetRenderTarget_def on_GetRenderTarget_def on_SetDepthStencilSurface_def on_GetDepthStencilSurface_def on_BeginScene_def on_EndScene_def
  on_Clear_def on_SetTransform_def on_MultiplyTransform_def on_SetViewport_def on_SetMaterial_def on_SetLight_def
  on_LightEnable_def on_SetClipPlane_def on_StateBatch_def on_SetRenderState_def on_CreateStateBlock_def on_BeginStateBlock_def
  on_EndStateBlock_def on_SetTexture_def on_SetTextureStageState_def on_SetSamplerState_def on_SetScissorRect_def on_SetSoftwareVertexProcessing_def
  on_SetNPatchMode_def on_DrawPrimitive_def on_DrawIndexedPrimitive_def on_DrawPrimitiveUP_def on_DrawIndexedPrimitiveUP_def on_ProcessVertices_def
  on_CreateVertexDeclaration_def on_SetVertexDeclaration_def on_SetFVF_def on_CreateVertexShader_def on_SetVertexShader_def on_SetVertexShaderConstantF_def
  on_SetVertexShaderConstantI_def on_SetVertexShaderConstantB_def on_SetStreamSource_def on_SetStreamSourceFreq_def on_SetIndices_def on_CreatePixelShader_def
  on_SetPixelShader_def on_SetPixelShaderConstantF_def on_SetPixelShaderConstantI_def on_SetPixelShaderConstantB_def on_WaitForVBlank_def on_SetConvolutionMonoKernel_def
  on_ComposeRects_def on_CheckDeviceState_def on_CreateQuery_def

section \<open>The switch\<close>

definition device_cases :: "(string \<times> decoder) list" where
  "device_cases = dec_create_device @ dec_ex @ dec_link @ dec_swap @ dec_create @ dec_surface @ dec_frame
     @ dec_state1 @ dec_batch @ dec_state2 @ dec_draw @ dec_vs @ dec_ps"

definition dispatch :: "string \<Rightarrow> decoder" where
  "dispatch n = (case map_of device_cases n of Some k \<Rightarrow> k | None \<Rightarrow> nop)"

type_synonym wire = "string \<times> item list"

text \<open>One message: the data pushed with a command are pulled by its handler, all of them.\<close>

definition serve_wire :: "u32 \<Rightarrow> wire \<Rightarrow> (req list) or_error" where
  "serve_wire h w = bindE (dispatch (fst w) h (map received (snd w)))
     (\<lambda>(qs, rest). if rest = [] then Inr qs else Inl Desync)"

fun serve_wires :: "u32 \<Rightarrow> wire list \<Rightarrow> (req list) or_error" where
  "serve_wires h [] = Inr []"
| "serve_wires h (w # ws) = bindE (serve_wire h w) (\<lambda>qs. bindE (serve_wires h ws) (\<lambda>rs. Inr (qs @ rs)))"


lemmas case_lists = device_cases_def dec_create_device_def dec_ex_def dec_link_def dec_swap_def dec_create_def dec_surface_def
  dec_frame_def dec_state1_def dec_batch_def dec_state2_def dec_draw_def dec_vs_def dec_ps_def

lemma dispatch_setters:
  "dispatch ''SetTransform'' = on_SetTransform"
  "dispatch ''SetViewport'' = on_SetViewport"
  "dispatch ''SetMaterial'' = on_SetMaterial"
  "dispatch ''SetLight'' = on_SetLight"
  "dispatch ''LightEnable'' = on_LightEnable"
  "dispatch ''SetClipPlane'' = on_SetClipPlane"
  "dispatch ''SetScissorRect'' = on_SetScissorRect"
  "dispatch ''SetRenderState'' = on_SetRenderState"
  "dispatch ''SetTextureStageState'' = on_SetTextureStageState"
  "dispatch ''SetSamplerState'' = on_SetSamplerState"
  "dispatch ''SetTexture'' = on_SetTexture"
  "dispatch ''SetVertexDeclaration'' = on_SetVertexDeclaration"
  "dispatch ''SetVertexShader'' = on_SetVertexShader"
  "dispatch ''SetPixelShader'' = on_SetPixelShader"
  "dispatch ''SetIndices'' = on_SetIndices"
  "dispatch ''SetStreamSource'' = on_SetStreamSource"
  "dispatch ''SetStreamSourceFreq'' = on_SetStreamSourceFreq"
  "dispatch ''StateBatch'' = on_StateBatch"
  by (simp_all add: dispatch_def case_lists)

end
