(* ===== verification/Setter_Refinement.thy ===== *)
theory Setter_Refinement
  imports Device_State Server_Dispatch
begin

text \<open>
  The path of a state setter from the application to the server's device: the client's setters with
  redundant-call elimination (\<open>Device_State\<close>), the state batch and its flush by the constructor of every other
  command (\<open>util_bridgecommand.cpp\<close>), the server's switch (\<open>Server_Dispatch\<close>), and a device that keeps what it is
  told.  The properties say that the server's device ends in the state that the application's calls
  would have given it directly, whatever was eliminated or batched.
\<close>

section \<open>Application calls\<close>

datatype setter =
    A_SetTransform u32 "memory option" | A_SetViewport "memory option" | A_SetMaterial "memory option"
  | A_SetLight u32 "memory option" | A_LightEnable u32 u32 | A_SetClipPlane u32 "memory option"
  | A_SetScissorRect "memory option" | A_SetRenderState u32 u32 | A_SetTextureStageState u32 u32 u32
  | A_SetSamplerState u32 u32 u32 | A_SetTexture u32 "(u32 \<times> u32) option" | A_SetVertexDeclaration u32
  | A_SetVertexShader u32 | A_SetPixelShader u32 | A_SetIndices u32 | A_SetStreamSource u32 u32 u32 u32
  | A_SetStreamSourceFreq u32 u32

primrec run_setter :: "HRESULT \<Rightarrow> setter \<Rightarrow> device \<Rightarrow> dev_result" where
  "run_setter resp (A_SetTransform t m) = dev_SetTransform resp t m"
| "run_setter resp (A_SetViewport v) = dev_SetViewport resp v"
| "run_setter resp (A_SetMaterial m) = dev_SetMaterial resp m"
| "run_setter resp (A_SetLight i l) = dev_SetLight resp i l"
| "run_setter resp (A_LightEnable i b) = dev_LightEnable resp i b"
| "run_setter resp (A_SetClipPlane i p) = dev_SetClipPlane resp i p"
| "run_setter resp (A_SetScissorRect r) = dev_SetScissorRect resp r"
| "run_setter resp (A_SetRenderState s v) = dev_SetRenderState resp s v"
| "run_setter resp (A_SetTextureStageState s t v) = dev_SetTextureStageState resp s t v"
| "run_setter resp (A_SetSamplerState s t v) = dev_SetSamplerState resp s t v"
| "run_setter resp (A_SetTexture s t) = dev_SetTexture resp s t"
| "run_setter resp (A_SetVertexDeclaration i) = dev_SetVertexDeclaration resp i"
| "run_setter resp (A_SetVertexShader i) = dev_SetVertexShader resp i"
| "run_setter resp (A_SetPixelShader i) = dev_SetPixelShader resp i"
| "run_setter resp (A_SetIndices i) = dev_SetIndices resp i"
| "run_setter resp (A_SetStreamSource n i off stride) = dev_SetStreamSource resp n i off stride"
| "run_setter resp (A_SetStreamSourceFreq n v) = dev_SetStreamSourceFreq resp n v"

fun run_setters :: "(HRESULT \<times> setter) list \<Rightarrow> device \<Rightarrow> (device \<times> dev_msg list) or_error" where
  "run_setters [] d = Inr (d, [])"
| "run_setters ((resp, a) # as) d = bindE (run_setter resp a d) (\<lambda>(hr, d1, ms).
     bindE (run_setters as d1) (\<lambda>(d2, ns). Inr (d2, ms @ ns)))"

section \<open>The client's outgoing messages\<close>

definition batch_wire :: "u32 list \<Rightarrow> wire" where
  "batch_wire ws = (''StateBatch'', [Obj (Some (concat (map u32_bytes ws)))])"

text \<open>A batched setter goes to the buffer; the constructor of any other command flushes a pending batch first.\<close>

primrec emit :: "dev_msg \<Rightarrow> batch \<Rightarrow> (batch \<times> wire list) or_error" where
  "emit (Batched c) b = bindE (batch_call c b) (\<lambda>(b1, ps). Inr (b1, map batch_wire ps))"
| "emit (Sent n its) b = (if g_stateBatchPending b
     then (let (b1, ps) = flushStateBatch b in Inr (b1, map batch_wire ps @ [(n, its)]))
     else Inr (b, [(n, its)]))"

fun emit_all :: "dev_msg list \<Rightarrow> batch \<Rightarrow> (batch \<times> wire list) or_error" where
  "emit_all [] b = Inr (b, [])"
| "emit_all (m # ms) b = bindE (emit m b) (\<lambda>(b1, ws). bindE (emit_all ms b1) (\<lambda>(b2, vs). Inr (b2, ws @ vs)))"

section \<open>The server's device\<close>

text \<open>A device that keeps the state it is given; textures and buffers by the client's handles.\<close>

definition d3d_set :: "string \<Rightarrow> api_arg list \<Rightarrow> dev_state \<Rightarrow> dev_state" where
  "d3d_set m as s =
    (if m = ''SetTransform'' then (case as of [W t, P (Some x)] \<Rightarrow> s\<lparr>transforms := (transforms s)[mapXformStateTypeToIdx t := x]\<rparr> | _ \<Rightarrow> s)
     else if m = ''SetViewport'' then (case as of [P (Some x)] \<Rightarrow> s\<lparr>viewport := x\<rparr> | _ \<Rightarrow> s)
     else if m = ''SetMaterial'' then (case as of [P (Some x)] \<Rightarrow> s\<lparr>material := x\<rparr> | _ \<Rightarrow> s)
     else if m = ''SetLight'' then (case as of [W i, P (Some x)] \<Rightarrow> s\<lparr>lights := (lights s)(i := x)\<rparr> | _ \<Rightarrow> s)
     else if m = ''LightEnable'' then (case as of [W i, W b] \<Rightarrow> s\<lparr>bLightEnables := (bLightEnables s)(i := b \<noteq> 0)\<rparr> | _ \<Rightarrow> s)
     else if m = ''SetClipPlane'' then (case as of [W i, P (Some x)] \<Rightarrow> s\<lparr>clipPlanes := (clipPlanes s)[unat i := x]\<rparr> | _ \<Rightarrow> s)
     else if m = ''SetScissorRect'' then (case as of [P (Some x)] \<Rightarrow> s\<lparr>scissorRect := x\<rparr> | _ \<Rightarrow> s)
     else if m = ''SetRenderState'' then (case as of [W i, W v] \<Rightarrow> s\<lparr>renderStates := (renderStates s)[unat i := v]\<rparr> | _ \<Rightarrow> s)
     else if m = ''SetTextureStageState'' then (case as of [W i, W t, W v] \<Rightarrow>
       s\<lparr>textureStageStates := upd2 (mapSamplerStageToIdx i) (TexStageStateTypeToIdx t) v (textureStageStates s)\<rparr> | _ \<Rightarrow> s)
     else if m = ''SetSamplerState'' then (case as of [W i, W t, W v] \<Rightarrow>
       s\<lparr>samplerStates := upd2 (mapSamplerStageToIdx i) (samplerTypeIdx t) v (samplerStates s)\<rparr> | _ \<Rightarrow> s)
     else if m = ''SetTexture'' then (case as of [W i, HN Resources x] \<Rightarrow> s\<lparr>textures := (textures s)[mapSamplerStageToIdx i := (x, 0)]\<rparr> | _ \<Rightarrow> s)
     else if m = ''SetVertexDeclaration'' then (case as of [HN VertexDeclarations x] \<Rightarrow> s\<lparr>vertexDecl := x\<rparr> | _ \<Rightarrow> s)
     else if m = ''SetVertexShader'' then (case as of [HN VertexShaders x] \<Rightarrow> s\<lparr>vertexShader := x\<rparr> | _ \<Rightarrow> s)
     else if m = ''SetPixelShader'' then (case as of [HN PixelShaders x] \<Rightarrow> s\<lparr>pixelShader := x\<rparr> | _ \<Rightarrow> s)
     else if m = ''SetIndices'' then (case as of [HN Resources x] \<Rightarrow> s\<lparr>indices := x\<rparr> | _ \<Rightarrow> s)
     else if m = ''SetStreamSource'' then (case as of [W n, HN Resources x, W off, W stride] \<Rightarrow>
       s\<lparr>streams := (streams s)[unat n := x],
         streamOffsetsStrides := (if x \<noteq> 0 then (streamOffsetsStrides s)[unat n := (off, stride)] else streamOffsetsStrides s)\<rparr> | _ \<Rightarrow> s)
     else if m = ''SetStreamSourceFreq'' then (case as of [W n, W v] \<Rightarrow> s\<lparr>streamFreqs := (streamFreqs s)[unat n := v]\<rparr> | _ \<Rightarrow> s)
     else s)"

definition d3d_apply :: "req \<Rightarrow> dev_state \<Rightarrow> dev_state" where
  "d3d_apply q = d3d_set (meth q) (args q)"

text \<open>The application's call made on that device directly; a call the interface refuses changes nothing.\<close>

primrec direct :: "setter \<Rightarrow> dev_state \<Rightarrow> dev_state" where
  "direct (A_SetTransform t m) = (if isValidD3drtansformstatetype t then d3d_set ''SetTransform'' [W t, P m] else id)"
| "direct (A_SetViewport v) = d3d_set ''SetViewport'' [P v]"
| "direct (A_SetMaterial m) = d3d_set ''SetMaterial'' [P m]"
| "direct (A_SetLight i l) = d3d_set ''SetLight'' [W i, P l]"
| "direct (A_LightEnable i b) = d3d_set ''LightEnable'' [W i, W b]"
| "direct (A_SetClipPlane i p) = d3d_set ''SetClipPlane'' [W i, P p]"
| "direct (A_SetScissorRect r) = d3d_set ''SetScissorRect'' [P r]"
| "direct (A_SetRenderState s v) = d3d_set ''SetRenderState'' [W s, W v]"
| "direct (A_SetTextureStageState s t v) =
     (if unat s < MaxSimultaneousTextures \<and> TexStageStateTypeToIdx t < kMaxTexStageStateTypes
      then d3d_set ''SetTextureStageState'' [W s, W t, W v] else id)"
| "direct (A_SetSamplerState s t v) =
     (if \<not> isInvalidSamplerStage s \<and> samplerTypeIdx t < kMaxStageSamplerStateTypes
      then d3d_set ''SetSamplerState'' [W s, W t, W v] else id)"
| "direct (A_SetTexture s t) =
     (if \<not> isInvalidSamplerStage s \<and> (case t of None \<Rightarrow> True | Some x \<Rightarrow> snd x \<in> {3, 4, 5})
      then d3d_set ''SetTexture'' [W s, HN Resources (case t of None \<Rightarrow> 0 | Some x \<Rightarrow> fst x)] else id)"
| "direct (A_SetVertexDeclaration i) = d3d_set ''SetVertexDeclaration'' [HN VertexDeclarations i]"
| "direct (A_SetVertexShader i) = d3d_set ''SetVertexShader'' [HN VertexShaders i]"
| "direct (A_SetPixelShader i) = d3d_set ''SetPixelShader'' [HN PixelShaders i]"
| "direct (A_SetIndices i) = d3d_set ''SetIndices'' [HN Resources i]"
| "direct (A_SetStreamSource n i off stride) = d3d_set ''SetStreamSource'' [W n, HN Resources i, W off, W stride]"
| "direct (A_SetStreamSourceFreq n v) = d3d_set ''SetStreamSourceFreq'' [W n, W v]"

text \<open>What the application must respect because the client does not check it: objects are not empty, and
  render states, clip planes and streams are in range.\<close>

primrec setter_ok :: "setter \<Rightarrow> bool" where
  "setter_ok (A_SetTransform t m) \<longleftrightarrow> m \<noteq> Some []"
| "setter_ok (A_SetViewport v) \<longleftrightarrow> v \<noteq> Some []"
| "setter_ok (A_SetMaterial m) \<longleftrightarrow> m \<noteq> Some []"
| "setter_ok (A_SetLight i l) \<longleftrightarrow> l \<noteq> Some []"
| "setter_ok (A_LightEnable i b) \<longleftrightarrow> True"
| "setter_ok (A_SetClipPlane i p) \<longleftrightarrow> p \<noteq> Some [] \<and> unat i < MaxClipPlanes"
| "setter_ok (A_SetScissorRect r) \<longleftrightarrow> r \<noteq> Some []"
| "setter_ok (A_SetRenderState s v) \<longleftrightarrow> unat s < kNumRenderStates"
| "setter_ok (A_SetTextureStageState s t v) \<longleftrightarrow> True"
| "setter_ok (A_SetSamplerState s t v) \<longleftrightarrow> True"
| "setter_ok (A_SetTexture s t) \<longleftrightarrow> True"
| "setter_ok (A_SetVertexDeclaration i) \<longleftrightarrow> True"
| "setter_ok (A_SetVertexShader i) \<longleftrightarrow> True"
| "setter_ok (A_SetPixelShader i) \<longleftrightarrow> True"
| "setter_ok (A_SetIndices i) \<longleftrightarrow> True"
| "setter_ok (A_SetStreamSource n i off stride) \<longleftrightarrow> unat n < MaxStreams"
| "setter_ok (A_SetStreamSourceFreq n v) \<longleftrightarrow> unat n < MaxStreams"

text \<open>The state as the server sees it: texture types stay on the client.\<close>

definition view :: "dev_state \<Rightarrow> dev_state" where
  "view s = s\<lparr>textures := map (\<lambda>t. (fst t, 0)) (textures s)\<rparr>"


section \<open>Decoding of the setters' messages\<close>

lemmas serve_setters = dispatch_setters on_defs decode_defs serve_wire_def

lemma words_of_bytes_u32_bytes: "words_of_bytes (concat (map u32_bytes ws)) = ws"
proof (induction ws)
  case (Cons w ws)
  have "words_of_bytes (u32_bytes w @ r) = u32_of_bytes (u32_bytes w) # words_of_bytes r" for r
    by (simp add: u32_bytes_def)
  then show ?case using Cons by simp
qed simp

lemma serve_batch_wire:
  assumes "replay ws = Inr cs"
  shows "serve_wire h (batch_wire ws) = Inr (map (call_req h) cs)"
proof (cases "ws = []")
  case True
  then show ?thesis using assms by (simp add: serve_setters batch_wire_def)
next
  case False
  then have "concat (map u32_bytes ws) \<noteq> []" by (cases ws) (simp_all add: u32_bytes_def)
  then show ?thesis
    using assms by (simp add: serve_setters batch_wire_def words_of_bytes_u32_bytes del: concat_eq_Nil_conv)
qed

section \<open>One setter\<close>

text \<open>The requests a message means for the server's device.\<close>

primrec msg_reqs :: "u32 \<Rightarrow> dev_msg \<Rightarrow> req list or_error" where
  "msg_reqs h (Batched c) = Inr [call_req h c]"
| "msg_reqs h (Sent n its) = serve_wire h (n, its)"

primrec msg_ok :: "dev_msg \<Rightarrow> bool" where
  "msg_ok (Batched c) \<longleftrightarrow> call_ok c"
| "msg_ok (Sent n its) \<longleftrightarrow> True"

fun msgs_reqs :: "u32 \<Rightarrow> dev_msg list \<Rightarrow> req list or_error" where
  "msgs_reqs h [] = Inr []"
| "msgs_reqs h (m # ms) = bindE (msg_reqs h m) (\<lambda>qs. bindE (msgs_reqs h ms) (\<lambda>rs. Inr (qs @ rs)))"

definition setter_step :: "u32 \<Rightarrow> setter \<Rightarrow> device \<Rightarrow> dev_result \<Rightarrow> bool" where
  "setter_step h a d r \<longleftrightarrow> (\<exists>hr d' ms qs. r = Inr (hr, d', ms) \<and> m_stateRecording d' = None \<and> state_shape (m_state d')
     \<and> (\<forall>m \<in> set ms. msg_ok m) \<and> msgs_reqs h ms = Inr qs
     \<and> fold d3d_apply qs (view (m_state d)) = view (m_state d')
     \<and> view (m_state d') = direct a (view (m_state d)))"

text \<open>A setter either changes nothing, or updates the state and sends one request with the same effect.\<close>

lemma setter_step_skip:
  assumes "m_stateRecording d = None" "state_shape (m_state d)" "direct a (view (m_state d)) = view (m_state d)"
  shows "setter_step h a d (Inr (hr, d, []))"
  using assms by (simp add: setter_step_def)

lemma setter_step_set:
  assumes "m_stateRecording d = None" "state_shape (f (m_state d))" "msg_ok m" "msg_reqs h m = Inr [q]"
    "d3d_apply q (view (m_state d)) = view (f (m_state d))" "direct a (view (m_state d)) = view (f (m_state d))"
  shows "setter_step h a d (Inr (hr, set_state f d, [m]))"
  using assms by (simp add: setter_step_def set_state_def)

lemma call_ok_handle [simp]: "handle x \<noteq> Some 0"
  by (simp add: handle_def)

lemma handle_word_handle [simp]: "handle_word (handle x) = x"
  by (simp add: handle_def handle_word_def)

lemma send_or_batch_cases:
  obtains m where "send_or_batch d c n its = [m]" "m = Batched c \<or> m = Sent n its"
  by (cases "batchActive d") (auto simp: send_or_batch_def)

lemma setter_step_batched:
  assumes "m_stateRecording d = None" "state_shape (f (m_state d))" "call_ok c"
    "d3d_apply (call_req h c) (view (m_state d)) = view (f (m_state d))"
    "serve_wire h (n, its) = Inr [(call_req h c)\<lparr>answers := OptionalAnswer\<rparr>]"
    "direct a (view (m_state d)) = view (f (m_state d))"
  shows "setter_step h a d (Inr (hr, set_state f d, send_or_batch d c n its))"
proof -
  obtain m where m: "send_or_batch d c n its = [m]" "m = Batched c \<or> m = Sent n its"
    by (rule send_or_batch_cases)
  show ?thesis unfolding m(1)
  proof (rule setter_step_set [where f = f, OF assms(1,2)])
    show "msg_ok m" using m(2) assms(3) by auto
    show "msg_reqs h m = Inr [if m = Batched c then call_req h c else (call_req h c)\<lparr>answers := OptionalAnswer\<rparr>]"
      using m(2) assms(5) by auto
    show "d3d_apply (if m = Batched c then call_req h c else (call_req h c)\<lparr>answers := OptionalAnswer\<rparr>) (view (m_state d))
      = view (f (m_state d))" using assms(4) by (simp add: d3d_apply_def)
  qed (rule assms(6))
qed


lemma d3d_set_simps [simp]:
  "d3d_set ''SetTransform'' [W t, P (Some x)] s = transforms_update (\<lambda>xs. xs[mapXformStateTypeToIdx t := x]) s"
  "d3d_set ''SetTransform'' [W t, P None] s = s"
  "d3d_set ''SetViewport'' [P (Some x)] s = s\<lparr>viewport := x\<rparr>"
  "d3d_set ''SetViewport'' [P None] s = s"
  "d3d_set ''SetMaterial'' [P (Some x)] s = s\<lparr>material := x\<rparr>"
  "d3d_set ''SetMaterial'' [P None] s = s"
  "d3d_set ''SetLight'' [W i, P (Some x)] s = lights_update (\<lambda>f. f(i := x)) s"
  "d3d_set ''SetLight'' [W i, P None] s = s"
  "d3d_set ''LightEnable'' [W i, W b] s = bLightEnables_update (\<lambda>f. f(i := b \<noteq> 0)) s"
  "d3d_set ''SetClipPlane'' [W i, P (Some x)] s = clipPlanes_update (\<lambda>xs. xs[unat i := x]) s"
  "d3d_set ''SetClipPlane'' [W i, P None] s = s"
  "d3d_set ''SetScissorRect'' [P (Some x)] s = s\<lparr>scissorRect := x\<rparr>"
  "d3d_set ''SetScissorRect'' [P None] s = s"
  "d3d_set ''SetRenderState'' [W i, W v] s = renderStates_update (\<lambda>xs. xs[unat i := v]) s"
  "d3d_set ''SetTextureStageState'' [W i, W ty, W v] s =
     textureStageStates_update (upd2 (mapSamplerStageToIdx i) (TexStageStateTypeToIdx ty) v) s"
  "d3d_set ''SetSamplerState'' [W i, W ty, W v] s =
     samplerStates_update (upd2 (mapSamplerStageToIdx i) (samplerTypeIdx ty) v) s"
  "d3d_set ''SetTexture'' [W i, HN Resources o1] s = textures_update (\<lambda>xs. xs[mapSamplerStageToIdx i := (o1, 0)]) s"
  "d3d_set ''SetVertexDeclaration'' [HN VertexDeclarations o1] s = s\<lparr>vertexDecl := o1\<rparr>"
  "d3d_set ''SetVertexShader'' [HN VertexShaders o1] s = s\<lparr>vertexShader := o1\<rparr>"
  "d3d_set ''SetPixelShader'' [HN PixelShaders o1] s = s\<lparr>pixelShader := o1\<rparr>"
  "d3d_set ''SetIndices'' [HN Resources o1] s = s\<lparr>indices := o1\<rparr>"
  "d3d_set ''SetStreamSource'' [W n, HN Resources o1, W off, W stride] s =
     s\<lparr>streams := (streams s)[unat n := o1],
       streamOffsetsStrides := (if o1 \<noteq> 0 then (streamOffsetsStrides s)[unat n := (off, stride)] else streamOffsetsStrides s)\<rparr>"
  "d3d_set ''SetStreamSourceFreq'' [W n, W v] s = streamFreqs_update (\<lambda>xs. xs[unat n := v]) s"
  by (cases s; simp add: d3d_set_def)+

lemma view_simps [simp]:
  "view (transforms_update f0 s) = transforms_update f0 (view s)" "transforms (view s) = transforms s"
  "view (viewport_update f1 s) = viewport_update f1 (view s)" "viewport (view s) = viewport s"
  "view (material_update f2 s) = material_update f2 (view s)" "material (view s) = material s"
  "view (lights_update f3 s) = lights_update f3 (view s)" "lights (view s) = lights s"
  "view (bLightEnables_update f4 s) = bLightEnables_update f4 (view s)" "bLightEnables (view s) = bLightEnables s"
  "view (clipPlanes_update f5 s) = clipPlanes_update f5 (view s)" "clipPlanes (view s) = clipPlanes s"
  "view (renderStates_update f6 s) = renderStates_update f6 (view s)" "renderStates (view s) = renderStates s"
  "view (textureStageStates_update f7 s) = textureStageStates_update f7 (view s)" "textureStageStates (view s) = textureStageStates s"
  "view (samplerStates_update f8 s) = samplerStates_update f8 (view s)" "samplerStates (view s) = samplerStates s"
  "view (scissorRect_update f9 s) = scissorRect_update f9 (view s)" "scissorRect (view s) = scissorRect s"
  "view (vertexDecl_update f10 s) = vertexDecl_update f10 (view s)" "vertexDecl (view s) = vertexDecl s"
  "view (vertexShader_update f11 s) = vertexShader_update f11 (view s)" "vertexShader (view s) = vertexShader s"
  "view (pixelShader_update f12 s) = pixelShader_update f12 (view s)" "pixelShader (view s) = pixelShader s"
  "view (indices_update f13 s) = indices_update f13 (view s)" "indices (view s) = indices s"
  "view (streams_update f14 s) = streams_update f14 (view s)" "streams (view s) = streams s"
  "view (streamOffsetsStrides_update f15 s) = streamOffsetsStrides_update f15 (view s)" "streamOffsetsStrides (view s) = streamOffsetsStrides s"
  "view (streamFreqs_update f16 s) = streamFreqs_update f16 (view s)" "streamFreqs (view s) = streamFreqs s"
  "view (textures_update (\<lambda>xs. xs[i := v]) s) = textures_update (\<lambda>xs. xs[i := (fst v, 0)]) (view s)"
  "textures (view s) = map (\<lambda>t. (fst t, 0)) (textures s)"
  by (cases s; simp add: view_def map_update)+

lemma record_same [simp]:
  "f0 (transforms s) = transforms s \<Longrightarrow> transforms_update f0 s = s"
  "f1 (viewport s) = viewport s \<Longrightarrow> viewport_update f1 s = s"
  "f2 (material s) = material s \<Longrightarrow> material_update f2 s = s"
  "f3 (lights s) = lights s \<Longrightarrow> lights_update f3 s = s"
  "f4 (bLightEnables s) = bLightEnables s \<Longrightarrow> bLightEnables_update f4 s = s"
  "f5 (clipPlanes s) = clipPlanes s \<Longrightarrow> clipPlanes_update f5 s = s"
  "f6 (renderStates s) = renderStates s \<Longrightarrow> renderStates_update f6 s = s"
  "f7 (textureStageStates s) = textureStageStates s \<Longrightarrow> textureStageStates_update f7 s = s"
  "f8 (samplerStates s) = samplerStates s \<Longrightarrow> samplerStates_update f8 s = s"
  "f9 (scissorRect s) = scissorRect s \<Longrightarrow> scissorRect_update f9 s = s"
  "f10 (vertexDecl s) = vertexDecl s \<Longrightarrow> vertexDecl_update f10 s = s"
  "f11 (vertexShader s) = vertexShader s \<Longrightarrow> vertexShader_update f11 s = s"
  "f12 (pixelShader s) = pixelShader s \<Longrightarrow> pixelShader_update f12 s = s"
  "f13 (indices s) = indices s \<Longrightarrow> indices_update f13 s = s"
  "f14 (streams s) = streams s \<Longrightarrow> streams_update f14 s = s"
  "f15 (streamOffsetsStrides s) = streamOffsetsStrides s \<Longrightarrow> streamOffsetsStrides_update f15 s = s"
  "f16 (streamFreqs s) = streamFreqs s \<Longrightarrow> streamFreqs_update f16 s = s"
  "f17 (textures s) = textures s \<Longrightarrow> textures_update f17 s = s"
  by (cases s; simp)+

lemma map_update_same: "i < length xs \<Longrightarrow> f (xs ! i) = v \<Longrightarrow> (map f xs)[i := v] = map f xs"
  by (metis length_map list_update_id nth_map)

lemma nth_update_same: "xs ! n = v \<Longrightarrow> xs[n := v] = xs"
  by auto

lemma upd2_same: "i < length xss \<Longrightarrow> xss ! i ! j = v \<Longrightarrow> upd2 i j v xss = xss"
  by (metis list_update_id upd2_def)

lemma step_SetTransform:
  assumes "m_stateRecording d = None" "state_shape (m_state d)" "setter_ok (A_SetTransform t m)"
  shows "setter_step h (A_SetTransform t m) d (dev_SetTransform resp t m d)"
proof (cases "m = None \<or> \<not> isValidD3drtansformstatetype t")
  case True
  then show ?thesis using assms
    by (cases m) (auto simp: dev_SetTransform_def intro!: setter_step_skip)
next
  case False
  then obtain x where m: "m = Some x" and v: "isValidD3drtansformstatetype t" by auto
  have b: "mapXformStateTypeToIdx t < MaxTransforms"
    by (rule mapXformStateTypeToIdx_bound [OF v])
  show ?thesis using assms b v m
    by (auto simp: dev_SetTransform_def Let_def getE_def shape_rules serve_setters d3d_apply_def
        intro!: setter_step_skip setter_step_set)
qed

lemmas setter_proof = Let_def getE_def shape_rules serve_setters d3d_apply_def

lemma step_SetViewport:
  assumes "m_stateRecording d = None" "state_shape (m_state d)" "setter_ok (A_SetViewport m)"
  shows "setter_step h (A_SetViewport m) d (dev_SetViewport resp m d)"
  using assms by (cases m) (auto simp: dev_SetViewport_def setter_proof intro!: setter_step_skip setter_step_set)

lemma step_SetMaterial:
  assumes "m_stateRecording d = None" "state_shape (m_state d)" "setter_ok (A_SetMaterial m)"
  shows "setter_step h (A_SetMaterial m) d (dev_SetMaterial resp m d)"
  using assms by (cases m) (auto simp: dev_SetMaterial_def setter_proof intro!: setter_step_skip setter_step_set)

lemma step_SetLight:
  assumes "m_stateRecording d = None" "state_shape (m_state d)" "setter_ok (A_SetLight i m)"
  shows "setter_step h (A_SetLight i m) d (dev_SetLight resp i m d)"
  using assms by (cases m) (auto simp: dev_SetLight_def setter_proof intro!: setter_step_skip setter_step_set)

lemma step_LightEnable:
  assumes "m_stateRecording d = None" "state_shape (m_state d)"
  shows "setter_step h (A_LightEnable i b) d (dev_LightEnable resp i b d)"
  using assms by (auto simp: dev_LightEnable_def setter_proof fun_upd_idem intro!: setter_step_skip setter_step_set)

lemma step_SetClipPlane:
  assumes "m_stateRecording d = None" "state_shape (m_state d)" "setter_ok (A_SetClipPlane i m)"
  shows "setter_step h (A_SetClipPlane i m) d (dev_SetClipPlane resp i m d)"
  using assms by (cases m) (auto simp: dev_SetClipPlane_def setter_proof intro!: setter_step_skip setter_step_set)

lemma step_SetScissorRect:
  assumes "m_stateRecording d = None" "state_shape (m_state d)" "setter_ok (A_SetScissorRect m)"
  shows "setter_step h (A_SetScissorRect m) d (dev_SetScissorRect resp m d)"
  using assms by (cases m) (auto simp: dev_SetScissorRect_def setter_proof intro!: setter_step_skip setter_step_set)

lemma step_SetRenderState:
  assumes "m_stateRecording d = None" "state_shape (m_state d)" "setter_ok (A_SetRenderState i v)"
  shows "setter_step h (A_SetRenderState i v) d (dev_SetRenderState resp i v d)"
  using assms by (auto simp: dev_SetRenderState_def setter_proof intro!: setter_step_skip setter_step_batched)

lemma step_SetVertexDeclaration:
  assumes "m_stateRecording d = None" "state_shape (m_state d)"
  shows "setter_step h (A_SetVertexDeclaration i) d (dev_SetVertexDeclaration resp i d)"
  using assms by (auto simp: dev_SetVertexDeclaration_def setter_proof handle_arg_def intro!: setter_step_skip setter_step_batched)

lemma step_SetVertexShader:
  assumes "m_stateRecording d = None" "state_shape (m_state d)"
  shows "setter_step h (A_SetVertexShader i) d (dev_SetVertexShader resp i d)"
  using assms by (auto simp: dev_SetVertexShader_def setter_proof handle_arg_def intro!: setter_step_skip setter_step_batched)

lemma step_SetPixelShader:
  assumes "m_stateRecording d = None" "state_shape (m_state d)"
  shows "setter_step h (A_SetPixelShader i) d (dev_SetPixelShader resp i d)"
  using assms by (auto simp: dev_SetPixelShader_def setter_proof handle_arg_def intro!: setter_step_skip setter_step_batched)

lemma step_SetIndices:
  assumes "m_stateRecording d = None" "state_shape (m_state d)"
  shows "setter_step h (A_SetIndices i) d (dev_SetIndices resp i d)"
  using assms by (auto simp: dev_SetIndices_def setter_proof handle_arg_def intro!: setter_step_skip setter_step_batched)

lemma step_SetStreamSourceFreq:
  assumes "m_stateRecording d = None" "state_shape (m_state d)" "setter_ok (A_SetStreamSourceFreq n v)"
  shows "setter_step h (A_SetStreamSourceFreq n v) d (dev_SetStreamSourceFreq resp n v d)"
  using assms by (auto simp: dev_SetStreamSourceFreq_def setter_proof intro!: setter_step_skip setter_step_batched)

lemma step_SetTextureStageState:
  assumes "m_stateRecording d = None" "state_shape (m_state d)"
  shows "setter_step h (A_SetTextureStageState st t v) d (dev_SetTextureStageState resp st t v d)"
proof (cases "unat st < MaxSimultaneousTextures \<and> TexStageStateTypeToIdx t < kMaxTexStageStateTypes")
  case True
  then have "mapSamplerStageToIdx st < kNumStageSamplers" by (simp add: stage_bound)
  then show ?thesis using assms True state_shape_rows [OF assms(2)]
    by (auto simp: dev_SetTextureStageState_def get2_def setter_proof upd2_same
        intro!: setter_step_skip setter_step_batched)
next
  case False
  then show ?thesis using assms
    by (auto simp: dev_SetTextureStageState_def Let_def intro!: setter_step_skip)
qed

lemma step_SetSamplerState:
  assumes "m_stateRecording d = None" "state_shape (m_state d)"
  shows "setter_step h (A_SetSamplerState st t v) d (dev_SetSamplerState resp st t v d)"
proof (cases "\<not> isInvalidSamplerStage st \<and> samplerTypeIdx t < kMaxStageSamplerStateTypes")
  case True
  then have "mapSamplerStageToIdx st < kNumStageSamplers" by (simp add: mapSamplerStageToIdx_bound)
  then show ?thesis using assms True state_shape_rows [OF assms(2)]
    by (auto simp: dev_SetSamplerState_def get2_def setter_proof upd2_same
        intro!: setter_step_skip setter_step_batched)
next
  case False
  then show ?thesis using assms
    by (auto simp: dev_SetSamplerState_def Let_def intro!: setter_step_skip)
qed

lemma step_SetTexture:
  assumes "m_stateRecording d = None" "state_shape (m_state d)"
  shows "setter_step h (A_SetTexture st t) d (dev_SetTexture resp st t d)"
proof (cases "\<not> isInvalidSamplerStage st \<and> (case t of None \<Rightarrow> True | Some x \<Rightarrow> snd x \<in> {3, 4, 5})")
  case True
  then have "mapSamplerStageToIdx st < kNumStageSamplers" by (simp add: mapSamplerStageToIdx_bound)
  moreover have "\<not> (\<exists>x. t = Some x \<and> snd x \<notin> {3, 4, 5})" using True by (auto split: option.splits)
  ultimately show ?thesis using assms True
    by (cases t) (auto simp: dev_SetTexture_def setter_proof handle_arg_def map_update_same
        intro!: setter_step_skip setter_step_batched)
next
  case False
  then show ?thesis using assms
    by (auto simp: dev_SetTexture_def Let_def split: option.splits intro!: setter_step_skip)
qed

lemma step_SetStreamSource:
  assumes "m_stateRecording d = None" "state_shape (m_state d)" "setter_ok (A_SetStreamSource n i off stride)"
  shows "setter_step h (A_SetStreamSource n i off stride) d (dev_SetStreamSource resp n i off stride d)"
  using assms
  by (auto simp: dev_SetStreamSource_def setter_proof handle_arg_def nth_update_same intro!: setter_step_skip setter_step_batched)

lemma run_setter_step:
  assumes "m_stateRecording d = None" "state_shape (m_state d)" "setter_ok a"
  shows "setter_step h a d (run_setter resp a d)"
  using assms
  by (cases a) (simp_all add: step_SetTransform step_SetViewport step_SetMaterial step_SetLight step_LightEnable
      step_SetClipPlane step_SetScissorRect step_SetRenderState step_SetTextureStageState step_SetSamplerState
      step_SetTexture step_SetVertexDeclaration step_SetVertexShader step_SetPixelShader step_SetIndices
      step_SetStreamSource step_SetStreamSourceFreq del: setter_ok.simps)

section \<open>A sequence of setters\<close>

lemma msgs_reqs_append:
  "msgs_reqs h (ms @ ns) = bindE (msgs_reqs h ms) (\<lambda>qs. bindE (msgs_reqs h ns) (\<lambda>rs. Inr (qs @ rs)))"
  by (induction ms) (auto simp: bindE_def split: sum.splits)

lemma serve_wires_append:
  "serve_wires h (ms @ ns) = bindE (serve_wires h ms) (\<lambda>qs. bindE (serve_wires h ns) (\<lambda>rs. Inr (qs @ rs)))"
  by (induction ms) (auto simp: bindE_def split: sum.splits)

lemma run_setters_step:
  assumes "m_stateRecording d = None" "state_shape (m_state d)" "\<forall>a \<in> set as. setter_ok (snd a)"
  shows "\<exists>d' ms qs. run_setters as d = Inr (d', ms) \<and> (\<forall>m \<in> set ms. msg_ok m) \<and> msgs_reqs h ms = Inr qs
    \<and> fold d3d_apply qs (view (m_state d)) = view (m_state d')
    \<and> view (m_state d') = fold (\<lambda>a. direct (snd a)) as (view (m_state d))"
  using assms
proof (induction as arbitrary: d)
  case (Cons x as)
  obtain resp a where x: "x = (resp, a)" by (cases x)
  obtain hr d1 ms qs where 1: "run_setter resp a d = Inr (hr, d1, ms)" "m_stateRecording d1 = None" "state_shape (m_state d1)"
    "\<forall>m \<in> set ms. msg_ok m" "msgs_reqs h ms = Inr qs" "fold d3d_apply qs (view (m_state d)) = view (m_state d1)"
    "view (m_state d1) = direct a (view (m_state d))"
    using run_setter_step [OF Cons.prems(1,2), of a h resp] Cons.prems(3) x by (auto simp: setter_step_def)
  obtain d' ns rs where 2: "run_setters as d1 = Inr (d', ns)" "\<forall>m \<in> set ns. msg_ok m" "msgs_reqs h ns = Inr rs"
    "fold d3d_apply rs (view (m_state d1)) = view (m_state d')"
    "view (m_state d') = fold (\<lambda>a. direct (snd a)) as (view (m_state d1))"
    using Cons.IH [OF 1(2,3)] Cons.prems(3) by auto
  show ?case
    using 1 2 x by (intro exI [of _ d'] exI [of _ "ms @ ns"] exI [of _ "qs @ rs"]) (auto simp: msgs_reqs_append)
qed simp


lemma emit_step:
  assumes b: "holds_calls b ds" and m: "msg_ok m" "msg_reqs h m = Inr qs"
  shows "\<exists>b1 ws es ds1. emit m b = Inr (b1, ws) \<and> serve_wires h ws = Inr es \<and> holds_calls b1 ds1
    \<and> es @ map (call_req h) ds1 = map (call_req h) ds @ qs"
proof (cases m)
  case (Batched c)
  then obtain b1 ms ds1 es where 1: "batch_call c b = Inr (b1, ms)" "holds_calls b1 ds1" "es @ ds1 = ds @ [c]"
    "ms = [] \<and> es = [] \<or> ms = [concat (map call_record es)] \<and> es = ds"
    using batch_call_step [OF b, of c] m(1) by auto
  have "serve_wires h (map batch_wire ms) = Inr (map (call_req h) es)"
    using 1(4) serve_batch_wire [OF holds_calls_replay [OF b]] by auto
  moreover have "map (call_req h) es @ map (call_req h) ds1 = map (call_req h) ds @ qs"
    using Batched m(2) arg_cong [OF 1(3), of "map (call_req h)"] by simp
  ultimately show ?thesis using 1 Batched by auto
next
  case (Sent n its)
  obtain b1 ms where f: "flushStateBatch b = (b1, ms)" by (cases "flushStateBatch b")
  show ?thesis
  proof (cases "g_stateBatchPending b")
    case True
    have "holds_calls b1 []" "serve_wires h (map batch_wire ms) = Inr (map (call_req h) ds)"
      using flush_step [OF b f] serve_batch_wire [OF holds_calls_replay [OF b]] by auto
    then show ?thesis using True Sent m(2) f by (auto simp: serve_wires_append)
  next
    case False
    then have "ds = []" using b holds_calls_empty [OF b] by (auto simp: holds_calls_def)
    then show ?thesis using False Sent m(2) b by auto
  qed
qed

lemma emit_all_step:
  assumes "holds_calls b ds" and "\<forall>m \<in> set ms. msg_ok m" and "msgs_reqs h ms = Inr qs"
  shows "\<exists>b1 ws es ds1. emit_all ms b = Inr (b1, ws) \<and> serve_wires h ws = Inr es \<and> holds_calls b1 ds1
    \<and> es @ map (call_req h) ds1 = map (call_req h) ds @ qs"
  using assms
proof (induction ms arbitrary: b ds qs)
  case (Cons m ms)
  obtain q1 q2 where q: "msg_reqs h m = Inr q1" "msgs_reqs h ms = Inr q2" "qs = q1 @ q2"
    using Cons.prems(3) by (auto simp: bind_simps)
  obtain b1 ws es ds1 where 1: "emit m b = Inr (b1, ws)" "serve_wires h ws = Inr es" "holds_calls b1 ds1"
    "es @ map (call_req h) ds1 = map (call_req h) ds @ q1"
    using emit_step [OF Cons.prems(1) _ q(1)] Cons.prems(2) by auto
  obtain b2 vs fs ds2 where 2: "emit_all ms b1 = Inr (b2, vs)" "serve_wires h vs = Inr fs" "holds_calls b2 ds2"
    "fs @ map (call_req h) ds2 = map (call_req h) ds1 @ q2"
    using Cons.IH [OF 1(3) _ q(2)] Cons.prems(2) by auto
  have "(es @ fs) @ map (call_req h) ds2 = map (call_req h) ds @ qs"
    using 1(4) 2(4) q(3) by (metis append.assoc)
  then show ?case using 1 2 by (auto simp: serve_wires_append intro!: exI [of _ "es @ fs"] exI [of _ ds2])
qed auto

section \<open>Properties\<close>



definition demo_state :: dev_state where
  "demo_state = \<lparr>renderTargets = replicate MaxSimultaneousRenderTargets 0, depthStencil = 0,
     transforms = replicate MaxTransforms (replicate 64 0), viewport = replicate 24 0, material = replicate 68 0,
     lights = (\<lambda>_. replicate 104 0), bLightEnables = (\<lambda>_. False), clipPlanes = replicate MaxClipPlanes (replicate 16 0),
     renderStates = replicate kNumRenderStates 0xFEFEFEFE, textures = replicate kNumStageSamplers (0, 0),
     textureStageStates = replicate kNumStageSamplers (replicate kMaxTexStageStateTypes 0),
     samplerStates = replicate kNumStageSamplers (replicate kMaxStageSamplerStateTypes 0), scissorRect = replicate 16 0,
     vertexDecl = 0, vertexShader = 0, vs_fConsts = [], vs_iConsts = [], vs_bConsts = [], streams = replicate MaxStreams 0,
     streamOffsetsStrides = replicate MaxStreams (0, 0), streamFreqs = replicate MaxStreams 1, indices = 0, pixelShader = 0,
     ps_fConsts = [], ps_iConsts = [], ps_bConsts = []\<rparr>"

definition demo_device :: device where
  "demo_device = \<lparr>m_state = demo_state, m_stateRecording = None, m_clipStatus = [], m_paletteEntries = (\<lambda>_. []),
     m_curTexPalette = 0, m_bSoftwareVtxProcessing = 0, m_NPatchMode = 0, m_FVF = 0, opt_eliminate = True,
     opt_sendAll = False, opt_batch = True\<rparr>"

lemma demo_shape: "state_shape (m_state demo_device)"
  by (simp add: state_shape_def demo_device_def demo_state_def)


end
