(* ===== verification/State_Block.thy ===== *)
theory State_Block
  imports Device_State
begin

text \<open>
  State blocks (\<open>d3d9_stateblock.cpp\<close> and the state block functions of \<open>d3d9_device.cpp\<close>): the flags of the three
  predefined kinds, recording, and the transfer between the device's state and the block's.  The transfer
  uses a plan, lists of the indices that are flagged; the reference definition looks at every flag.
\<close>

section \<open>Transfer plan\<close>

record TransferPlan =
  allRenderStates :: bool
  allTransforms :: bool
  allSamplerStates :: bool
  allTextureStageStates :: bool
  allVsF :: bool
  allVsI :: bool
  allPsF :: bool
  allPsI :: bool
  p_renderStates :: "u16 list"
  p_transforms :: "u16 list"
  p_vsF :: "u16 list"
  p_vsI :: "u16 list"
  p_vsB :: "u16 list"
  p_psF :: "u16 list"
  p_psI :: "u16 list"
  p_psB :: "u16 list"
  p_samplerStates :: "u16 list"
  p_textureStageStates :: "u16 list"
  p_streams :: "u8 list"
  p_streamOffsetsAndStrides :: "u8 list"
  p_streamFreqs :: "u8 list"
  p_textures :: "u8 list"
  p_clipPlanes :: "u8 list"

text \<open>The lambda \<open>collect\<close>: indices are cast to the element type of the vector.\<close>

definition collect :: "bool list \<Rightarrow> 'a::len word list" where
  "collect arr = map word_of_nat (filter (\<lambda>i. arr ! i) [0..<length arr])"

definition all_flag :: "bool list \<Rightarrow> bool" where
  "all_flag arr = (length (collect arr :: u16 list) = length arr)"

text \<open>The two nested loops over stages and types; keys are \<open>i * 64 + j\<close>.\<close>

definition collect2 :: "bool list list \<Rightarrow> u16 list" where
  "collect2 arr = concat (map (\<lambda>i. map (\<lambda>j. word_of_nat (i * 64 + j)) (filter (\<lambda>j. arr ! i ! j) [0..<length (arr ! i)]))
     [0..<length arr])"

definition all_flag2 :: "bool list list \<Rightarrow> bool" where
  "all_flag2 arr = (length (collect2 arr) = sum_list (map length arr))"

definition buildPlan :: "dirty_flags \<Rightarrow> TransferPlan" where
  "buildPlan f = \<lparr>allRenderStates = all_flag (f_renderStates f), allTransforms = all_flag (f_transforms f),
     allSamplerStates = all_flag2 (f_samplerStates f), allTextureStageStates = all_flag2 (f_textureStageStates f),
     allVsF = all_flag (f_vs_fConsts f), allVsI = all_flag (f_vs_iConsts f),
     allPsF = all_flag (f_ps_fConsts f), allPsI = all_flag (f_ps_iConsts f),
     p_renderStates = collect (f_renderStates f), p_transforms = collect (f_transforms f),
     p_vsF = collect (f_vs_fConsts f), p_vsI = collect (f_vs_iConsts f), p_vsB = collect (f_vs_bConsts f),
     p_psF = collect (f_ps_fConsts f), p_psI = collect (f_ps_iConsts f), p_psB = collect (f_ps_bConsts f),
     p_samplerStates = collect2 (f_samplerStates f), p_textureStageStates = collect2 (f_textureStageStates f),
     p_streams = collect (f_streams f), p_streamOffsetsAndStrides = collect (f_streamOffsetsAndStrides f),
     p_streamFreqs = collect (f_streamFreqs f), p_textures = collect (f_textures f), p_clipPlanes = collect (f_clipPlanes f)\<rparr>"

section \<open>Transfer\<close>

text \<open>The loops of \<open>StateTransfer\<close> over a plan's indices.\<close>

definition copy_at :: "'b::len word list \<Rightarrow> 'a list \<Rightarrow> 'a list \<Rightarrow> 'a list" where
  "copy_at is src dst = fold (\<lambda>i d. d[unat i := src ! unat i]) is dst"

definition copy_keys :: "u16 list \<Rightarrow> 'a list list \<Rightarrow> 'a list list \<Rightarrow> 'a list list" where
  "copy_keys ks src dst = fold (\<lambda>k d. let i = unat (drop_bit 6 k); j = unat (k AND 63) in d[i := (d ! i)[j := src ! i ! j]]) ks dst"

definition copy_bits :: "u16 list \<Rightarrow> u32 list \<Rightarrow> u32 list \<Rightarrow> u32 list" where
  "copy_bits is src dst = fold (\<lambda>i d. let w = unat i div 32; m = push_bit (unat i mod 32) 1 in
     d[w := if src ! w AND m \<noteq> 0 then d ! w OR m else d ! w AND NOT m]) is dst"

definition StateTransfer :: "TransferPlan \<Rightarrow> dirty_flags \<Rightarrow> dev_state \<Rightarrow> dev_state \<Rightarrow> dev_state" where
  "StateTransfer p f src dst = dst\<lparr>
     renderStates := (if allRenderStates p then renderStates src else copy_at (p_renderStates p) (renderStates src) (renderStates dst)),
     vertexDecl := (if f_vertexDecl f then vertexDecl src else vertexDecl dst),
     indices := (if f_indices f then indices src else indices dst),
     samplerStates := (if allSamplerStates p then samplerStates src else copy_keys (p_samplerStates p) (samplerStates src) (samplerStates dst)),
     streams := copy_at (p_streams p) (streams src) (streams dst),
     streamOffsetsStrides := copy_at (p_streamOffsetsAndStrides p) (streamOffsetsStrides src) (streamOffsetsStrides dst),
     streamFreqs := copy_at (p_streamFreqs p) (streamFreqs src) (streamFreqs dst),
     textures := copy_at (p_textures p) (textures src) (textures dst),
     vertexShader := (if f_vertexShader f then vertexShader src else vertexShader dst),
     pixelShader := (if f_pixelShader f then pixelShader src else pixelShader dst),
     material := (if f_material f then material src else material dst),
     lights := (\<lambda>k. if f_lights f k then lights src k else lights dst k),
     bLightEnables := (\<lambda>k. if f_bLightEnables f k then bLightEnables src k else bLightEnables dst k),
     transforms := (if allTransforms p then transforms src else copy_at (p_transforms p) (transforms src) (transforms dst)),
     textureStageStates := (if allTextureStageStates p then textureStageStates src
       else copy_keys (p_textureStageStates p) (textureStageStates src) (textureStageStates dst)),
     viewport := (if f_viewport f then viewport src else viewport dst),
     scissorRect := (if f_scissorRect f then scissorRect src else scissorRect dst),
     clipPlanes := copy_at (p_clipPlanes p) (clipPlanes src) (clipPlanes dst),
     vs_fConsts := (if allVsF p then vs_fConsts src else copy_at (p_vsF p) (vs_fConsts src) (vs_fConsts dst)),
     vs_iConsts := (if allVsI p then vs_iConsts src else copy_at (p_vsI p) (vs_iConsts src) (vs_iConsts dst)),
     vs_bConsts := copy_bits (p_vsB p) (vs_bConsts src) (vs_bConsts dst),
     ps_fConsts := (if allPsF p then ps_fConsts src else copy_at (p_psF p) (ps_fConsts src) (ps_fConsts dst)),
     ps_iConsts := (if allPsI p then ps_iConsts src else copy_at (p_psI p) (ps_iConsts src) (ps_iConsts dst)),
     ps_bConsts := copy_bits (p_psB p) (ps_bConsts src) (ps_bConsts dst)\<rparr>"

section \<open>Flags of the predefined kinds\<close>

definition no_flags :: dirty_flags where
  "no_flags = \<lparr>f_vertexDecl = False, f_indices = False, f_renderStates = replicate kNumRenderStates False,
     f_samplerStates = replicate kNumStageSamplers (replicate kMaxStageSamplerStateTypes False),
     f_streams = replicate MaxStreams False, f_streamOffsetsAndStrides = replicate MaxStreams False,
     f_streamFreqs = replicate MaxStreams False, f_textures = replicate kNumStageSamplers False,
     f_vertexShader = False, f_pixelShader = False, f_material = False, f_lights = (\<lambda>_. False),
     f_bLightEnables = (\<lambda>_. False), f_transforms = replicate MaxTransforms False,
     f_textureStageStates = replicate kNumStageSamplers (replicate kMaxTexStageStateTypes False),
     f_viewport = False, f_scissorRect = False, f_clipPlanes = replicate MaxClipPlanes False,
     f_vs_fConsts = replicate MaxFloatConstantsSoftware False, f_vs_iConsts = replicate MaxOtherConstantsSoftware False,
     f_vs_bConsts = replicate MaxOtherConstantsSoftware False, f_ps_fConsts = replicate MaxFloatConstantsPS False,
     f_ps_iConsts = replicate MaxOtherConstants False, f_ps_bConsts = replicate MaxOtherConstants False\<rparr>"

definition flag_list :: "nat list \<Rightarrow> bool list \<Rightarrow> bool list" where
  "flag_list is bs = fold (\<lambda>i b. b[i := True]) is bs"

text \<open>The \<open>D3DRS_\<close> values in the order of the source.\<close>

definition pixelRenderStates :: "nat list" where
  "pixelRenderStates = [7, 8, 9, 14, 15, 16, 19, 20, 23, 24, 25, 26, 36, 37, 38, 27, 195, 52, 53, 54, 55, 56, 57, 58, 59, 60,
     128, 129, 130, 131, 132, 133, 134, 135, 198, 199, 200, 201, 202, 203, 204, 205, 168, 171, 174, 175, 176, 185, 186, 187,
     188, 189, 190, 191, 192, 193, 194, 206, 207, 208, 209]"

definition vertexRenderStates :: "nat list" where
  "vertexRenderStates = [22, 28, 34, 35, 36, 37, 38, 48, 139, 141, 140, 136, 137, 142, 148, 147, 145, 146, 151, 152, 154, 155,
     156, 157, 158, 159, 160, 161, 162, 163, 166, 167, 170, 172, 173, 178, 179, 180, 181, 182, 183, 184, 143, 29, 9]"

text \<open>\<open>D3DSAMP_ADDRESSU\<close> to \<open>D3DSAMP_ELEMENTINDEX\<close> are 1 to 12 and \<open>D3DSAMP_DMAPOFFSET\<close> is 13; they index the flags
  directly, while the setters use the type minus one.\<close>

definition StateBlockSetPixelCaptureFlags :: "dirty_flags \<Rightarrow> dirty_flags" where
  "StateBlockSetPixelCaptureFlags f = f\<lparr>f_renderStates := flag_list pixelRenderStates (f_renderStates f),
     f_samplerStates := fold (\<lambda>i s. s[i := flag_list [1, 2, 3, 4, 5, 6, 7, 8, 9, 10, 11, 12] (s ! i)]) [0..<MaxTexturesPS + 1] (f_samplerStates f),
     f_ps_fConsts := map (\<lambda>_. True) (f_ps_fConsts f), f_ps_iConsts := map (\<lambda>_. True) (f_ps_iConsts f),
     f_ps_bConsts := map (\<lambda>_. True) (f_ps_bConsts f),
     f_textureStageStates := map (map (\<lambda>_. True)) (f_textureStageStates f)\<rparr>"

definition StateBlockSetVertexCaptureFlags :: "dirty_flags \<Rightarrow> dirty_flags" where
  "StateBlockSetVertexCaptureFlags f = f\<lparr>f_renderStates := flag_list vertexRenderStates (f_renderStates f),
     f_vertexDecl := True,
     f_samplerStates := fold (\<lambda>i s. s[i := flag_list [13] (s ! i)]) [MaxTexturesPS + 1..<kMaxStageSamplerStateTypes] (f_samplerStates f),
     f_vs_fConsts := map (\<lambda>_. True) (f_vs_fConsts f), f_vs_iConsts := map (\<lambda>_. True) (f_vs_iConsts f),
     f_vs_bConsts := map (\<lambda>_. True) (f_vs_bConsts f),
     f_streamFreqs := map (\<lambda>_. True) (f_streamFreqs f)\<rparr>"

definition D3DSBT_ALL :: u32 where "D3DSBT_ALL = 1"
definition D3DSBT_PIXELSTATE :: u32 where "D3DSBT_PIXELSTATE = 2"
definition D3DSBT_VERTEXSTATE :: u32 where "D3DSBT_VERTEXSTATE = 3"

definition StateBlockSetCaptureFlags :: "u32 \<Rightarrow> dirty_flags \<Rightarrow> dirty_flags" where
  "StateBlockSetCaptureFlags Type f0 =
    (let f1 = (if Type = D3DSBT_PIXELSTATE \<or> Type = D3DSBT_ALL then StateBlockSetPixelCaptureFlags f0 else f0);
         f2 = (if Type = D3DSBT_VERTEXSTATE \<or> Type = D3DSBT_ALL then StateBlockSetVertexCaptureFlags f1 else f1) in
     if Type = D3DSBT_ALL
     then f2\<lparr>f_textures := map (\<lambda>_. True) (f_textures f2), f_streams := map (\<lambda>_. True) (f_streams f2),
       f_streamOffsetsAndStrides := map (\<lambda>_. True) (f_streamOffsetsAndStrides f2), f_indices := True, f_viewport := True,
       f_scissorRect := True, f_clipPlanes := map (\<lambda>_. True) (f_clipPlanes f2), f_transforms := map (\<lambda>_. True) (f_transforms f2),
       f_material := True\<rparr>
     else f2)"

section \<open>Operations\<close>

text \<open>A block's plan is built from its flags at the first transfer and the flags do not change afterwards,
  so the plan is a function of the flags.\<close>

definition LocalCapture :: "dev_state \<Rightarrow> stateblock \<Rightarrow> stateblock" where
  "LocalCapture s sb = sb\<lparr>m_captureState := StateTransfer (buildPlan (m_dirtyFlags sb)) (m_dirtyFlags sb) s (m_captureState sb)\<rparr>"

definition sb_Capture :: "stateblock \<Rightarrow> device \<Rightarrow> HRESULT \<times> stateblock \<times> dev_msg list" where
  "sb_Capture sb d = (case m_stateRecording d of Some _ \<Rightarrow> (D3DERR_INVALIDCALL, sb, [])
     | None \<Rightarrow> (S_OK, LocalCapture (m_state d) sb, [Sent ''StateBlock9_Capture'' []]))"

definition sb_Apply :: "stateblock \<Rightarrow> device \<Rightarrow> HRESULT \<times> device \<times> dev_msg list" where
  "sb_Apply sb d = (S_OK, set_state (StateTransfer (buildPlan (m_dirtyFlags sb)) (m_dirtyFlags sb) (m_captureState sb)) d,
     [Sent ''StateBlock9_Apply'' []])"

text \<open>A new block: its id, no flags, and a captured state whose contents do not matter.\<close>

definition new_block :: "u32 \<Rightarrow> dev_state \<Rightarrow> stateblock" where
  "new_block i junk = \<lparr>sb_id = i, m_dirtyFlags = no_flags, m_captureState = junk\<rparr>"

definition create_response :: "bool \<Rightarrow> device \<Rightarrow> HRESULT \<Rightarrow> HRESULT" where
  "create_response sendCreate d resp = (if sendCreate \<or> opt_sendAll d then resp else S_OK)"

definition dev_CreateStateBlock :: "bool \<Rightarrow> HRESULT \<Rightarrow> u32 \<Rightarrow> dev_state \<Rightarrow> u32 \<Rightarrow> bool \<Rightarrow> device
    \<Rightarrow> HRESULT \<times> stateblock option \<times> dev_msg list" where
  "dev_CreateStateBlock sendCreate resp i junk Type ppSB d =
    (if \<not> ppSB then (D3DERR_INVALIDCALL, None, []) else
     let sb0 = new_block i junk;
         sb = LocalCapture (m_state d) (sb0\<lparr>m_dirtyFlags := StateBlockSetCaptureFlags Type (m_dirtyFlags sb0)\<rparr>) in
     (create_response sendCreate d resp, Some sb, [Sent ''CreateStateBlock'' [Word Type, Word (sb_id sb)]]))"

definition dev_BeginStateBlock :: "HRESULT \<Rightarrow> u32 \<Rightarrow> dev_state \<Rightarrow> device \<Rightarrow> HRESULT \<times> device \<times> dev_msg list" where
  "dev_BeginStateBlock resp i junk d = (case m_stateRecording d of Some _ \<Rightarrow> (D3DERR_INVALIDCALL, d, [])
     | None \<Rightarrow> (optional_response d resp, d\<lparr>m_stateRecording := Some (new_block i junk)\<rparr>, [Sent ''BeginStateBlock'' []]))"

definition dev_EndStateBlock :: "HRESULT \<Rightarrow> bool \<Rightarrow> device \<Rightarrow> HRESULT \<times> device \<times> stateblock option \<times> dev_msg list" where
  "dev_EndStateBlock resp ppSB d = (if \<not> ppSB then (D3DERR_INVALIDCALL, d, None, []) else
     case m_stateRecording d of None \<Rightarrow> (D3DERR_INVALIDCALL, d, None, [])
     | Some sb \<Rightarrow> (optional_response d resp, d\<lparr>m_stateRecording := None\<rparr>, Some sb, [Sent ''EndStateBlock'' [Word (sb_id sb)]]))"

section \<open>Reference: every flag on its own\<close>

definition sel :: "bool list \<Rightarrow> 'a list \<Rightarrow> 'a list \<Rightarrow> 'a list" where
  "sel fs src dst = map (\<lambda>i. if fs ! i then src ! i else dst ! i) [0..<length dst]"

definition sel2 :: "bool list list \<Rightarrow> 'a list list \<Rightarrow> 'a list list \<Rightarrow> 'a list list" where
  "sel2 fss src dst = map (\<lambda>i. sel (fss ! i) (src ! i) (dst ! i)) [0..<length dst]"

definition sel_bits :: "bool list \<Rightarrow> u32 list \<Rightarrow> u32 list \<Rightarrow> u32 list" where
  "sel_bits fs src dst = map (\<lambda>w. horner_sum of_bool 2
     (map (\<lambda>b. if 32 * w + b < length fs \<and> fs ! (32 * w + b) then bit (src ! w) b else bit (dst ! w) b) [0..<32])) [0..<length dst]"

definition transfer_ref :: "dirty_flags \<Rightarrow> dev_state \<Rightarrow> dev_state \<Rightarrow> dev_state" where
  "transfer_ref f src dst = dst\<lparr>
     renderStates := sel (f_renderStates f) (renderStates src) (renderStates dst),
     vertexDecl := (if f_vertexDecl f then vertexDecl src else vertexDecl dst),
     indices := (if f_indices f then indices src else indices dst),
     samplerStates := sel2 (f_samplerStates f) (samplerStates src) (samplerStates dst),
     streams := sel (f_streams f) (streams src) (streams dst),
     streamOffsetsStrides := sel (f_streamOffsetsAndStrides f) (streamOffsetsStrides src) (streamOffsetsStrides dst),
     streamFreqs := sel (f_streamFreqs f) (streamFreqs src) (streamFreqs dst),
     textures := sel (f_textures f) (textures src) (textures dst),
     vertexShader := (if f_vertexShader f then vertexShader src else vertexShader dst),
     pixelShader := (if f_pixelShader f then pixelShader src else pixelShader dst),
     material := (if f_material f then material src else material dst),
     lights := (\<lambda>k. if f_lights f k then lights src k else lights dst k),
     bLightEnables := (\<lambda>k. if f_bLightEnables f k then bLightEnables src k else bLightEnables dst k),
     transforms := sel (f_transforms f) (transforms src) (transforms dst),
     textureStageStates := sel2 (f_textureStageStates f) (textureStageStates src) (textureStageStates dst),
     viewport := (if f_viewport f then viewport src else viewport dst),
     scissorRect := (if f_scissorRect f then scissorRect src else scissorRect dst),
     clipPlanes := sel (f_clipPlanes f) (clipPlanes src) (clipPlanes dst),
     vs_fConsts := sel (f_vs_fConsts f) (vs_fConsts src) (vs_fConsts dst),
     vs_iConsts := sel (f_vs_iConsts f) (vs_iConsts src) (vs_iConsts dst),
     vs_bConsts := sel_bits (f_vs_bConsts f) (vs_bConsts src) (vs_bConsts dst),
     ps_fConsts := sel (f_ps_fConsts f) (ps_fConsts src) (ps_fConsts dst),
     ps_iConsts := sel (f_ps_iConsts f) (ps_iConsts src) (ps_iConsts dst),
     ps_bConsts := sel_bits (f_ps_bConsts f) (ps_bConsts src) (ps_bConsts dst)\<rparr>"

text \<open>The declared sizes of the remaining arrays of \<open>State\<close> and of those of \<open>StateCaptureDirtyFlags\<close>.\<close>

definition consts_shape :: "dev_state \<Rightarrow> bool" where
  "consts_shape s \<longleftrightarrow> length (vs_fConsts s) = MaxFloatConstantsSoftware \<and> length (vs_iConsts s) = MaxOtherConstantsSoftware
     \<and> length (vs_bConsts s) = MaxOtherConstantsSoftware div 32 \<and> length (ps_fConsts s) = MaxFloatConstantsPS
     \<and> length (ps_iConsts s) = MaxOtherConstants \<and> length (ps_bConsts s) = max (MaxOtherConstants div 32) 1"

definition flags_shape :: "dirty_flags \<Rightarrow> bool" where
  "flags_shape f \<longleftrightarrow> length (f_renderStates f) = kNumRenderStates \<and> length (f_transforms f) = MaxTransforms
     \<and> length (f_samplerStates f) = kNumStageSamplers \<and> (\<forall>r \<in> set (f_samplerStates f). length r = kMaxStageSamplerStateTypes)
     \<and> length (f_textureStageStates f) = kNumStageSamplers \<and> (\<forall>r \<in> set (f_textureStageStates f). length r = kMaxTexStageStateTypes)
     \<and> length (f_streams f) = MaxStreams \<and> length (f_streamOffsetsAndStrides f) = MaxStreams \<and> length (f_streamFreqs f) = MaxStreams
     \<and> length (f_textures f) = kNumStageSamplers \<and> length (f_clipPlanes f) = MaxClipPlanes
     \<and> length (f_vs_fConsts f) = MaxFloatConstantsSoftware \<and> length (f_vs_iConsts f) = MaxOtherConstantsSoftware
     \<and> length (f_vs_bConsts f) = MaxOtherConstantsSoftware \<and> length (f_ps_fConsts f) = MaxFloatConstantsPS
     \<and> length (f_ps_iConsts f) = MaxOtherConstants \<and> length (f_ps_bConsts f) = MaxOtherConstants"

section \<open>Loops over indices\<close>

lemma fold_update_nth:
  "k < length dst \<Longrightarrow> fold (\<lambda>i d. d[g i := src ! g i]) is dst ! k = (if k \<in> g ` set is then src ! k else dst ! k)"
  by (induction "is" arbitrary: dst) (auto simp: nth_list_update)

lemma fold_update_length [simp]: "length (fold (\<lambda>i d. d[g i := h i d]) is dst) = length dst"
  by (induction "is" arbitrary: dst) simp_all

lemma set_collect:
  assumes "length arr \<le> 2 ^ LENGTH('a::len)"
  shows "unat ` set (collect arr :: 'a word list) = {i. i < length arr \<and> arr ! i}"
proof -
  have "i < length arr \<Longrightarrow> unat (word_of_nat i :: 'a word) = i" for i
    using assms by (simp add: unat_of_nat take_bit_nat_eq_self)
  then show ?thesis by (force simp: collect_def image_image)
qed

lemma copy_at_collect:
  assumes "length fs \<le> 2 ^ LENGTH('a::len)" "length fs = length dst"
  shows "copy_at (collect fs :: 'a word list) src dst = sel fs src dst"
proof (rule nth_equalityI)
  show "length (copy_at (collect fs :: 'a word list) src dst) = length (sel fs src dst)"
    by (simp add: copy_at_def sel_def)
  fix k assume "k < length (copy_at (collect fs :: 'a word list) src dst)"
  then have k: "k < length dst" by (simp add: copy_at_def)
  then show "copy_at (collect fs :: 'a word list) src dst ! k = sel fs src dst ! k"
    unfolding copy_at_def fold_update_nth [OF k] set_collect [OF assms(1)] by (simp add: sel_def assms(2))
qed

lemma length_filter_eq_iff: "length (filter P xs) = length xs \<longleftrightarrow> (\<forall>x \<in> set xs. P x)"
proof (induction xs)
  case (Cons x xs)
  have "length (filter P xs) \<noteq> Suc (length xs)" using length_filter_le [of P xs] by linarith
  then show ?case using Cons by auto
qed simp

lemma all_flag_iff: "all_flag fs \<longleftrightarrow> (\<forall>i < length fs. fs ! i)"
  using length_filter_eq_iff [of "\<lambda>i. fs ! i" "[0..<length fs]"] by (auto simp: all_flag_def collect_def)

lemma sel_all: "\<forall>i < length dst. fs ! i \<Longrightarrow> length src = length dst \<Longrightarrow> sel fs src dst = src"
  by (auto simp: sel_def intro: nth_equalityI)

lemma planned_copy:
  assumes "length fs \<le> 2 ^ LENGTH('a::len)" "length fs = length dst" "length src = length dst"
  shows "(if all_flag fs then src else copy_at (collect fs :: 'a word list) src dst) = sel fs src dst"
  using copy_at_collect [OF assms(1,2)] sel_all [of dst fs src] assms by (auto simp: all_flag_iff)

subsection \<open>Stage and type keys\<close>

lemma key_parts:
  assumes "i < 1024" "j < 64"
  shows "unat (drop_bit 6 (word_of_nat (i * 64 + j) :: u16)) = i" "unat ((word_of_nat (i * 64 + j) :: u16) AND 63) = j"
proof -
  have u: "unat (word_of_nat (i * 64 + j) :: u16) = i * 64 + j"
    using assms by (simp add: unat_of_nat take_bit_nat_eq_self del: of_nat_add of_nat_mult)
  define k :: u16 where "k = word_of_nat (i * 64 + j)"
  have k: "unat k = i * 64 + j" using u by (simp add: k_def)
  have "k AND 63 = take_bit 6 k" by (simp add: take_bit_eq_mask mask_eq_exp_minus_1)
  then have "unat (k AND 63) = j" using k assms by (simp add: unsigned_take_bit_eq take_bit_nat_def)
  then show "unat ((word_of_nat (i * 64 + j) :: u16) AND 63) = j" by (simp add: k_def)
  have "unat (drop_bit 6 k) = i" using k assms by (simp add: drop_bit_eq_div unat_div)
  then show "unat (drop_bit 6 (word_of_nat (i * 64 + j) :: u16)) = i" by (simp add: k_def)
qed

definition key_pair :: "u16 \<Rightarrow> nat \<times> nat" where
  "key_pair k = (unat (drop_bit 6 k), unat (k AND 63))"

lemma set_collect2:
  assumes "length arr \<le> 1024" "\<forall>r \<in> set arr. length r \<le> 64"
  shows "key_pair ` set (collect2 arr) = {(i, j). i < length arr \<and> j < length (arr ! i) \<and> arr ! i ! j}"
proof -
  have kp: "key_pair (word_of_nat (i * 64 + j)) = (i, j)" if "i < length arr" "j < length (arr ! i)" for i j
  proof -
    have "arr ! i \<in> set arr" using that by simp
    then have "length (arr ! i) \<le> 64" using assms(2) by blast
    then show ?thesis using key_parts [of i j] that assms(1) by (simp add: key_pair_def del: of_nat_add of_nat_mult)
  qed
  have "set (collect2 arr) = (\<lambda>(i, j). word_of_nat (i * 64 + j)) ` {(i, j). i < length arr \<and> j < length (arr ! i) \<and> arr ! i ! j}"
    by (auto simp: collect2_def simp del: of_nat_add of_nat_mult)
  then have "key_pair ` set (collect2 arr) = (\<lambda>(i, j). key_pair (word_of_nat (i * 64 + j))) `
      {(i, j). i < length arr \<and> j < length (arr ! i) \<and> arr ! i ! j}"
    by (simp add: image_image case_prod_beta del: of_nat_add of_nat_mult)
  also have "\<dots> = (\<lambda>x. x) ` {(i, j). i < length arr \<and> j < length (arr ! i) \<and> arr ! i ! j}"
    using kp by (intro image_cong) auto
  finally show ?thesis by simp
qed

lemma copy_keys_Cons:
  "copy_keys (k # ks) src dst = copy_keys ks src (upd2 (fst (key_pair k)) (snd (key_pair k)) (src ! fst (key_pair k) ! snd (key_pair k)) dst)"
  by (simp add: copy_keys_def Let_def upd2_def key_pair_def)

lemma upd2_length [simp]: "length (upd2 i j v xss) = length xss"
  by (simp add: upd2_def)

lemma upd2_row_length [simp]: "length (upd2 i j v xss ! k) = length (xss ! k)"
  by (cases "i = k"; cases "i < length xss") (simp_all add: upd2_def list_update_beyond)

lemma upd2_nth:
  "i < length xss \<Longrightarrow> j < length (xss ! i) \<Longrightarrow> upd2 a b v xss ! i ! j = (if (a, b) = (i, j) then v else xss ! i ! j)"
  by (cases "a = i") (simp_all add: upd2_def nth_list_update)

lemma copy_keys_length [simp]: "length (copy_keys ks src dst) = length dst"
  by (induction ks arbitrary: dst) (simp_all add: copy_keys_Cons, simp add: copy_keys_def)

lemma copy_keys_row_length [simp]: "length (copy_keys ks src dst ! i) = length (dst ! i)"
  by (induction ks arbitrary: dst) (simp_all add: copy_keys_Cons, simp add: copy_keys_def)

lemma copy_keys_nth:
  assumes "i < length dst" "j < length (dst ! i)"
  shows "copy_keys ks src dst ! i ! j = (if (i, j) \<in> key_pair ` set ks then src ! i ! j else dst ! i ! j)"
  using assms
proof (induction ks arbitrary: dst)
  case (Cons k ks)
  then show ?case by (cases "key_pair k") (auto simp: copy_keys_Cons upd2_nth)
qed (simp add: copy_keys_def)

lemma copy_keys_collect2:
  assumes "length fss = length dst" "\<forall>r \<in> set fss. length r = n" "\<forall>r \<in> set dst. length r = n" "length dst \<le> 1024" "n \<le> 64"
  shows "copy_keys (collect2 fss) src dst = sel2 fss src dst"
proof (rule nth_equalityI)
  show "length (copy_keys (collect2 fss) src dst) = length (sel2 fss src dst)" by (simp add: sel2_def)
  fix i assume "i < length (copy_keys (collect2 fss) src dst)"
  then have i: "i < length dst" by simp
  have s: "key_pair ` set (collect2 fss) = {(i, j). i < length fss \<and> j < length (fss ! i) \<and> fss ! i ! j}"
    using assms by (intro set_collect2) auto
  show "copy_keys (collect2 fss) src dst ! i = sel2 fss src dst ! i"
  proof (rule nth_equalityI)
    fix j assume "j < length (copy_keys (collect2 fss) src dst ! i)"
    then have j: "j < length (dst ! i)" by simp
    then show "copy_keys (collect2 fss) src dst ! i ! j = sel2 fss src dst ! i ! j"
      using i assms copy_keys_nth [OF i j, of "collect2 fss" src] s by (simp add: sel2_def sel_def)
  qed (use i in \<open>simp add: sel2_def sel_def\<close>)
qed

lemma length_collect2: "length (collect2 arr) = sum_list (map (\<lambda>r. length (filter (\<lambda>x. x) r)) arr)"
proof -
  have "length (filter (\<lambda>j. r ! j) [0..<length r]) = length (filter (\<lambda>x. x) r)" for r :: "bool list"
    using length_filter_map [of "\<lambda>x. x" "\<lambda>j. r ! j" "[0..<length r]"] by (simp add: map_nth comp_def)
  then have "length (collect2 arr) = sum_list (map (\<lambda>i. length (filter (\<lambda>x. x) (arr ! i))) [0..<length arr])"
    by (simp add: collect2_def length_concat comp_def)
  also have "map (\<lambda>i. length (filter (\<lambda>x. x) (arr ! i))) [0..<length arr] = map (\<lambda>r. length (filter (\<lambda>x. x) r)) arr"
    by (rule nth_equalityI) simp_all
  finally show ?thesis .
qed

lemma all_flag2_iff: "all_flag2 arr \<longleftrightarrow> (\<forall>r \<in> set arr. \<forall>x \<in> set r. x)"
proof -
  have "sum_list (map (\<lambda>r. length (filter (\<lambda>x. x) r)) arr) = sum_list (map length arr) \<longleftrightarrow> (\<forall>r \<in> set arr. \<forall>x \<in> set r. x)"
  proof (induction arr)
    case (Cons r arr)
    let ?n = "sum_list (map (\<lambda>r. length (filter (\<lambda>x. x) r)) arr)" and ?m = "length (filter (\<lambda>x. x) r)"
    have "?n \<le> sum_list (map length arr)" by (rule sum_list_mono) simp
    moreover have "?m \<le> length r" by (rule length_filter_le)
    ultimately have "?m + ?n = length r + sum_list (map length arr) \<longleftrightarrow> ?m = length r \<and> ?n = sum_list (map length arr)"
      by linarith
    then show ?case using Cons length_filter_eq_iff [of "\<lambda>x. x" r] by simp
  qed simp
  then show ?thesis by (simp add: all_flag2_def length_collect2)
qed

lemma sel2_all:
  assumes "\<forall>r \<in> set fss. \<forall>x \<in> set r. x" "length fss = length dst" "length src = length dst"
    "\<forall>r \<in> set fss. length r = n" "\<forall>r \<in> set dst. length r = n" "\<forall>r \<in> set src. length r = n"
  shows "sel2 fss src dst = src"
proof (rule nth_equalityI)
  fix i assume "i < length (sel2 fss src dst)"
  then have i: "i < length dst" by (simp add: sel2_def)
  then have "fss ! i \<in> set fss" "dst ! i \<in> set dst" "src ! i \<in> set src" using assms by simp_all
  then have "\<forall>k < n. fss ! i ! k" using assms(1,4) by (metis nth_mem)
  with \<open>dst ! i \<in> set dst\<close> \<open>src ! i \<in> set src\<close>
  have "sel (fss ! i) (src ! i) (dst ! i) = src ! i" using assms(5,6) by (intro sel_all) auto
  then show "sel2 fss src dst ! i = src ! i" using i by (simp add: sel2_def)
qed (simp add: sel2_def assms)

lemma planned_copy_keys:
  assumes "length fss = length dst" "length src = length dst" "\<forall>r \<in> set fss. length r = n" "\<forall>r \<in> set dst. length r = n"
    "\<forall>r \<in> set src. length r = n" "length dst \<le> 1024" "n \<le> 64"
  shows "(if all_flag2 fss then src else copy_keys (collect2 fss) src dst) = sel2 fss src dst"
  using copy_keys_collect2 [OF assms(1,3,4,6,7)] sel2_all [of fss dst src n] assms by (auto simp: all_flag2_iff)

subsection \<open>Boolean constants\<close>

lemma copy_bits_length [simp]: "length (copy_bits is src dst) = length dst"
  by (simp add: copy_bits_def Let_def)

lemma bit_index:
  assumes "b < (32::nat)"
  shows "32 * w + b = n \<longleftrightarrow> w = n div 32 \<and> b = n mod 32"
  using assms by auto

lemma copy_bits_bit:
  assumes "w < length dst" "b < 32"
  shows "bit (copy_bits is src dst ! w) b = (if 32 * w + b \<in> unat ` set is then bit (src ! w) b else bit (dst ! w) b)"
  using assms
proof (induction "is" arbitrary: dst)
  case (Cons i "is")
  let ?w = "unat i div 32" and ?m = "push_bit (unat i mod 32) 1 :: u32"
  let ?d = "dst[?w := if src ! ?w AND ?m \<noteq> 0 then dst ! ?w OR ?m else dst ! ?w AND NOT ?m]"
  have r: "copy_bits (i # is) src dst = copy_bits is src ?d" by (simp add: copy_bits_def Let_def)
  have m: "src ! ?w AND ?m \<noteq> 0 \<longleftrightarrow> bit (src ! ?w) (unat i mod 32)"
    by (simp add: and_exp_eq_0_iff_not_bit push_bit_eq_mult flip: exp_eq_0_imp_not_bit)
  have eq: "32 * w + b = unat i \<longleftrightarrow> w = ?w \<and> b = unat i mod 32" by (rule bit_index [OF Cons.prems(2)])
  have "bit (?d ! w) b = (if 32 * w + b = unat i then bit (src ! w) b else bit (dst ! w) b)"
    using Cons.prems m eq by (cases "w = ?w") (auto simp: bit_simps)
  then show ?case unfolding r using Cons.IH [of ?d] Cons.prems by auto
qed (simp add: copy_bits_def)

lemma copy_bits_collect:
  assumes "length fs \<le> 65536"
  shows "copy_bits (collect fs) src dst = sel_bits fs src dst"
proof (rule nth_equalityI)
  fix w assume "w < length (copy_bits (collect fs) src dst)"
  then have w: "w < length dst" by simp
  show "copy_bits (collect fs) src dst ! w = sel_bits fs src dst ! w"
  proof (rule bit_word_eqI)
    fix b assume "b < LENGTH(32)"
    then have b: "b < 32" by simp
    have s: "unat ` set (collect fs :: u16 list) = {i. i < length fs \<and> fs ! i}"
      using assms by (intro set_collect) simp
    show "bit (copy_bits (collect fs) src dst ! w) b = bit (sel_bits fs src dst ! w) b"
      unfolding copy_bits_bit [OF w b] s using w b by (simp add: sel_bits_def bit_horner_sum_bit_word_iff)
  qed
qed (simp add: sel_bits_def)


section \<open>Transfer by plan and by flags\<close>

lemma transfer_lists:
  assumes "flags_shape f" "state_shape src" "state_shape dst" "consts_shape src" "consts_shape dst"
  shows "(if allRenderStates (buildPlan f) then renderStates src
      else copy_at (p_renderStates (buildPlan f)) (renderStates src) (renderStates dst)) = sel (f_renderStates f) (renderStates src) (renderStates dst)"
    "(if allTransforms (buildPlan f) then transforms src
      else copy_at (p_transforms (buildPlan f)) (transforms src) (transforms dst)) = sel (f_transforms f) (transforms src) (transforms dst)"
    "copy_at (p_streams (buildPlan f)) (streams src) (streams dst) = sel (f_streams f) (streams src) (streams dst)"
    "copy_at (p_streamOffsetsAndStrides (buildPlan f)) (streamOffsetsStrides src) (streamOffsetsStrides dst)
      = sel (f_streamOffsetsAndStrides f) (streamOffsetsStrides src) (streamOffsetsStrides dst)"
    "copy_at (p_streamFreqs (buildPlan f)) (streamFreqs src) (streamFreqs dst) = sel (f_streamFreqs f) (streamFreqs src) (streamFreqs dst)"
    "copy_at (p_textures (buildPlan f)) (textures src) (textures dst) = sel (f_textures f) (textures src) (textures dst)"
    "copy_at (p_clipPlanes (buildPlan f)) (clipPlanes src) (clipPlanes dst) = sel (f_clipPlanes f) (clipPlanes src) (clipPlanes dst)"
    "(if allVsF (buildPlan f) then vs_fConsts src
      else copy_at (p_vsF (buildPlan f)) (vs_fConsts src) (vs_fConsts dst)) = sel (f_vs_fConsts f) (vs_fConsts src) (vs_fConsts dst)"
    "(if allVsI (buildPlan f) then vs_iConsts src
      else copy_at (p_vsI (buildPlan f)) (vs_iConsts src) (vs_iConsts dst)) = sel (f_vs_iConsts f) (vs_iConsts src) (vs_iConsts dst)"
    "(if allPsF (buildPlan f) then ps_fConsts src
      else copy_at (p_psF (buildPlan f)) (ps_fConsts src) (ps_fConsts dst)) = sel (f_ps_fConsts f) (ps_fConsts src) (ps_fConsts dst)"
    "(if allPsI (buildPlan f) then ps_iConsts src
      else copy_at (p_psI (buildPlan f)) (ps_iConsts src) (ps_iConsts dst)) = sel (f_ps_iConsts f) (ps_iConsts src) (ps_iConsts dst)"
  using assms unfolding flags_shape_def state_shape_def consts_shape_def buildPlan_def TransferPlan.simps
  by (intro planned_copy copy_at_collect; simp add: shape_defs)+

lemma transfer_keys:
  assumes "flags_shape f" "state_shape src" "state_shape dst"
  shows "(if allSamplerStates (buildPlan f) then samplerStates src
      else copy_keys (p_samplerStates (buildPlan f)) (samplerStates src) (samplerStates dst)) = sel2 (f_samplerStates f) (samplerStates src) (samplerStates dst)"
    "(if allTextureStageStates (buildPlan f) then textureStageStates src
      else copy_keys (p_textureStageStates (buildPlan f)) (textureStageStates src) (textureStageStates dst))
      = sel2 (f_textureStageStates f) (textureStageStates src) (textureStageStates dst)"
proof -
  show "(if allSamplerStates (buildPlan f) then samplerStates src
      else copy_keys (p_samplerStates (buildPlan f)) (samplerStates src) (samplerStates dst)) = sel2 (f_samplerStates f) (samplerStates src) (samplerStates dst)"
    using assms unfolding flags_shape_def state_shape_def buildPlan_def TransferPlan.simps
    by (intro planned_copy_keys [where n = kMaxStageSamplerStateTypes]) (simp_all add: shape_defs)
  show "(if allTextureStageStates (buildPlan f) then textureStageStates src
      else copy_keys (p_textureStageStates (buildPlan f)) (textureStageStates src) (textureStageStates dst))
      = sel2 (f_textureStageStates f) (textureStageStates src) (textureStageStates dst)"
    using assms unfolding flags_shape_def state_shape_def buildPlan_def TransferPlan.simps
    by (intro planned_copy_keys [where n = kMaxTexStageStateTypes]) (simp_all add: shape_defs)
qed

lemma transfer_bits:
  assumes "flags_shape f"
  shows "copy_bits (p_vsB (buildPlan f)) src dst = sel_bits (f_vs_bConsts f) src dst"
    "copy_bits (p_psB (buildPlan f)) src dst = sel_bits (f_ps_bConsts f) src dst"
  using assms by (simp_all add: buildPlan_def flags_shape_def copy_bits_collect shape_defs)

lemma StateTransfer_ref:
  assumes "flags_shape f" "state_shape src" "state_shape dst" "consts_shape src" "consts_shape dst"
  shows "StateTransfer (buildPlan f) f src dst = transfer_ref f src dst"
  unfolding StateTransfer_def transfer_ref_def
  by (simp only: transfer_lists [OF assms] transfer_keys [OF assms(1-3)] transfer_bits [OF assms(1)])


lemma sel_length [simp]: "length (sel fs src dst) = length dst"
  by (simp add: sel_def)

lemma sel_nth [simp]: "i < length dst \<Longrightarrow> sel fs src dst ! i = (if fs ! i then src ! i else dst ! i)"
  by (simp add: sel_def)

lemma sel_sel: "length j = length d \<Longrightarrow> sel fs (sel fs s j) d = sel fs s d"
  by (rule nth_equalityI) simp_all

lemma sel2_length [simp]: "length (sel2 fss src dst) = length dst"
  by (simp add: sel2_def)

lemma sel2_nth [simp]: "i < length dst \<Longrightarrow> sel2 fss src dst ! i = sel (fss ! i) (src ! i) (dst ! i)"
  by (simp add: sel2_def)

lemma sel2_sel2:
  assumes "length j = length d" "\<forall>r \<in> set j. length r = n" "\<forall>r \<in> set d. length r = n"
  shows "sel2 fss (sel2 fss s j) d = sel2 fss s d"
  using assms by (intro nth_equalityI) (simp_all add: sel_sel)

lemma sel2_rows:
  assumes "\<forall>r \<in> set d. length r = n"
  shows "\<forall>r \<in> set (sel2 fss s d). length r = n"
  using assms by (auto simp: sel2_def)

lemma sel_bits_length [simp]: "length (sel_bits fs src dst) = length dst"
  by (simp add: sel_bits_def)

lemma sel_bits_sel_bits: "length j = length d \<Longrightarrow> sel_bits fs (sel_bits fs s j) d = sel_bits fs s d"
  by (auto simp: sel_bits_def bit_horner_sum_bit_word_iff intro!: arg_cong [where f = "horner_sum of_bool 2"])

lemma transfer_ref_shape:
  assumes "state_shape dst" "consts_shape dst"
  shows "state_shape (transfer_ref f src dst)" "consts_shape (transfer_ref f src dst)"
proof -
  have "\<forall>r \<in> set (sel2 (f_samplerStates f) (samplerStates src) (samplerStates dst)). length r = kMaxStageSamplerStateTypes"
    "\<forall>r \<in> set (sel2 (f_textureStageStates f) (textureStageStates src) (textureStageStates dst)). length r = kMaxTexStageStateTypes"
    using assms(1) unfolding state_shape_def by (intro sel2_rows; blast)+
  then show "state_shape (transfer_ref f src dst)"
    using state_shape_lengths [OF assms(1)] by (simp add: transfer_ref_def state_shape_def)
  show "consts_shape (transfer_ref f src dst)"
    using assms(2) by (simp add: transfer_ref_def consts_shape_def)
qed

lemma transfer_ref_through:
  assumes "state_shape j" "consts_shape j" "state_shape d" "consts_shape d"
  shows "transfer_ref f (transfer_ref f s j) d = transfer_ref f s d"
proof -
  have "sel2 (f_samplerStates f) (sel2 (f_samplerStates f) (samplerStates s) (samplerStates j)) (samplerStates d)
      = sel2 (f_samplerStates f) (samplerStates s) (samplerStates d)"
    using assms unfolding state_shape_def by (intro sel2_sel2 [where n = kMaxStageSamplerStateTypes]) simp_all
  moreover have "sel2 (f_textureStageStates f) (sel2 (f_textureStageStates f) (textureStageStates s) (textureStageStates j)) (textureStageStates d)
      = sel2 (f_textureStageStates f) (textureStageStates s) (textureStageStates d)"
    using assms unfolding state_shape_def by (intro sel2_sel2 [where n = kMaxTexStageStateTypes]) simp_all
  ultimately show ?thesis
    using assms unfolding state_shape_def consts_shape_def transfer_ref_def
    by (simp add: sel_sel sel_bits_sel_bits if_distrib cong: if_cong)
qed

section \<open>Flags of a created block\<close>

lemma flag_list_length [simp]: "length (flag_list is bs) = length bs"
  by (induction "is" arbitrary: bs) (simp_all add: flag_list_def)

lemma flag_list_Cons: "flag_list (i # is) bs = flag_list is (bs[i := True])"
  by (simp add: flag_list_def)

lemma flag_list_nth: "k < length bs \<Longrightarrow> flag_list is bs ! k \<longleftrightarrow> k \<in> set is \<or> bs ! k"
proof (induction "is" arbitrary: bs)
  case (Cons i "is")
  then show ?case by (cases "i = k") (simp_all add: flag_list_Cons)
qed (simp add: flag_list_def)

lemma fold_rows_length [simp]: "length (fold (\<lambda>i s. s[i := g i s]) is ss) = length ss"
  by (induction "is" arbitrary: ss) simp_all

lemma fold_rows_nth:
  "distinct is \<Longrightarrow> k < length ss \<Longrightarrow> fold (\<lambda>i s. s[i := flag_list js (s ! i)]) is ss ! k = (if k \<in> set is then flag_list js (ss ! k) else ss ! k)"
proof (induction "is" arbitrary: ss)
  case (Cons i "is")
  then show ?case by (cases "i = k") simp_all
qed simp

abbreviation all_flags :: dirty_flags where
  "all_flags \<equiv> StateBlockSetCaptureFlags D3DSBT_ALL no_flags"

lemma sampler_flags_all:
  assumes "i < kNumStageSamplers"
  shows "f_samplerStates all_flags ! i = (if i \<le> MaxTexturesPS then flag_list [1, 2, 3, 4, 5, 6, 7, 8, 9, 10, 11, 12]
      (replicate kMaxStageSamplerStateTypes False) else replicate kMaxStageSamplerStateTypes False)"
  using assms
  by (simp add: StateBlockSetCaptureFlags_def StateBlockSetVertexCaptureFlags_def StateBlockSetPixelCaptureFlags_def
      D3DSBT_ALL_def Let_def no_flags_def fold_rows_nth shape_defs del: upt_Suc)

lemma all_flags_shape: "flags_shape all_flags"
proof -
  have "length (f_samplerStates all_flags) = kNumStageSamplers"
    by (simp add: StateBlockSetCaptureFlags_def StateBlockSetVertexCaptureFlags_def StateBlockSetPixelCaptureFlags_def
        D3DSBT_ALL_def Let_def no_flags_def)
  moreover from this have "\<forall>r \<in> set (f_samplerStates all_flags). length r = kMaxStageSamplerStateTypes"
    by (auto simp: in_set_conv_nth sampler_flags_all)
  ultimately show ?thesis
    by (simp add: flags_shape_def)
      (simp add: StateBlockSetCaptureFlags_def StateBlockSetVertexCaptureFlags_def StateBlockSetPixelCaptureFlags_def
        D3DSBT_ALL_def Let_def no_flags_def)
qed

lemma all_flags_other:
  "f_vertexDecl all_flags" "f_indices all_flags" "f_material all_flags" "f_viewport all_flags" "f_scissorRect all_flags"
  "\<not> f_vertexShader all_flags" "\<not> f_pixelShader all_flags" "\<not> f_lights all_flags k" "\<not> f_bLightEnables all_flags k"
  "f_transforms all_flags = replicate MaxTransforms True" "f_textures all_flags = replicate kNumStageSamplers True"
  "f_streams all_flags = replicate MaxStreams True" "f_streamOffsetsAndStrides all_flags = replicate MaxStreams True"
  "f_streamFreqs all_flags = replicate MaxStreams True" "f_clipPlanes all_flags = replicate MaxClipPlanes True"
  "f_vs_fConsts all_flags = replicate MaxFloatConstantsSoftware True" "f_ps_fConsts all_flags = replicate MaxFloatConstantsPS True"
  "f_textureStageStates all_flags = replicate kNumStageSamplers (replicate kMaxTexStageStateTypes True)"
  "f_renderStates all_flags = flag_list vertexRenderStates (flag_list pixelRenderStates (replicate kNumRenderStates False))"
  by (simp_all add: StateBlockSetCaptureFlags_def StateBlockSetVertexCaptureFlags_def StateBlockSetPixelCaptureFlags_def
      D3DSBT_ALL_def Let_def no_flags_def map_replicate_const)


section \<open>Properties\<close>

text \<open>C21. The transfer by plan, which copies whole arrays when every flag of a group is set and otherwise walks
  lists of indices cast to 8 or 16 bits and of packed stage and type keys, copies exactly what a walk over
  all flags copies: no index is lost by the casts and no other element changes.\<close>

theorem plan_transfer_is_flagwise:
  assumes "flags_shape f" and "state_shape src" and "state_shape dst" and "consts_shape src" and "consts_shape dst"
  shows "StateTransfer (buildPlan f) f src dst = transfer_ref f src dst"
  by (rule StateTransfer_ref [OF assms])

definition blank_state :: dev_state where
  "blank_state = \<lparr>renderTargets = replicate MaxSimultaneousRenderTargets 0, depthStencil = 0,
     transforms = replicate MaxTransforms [], viewport = [], material = [],
     lights = (\<lambda>_. []), bLightEnables = (\<lambda>_. False), clipPlanes = replicate MaxClipPlanes [],
     renderStates = replicate kNumRenderStates 0, textures = replicate kNumStageSamplers (0, 0),
     textureStageStates = replicate kNumStageSamplers (replicate kMaxTexStageStateTypes 0),
     samplerStates = replicate kNumStageSamplers (replicate kMaxStageSamplerStateTypes 0), scissorRect = [],
     vertexDecl = 0, vertexShader = 0, vs_fConsts = replicate MaxFloatConstantsSoftware [],
     vs_iConsts = replicate MaxOtherConstantsSoftware [], vs_bConsts = replicate (MaxOtherConstantsSoftware div 32) 0,
     streams = replicate MaxStreams 0, streamOffsetsStrides = replicate MaxStreams (0, 0), streamFreqs = replicate MaxStreams 1,
     indices = 0, pixelShader = 0, ps_fConsts = replicate MaxFloatConstantsPS [], ps_iConsts = replicate MaxOtherConstants [],
     ps_bConsts = replicate (max (MaxOtherConstants div 32) 1) 0\<rparr>"

lemma blank_shape: "state_shape blank_state" "consts_shape blank_state"
  by (simp_all add: blank_state_def state_shape_def consts_shape_def)

theorem plan_transfer_is_flagwise_witness:
  "StateTransfer (buildPlan all_flags) all_flags blank_state (blank_state\<lparr>viewport := [1]\<rparr>)
     = transfer_ref all_flags blank_state (blank_state\<lparr>viewport := [1]\<rparr>)"
proof (rule plan_transfer_is_flagwise [OF all_flags_shape blank_shape(1) _ blank_shape(2)])
  show "state_shape (blank_state\<lparr>viewport := [1]\<rparr>)"
    using blank_shape(1) by (simp add: state_shape_def)
  show "consts_shape (blank_state\<lparr>viewport := [1]\<rparr>)"
    using blank_shape(2) by (simp add: consts_shape_def)
qed

text \<open>C22. Capturing a block at one state of the device and applying it at another gives the later state
  with exactly the flagged elements as they were at the capture, whatever the block held before.\<close>

theorem capture_then_apply:
  assumes "flags_shape (m_dirtyFlags sb)" and "m_stateRecording d = None"
    and "state_shape (m_captureState sb)" and "consts_shape (m_captureState sb)"
    and "state_shape (m_state d)" and "consts_shape (m_state d)" and "state_shape (m_state d')" and "consts_shape (m_state d')"
    and "sb_Capture sb d = (r, sb', msgs)" and "sb_Apply sb' d' = (r', d'', msgs')"
  shows "m_state d'' = transfer_ref (m_dirtyFlags sb) (m_state d) (m_state d')"
proof -
  let ?f = "m_dirtyFlags sb"
  have sb': "m_dirtyFlags sb' = ?f" "m_captureState sb' = transfer_ref ?f (m_state d) (m_captureState sb)"
    using assms(2,9) StateTransfer_ref [OF assms(1,5,3,6,4)] by (auto simp: sb_Capture_def LocalCapture_def)
  have "m_state d'' = StateTransfer (buildPlan ?f) ?f (transfer_ref ?f (m_state d) (m_captureState sb)) (m_state d')"
    using assms(10) sb' by (auto simp: sb_Apply_def set_state_def)
  also have "\<dots> = transfer_ref ?f (transfer_ref ?f (m_state d) (m_captureState sb)) (m_state d')"
    using assms transfer_ref_shape [OF assms(3,4)] by (intro StateTransfer_ref) auto
  also have "\<dots> = transfer_ref ?f (m_state d) (m_state d')"
    using assms by (intro transfer_ref_through)
  finally show ?thesis .
qed

definition blank_device :: device where
  "blank_device = \<lparr>m_state = blank_state, m_stateRecording = None, m_clipStatus = [], m_paletteEntries = (\<lambda>_. []),
     m_curTexPalette = 0, m_bSoftwareVtxProcessing = 0, m_NPatchMode = 0, m_FVF = 0, opt_eliminate = True,
     opt_sendAll = False, opt_batch = True\<rparr>"

definition blank_block :: stateblock where
  "blank_block = \<lparr>sb_id = 5, m_dirtyFlags = all_flags, m_captureState = blank_state\<rparr>"

theorem capture_then_apply_witness:
  "m_state (fst (snd (sb_Apply (fst (snd (sb_Capture blank_block blank_device))) blank_device)))
     = transfer_ref all_flags blank_state blank_state"
proof -
  obtain r sb' msgs where c: "sb_Capture blank_block blank_device = (r, sb', msgs)" by (rule prod_cases3)
  obtain r' d'' msgs' where a: "sb_Apply sb' blank_device = (r', d'', msgs')" by (rule prod_cases3)
  have "m_state d'' = transfer_ref (m_dirtyFlags blank_block) (m_state blank_device) (m_state blank_device)"
    by (rule capture_then_apply [OF _ _ _ _ _ _ _ _ c a])
      (simp_all add: blank_block_def blank_device_def blank_shape all_flags_shape)
  then have "m_state d'' = transfer_ref all_flags blank_state blank_state" by (simp add: blank_block_def blank_device_def)
  then show ?thesis by (simp add: c a)
qed

text \<open>What a block created with \<open>D3DSBT_ALL\<close> restores: the transforms, textures, streams, clip planes, texture
  stage states, shader constants, viewport, scissor rectangle, material, indices and vertex declaration, and
  each of the render states 7 to 209 of \<open>d3d9types.h\<close> that the two lists name.  What it does not restore,
  although it is part of the device state: the first sampler state (\<open>D3DSAMP_ADDRESSU\<close>) of every stage, all
  sampler states of the stages above 16, the vertex and pixel shader, and the lights.\<close>

theorem all_block_restores:
  assumes "state_shape s" and "consts_shape s" and "state_shape s'" and "consts_shape s'"
  defines "t \<equiv> StateTransfer (buildPlan all_flags) all_flags s s'"
  shows "transforms t = transforms s \<and> textures t = textures s \<and> streams t = streams s \<and> clipPlanes t = clipPlanes s
    \<and> streamOffsetsStrides t = streamOffsetsStrides s \<and> textureStageStates t = textureStageStates s \<and> vs_fConsts t = vs_fConsts s
    \<and> ps_fConsts t = ps_fConsts s \<and> viewport t = viewport s \<and> scissorRect t = scissorRect s \<and> material t = material s
    \<and> indices t = indices s \<and> vertexDecl t = vertexDecl s
    \<and> (\<forall>i \<in> set pixelRenderStates \<union> set vertexRenderStates. renderStates t ! i = renderStates s ! i)
    \<and> (\<forall>i < kNumStageSamplers. samplerStates t ! i ! 0 = samplerStates s' ! i ! 0)
    \<and> (\<forall>i < kNumStageSamplers. MaxTexturesPS < i \<longrightarrow> samplerStates t ! i = samplerStates s' ! i)
    \<and> vertexShader t = vertexShader s' \<and> pixelShader t = pixelShader s' \<and> lights t = lights s'"
proof -
  have t: "t = transfer_ref all_flags s s'"
    unfolding t_def using assms by (intro StateTransfer_ref all_flags_shape)
  have all: "sel (replicate n True) x y = x" if "length x = n" "length y = n" for n and x y :: "'z list"
    using that by (intro sel_all) simp_all
  have rs: "\<forall>i \<in> set pixelRenderStates \<union> set vertexRenderStates. i < kNumRenderStates"
    by (simp add: pixelRenderStates_def vertexRenderStates_def kNumRenderStates_def)
  have 1: "renderStates t ! i = renderStates s ! i" if "i \<in> set pixelRenderStates \<union> set vertexRenderStates" for i
    using that rs state_shape_lengths(3) [OF assms(3)] unfolding t transfer_ref_def
    by (auto simp: all_flags_other flag_list_nth)
  have 2: "samplerStates t ! i ! 0 = samplerStates s' ! i ! 0" if "i < kNumStageSamplers" for i
    using that state_shape_lengths(6) [OF assms(3)] state_shape_rows(2) [OF assms(3) that] unfolding t transfer_ref_def
    by (simp add: sampler_flags_all flag_list_nth shape_defs)
  have 3: "samplerStates t ! i = samplerStates s' ! i" if "i < kNumStageSamplers" "MaxTexturesPS < i" for i
    using that state_shape_lengths(6) [OF assms(3)] state_shape_rows(2) [OF assms(3) that(1)] unfolding t transfer_ref_def
    by (auto simp: sampler_flags_all intro!: nth_equalityI)
  have 4: "textureStageStates t = textureStageStates s"
    unfolding t transfer_ref_def using assms(1,3) unfolding state_shape_def
    by (simp add: all_flags_other) (intro sel2_all [where n = kMaxTexStageStateTypes], simp_all)
  show ?thesis
    using 1 2 3 4 state_shape_lengths [OF assms(1)] state_shape_lengths [OF assms(3)] assms(2,4)
    unfolding consts_shape_def by (simp add: t transfer_ref_def all_flags_other all)
qed

theorem all_block_restores_witness:
  "samplerStates (StateTransfer (buildPlan all_flags) all_flags blank_state blank_state) ! 3 ! 0 = samplerStates blank_state ! 3 ! 0
   \<and> renderStates (StateTransfer (buildPlan all_flags) all_flags blank_state blank_state) ! 7 = 0"
  using all_block_restores [OF blank_shape blank_shape] by (simp add: pixelRenderStates_def shape_defs blank_state_def)

end
