(* ===== verification/Shader_Constants.thy ===== *)
theory Shader_Constants
  imports Device_State Server_Dispatch
begin

text \<open>
  The shader constant registers of the client's device: \<open>setShaderConstants\<close>, \<open>getShaderConstants\<close> and
  \<open>commonGetSetConstants\<close>, and the twelve interface functions over them (\<open>d3d9_device.cpp\<close>).  Constant data are
  the bytes behind the application's pointer, \<open>None\<close> for a null pointer; register numbers and counts are 32-bit
  words and the arithmetic on them is that of the source.
\<close>

section \<open>Register layout\<close>

datatype ShaderType = Vertex | Pixel
datatype ConstantType = FloatConst | IntConst | BoolConst

definition getHardwareRegCount :: "ShaderType \<Rightarrow> ConstantType \<Rightarrow> nat" where
  "getHardwareRegCount st ct = (case ct of
     FloatConst \<Rightarrow> (case st of Vertex \<Rightarrow> MaxFloatConstantsVS | Pixel \<Rightarrow> MaxFloatConstantsPS)
   | IntConst \<Rightarrow> MaxOtherConstants | BoolConst \<Rightarrow> MaxOtherConstants)"

definition getSoftwareRegCount :: "ShaderType \<Rightarrow> ConstantType \<Rightarrow> nat" where
  "getSoftwareRegCount st ct = (case ct of
     FloatConst \<Rightarrow> (case st of Vertex \<Rightarrow> MaxFloatConstantsSoftware | Pixel \<Rightarrow> MaxFloatConstantsPS)
   | IntConst \<Rightarrow> (case st of Vertex \<Rightarrow> MaxOtherConstantsSoftware | Pixel \<Rightarrow> MaxOtherConstants)
   | BoolConst \<Rightarrow> (case st of Vertex \<Rightarrow> MaxOtherConstantsSoftware | Pixel \<Rightarrow> MaxOtherConstants))"

text \<open>The sum is taken in 32 bits; the clamp and the difference in signed 32 bits.\<close>

definition adjustCount :: "nat \<Rightarrow> u32 \<Rightarrow> u32 \<Rightarrow> u32" where
  "adjustCount hw startRegister count =
     (let c = max 0 (min (int hw) (sint (count + startRegister))) in
      word_of_int (max (sint (word_of_int (c - sint startRegister) :: u32)) 0))"

definition commonGetSetConstants :: "ShaderType \<Rightarrow> ConstantType \<Rightarrow> u32 \<Rightarrow> 'a option \<Rightarrow> u32 \<Rightarrow> HRESULT \<times> nat" where
  "commonGetSetConstants st ct startRegister pConstantData count =
    (if unat (startRegister + count) > getSoftwareRegCount st ct then (D3DERR_INVALIDCALL, unat count)
     else let adjCount = unat (adjustCount (getHardwareRegCount st ct) startRegister count) in
       if adjCount = 0 then (S_OK, adjCount)
       else if pConstantData = None then (D3DERR_INVALIDCALL, adjCount)
       else (S_OK, adjCount))"

section \<open>Registers as rows of 16 bytes\<close>

definition rows :: "nat \<Rightarrow> memory \<Rightarrow> (memory list) or_error" where
  "rows n bs = (if 16 * n \<le> length bs then Inr (map (\<lambda>i. take 16 (drop (16 * i) bs)) [0..<n]) else Inl OutOfBounds)"

definition get_rows :: "nat \<Rightarrow> nat \<Rightarrow> memory list \<Rightarrow> (memory list) or_error" where
  "get_rows start n xs = (if start + n \<le> length xs then Inr (take n (drop start xs)) else Inl OutOfBounds)"

definition put_rows :: "nat \<Rightarrow> memory list \<Rightarrow> memory list \<Rightarrow> memory list" where
  "put_rows start rs xs = take start xs @ rs @ drop (start + length rs) xs"

definition mark :: "nat \<Rightarrow> nat \<Rightarrow> bool list \<Rightarrow> bool list" where
  "mark start n fs = take start fs @ replicate n True @ drop (start + n) fs"

text \<open>Boolean registers are bits of 32-bit words.\<close>

definition put_bool :: "nat \<Rightarrow> bool \<Rightarrow> u32 list \<Rightarrow> u32 list or_error" where
  "put_bool k v ws = (if k div 32 < length ws
     then Inr (ws[k div 32 := (let w = ws ! (k div 32) AND NOT (push_bit (k mod 32) 1) in
                               if v then w OR push_bit (k mod 32) 1 else w)])
     else Inl OutOfBounds)"

fun put_bools :: "nat \<Rightarrow> bool list \<Rightarrow> u32 list \<Rightarrow> u32 list or_error" where
  "put_bools k [] ws = Inr ws"
| "put_bools k (v # vs) ws = bindE (put_bool k v ws) (put_bools (k + 1) vs)"

definition get_bool :: "nat \<Rightarrow> u32 list \<Rightarrow> bool or_error" where
  "get_bool k ws = (if k div 32 < length ws then Inr (ws ! (k div 32) AND push_bit (k mod 32) 1 \<noteq> 0) else Inl OutOfBounds)"

fun get_bools :: "nat \<Rightarrow> nat \<Rightarrow> u32 list \<Rightarrow> (bool list) or_error" where
  "get_bools k 0 ws = Inr []"
| "get_bools k (Suc n) ws = bindE (get_bool k ws) (\<lambda>v. bindE (get_bools (k + 1) n ws) (\<lambda>vs. Inr (v # vs)))"

section \<open>Members by shader and constant type\<close>

definition vec_consts :: "ShaderType \<Rightarrow> ConstantType \<Rightarrow> dev_state \<Rightarrow> memory list" where
  "vec_consts st ct s = (case (st, ct) of (Vertex, FloatConst) \<Rightarrow> vs_fConsts s | (Vertex, _) \<Rightarrow> vs_iConsts s
     | (Pixel, FloatConst) \<Rightarrow> ps_fConsts s | (Pixel, _) \<Rightarrow> ps_iConsts s)"

definition set_vec_consts :: "ShaderType \<Rightarrow> ConstantType \<Rightarrow> memory list \<Rightarrow> dev_state \<Rightarrow> dev_state" where
  "set_vec_consts st ct v s = (case (st, ct) of (Vertex, FloatConst) \<Rightarrow> s\<lparr>vs_fConsts := v\<rparr> | (Vertex, _) \<Rightarrow> s\<lparr>vs_iConsts := v\<rparr>
     | (Pixel, FloatConst) \<Rightarrow> s\<lparr>ps_fConsts := v\<rparr> | (Pixel, _) \<Rightarrow> s\<lparr>ps_iConsts := v\<rparr>)"

definition bool_consts :: "ShaderType \<Rightarrow> dev_state \<Rightarrow> u32 list" where
  "bool_consts st s = (case st of Vertex \<Rightarrow> vs_bConsts s | Pixel \<Rightarrow> ps_bConsts s)"

definition set_bool_consts :: "ShaderType \<Rightarrow> u32 list \<Rightarrow> dev_state \<Rightarrow> dev_state" where
  "set_bool_consts st v s = (case st of Vertex \<Rightarrow> s\<lparr>vs_bConsts := v\<rparr> | Pixel \<Rightarrow> s\<lparr>ps_bConsts := v\<rparr>)"

definition mark_consts :: "ShaderType \<Rightarrow> ConstantType \<Rightarrow> nat \<Rightarrow> nat \<Rightarrow> dirty_flags \<Rightarrow> dirty_flags" where
  "mark_consts st ct start n f = (case (st, ct) of
     (Vertex, FloatConst) \<Rightarrow> f\<lparr>f_vs_fConsts := mark start n (f_vs_fConsts f)\<rparr>
   | (Vertex, IntConst) \<Rightarrow> f\<lparr>f_vs_iConsts := mark start n (f_vs_iConsts f)\<rparr>
   | (Vertex, BoolConst) \<Rightarrow> f\<lparr>f_vs_bConsts := mark start n (f_vs_bConsts f)\<rparr>
   | (Pixel, FloatConst) \<Rightarrow> f\<lparr>f_ps_fConsts := mark start n (f_ps_fConsts f)\<rparr>
   | (Pixel, IntConst) \<Rightarrow> f\<lparr>f_ps_iConsts := mark start n (f_ps_iConsts f)\<rparr>
   | (Pixel, BoolConst) \<Rightarrow> f\<lparr>f_ps_bConsts := mark start n (f_ps_bConsts f)\<rparr>)"

text \<open>The state the helper works on and its update: the block being recorded, or the device.\<close>

definition target :: "device \<Rightarrow> dev_state" where
  "target d = (case m_stateRecording d of Some sb \<Rightarrow> m_captureState sb | None \<Rightarrow> m_state d)"

definition update_target :: "(dev_state \<Rightarrow> dev_state) \<Rightarrow> (dirty_flags \<Rightarrow> dirty_flags) \<Rightarrow> device \<Rightarrow> device" where
  "update_target f g d = (case m_stateRecording d of Some sb \<Rightarrow> set_capture sb f g d | None \<Rightarrow> set_state f d)"

section \<open>Set and get\<close>

definition bools_of :: "memory \<Rightarrow> bool list" where
  "bools_of bs = map (\<lambda>w. w \<noteq> 0) (words_of_bytes bs)"

definition setShaderConstants :: "ShaderType \<Rightarrow> ConstantType \<Rightarrow> u32 \<Rightarrow> memory option \<Rightarrow> u32 \<Rightarrow> device \<Rightarrow> (HRESULT \<times> device) or_error" where
  "setShaderConstants st ct startRegister pConstantData count d =
    (case commonGetSetConstants st ct startRegister pConstantData count of (hr, adjCount) \<Rightarrow>
     if hr \<noteq> S_OK \<or> adjCount = 0 then Inr (hr, d) else
     case pConstantData of None \<Rightarrow> Inr (hr, d) | Some bs \<Rightarrow>
     let start = unat startRegister in
     if ct = BoolConst then
       (if adjCount \<le> length (bools_of bs)
        then bindE (put_bools start (take adjCount (bools_of bs)) (bool_consts st (target d)))
          (\<lambda>ws. Inr (S_OK, update_target (set_bool_consts st ws) (mark_consts st ct start adjCount) d))
        else Inl OutOfBounds)
     else bindE (rows adjCount bs) (\<lambda>new.
       bindE (get_rows start adjCount (vec_consts st ct (target d))) (\<lambda>old.
       if ct = FloatConst \<and> opt_eliminate d \<and> m_stateRecording d = None \<and> old = new then Inr (S_FALSE, d)
       else Inr (S_OK, update_target (set_vec_consts st ct (put_rows start new (vec_consts st ct (target d))))
              (mark_consts st ct start adjCount) d))))"

text \<open>\<open>getShaderConstants\<close>; the result is what is written at the pointer, if anything.\<close>

definition bool_word :: "bool \<Rightarrow> u32" where
  "bool_word b = (if b then 1 else 0)"

definition getShaderConstants :: "ShaderType \<Rightarrow> ConstantType \<Rightarrow> u32 \<Rightarrow> unit option \<Rightarrow> u32 \<Rightarrow> device \<Rightarrow> (HRESULT \<times> memory) or_error" where
  "getShaderConstants st ct startRegister pConstantData count d =
    (case commonGetSetConstants st ct startRegister pConstantData count of (hr, adjCount) \<Rightarrow>
     if hr \<noteq> S_OK \<or> adjCount = 0 then Inr (hr, []) else
     let start = unat startRegister in
     if ct = BoolConst
     then bindE (get_bools start adjCount (bool_consts st (m_state d))) (\<lambda>vs. Inr (S_OK, concat (map (\<lambda>v. u32_bytes (bool_word v)) vs)))
     else bindE (get_rows start adjCount (vec_consts st ct (m_state d))) (\<lambda>rs. Inr (S_OK, concat rs)))"

section \<open>Interface functions\<close>

text \<open>The macro \<open>SetShaderConst\<close> and the answer it waits for.\<close>

definition SetShaderConst :: "string \<Rightarrow> u32 \<Rightarrow> memory \<Rightarrow> u32 \<Rightarrow> u32 \<Rightarrow> dev_msg" where
  "SetShaderConst func StartRegister bs Count bytes = Sent func [Word StartRegister, Word Count, Obj (Some (take (unat bytes) bs))]"

definition set_float_consts :: "ShaderType \<Rightarrow> string \<Rightarrow> (u32 \<Rightarrow> u32 list \<Rightarrow> u32 \<Rightarrow> d3d_call) \<Rightarrow> HRESULT \<Rightarrow> u32 \<Rightarrow> memory option \<Rightarrow> u32 \<Rightarrow> device \<Rightarrow> dev_result" where
  "set_float_consts st func mk resp StartRegister pConstantData Vector4fCount d =
    (case pConstantData of None \<Rightarrow> Inr (D3DERR_INVALIDCALL, d, []) | Some bs \<Rightarrow>
     bindE (setShaderConstants st FloatConst StartRegister pConstantData Vector4fCount d) (\<lambda>(hr, d1).
     if hr = S_FALSE then Inr (S_OK, d1, [])
     else if hr = S_OK then
       (if batchActive d1 then Inr (hr, d1, [Batched (mk StartRegister (words_of_bytes bs) Vector4fCount)])
        else Inr (optional_response d1 resp, d1, [SetShaderConst func StartRegister bs Vector4fCount (Vector4fCount * 4 * 4)]))
     else Inr (hr, d1, [])))"

definition dev_SetVertexShaderConstantF :: "HRESULT \<Rightarrow> u32 \<Rightarrow> memory option \<Rightarrow> u32 \<Rightarrow> device \<Rightarrow> dev_result" where
  "dev_SetVertexShaderConstantF = set_float_consts Vertex ''SetVertexShaderConstantF'' SetVertexShaderConstantF"

definition dev_SetPixelShaderConstantF :: "HRESULT \<Rightarrow> u32 \<Rightarrow> memory option \<Rightarrow> u32 \<Rightarrow> device \<Rightarrow> dev_result" where
  "dev_SetPixelShaderConstantF = set_float_consts Pixel ''SetPixelShaderConstantF'' SetPixelShaderConstantF"

definition set_other_consts :: "ShaderType \<Rightarrow> ConstantType \<Rightarrow> string \<Rightarrow> (u32 \<Rightarrow> u32) \<Rightarrow> HRESULT \<Rightarrow> u32 \<Rightarrow> memory option \<Rightarrow> u32 \<Rightarrow> device \<Rightarrow> dev_result" where
  "set_other_consts st ct func bytes resp StartRegister pConstantData Count d =
    (case pConstantData of None \<Rightarrow> Inr (D3DERR_INVALIDCALL, d, []) | Some bs \<Rightarrow>
     bindE (setShaderConstants st ct StartRegister pConstantData Count d) (\<lambda>(hr, d1).
     if hr = S_OK then Inr (optional_response d1 resp, d1, [SetShaderConst func StartRegister bs Count (bytes Count)])
     else Inr (hr, d1, [])))"

definition dev_SetVertexShaderConstantI :: "HRESULT \<Rightarrow> u32 \<Rightarrow> memory option \<Rightarrow> u32 \<Rightarrow> device \<Rightarrow> dev_result" where
  "dev_SetVertexShaderConstantI = set_other_consts Vertex IntConst ''SetVertexShaderConstantI'' (\<lambda>n. n * 4 * 4)"

definition dev_SetVertexShaderConstantB :: "HRESULT \<Rightarrow> u32 \<Rightarrow> memory option \<Rightarrow> u32 \<Rightarrow> device \<Rightarrow> dev_result" where
  "dev_SetVertexShaderConstantB = set_other_consts Vertex BoolConst ''SetVertexShaderConstantB'' (\<lambda>n. n * 4)"

definition dev_SetPixelShaderConstantI :: "HRESULT \<Rightarrow> u32 \<Rightarrow> memory option \<Rightarrow> u32 \<Rightarrow> device \<Rightarrow> dev_result" where
  "dev_SetPixelShaderConstantI = set_other_consts Pixel IntConst ''SetPixelShaderConstantI'' (\<lambda>n. n * 4 * 4)"

definition dev_SetPixelShaderConstantB :: "HRESULT \<Rightarrow> u32 \<Rightarrow> memory option \<Rightarrow> u32 \<Rightarrow> device \<Rightarrow> dev_result" where
  "dev_SetPixelShaderConstantB = set_other_consts Pixel BoolConst ''SetPixelShaderConstantB'' (\<lambda>n. n * 4)"

text \<open>The getters of \<open>Vertex\<close> constants and of \<open>Pixel\<close> float constants test the pointer first; the other two leave it
  to \<open>commonGetSetConstants\<close>.\<close>

definition get_checked :: "ShaderType \<Rightarrow> ConstantType \<Rightarrow> u32 \<Rightarrow> unit option \<Rightarrow> u32 \<Rightarrow> device \<Rightarrow> (HRESULT \<times> memory) or_error" where
  "get_checked st ct StartRegister pConstantData Count d =
    (if pConstantData = None then Inr (D3DERR_INVALIDCALL, []) else getShaderConstants st ct StartRegister pConstantData Count d)"

definition dev_GetVertexShaderConstantF :: "u32 \<Rightarrow> unit option \<Rightarrow> u32 \<Rightarrow> device \<Rightarrow> (HRESULT \<times> memory) or_error" where
  "dev_GetVertexShaderConstantF = get_checked Vertex FloatConst"

definition dev_GetVertexShaderConstantI :: "u32 \<Rightarrow> unit option \<Rightarrow> u32 \<Rightarrow> device \<Rightarrow> (HRESULT \<times> memory) or_error" where
  "dev_GetVertexShaderConstantI = get_checked Vertex IntConst"

definition dev_GetVertexShaderConstantB :: "u32 \<Rightarrow> unit option \<Rightarrow> u32 \<Rightarrow> device \<Rightarrow> (HRESULT \<times> memory) or_error" where
  "dev_GetVertexShaderConstantB = get_checked Vertex BoolConst"

definition dev_GetPixelShaderConstantF :: "u32 \<Rightarrow> unit option \<Rightarrow> u32 \<Rightarrow> device \<Rightarrow> (HRESULT \<times> memory) or_error" where
  "dev_GetPixelShaderConstantF = get_checked Pixel FloatConst"

definition dev_GetPixelShaderConstantI :: "u32 \<Rightarrow> unit option \<Rightarrow> u32 \<Rightarrow> device \<Rightarrow> (HRESULT \<times> memory) or_error" where
  "dev_GetPixelShaderConstantI = getShaderConstants Pixel IntConst"

definition dev_GetPixelShaderConstantB :: "u32 \<Rightarrow> unit option \<Rightarrow> u32 \<Rightarrow> device \<Rightarrow> (HRESULT \<times> memory) or_error" where
  "dev_GetPixelShaderConstantB = getShaderConstants Pixel BoolConst"


section \<open>Arithmetic\<close>

lemma sint_small: "unat (x::u32) < 2 ^ 31 \<Longrightarrow> sint x = int (unat x)"
proof -
  assume "unat x < 2 ^ 31"
  then have "int (unat x) < int (2 ^ 31)" by (simp only: of_nat_less_iff)
  then have "uint x < 2 ^ 31" by simp
  moreover have "- (2 ^ 31) \<le> uint x" by (rule order_trans [OF _ uint_ge_0]) simp
  ultimately show ?thesis by (simp add: sint_uint signed_take_bit_int_eq_self)
qed

lemma unat_sum_small: "unat (a::u32) + unat b < 2 ^ 32 \<Longrightarrow> unat (a + b) = unat a + unat b"
  by (simp add: unat_word_ariths)

lemma sint_diff_small: "m < 2 ^ 31 \<Longrightarrow> a < 2 ^ 31 \<Longrightarrow> sint (word_of_int (int m - int a) :: u32) = int m - int a"
  unfolding int_word_sint by (subst mod_pos_pos_trivial) simp_all

lemma max_diff_int: "max (int m - int a) 0 = int (m - a)"
  by simp

lemma adjustCount_small:
  assumes "unat start + unat count < 2 ^ 31" and "hw < 2 ^ 31"
  shows "unat (adjustCount hw start count) = min hw (unat start + unat count) - unat start"
proof -
  have s: "sint (count + start) = int (unat start + unat count)" "sint start = int (unat start)"
    using assms by (simp_all add: sint_small unat_sum_small)
  define c where "c = max 0 (min (int hw) (sint (count + start)))"
  have c: "c = int (min hw (unat start + unat count))"
    unfolding c_def s(1) of_nat_min by (rule max_absorb2) simp
  have "sint (word_of_int (c - sint start) :: u32) = c - sint start"
    unfolding c s(2) by (rule sint_diff_small) (use assms in simp_all)
  then have "adjustCount hw start count = word_of_int (max (c - sint start) 0)"
    by (simp add: adjustCount_def c_def [symmetric])
  also have "max (c - sint start) 0 = int (min hw (unat start + unat count) - unat start)"
    unfolding c s(2) by (rule max_diff_int)
  finally have "adjustCount hw start count = word_of_nat (min hw (unat start + unat count) - unat start)" by simp
  moreover have "min hw (unat start + unat count) - unat start < 2 ^ 32" using assms by simp
  ultimately show ?thesis by (simp add: unat_of_nat take_bit_nat_eq_self)
qed

lemma reg_counts: "getHardwareRegCount st ct \<le> getSoftwareRegCount st ct" "getSoftwareRegCount st ct \<le> 8192"
  by (cases st; cases ct; simp add: getHardwareRegCount_def getSoftwareRegCount_def caps_defs)+

lemma commonGetSetConstants_ok:
  assumes "unat start + unat count \<le> getSoftwareRegCount st ct" "p \<noteq> None"
  shows "commonGetSetConstants st ct start p count = (S_OK, min (getHardwareRegCount st ct) (unat start + unat count) - unat start)"
proof -
  have b: "unat start + unat count \<le> 8192" "getHardwareRegCount st ct \<le> 8192"
    using assms(1) reg_counts [of st ct] by linarith+
  have "unat (start + count) = unat start + unat count" using b by (simp add: unat_sum_small)
  moreover have "unat (adjustCount (getHardwareRegCount st ct) start count)
      = min (getHardwareRegCount st ct) (unat start + unat count) - unat start"
    using b by (intro adjustCount_small) simp_all
  ultimately show ?thesis using assms by (auto simp: commonGetSetConstants_def Let_def)
qed

section \<open>Rows and bits\<close>

lemma length_rows: "rows n bs = Inr rs \<Longrightarrow> length rs = n"
  by (auto simp: rows_def split: if_splits)

lemma concat_rows: "16 * n \<le> length bs \<Longrightarrow> rows n bs = Inr rs \<Longrightarrow> concat rs = take (16 * n) bs"
proof -
  have "16 * n \<le> length bs \<Longrightarrow> concat (map (\<lambda>i. take 16 (drop (16 * i) bs)) [0..<n]) = take (16 * n) bs"
  proof (induction n)
    case (Suc n)
    have "take (16 * Suc n) bs = take (16 * n) bs @ take 16 (drop (16 * n) bs)"
      by (metis mult_Suc_right add.commute take_add)
    then show ?case using Suc by simp
  qed simp
  then show "16 * n \<le> length bs \<Longrightarrow> rows n bs = Inr rs \<Longrightarrow> concat rs = take (16 * n) bs"
    by (auto simp: rows_def split: if_splits)
qed

lemma get_put_rows: "start + length rs \<le> length xs \<Longrightarrow> get_rows start (length rs) (put_rows start rs xs) = Inr rs"
  by (simp add: get_rows_def put_rows_def)

lemma put_bool_ok: "k div 32 < length ws \<Longrightarrow> \<exists>ws'. put_bool k v ws = Inr ws' \<and> length ws' = length ws
    \<and> get_bool k ws' = Inr v \<and> (\<forall>j. j \<noteq> k \<longrightarrow> get_bool j ws' = get_bool j ws)"
proof -
  assume k: "k div 32 < length ws"
  let ?m = "push_bit (k mod 32) 1 :: u32"
  let ?w = "if v then ws ! (k div 32) AND NOT ?m OR ?m else ws ! (k div 32) AND NOT ?m"
  have p: "put_bool k v ws = Inr (ws[k div 32 := ?w])" using k by (simp add: put_bool_def Let_def)
  have t: "(w AND push_bit n 1 \<noteq> 0) = bit w n" for w :: u32 and n
    by (simp add: and_exp_eq_0_iff_not_bit)
  have "get_bool k (ws[k div 32 := ?w]) = Inr v"
    using k mod_less_divisor [of 32 k] unfolding get_bool_def t by (auto simp: bit_simps)
  moreover have "get_bool j (ws[k div 32 := ?w]) = get_bool j ws" if "j \<noteq> k" for j
  proof (cases "j div 32 = k div 32")
    case True
    then have "j mod 32 \<noteq> k mod 32" using that by (metis div_mult_mod_eq)
    then show ?thesis using True k unfolding get_bool_def t by (auto simp: bit_simps)
  next
    case False
    then show ?thesis using k by (simp add: get_bool_def)
  qed
  ultimately show ?thesis using p by auto
qed

lemma put_get_bools:
  assumes "k + length vs \<le> 32 * length ws"
  shows "\<exists>ws'. put_bools k vs ws = Inr ws' \<and> length ws' = length ws \<and> get_bools k (length vs) ws' = Inr vs
    \<and> (\<forall>j < k. get_bool j ws' = get_bool j ws)"
  using assms
proof (induction vs arbitrary: k ws)
  case (Cons v vs)
  then have "k div 32 < length ws" by auto
  then obtain w1 where 1: "put_bool k v ws = Inr w1" "length w1 = length ws" "get_bool k w1 = Inr v"
    "\<forall>j. j \<noteq> k \<longrightarrow> get_bool j w1 = get_bool j ws" using put_bool_ok by blast
  obtain w2 where 2: "put_bools (k + 1) vs w1 = Inr w2" "length w2 = length ws" "get_bools (k + 1) (length vs) w2 = Inr vs"
    "\<forall>j < k + 1. get_bool j w2 = get_bool j w1"
    using Cons.IH [of "k + 1" w1] Cons.prems 1(2) by auto
  have "get_bool k w2 = Inr v" using 1(3) 2(4) by simp
  then show ?case using 1 2 by auto
qed auto


section \<open>Properties\<close>

text \<open>What a state's constant arrays need: the declared lengths.\<close>

definition consts_ok :: "ShaderType \<Rightarrow> dev_state \<Rightarrow> bool" where
  "consts_ok st s \<longleftrightarrow> (\<forall>ct \<in> {FloatConst, IntConst}. getSoftwareRegCount st ct \<le> length (vec_consts st ct s))
     \<and> getSoftwareRegCount st BoolConst \<le> 32 * length (bool_consts st s)"

lemma vec_set_vec [simp]: "ct \<noteq> BoolConst \<Longrightarrow> vec_consts st ct (set_vec_consts st ct v s) = v"
  by (cases st; cases ct) (simp_all add: vec_consts_def set_vec_consts_def)

lemma bool_set_bool [simp]: "bool_consts st (set_bool_consts st v s) = v"
  by (cases st) (simp_all add: bool_consts_def set_bool_consts_def)

lemma target_none [simp]: "m_stateRecording d = None \<Longrightarrow> target d = m_state d"
  "m_stateRecording d = None \<Longrightarrow> update_target f g d = set_state f d"
  by (simp_all add: target_def update_target_def)

lemma set_vec:
  assumes d: "m_stateRecording d = None" and ct: "ct \<noteq> BoolConst" and ok: "consts_ok st (m_state d)"
    and range: "unat start + unat count \<le> getHardwareRegCount st ct" and data: "16 * unat count \<le> length bs"
    and n: "0 < unat count"
  shows "\<exists>hr d' rs. setShaderConstants st ct start (Some bs) count d = Inr (hr, d') \<and> hr \<in> {S_OK, S_FALSE}
    \<and> (hr = S_FALSE \<longrightarrow> d' = d) \<and> rows (unat count) bs = Inr rs
    \<and> get_rows (unat start) (unat count) (vec_consts st ct (m_state d')) = Inr rs"
proof -
  have sw: "unat start + unat count \<le> getSoftwareRegCount st ct" using range reg_counts(1) [of st ct] by linarith
  have len: "unat start + unat count \<le> length (vec_consts st ct (m_state d))"
    using sw ok ct by (cases ct) (auto simp: consts_ok_def)
  obtain rs where rs: "rows (unat count) bs = Inr rs" using data by (simp add: rows_def)
  have common: "commonGetSetConstants st ct start (Some bs) count = (S_OK, unat count)"
    using commonGetSetConstants_ok [OF sw, of "Some bs"] range n by simp
  obtain old where old: "get_rows (unat start) (unat count) (vec_consts st ct (m_state d)) = Inr old"
    using len by (simp add: get_rows_def)
  have again: "get_rows (unat start) (unat count) (put_rows (unat start) rs (vec_consts st ct (m_state d))) = Inr rs"
    using get_put_rows [of "unat start" rs] length_rows [OF rs] len by simp
  show ?thesis
    using common ct n d old rs again
    by (cases "ct = FloatConst \<and> opt_eliminate d \<and> old = rs") (auto simp: setShaderConstants_def set_state_def Let_def)
qed

lemma set_bool:
  assumes d: "m_stateRecording d = None" and ok: "consts_ok st (m_state d)"
    and range: "unat start + unat count \<le> getHardwareRegCount st BoolConst" and data: "unat count \<le> length (bools_of bs)"
    and n: "0 < unat count"
  shows "\<exists>d'. setShaderConstants st BoolConst start (Some bs) count d = Inr (S_OK, d')
    \<and> get_bools (unat start) (unat count) (bool_consts st (m_state d')) = Inr (take (unat count) (bools_of bs))"
proof -
  have sw: "unat start + unat count \<le> getSoftwareRegCount st BoolConst" using range reg_counts(1) [of st BoolConst] by linarith
  have common: "commonGetSetConstants st BoolConst start (Some bs) count = (S_OK, unat count)"
    using commonGetSetConstants_ok [OF sw, of "Some bs"] range n by simp
  have "unat start + length (take (unat count) (bools_of bs)) \<le> 32 * length (bool_consts st (m_state d))"
    using sw ok data by (simp add: consts_ok_def)
  then obtain ws where "put_bools (unat start) (take (unat count) (bools_of bs)) (bool_consts st (m_state d)) = Inr ws"
    "get_bools (unat start) (unat count) ws = Inr (take (unat count) (bools_of bs))"
    using put_get_bools data by fastforce
  then show ?thesis using common n d data by (simp add: setShaderConstants_def set_state_def)
qed

text \<open>Shader constants read back: after the application sets registers inside the hardware range on a device
  that records no block, reading them returns the bytes it passed; boolean registers come back as 0 and 1.\<close>

theorem constants_read_back:
  assumes "m_stateRecording d = None" and "consts_ok st (m_state d)" and "0 < unat count"
    and "unat start + unat count \<le> getHardwareRegCount st ct" and "length bs = (if ct = BoolConst then 4 else 16) * unat count"
    and "setShaderConstants st ct start (Some bs) count d = r"
  shows "\<exists>hr d'. r = Inr (hr, d') \<and> getShaderConstants st ct start (Some ()) count d'
    = Inr (S_OK, if ct = BoolConst then concat (map (\<lambda>w. u32_bytes (bool_word (w \<noteq> 0))) (words_of_bytes bs)) else bs)"
proof -
  have sw: "unat start + unat count \<le> getSoftwareRegCount st ct" using assms(4) reg_counts(1) [of st ct] by linarith
  have common: "commonGetSetConstants st ct start (Some ()) count = (S_OK, unat count)"
    using commonGetSetConstants_ok [OF sw, of "Some ()"] assms(3,4) by simp
  show ?thesis
  proof (cases "ct = BoolConst")
    case True
    have "length (words_of_bytes bs) = length bs div 4" by (induction bs rule: words_of_bytes.induct) simp_all
    then have l: "length (bools_of bs) = unat count" using assms(5) True by (simp add: bools_of_def)
    then obtain d' where "r = Inr (S_OK, d')"
      "get_bools (unat start) (unat count) (bool_consts st (m_state d')) = Inr (bools_of bs)"
      using set_bool [OF assms(1,2), of start count bs] assms(3,4,6) True by auto
    then show ?thesis using common assms(3) True by (simp add: getShaderConstants_def bools_of_def comp_def)
  next
    case False
    then obtain hr d' rs where s: "r = Inr (hr, d')" "rows (unat count) bs = Inr rs"
      "get_rows (unat start) (unat count) (vec_consts st ct (m_state d')) = Inr rs"
      using set_vec [OF assms(1) False assms(2,4), of bs] assms(3,5,6) by auto
    then have "concat rs = bs" using concat_rows [of "unat count" bs rs] assms(5) False by simp
    then show ?thesis using s common assms(3) False by (simp add: getShaderConstants_def)
  qed
qed

text \<open>Redundant-call elimination loses updates of the software registers: an update that begins below the
  hardware count and ends above it is compared only up to the hardware count, so when those registers
  are unchanged the call is dropped, whatever it sets above, and the server never learns of it.\<close>

theorem upper_registers_dropped:
  assumes "m_stateRecording d = None" and "opt_eliminate d" and "consts_ok Vertex (m_state d)"
    and "unat start < 256" and "256 \<le> unat start + unat count" and "unat start + unat count \<le> 8192"
    and "rows (256 - unat start) bs = get_rows (unat start) (256 - unat start) (vs_fConsts (m_state d))"
    and "16 * unat count \<le> length bs"
  shows "dev_SetVertexShaderConstantF resp start (Some bs) count d = Inr (S_OK, d, [])"
proof -
  have common: "commonGetSetConstants Vertex FloatConst start (Some bs) count = (S_OK, 256 - unat start)"
    using commonGetSetConstants_ok [of start count Vertex FloatConst "Some bs"] assms(4-6)
    by (simp add: getHardwareRegCount_def getSoftwareRegCount_def caps_defs)
  have "256 \<le> length (vs_fConsts (m_state d))"
    using assms(3) by (simp add: consts_ok_def getSoftwareRegCount_def vec_consts_def caps_defs)
  then obtain old where old: "get_rows (unat start) (256 - unat start) (vs_fConsts (m_state d)) = Inr old"
    using assms(4) by (simp add: get_rows_def)
  then have "setShaderConstants Vertex FloatConst start (Some bs) count d = Inr (S_FALSE, d)"
    using common assms(1,2,4,7) by (simp add: setShaderConstants_def vec_consts_def)
  then show ?thesis by (simp add: dev_SetVertexShaderConstantF_def set_float_consts_def)
qed

text \<open>The range check adds in 32 bits: a start register just below \<open>2 ^ 32\<close> passes it when the count wraps the
  sum to at most the register count, and the copy then leaves the array.\<close>

theorem register_sum_wraps:
  assumes "m_stateRecording d = None" and "length (vec_consts st FloatConst (m_state d)) < 2 ^ 31" and "0 < unat count"
    and "unat count \<le> 4096" and "start = - count" and "16 * unat count \<le> length bs"
  shows "setShaderConstants st FloatConst start (Some bs) count d = Inl OutOfBounds"
proof -
  have st: "start = word_of_int (int 0 - int (unat count))" using assms(5) by simp
  have sint: "sint start = - int (unat count)"
    unfolding st using sint_diff_small [of 0 "unat count"] assms(4) by simp
  have sum: "start + count = 0" "count + start = 0" using assms(5) by simp_all
  have "sint (word_of_int (int (unat count) - int 0) :: u32) = int (unat count) - int 0"
    by (rule sint_diff_small) (use assms(4) in simp_all)
  then have "adjustCount hw start count = count" for hw
    by (simp add: adjustCount_def sum sint)
  then have common: "commonGetSetConstants st FloatConst start (Some bs) count = (S_OK, unat count)"
    using assms(3) by (simp add: commonGetSetConstants_def sum)
  have "(unat start + unat count) mod 2 ^ 32 = 0"
    using sum(1) unat_word_ariths(1) [of start count] by simp
  then have "2 ^ 32 \<le> unat start + unat count"
    using assms(3) by (metis add_gr_0 leI mod_less not_less_iff_gr_or_eq)
  then have "get_rows (unat start) (unat count) (vec_consts st FloatConst (m_state d)) = Inl OutOfBounds"
    using assms(2,4) by (simp add: get_rows_def)
  moreover obtain rs where "rows (unat count) bs = Inr rs" using assms(6) by (simp add: rows_def)
  ultimately show ?thesis using common assms(1,3) by (simp add: setShaderConstants_def)
qed


definition float_device :: "bool \<Rightarrow> device" where
  "float_device elim = \<lparr>m_state = \<lparr>renderTargets = [], depthStencil = 0, transforms = [], viewport = [], material = [],
     lights = (\<lambda>_. []), bLightEnables = (\<lambda>_. False), clipPlanes = [], renderStates = [], textures = [],
     textureStageStates = [], samplerStates = [], scissorRect = [], vertexDecl = 0, vertexShader = 0,
     vs_fConsts = replicate 8192 (replicate 16 0), vs_iConsts = replicate 2048 (replicate 16 0), vs_bConsts = replicate 64 0,
     streams = [], streamOffsetsStrides = [], streamFreqs = [], indices = 0, pixelShader = 0,
     ps_fConsts = replicate 224 (replicate 16 0), ps_iConsts = replicate 16 (replicate 16 0), ps_bConsts = [0]\<rparr>,
     m_stateRecording = None, m_clipStatus = [], m_paletteEntries = (\<lambda>_. []),
     m_curTexPalette = 0, m_bSoftwareVtxProcessing = 0, m_NPatchMode = 0, m_FVF = 0, opt_eliminate = elim,
     opt_sendAll = False, opt_batch = True\<rparr>"

lemma float_device_ok:
  "m_stateRecording (float_device e) = None" "consts_ok Vertex (m_state (float_device e))" "consts_ok Pixel (m_state (float_device e))"
  "vs_fConsts (m_state (float_device e)) = replicate 8192 (replicate 16 0)" "opt_eliminate (float_device e) = e"
  by (simp_all add: float_device_def consts_ok_def getSoftwareRegCount_def vec_consts_def bool_consts_def caps_defs)

theorem constants_read_back_witness:
  "\<exists>hr d'. setShaderConstants Pixel BoolConst 3 (Some [1, 0, 0, 0, 0, 0, 0, 0]) 2 (float_device True) = Inr (hr, d')
     \<and> getShaderConstants Pixel BoolConst 3 (Some ()) 2 d' = Inr (S_OK, [1, 0, 0, 0, 0, 0, 0, 0])"
  using constants_read_back [of "float_device True" Pixel 2 3 BoolConst "[1, 0, 0, 0, 0, 0, 0, 0]"] float_device_ok
  by (simp add: getHardwareRegCount_def caps_defs u32_of_bytes_def u32_bytes_def bool_word_def)

theorem upper_registers_dropped_witness:
  "dev_SetVertexShaderConstantF S_OK 255 (Some (replicate 16 0 @ replicate 16 7)) 2 (float_device True)
     = Inr (S_OK, float_device True, [])"
  by (rule upper_registers_dropped) (simp_all add: float_device_ok rows_def get_rows_def)

theorem register_sum_wraps_witness:
  "setShaderConstants Vertex FloatConst 0xFFFFFFFF (Some (replicate 16 7)) 1 (float_device True) = Inl OutOfBounds"
  by (rule register_sum_wraps) (simp_all add: float_device_ok vec_consts_def)

end
