(* ===== verification/Shader_Code.thy ===== *)
theory Shader_Code
  imports Bridge_Prelude
begin

text \<open>
  \<open>CommonShader\<close> of \<open>d3d9_commonshader.h\<close>: the client walks the token stream of a shader to find its end,
  because the Direct3D interface passes no length, and keeps a copy of the code.  The tokens are the
  \<open>DWORD\<close>s that can be read from the pointer on; reading behind them is \<open>OutOfBounds\<close>.  The properties say
  that the walk ends, that it finds exactly the end of a program whose instructions have the lengths the
  walk assumes, and that a two-operand texture load of pixel shader 1.4 is not such an instruction.
\<close>

section \<open>Token layout\<close>

text \<open>The masks of \<open>d3d9types.h\<close>.\<close>

definition opcode :: "u32 \<Rightarrow> u32" where "opcode t = t AND 0xFFFF"
definition D3DSIO_COMMENT :: u32 where "D3DSIO_COMMENT = 0xFFFE"
definition D3DSIO_END :: u32 where "D3DSIO_END = 0xFFFF"
definition D3DSHADER_VERSION_MAJOR :: "u32 \<Rightarrow> u32" where "D3DSHADER_VERSION_MAJOR v = drop_bit 8 v AND 0xFF"
definition D3DSHADER_VERSION_MINOR :: "u32 \<Rightarrow> u32" where "D3DSHADER_VERSION_MINOR v = v AND 0xFF"

text \<open>The switch of \<open>getShaderInstructionSize\<close> for shader model 1: the opcodes from 0 and those from \<open>0x40\<close>.\<close>

definition sizes_00 :: "u32 list" where
  "sizes_00 = [1, 3, 4, 4, 5, 4, 3, 3, 4, 4, 4, 4, 4, 4, 3, 3, 3, 4, 5, 3, 4, 4, 4, 4, 4, 2, 3, 3, 1, 1, 2, 3,
     4, 4, 5, 3, 3, 5, 2, 1, 2, 3, 1, 1, 1, 3, 3, 3, 5]"

definition sizes_40 :: "u32 list" where
  "sizes_40 = [2, 2, 2, 3, 3, 3, 3, 3, 3, 3, 3, 1, 4, 3, 3, 3, 5, 5, 3, 3, 3, 3, 3, 2, 5, 4, 5, 3, 3, 5, 4, 4, 3]"

definition sm1_size :: "nat \<Rightarrow> u32" where
  "sm1_size opc = (if opc < length sizes_00 then sizes_00 ! opc
     else if 0x40 \<le> opc \<and> opc - 0x40 < length sizes_40 then sizes_40 ! (opc - 0x40) else 1)"

definition getShaderInstructionSize :: "u32 \<Rightarrow> u32 \<Rightarrow> u32" where
  "getShaderInstructionSize m_majorVersion t =
    (if opcode t = D3DSIO_COMMENT then drop_bit 16 (t AND 0x7FFF0000) + 1
     else if 2 \<le> m_majorVersion then drop_bit 24 (t AND 0x0F000000) + 1
     else sm1_size (unat (opcode t)))"

lemma sm1_size_pos: "0 < sm1_size n"
proof -
  have "\<forall>x \<in> set sizes_00 \<union> set sizes_40. 0 < x" by (simp add: sizes_00_def sizes_40_def)
  then show ?thesis by (auto simp: sm1_size_def)
qed

lemma getShaderInstructionSize_pos: "0 < unat (getShaderInstructionSize v t)"
proof -
  have inc: "drop_bit n x + 1 \<noteq> 0" if "0 < n" for n and x :: u32
  proof
    assume "drop_bit n x + 1 = 0"
    then have "drop_bit n x = - 1" by (simp add: add_eq_0_iff2)
    then have "bit (drop_bit n x) 31" by simp
    then show False using bit_imp_le_length [of x "n + 31"] that by (simp add: bit_drop_bit_eq)
  qed
  show ?thesis
    using inc [of 16 "t AND 0x7FFF0000"] inc [of 24 "t AND 0x0F000000"] sm1_size_pos [of "unat (opcode t)"]
    by (simp add: getShaderInstructionSize_def unat_gt_0 word_gt_0 unat_0_iff)
qed

section \<open>The walk\<close>

text \<open>The loop of \<open>getShaderByteSize\<close>, from the token at an index.\<close>

function find_end :: "u32 \<Rightarrow> u32 list \<Rightarrow> nat \<Rightarrow> nat or_error" where
  "find_end v ts i = (if i < length ts
     then (if opcode (ts ! i) = D3DSIO_END then Inr i else find_end v ts (i + unat (getShaderInstructionSize v (ts ! i))))
     else Inl OutOfBounds)"
  by auto

termination
proof (relation "measure (\<lambda>(v, ts, i). length ts - i)")
  fix v and ts :: "u32 list" and i
  assume "i < length ts"
  then show "((v, ts, i + unat (getShaderInstructionSize v (ts ! i))), (v, ts, i)) \<in> measure (\<lambda>(v, ts, i). length ts - i)"
    using getShaderInstructionSize_pos [of v "ts ! i"] by simp
qed simp

declare find_end.simps [simp del]

definition getShaderByteSize :: "u32 \<Rightarrow> u32 list \<Rightarrow> nat or_error" where
  "getShaderByteSize v ts = bindE (find_end v ts 1) (\<lambda>i. Inr ((i + 1) * 4))"

record CommonShader =
  m_code :: memory
  m_majorVersion :: u32
  m_minorVersion :: u32

definition new_CommonShader :: "u32 list \<Rightarrow> CommonShader or_error" where
  "new_CommonShader pFunction = (case pFunction of [] \<Rightarrow> Inl OutOfBounds | v # _ \<Rightarrow>
     bindE (getShaderByteSize (D3DSHADER_VERSION_MAJOR v) pFunction) (\<lambda>n.
       Inr \<lparr>m_code = take n (concat (map u32_bytes pFunction)), m_majorVersion = D3DSHADER_VERSION_MAJOR v,
         m_minorVersion = D3DSHADER_VERSION_MINOR v\<rparr>))"

text \<open>\<open>GetFunction\<close> of the shader wrappers: the size, and the code when a buffer is given.\<close>

definition GetFunction :: "CommonShader \<Rightarrow> nat \<times> memory" where
  "GetFunction s = (length (m_code s), m_code s)"

section \<open>Well-formed programs\<close>

definition wf_instr :: "u32 \<Rightarrow> u32 list \<Rightarrow> bool" where
  "wf_instr v ins \<longleftrightarrow> ins \<noteq> [] \<and> opcode (hd ins) \<noteq> D3DSIO_END \<and> length ins = unat (getShaderInstructionSize v (hd ins))"

lemma find_end_instrs:
  assumes "\<forall>ins \<in> set instrs. wf_instr v ins" and "opcode e = D3DSIO_END"
  shows "find_end v (pre @ concat instrs @ e # rest) (length pre) = Inr (length pre + length (concat instrs))"
  using assms(1)
proof (induction instrs arbitrary: pre)
  case Nil
  then show ?case using assms(2) by (simp add: find_end.simps [of v _ "length pre"])
next
  case (Cons ins instrs)
  then have wf: "ins \<noteq> []" "opcode (hd ins) \<noteq> D3DSIO_END" "length ins = unat (getShaderInstructionSize v (hd ins))"
    by (auto simp: wf_instr_def)
  have hd: "(pre @ concat (ins # instrs) @ e # rest) ! length pre = hd ins"
    using wf(1) by (simp add: nth_append hd_conv_nth)
  have "find_end v (pre @ concat (ins # instrs) @ e # rest) (length pre)
      = find_end v ((pre @ ins) @ concat instrs @ e # rest) (length (pre @ ins))"
    using wf hd by (subst find_end.simps) simp
  also have "\<dots> = Inr (length (pre @ ins) + length (concat instrs))"
    using Cons.prems by (intro Cons.IH) simp
  finally show ?case by simp
qed

lemma find_end_Inr:
  assumes "find_end v ts i = Inr n"
  shows "i \<le> n \<and> n < length ts \<and> opcode (ts ! n) = D3DSIO_END"
  using assms
proof (induction v ts i rule: find_end.induct)
  case (1 v ts i)
  then show ?case
    by (cases "i < length ts"; cases "opcode (ts ! i) = D3DSIO_END")
      (auto simp: find_end.simps [of v ts i])
qed

lemma length_concat_u32_bytes [simp]: "length (concat (map u32_bytes ws)) = 4 * length ws"
  by (induction ws) simp_all

lemma take_concat_u32_bytes: "take (4 * n) (concat (map u32_bytes ws)) = concat (map u32_bytes (take n ws))"
proof (induction ws arbitrary: n)
  case (Cons w ws)
  then show ?case by (cases n) (simp_all add: take_append)
qed simp

lemma shader_walk_code:
  assumes "new_CommonShader ts = Inr s"
  shows "\<exists>n. 1 < n \<and> n \<le> length ts \<and> opcode (ts ! (n - 1)) = D3DSIO_END
    \<and> m_code s = concat (map u32_bytes (take n ts)) \<and> fst (GetFunction s) = 4 * n"
proof -
  obtain v r where ts: "ts = v # r" using assms by (auto simp: new_CommonShader_def split: list.splits)
  then obtain k where k: "find_end (D3DSHADER_VERSION_MAJOR v) ts 1 = Inr k"
    and s: "m_code s = take ((k + 1) * 4) (concat (map u32_bytes ts))"
    using assms by (auto simp: new_CommonShader_def getShaderByteSize_def bind_simps)
  have "m_code s = concat (map u32_bytes (take (k + 1) ts))"
    using s take_concat_u32_bytes [of "k + 1" ts] by (simp add: mult.commute)
  then show ?thesis
    using find_end_Inr [OF k] by (intro exI [of _ "k + 1"]) (simp add: GetFunction_def)
qed

lemma find_end_Inl: "find_end v ts i = Inl e \<Longrightarrow> e = OutOfBounds"
  by (induction v ts i rule: find_end.induct) (auto simp: find_end.simps split: if_splits)

lemma shader_walk_error: "new_CommonShader ts = Inl e \<Longrightarrow> e = OutOfBounds"
  by (auto simp: new_CommonShader_def getShaderByteSize_def bindE_def split: list.splits sum.splits dest: find_end_Inl)

section \<open>Properties\<close>



text \<open>The analysis always returns and stays inside the memory it was given: it yields a size that is a whole number of
  tokens inside the readable memory whose last token is an end token, and otherwise it has run past the
  end of the memory; the copy has the size that was computed, which is what \<open>GetFunction\<close> reports.\<close>

theorem shader_walk_bounded:
  "(\<exists>s n. new_CommonShader ts = Inr s \<and> 1 < n \<and> n \<le> length ts \<and> opcode (ts ! (n - 1)) = D3DSIO_END
      \<and> m_code s = concat (map u32_bytes (take n ts)) \<and> fst (GetFunction s) = 4 * n)
   \<or> new_CommonShader ts = Inl OutOfBounds"
proof (cases "new_CommonShader ts")
  case (Inl e)
  then show ?thesis using shader_walk_error by simp
next
  case (Inr s)
  then show ?thesis using shader_walk_code by blast
qed

text \<open>The lengths for shader model 1 are those of pixel shader 1.1: in pixel shader 1.4 the texture load \<open>0x42\<close> has a
  destination and a source, three tokens, but the walk takes two, reads the source token as an
  instruction, and for a source register 1 (the opcode of a three-token move) jumps over the end token
  that follows: it leaves the program and reads foreign memory.\<close>

theorem ps14_texture_load_overruns:
  "new_CommonShader [0xFFFF0104, 0x42, 0x800F0000, 0xB0E40001, 0xFFFF] = Inl OutOfBounds"
  by (simp add: new_CommonShader_def getShaderByteSize_def find_end.simps opcode_def D3DSIO_END_def D3DSIO_COMMENT_def
      getShaderInstructionSize_def sm1_size_def sizes_00_def sizes_40_def D3DSHADER_VERSION_MAJOR_def drop_bit_eq_div word_le_nat_alt)

end
