(* ===== verification/Client_Calls.thy ===== *)
theory Client_Calls
  imports Device_State Server_Dispatch Shader_Code "HOL-Library.Log_Nat"
begin

text \<open>
  The functions of the client's device (\<open>d3d9_device.cpp\<close>) that create objects, draw, copy surfaces and
  query the server: their argument checks, what they change on the client, the message they send and the
  answer they wait for.  \<open>Client_Create\<close> and \<open>Client_Use\<close> relate them to the server's handlers.
  An interface pointer is the id of its wrapper, 0 for null; an output pointer is a flag, false for null;
  \<open>new_id\<close> is the id of the wrapper that a creation function makes.
\<close>

section \<open>Outcomes\<close>

text \<open>A call returns at once, sends a message and waits for the given kind of answer, or waits without having sent
  anything.\<close>

datatype outcome = Return HRESULT | Message string "item list" answer | WaitUnsent answer

datatype SceneState = WaitBeginScene | SceneInProgress | SceneEnded

text \<open>The members used here besides those of \<open>device\<close>: \<open>sendReadOnly\<close> is the option \<open>sendReadOnlyCalls\<close>.\<close>

record client =
  cdev :: device
  m_gammaRamp :: memory
  gSceneState :: SceneState
  m_gpuThreadPriority :: u32
  m_maxFrameLatency :: u32
  VertexShaderVersion :: u32
  PixelShaderVersion :: u32
  sendReadOnly :: bool

type_synonym client_result = "(outcome \<times> client) or_error"

definition reply :: "outcome \<Rightarrow> client \<Rightarrow> client_result" where
  "reply r c = Inr (r, c)"

text \<open>\<open>send_data(size, pointer)\<close>: a null pointer is sent as an empty object, otherwise that many bytes are read.\<close>

definition read_obj :: "u32 \<Rightarrow> memory option \<Rightarrow> item or_error" where
  "read_obj n p = (case p of None \<Rightarrow> Inr (Obj None)
     | Some bs \<Rightarrow> if unat n \<le> length bs then Inr (Obj (Some (take (unat n) bs))) else Inl OutOfBounds)"

lemma u32_bytes_nonempty [simp]: "u32_bytes w \<noteq> []"
  by (simp add: u32_bytes_def)

text \<open>\<open>GetIndexCount\<close> and \<open>CalculateNumMipLevels\<close> of \<open>d3d9_util.h\<close>.  The conversion of \<open>ceil(log2(0))\<close>, minus infinity,
  to an integer is undefined.\<close>

definition GetIndexCount :: "u32 \<Rightarrow> u32 \<Rightarrow> u32" where
  "GetIndexCount type count = (if type = 1 then count else if type = 2 then count * 2 else if type = 3 then count + 1
     else if type = 5 \<or> type = 6 then count + 2 else count * 3)"

definition CalculateNumMipLevels :: "u32 \<Rightarrow> u32 \<Rightarrow> u32 \<Rightarrow> u32 or_error" where
  "CalculateNumMipLevels width height depth = (let m = max depth (max width height) in
     if m = 0 then Inl OutOfBounds else Inr (word_of_nat (ceillog2 (unat m)) + 1))"

definition levels_or :: "u32 \<Rightarrow> u32 or_error \<Rightarrow> u32 or_error" where
  "levels_or Levels computed = (if Levels = 0 then computed else Inr Levels)"

section \<open>Creation\<close>

definition dev_CreateTexture :: "u32 \<Rightarrow> u32 \<Rightarrow> u32 \<Rightarrow> u32 \<Rightarrow> u32 \<Rightarrow> u32 \<Rightarrow> bool \<Rightarrow> u32 \<Rightarrow> client \<Rightarrow> client_result" where
  "dev_CreateTexture Width Height Levels Usage Format Pool ppTexture new_id c =
    (if \<not> ppTexture then reply (Return D3DERR_INVALIDCALL) c
     else bindE (levels_or Levels (CalculateNumMipLevels Width Height 1)) (\<lambda>L.
       reply (Message ''CreateTexture'' [Word Width, Word Height, Word L, Word Usage, Word Format, Word Pool, Word new_id] CreateAnswer) c))"

definition dev_CreateVolumeTexture :: "u32 \<Rightarrow> u32 \<Rightarrow> u32 \<Rightarrow> u32 \<Rightarrow> u32 \<Rightarrow> u32 \<Rightarrow> u32 \<Rightarrow> bool \<Rightarrow> u32 \<Rightarrow> client \<Rightarrow> client_result" where
  "dev_CreateVolumeTexture Width Height Depth Levels Usage Format Pool ppVolumeTexture new_id c =
    (if \<not> ppVolumeTexture then reply (Return D3DERR_INVALIDCALL) c
     else bindE (levels_or Levels (CalculateNumMipLevels Width Height Depth)) (\<lambda>L.
       reply (Message ''CreateVolumeTexture''
         [Word Width, Word Height, Word Depth, Word L, Word Usage, Word Format, Word Pool, Word new_id] CreateAnswer) c))"

definition dev_CreateCubeTexture :: "u32 \<Rightarrow> u32 \<Rightarrow> u32 \<Rightarrow> u32 \<Rightarrow> u32 \<Rightarrow> bool \<Rightarrow> u32 \<Rightarrow> client \<Rightarrow> client_result" where
  "dev_CreateCubeTexture EdgeLength Levels Usage Format Pool ppCubeTexture new_id c =
    (if \<not> ppCubeTexture then reply (Return D3DERR_INVALIDCALL) c
     else bindE (levels_or Levels (CalculateNumMipLevels EdgeLength 1 1)) (\<lambda>L.
       reply (Message ''CreateCubeTexture'' [Word EdgeLength, Word L, Word Usage, Word Format, Word Pool, Word new_id] CreateAnswer) c))"

definition dev_CreateVertexBuffer :: "u32 \<Rightarrow> u32 \<Rightarrow> u32 \<Rightarrow> u32 \<Rightarrow> bool \<Rightarrow> u32 \<Rightarrow> client \<Rightarrow> client_result" where
  "dev_CreateVertexBuffer Length Usage FVF Pool ppVertexBuffer new_id =
    (if Length = 0 \<or> \<not> ppVertexBuffer then reply (Return D3DERR_INVALIDCALL)
     else reply (Message ''CreateVertexBuffer'' [Word Length, Word Usage, Word FVF, Word Pool, Word new_id] CreateAnswer))"

definition dev_CreateIndexBuffer :: "u32 \<Rightarrow> u32 \<Rightarrow> u32 \<Rightarrow> u32 \<Rightarrow> bool \<Rightarrow> u32 \<Rightarrow> client \<Rightarrow> client_result" where
  "dev_CreateIndexBuffer Length Usage Format Pool ppIndexBuffer new_id =
    (if Length = 0 \<or> \<not> ppIndexBuffer then reply (Return D3DERR_INVALIDCALL)
     else reply (Message ''CreateIndexBuffer'' [Word Length, Word Usage, Word Format, Word Pool, Word new_id] CreateAnswer))"

definition dev_CreateRenderTarget :: "u32 \<Rightarrow> u32 \<Rightarrow> u32 \<Rightarrow> u32 \<Rightarrow> u32 \<Rightarrow> u32 \<Rightarrow> bool \<Rightarrow> u32 \<Rightarrow> client \<Rightarrow> client_result" where
  "dev_CreateRenderTarget Width Height Format MultiSample MultisampleQuality Lockable ppSurface new_id =
    (if \<not> ppSurface \<or> Width = 0 \<or> Height = 0 then reply (Return D3DERR_INVALIDCALL)
     else reply (Message ''CreateRenderTarget''
       [Word Width, Word Height, Word Format, Word MultiSample, Word MultisampleQuality, Word Lockable, Word new_id] CreateAnswer))"

definition dev_CreateDepthStencilSurface :: "u32 \<Rightarrow> u32 \<Rightarrow> u32 \<Rightarrow> u32 \<Rightarrow> u32 \<Rightarrow> u32 \<Rightarrow> bool \<Rightarrow> u32 \<Rightarrow> client \<Rightarrow> client_result" where
  "dev_CreateDepthStencilSurface Width Height Format MultiSample MultisampleQuality Discard ppSurface new_id =
    (if \<not> ppSurface \<or> Width = 0 \<or> Height = 0 then reply (Return D3DERR_INVALIDCALL)
     else reply (Message ''CreateDepthStencilSurface''
       [Word Width, Word Height, Word Format, Word MultiSample, Word MultisampleQuality, Word Discard, Word new_id] CreateAnswer))"

definition dev_CreateOffscreenPlainSurface :: "u32 \<Rightarrow> u32 \<Rightarrow> u32 \<Rightarrow> u32 \<Rightarrow> bool \<Rightarrow> u32 \<Rightarrow> client \<Rightarrow> client_result" where
  "dev_CreateOffscreenPlainSurface Width Height Format Pool ppSurface new_id =
    (if \<not> ppSurface then reply (Return D3DERR_INVALIDCALL)
     else reply (Message ''CreateOffscreenPlainSurface'' [Word Width, Word Height, Word Format, Word Pool, Word new_id] CreateAnswer))"

definition dev_CreateRenderTargetEx :: "u32 \<Rightarrow> u32 \<Rightarrow> u32 \<Rightarrow> u32 \<Rightarrow> u32 \<Rightarrow> u32 \<Rightarrow> bool \<Rightarrow> u32 \<Rightarrow> u32 \<Rightarrow> client \<Rightarrow> client_result" where
  "dev_CreateRenderTargetEx Width Height Format MultiSample MultisampleQuality Lockable ppSurface Usage new_id =
    (if \<not> ppSurface then reply (Return D3DERR_INVALIDCALL)
     else reply (Message ''CreateRenderTargetEx''
       [Word Width, Word Height, Word Format, Word MultiSample, Word MultisampleQuality, Word Lockable, Word Usage, Word new_id] CreateAnswer))"

definition dev_CreateOffscreenPlainSurfaceEx :: "u32 \<Rightarrow> u32 \<Rightarrow> u32 \<Rightarrow> u32 \<Rightarrow> bool \<Rightarrow> u32 \<Rightarrow> u32 \<Rightarrow> client \<Rightarrow> client_result" where
  "dev_CreateOffscreenPlainSurfaceEx Width Height Format Pool ppSurface Usage new_id =
    (if \<not> ppSurface then reply (Return D3DERR_INVALIDCALL)
     else reply (Message ''CreateOffscreenPlainSurfaceEx''
       [Word Width, Word Height, Word Format, Word Pool, Word Usage, Word new_id] CreateAnswer))"

definition dev_CreateDepthStencilSurfaceEx :: "u32 \<Rightarrow> u32 \<Rightarrow> u32 \<Rightarrow> u32 \<Rightarrow> u32 \<Rightarrow> u32 \<Rightarrow> bool \<Rightarrow> u32 \<Rightarrow> u32 \<Rightarrow> client \<Rightarrow> client_result" where
  "dev_CreateDepthStencilSurfaceEx Width Height Format MultiSample MultisampleQuality Discard ppSurface Usage new_id =
    (if \<not> ppSurface then reply (Return D3DERR_INVALIDCALL)
     else reply (Message ''CreateDepthStencilSurfaceEx''
       [Word Width, Word Height, Word Format, Word MultiSample, Word MultisampleQuality, Word Discard, Word Usage, Word new_id] CreateAnswer))"

text \<open>A vertex declaration is a list of 8-byte elements up to the end marker, whose stream, the first 16-bit field, is
  \<open>0xFF\<close>.\<close>

definition stream_of :: "memory \<Rightarrow> u16" where
  "stream_of e = ucast (e ! 0) OR push_bit 8 (ucast (e ! 1))"

fun count_elems :: "memory list \<Rightarrow> nat or_error" where
  "count_elems [] = Inl OutOfBounds"
| "count_elems (e # es) = (if stream_of e \<noteq> 0xFF then bindE (count_elems es) (\<lambda>n. Inr (n + 1)) else Inr 1)"

definition dev_CreateVertexDeclaration :: "memory list option \<Rightarrow> bool \<Rightarrow> u32 \<Rightarrow> client \<Rightarrow> client_result" where
  "dev_CreateVertexDeclaration pVertexElements ppDecl new_id c = (case pVertexElements of
     None \<Rightarrow> reply (Return D3DERR_INVALIDCALL) c
   | Some es \<Rightarrow> if \<not> ppDecl then reply (Return D3DERR_INVALIDCALL) c
       else bindE (count_elems es) (\<lambda>n. reply (Message ''CreateVertexDeclaration''
         [Word (word_of_nat n), Obj (Some (concat (take n es))), Word new_id] CreateAnswer) c))"

definition shader_refused :: "u32 \<Rightarrow> CommonShader \<Rightarrow> bool" where
  "shader_refused caps s \<longleftrightarrow> D3DSHADER_VERSION_MAJOR caps < m_majorVersion s"

definition dev_CreateVertexShader :: "u32 list \<Rightarrow> bool \<Rightarrow> u32 \<Rightarrow> client \<Rightarrow> client_result" where
  "dev_CreateVertexShader pFunction ppShader new_id c =
    (if \<not> ppShader \<or> VertexShaderVersion c = 0xFFFE0000 then reply (Return D3DERR_INVALIDCALL) c
     else bindE (new_CommonShader pFunction) (\<lambda>s.
       if shader_refused (VertexShaderVersion c) s then reply (Return D3DERR_INVALIDCALL) c
       else let n = word_of_nat (fst (GetFunction s)) in
         bindE (read_obj n (Some (concat (map u32_bytes pFunction)))) (\<lambda>code.
         reply (Message ''CreateVertexShader'' [Word new_id, Word n, code] CreateAnswer) c)))"

definition dev_CreatePixelShader :: "u32 list \<Rightarrow> bool \<Rightarrow> u32 \<Rightarrow> client \<Rightarrow> client_result" where
  "dev_CreatePixelShader pFunction ppShader new_id c =
    (if \<not> ppShader \<or> PixelShaderVersion c = 0xFFFF0000 then reply (Return D3DERR_INVALIDCALL) c
     else bindE (new_CommonShader pFunction) (\<lambda>s.
       if shader_refused (PixelShaderVersion c) s then reply (Return D3DERR_INVALIDCALL) c
       else let n = word_of_nat (fst (GetFunction s)) in
         bindE (read_obj n (Some (concat (map u32_bytes pFunction)))) (\<lambda>code.
         reply (Message ''CreatePixelShader'' [Word new_id, Word n, code] CreateAnswer) c)))"

definition dev_CreateQuery :: "u32 \<Rightarrow> bool \<Rightarrow> u32 \<Rightarrow> client \<Rightarrow> client_result" where
  "dev_CreateQuery Type ppQuery new_id =
    (if \<not> ppQuery then reply (Return S_OK) else reply (Message ''CreateQuery'' [Word Type, Word new_id] NoAnswer))"

lemmas create_defs = dev_CreateTexture_def dev_CreateVolumeTexture_def dev_CreateCubeTexture_def
  dev_CreateVertexBuffer_def dev_CreateIndexBuffer_def dev_CreateRenderTarget_def dev_CreateDepthStencilSurface_def
  dev_CreateOffscreenPlainSurface_def dev_CreateRenderTargetEx_def dev_CreateOffscreenPlainSurfaceEx_def
  dev_CreateDepthStencilSurfaceEx_def dev_CreateVertexDeclaration_def dev_CreateVertexShader_def dev_CreatePixelShader_def
  dev_CreateQuery_def

section \<open>Queries and modes\<close>

definition dev_TestCooperativeLevel :: "client \<Rightarrow> client_result" where
  "dev_TestCooperativeLevel = reply (Return S_OK)"

definition dev_GetAvailableTextureMem :: "client \<Rightarrow> client_result" where
  "dev_GetAvailableTextureMem = reply (Message ''GetAvailableTextureMem'' [] AlwaysAnswer)"

definition dev_EvictManagedResources :: "client \<Rightarrow> client_result" where
  "dev_EvictManagedResources = reply (Message ''EvictManagedResources'' [] OptionalAnswer)"

text \<open>Calls the client answers itself; a message goes out only when read-only calls are to be sent too.\<close>

definition readonly :: "string \<Rightarrow> item list \<Rightarrow> client \<Rightarrow> client_result" where
  "readonly n its c = reply (if sendReadOnly c then Message n its NoAnswer else Return S_OK) c"

definition dev_GetDirect3D :: "bool \<Rightarrow> client \<Rightarrow> client_result" where
  "dev_GetDirect3D ppD3D9 = (if \<not> ppD3D9 then reply (Return D3DERR_INVALIDCALL) else readonly ''GetDirect3D'' [])"

definition dev_GetSwapChain :: "u32 \<Rightarrow> bool \<Rightarrow> client \<Rightarrow> client_result" where
  "dev_GetSwapChain iSwapChain pSwapChain =
    (if \<not> pSwapChain then reply (Return D3DERR_INVALIDCALL) else readonly ''GetSwapChain'' [Word iSwapChain])"

definition dev_GetNumberOfSwapChains :: "client \<Rightarrow> client_result" where
  "dev_GetNumberOfSwapChains = readonly ''GetNumberOfSwapChains'' [Word 1]"

definition dev_GetGammaRamp :: "u32 \<Rightarrow> client \<Rightarrow> client_result" where
  "dev_GetGammaRamp iSwapChain = readonly ''GetGammaRamp'' [Word iSwapChain]"

definition dev_SetGammaRamp :: "u32 \<Rightarrow> u32 \<Rightarrow> memory option \<Rightarrow> client \<Rightarrow> client_result" where
  "dev_SetGammaRamp iSwapChain Flags pRamp c = (case pRamp of None \<Rightarrow> Inl NullDereference
    | Some r \<Rightarrow> reply (Message ''SetGammaRamp'' [Word iSwapChain, Word Flags, Obj (Some r)] NoAnswer) (c\<lparr>m_gammaRamp := r\<rparr>))"

definition dev_internalGetDeviceCaps :: "client \<Rightarrow> client_result" where
  "dev_internalGetDeviceCaps = reply (Message ''GetDeviceCaps'' [] AlwaysAnswer)"

definition dev_GetDisplayMode :: "u32 \<Rightarrow> bool \<Rightarrow> client \<Rightarrow> client_result" where
  "dev_GetDisplayMode iSwapChain pMode =
    (if \<not> pMode then reply (Return D3DERR_INVALIDCALL) else reply (Message ''GetDisplayMode'' [Word iSwapChain] AlwaysAnswer))"

definition dev_GetDisplayModeEx :: "u32 \<Rightarrow> bool \<Rightarrow> bool \<Rightarrow> client \<Rightarrow> client_result" where
  "dev_GetDisplayModeEx iSwapChain pMode pRotation =
    (if \<not> pMode \<or> \<not> pRotation then reply (Return D3DERR_INVALIDCALL)
     else reply (Message ''GetDisplayModeEx'' [Word iSwapChain] AlwaysAnswer))"

definition dev_SetCursorProperties :: "u32 \<Rightarrow> u32 \<Rightarrow> u32 \<Rightarrow> client \<Rightarrow> client_result" where
  "dev_SetCursorProperties XHotSpot YHotSpot pCursorBitmap =
    (if pCursorBitmap = 0 then reply (Return D3DERR_INVALIDCALL)
     else reply (Message ''SetCursorProperties'' [Word XHotSpot, Word YHotSpot, Word pCursorBitmap] OptionalAnswer))"

definition dev_SetCursorPosition :: "u32 \<Rightarrow> u32 \<Rightarrow> u32 \<Rightarrow> client \<Rightarrow> client_result" where
  "dev_SetCursorPosition X Y Flags = reply (Message ''SetCursorPosition'' [Word X, Word Y, Word Flags] NoAnswer)"

definition dev_ShowCursor :: "u32 \<Rightarrow> client \<Rightarrow> client_result" where
  "dev_ShowCursor bShow = reply (Message ''ShowCursor'' [Word bShow] AlwaysAnswer)"

definition dev_SetDialogBoxMode :: "u32 \<Rightarrow> client \<Rightarrow> client_result" where
  "dev_SetDialogBoxMode bEnableDialogs = reply (Message ''SetDialogBoxMode'' [Word bEnableDialogs] OptionalAnswer)"

definition dev_CheckDeviceState :: "u32 \<Rightarrow> client \<Rightarrow> client_result" where
  "dev_CheckDeviceState hDestinationWindow = reply (Message ''CheckDeviceState'' [Word hDestinationWindow] AlwaysAnswer)"

definition dev_SetGPUThreadPriority :: "u32 \<Rightarrow> client \<Rightarrow> client_result" where
  "dev_SetGPUThreadPriority Priority c = reply (Return S_OK) (c\<lparr>m_gpuThreadPriority := Priority\<rparr>)"

definition dev_SetMaximumFrameLatency :: "u32 \<Rightarrow> client \<Rightarrow> client_result" where
  "dev_SetMaximumFrameLatency MaxLatency c = reply (Return S_OK) (c\<lparr>m_maxFrameLatency := MaxLatency\<rparr>)"

section \<open>Surfaces and render targets\<close>

definition dev_UpdateSurface :: "u32 \<Rightarrow> memory option \<Rightarrow> u32 \<Rightarrow> memory option \<Rightarrow> client \<Rightarrow> client_result" where
  "dev_UpdateSurface pSourceSurface pSourceRect pDestinationSurface pDestPoint =
    (if pSourceSurface = 0 \<or> pDestinationSurface = 0 \<or> pSourceSurface = pDestinationSurface then reply (Return D3DERR_INVALIDCALL)
     else reply (Message ''UpdateSurface'' [Word pSourceSurface, Obj pSourceRect, Word pDestinationSurface, Obj pDestPoint] OptionalAnswer))"

text \<open>A texture is its id and its resource type (3 texture, 4 volume texture, 5 cube texture).\<close>

definition dev_UpdateTexture :: "(u32 \<times> u32) option \<Rightarrow> u32 \<Rightarrow> client \<Rightarrow> client_result" where
  "dev_UpdateTexture pSourceTexture pDestinationTexture = (case pSourceTexture of None \<Rightarrow> (\<lambda>_. Inl NullDereference)
   | Some (src, type) \<Rightarrow>
       if type \<notin> {3, 4, 5} \<or> pDestinationTexture = 0 then reply (Return D3DERR_INVALIDCALL)
       else reply (Message ''UpdateTexture'' [Word src, Word pDestinationTexture] OptionalAnswer))"

definition dev_GetRenderTargetData :: "u32 \<Rightarrow> u32 \<Rightarrow> client \<Rightarrow> client_result" where
  "dev_GetRenderTargetData pRenderTarget pDestSurface =
    (if pRenderTarget = 0 \<or> pDestSurface = 0 then (\<lambda>_. Inl NullDereference)
     else reply (Message ''GetRenderTargetData'' [Word pRenderTarget, Word pDestSurface] AlwaysAnswer))"

definition dev_GetFrontBufferData :: "u32 \<Rightarrow> u32 \<Rightarrow> client \<Rightarrow> client_result" where
  "dev_GetFrontBufferData iSwapChain pDestSurface =
    (if pDestSurface = 0 then reply (Return D3DERR_INVALIDCALL)
     else reply (Message ''GetFrontBufferData'' [Word iSwapChain, Word pDestSurface] AlwaysAnswer))"

definition dev_StretchRect :: "u32 \<Rightarrow> memory option \<Rightarrow> u32 \<Rightarrow> memory option \<Rightarrow> u32 \<Rightarrow> client \<Rightarrow> client_result" where
  "dev_StretchRect pSourceSurface pSourceRect pDestSurface pDestRect Filter =
    (if pSourceSurface = 0 \<or> pDestSurface = 0 then reply (Return D3DERR_INVALIDCALL)
     else if Filter \<notin> {2, 1, 0} then reply (Return D3DERR_INVALIDCALL)
     else reply (Message ''StretchRect''
       [Word pSourceSurface, Obj pSourceRect, Word pDestSurface, Obj pDestRect, Word Filter] OptionalAnswer))"

definition dev_ColorFill :: "u32 \<Rightarrow> memory option \<Rightarrow> u32 \<Rightarrow> client \<Rightarrow> client_result" where
  "dev_ColorFill pSurface pRect color =
    (if pSurface = 0 then reply (Return D3DERR_INVALIDCALL)
     else reply (Message ''ColorFill'' [Word pSurface, Obj pRect, Obj (Some (u32_bytes color))] OptionalAnswer))"

definition upd_state :: "(dev_state \<Rightarrow> dev_state) \<Rightarrow> client \<Rightarrow> client" where
  "upd_state f c = c\<lparr>cdev := set_state f (cdev c)\<rparr>"

definition dev_SetRenderTarget :: "u32 \<Rightarrow> u32 \<Rightarrow> client \<Rightarrow> client_result" where
  "dev_SetRenderTarget RenderTargetIndex pRenderTarget c =
    (if length (renderTargets (m_state (cdev c))) \<le> unat RenderTargetIndex then Inl OutOfBounds
     else reply (Message ''SetRenderTarget'' [Word RenderTargetIndex, Word pRenderTarget] OptionalAnswer)
       (upd_state (\<lambda>s. s\<lparr>renderTargets := (renderTargets s)[unat RenderTargetIndex := pRenderTarget]\<rparr>) c))"

definition dev_GetRenderTarget :: "u32 \<Rightarrow> bool \<Rightarrow> client \<Rightarrow> client_result" where
  "dev_GetRenderTarget RenderTargetIndex ppRenderTarget c =
    (if \<not> ppRenderTarget then reply (Return D3DERR_INVALIDCALL) c
     else bindE (getE (renderTargets (m_state (cdev c))) (unat RenderTargetIndex)) (\<lambda>t.
       reply (if t \<noteq> 0 then Message ''GetRenderTarget'' [Word RenderTargetIndex, Word t] OptionalAnswer else Return S_OK) c))"

definition dev_SetDepthStencilSurface :: "u32 \<Rightarrow> client \<Rightarrow> client_result" where
  "dev_SetDepthStencilSurface pNewZStencil c =
    reply (Message ''SetDepthStencilSurface'' [Word pNewZStencil] OptionalAnswer) (upd_state (\<lambda>s. s\<lparr>depthStencil := pNewZStencil\<rparr>) c)"

definition dev_GetDepthStencilSurface :: "bool \<Rightarrow> client \<Rightarrow> client_result" where
  "dev_GetDepthStencilSurface ppZStencilSurface c =
    (if \<not> ppZStencilSurface then reply (Return D3DERR_INVALIDCALL) c
     else let z = depthStencil (m_state (cdev c)) in
       reply (if z \<noteq> 0 then Message ''GetDepthStencilSurface'' [Word z] OptionalAnswer else WaitUnsent OptionalAnswer) c)"

section \<open>Scenes and drawing\<close>

definition dev_BeginScene :: "client \<Rightarrow> client_result" where
  "dev_BeginScene c = reply (Message ''BeginScene'' [] OptionalAnswer)
     (if gSceneState c = WaitBeginScene then c\<lparr>gSceneState := SceneInProgress\<rparr> else c)"

definition dev_EndScene :: "client \<Rightarrow> client_result" where
  "dev_EndScene c = reply (Message ''EndScene'' [] OptionalAnswer)
     (if gSceneState c = SceneInProgress then c\<lparr>gSceneState := SceneEnded\<rparr> else c)"

definition dev_Clear :: "u32 \<Rightarrow> memory option \<Rightarrow> u32 \<Rightarrow> u32 \<Rightarrow> u32 \<Rightarrow> u32 \<Rightarrow> client \<Rightarrow> client_result" where
  "dev_Clear Count pRects Flags Color Z Stencil c =
    (if Count = 0 \<and> pRects \<noteq> None \<or> Count \<noteq> 0 \<and> pRects = None then reply (Return D3DERR_INVALIDCALL) c
     else bindE (read_obj (16 * Count) pRects) (\<lambda>rects.
       reply (Message ''Clear'' [Word Count, Word Flags, Obj (Some (u32_bytes Z)), Word Stencil, rects, Obj (Some (u32_bytes Color))]
         OptionalAnswer) c))"

definition dev_DrawPrimitive :: "u32 \<Rightarrow> u32 \<Rightarrow> u32 \<Rightarrow> client \<Rightarrow> client_result" where
  "dev_DrawPrimitive PrimitiveType StartVertex PrimitiveCount =
    reply (Message ''DrawPrimitive'' [Word PrimitiveType, Word StartVertex, Word PrimitiveCount] OptionalAnswer)"

definition dev_DrawIndexedPrimitive :: "u32 \<Rightarrow> u32 \<Rightarrow> u32 \<Rightarrow> u32 \<Rightarrow> u32 \<Rightarrow> u32 \<Rightarrow> client \<Rightarrow> client_result" where
  "dev_DrawIndexedPrimitive Type BaseVertexIndex MinVertexIndex NumVertices startIndex primCount =
    reply (Message ''DrawIndexedPrimitive''
      [Word Type, Word BaseVertexIndex, Word MinVertexIndex, Word NumVertices, Word startIndex, Word primCount] OptionalAnswer)"

definition dev_DrawPrimitiveUP :: "u32 \<Rightarrow> u32 \<Rightarrow> memory option \<Rightarrow> u32 \<Rightarrow> client \<Rightarrow> client_result" where
  "dev_DrawPrimitiveUP PrimitiveType PrimitiveCount pVertexStreamZeroData VertexStreamZeroStride c =
    bindE (read_obj (GetIndexCount PrimitiveType PrimitiveCount * VertexStreamZeroStride) pVertexStreamZeroData) (\<lambda>vs.
      reply (Message ''DrawPrimitiveUP'' [Word PrimitiveType, Word PrimitiveCount, vs, Word VertexStreamZeroStride] OptionalAnswer) c)"

definition dev_DrawIndexedPrimitiveUP ::
  "u32 \<Rightarrow> u32 \<Rightarrow> u32 \<Rightarrow> u32 \<Rightarrow> memory option \<Rightarrow> u32 \<Rightarrow> memory option \<Rightarrow> u32 \<Rightarrow> client \<Rightarrow> client_result" where
  "dev_DrawIndexedPrimitiveUP PrimitiveType MinIndex NumVertices PrimitiveCount pIndexData IndexDataFormat pVertexStreamZeroData
      VertexStreamZeroStride c =
    bindE (read_obj (GetIndexCount PrimitiveType PrimitiveCount * (if IndexDataFormat = 101 then 2 else 4)) pIndexData) (\<lambda>ixs.
    bindE (read_obj (NumVertices * VertexStreamZeroStride) pVertexStreamZeroData) (\<lambda>vs.
      reply (Message ''DrawIndexedPrimitiveUP''
        [Word PrimitiveType, Word MinIndex, Word NumVertices, Word PrimitiveCount, Word IndexDataFormat, Word VertexStreamZeroStride, ixs, vs]
        OptionalAnswer) c))"

definition dev_ProcessVertices :: "u32 \<Rightarrow> u32 \<Rightarrow> u32 \<Rightarrow> u32 \<Rightarrow> u32 \<Rightarrow> u32 \<Rightarrow> client \<Rightarrow> client_result" where
  "dev_ProcessVertices SrcStartIndex DestIndex VertexCount pDestBuffer pVertexDecl Flags =
    (if pDestBuffer = 0 \<or> pVertexDecl = 0 then reply (Return D3DERR_INVALIDCALL)
     else reply (Message ''ProcessVertices''
       [Word SrcStartIndex, Word DestIndex, Word VertexCount, Word pDestBuffer, Word pVertexDecl, Word Flags] OptionalAnswer))"

definition dev_SetConvolutionMonoKernel :: "u32 \<Rightarrow> u32 \<Rightarrow> memory option \<Rightarrow> memory option \<Rightarrow> client \<Rightarrow> client_result" where
  "dev_SetConvolutionMonoKernel width height rows columns c =
    bindE (read_obj (4 * width) rows) (\<lambda>r. bindE (read_obj (4 * height) columns) (\<lambda>k.
      reply (Message ''SetConvolutionMonoKernel'' [Word width, Word height, r, k] OptionalAnswer) c))"

definition dev_ComposeRects :: "u32 \<Rightarrow> u32 \<Rightarrow> u32 \<Rightarrow> u32 \<Rightarrow> u32 \<Rightarrow> u32 \<Rightarrow> u32 \<Rightarrow> u32 \<Rightarrow> client \<Rightarrow> client_result" where
  "dev_ComposeRects pSrc pDst pSrcRectDescs NumRects pDstRectDescs Operation Xoffset Yoffset =
    (if pSrc \<noteq> 0 \<and> pDst \<noteq> 0 then reply (Message ''ComposeRects''
       [Word pSrc, Word pDst, Word pSrcRectDescs, Word pDstRectDescs, Word NumRects, Word Operation, Word Xoffset, Word Yoffset] OptionalAnswer)
     else reply (Return D3DERR_INVALIDCALL))"

lemmas use_defs = dev_TestCooperativeLevel_def dev_GetAvailableTextureMem_def dev_EvictManagedResources_def readonly_def dev_GetDirect3D_def
  dev_GetSwapChain_def dev_GetNumberOfSwapChains_def dev_GetGammaRamp_def dev_SetGammaRamp_def dev_internalGetDeviceCaps_def
  dev_GetDisplayMode_def dev_GetDisplayModeEx_def dev_SetCursorProperties_def dev_SetCursorPosition_def dev_ShowCursor_def
  dev_SetDialogBoxMode_def dev_CheckDeviceState_def dev_SetGPUThreadPriority_def dev_SetMaximumFrameLatency_def dev_UpdateSurface_def
  dev_UpdateTexture_def dev_GetRenderTargetData_def dev_GetFrontBufferData_def dev_StretchRect_def dev_ColorFill_def
  dev_SetRenderTarget_def dev_GetRenderTarget_def dev_SetDepthStencilSurface_def dev_GetDepthStencilSurface_def dev_BeginScene_def
  dev_EndScene_def dev_Clear_def dev_DrawPrimitive_def dev_DrawIndexedPrimitive_def dev_DrawPrimitiveUP_def
  dev_DrawIndexedPrimitiveUP_def dev_ProcessVertices_def dev_SetConvolutionMonoKernel_def dev_ComposeRects_def

end
