(* ===== verification/Client_Create.thy ===== *)
theory Client_Create
  imports Client_Calls
begin

text \<open>
  The creation functions of the client's device against the server's handlers: the handler of
  \<open>Server_Dispatch\<close> turns each message into the call the application made, arguments in the order of the
  Direct3D interface, with no datum missing or left over, stores the object under the wrapper's id, and
  the client waits for an answer exactly when the handler sends one.
\<close>

section \<open>What the application asked for\<close>

text \<open>The calls as values, each run by its function above, and the call of the Direct3D interface it stands for: method,
  arguments in the interface's order, and the table entry for a created object.\<close>

datatype create_call =
    C_Texture u32 u32 u32 u32 u32 u32 bool | C_VolumeTexture u32 u32 u32 u32 u32 u32 u32 bool | C_CubeTexture u32 u32 u32 u32 u32 bool
  | C_VertexBuffer u32 u32 u32 u32 bool | C_IndexBuffer u32 u32 u32 u32 bool | C_RenderTarget u32 u32 u32 u32 u32 u32 bool
  | C_DepthStencilSurface u32 u32 u32 u32 u32 u32 bool | C_OffscreenPlainSurface u32 u32 u32 u32 bool
  | C_RenderTargetEx u32 u32 u32 u32 u32 u32 bool u32 | C_OffscreenPlainSurfaceEx u32 u32 u32 u32 bool u32
  | C_DepthStencilSurfaceEx u32 u32 u32 u32 u32 u32 bool u32 | C_VertexDeclaration "memory list option" bool
  | C_VertexShader "u32 list" bool | C_PixelShader "u32 list" bool | C_Query u32 bool

primrec run_create :: "create_call \<Rightarrow> u32 \<Rightarrow> client \<Rightarrow> client_result" where
  "run_create (C_Texture w h l u f p pp) = dev_CreateTexture w h l u f p pp"
| "run_create (C_VolumeTexture w h d l u f p pp) = dev_CreateVolumeTexture w h d l u f p pp"
| "run_create (C_CubeTexture e l u f p pp) = dev_CreateCubeTexture e l u f p pp"
| "run_create (C_VertexBuffer n u f p pp) = dev_CreateVertexBuffer n u f p pp"
| "run_create (C_IndexBuffer n u f p pp) = dev_CreateIndexBuffer n u f p pp"
| "run_create (C_RenderTarget w h f m q l pp) = dev_CreateRenderTarget w h f m q l pp"
| "run_create (C_DepthStencilSurface w h f m q d pp) = dev_CreateDepthStencilSurface w h f m q d pp"
| "run_create (C_OffscreenPlainSurface w h f p pp) = dev_CreateOffscreenPlainSurface w h f p pp"
| "run_create (C_RenderTargetEx w h f m q l pp u) = dev_CreateRenderTargetEx w h f m q l pp u"
| "run_create (C_OffscreenPlainSurfaceEx w h f p pp u) = dev_CreateOffscreenPlainSurfaceEx w h f p pp u"
| "run_create (C_DepthStencilSurfaceEx w h f m q d pp u) = dev_CreateDepthStencilSurfaceEx w h f m q d pp u"
| "run_create (C_VertexDeclaration es pp) = dev_CreateVertexDeclaration es pp"
| "run_create (C_VertexShader fn pp) = dev_CreateVertexShader fn pp"
| "run_create (C_PixelShader fn pp) = dev_CreatePixelShader fn pp"
| "run_create (C_Query t pp) = dev_CreateQuery t pp"

definition mips :: "u32 \<Rightarrow> u32 or_error \<Rightarrow> u32" where
  "mips l computed = (if l = 0 then (case computed of Inl _ \<Rightarrow> 0 | Inr n \<Rightarrow> n) else l)"

definition decl_elements :: "memory list \<Rightarrow> memory list" where
  "decl_elements es = takeWhile (\<lambda>e. stream_of e \<noteq> 0xFF) es @ take 1 (dropWhile (\<lambda>e. stream_of e \<noteq> 0xFF) es)"

definition shader_bytes :: "u32 list \<Rightarrow> memory" where
  "shader_bytes fn = (case new_CommonShader fn of Inl _ \<Rightarrow> [] | Inr s \<Rightarrow> m_code s)"

primrec create_spec :: "create_call \<Rightarrow> string \<times> api_arg list \<times> table" where
  "create_spec (C_Texture w h l u f p pp) =
     (''CreateTexture'', [W w, W h, W (mips l (CalculateNumMipLevels w h 1)), W u, W f, W p, Out, P None], Resources)"
| "create_spec (C_VolumeTexture w h d l u f p pp) =
     (''CreateVolumeTexture'', [W w, W h, W d, W (mips l (CalculateNumMipLevels w h d)), W u, W f, W p, Out, P None], Resources)"
| "create_spec (C_CubeTexture e l u f p pp) =
     (''CreateCubeTexture'', [W e, W (mips l (CalculateNumMipLevels e 1 1)), W u, W f, W p, Out, P None], Resources)"
| "create_spec (C_VertexBuffer n u f p pp) = (''CreateVertexBuffer'', [W n, W u, W f, W p, Out, P None], Resources)"
| "create_spec (C_IndexBuffer n u f p pp) = (''CreateIndexBuffer'', [W n, W u, W f, W p, Out, P None], Resources)"
| "create_spec (C_RenderTarget w h f m q l pp) = (''CreateRenderTarget'', [W w, W h, W f, W m, W q, W l, Out, P None], Resources)"
| "create_spec (C_DepthStencilSurface w h f m q d pp) =
     (''CreateDepthStencilSurface'', [W w, W h, W f, W m, W q, W d, Out, P None], Resources)"
| "create_spec (C_OffscreenPlainSurface w h f p pp) = (''CreateOffscreenPlainSurface'', [W w, W h, W f, W p, Out, P None], Resources)"
| "create_spec (C_RenderTargetEx w h f m q l pp u) =
     (''CreateRenderTargetEx'', [W w, W h, W f, W m, W q, W l, Out, P None, W u], Resources)"
| "create_spec (C_OffscreenPlainSurfaceEx w h f p pp u) =
     (''CreateOffscreenPlainSurfaceEx'', [W w, W h, W f, W p, Out, P None, W u], Resources)"
| "create_spec (C_DepthStencilSurfaceEx w h f m q d pp u) =
     (''CreateDepthStencilSurfaceEx'', [W w, W h, W f, W m, W q, W d, Out, P None, W u], Resources)"
| "create_spec (C_VertexDeclaration es pp) =
     (''CreateVertexDeclaration'', [P (map_option (\<lambda>es. concat (decl_elements es)) es), Out], VertexDeclarations)"
| "create_spec (C_VertexShader fn pp) = (''CreateVertexShader'', [P (Some (shader_bytes fn)), Out], VertexShaders)"
| "create_spec (C_PixelShader fn pp) = (''CreatePixelShader'', [P (Some (shader_bytes fn)), Out], PixelShaders)"
| "create_spec (C_Query t pp) = (''CreateQuery'', [W t, Out], Queries)"

text \<open>A shader lies in the 32-bit address space, and vertex elements have 8 bytes.\<close>

primrec create_ok :: "create_call \<Rightarrow> bool" where
  "create_ok (C_Texture w h l u f p pp) \<longleftrightarrow> True"
| "create_ok (C_VolumeTexture w h d l u f p pp) \<longleftrightarrow> True"
| "create_ok (C_CubeTexture e l u f p pp) \<longleftrightarrow> True"
| "create_ok (C_VertexBuffer n u f p pp) \<longleftrightarrow> True"
| "create_ok (C_IndexBuffer n u f p pp) \<longleftrightarrow> True"
| "create_ok (C_RenderTarget w h f m q l pp) \<longleftrightarrow> True"
| "create_ok (C_DepthStencilSurface w h f m q d pp) \<longleftrightarrow> True"
| "create_ok (C_OffscreenPlainSurface w h f p pp) \<longleftrightarrow> True"
| "create_ok (C_RenderTargetEx w h f m q l pp u) \<longleftrightarrow> True"
| "create_ok (C_OffscreenPlainSurfaceEx w h f p pp u) \<longleftrightarrow> True"
| "create_ok (C_DepthStencilSurfaceEx w h f m q d pp u) \<longleftrightarrow> True"
| "create_ok (C_VertexDeclaration es pp) \<longleftrightarrow> (\<forall>xs. es = Some xs \<longrightarrow> (\<forall>e \<in> set xs. length e = 8))"
| "create_ok (C_VertexShader fn pp) \<longleftrightarrow> 4 * length fn < 2 ^ 32"
| "create_ok (C_PixelShader fn pp) \<longleftrightarrow> 4 * length fn < 2 ^ 32"
| "create_ok (C_Query t pp) \<longleftrightarrow> True"

lemma dispatch_creates:
  "dispatch ''CreateTexture'' = on_CreateTexture" "dispatch ''CreateVolumeTexture'' = on_CreateVolumeTexture"
  "dispatch ''CreateCubeTexture'' = on_CreateCubeTexture" "dispatch ''CreateVertexBuffer'' = on_CreateVertexBuffer"
  "dispatch ''CreateIndexBuffer'' = on_CreateIndexBuffer" "dispatch ''CreateRenderTarget'' = on_CreateRenderTarget"
  "dispatch ''CreateDepthStencilSurface'' = on_CreateDepthStencilSurface"
  "dispatch ''CreateOffscreenPlainSurface'' = on_CreateOffscreenPlainSurface"
  "dispatch ''CreateRenderTargetEx'' = on_CreateRenderTargetEx" "dispatch ''CreateOffscreenPlainSurfaceEx'' = on_CreateOffscreenPlainSurfaceEx"
  "dispatch ''CreateDepthStencilSurfaceEx'' = on_CreateDepthStencilSurfaceEx"
  "dispatch ''CreateVertexDeclaration'' = on_CreateVertexDeclaration" "dispatch ''CreateVertexShader'' = on_CreateVertexShader"
  "dispatch ''CreatePixelShader'' = on_CreatePixelShader" "dispatch ''CreateQuery'' = on_CreateQuery"
  by (simp_all add: dispatch_def case_lists)

lemma count_elems_declaration:
  assumes "count_elems es = Inr n"
  shows "take n es = decl_elements es" "0 < n" "n \<le> length es"
  using assms by (induction es arbitrary: n) (auto simp: decl_elements_def bind_simps split: if_splits)

lemma levels_or_mips: "levels_or l r = Inr n \<Longrightarrow> mips l r = n"
  by (auto simp: levels_or_def mips_def split: if_splits)

text \<open>The code of a shader is what is read from the application's memory.\<close>

lemma read_shader:
  assumes "new_CommonShader fn = Inr s" and "4 * length fn < 2 ^ 32"
  shows "read_obj (word_of_nat (fst (GetFunction s))) (Some (concat (map u32_bytes fn))) = Inr (Obj (Some (m_code s))) \<and> m_code s \<noteq> []"
proof -
  obtain n where n: "1 < n" "n \<le> length fn" "m_code s = concat (map u32_bytes (take n fn))" "fst (GetFunction s) = 4 * n"
    using shader_walk_code [OF assms(1)] by blast
  have "unat (word_of_nat (4 * n) :: u32) = 4 * n" using n(2) assms(2) by (simp add: unat_of_nat del: of_nat_mult)
  moreover have "take n fn \<noteq> []" using n by auto
  ultimately show ?thesis
    using n take_concat_u32_bytes [of n fn] by (auto simp: read_obj_def u32_bytes_def simp del: of_nat_mult)
qed

definition create_reaches :: "u32 \<Rightarrow> create_call \<Rightarrow> u32 \<Rightarrow> client \<Rightarrow> bool" where
  "create_reaches h a new_id c \<longleftrightarrow> (\<forall>n its ans c'. run_create a new_id c = Inr (Message n its ans, c') \<longrightarrow>
     c' = c \<and> n = fst (create_spec a) \<and> dispatch n h (map received its) = Inr
       ([(request (Some (Devices, h)) n (fst (snd (create_spec a))) ans)\<lparr>stores := Some (snd (snd (create_spec a)), new_id)\<rparr>], []))"

lemmas decode_creates = create_reaches_def create_defs reply_def dispatch_creates on_defs decode_defs

lemma create_reaches_simple:
  "create_reaches h (C_Texture w ht l u f p pp) i c" "create_reaches h (C_VolumeTexture w ht d l u f p pp) i c"
  "create_reaches h (C_CubeTexture e l u f p pp) i c" "create_reaches h (C_VertexBuffer n u f p pp) i c"
  "create_reaches h (C_IndexBuffer n u f p pp) i c" "create_reaches h (C_RenderTarget w ht f m q l' pp) i c"
  "create_reaches h (C_DepthStencilSurface w ht f m q d pp) i c" "create_reaches h (C_OffscreenPlainSurface w ht f p pp) i c"
  "create_reaches h (C_RenderTargetEx w ht f m q l' pp u) i c" "create_reaches h (C_OffscreenPlainSurfaceEx w ht f p pp u) i c"
  "create_reaches h (C_DepthStencilSurfaceEx w ht f m q d pp u) i c" "create_reaches h (C_Query t pp) i c"
  by (auto simp: decode_creates bind_simps levels_or_mips split: if_splits)

lemma create_reaches_declaration:
  assumes "create_ok (C_VertexDeclaration es pp)"
  shows "create_reaches h (C_VertexDeclaration es pp) i c"
proof (cases es)
  case (Some xs)
  have "concat (decl_elements xs) \<noteq> []" if "count_elems xs = Inr n" for n
  proof -
    have ne: "take n xs \<noteq> []" using count_elems_declaration(2,3) [OF that] by auto
    then have "hd (take n xs) \<in> set xs" by (metis hd_in_set in_set_takeD)
    then have "hd (take n xs) \<noteq> []" using assms Some by auto
    then show ?thesis using ne unfolding count_elems_declaration(1) [OF that, symmetric] by (cases "take n xs") auto
  qed
  then show ?thesis
    using Some by (auto simp: decode_creates bind_simps count_elems_declaration split: if_splits simp del: concat_eq_Nil_conv)
qed (simp add: decode_creates)

lemma create_reaches_shader:
  assumes "4 * length fn < 2 ^ 32"
  shows "create_reaches h (C_VertexShader fn pp) i c" "create_reaches h (C_PixelShader fn pp) i c"
  using read_shader [OF _ assms]
  by (auto simp: decode_creates bind_simps shader_bytes_def Let_def split: if_splits)

section \<open>Properties of creation\<close>

text \<open>C13. Every creation function of the device that sends a message makes the server create what the application asked
  for: the handler finds every datum it pulls and leaves none, calls the method with the arguments in the
  interface's order (a level count of 0 replaced by the client's, the vertex elements up to and with the end
  marker, the shader code up to its end token), stores the object under the new wrapper's id in the
  table of its kind, and answers exactly in the configurations in which the client waits.\<close>

theorem creations_reach_server:
  assumes "create_ok a" and "run_create a new_id c = Inr (Message n its ans, c')"
  shows "c' = c \<and> n = fst (create_spec a) \<and> dispatch n h (map received its) = Inr
    ([(request (Some (Devices, h)) n (fst (snd (create_spec a))) ans)\<lparr>stores := Some (snd (snd (create_spec a)), new_id)\<rparr>], [])"
proof -
  have "create_reaches h a new_id c"
    using assms(1) by (cases a) (simp_all add: create_reaches_simple create_reaches_declaration create_reaches_shader del: create_ok.simps(12))
  then show ?thesis using assms(2) unfolding create_reaches_def by blast
qed

definition demo_client :: client where
  "demo_client = \<lparr>cdev = \<lparr>m_state = \<lparr>renderTargets = [1, 0, 0, 0], depthStencil = 0, transforms = [], viewport = [], material = [],
       lights = (\<lambda>_. []), bLightEnables = (\<lambda>_. False), clipPlanes = [], renderStates = [], textures = [], textureStageStates = [],
       samplerStates = [], scissorRect = [], vertexDecl = 0, vertexShader = 0, vs_fConsts = [], vs_iConsts = [], vs_bConsts = [],
       streams = [], streamOffsetsStrides = [], streamFreqs = [], indices = 0, pixelShader = 0, ps_fConsts = [], ps_iConsts = [],
       ps_bConsts = []\<rparr>, m_stateRecording = None, m_clipStatus = [], m_paletteEntries = (\<lambda>_. []), m_curTexPalette = 0,
       m_bSoftwareVtxProcessing = 0, m_NPatchMode = 0, m_FVF = 0, opt_eliminate = True, opt_sendAll = False, opt_batch = True\<rparr>,
     m_gammaRamp = [], gSceneState = WaitBeginScene, m_gpuThreadPriority = 0, m_maxFrameLatency = 3,
     VertexShaderVersion = 0xFFFE0300, PixelShaderVersion = 0xFFFF0300, sendReadOnly = False\<rparr>"

text \<open>A texture of 256 by 64 texels with all its levels, under id 7 on device 5.\<close>

theorem creations_reach_server_witness:
  "dispatch ''CreateTexture'' 5 (map received [Word 256, Word 64, Word 9, Word 0, Word 21, Word 1, Word 7])
    = Inr ([(request (Some (Devices, 5)) ''CreateTexture'' [W 256, W 64, W 9, W 0, W 21, W 1, Out, P None] CreateAnswer)
        \<lparr>stores := Some (Resources, 7)\<rparr>], [])"
proof -
  have "ceillog2 256 = 8" using ceillog2_2_power [of 8] by simp
  then have mip: "CalculateNumMipLevels 256 64 1 = Inr 9" by (simp add: CalculateNumMipLevels_def max_def word_le_nat_alt)
  have ok: "create_ok (C_Texture 256 64 0 0 21 1 True)" by simp
  have "run_create (C_Texture 256 64 0 0 21 1 True) 7 demo_client
      = Inr (Message ''CreateTexture'' [Word 256, Word 64, Word 9, Word 0, Word 21, Word 1, Word 7] CreateAnswer, demo_client)"
    by (simp add: dev_CreateTexture_def levels_or_def mip reply_def)
  from creations_reach_server [OF ok this, of 5] show ?thesis by (simp add: mips_def mip)
qed

section \<open>Mip levels\<close>

text \<open>The levels of a texture: each halves the dimensions, down to one texel.\<close>

fun full_chain :: "nat \<Rightarrow> nat" where
  "full_chain m = (if m \<le> 1 then 1 else 1 + full_chain (m div 2))"

declare full_chain.simps [simp del]

lemma full_chain_power:
  assumes "2 ^ k \<le> m" and "m < 2 ^ (k + 1)"
  shows "full_chain m = k + 1"
  using assms
proof (induction k arbitrary: m)
  case 0
  then show ?case by (simp add: full_chain.simps [of m])
next
  case (Suc k)
  have "1 \<le> (2::nat) ^ k" by simp
  then have "\<not> m \<le> 1" using Suc.prems(1) unfolding power_Suc by linarith
  moreover have "full_chain (m div 2) = k + 1" using Suc.prems by (intro Suc.IH) auto
  ultimately show ?case by (simp add: full_chain.simps [of m])
qed

text \<open>A texture created with level count 0 gets from the client the full chain of levels when its largest dimension is
  a power of two, and one level more than the full chain otherwise: the code takes the ceiling of the
  logarithm where the chain takes the floor.\<close>

theorem mip_levels_sent:
  assumes "CalculateNumMipLevels w h d = Inr n"
  defines "m \<equiv> max (unat d) (max (unat w) (unat h))"
  shows "unat n = full_chain m + (if \<exists>k. m = 2 ^ k then 0 else 1)"
proof -
  have mx: "unat (max d (max w h)) = m" by (simp add: m_def max_def word_le_nat_alt)
  then have m: "0 < m" and n: "n = word_of_nat (ceillog2 m) + 1"
    using assms(1) by (auto simp: CalculateNumMipLevels_def Let_def unat_gt_0 split: if_splits)
  have lt: "m < 2 ^ 32" using mx unsigned_less [of "max d (max w h)", where ?'a = nat] by simp
  have c32: "ceillog2 m \<le> 32" using ceillog2_le_iff [of m 32] m lt by simp
  then have "unat n = ceillog2 m + 1" unfolding n by (simp add: unat_word_ariths unat_of_nat)
  moreover obtain k where k: "2 ^ k \<le> m" "m < 2 ^ (k + 1)"
    using ex_power_ivl1 [of 2 m] m by auto
  moreover have "ceillog2 m = (if m = 2 ^ k then k else k + 1)"
    using k ceillog2_le_iff [OF m, of k] ceillog2_le_iff [OF m, of "k + 1"] by (auto simp del: power_Suc)
  moreover have "(\<exists>j. m = 2 ^ j) \<longleftrightarrow> m = 2 ^ k"
  proof
    assume "\<exists>j. m = 2 ^ j"
    then obtain j where j: "m = 2 ^ j" by blast
    then have "k \<le> j" using k(1) by simp
    moreover have "j < k + 1" by (rule power_less_imp_less_exp [of "2::nat"]) (use j k(2) in simp_all)
    ultimately have "j = k" by simp
    then show "m = 2 ^ k" using j by simp
  qed blast
  ultimately show ?thesis using full_chain_power [OF k] by simp
qed

text \<open>A texture of 5 by 3 texels has the levels 5x3, 2x1 and 1x1, and the client asks for four.\<close>

theorem mip_levels_sent_witness: "CalculateNumMipLevels 5 3 1 = Inr 4 \<and> full_chain 5 = 3 \<and> unat (4 :: u32) = full_chain 5 + 1"
proof -
  have "ceillog2 5 = 3" using ceillog2_le_iff [of 5 3] ceillog2_le_iff [of 5 2] by simp
  then have c: "CalculateNumMipLevels 5 3 1 = Inr 4" by (simp add: CalculateNumMipLevels_def max_def word_le_nat_alt)
  have "(5::nat) \<noteq> 2 ^ k" for k
  proof (cases k)
    case (Suc j)
    then show ?thesis by (simp, presburger)
  qed simp
  then show ?thesis using c mip_levels_sent [OF c] by (simp add: full_chain.simps)
qed

end
