(* ===== verification/Client_Use.thy ===== *)
theory Client_Use
  imports Client_Calls
begin

text \<open>
  The other functions of the client's device that reach the server (queries, surface copies, render
  targets, scenes and drawing) against the server's handlers, as \<open>Client_Create\<close> does for creation.
\<close>

section \<open>Queries, copies and drawing as values\<close>

text \<open>The memory behind a pointer to a variable number of elements: as many bytes as the call names, at least one.\<close>

definition exactly :: "nat \<Rightarrow> memory option \<Rightarrow> bool" where
  "exactly n p \<longleftrightarrow> (\<forall>bs. p = Some bs \<longrightarrow> length bs = n \<and> 0 < n \<and> n < 2 ^ 32)"

datatype (plugins only:) use_call =
    U_TestCooperativeLevel
  | U_GetAvailableTextureMem
  | U_EvictManagedResources
  | U_GetDirect3D bool
  | U_GetSwapChain u32 bool
  | U_GetNumberOfSwapChains
  | U_GetGammaRamp u32
  | U_SetGammaRamp u32 u32 "memory option"
  | U_internalGetDeviceCaps
  | U_GetDisplayMode u32 bool
  | U_GetDisplayModeEx u32 bool bool
  | U_SetCursorProperties u32 u32 u32
  | U_SetCursorPosition u32 u32 u32
  | U_ShowCursor u32
  | U_SetDialogBoxMode u32
  | U_CheckDeviceState u32
  | U_SetGPUThreadPriority u32
  | U_SetMaximumFrameLatency u32
  | U_UpdateSurface u32 "memory option" u32 "memory option"
  | U_UpdateTexture "(u32 \<times> u32) option" u32
  | U_GetRenderTargetData u32 u32
  | U_GetFrontBufferData u32 u32
  | U_StretchRect u32 "memory option" u32 "memory option" u32
  | U_ColorFill u32 "memory option" u32
  | U_SetRenderTarget u32 u32
  | U_GetRenderTarget u32 bool
  | U_SetDepthStencilSurface u32
  | U_GetDepthStencilSurface bool
  | U_BeginScene
  | U_EndScene
  | U_Clear u32 "memory option" u32 u32 u32 u32
  | U_DrawPrimitive u32 u32 u32
  | U_DrawIndexedPrimitive u32 u32 u32 u32 u32 u32
  | U_DrawPrimitiveUP u32 u32 "memory option" u32
  | U_DrawIndexedPrimitiveUP u32 u32 u32 u32 "memory option" u32 "memory option" u32
  | U_ProcessVertices u32 u32 u32 u32 u32 u32
  | U_SetConvolutionMonoKernel u32 u32 "memory option" "memory option"
  | U_ComposeRects u32 u32 u32 u32 u32 u32 u32 u32

primrec run_use :: "use_call \<Rightarrow> client \<Rightarrow> client_result" where
  "run_use (U_TestCooperativeLevel) = dev_TestCooperativeLevel"
| "run_use (U_GetAvailableTextureMem) = dev_GetAvailableTextureMem"
| "run_use (U_EvictManagedResources) = dev_EvictManagedResources"
| "run_use (U_GetDirect3D pp) = dev_GetDirect3D pp"
| "run_use (U_GetSwapChain i pp) = dev_GetSwapChain i pp"
| "run_use (U_GetNumberOfSwapChains) = dev_GetNumberOfSwapChains"
| "run_use (U_GetGammaRamp i) = dev_GetGammaRamp i"
| "run_use (U_SetGammaRamp i f r) = dev_SetGammaRamp i f r"
| "run_use (U_internalGetDeviceCaps) = dev_internalGetDeviceCaps"
| "run_use (U_GetDisplayMode i pp) = dev_GetDisplayMode i pp"
| "run_use (U_GetDisplayModeEx i pm pr) = dev_GetDisplayModeEx i pm pr"
| "run_use (U_SetCursorProperties x y b) = dev_SetCursorProperties x y b"
| "run_use (U_SetCursorPosition x y f) = dev_SetCursorPosition x y f"
| "run_use (U_ShowCursor b) = dev_ShowCursor b"
| "run_use (U_SetDialogBoxMode b) = dev_SetDialogBoxMode b"
| "run_use (U_CheckDeviceState w) = dev_CheckDeviceState w"
| "run_use (U_SetGPUThreadPriority n) = dev_SetGPUThreadPriority n"
| "run_use (U_SetMaximumFrameLatency n) = dev_SetMaximumFrameLatency n"
| "run_use (U_UpdateSurface s r d p) = dev_UpdateSurface s r d p"
| "run_use (U_UpdateTexture s d) = dev_UpdateTexture s d"
| "run_use (U_GetRenderTargetData s d) = dev_GetRenderTargetData s d"
| "run_use (U_GetFrontBufferData i d) = dev_GetFrontBufferData i d"
| "run_use (U_StretchRect s r d q f) = dev_StretchRect s r d q f"
| "run_use (U_ColorFill s r k) = dev_ColorFill s r k"
| "run_use (U_SetRenderTarget i t) = dev_SetRenderTarget i t"
| "run_use (U_GetRenderTarget i pp) = dev_GetRenderTarget i pp"
| "run_use (U_SetDepthStencilSurface z) = dev_SetDepthStencilSurface z"
| "run_use (U_GetDepthStencilSurface pp) = dev_GetDepthStencilSurface pp"
| "run_use (U_BeginScene) = dev_BeginScene"
| "run_use (U_EndScene) = dev_EndScene"
| "run_use (U_Clear n r f k z s) = dev_Clear n r f k z s"
| "run_use (U_DrawPrimitive t s n) = dev_DrawPrimitive t s n"
| "run_use (U_DrawIndexedPrimitive t b m v s n) = dev_DrawIndexedPrimitive t b m v s n"
| "run_use (U_DrawPrimitiveUP t n v s) = dev_DrawPrimitiveUP t n v s"
| "run_use (U_DrawIndexedPrimitiveUP t m k n x f v s) = dev_DrawIndexedPrimitiveUP t m k n x f v s"
| "run_use (U_ProcessVertices s d n b v f) = dev_ProcessVertices s d n b v f"
| "run_use (U_SetConvolutionMonoKernel w h r k) = dev_SetConvolutionMonoKernel w h r k"
| "run_use (U_ComposeRects s d r n q p x y) = dev_ComposeRects s d r n q p x y"

primrec use_spec :: "use_call \<Rightarrow> string \<times> api_arg list" where
  "use_spec (U_TestCooperativeLevel) = ('''', [])"
| "use_spec (U_GetAvailableTextureMem) = (''GetAvailableTextureMem'', [])"
| "use_spec (U_EvictManagedResources) = (''EvictManagedResources'', [])"
| "use_spec (U_GetDirect3D pp) = (''GetDirect3D'', [Out])"
| "use_spec (U_GetSwapChain i pp) = (''GetSwapChain'', [W i, Out])"
| "use_spec (U_GetNumberOfSwapChains) = (''GetNumberOfSwapChains'', [])"
| "use_spec (U_GetGammaRamp i) = (''GetGammaRamp'', [W i, Out])"
| "use_spec (U_SetGammaRamp i f r) = (''SetGammaRamp'', [W i, W f, P r])"
| "use_spec (U_internalGetDeviceCaps) = (''GetDeviceCaps'', [Out])"
| "use_spec (U_GetDisplayMode i pp) = (''GetDisplayMode'', [W i, Out])"
| "use_spec (U_GetDisplayModeEx i pm pr) = (''GetDisplayModeEx'', [W i, Out, Out])"
| "use_spec (U_SetCursorProperties x y b) = (''SetCursorProperties'', [W x, W y, HN Resources b])"
| "use_spec (U_SetCursorPosition x y f) = (''SetCursorPosition'', [W x, W y, W f])"
| "use_spec (U_ShowCursor b) = (''ShowCursor'', [W b])"
| "use_spec (U_SetDialogBoxMode b) = (''SetDialogBoxMode'', [W b])"
| "use_spec (U_CheckDeviceState w) = (''CheckDeviceState'', [W w])"
| "use_spec (U_SetGPUThreadPriority n) = ('''', [])"
| "use_spec (U_SetMaximumFrameLatency n) = ('''', [])"
| "use_spec (U_UpdateSurface s r d p) = (''UpdateSurface'', [H Resources s, P r, H Resources d, P p])"
| "use_spec (U_UpdateTexture s d) = (''UpdateTexture'', [H Resources (case s of None \<Rightarrow> 0 | Some x \<Rightarrow> fst x), H Resources d])"
| "use_spec (U_GetRenderTargetData s d) = (''GetRenderTargetData'', [H Resources s, H Resources d])"
| "use_spec (U_GetFrontBufferData i d) = (''GetFrontBufferData'', [W i, H Resources d])"
| "use_spec (U_StretchRect s r d q f) = (''StretchRect'', [H Resources s, P r, H Resources d, P q, W f])"
| "use_spec (U_ColorFill s r k) = (''ColorFill'', [H Resources s, P r, W k])"
| "use_spec (U_SetRenderTarget i t) = (''SetRenderTarget'', [W i, HN Resources t])"
| "use_spec (U_GetRenderTarget i pp) = (''GetRenderTarget'', [W i, Out])"
| "use_spec (U_SetDepthStencilSurface z) = (''SetDepthStencilSurface'', [HN Resources z])"
| "use_spec (U_GetDepthStencilSurface pp) = (''GetDepthStencilSurface'', [Out])"
| "use_spec (U_BeginScene) = (''BeginScene'', [])"
| "use_spec (U_EndScene) = (''EndScene'', [])"
| "use_spec (U_Clear n r f k z s) = (''Clear'', [W n, P r, W f, W k, W z, W s])"
| "use_spec (U_DrawPrimitive t s n) = (''DrawPrimitive'', [W t, W s, W n])"
| "use_spec (U_DrawIndexedPrimitive t b m v s n) = (''DrawIndexedPrimitive'', [W t, W b, W m, W v, W s, W n])"
| "use_spec (U_DrawPrimitiveUP t n v s) = (''DrawPrimitiveUP'', [W t, W n, P v, W s])"
| "use_spec (U_DrawIndexedPrimitiveUP t m k n x f v s) = (''DrawIndexedPrimitiveUP'', [W t, W m, W k, W n, P x, W f, P v, W s])"
| "use_spec (U_ProcessVertices s d n b v f) = (''ProcessVertices'', [W s, W d, W n, H Resources b, H VertexDeclarations v, W f])"
| "use_spec (U_SetConvolutionMonoKernel w h r k) = (''SetConvolutionMonoKernel'', [W w, W h, P r, P k])"
| "use_spec (U_ComposeRects s d r n q p x y) = (''ComposeRects'', [H Resources s, H Resources d, H Resources r, W n, H Resources q, W p, W x, W y])"

primrec use_ok :: "use_call \<Rightarrow> bool" where
  "use_ok (U_TestCooperativeLevel) \<longleftrightarrow> True"
| "use_ok (U_GetAvailableTextureMem) \<longleftrightarrow> True"
| "use_ok (U_EvictManagedResources) \<longleftrightarrow> True"
| "use_ok (U_GetDirect3D pp) \<longleftrightarrow> True"
| "use_ok (U_GetSwapChain i pp) \<longleftrightarrow> True"
| "use_ok (U_GetNumberOfSwapChains) \<longleftrightarrow> True"
| "use_ok (U_GetGammaRamp i) \<longleftrightarrow> True"
| "use_ok (U_SetGammaRamp i f r) \<longleftrightarrow> r \<noteq> Some []"
| "use_ok (U_internalGetDeviceCaps) \<longleftrightarrow> True"
| "use_ok (U_GetDisplayMode i pp) \<longleftrightarrow> True"
| "use_ok (U_GetDisplayModeEx i pm pr) \<longleftrightarrow> True"
| "use_ok (U_SetCursorProperties x y b) \<longleftrightarrow> True"
| "use_ok (U_SetCursorPosition x y f) \<longleftrightarrow> True"
| "use_ok (U_ShowCursor b) \<longleftrightarrow> True"
| "use_ok (U_SetDialogBoxMode b) \<longleftrightarrow> True"
| "use_ok (U_CheckDeviceState w) \<longleftrightarrow> True"
| "use_ok (U_SetGPUThreadPriority n) \<longleftrightarrow> True"
| "use_ok (U_SetMaximumFrameLatency n) \<longleftrightarrow> True"
| "use_ok (U_UpdateSurface s r d p) \<longleftrightarrow> r \<noteq> Some [] \<and> p \<noteq> Some []"
| "use_ok (U_UpdateTexture s d) \<longleftrightarrow> True"
| "use_ok (U_GetRenderTargetData s d) \<longleftrightarrow> True"
| "use_ok (U_GetFrontBufferData i d) \<longleftrightarrow> True"
| "use_ok (U_StretchRect s r d q f) \<longleftrightarrow> r \<noteq> Some [] \<and> q \<noteq> Some []"
| "use_ok (U_ColorFill s r k) \<longleftrightarrow> r \<noteq> Some []"
| "use_ok (U_SetRenderTarget i t) \<longleftrightarrow> True"
| "use_ok (U_GetRenderTarget i pp) \<longleftrightarrow> True"
| "use_ok (U_SetDepthStencilSurface z) \<longleftrightarrow> True"
| "use_ok (U_GetDepthStencilSurface pp) \<longleftrightarrow> True"
| "use_ok (U_BeginScene) \<longleftrightarrow> True"
| "use_ok (U_EndScene) \<longleftrightarrow> True"
| "use_ok (U_Clear n r f k z s) \<longleftrightarrow> exactly (16 * unat n) r"
| "use_ok (U_DrawPrimitive t s n) \<longleftrightarrow> True"
| "use_ok (U_DrawIndexedPrimitive t b m v s n) \<longleftrightarrow> True"
| "use_ok (U_DrawPrimitiveUP t n v s) \<longleftrightarrow> exactly (unat (GetIndexCount t n) * unat s) v"
| "use_ok (U_DrawIndexedPrimitiveUP t m k n x f v s) \<longleftrightarrow> exactly (unat (GetIndexCount t n) * (if f = 101 then 2 else 4)) x \<and> exactly (unat k * unat s) v"
| "use_ok (U_ProcessVertices s d n b v f) \<longleftrightarrow> True"
| "use_ok (U_SetConvolutionMonoKernel w h r k) \<longleftrightarrow> exactly (4 * unat w) r \<and> exactly (4 * unat h) k"
| "use_ok (U_ComposeRects s d r n q p x y) \<longleftrightarrow> True"

lemma dispatch_uses:
  "dispatch ''GetAvailableTextureMem'' = on_GetAvailableTextureMem"
  "dispatch ''EvictManagedResources'' = on_EvictManagedResources"
  "dispatch ''GetDirect3D'' = on_GetDirect3D"
  "dispatch ''GetSwapChain'' = on_GetSwapChain"
  "dispatch ''GetNumberOfSwapChains'' = on_GetNumberOfSwapChains"
  "dispatch ''GetGammaRamp'' = on_GetGammaRamp"
  "dispatch ''SetGammaRamp'' = on_SetGammaRamp"
  "dispatch ''GetDeviceCaps'' = on_GetDeviceCaps"
  "dispatch ''GetDisplayMode'' = on_GetDisplayMode"
  "dispatch ''GetDisplayModeEx'' = on_GetDisplayModeEx"
  "dispatch ''SetCursorProperties'' = on_SetCursorProperties"
  "dispatch ''SetCursorPosition'' = on_SetCursorPosition"
  "dispatch ''ShowCursor'' = on_ShowCursor"
  "dispatch ''SetDialogBoxMode'' = on_SetDialogBoxMode"
  "dispatch ''CheckDeviceState'' = on_CheckDeviceState"
  "dispatch ''UpdateSurface'' = on_UpdateSurface"
  "dispatch ''UpdateTexture'' = on_UpdateTexture"
  "dispatch ''GetRenderTargetData'' = on_GetRenderTargetData"
  "dispatch ''GetFrontBufferData'' = on_GetFrontBufferData"
  "dispatch ''StretchRect'' = on_StretchRect"
  "dispatch ''ColorFill'' = on_ColorFill"
  "dispatch ''SetRenderTarget'' = on_SetRenderTarget"
  "dispatch ''GetRenderTarget'' = on_GetRenderTarget"
  "dispatch ''SetDepthStencilSurface'' = on_SetDepthStencilSurface"
  "dispatch ''GetDepthStencilSurface'' = on_GetDepthStencilSurface"
  "dispatch ''BeginScene'' = on_BeginScene"
  "dispatch ''EndScene'' = on_EndScene"
  "dispatch ''Clear'' = on_Clear"
  "dispatch ''DrawPrimitive'' = on_DrawPrimitive"
  "dispatch ''DrawIndexedPrimitive'' = on_DrawIndexedPrimitive"
  "dispatch ''DrawPrimitiveUP'' = on_DrawPrimitiveUP"
  "dispatch ''DrawIndexedPrimitiveUP'' = on_DrawIndexedPrimitiveUP"
  "dispatch ''ProcessVertices'' = on_ProcessVertices"
  "dispatch ''SetConvolutionMonoKernel'' = on_SetConvolutionMonoKernel"
  "dispatch ''ComposeRects'' = on_ComposeRects"
  by (simp_all add: dispatch_def case_lists)

lemma read_obj_exactly:
  assumes "exactly n p" and "unat w = n mod 2 ^ 32"
  shows "read_obj w p = Inr (Obj p)" "p \<noteq> Some []"
  using assms by (auto simp: read_obj_def exactly_def split: option.splits)

definition use_reaches :: "u32 \<Rightarrow> use_call \<Rightarrow> client \<Rightarrow> bool" where
  "use_reaches h a c \<longleftrightarrow> (\<forall>n its ans c'. run_use a c = Inr (Message n its ans, c') \<longrightarrow>
     (\<exists>q. dispatch n h (map received its) = Inr ([q], []) \<and> recv q = Some (Devices, h) \<and> meth q = fst (use_spec a)
        \<and> args q = snd (use_spec a) \<and> answers q = ans))"

lemmas decode_uses = use_reaches_def use_defs reply_def dispatch_uses on_defs decode_defs

lemma use_reaches_queries:
  "use_reaches h (U_TestCooperativeLevel) c"
  "use_reaches h (U_GetAvailableTextureMem) c"
  "use_reaches h (U_EvictManagedResources) c"
  "use_reaches h (U_GetDirect3D pp) c"
  "use_reaches h (U_GetSwapChain i pp) c"
  "use_reaches h (U_GetNumberOfSwapChains) c"
  "use_reaches h (U_GetGammaRamp i) c"
  "r \<noteq> Some [] \<Longrightarrow> use_reaches h (U_SetGammaRamp i f r) c"
  "use_reaches h (U_internalGetDeviceCaps) c"
  "use_reaches h (U_GetDisplayMode i pp) c"
  "use_reaches h (U_GetDisplayModeEx i pm pr) c"
  "use_reaches h (U_SetCursorProperties x y b) c"
  "use_reaches h (U_SetCursorPosition x y f) c"
  "use_reaches h (U_ShowCursor b) c"
  "use_reaches h (U_SetDialogBoxMode b) c"
  "use_reaches h (U_CheckDeviceState w) c"
  "use_reaches h (U_SetGPUThreadPriority n) c"
  "use_reaches h (U_SetMaximumFrameLatency n) c"
  by (auto simp: decode_uses split: if_splits option.splits)

lemma use_reaches_surfaces:
  "r \<noteq> Some [] \<and> p \<noteq> Some [] \<Longrightarrow> use_reaches h (U_UpdateSurface s r d p) c"
  "use_reaches h (U_UpdateTexture st d) c"
  "use_reaches h (U_GetRenderTargetData s d) c"
  "use_reaches h (U_GetFrontBufferData i d) c"
  "r \<noteq> Some [] \<and> q \<noteq> Some [] \<Longrightarrow> use_reaches h (U_StretchRect s r d q f) c"
  "r \<noteq> Some [] \<Longrightarrow> use_reaches h (U_ColorFill s r k) c"
  "use_reaches h (U_SetRenderTarget i t) c"
  "use_reaches h (U_GetRenderTarget i pp) c"
  "use_reaches h (U_SetDepthStencilSurface z) c"
  "use_reaches h (U_GetDepthStencilSurface pp) c"
  "use_reaches h (U_BeginScene) c"
  "use_reaches h (U_EndScene) c"
  "use_reaches h (U_DrawPrimitive t s n) c"
  "use_reaches h (U_DrawIndexedPrimitive t b m v s n) c"
  "use_reaches h (U_ProcessVertices s d n b v f) c"
  "use_reaches h (U_ComposeRects s d u n v w x y) c"
  by (auto simp: decode_uses bind_simps getE_def Let_def split: if_splits option.splits)

lemma unat_mult_mod: "unat (a * b :: u32) = unat a * unat b mod 2 ^ 32"
  by (simp add: unat_word_ariths)

lemma use_reaches_clear:
  assumes "exactly (16 * unat n) r"
  shows "use_reaches h (U_Clear n r f k z s) c"
  using read_obj_exactly [OF assms, of "16 * n"]
  by (auto simp: decode_uses bind_simps unat_mult_mod split: if_splits)

lemma use_reaches_up:
  assumes "exactly (unat (GetIndexCount t n) * unat s) v"
  shows "use_reaches h (U_DrawPrimitiveUP t n v s) c"
  using read_obj_exactly [OF assms, of "GetIndexCount t n * s"]
  by (auto simp: decode_uses bind_simps unat_mult_mod)

lemma use_reaches_indexed_up:
  assumes "exactly (unat (GetIndexCount t n) * (if f = 101 then 2 else 4)) x" and "exactly (unat k * unat s) v"
  shows "use_reaches h (U_DrawIndexedPrimitiveUP t m k n x f v s) c"
  using read_obj_exactly [OF assms(1), of "GetIndexCount t n * (if f = 101 then 2 else 4)"]
    read_obj_exactly [OF assms(2), of "k * s"]
  by (auto simp: decode_uses bind_simps unat_mult_mod split: if_splits)

lemma use_reaches_kernel:
  assumes "exactly (4 * unat w) r" and "exactly (4 * unat ht) k"
  shows "use_reaches h (U_SetConvolutionMonoKernel w ht r k) c"
  using read_obj_exactly [OF assms(1), of "4 * w"] read_obj_exactly [OF assms(2), of "4 * ht"]
  by (auto simp: decode_uses bind_simps unat_mult_mod)

lemma use_reaches_all: "use_ok a \<Longrightarrow> use_reaches h a c"
  by (cases a) (simp_all add: use_reaches_queries use_reaches_surfaces use_reaches_clear use_reaches_up use_reaches_indexed_up
      use_reaches_kernel)

section \<open>Properties\<close>

text \<open>C14. Every query, copy, render-target, scene and draw function of the device that sends a message makes the server
  call the method the application called: the handler pulls exactly the data that were sent, the arguments
  arrive in the interface's order (the messages carry them in other orders), and the handler answers in
  exactly the configurations in which the client waits.  The pointers must hold as many bytes as the call
  says.\<close>

theorem uses_reach_server:
  assumes "use_ok a" and "run_use a c = Inr (Message n its ans, c')"
  shows "\<exists>q. dispatch n h (map received its) = Inr ([q], []) \<and> recv q = Some (Devices, h) \<and> meth q = fst (use_spec a)
    \<and> args q = snd (use_spec a) \<and> answers q = ans"
  using use_reaches_all [OF assms(1)] assms(2) unfolding use_reaches_def by blast

text \<open>A draw of two triangles from memory, on device 5.\<close>

theorem uses_reach_server_witness:
  "\<exists>q. dispatch ''DrawPrimitiveUP'' 5 (map received [Word 4, Word 2, Obj (Some (replicate 24 7)), Word 4]) = Inr ([q], [])
    \<and> recv q = Some (Devices, 5) \<and> meth q = ''DrawPrimitiveUP'' \<and> args q = [W 4, W 2, P (Some (replicate 24 7)), W 4]
    \<and> answers q = OptionalAnswer"
proof -
  let ?a = "U_DrawPrimitiveUP 4 2 (Some (replicate 24 7)) 4"
  have ok: "use_ok ?a" by (simp add: exactly_def GetIndexCount_def)
  have "run_use ?a c = Inr (Message ''DrawPrimitiveUP'' [Word 4, Word 2, Obj (Some (replicate 24 7)), Word 4] OptionalAnswer, c)" for c
    by (simp add: dev_DrawPrimitiveUP_def GetIndexCount_def read_obj_def reply_def)
  from uses_reach_server [OF ok this, of 5] show ?thesis by simp
qed

text \<open>Exactly one function of the device waits for an answer to a command that it never sent:
  \<open>GetDepthStencilSurface\<close> when no depth buffer is set.  With all server answers enabled it blocks until the
  timeout, because no command of that number is on its way.\<close>

theorem waits_without_sending:
  "run_use a c = Inr (WaitUnsent ans, c')
    \<longleftrightarrow> a = U_GetDepthStencilSurface True \<and> depthStencil (m_state (cdev c)) = 0 \<and> ans = OptionalAnswer \<and> c' = c"
  by (cases a) (auto simp: use_defs reply_def bind_simps Let_def split: if_splits option.splits)

end
