(* ===== verification/Present_Params.thy ===== *)
theory Present_Params
  imports Bridge_Prelude
begin

text \<open>
  \<open>D3DPRESENT_PARAMETERS\<close> on its way from the 32-bit client to the 64-bit server: the client completes it
  (\<open>sanitizePresentationParameters\<close> of \<open>d3d9_swapchain.h\<close>), sends its 14 words as they lie in memory, and the
  server reads them field by field (\<open>getPresParamFromRaw\<close> of \<open>server/main.cpp\<close>) because the window handle
  has another width there.  The record is generic in the type of the handle.  The window system's
  \<open>GetClientRect\<close> is the parameter \<open>client_area\<close>: width and height of a window's client area.
\<close>

section \<open>The structure and its two layouts\<close>

record 'h pres_params =
  BackBufferWidth :: u32
  BackBufferHeight :: u32
  BackBufferFormat :: u32
  BackBufferCount :: u32
  MultiSampleType :: u32
  MultiSampleQuality :: u32
  SwapEffect :: u32
  hDeviceWindow :: 'h
  Windowed :: u32
  EnableAutoDepthStencil :: u32
  AutoDepthStencilFormat :: u32
  PresentFlags :: u32
  FullScreen_RefreshRateInHz :: u32
  PresentationInterval :: u32

type_synonym pres_params32 = "u32 pres_params"
type_synonym pres_params64 = "u64 pres_params"

definition raw_words :: "pres_params32 \<Rightarrow> u32 list" where
  "raw_words p = [BackBufferWidth p, BackBufferHeight p, BackBufferFormat p, BackBufferCount p, MultiSampleType p,
     MultiSampleQuality p, SwapEffect p, hDeviceWindow p, Windowed p, EnableAutoDepthStencil p, AutoDepthStencilFormat p,
     PresentFlags p, FullScreen_RefreshRateInHz p, PresentationInterval p]"

definition raw_bytes :: "pres_params32 \<Rightarrow> memory" where
  "raw_bytes p = concat (map u32_bytes (raw_words p))"

text \<open>Every field is read at its type's width; \<open>HWND\<close> has 64 bits on the server.\<close>

definition getPresParamFromRaw :: "u32 list \<Rightarrow> pres_params64 or_error" where
  "getPresParamFromRaw w = (if length w < 14 then Inl OutOfBounds else Inr \<lparr>
     BackBufferWidth = w ! 0, BackBufferHeight = w ! 1, BackBufferFormat = w ! 2, BackBufferCount = w ! 3,
     MultiSampleType = w ! 4, MultiSampleQuality = w ! 5, SwapEffect = w ! 6,
     hDeviceWindow = ucast (w ! 7) OR push_bit 32 (ucast (w ! 8)),
     Windowed = w ! 8, EnableAutoDepthStencil = w ! 9, AutoDepthStencilFormat = w ! 10, PresentFlags = w ! 11,
     FullScreen_RefreshRateInHz = w ! 12, PresentationInterval = w ! 13\<rparr>)"

section \<open>Completion on the client\<close>

definition sanitizePresentationParameters ::
  "(u32 \<Rightarrow> u32 \<times> u32) \<Rightarrow> bool \<Rightarrow> u32 \<Rightarrow> pres_params32 \<Rightarrow> pres_params32" where
  "sanitizePresentationParameters client_area forceWindowed hFocusWindow p =
    (let p1 = p\<lparr>BackBufferCount := max (BackBufferCount p) 1\<rparr>;
         p2 = (if forceWindowed then p1\<lparr>Windowed := 1, FullScreen_RefreshRateInHz := 0\<rparr> else p1);
         p3 = (if hDeviceWindow p2 = 0 then p2\<lparr>hDeviceWindow := hFocusWindow\<rparr> else p2)
     in if Windowed p3 \<noteq> 0 \<and> (BackBufferWidth p = 0 \<or> BackBufferHeight p = 0)
        then p3\<lparr>BackBufferWidth := fst (client_area (hDeviceWindow p3)), BackBufferHeight := snd (client_area (hDeviceWindow p3))\<rparr>
        else p3)"

lemma sanitize_fields:
  fixes area fw hw and p :: pres_params32
  defines "s \<equiv> sanitizePresentationParameters area fw hw p"
  shows "BackBufferCount s = max (BackBufferCount p) 1" "Windowed s = (if fw then 1 else Windowed p)"
    "FullScreen_RefreshRateInHz s = (if fw then 0 else FullScreen_RefreshRateInHz p)"
    "hDeviceWindow s = (if hDeviceWindow p = 0 then hw else hDeviceWindow p)"
    "BackBufferWidth s = (if Windowed s \<noteq> 0 \<and> (BackBufferWidth p = 0 \<or> BackBufferHeight p = 0)
       then fst (area (hDeviceWindow s)) else BackBufferWidth p)"
    "BackBufferHeight s = (if Windowed s \<noteq> 0 \<and> (BackBufferWidth p = 0 \<or> BackBufferHeight p = 0)
       then snd (area (hDeviceWindow s)) else BackBufferHeight p)"
    "BackBufferFormat s = BackBufferFormat p" "MultiSampleType s = MultiSampleType p" "MultiSampleQuality s = MultiSampleQuality p"
    "SwapEffect s = SwapEffect p" "EnableAutoDepthStencil s = EnableAutoDepthStencil p"
    "AutoDepthStencilFormat s = AutoDepthStencilFormat p" "PresentFlags s = PresentFlags p"
    "PresentationInterval s = PresentationInterval p"
  by (simp_all add: s_def sanitizePresentationParameters_def Let_def)

lemma max_1_pos: "0 < max (x::u32) 1"
  by (simp add: less_max_iff_disj)

section \<open>Properties\<close>

text \<open>Completing the parameters is idempotent, so the device, which completes them before it sends them, and the
  swap chain, which completes them again when it is constructed from the result, agree; the completed
  parameters name at least one back buffer, and a window whenever the device has one.\<close>

theorem sanitize_idempotent:
  "sanitizePresentationParameters area fw hw (sanitizePresentationParameters area fw hw p) = sanitizePresentationParameters area fw hw p
   \<and> 0 < BackBufferCount (sanitizePresentationParameters area fw hw p)
   \<and> (hw \<noteq> 0 \<longrightarrow> hDeviceWindow (sanitizePresentationParameters area fw hw p) \<noteq> 0)"
proof -
  have "sanitizePresentationParameters area fw hw (sanitizePresentationParameters area fw hw p) = sanitizePresentationParameters area fw hw p"
    by (rule pres_params.equality) (simp_all add: sanitize_fields)
  then show ?thesis by (simp add: sanitize_fields max_1_pos)
qed

theorem sanitize_idempotent_witness:
  "(5::u32) \<noteq> 0 \<and> hDeviceWindow (sanitizePresentationParameters (\<lambda>_. (640, 480)) True 5
     \<lparr>BackBufferWidth = 0, BackBufferHeight = 0, BackBufferFormat = 22, BackBufferCount = 0, MultiSampleType = 0, MultiSampleQuality = 0,
      SwapEffect = 1, hDeviceWindow = 0, Windowed = 0, EnableAutoDepthStencil = 1, AutoDepthStencilFormat = 75, PresentFlags = 0,
      FullScreen_RefreshRateInHz = 60, PresentationInterval = 0\<rparr>) \<noteq> 0"
  using sanitize_idempotent [where hw = 5 and fw = True and area = "\<lambda>_. (640, 480)"] by simp


end
