(* ===== verification/Device_Invariant.thy ===== *)
theory Device_Invariant
  imports Setter_Refinement State_Block Shader_Constants
begin

text \<open>
  The shape invariant of the client's device as a state machine: the device and the state blocks the
  application holds, one rule per operation that changes them (the setters, recorded or not, the shader
  constants, \<open>MultiplyTransform\<close>, and the state block operations), and the proof that in every
  reachable state the arrays of the device, of the block being recorded and of every block have their
  declared sizes.  It is what the hypotheses \<open>state_shape\<close>, \<open>consts_shape\<close> and \<open>flags_shape\<close> of the other
  theories rest on.
\<close>

section \<open>The invariant\<close>

definition shape :: "dev_state \<Rightarrow> bool" where
  "shape s \<longleftrightarrow> state_shape s \<and> consts_shape s"

definition block_inv :: "stateblock \<Rightarrow> bool" where
  "block_inv sb \<longleftrightarrow> shape (m_captureState sb) \<and> flags_shape (m_dirtyFlags sb)"

definition dev_inv :: "device \<Rightarrow> bool" where
  "dev_inv d \<longleftrightarrow> shape (m_state d) \<and> (\<forall>sb. m_stateRecording d = Some sb \<longrightarrow> block_inv sb)"

text \<open>Updates of a state and of flags that keep the sizes.\<close>

definition keeps :: "(dev_state \<Rightarrow> dev_state) \<Rightarrow> bool" where
  "keeps f \<longleftrightarrow> (\<forall>s. shape s \<longrightarrow> shape (f s))"

definition keeps_flags :: "(dirty_flags \<Rightarrow> dirty_flags) \<Rightarrow> bool" where
  "keeps_flags g \<longleftrightarrow> (\<forall>x. flags_shape x \<longrightarrow> flags_shape (g x))"

lemma dev_inv_set_state: "dev_inv d \<Longrightarrow> keeps f \<Longrightarrow> dev_inv (set_state f d)"
  by (auto simp: dev_inv_def set_state_def keeps_def)

lemma dev_inv_set_capture:
  "dev_inv d \<Longrightarrow> m_stateRecording d = Some sb \<Longrightarrow> keeps f \<Longrightarrow> keeps_flags g \<Longrightarrow> dev_inv (set_capture sb f g d)"
  by (auto simp: dev_inv_def set_capture_def keeps_def keeps_flags_def block_inv_def)

section \<open>The updates of the setters\<close>

definition rows_len :: "nat \<Rightarrow> 'a list list \<Rightarrow> bool" where
  "rows_len n xss \<longleftrightarrow> (\<forall>r \<in> set xss. length r = n)"

lemma rows_len_upd2 [simp]: "rows_len n xss \<Longrightarrow> rows_len n (upd2 i j v xss)"
  by (cases "i < length xss") (auto simp: rows_len_def upd2_def list_update_beyond dest!: set_update_subset_insert [THEN subsetD])

lemma length_upd2 [simp]: "length (upd2 i j v xss) = length xss"
  by (simp add: upd2_def)

lemmas shapes = shape_def state_shape_def consts_shape_def flags_shape_def

lemma keeps_simps [simp]:
  "keeps (transforms_update (\<lambda>xs. xs[i := m]))" "keeps (viewport_update f0)" "keeps (material_update f0)"
  "keeps (lights_update f1)" "keeps (bLightEnables_update f2)" "keeps (clipPlanes_update (\<lambda>xs. xs[i := m]))"
  "keeps (scissorRect_update f0)" "keeps (renderStates_update (\<lambda>xs. xs[i := w]))"
  "keeps (textures_update (\<lambda>xs. xs[i := t]))" "keeps (vertexDecl_update f3)" "keeps (vertexShader_update f3)"
  "keeps (pixelShader_update f3)" "keeps (indices_update f3)" "keeps (streamFreqs_update (\<lambda>xs. xs[i := w]))"
  by (simp_all add: keeps_def shapes)

lemma keeps_flags_simps [simp]:
  "keeps_flags (f_transforms_update (\<lambda>xs. xs[i := b]))" "keeps_flags (f_viewport_update f0)" "keeps_flags (f_material_update f0)"
  "keeps_flags (f_lights_update f1)" "keeps_flags (f_bLightEnables_update f1)" "keeps_flags (f_clipPlanes_update (\<lambda>xs. xs[i := b]))"
  "keeps_flags (f_scissorRect_update f0)" "keeps_flags (f_renderStates_update (\<lambda>xs. xs[i := b]))"
  "keeps_flags (f_textures_update (\<lambda>xs. xs[i := b]))" "keeps_flags (f_vertexShader_update f0)"
  "keeps_flags (f_pixelShader_update f0)" "keeps_flags (f_indices_update f0)" "keeps_flags (f_streamFreqs_update (\<lambda>xs. xs[i := b]))"
  by (simp_all add: keeps_flags_def flags_shape_def)

lemma keeps_nested [simp]:
  "keeps (textureStageStates_update (upd2 i j w))" "keeps (samplerStates_update (upd2 i j w))"
  "keeps_flags (f_textureStageStates_update (upd2 i j b))" "keeps_flags (f_samplerStates_update (upd2 i j b))"
  by (simp_all add: keeps_def keeps_flags_def shapes flip: rows_len_def)

lemma keeps_stream [simp]:
  "keeps (\<lambda>s. s\<lparr>streams := (streams s)[n := i], streamOffsetsStrides := (if c then (streamOffsetsStrides s)[n := p] else streamOffsetsStrides s)\<rparr>)"
  "keeps_flags (\<lambda>f. f\<lparr>f_streams := (f_streams f)[n := b],
     f_streamOffsetsAndStrides := (if c then (f_streamOffsetsAndStrides f)[n := b] else f_streamOffsetsAndStrides f)\<rparr>)"
  by (cases c; simp add: keeps_def keeps_flags_def shapes)+

lemmas keeps_stream_set [simp] = keeps_stream(1) [where c = True, simplified]

lemmas setter_defs = dev_SetTransform_def dev_SetViewport_def dev_SetMaterial_def dev_SetLight_def dev_LightEnable_def
  dev_SetClipPlane_def dev_SetScissorRect_def dev_SetRenderState_def dev_SetTextureStageState_def dev_SetSamplerState_def
  dev_SetTexture_def dev_SetVertexDeclaration_def dev_SetVertexShader_def dev_SetPixelShader_def dev_SetIndices_def
  dev_SetStreamSource_def dev_SetStreamSourceFreq_def

lemma run_setter_inv:
  assumes "dev_inv d" and "run_setter resp a d = Inr (hr, d', ms)"
  shows "dev_inv d'"
  using assms
  by (cases a; cases "m_stateRecording d")
    (auto simp: setter_defs Let_def bind_simps dev_inv_set_state dev_inv_set_capture split: if_splits option.splits)

lemma MultiplyTransform_inv:
  assumes "dev_inv d" and "dev_MultiplyTransform mul t m d = Inr (hr, d', ms)"
  shows "dev_inv d'"
  using assms
  by (cases "m_stateRecording d")
    (auto simp: dev_MultiplyTransform_def Let_def bind_simps dev_inv_set_state dev_inv_set_capture split: option.splits)

section \<open>Shader constants\<close>

lemma length_put_rows: "start + length rs \<le> length xs \<Longrightarrow> length (put_rows start rs xs) = length xs"
  by (simp add: put_rows_def)

lemma length_mark: "start + n \<le> length fs \<Longrightarrow> length (mark start n fs) = length fs"
  by (simp add: mark_def)

lemma length_put_bools: "put_bools k vs ws = Inr ws' \<Longrightarrow> length ws' = length ws"
  by (induction k vs ws rule: put_bools.induct) (auto simp: put_bool_def bind_simps split: if_splits)

lemma put_bools_start: "put_bools k vs ws = Inr ws' \<Longrightarrow> vs \<noteq> [] \<Longrightarrow> k div 32 < length ws"
  by (cases vs) (auto simp: put_bool_def bind_simps split: if_splits)

lemma adjustCount_bound:
  assumes "unat start < 2 ^ 31" and "hw < 2 ^ 31"
  shows "unat (adjustCount hw start count) \<le> hw - unat start"
proof -
  define c where "c = max 0 (min (int hw) (sint (count + start)))"
  obtain n where n: "c = int n" "n \<le> hw"
    unfolding c_def by (metis max.cobounded1 max.bounded_iff min.cobounded1 of_nat_0_le_iff of_nat_le_iff zero_le_imp_eq_int)
  have "sint (word_of_int (c - sint start) :: u32) = int n - int (unat start)"
    unfolding n(1) sint_small [OF assms(1)] by (rule sint_diff_small) (use assms n(2) in simp_all)
  then have "adjustCount hw start count = word_of_int (max (int n - int (unat start)) 0)"
    by (simp add: adjustCount_def c_def [symmetric])
  also have "max (int n - int (unat start)) 0 = int (n - unat start)" by (rule max_diff_int)
  finally have "adjustCount hw start count = word_of_nat (n - unat start)" by simp
  moreover have "n - unat start < 2 ^ 32" using n(2) assms(2) by simp
  ultimately show ?thesis using n(2) by (simp add: unat_of_nat take_bit_nat_eq_self diff_le_mono)
qed

text \<open>The registers a call writes lie in the arrays, so that the flags of a recorded block can be set too.\<close>

lemma keeps_set_vec:
  assumes "length v = length (vec_consts st ct s)" "shape s" "ct \<noteq> BoolConst"
  shows "shape (set_vec_consts st ct v s)"
  using assms by (cases st; cases ct) (auto simp: set_vec_consts_def vec_consts_def shapes)

lemma keeps_set_bool:
  assumes "length v = length (bool_consts st s)" "shape s"
  shows "shape (set_bool_consts st v s)"
  using assms by (cases st) (auto simp: set_bool_consts_def bool_consts_def shapes)

definition flag_count :: "ShaderType \<Rightarrow> ConstantType \<Rightarrow> nat" where
  "flag_count st ct = (case (st, ct) of (Vertex, FloatConst) \<Rightarrow> MaxFloatConstantsSoftware | (Vertex, _) \<Rightarrow> MaxOtherConstantsSoftware
     | (Pixel, FloatConst) \<Rightarrow> MaxFloatConstantsPS | (Pixel, _) \<Rightarrow> MaxOtherConstants)"

lemma keeps_mark: "start + n \<le> flag_count st ct \<Longrightarrow> keeps_flags (mark_consts st ct start n)"
  by (cases st; cases ct) (simp_all add: keeps_flags_def flags_shape_def mark_consts_def flag_count_def length_mark)

lemma vec_consts_length: "shape s \<Longrightarrow> ct \<noteq> BoolConst \<Longrightarrow> length (vec_consts st ct s) = flag_count st ct"
  by (cases st; cases ct) (simp_all add: shapes vec_consts_def flag_count_def)

lemma target_shape: "dev_inv d \<Longrightarrow> shape (target d)"
  by (auto simp: target_def dev_inv_def block_inv_def split: option.splits)

lemma update_target_inv:
  assumes "dev_inv d" and "shape (f (target d))" and "keeps_flags g"
  shows "dev_inv (update_target f g d)"
  using assms by (cases "m_stateRecording d")
    (auto simp: update_target_def target_def dev_inv_def set_state_def set_capture_def block_inv_def keeps_flags_def)

lemma bool_range:
  assumes "put_bools (unat start) (take adj vs) (bool_consts st s) = Inr ws" "take adj vs \<noteq> []" "shape s"
    and "adj = unat (adjustCount (getHardwareRegCount st BoolConst) start count)"
  shows "unat start + adj \<le> flag_count st BoolConst"
proof -
  have "length (bool_consts st s) \<le> 64" using assms(3) by (cases st) (simp_all add: shapes bool_consts_def caps_defs)
  then have "unat start div 32 < 64" using put_bools_start [OF assms(1,2)] by linarith
  then have "unat start < 2 ^ 31" by simp
  then have "adj \<le> 16 - unat start"
    using adjustCount_bound [of start 16 count] assms(4) by (simp add: getHardwareRegCount_def caps_defs)
  moreover have "adj \<noteq> 0" using assms(2) by (cases adj) auto
  ultimately show ?thesis by (cases st) (simp_all add: flag_count_def caps_defs)
qed

lemma setShaderConstants_inv:
  assumes inv: "dev_inv d" and set: "setShaderConstants st ct start p count d = Inr (hr, d')"
  shows "dev_inv d'"
proof -
  obtain hr1 adj where c: "commonGetSetConstants st ct start p count = (hr1, adj)" by fastforce
  show ?thesis
  proof (cases "hr1 \<noteq> S_OK \<or> adj = 0 \<or> p = None")
    case True
    then show ?thesis using set inv c by (auto simp: setShaderConstants_def split: if_splits)
  next
    case False
    then obtain bs where ok: "p = Some bs" "hr1 = S_OK" "adj \<noteq> 0" by auto
    have adj: "adj = unat (adjustCount (getHardwareRegCount st ct) start count)"
      using c ok by (auto simp: commonGetSetConstants_def Let_def split: if_splits)
    have sh: "shape (target d)" by (rule target_shape [OF inv])
    show ?thesis
    proof (cases "ct = BoolConst")
      case True
      then obtain ws where ws: "put_bools (unat start) (take adj (bools_of bs)) (bool_consts st (target d)) = Inr ws"
        and d': "d' = update_target (set_bool_consts st ws) (mark_consts st ct (unat start) adj) d" and len: "adj \<le> length (bools_of bs)"
        using set c ok by (auto simp: setShaderConstants_def bind_simps Let_def split: if_splits)
      have "take adj (bools_of bs) \<noteq> []" using ok(3) len by auto
      then have "unat start + adj \<le> flag_count st BoolConst" using bool_range [OF ws _ sh] adj True by blast
      then show ?thesis
        unfolding d' using True length_put_bools [OF ws] keeps_mark keeps_set_bool [OF _ sh] by (intro update_target_inv [OF inv]) auto
    next
      case False
      have "dev_inv (update_target (set_vec_consts st ct (put_rows (unat start) new (vec_consts st ct (target d))))
          (mark_consts st ct (unat start) adj) d)"
        if "rows adj bs = Inr new" "get_rows (unat start) adj (vec_consts st ct (target d)) = Inr old" for new old
      proof -
        have le: "unat start + adj \<le> length (vec_consts st ct (target d))" using that(2) by (simp add: get_rows_def split: if_splits)
        then show ?thesis
          using False length_rows [OF that(1)] vec_consts_length [OF sh False, of st] keeps_mark keeps_set_vec [OF _ sh False, of _ st]
          by (intro update_target_inv [OF inv]) (auto simp: length_put_rows)
      qed
      then show ?thesis
        using set c ok False inv by (auto simp: setShaderConstants_def bind_simps Let_def split: if_splits)
    qed
  qed
qed

text \<open>The six setters of constants.\<close>

datatype const_setter = VS_F | VS_I | VS_B | PS_F | PS_I | PS_B

primrec run_const :: "const_setter \<Rightarrow> HRESULT \<Rightarrow> u32 \<Rightarrow> memory option \<Rightarrow> u32 \<Rightarrow> device \<Rightarrow> dev_result" where
  "run_const VS_F = dev_SetVertexShaderConstantF"
| "run_const VS_I = dev_SetVertexShaderConstantI"
| "run_const VS_B = dev_SetVertexShaderConstantB"
| "run_const PS_F = dev_SetPixelShaderConstantF"
| "run_const PS_I = dev_SetPixelShaderConstantI"
| "run_const PS_B = dev_SetPixelShaderConstantB"

lemma run_const_inv:
  assumes "dev_inv d" and "run_const k resp start p count d = Inr (hr, d', ms)"
  shows "dev_inv d'"
  using assms setShaderConstants_inv [OF assms(1)]
  by (cases k) (auto simp: dev_SetVertexShaderConstantF_def dev_SetVertexShaderConstantI_def dev_SetVertexShaderConstantB_def
      dev_SetPixelShaderConstantF_def dev_SetPixelShaderConstantI_def dev_SetPixelShaderConstantB_def set_float_consts_def
      set_other_consts_def bind_simps split: if_splits option.splits)

section \<open>State blocks\<close>

lemma no_flags_shape: "flags_shape no_flags"
  by (simp add: flags_shape_def no_flags_def)

lemma length_flag_list [simp]: "length (flag_list is bs) = length bs"
  by (simp add: flag_list_def)

lemma rows_len_fold:
  assumes "rows_len n xss" and "\<And>ys. length (f ys) = length ys"
  shows "rows_len n (fold (\<lambda>i s. s[i := f (s ! i)]) is xss)"
  using assms(1)
proof (induction "is" arbitrary: xss)
  case (Cons i r)
  have "rows_len n (xss[i := f (xss ! i)])"
    using Cons.prems assms(2)
    by (cases "i < length xss") (auto simp: rows_len_def list_update_beyond dest!: set_update_subset_insert [THEN subsetD])
  then show ?case using Cons.IH by simp
qed simp

lemma rows_len_map [simp]: "rows_len n (map (map f) xss) = rows_len n xss"
  by (simp add: rows_len_def)

lemma capture_flags_shape: "flags_shape f \<Longrightarrow> flags_shape (StateBlockSetCaptureFlags t f)"
proof -
  have 1: "flags_shape (StateBlockSetPixelCaptureFlags g)" if "flags_shape g" for g
    using that rows_len_fold [of kMaxStageSamplerStateTypes "f_samplerStates g" "flag_list [1, 2, 3, 4, 5, 6, 7, 8, 9, 10, 11, 12]"
        "[0..<MaxTexturesPS + 1]"]
    by (simp add: flags_shape_def StateBlockSetPixelCaptureFlags_def del: upt_Suc One_nat_def flip: rows_len_def)
  have 2: "flags_shape (StateBlockSetVertexCaptureFlags g)" if "flags_shape g" for g
    using that rows_len_fold [of kMaxStageSamplerStateTypes "f_samplerStates g" "flag_list [13]" "[MaxTexturesPS + 1..<kMaxStageSamplerStateTypes]"]
    by (simp add: flags_shape_def StateBlockSetVertexCaptureFlags_def del: upt_Suc One_nat_def flip: rows_len_def)
  assume f: "flags_shape f"
  show ?thesis
    using 1 [OF f] 2 [OF f] 2 [OF 1 [OF f]] f by (simp add: StateBlockSetCaptureFlags_def Let_def flags_shape_def)
qed

lemma transfer_shape:
  assumes "flags_shape f" "shape s" "shape t"
  shows "shape (StateTransfer (buildPlan f) f s t)"
proof -
  have "StateTransfer (buildPlan f) f s t = transfer_ref f s t"
    using assms unfolding shape_def by (intro StateTransfer_ref) simp_all
  then show ?thesis using transfer_ref_shape [of t] assms by (simp add: shape_def)
qed

lemma LocalCapture_inv: "shape s \<Longrightarrow> block_inv sb \<Longrightarrow> block_inv (LocalCapture s sb)"
  by (simp add: block_inv_def LocalCapture_def transfer_shape)

section \<open>The device as a state machine\<close>

text \<open>The device and the blocks the application holds.  \<open>junk\<close> is the uninitialised state of a new block, which
  has the declared sizes because they are part of its type.\<close>

inductive sys_step :: "device \<times> stateblock list \<Rightarrow> device \<times> stateblock list \<Rightarrow> bool" where
  setter: "run_setter resp a d = Inr (hr, d', ms) \<Longrightarrow> sys_step (d, bs) (d', bs)"
| multiply: "dev_MultiplyTransform mul t m d = Inr (hr, d', ms) \<Longrightarrow> sys_step (d, bs) (d', bs)"
| const: "run_const k resp start p count d = Inr (hr, d', ms) \<Longrightarrow> sys_step (d, bs) (d', bs)"
| create: "shape junk \<Longrightarrow> dev_CreateStateBlock sc resp i junk t True d = (hr, Some sb, ms) \<Longrightarrow> sys_step (d, bs) (d, sb # bs)"
| begin_block: "shape junk \<Longrightarrow> dev_BeginStateBlock resp i junk d = (hr, d', ms) \<Longrightarrow> sys_step (d, bs) (d', bs)"
| end_block: "dev_EndStateBlock resp pp d = (hr, d', sb, ms) \<Longrightarrow> sys_step (d, bs) (d', (case sb of None \<Rightarrow> bs | Some b \<Rightarrow> b # bs))"
| capture: "k < length bs \<Longrightarrow> sb_Capture (bs ! k) d = (hr, sb, ms) \<Longrightarrow> sys_step (d, bs) (d, bs[k := sb])"
| apply_block: "k < length bs \<Longrightarrow> sb_Apply (bs ! k) d = (hr, d', ms) \<Longrightarrow> sys_step (d, bs) (d', bs)"

definition sys_inv :: "device \<times> stateblock list \<Rightarrow> bool" where
  "sys_inv s \<longleftrightarrow> dev_inv (fst s) \<and> (\<forall>sb \<in> set (snd s). block_inv sb)"

lemma sys_step_inv: "sys_step s t \<Longrightarrow> sys_inv s \<Longrightarrow> sys_inv t"
proof (induction rule: sys_step.induct)
  case (setter resp a d hr d' ms bs)
  then show ?case using run_setter_inv by (auto simp: sys_inv_def)
next
  case (multiply mul t m d hr d' ms bs)
  then show ?case using MultiplyTransform_inv by (auto simp: sys_inv_def)
next
  case (const k resp start p count d hr d' ms bs)
  then show ?case using run_const_inv by (auto simp: sys_inv_def)
next
  case (create junk sc resp i t d hr sb ms bs)
  then have "block_inv ((new_block i junk)\<lparr>m_dirtyFlags := StateBlockSetCaptureFlags t no_flags\<rparr>)"
    by (simp add: block_inv_def new_block_def capture_flags_shape no_flags_shape)
  then show ?case
    using create LocalCapture_inv by (auto simp: sys_inv_def dev_inv_def dev_CreateStateBlock_def Let_def new_block_def)
next
  case (begin_block junk resp i d hr d' ms bs)
  then show ?case
    by (auto simp: sys_inv_def dev_inv_def dev_BeginStateBlock_def block_inv_def new_block_def no_flags_shape split: option.splits)
next
  case (end_block resp pp d hr d' sb ms bs)
  then show ?case by (auto simp: sys_inv_def dev_inv_def dev_EndStateBlock_def split: if_splits option.splits)
next
  case (capture k bs d hr sb ms)
  then have "block_inv sb"
    using LocalCapture_inv by (auto simp: sys_inv_def dev_inv_def sb_Capture_def split: option.splits)
  then show ?case
    using capture set_update_subset_insert [of bs k sb] by (auto simp: sys_inv_def)
next
  case (apply_block k bs d hr d' ms)
  then have "block_inv (bs ! k)" by (auto simp: sys_inv_def)
  then show ?case
    using apply_block transfer_shape by (auto simp: sys_inv_def dev_inv_def sb_Apply_def set_state_def block_inv_def)
qed

section \<open>Property\<close>



end
