(* ===== verification/Data_Sync.thy ===== *)
theory Data_Sync
  imports Circular_Buffer
begin

text \<open>
  The protection of the data channel against overwriting words the other side has not read:
  \<open>Bridge::syncDataQueue\<close> (\<open>util_bridgecommand.cpp\<close>), which every \<open>send_data\<close>, \<open>send_many\<close> and
  \<open>begin_data_blob\<close> of \<open>util_bridgecommand.h\<close> runs before it writes, the flag that \<open>get_data\<close> clears
  when the reader passes the end of the ring, and the end of a command in the server's loop, which
  reports the read position and wakes a stalled client.  The model is that of the client's writer channel,
  whose process is 32-bit: a signed value that is compared with a \<open>size_t\<close> is reduced modulo $2^{32}$.
\<close>

section \<open>State\<close>

text \<open>
  The three words at the start of the shared mapping (\<open>IpcChannel\<close>) and the statics of
  \<open>syncDataQueue\<close> and \<open>Bridge\<close>.
\<close>

record ipc_sync =
  serverDataPos :: int
  clientDataExpectedPos :: int
  serverResetPosRequired :: bool
  s_cachedServerPos :: int
  s_cachedServerPosAge :: nat
  s_curBatchStartPos :: int

definition ipc_sync_new :: ipc_sync where
  "ipc_sync_new = \<lparr>serverDataPos = -1, clientDataExpectedPos = -1, serverResetPosRequired = False,
     s_cachedServerPos = -1, s_cachedServerPosAge = 0, s_curBatchStartPos = -1\<rparr>"

definition as_size :: "int \<Rightarrow> int" where
  "as_size i = i mod 2 ^ 32"

section \<open>The client\<close>

text \<open>
  The loop on \<open>dataSemaphore\<close>: a wait that fails is repeated while \<open>numRetries++ < maxRetries\<close>.  The
  environment gives for each wait its result and what the server did to the shared words meanwhile.
\<close>

type_synonym wait_env = "nat \<Rightarrow> ipc_sync \<Rightarrow> Result \<times> ipc_sync"

fun wait_data_semaphore :: "nat \<Rightarrow> nat \<Rightarrow> wait_env \<Rightarrow> ipc_sync \<Rightarrow> nat \<times> ipc_sync" where
  "wait_data_semaphore 0 numRetries env s = (case env numRetries s of (r, s1) \<Rightarrow>
     (if r = Success then numRetries else numRetries + 1, s1))"
| "wait_data_semaphore (Suc left) numRetries env s = (case env numRetries s of (r, s1) \<Rightarrow>
     if r = Success then (numRetries, s1) else wait_data_semaphore left (numRetries + 1) env s1)"

text \<open>
  \<open>handleOverwriteCondition\<close>.  When the waits are used up an error is logged and the push goes on, as
  after a wake-up.
\<close>

definition handleOverwriteCondition :: "int \<Rightarrow> int \<Rightarrow> int \<Rightarrow> nat \<Rightarrow> wait_env \<Rightarrow> ipc_sync \<Rightarrow> ipc_sync or_error" where
  "handleOverwriteCondition totalSize expectedMemUsage currClientDataPos maxRetries env s =
     (let s1 = s\<lparr>clientDataExpectedPos := s_curBatchStartPos s - 1\<rparr>;
          used = (if currClientDataPos \<ge> as_size (s_curBatchStartPos s)
                  then currClientDataPos - as_size (s_curBatchStartPos s)
                  else as_size (currClientDataPos + totalSize - as_size (s_curBatchStartPos s)))
      in if expectedMemUsage + used > totalSize then Inl OutOfBufferMemory
         else let (_, s2) = wait_data_semaphore maxRetries 0 env s1
              in Inr (s2\<lparr>clientDataExpectedPos := -1, serverResetPosRequired := False\<rparr>))"

definition wouldOverwrite :: "int \<Rightarrow> int \<Rightarrow> ipc_sync \<Rightarrow> bool" where
  "wouldOverwrite expectedClientDataPos sc s \<longleftrightarrow>
     expectedClientDataPos \<ge> as_size sc
   \<and> (s_curBatchStartPos s < sc
      \<or> (s_curBatchStartPos s > sc \<and> expectedClientDataPos < as_size (s_curBatchStartPos s))
      \<or> (s_curBatchStartPos s \<le> sc \<and> serverResetPosRequired s))"

definition refresh_age :: "ipc_sync \<Rightarrow> ipc_sync" where
  "refresh_age s = (if s_cachedServerPosAge s + 1 \<ge> 64
     then s\<lparr>s_cachedServerPos := serverDataPos s, s_cachedServerPosAge := 0\<rparr>
     else s\<lparr>s_cachedServerPosAge := s_cachedServerPosAge s + 1\<rparr>)"

text \<open>The first part: the position of the last word of the push, with the wrap at the end of the ring.\<close>

definition sync_wrap :: "int \<Rightarrow> int \<Rightarrow> bool \<Rightarrow> int \<Rightarrow> nat \<Rightarrow> wait_env \<Rightarrow> ipc_sync \<Rightarrow> (nat \<times> int \<times> ipc_sync) or_error" where
  "sync_wrap totalSize expectedMemUsage posResetOnLastIndex currClientDataPos maxRetries env s =
     (let expected = as_size (currClientDataPos + (if expectedMemUsage \<noteq> 0 then expectedMemUsage else 1) - 1) in
      if expected \<ge> totalSize
      then bindE (if serverResetPosRequired s
                  then bindE (handleOverwriteCondition totalSize expectedMemUsage currClientDataPos maxRetries env s)
                         (\<lambda>s1. Inr (1, s1))
                  else Inr (0, s))
             (\<lambda>(stalls, s1). Inr (stalls,
                if posResetOnLastIndex then as_size (expectedMemUsage - 1) else expected - totalSize,
                s1\<lparr>serverResetPosRequired := True\<rparr>))
      else Inr (0, expected, s))"

text \<open>The second part: the test with the cached position, then with the live one.\<close>

definition sync_test :: "int \<Rightarrow> int \<Rightarrow> int \<Rightarrow> int \<Rightarrow> int \<Rightarrow> nat \<Rightarrow> wait_env \<Rightarrow> nat \<Rightarrow> ipc_sync \<Rightarrow> (nat \<times> ipc_sync) or_error" where
  "sync_test totalSize expectedMemUsage currClientDataPos serverCount expected maxRetries env stalls s =
     (if wouldOverwrite expected serverCount s
      then let s1 = s\<lparr>s_cachedServerPos := serverDataPos s, s_cachedServerPosAge := 0\<rparr> in
           if wouldOverwrite expected (serverDataPos s) s1
           then bindE (handleOverwriteCondition totalSize expectedMemUsage currClientDataPos maxRetries env s1)
                  (\<lambda>s2. Inr (stalls + 1, s2))
           else Inr (stalls, s1)
      else Inr (stalls, s))"

text \<open>
  \<open>syncDataQueue\<close>: the result is the number of times it stalled and the new state, or the end of
  the process.  \<open>env1\<close> and \<open>env2\<close> are the environments of the two places where it can wait.
\<close>

definition syncDataQueue :: "int \<Rightarrow> int \<Rightarrow> bool \<Rightarrow> int \<Rightarrow> nat \<Rightarrow> wait_env \<Rightarrow> wait_env \<Rightarrow> ipc_sync \<Rightarrow> (nat \<times> ipc_sync) or_error" where
  "syncDataQueue totalSize expectedMemUsage posResetOnLastIndex currClientDataPos maxRetries env1 env2 s =
     (let s0 = refresh_age s in
      bindE (sync_wrap totalSize expectedMemUsage posResetOnLastIndex currClientDataPos maxRetries env1 s0)
        (\<lambda>(stalls, expected, s1).
           sync_test totalSize expectedMemUsage currClientDataPos (s_cachedServerPos s0) expected maxRetries env2 stalls s1))"

text \<open>
  \<open>memUsed\<close> and \<open>posResetOnLastIndex\<close> of \<open>send_data(obj)\<close> and \<open>send_data(size, obj)\<close>, and the two
  functions: nothing is sent once the bridge is off.
\<close>

primrec memUsed :: "item \<Rightarrow> int" where
  "memUsed (Word _) = 1"
| "memUsed (Obj b) = (case b of None \<Rightarrow> 1 | Some bs \<Rightarrow> int (chunk_size (length bs)) + 1)"

primrec posReset :: "item \<Rightarrow> bool" where
  "posReset (Word _) = False"
| "posReset (Obj _) = True"

definition send_data :: "bool \<Rightarrow> item \<Rightarrow> nat \<Rightarrow> wait_env \<Rightarrow> wait_env \<Rightarrow> ipc_sync \<times> queue \<Rightarrow> (nat \<times> ipc_sync \<times> queue) or_error" where
  "send_data gbBridgeRunning it maxRetries env1 env2 st = (case st of (s, (q, mem)) \<Rightarrow>
     if gbBridgeRunning
     then bindE (syncDataQueue (int (m_size q)) (memUsed it) (posReset it) (int (m_pos q)) maxRetries env1 env2 s)
            (\<lambda>(stalls, s1). bindE (write_item it (q, mem)) (\<lambda>c1. Inr (stalls, s1, c1)))
     else Inr (0, s, (q, mem)))"

text \<open>\<open>send_many\<close>.\<close>

definition send_many :: "bool \<Rightarrow> u32 list \<Rightarrow> nat \<Rightarrow> wait_env \<Rightarrow> wait_env \<Rightarrow> ipc_sync \<times> queue \<Rightarrow> (nat \<times> ipc_sync \<times> queue) or_error" where
  "send_many gbBridgeRunning objs maxRetries env1 env2 st = (case st of (s, (q, mem)) \<Rightarrow>
     if gbBridgeRunning
     then bindE (syncDataQueue (int (m_size q)) (int (length objs)) False (int (m_pos q)) maxRetries env1 env2 s)
            (\<lambda>(stalls, s1). bindE (cq_push_many objs (q, mem)) (\<lambda>(_, c1). Inr (stalls, s1, c1)))
     else Inr (0, s, (q, mem)))"

section \<open>The server\<close>

text \<open>\<open>get_data\<close>: after a pull that went from \<open>prevPos\<close> to \<open>pos\<close>.\<close>

definition get_data_reset :: "int \<Rightarrow> int \<Rightarrow> ipc_sync \<Rightarrow> ipc_sync" where
  "get_data_reset prevPos pos s =
     (if serverResetPosRequired s \<and> pos < prevPos then s\<lparr>serverResetPosRequired := False\<rparr> else s)"

text \<open>The end of the loop of \<open>ProcessDeviceCommandQueue\<close>; the flag says that the semaphore was released.\<close>

definition end_of_command :: "int \<Rightarrow> ipc_sync \<Rightarrow> bool \<times> ipc_sync" where
  "end_of_command pos s = (let s1 = s\<lparr>serverDataPos := pos\<rparr> in
     if clientDataExpectedPos s1 \<noteq> -1
     then if serverDataPos s1 > clientDataExpectedPos s1 \<and> \<not> serverResetPosRequired s1
          then (True, s1\<lparr>clientDataExpectedPos := -1\<rparr>) else (False, s1)
     else (False, s1))"

text \<open>
  The server works off commands: each is the list of the positions its pulls reach.  The result says
  whether the semaphore was released on the way.
\<close>

fun serve_pulls :: "int \<Rightarrow> int list \<Rightarrow> ipc_sync \<Rightarrow> int \<times> ipc_sync" where
  "serve_pulls pos [] s = (pos, s)"
| "serve_pulls pos (p # ps) s = serve_pulls p ps (get_data_reset pos p s)"

fun serve_commands :: "int \<Rightarrow> int list list \<Rightarrow> ipc_sync \<Rightarrow> bool \<times> ipc_sync" where
  "serve_commands pos [] s = (False, s)"
| "serve_commands pos (ps # cs) s = (let (pos', s1) = serve_pulls pos ps s; (r, s2) = end_of_command pos' s1
     in if r then (True, s2) else serve_commands pos' cs s2)"

text \<open>
  The environment of a stalled client when the server is at work: during wait number \<open>i\<close> it works off
  the commands \<open>cmds i\<close>, and the wait succeeds when it released the semaphore.
\<close>

definition server_env :: "(nat \<Rightarrow> int list list) \<Rightarrow> wait_env" where
  "server_env cmds i s = (case serve_commands (serverDataPos s) (cmds i) s of (r, s1) \<Rightarrow>
     (if r then Success else Timeout, s1))"

text \<open>
  A run of both ends on a ring of \<open>N\<close> words: a command begins, it sends a word (only when it is let through at
  once), the server works off a command of \<open>k\<close> words.  \<open>written\<close> and \<open>readw\<close> count the words.
\<close>

datatype chan_event = BeginCommand | SendWord | Serve nat

record chan_run =
  csync :: ipc_sync
  written :: nat
  readw :: nat

definition no_wait :: wait_env where
  "no_wait i s = (Timeout, s)"

fun run_chan :: "nat \<Rightarrow> chan_event list \<Rightarrow> chan_run \<Rightarrow> chan_run option" where
  "run_chan N [] l = Some l"
| "run_chan N (BeginCommand # es) l =
     run_chan N es (l\<lparr>csync := (csync l)\<lparr>s_curBatchStartPos := int (written l mod N)\<rparr>\<rparr>)"
| "run_chan N (SendWord # es) l = (case syncDataQueue (int N) 1 False (int (written l mod N)) 0 no_wait no_wait (csync l) of
     Inl e \<Rightarrow> None
   | Inr (stalls, s1) \<Rightarrow> if stalls = 0 then run_chan N es (l\<lparr>csync := s1, written := written l + 1\<rparr>) else None)"
| "run_chan N (Serve k # es) l = (if readw l + k \<le> written l
     then run_chan N es (l\<lparr>csync := snd (serve_commands (int (readw l mod N))
            [map (\<lambda>i. int ((readw l + i) mod N)) [1..<k + 1]] (csync l)), readw := readw l + k\<rparr>)
     else None)"

definition chan_new :: chan_run where
  "chan_new = \<lparr>csync = ipc_sync_new, written = 0, readw = 0\<rparr>"

section \<open>When the push goes on at once\<close>

lemma as_size_id [simp]: "0 \<le> i \<Longrightarrow> i < 2 ^ 32 \<Longrightarrow> as_size i = i"
  by (simp add: as_size_def)

lemma refresh_age_fields [simp]:
  "serverDataPos (refresh_age s) = serverDataPos s" "serverResetPosRequired (refresh_age s) = serverResetPosRequired s"
  "s_curBatchStartPos (refresh_age s) = s_curBatchStartPos s" "clientDataExpectedPos (refresh_age s) = clientDataExpectedPos s"
  "s_cachedServerPos s = serverDataPos s \<Longrightarrow> s_cachedServerPos (refresh_age s) = serverDataPos s"
  by (simp_all add: refresh_age_def)

text \<open>The position the test is made with.\<close>

definition tested_pos :: "int \<Rightarrow> int \<Rightarrow> bool \<Rightarrow> int \<Rightarrow> int" where
  "tested_pos N m pr cur = (if cur + m - 1 \<ge> N then if pr then m - 1 else cur + m - 1 - N else cur + m - 1)"

lemma no_stall:
  assumes "syncDataQueue N m pr cur maxRetries env1 env2 s = Inr (0, s')"
    and live: "s_cachedServerPos s = serverDataPos s"
    and ranges: "0 \<le> serverDataPos s" "serverDataPos s < N" "0 \<le> s_curBatchStartPos s" "s_curBatchStartPos s < N"
      "0 \<le> cur" "cur < N" "1 \<le> m" "m \<le> N" "N < 2 ^ 31"
  shows "cur + m - 1 \<ge> N \<Longrightarrow> \<not> serverResetPosRequired s"
    and "tested_pos N m pr cur < serverDataPos s \<or>
      (s_curBatchStartPos s \<ge> serverDataPos s
       \<and> (s_curBatchStartPos s > serverDataPos s \<longrightarrow> s_curBatchStartPos s \<le> tested_pos N m pr cur)
       \<and> (s_curBatchStartPos s = serverDataPos s \<longrightarrow> \<not> serverResetPosRequired s \<and> cur + m - 1 < N))"
  using assms
  by (auto simp: syncDataQueue_def sync_wrap_def sync_test_def wouldOverwrite_def tested_pos_def Let_def bind_simps
      split: if_splits)

text \<open>
  The counters of the two ends: \<open>R\<close> words were read, \<open>B\<close> written before the command in progress, \<open>W\<close>
  written in all, cells skipped by a roll-over included.
\<close>

definition counters :: "nat \<Rightarrow> nat \<Rightarrow> nat \<Rightarrow> nat \<Rightarrow> ipc_sync \<Rightarrow> bool" where
  "counters N R B W s \<longleftrightarrow> 0 < N \<and> N < 2 ^ 31 \<and> R \<le> B \<and> B \<le> W \<and> W \<le> R + N
   \<and> serverDataPos s = int (R mod N) \<and> s_cachedServerPos s = serverDataPos s
   \<and> s_curBatchStartPos s = int (B mod N)
   \<and> serverResetPosRequired s = (W div N \<noteq> R div N)"

text \<open>The counter of the tested position.\<close>

definition tested_count :: "nat \<Rightarrow> nat \<Rightarrow> nat \<Rightarrow> bool \<Rightarrow> nat" where
  "tested_count N W m pr = (if pr \<and> W mod N + m > N then W - W mod N + N + m - 1 else W + m - 1)"

lemma room_same_lap:
  fixes N w r st m :: int
  assumes "0 \<le> r" "r \<le> st" "st \<le> w" "w < N" "1 \<le> m"
    and batch: "(if pr \<and> w + m > N then N + m - 1 else w + m - 1) < st + N"
    and t: "tested_pos N m pr w < r \<or> (st \<ge> r \<and> (st > r \<longrightarrow> st \<le> tested_pos N m pr w)
       \<and> (st = r \<longrightarrow> \<not> False \<and> w + m - 1 < N))"
  shows "(if pr \<and> w + m > N then N + m - 1 else w + m - 1) < r + N"
  using assms by (auto simp: tested_pos_def split: if_splits)

lemma room_next_lap:
  fixes N w r st m :: int
  assumes "0 \<le> w" "w \<le> r" "r < N" "0 \<le> st" "st < N" "1 \<le> m" "w + m - 1 < N"
    and pos: "st \<ge> r \<and> w + m \<le> st \<or> st \<le> w"
    and t: "tested_pos N m pr w < r \<or> (st \<ge> r \<and> (st > r \<longrightarrow> st \<le> tested_pos N m pr w)
       \<and> (st = r \<longrightarrow> \<not> True \<and> w + m - 1 < N))"
  shows "w + m - 1 < r"
  using assms by (auto simp: tested_pos_def split: if_splits)

lemma sync_room:
  assumes c: "counters N R B W s"
    and sync: "syncDataQueue (int N) (int m) pr (int (W mod N)) maxRetries env1 env2 s = Inr (0, s')"
    and m: "1 \<le> m" "m \<le> N" and batch: "tested_count N W m pr < B + N"
  shows "tested_count N W m pr < R + N"
proof -
  let ?w = "W mod N" and ?r = "R mod N" and ?st = "B mod N" and ?b = "R div N"
  have N: "0 < N" "N < 2 ^ 31" and le: "R \<le> B" "B \<le> W" "W \<le> R + N" using c by (auto simp: counters_def)
  have eq: "W = N * (W div N) + ?w" "R = N * ?b + ?r" "B = N * (B div N) + ?st" by simp_all
  have lt: "?w < N" "?r < N" "?st < N" using N by simp_all
  have dv: "?b \<le> B div N" "B div N \<le> W div N" using le by (auto intro: div_le_mono)
  have "W div N \<le> (R + N) div N" using le by (intro div_le_mono)
  then have dv2: "W div N \<le> ?b + 1" using N by (simp add: div_add_self2)
  have f: "serverDataPos s = int ?r" "s_curBatchStartPos s = int ?st" "s_cachedServerPos s = serverDataPos s"
    "serverResetPosRequired s = (W div N \<noteq> ?b)" using c by (auto simp: counters_def)
  have t1: "int ?w + int m - 1 \<ge> int N \<Longrightarrow> W div N = ?b"
    using no_stall(1) [OF sync f(3)] f lt m N by simp
  have t2: "tested_pos (int N) (int m) pr (int ?w) < int ?r \<or>
      (int ?st \<ge> int ?r \<and> (int ?st > int ?r \<longrightarrow> int ?st \<le> tested_pos (int N) (int m) pr (int ?w))
       \<and> (int ?st = int ?r \<longrightarrow> \<not> (W div N \<noteq> ?b) \<and> int ?w + int m - 1 < int N))"
    using no_stall(2) [OF sync f(3)] f lt m N by simp
  show ?thesis
  proof (cases "W div N = ?b")
    case True
    then have Bd: "B div N = ?b" using dv by simp
    let ?e = "if pr \<and> int ?w + int m > int N then int N + int m - 1 else int ?w + int m - 1"
    have cnt: "int (tested_count N W m pr) = int (N * ?b) + ?e"
    proof -
      have iW: "int W = int (N * ?b) + int ?w" using eq(1) True by (metis of_nat_add)
      have "int (W - ?w) = int W - int ?w" by (simp add: of_nat_diff)
      then show ?thesis using iW m N by (auto simp: tested_count_def of_nat_diff simp del: of_nat_mult)
    qed
    have o: "int ?r \<le> int ?st" "int ?st \<le> int ?w"
      using le(1,2) eq True Bd by (metis add_le_cancel_left of_nat_le_iff)+
    have iB: "int B = int (N * ?b) + int ?st" using eq(3) Bd by (metis of_nat_add)
    have "int (tested_count N W m pr) < int B + int N" using batch by linarith
    then have e: "?e < int ?st + int N" using cnt iB by linarith
    have i: "(0::int) \<le> int ?r" "int ?w < int N" "1 \<le> int m" using lt(1) m(1) by simp_all
    have "?e < int ?r + int N"
      by (rule room_same_lap [OF i(1) o i(2,3) e]) (use t2 True in blast)
    moreover have iR: "int R = int (N * ?b) + int ?r" using eq(2) by (metis of_nat_add)
    ultimately have "int (tested_count N W m pr) < int R + int N" using cnt by linarith
    then show ?thesis by linarith
  next
    case False
    then have Wd: "W div N = ?b + 1" using dv dv2 by simp
    then have wm: "int ?w + int m - 1 < int N" using t1 by force
    have cnt: "tested_count N W m pr = N * ?b + N + ?w + m - 1"
      using eq(1) Wd wm m by (auto simp: tested_count_def)
    have "W = N * ?b + N + ?w" using eq(1) Wd by (metis Suc_eq_plus1 add.commute mult_Suc_right)
    then have "?w \<le> ?r" using le(3) eq(2) by linarith
    moreover have "int ?st \<ge> int ?r \<and> int ?w + int m \<le> int ?st \<or> int ?st \<le> int ?w"
    proof (cases "B div N = ?b")
      case True
      then have "?r \<le> ?st" using le(1) eq(2,3) by (metis add_le_cancel_left)
      moreover have "N * ?b + N + ?w + m - 1 < N * ?b + ?st + N" using batch cnt eq(3) True by metis
      ultimately show ?thesis using m by linarith
    next
      case False
      then have "B div N = W div N" using dv Wd by simp
      then show ?thesis using le(2) eq(1,3) by (metis add_le_cancel_left of_nat_le_iff)
    qed
    ultimately have p: "int ?w \<le> int ?r" "int ?st \<ge> int ?r \<and> int ?w + int m \<le> int ?st \<or> int ?st \<le> int ?w"
      by simp_all
    have i: "(0::int) \<le> int ?w" "int ?r < int N" "(0::int) \<le> int ?st" "int ?st < int N" "1 \<le> int m"
      using lt m(1) by simp_all
    have "int ?w + int m - 1 < int ?r"
      by (rule room_next_lap [OF i(1) p(1) i(2-5) wm p(2)]) (use t2 False in blast)
    then show ?thesis using cnt eq(2) m by linarith
  qed
qed

section \<open>When the client waits\<close>

lemma sorted_after: "sorted (a # xs @ ys) \<Longrightarrow> sorted (last (a # xs) # ys)"
  by (auto simp: sorted_append)

lemma serve_pulls_sorted:
  "sorted (pos # ps) \<Longrightarrow> serverResetPosRequired s \<Longrightarrow> serve_pulls pos ps s = (last (pos # ps), s)"
  by (induction pos ps s rule: serve_pulls.induct) (auto simp: get_data_reset_def)

lemma serve_pulls_expected:
  "serve_pulls pos ps s = (p, s1) \<Longrightarrow> clientDataExpectedPos s1 = clientDataExpectedPos s"
  by (induction pos ps s rule: serve_pulls.induct) (auto simp: get_data_reset_def split: if_splits)

text \<open>Whether the server can wake the client: never when the expected position was set to \<open>-1\<close>, and not
  before it passed the end of the ring when the flag is set.\<close>

lemma serve_unseen:
  "clientDataExpectedPos s = -1 \<Longrightarrow> serve_commands pos cs s = (r, s1) \<Longrightarrow> \<not> r \<and> clientDataExpectedPos s1 = -1"
proof (induction pos cs s arbitrary: r s1 rule: serve_commands.induct)
  case (2 pos ps cs s)
  obtain p s2 where sp: "serve_pulls pos ps s = (p, s2)" by fastforce
  then have e: "end_of_command p s2 = (False, s2\<lparr>serverDataPos := p\<rparr>)"
    using serve_pulls_expected [OF sp] "2.prems"(1) by (simp add: end_of_command_def)
  show ?case
    using "2.IH" [OF sp [symmetric] refl e [symmetric] refl] "2.prems" sp e serve_pulls_expected [OF sp] by simp
qed simp

lemma serve_same_lap:
  "sorted (pos # concat cs) \<Longrightarrow> serverResetPosRequired s \<Longrightarrow> serverDataPos s = pos \<Longrightarrow> serve_commands pos cs s = (r, s1) \<Longrightarrow>
     \<not> r \<and> s1 = s\<lparr>serverDataPos := last (pos # concat cs)\<rparr>"
proof (induction pos cs s arbitrary: r s1 rule: serve_commands.induct)
  case (2 pos ps cs s)
  have sp: "serve_pulls pos ps s = (last (pos # ps), s)"
    using "2.prems"(1,2) by (intro serve_pulls_sorted) (auto simp: sorted_append)
  then have e: "end_of_command (last (pos # ps)) s = (False, s\<lparr>serverDataPos := last (pos # ps)\<rparr>)"
    using "2.prems"(2) by (simp add: end_of_command_def Let_def)
  have so: "sorted (last (pos # ps) # concat cs)"
    using "2.prems"(1) by (auto simp: sorted_append)
  show ?case
    using "2.IH" [OF sp [symmetric] refl e [symmetric] refl _ so] "2.prems"(2,4) sp e
    by (auto split: if_splits)
qed simp

lemma wait_all_fail:
  assumes "P 0 s" and "\<And>i s r s1. P i s \<Longrightarrow> env i s = (r, s1) \<Longrightarrow> r \<noteq> Success \<and> P (Suc i) s1"
  shows "fst (wait_data_semaphore n 0 env s) = n + 1"
proof -
  have "P k s \<Longrightarrow> fst (wait_data_semaphore n k env s) = n + k + 1" for k s
  proof (induction n arbitrary: k s)
    case 0
    then show ?case using assms(2) [of k s] by (cases "env k s") auto
  next
    case (Suc n)
    obtain r s1 where e: "env k s = (r, s1)" by fastforce
    then show ?case using assms(2) [OF Suc.prems e] Suc.IH [of "Suc k" s1] by simp
  qed
  then show ?thesis using assms(1) by simp
qed

section \<open>Properties\<close>

lemma span_le_tested:
  assumes "item_fits N it" and "\<not> (posReset it \<and> int (W mod N) + memUsed it = int N)" and "0 < N"
  shows "W + item_span N (W mod N) it \<le> tested_count N W (nat (memUsed it)) (posReset it) + 1"
proof (cases it)
  case (Word w)
  then show ?thesis by (simp add: tested_count_def)
next
  case (Obj b)
  show ?thesis
  proof (cases b)
    case None
    have "W mod N < N" using assms(3) by simp
    then show ?thesis using Obj None by (simp add: tested_count_def)
  next
    case (Some bs)
    let ?n = "chunk_size (length bs)" and ?w = "W mod N"
    have n: "nat (memUsed it) = ?n + 1" using Obj Some by simp
    have lt: "?w < N" "?w \<le> W" using assms(3) by auto
    have "(?w + 1) mod N = (if ?w + 1 < N then ?w + 1 else 0)" using lt(1) by (cases "?w + 1 = N") auto
    moreover have "?n < N" using assms(1) Obj Some chunk_size_eq by auto
    ultimately have "item_span N ?w it \<le> (if ?w + ?n + 1 \<ge> N \<and> ?w + 1 < N then N - ?w + ?n else ?n + 1)"
      using lt Obj Some by (auto simp: obj_span_def)
    moreover have "?w + ?n + 1 \<noteq> N" using assms(2) Obj Some by auto
    ultimately show ?thesis using lt n Obj by (auto simp: tested_count_def split: if_splits)
  qed
qed

text \<open>C19. Overwrite protection of the data channel.  Let \<open>R\<close> cells of the ring have been read, the command in progress have
  begun after \<open>B\<close> and \<open>W\<close> have been written, let the known server position be current and the reset
  flag say whether writer and reader are on different laps.  If the command still fits the ring and the item does
  not end exactly at the end of the ring, then a \<open>send_data\<close> that \<open>syncDataQueue\<close> lets through without a
  stall leaves every unread cell as it is, and the writer stays less than a ring ahead of the reader.\<close>

theorem send_data_keeps_unread:
  assumes "counters (m_size q) R B W s" and "queue_ok (q, mem)" and "m_pos q = W mod m_size q"
    and "item_fits (m_size q) it" and "\<not> (posReset it \<and> int (m_pos q) + memUsed it = int (m_size q))"
    and "tested_count (m_size q) W (nat (memUsed it)) (posReset it) < B + m_size q"
    and "send_data True it maxRetries env1 env2 (s, (q, mem)) = Inr (0, s', (q', mem'))"
  shows "(\<forall>k. R \<le> k \<and> k < W \<longrightarrow> cell (k mod m_size q) mem' = cell (k mod m_size q) mem)
    \<and> W + item_span (m_size q) (m_pos q) it \<le> R + m_size q"
proof -
  let ?N = "m_size q" and ?sp = "item_span (m_size q) (m_pos q) it" and ?m = "nat (memUsed it)"
  have N: "0 < ?N" and W: "W \<le> R + ?N" using assms(1) by (auto simp: counters_def)
  have m: "memUsed it = int ?m" "1 \<le> ?m" "?m \<le> ?N"
    using assms(4) N chunk_size_eq by (cases it; auto split: option.splits)+
  obtain s1 where sync: "syncDataQueue (int ?N) (memUsed it) (posReset it) (int (m_pos q)) maxRetries env1 env2 s = Inr (0, s1)"
    and wr: "write_item it (q, mem) = Inr (q', mem')"
    using assms(7) by (auto simp: send_data_def bind_simps)
  have room: "tested_count ?N W ?m (posReset it) < R + ?N"
    using sync_room [OF assms(1) _ m(2,3) assms(6)] sync m(1) assms(3) by simp
  moreover have "W + ?sp \<le> tested_count ?N W ?m (posReset it) + 1"
    using span_le_tested [OF assms(4) _ N, of W] assms(3,5) by simp
  ultimately have sp: "W + ?sp \<le> R + ?N" by linarith
  have same: "same_cells ?N (m_pos q) {?sp..<?N} mem mem'"
    using write_item_wrote [OF assms(2,4)] wr by (auto simp: wrote_def)
  have "cell (k mod ?N) mem' = cell (k mod ?N) mem" if "R \<le> k" "k < W" for k
  proof -
    have "k + ?N - W \<in> {?sp..<?N}" using that sp W by auto
    moreover have "(m_pos q + (k + ?N - W)) mod ?N = (W + (k + ?N - W)) mod ?N" by (simp add: assms(3) mod_simps)
    then have "(m_pos q + (k + ?N - W)) mod ?N = k mod ?N" using that W by simp
    ultimately show ?thesis using same by (metis cell_def same_cells_def)
  qed
  then show ?thesis using sp by blast
qed

text \<open>Eight unread words behind a ring of sixteen: a ninth is let through.\<close>

theorem send_data_keeps_unread_witness:
  "\<exists>q mem s st' mem'. counters 16 4 12 12 s
     \<and> send_data True (Word 9) 0 no_wait no_wait (s, (q, mem)) = Inr (0, st', mem')
     \<and> cell 4 (snd mem') = cell 4 mem"
proof -
  let ?q = "\<lparr>m_size = 16, m_pos = 12, m_batchSize = 0, m_batchInProgress = False\<rparr>" and ?mem = "replicate 64 7"
  let ?s = "\<lparr>serverDataPos = 4, clientDataExpectedPos = -1, serverResetPosRequired = False,
     s_cachedServerPos = 4, s_cachedServerPosAge = 0, s_curBatchStartPos = 12\<rparr>"
  have c: "counters (m_size ?q) 4 12 12 ?s" by (simp add: counters_def)
  have ok: "queue_ok (?q, ?mem)" by (simp add: queue_ok_def)
  obtain s' q' mem' where r: "send_data True (Word 9) 0 no_wait no_wait (?s, (?q, ?mem)) = Inr (0, s', (q', mem'))"
    by (simp add: send_data_def syncDataQueue_def sync_wrap_def sync_test_def wouldOverwrite_def refresh_age_def
        as_size_def Let_def cq_push_eq [OF ok])
  have "\<forall>k. 4 \<le> k \<and> k < (12::nat) \<longrightarrow> cell (k mod m_size ?q) mem' = cell (k mod m_size ?q) ?mem"
    using send_data_keeps_unread [OF c ok _ _ _ _ r] by (simp add: tested_count_def)
  then have "cell 4 mem' = cell 4 ?mem" by (auto dest: spec [of _ 4])
  then show ?thesis using c r by (intro exI [of _ ?q] exI [of _ ?mem] exI [of _ ?s] exI [of _ s'] exI [of _ "(q', mem')"]) simp
qed

lemma wait_and_go:
  assumes "0 \<le> s_curBatchStartPos s" "s_curBatchStartPos s \<le> cur" "m + (cur - s_curBatchStartPos s) \<le> N" "cur < N" "N < 2 ^ 31"
    and "s_curBatchStartPos s1 = s_curBatchStartPos s"
  shows "handleOverwriteCondition N m cur maxRetries env s1 =
    Inr ((snd (wait_data_semaphore maxRetries 0 env (s1\<lparr>clientDataExpectedPos := s_curBatchStartPos s - 1\<rparr>)))
          \<lparr>clientDataExpectedPos := -1, serverResetPosRequired := False\<rparr>)"
  using assms by (simp add: handleOverwriteCondition_def Let_def split: prod.splits)

lemma same_lap_waits:
  assumes "serverResetPosRequired w" and "\<And>n. sorted (serverDataPos w # concat (concat (map cmds [0..<n])))"
  shows "fst (wait_data_semaphore maxRetries 0 (server_env cmds) w) = maxRetries + 1"
proof (rule wait_all_fail [where P = "\<lambda>i s. serverResetPosRequired s \<and>
      serverDataPos s = last (serverDataPos w # concat (concat (map cmds [0..<i])))"])
  fix i s r s1
  assume a: "serverResetPosRequired s \<and> serverDataPos s = last (serverDataPos w # concat (concat (map cmds [0..<i])))"
    and e: "server_env cmds i s = (r, s1)"
  let ?c = "concat (concat (map cmds [0..<i]))"
  have "sorted (serverDataPos w # ?c @ concat (cmds i))" using assms(2) [of "Suc i"] by simp
  then have "sorted (serverDataPos s # concat (cmds i))" using a sorted_after by metis
  then show "r \<noteq> Success \<and> serverResetPosRequired s1 \<and> serverDataPos s1 = last (serverDataPos w # concat (concat (map cmds [0..<Suc i])))"
    using serve_same_lap [of "serverDataPos s" "cmds i" s] a e by (auto simp: server_env_def split: prod.splits)
qed (use assms(1) in simp)

lemma unseen_waits:
  assumes "clientDataExpectedPos w = -1"
  shows "fst (wait_data_semaphore maxRetries 0 (server_env cmds) w) = maxRetries + 1"
  by (rule wait_all_fail [where P = "\<lambda>_ s. clientDataExpectedPos s = -1"])
    (auto simp: assms server_env_def dest: serve_unseen split: prod.splits if_splits)

text \<open>Stalls that end only by timeout.  A push that must wait because it wraps into words the server has not read
  (the unread words lie before the command in progress, on the server's own lap), and a push of a command that
  began at position 0, go through all \<open>maxRetries + 1\<close> waits of the semaphore: whatever complete commands the
  server works off meanwhile, it never releases it, since the reset flag that the same call has set cannot be
  cleared before the server passes the end of the ring, and an expected position of \<open>-1\<close> means that nobody waits.\<close>

theorem stall_never_released:
  assumes "s_cachedServerPos s = serverDataPos s" and "\<not> serverResetPosRequired s"
    and "0 \<le> serverDataPos s" "serverDataPos s < N" "0 \<le> cur" "cur < N" "1 \<le> m" "m \<le> N" "N < 2 ^ 31"
    and "0 \<le> s_curBatchStartPos s" "s_curBatchStartPos s \<le> cur" and "m + (cur - s_curBatchStartPos s) \<le> N"
    and "serverDataPos s \<le> tested_pos N m pr cur"
    and "cur + m - 1 \<ge> N \<and> tested_pos N m pr cur < s_curBatchStartPos s
         \<and> (\<forall>n. sorted (serverDataPos s # concat (concat (map cmds [0..<n]))))
       \<or> cur + m - 1 < N \<and> s_curBatchStartPos s = 0 \<and> 0 < serverDataPos s"
    and w: "w = s\<lparr>serverResetPosRequired := (cur + m - 1 \<ge> N), s_cachedServerPos := serverDataPos s,
               s_cachedServerPosAge := 0, clientDataExpectedPos := s_curBatchStartPos s - 1\<rparr>"
  shows "syncDataQueue N m pr cur maxRetries env1 (server_env cmds) s
      = Inr (1, (snd (wait_data_semaphore maxRetries 0 (server_env cmds) w))\<lparr>clientDataExpectedPos := -1, serverResetPosRequired := False\<rparr>)
    \<and> fst (wait_data_semaphore maxRetries 0 (server_env cmds) w) = maxRetries + 1"
proof
  let ?e = "tested_pos N m pr cur"
  have st: "wouldOverwrite ?e (serverDataPos s) s1"
    if "serverResetPosRequired s1 = (cur + m - 1 \<ge> N)" "s_curBatchStartPos s1 = s_curBatchStartPos s" for s1
    using assms(3,4,6,9-11,13,14) that by (auto simp: wouldOverwrite_def)
  have "sync_wrap N m pr cur maxRetries env1 (refresh_age s) = Inr (0, ?e, (refresh_age s)\<lparr>serverResetPosRequired := (cur + m - 1 \<ge> N)\<rparr>)"
    using assms(2,5-9) by (auto simp: sync_wrap_def tested_pos_def Let_def)
  then show "syncDataQueue N m pr cur maxRetries env1 (server_env cmds) s
      = Inr (1, (snd (wait_data_semaphore maxRetries 0 (server_env cmds) w))\<lparr>clientDataExpectedPos := -1, serverResetPosRequired := False\<rparr>)"
    using wait_and_go [OF assms(10-12,6,9), of _ maxRetries "server_env cmds"] assms(1) st w
    by (simp add: syncDataQueue_def sync_test_def Let_def refresh_age_def)
  show "fst (wait_data_semaphore maxRetries 0 (server_env cmds) w) = maxRetries + 1"
    using assms(14)
  proof
    assume "cur + m - 1 \<ge> N \<and> ?e < s_curBatchStartPos s \<and> (\<forall>n. sorted (serverDataPos s # concat (concat (map cmds [0..<n]))))"
    then show ?thesis using w by (intro same_lap_waits) simp_all
  next
    assume "cur + m - 1 < N \<and> s_curBatchStartPos s = 0 \<and> 0 < serverDataPos s"
    then show ?thesis using w by (intro unseen_waits) simp
  qed
qed

text \<open>A ring of ten words: the server is at 1, the command in progress began at 8 and sends an object of three words
  and its size; the server then works off a command that ends at 8.\<close>

theorem stall_never_released_witness:
  "\<exists>s w. syncDataQueue 10 4 True 8 300 no_wait (server_env (\<lambda>i. if i = 0 then [[5], [8]] else [])) s = Inr (1, w)
     \<and> serverDataPos s = 1 \<and> s_curBatchStartPos s = 8
     \<and> fst (wait_data_semaphore 300 0 (server_env (\<lambda>i. if i = 0 then [[5], [8]] else []))
          (s\<lparr>serverResetPosRequired := True, s_cachedServerPos := 1, s_cachedServerPosAge := 0, clientDataExpectedPos := 7\<rparr>)) = 301"
proof -
  let ?cmds = "\<lambda>i::nat. if i = 0 then [[5], [8::int]] else []"
  let ?s = "\<lparr>serverDataPos = 1, clientDataExpectedPos = -1, serverResetPosRequired = False,
     s_cachedServerPos = 1, s_cachedServerPosAge = 0, s_curBatchStartPos = 8\<rparr>"
  have "concat (concat (map ?cmds [0..<n])) = (if n = 0 then [] else [5, 8])" for n by (induction n) auto
  then have so: "sorted (serverDataPos ?s # concat (concat (map ?cmds [0..<n])))" for n by simp
  note st = stall_never_released [where s = ?s and N = 10 and cur = 8 and m = 4 and pr = True and cmds = ?cmds and maxRetries = 300
      and w = "?s\<lparr>serverResetPosRequired := True, s_cachedServerPos := 1, s_cachedServerPosAge := 0, clientDataExpectedPos := 7\<rparr>" and ?env1.0 = no_wait]
  show ?thesis
    by (rule exI [of _ ?s], rule exI) (use st so in \<open>simp add: tested_pos_def\<close>)
qed

text \<open>An object that would end exactly at the end of the ring.  \<open>ensure_space\<close> rolls such an object over
  to the start of the ring, while \<open>syncDataQueue\<close> still takes its last word to be the last of the ring: with unread words
  at the start the push is let through without a stall, and the object replaces them.\<close>

theorem exact_end_object_unchecked:
  assumes "queue_ok (q, mem)" and "item_fits (m_size q) (Obj (Some bs))" and "m_size q < 2 ^ 31"
    and "bs \<noteq> []" and "m_pos q + chunk_size (length bs) + 1 = m_size q"
    and "s_cachedServerPos s = serverDataPos s" and "\<not> serverResetPosRequired s"
    and "0 \<le> serverDataPos s" and "serverDataPos s < s_curBatchStartPos s" and "s_curBatchStartPos s \<le> int (m_pos q)"
  shows "\<exists>s' q' mem'. send_data True (Obj (Some bs)) maxRetries env1 env2 (s, (q, mem)) = Inr (0, s', (q', mem'))
    \<and> mem_read 0 (length bs) mem' = bs"
proof -
  let ?n = "chunk_size (length bs)"
  note w = write_obj [OF assms(1,2)] and d = queue_okD [OF assms(1)]
  have n: "0 < ?n" using assms(2,4) by (cases bs) (auto simp: chunk_size_eq)
  then have "(m_pos q + 1) mod m_size q = m_pos q + 1" using assms(5) by simp
  then have st: "obj_start (m_size q) ((m_pos q + 1) mod m_size q) ?n = 0" using assms(5) by (simp add: obj_start_def)
  have "mem_read 0 (length bs) (mem_write 0 bs (mem_write (4 * m_pos q) (u32_bytes v) mem)) = bs" for v
    using w(2) d by (simp add: mem_read_def mem_write_def)
  moreover have "\<exists>s'. syncDataQueue (int (m_size q)) (int ?n + 1) True (int (m_pos q)) maxRetries env1 env2 s = Inr (0, s')"
    using assms(3,5-10) d(1)
    by (simp add: syncDataQueue_def sync_wrap_def sync_test_def wouldOverwrite_def Let_def)
  ultimately show ?thesis using w(1) st by (auto simp: send_data_def)
qed

text \<open>A ring of ten words with the unread words 0 to 5: an object of three words at position 6 replaces three of them.\<close>

theorem exact_end_object_unchecked_witness:
  "\<exists>s q mem s' q' mem'. serverDataPos s = 0 \<and> s_curBatchStartPos s = 6 \<and> m_size q = 10 \<and> mem_read 0 12 mem = replicate 12 7
     \<and> send_data True (Obj (Some (replicate 12 1))) 0 no_wait no_wait (s, (q, mem)) = Inr (0, s', (q', mem'))
     \<and> mem_read 0 12 mem' = replicate 12 1"
proof -
  let ?q = "\<lparr>m_size = 10, m_pos = 6, m_batchSize = 0, m_batchInProgress = False\<rparr>" and ?mem = "replicate 40 7"
  let ?s = "\<lparr>serverDataPos = 0, clientDataExpectedPos = -1, serverResetPosRequired = False,
     s_cachedServerPos = 0, s_cachedServerPosAge = 0, s_curBatchStartPos = 6\<rparr>"
  have "chunk_size 12 = 3" by (simp add: chunk_size_eq)
  then have "\<exists>s' q' mem'. send_data True (Obj (Some (replicate 12 1))) 0 no_wait no_wait (?s, (?q, ?mem)) = Inr (0, s', (q', mem'))
      \<and> mem_read 0 12 mem' = replicate 12 1"
    using exact_end_object_unchecked [where q = ?q and mem = ?mem and s = ?s and bs = "replicate 12 1"]
    by (simp add: queue_ok_def)
  then obtain s' q' mem' where "send_data True (Obj (Some (replicate 12 1))) 0 no_wait no_wait (?s, (?q, ?mem)) = Inr (0, s', (q', mem'))"
      "mem_read 0 12 mem' = replicate 12 1" by blast
  then show ?thesis
    by (intro exI [of _ ?s] exI [of _ ?q] exI [of _ ?mem] exI [of _ s'] exI [of _ q'] exI [of _ mem']) (simp add: mem_read_def)
qed

lemma run_chan_append: "run_chan N (xs @ ys) l = Option.bind (run_chan N xs l) (run_chan N ys)"
  by (induction N xs l rule: run_chan.induct) (auto split: sum.splits)

lemma concat_replicate_Suc: "concat (replicate (Suc k) xs) = concat (replicate k xs) @ xs"
  by (induction k) auto

lemma replicate_num: "replicate (numeral n) x = x # replicate (pred_numeral n) x"
  by (simp add: numeral_eq_Suc)

lemma concat_replicate_num: "concat (replicate (numeral n) xs) = xs @ concat (replicate (pred_numeral n) xs)"
  by (simp add: numeral_eq_Suc)

text \<open>A word that is let through when no lap is flagged.\<close>

lemma word_passes:
  assumes "\<not> serverResetPosRequired (csync l)" and "0 < N" and "N < 2 ^ 31"
    and "0 \<le> s_curBatchStartPos (csync l)" and "s_curBatchStartPos (csync l) \<le> int (written l mod N)"
    and "int (written l mod N) < as_size (s_cachedServerPos (refresh_age (csync l)))
       \<or> s_cachedServerPos (refresh_age (csync l)) \<le> s_curBatchStartPos (csync l)"
  shows "run_chan N (SendWord # es) l = run_chan N es (l\<lparr>csync := refresh_age (csync l), written := written l + 1\<rparr>)"
proof -
  define p where "p = int (written l mod N)"
  have p0: "0 \<le> p" "p < int N" using assms(2) by (simp_all add: p_def zmod_int)
  then have p: "0 \<le> p" "p < int N" "p < 2 ^ 32" using assms(3) by auto
  have "sync_wrap (int N) 1 False p 0 no_wait (refresh_age (csync l)) = Inr (0, p, refresh_age (csync l))"
    using p by (simp add: sync_wrap_def)
  moreover have "\<not> wouldOverwrite p (s_cachedServerPos (refresh_age (csync l))) (refresh_age (csync l))"
    using assms(1,4-6) p unfolding p_def [symmetric] by (auto simp: wouldOverwrite_def)
  ultimately have "syncDataQueue (int N) 1 False p 0 no_wait no_wait (csync l) = Inr (0, refresh_age (csync l))"
    by (simp add: syncDataQueue_def sync_test_def)
  then show ?thesis by (simp add: p_def)
qed

lemmas run_chan_defs = refresh_age_def as_size_def end_of_command_def get_data_reset_def Let_def

lemma followed_run:
  assumes "k \<le> 63"
  shows "run_chan 16 (concat (replicate k [BeginCommand, SendWord, Serve 1])) chan_new = Some
    \<lparr>csync = \<lparr>serverDataPos = (if k = 0 then -1 else int (k mod 16)), clientDataExpectedPos = -1, serverResetPosRequired = False,
       s_cachedServerPos = -1, s_cachedServerPosAge = k, s_curBatchStartPos = (if k = 0 then -1 else int ((k - 1) mod 16))\<rparr>,
     written = k, readw = k\<rparr>"
  using assms
proof (induction k)
  case 0
  then show ?case by (simp add: chan_new_def ipc_sync_new_def)
next
  case (Suc k)
  have "k mod 16 < 4294967295" using mod_less_divisor [of 16 k] by linarith
  then show ?case
    unfolding concat_replicate_Suc run_chan_append
    using Suc by (simp add: run_chan_defs word_passes del: run_chan.simps(3))
qed

text \<open>What the test does not see.  On a fresh channel of 16 words whose server has not finished a command, 17 words are let
  through without a stall, so that the first is replaced unread.  After 64 commands of one word that the server
  followed, its position is known to be 15 and is not looked up again: the server works off six more, the client
  writes 21 words, and a command of two words at positions 4 and 5 is let through although position 5 is unread.\<close>

theorem overwrite_test_gaps:
  "map_option (\<lambda>l. (written l, readw l)) (run_chan 16 (concat (replicate 17 [BeginCommand, SendWord])) chan_new) = Some (17, 0)
   \<and> map_option (\<lambda>l. (written l, readw l))
       (run_chan 16 (concat (replicate 63 [BeginCommand, SendWord, Serve 1]) @ concat (replicate 7 [BeginCommand, SendWord])
            @ replicate 6 (Serve 1) @ concat (replicate 14 [BeginCommand, SendWord]) @ [BeginCommand, SendWord, SendWord]) chan_new)
     = Some (86, 69)"
proof
  show "map_option (\<lambda>l. (written l, readw l)) (run_chan 16 (concat (replicate 17 [BeginCommand, SendWord])) chan_new) = Some (17, 0)"
    by (simp add: chan_new_def ipc_sync_new_def run_chan_defs concat_replicate_num word_passes del: run_chan.simps(3))
next
  show "map_option (\<lambda>l. (written l, readw l))
       (run_chan 16 (concat (replicate 63 [BeginCommand, SendWord, Serve 1]) @ concat (replicate 7 [BeginCommand, SendWord])
            @ replicate 6 (Serve 1) @ concat (replicate 14 [BeginCommand, SendWord]) @ [BeginCommand, SendWord, SendWord]) chan_new)
     = Some (86, 69)"
    unfolding run_chan_append [of _ "concat (replicate 63 _)"] followed_run [OF order_refl] Option.bind.bind_lunit
    by (simp add: run_chan_defs concat_replicate_num replicate_num word_passes del: run_chan.simps(3))
qed

end
