(* ===== verification/Bridge_Command.thy ===== *)
theory Bridge_Command
  imports Atomic_Queue Data_Sync
begin

text \<open>
  Commands over the channels, from \<open>util_bridgecommand.h\<close> and \<open>util_bridgecommand.cpp\<close>: the life of a \<open>Command\<close>
  object (the constructor starts the data batch, the destructor pushes the header with its retry loop and counts
  the UID), the loop of \<open>waitForCommand\<close>, \<open>ensureQueueEmpty\<close> and \<open>pop_front\<close>, and on the
  server the UID counter \<open>g_rxUID\<close>.  The theory then composes both directions: the headers the client pushes, the
  server that takes them and answers with the UID it counted, and the client that accepts an answer by its UID.
\<close>

section \<open>Headers and timeouts\<close>

text \<open>\<open>Header\<close> of \<open>util_commands.h\<close>, with the first members of the \<open>D3D9Command\<close> enumeration by value.\<close>

record Header =
  h_command :: u16
  h_flags :: u16
  h_dataOffset :: u32
  h_pHandle :: u32

definition Bridge_Any :: u16 where "Bridge_Any = 4"
definition Bridge_Response :: u16 where "Bridge_Response = 5"

text \<open>\<open>BridgeState::ProcessState\<close>, in the order of its members.\<close>

datatype ProcessState = NotInit | Init | Handshaking | Running | DoneProcessing | Exited

primrec processState_rank :: "ProcessState \<Rightarrow> nat" where
  "processState_rank NotInit = 0"
| "processState_rank Init = 1"
| "processState_rank Handshaking = 2"
| "processState_rank Running = 3"
| "processState_rank DoneProcessing = 4"
| "processState_rank Exited = 5"

definition INFINITE :: u32 where "INFINITE = 0xFFFFFFFF"

definition get_default_timeout :: "u32 \<Rightarrow> u32 \<Rightarrow> u32" where
  "get_default_timeout timeout retries = (let default = timeout * retries in
     if timeout \<noteq> 0 \<and> default div timeout \<noteq> retries then INFINITE else default)"

section \<open>The life of a command\<close>

record bridge =
  commands :: "Header acq"
  wdata :: queue_end
  wsync :: ipc_sync
  pbCmdInProgress :: bool
  gbBridgeRunning :: bool
  s_cmdCounter :: u32
  s_cmdUID :: u32

text \<open>The constructor after the pending state batch was flushed.\<close>

definition begin_command :: "bridge \<Rightarrow> bridge or_error" where
  "begin_command b =
     (if pbCmdInProgress b then Inl CommandInProgress
      else bindE (if gbBridgeRunning b then bindE (begin_batch (wdata b)) (\<lambda>(_, d). Inr d) else Inr (wdata b))
        (\<lambda>d. Inr (b\<lparr>wdata := d, pbCmdInProgress := True,
             wsync := (wsync b)\<lparr>s_curBatchStartPos := int (m_pos d)\<rparr>, s_cmdCounter := s_cmdCounter b + 1\<rparr>)))"

text \<open>The destructor up to the first push: the header that will be sent.\<close>

definition close_batch :: "bridge \<Rightarrow> bridge" where
  "close_batch b = b\<lparr>wdata := snd (end_batch (wdata b)), wsync := (wsync b)\<lparr>s_curBatchStartPos := -1\<rparr>\<rparr>"

definition cmd_header :: "u16 \<Rightarrow> u16 \<Rightarrow> u32 \<Rightarrow> bridge \<Rightarrow> Header" where
  "cmd_header command flags hnd b =
     \<lparr>h_command = command, h_flags = flags, h_dataOffset = word_of_nat (m_pos (wdata b)), h_pHandle = hnd\<rparr>"

text \<open>
  The loop around \<open>push\<close>.  One entry of the environment is one call of \<open>push\<close>: what the reader does to the
  queue before it, its clock readings, and the values of \<open>gbBridgeRunning\<close> and the server state
  afterwards.
\<close>

type_synonym push_env = "((Header acq \<Rightarrow> Header acq) \<times> nat) list \<times> bool \<times> ProcessState"

fun push_loop :: "Header \<Rightarrow> nat \<Rightarrow> u32 \<Rightarrow> push_env list \<Rightarrow> u32 \<Rightarrow> Header acq
    \<Rightarrow> (Result \<times> Header acq \<times> bool \<times> ProcessState) option" where
  "push_loop h timeoutMS retries [] numRetries q = None"
| "push_loop h timeoutMS retries ((env, running, srv) # rest) numRetries q =
     (case acq_push timeoutMS h env 0 q of None \<Rightarrow> None
      | Some (result, q1) \<Rightarrow>
          if result \<noteq> Success \<and> numRetries < retries \<and> running \<and> srv = Running
          then push_loop h timeoutMS retries rest (numRetries + 1) q1
          else Some (result, q1, running, srv))"

text \<open>The end of the destructor.\<close>

definition end_push :: "Result \<Rightarrow> bool \<Rightarrow> ProcessState \<Rightarrow> bridge \<Rightarrow> bridge" where
  "end_push result running srv b =
     b\<lparr>gbBridgeRunning := (if processState_rank srv \<ge> processState_rank DoneProcessing then False
                           else if result \<noteq> Success \<and> running then False else running),
       pbCmdInProgress := False,
       s_cmdUID := (if result = Success then s_cmdUID b + 1 else s_cmdUID b)\<rparr>"

definition end_command :: "u16 \<Rightarrow> u16 \<Rightarrow> u32 \<Rightarrow> nat \<Rightarrow> u32 \<Rightarrow> push_env list \<Rightarrow> bridge \<Rightarrow> bridge option" where
  "end_command command flags hnd timeoutMS retries env b =
     (if gbBridgeRunning b
      then let b1 = close_batch b in
        (case push_loop (cmd_header command flags hnd b1) timeoutMS retries env 0 (commands b1) of None \<Rightarrow> None
         | Some (result, q, running, srv) \<Rightarrow> Some (end_push result running srv (b1\<lparr>commands := q\<rparr>)))
      else Some (b\<lparr>pbCmdInProgress := False\<rparr>))"

section \<open>Waiting\<close>

text \<open>What one iteration sees: the result of \<open>peek\<close> with the header, the option \<open>getInfiniteRetries\<close>,
  the early-out signal and \<open>gbBridgeRunning\<close>.\<close>

record wait_obs =
  o_result :: Result
  o_header :: Header
  o_infinite :: bool
  o_earlyOut :: bool
  o_running :: bool

definition uid_ok :: "bool \<Rightarrow> u32 \<Rightarrow> Header \<Rightarrow> bool" where
  "uid_ok verifyUID uidToVerify h \<longleftrightarrow> (verifyUID \<longrightarrow> h_pHandle h = uidToVerify)"

definition accepts :: "u16 \<Rightarrow> bool \<Rightarrow> u32 \<Rightarrow> Header \<Rightarrow> bool" where
  "accepts command verifyUID uidToVerify h \<longleftrightarrow>
     command = Bridge_Any \<or> h_command h = command \<and> uid_ok verifyUID uidToVerify h"

definition full_timeout :: "u32 \<Rightarrow> u32 \<Rightarrow> u32" where
  "full_timeout overrideTimeoutMS commandTimeout = (if overrideTimeoutMS > 0 then overrideTimeoutMS else commandTimeout)"

text \<open>
  The loop: \<open>full\<close> is the full peek timeout; the observations may depend on the timeout \<open>peek\<close> is called
  with.  \<open>None\<close>: the loop is still going when the observations end.
\<close>

fun wait_loop :: "u16 \<Rightarrow> bool \<Rightarrow> u32 \<Rightarrow> u32 \<Rightarrow> u32 \<Rightarrow> (u32 \<Rightarrow> wait_obs) list \<Rightarrow> u32 \<Rightarrow> bool \<Rightarrow> u32 \<Rightarrow> Result option" where
  "wait_loop command verifyUID uidToVerify full maxAttempts [] peekTimeoutMS infiniteRetries attemptNum = None"
| "wait_loop command verifyUID uidToVerify full maxAttempts (ob1 # obs) peekTimeoutMS infiniteRetries attemptNum =
     (let ob = ob1 peekTimeoutMS;
          go = (\<lambda>pt ir a. if \<not> o_earlyOut ob \<and> a \<le> maxAttempts \<and> o_running ob
                  then wait_loop command verifyUID uidToVerify full maxAttempts obs pt ir (a + 1)
                  else Some Timeout)
      in case o_result ob of
           Success \<Rightarrow> if accepts command verifyUID uidToVerify (o_header ob) then Some Success
                      else go peekTimeoutMS infiniteRetries attemptNum
         | Timeout \<Rightarrow> if o_infinite ob then go 1 True (if attemptNum > 0 then attemptNum - 1 else attemptNum)
                      else if infiniteRetries then go full False attemptNum
                      else go peekTimeoutMS infiniteRetries attemptNum
         | Failure \<Rightarrow> Some Failure)"

definition waitForCommand :: "u16 \<Rightarrow> u32 \<Rightarrow> bool \<Rightarrow> u32 \<Rightarrow> u32 \<Rightarrow> u32 \<Rightarrow> (u32 \<Rightarrow> wait_obs) list \<Rightarrow> Result option" where
  "waitForCommand command overrideTimeoutMS verifyUID uidToVerify commandTimeout maxAttempts obs =
     (let full = full_timeout overrideTimeoutMS commandTimeout in
      wait_loop command verifyUID uidToVerify full maxAttempts obs full False 0)"

text \<open>\<open>ensureQueueEmpty\<close>, for a queue that was not empty: each iteration gives the result of a peek of one
  millisecond and \<open>gbBridgeRunning\<close>.\<close>

fun drain_loop :: "u32 \<Rightarrow> (Result \<times> bool) list \<Rightarrow> u32 \<Rightarrow> Result option" where
  "drain_loop maxAttempts [] attemptNum = None"
| "drain_loop maxAttempts ((result, running) # os) attemptNum =
     (if result = Timeout then Some Success
      else if attemptNum \<le> maxAttempts \<and> running then drain_loop maxAttempts os (attemptNum + 1) else Some Timeout)"

definition ensureQueueEmpty :: "bool \<Rightarrow> u32 \<Rightarrow> (Result \<times> bool) list \<Rightarrow> Result option" where
  "ensureQueueEmpty emptyNow maxAttempts obs = (if emptyNow then Some Success else drain_loop maxAttempts obs 0)"

section \<open>Both directions together\<close>

text \<open>A queue whose reader can look at the first element without taking it.\<close>

locale peek_queue = fifo_queue enq deq fl contents wf published
  for enq :: "'a \<Rightarrow> 's \<Rightarrow> bool \<times> 's" and deq :: "'s \<Rightarrow> 'a option \<times> 's" and fl :: "'s \<Rightarrow> 's"
    and contents :: "'s \<Rightarrow> 'a list" and wf :: "'s \<Rightarrow> bool" and published :: "'s \<Rightarrow> bool" +
  fixes pk :: "'s \<Rightarrow> 'a option \<times> 's"
  assumes peek_law: "wf s \<Longrightarrow> pk s = (r, s1) \<Longrightarrow> wf s1 \<and> contents s1 = contents s \<and> fst (deq s1) = r"

text \<open>
  The two processes after the handshake.  \<open>sending\<close> is the header of the command whose destructor is in its loop.
  The last four fields record the history: the headers pushed, the headers the server took with the UID it gave
  them, for each answer the position of the command it answers, and the answers the client accepted with the UID
  it waited for.
\<close>

record 'q link =
  to_server :: 'q
  to_client :: 'q
  running :: bool
  sending :: "Header option"
  cmd_uid :: u32
  rx_uid :: u32
  issued :: "Header list"
  taken :: "(u32 \<times> Header) list"
  answers :: "nat list"
  accepted :: "(u32 \<times> nat) list"

inductive link_step :: "(Header \<Rightarrow> 'q \<Rightarrow> bool \<times> 'q) \<Rightarrow> ('q \<Rightarrow> Header option \<times> 'q) \<Rightarrow> ('q \<Rightarrow> 'q) \<Rightarrow> ('q \<Rightarrow> Header option \<times> 'q) \<Rightarrow>
    'q link \<Rightarrow> 'q link \<Rightarrow> bool" for enq deq fl pk where
  begin_send: "sending l = None \<Longrightarrow> running l \<Longrightarrow> link_step enq deq fl pk l (l\<lparr>sending := Some h\<rparr>)"
| push_done: "sending l = Some h \<Longrightarrow> enq h (to_server l) = (True, q) \<Longrightarrow>
    link_step enq deq fl pk l (l\<lparr>to_server := q, sending := None, cmd_uid := cmd_uid l + 1, issued := issued l @ [h]\<rparr>)"
| push_full: "sending l = Some h \<Longrightarrow> enq h (to_server l) = (False, q) \<Longrightarrow> link_step enq deq fl pk l (l\<lparr>to_server := q\<rparr>)"
| give_up: "sending l = Some h \<Longrightarrow> link_step enq deq fl pk l (l\<lparr>sending := None, running := False\<rparr>)"
| bridge_off: "link_step enq deq fl pk l (l\<lparr>running := False\<rparr>)"
| flush_commands: "link_step enq deq fl pk l (l\<lparr>to_server := fl (to_server l)\<rparr>)"
| take_command: "deq (to_server l) = (Some h, q) \<Longrightarrow>
    link_step enq deq fl pk l (l\<lparr>to_server := q, taken := taken l @ [(rx_uid l, h)], rx_uid := rx_uid l + 1\<rparr>)"
| take_none: "deq (to_server l) = (None, q) \<Longrightarrow> link_step enq deq fl pk l (l\<lparr>to_server := q\<rparr>)"
| send_answer: "taken l \<noteq> [] \<Longrightarrow> h_command r = Bridge_Response \<Longrightarrow> h_pHandle r = fst (last (taken l)) \<Longrightarrow>
    enq r (to_client l) = (True, q) \<Longrightarrow>
    link_step enq deq fl pk l (l\<lparr>to_client := q, answers := answers l @ [length (taken l) - 1]\<rparr>)"
| answer_full: "enq r (to_client l) = (False, q) \<Longrightarrow> link_step enq deq fl pk l (l\<lparr>to_client := q\<rparr>)"
| look_for_answer: "pk (to_client l) = (r, q) \<Longrightarrow> link_step enq deq fl pk l (l\<lparr>to_client := q\<rparr>)"
| accept_answer: "pk (to_client l) = (Some r, q1) \<Longrightarrow> accepts Bridge_Response True u r \<Longrightarrow> deq q1 = (r', q2) \<Longrightarrow>
    link_step enq deq fl pk l (l\<lparr>to_client := q2, accepted := accepted l @ [(u, answers l ! length (accepted l))]\<rparr>)"

definition link_new :: "'q \<Rightarrow> 'q link" where
  "link_new q = \<lparr>to_server = q, to_client = q, running = True, sending = None, cmd_uid = 0, rx_uid = 0,
     issued = [], taken = [], answers = [], accepted = []\<rparr>"

text \<open>What the counters and the histories have in common, given the contents of the two queues.\<close>

definition link_inv :: "Header list \<Rightarrow> Header list \<Rightarrow> 'q link \<Rightarrow> bool" where
  "link_inv cs rs l \<longleftrightarrow> issued l = map snd (taken l) @ cs
   \<and> map fst (taken l) = map word_of_nat [0..<length (taken l)]
   \<and> cmd_uid l = word_of_nat (length (issued l)) \<and> rx_uid l = word_of_nat (length (taken l))
   \<and> map h_pHandle rs = map word_of_nat (drop (length (accepted l)) (answers l))
   \<and> length (accepted l) \<le> length (answers l)
   \<and> (\<forall>k \<in> set (answers l). k < length (taken l))
   \<and> (\<forall>(u, k) \<in> set (accepted l). u = word_of_nat k \<and> k < length (taken l))"

lemma link_inv_send: "link_inv cs rs l \<Longrightarrow>
    link_inv (cs @ [h]) rs (l\<lparr>to_server := q, sending := None, cmd_uid := cmd_uid l + 1, issued := issued l @ [h]\<rparr>)"
  by (simp add: link_inv_def)

lemma link_inv_take: "link_inv (h # cs) rs l \<Longrightarrow>
    link_inv cs rs (l\<lparr>to_server := q, taken := taken l @ [(rx_uid l, h)], rx_uid := rx_uid l + 1\<rparr>)"
  by (auto simp: link_inv_def)

lemma last_taken: "link_inv cs rs l \<Longrightarrow> taken l \<noteq> [] \<Longrightarrow> fst (last (taken l)) = word_of_nat (length (taken l) - 1)"
  by (cases "taken l" rule: rev_cases) (auto simp: link_inv_def)

lemma link_inv_answer: "link_inv cs rs l \<Longrightarrow> taken l \<noteq> [] \<Longrightarrow> h_pHandle r = fst (last (taken l)) \<Longrightarrow>
    link_inv cs (rs @ [r]) (l\<lparr>to_client := q, answers := answers l @ [length (taken l) - 1]\<rparr>)"
  using last_taken [of cs rs l] by (auto simp: link_inv_def)

lemma link_inv_accept:
  assumes inv: "link_inv cs (r # rs) l" and u: "h_pHandle r = u"
  shows "link_inv cs rs (l\<lparr>to_client := q, accepted := accepted l @ [(u, answers l ! length (accepted l))]\<rparr>)"
proof -
  let ?n = "length (accepted l)"
  have "drop ?n (answers l) \<noteq> []" using inv by (auto simp: link_inv_def)
  then have lt: "?n < length (answers l)" by simp
  then have "drop ?n (answers l) = answers l ! ?n # drop (Suc ?n) (answers l)" by (simp add: Cons_nth_drop_Suc)
  then show ?thesis using inv u lt by (auto simp: link_inv_def)
qed

text \<open>The link over two queues of headers.\<close>

locale command_link = peek_queue enq deq fl contents wf published pk
  for enq :: "Header \<Rightarrow> 's \<Rightarrow> bool \<times> 's" and deq :: "'s \<Rightarrow> Header option \<times> 's" and fl :: "'s \<Rightarrow> 's"
    and contents :: "'s \<Rightarrow> Header list" and wf :: "'s \<Rightarrow> bool" and published :: "'s \<Rightarrow> bool" and pk :: "'s \<Rightarrow> Header option \<times> 's"
begin

lemma link_step_inv:
  assumes "link_step enq deq fl pk l l'"
    and "wf (to_server l)" "wf (to_client l)" and "link_inv (contents (to_server l)) (contents (to_client l)) l"
  shows "wf (to_server l') \<and> wf (to_client l') \<and> link_inv (contents (to_server l')) (contents (to_client l')) l'"
  using assms
proof cases
  case (push_done h q)
  then show ?thesis using enq_law [OF assms(2) push_done(3)] link_inv_send [OF assms(4)] assms(3) by simp
next
  case (take_command h q)
  then show ?thesis
    using deq_some_law [OF assms(2) take_command(2)] link_inv_take [of h "contents q"] assms(3,4) by simp
next
  case (send_answer r q)
  then show ?thesis
    using enq_law [OF assms(3) send_answer(5)] link_inv_answer [OF assms(4)] assms(2) by simp
next
  case (accept_answer r q1 u r' q2)
  note p = peek_law [OF assms(3) accept_answer(2)]
  then have d: "deq q1 = (Some r, q2)" using accept_answer(4) by simp
  have "wf q2" "contents (to_client l) = r # contents q2" using deq_some_law [OF _ d] p by auto
  moreover have "h_pHandle r = u"
    using accept_answer(3) by (simp add: accepts_def uid_ok_def Bridge_Any_def Bridge_Response_def)
  ultimately show ?thesis using link_inv_accept [of _ r "contents q2" l u] assms(2,4) accept_answer(1) by simp
qed (use enq_law [OF assms(2)] deq_none_law [OF assms(2)] flush_law [OF assms(2)] enq_law [OF assms(3)] peek_law [OF assms(3)]
    in \<open>auto simp: link_inv_def\<close>)

lemma link_reachable_inv:
  assumes "(link_step enq deq fl pk)\<^sup>*\<^sup>* (link_new q0) l" and "wf q0" and "contents q0 = []"
  shows "link_inv (contents (to_server l)) (contents (to_client l)) l"
proof -
  have "wf (to_server l) \<and> wf (to_client l) \<and> link_inv (contents (to_server l)) (contents (to_client l)) l"
    using assms(1)
  proof (induction rule: rtranclp_induct)
    case base
    then show ?case using assms(2,3) by (simp add: link_new_def link_inv_def)
  next
    case (step y z)
    then show ?case using link_step_inv [OF step(2)] by simp
  qed
  then show ?thesis by simp
qed

end

text \<open>The command queue is such a queue.\<close>

lemma refresh_producer_wf:
  assumes "queue_wf q"
  shows "queue_wf (refresh_producer q)"
proof -
  obtain snt rcv where inv: "spsc_inv \<lparr>queue = q, ppc = PIdle, cpc = CIdle, sent = snt, rcvd = rcv\<rparr>"
    (is "spsc_inv ?s") using assms by (auto simp: queue_wf_def)
  have "spsc_inv (?s\<lparr>queue := refresh_producer q\<rparr>)"
    using consumer_step_inv [OF look [of ?s] inv] by simp
  then show ?thesis unfolding queue_wf_def by auto
qed

lemma fresh_queue: "2 \<le> n \<Longrightarrow> queue_wf (acq_new n d) \<and> ring_contents (acq_new n d) = []"
  using spsc_inv_init [of n d] by (auto simp: queue_wf_def spsc_init_def ring_contents_def acq_new_def)

lemma peek_iter_law:
  assumes "queue_wf s" and "peek_iter s = (r, s1)"
  shows "queue_wf s1 \<and> ring_contents s1 = ring_contents s \<and> fst (pull_iter s1) = r"
proof -
  have s1: "s1 = refresh_producer s" using assms(2) by (auto simp: peek_iter_def Let_def split: if_splits)
  have r: "fst (pull_iter s1) = r"
    using assms(2) s1
    by (auto simp: peek_iter_def pull_iter_def refresh_producer_def copy_out_def release_slot_def Let_def split: if_splits)
  have c: "ring_contents s1 = ring_contents s" by (simp add: s1 refresh_producer_def ring_contents_def)
  show ?thesis using refresh_producer_wf [OF assms(1)] s1 r c by simp
qed

interpretation acq_link: command_link push_iter pull_iter acq_flush ring_contents queue_wf "\<lambda>q. m_pending q = 0" peek_iter
  by unfold_locales (rule peek_iter_law)

section \<open>Properties\<close>

text \<open>C12. The UIDs of client and server agree, and an accepted answer belongs to the command that was waited for.  In every state the two
  processes can reach over their command queues, under every order of pushes, retries, flushes, pulls, answers and
  waits: the client has counted as many UIDs as it pushed headers; the \<open>i\<close>-th header the server takes is the
  \<open>i\<close>-th the client pushed and gets the UID \<open>i\<close> (modulo $2^{32}$); and an answer the client accepts
  while it waits for UID \<open>u\<close> was sent for a command with UID \<open>u\<close>, which is that very command as long as fewer
  than $2^{32}$ commands were pushed.\<close>

theorem answers_match_commands:
  assumes "(link_step push_iter pull_iter acq_flush peek_iter)\<^sup>*\<^sup>* (link_new (acq_new n d)) l" and "2 \<le> n"
  shows "cmd_uid l = word_of_nat (length (issued l))
    \<and> (\<forall>i < length (taken l). taken l ! i = (word_of_nat i, issued l ! i))
    \<and> (\<forall>(u, k) \<in> set (accepted l). k < length (issued l) \<and> u = word_of_nat k
         \<and> (length (issued l) < 2 ^ 32 \<longrightarrow> k = unat u))"
proof -
  have inv: "link_inv (ring_contents (to_server l)) (ring_contents (to_client l)) l"
    using acq_link.link_reachable_inv [OF assms(1)] fresh_queue [OF assms(2), of d] by blast
  have "taken l ! i = (word_of_nat i, issued l ! i)" if "i < length (taken l)" for i
    using inv that by (intro prod_eqI) (auto simp: link_inv_def nth_append dest: arg_cong [where f = "\<lambda>xs. xs ! i"])
  moreover have "k < length (issued l) \<and> u = word_of_nat k \<and> (length (issued l) < 2 ^ 32 \<longrightarrow> k = unat u)"
    if "(u, k) \<in> set (accepted l)" for u k
    using inv that by (auto simp: link_inv_def unat_of_nat)
  ultimately show ?thesis using inv by (auto simp: link_inv_def)
qed

text \<open>One command and its answer.\<close>

definition demo_header :: "u16 \<Rightarrow> u32 \<Rightarrow> Header" where
  "demo_header c hnd = \<lparr>h_command = c, h_flags = 0, h_dataOffset = 0, h_pHandle = hnd\<rparr>"

theorem answers_match_commands_witness:
  "\<exists>l. (link_step push_iter pull_iter acq_flush peek_iter)\<^sup>*\<^sup>* (link_new (acq_new 4 (demo_header 0 0))) l
     \<and> accepted l = [(0, 0)] \<and> taken l = [(0, demo_header 40 7)]"
proof -
  let ?R = "link_step push_iter pull_iter acq_flush peek_iter" and ?h = "demo_header 40 7" and ?r = "demo_header 5 0"
  let ?q = "acq_new 4 (demo_header 0 0)"
  note q = acq_new_def push_iter_def pull_iter_def peek_iter_def refresh_consumer_def refresh_producer_def store_elem_def publish_def
    queueIdxInc_def copy_out_def release_slot_def
  obtain q1 where q1: "push_iter ?h ?q = (True, q1)" and "fst (pull_iter q1) = Some ?h"
    by (simp add: q numeral_eq_Suc)
  then obtain q1' where q1': "pull_iter q1 = (Some ?h, q1')" by (cases "pull_iter q1") auto
  obtain q2 where q2: "push_iter ?r ?q = (True, q2)" and "fst (peek_iter q2) = Some ?r"
    by (simp add: q numeral_eq_Suc)
  then obtain p where p: "peek_iter q2 = (Some ?r, p)" by (cases "peek_iter q2") auto
  let ?l0 = "link_new ?q" and ?l1 = "(link_new ?q)\<lparr>sending := Some ?h\<rparr>"
  let ?l2 = "?l1\<lparr>to_server := q1, sending := None, cmd_uid := cmd_uid ?l1 + 1, issued := issued ?l1 @ [?h]\<rparr>"
  let ?l3 = "?l2\<lparr>to_server := q1', taken := taken ?l2 @ [(rx_uid ?l2, ?h)], rx_uid := rx_uid ?l2 + 1\<rparr>"
  let ?l4 = "?l3\<lparr>to_client := q2, answers := answers ?l3 @ [length (taken ?l3) - 1]\<rparr>"
  let ?l5 = "?l4\<lparr>to_client := snd (pull_iter p), accepted := accepted ?l4 @ [(0, answers ?l4 ! length (accepted ?l4))]\<rparr>"
  have 1: "?R ?l0 ?l1" by (rule link_step.begin_send) (simp_all add: link_new_def)
  have 2: "?R ?l1 ?l2" by (rule link_step.push_done) (simp_all add: link_new_def q1)
  have 3: "?R ?l2 ?l3" by (rule link_step.take_command) (simp add: q1')
  have 4: "?R ?l3 ?l4" by (rule link_step.send_answer [where r = ?r]) (simp_all add: link_new_def q2 [unfolded demo_header_def] demo_header_def Bridge_Response_def)
  have 5: "?R ?l4 ?l5"
    by (rule link_step.accept_answer [where r = ?r and ?q1.0 = p]) (simp_all add: p [unfolded demo_header_def] prod_eq_iff accepts_def uid_ok_def demo_header_def Bridge_Response_def)
  have run: "?R\<^sup>*\<^sup>* ?l0 ?l5"
    by (rule rtranclp.rtrancl_into_rtrancl [where r = ?R, OF _ 5], rule rtranclp.rtrancl_into_rtrancl [where r = ?R, OF _ 4],
        rule rtranclp.rtrancl_into_rtrancl [where r = ?R, OF _ 3], rule rtranclp.rtrancl_into_rtrancl [where r = ?R, OF _ 2],
        rule r_into_rtranclp [where r = ?R, OF 1])
  have "taken ?l5 ! 0 = (word_of_nat 0, issued ?l5 ! 0)"
    using answers_match_commands [OF run] by (simp add: link_new_def)
  then have "taken ?l5 = [(0, ?h)]" by (simp add: link_new_def)
  then show ?thesis by (intro exI [of _ ?l5] conjI run) (simp_all add: link_new_def)
qed

lemma unat_Suc_le: "unat (a::u32) \<le> unat m \<Longrightarrow> unat (m::u32) < 2 ^ 32 - 1 \<Longrightarrow> unat (a + 1) = unat a + 1"
  by (simp add: unat_word_ariths)

text \<open>The number of iterations that are left when no infinite retries are asked for.\<close>

lemma wait_loop_returns:
  assumes "\<forall>ob \<in> set obs. \<forall>p. \<not> o_infinite (ob p)" and "unat maxAttempts < 2 ^ 32 - 1"
    and "unat maxAttempts + 1 < length obs + unat a" and "unat a \<le> unat maxAttempts + 1"
  shows "\<exists>r. wait_loop command verifyUID uid full maxAttempts obs pt ir a = Some r
    \<and> (r = Success \<longrightarrow> (\<exists>ob \<in> set obs. \<exists>p. o_result (ob p) = Success \<and> accepts command verifyUID uid (o_header (ob p))))"
  using assms
proof (induction obs arbitrary: pt ir a)
  case Nil
  then show ?case by simp
next
  case (Cons ob obs)
  have IH: "\<exists>r. wait_loop command verifyUID uid full maxAttempts obs pt' ir' (a + 1) = Some r
    \<and> (r = Success \<longrightarrow> (\<exists>ob \<in> set obs. \<exists>p. o_result (ob p) = Success \<and> accepts command verifyUID uid (o_header (ob p))))"
    if "a \<le> maxAttempts" for pt' ir'
    using Cons.IH [of "a + 1"] Cons.prems unat_Suc_le [of a maxAttempts] that by (simp add: word_le_nat_alt)
  have ni: "\<not> o_infinite (ob pt)" using Cons.prems(1) by simp
  show ?case
  proof (cases "o_result (ob pt)")
    case Success
    then show ?thesis
      using IH [of pt ir] by (cases "accepts command verifyUID uid (o_header (ob pt))") (auto simp: Let_def)
  next
    case Timeout
    then show ?thesis using IH [of full False] IH [of pt ir] ni by (cases ir) (auto simp: Let_def)
  qed (simp add: Let_def)
qed

lemma wait_loop_quiet:
  assumes "\<And>p. ob p = \<lparr>o_result = Timeout, o_header = h, o_infinite = False, o_earlyOut = False, o_running = True\<rparr>"
    and "unat maxAttempts < 2 ^ 32 - 1" and "unat a \<le> unat maxAttempts + 1"
  shows "wait_loop command verifyUID uid full maxAttempts (replicate n ob) pt False a
    = (if n + unat a \<le> unat maxAttempts + 1 then None else Some Timeout)"
  using assms(3)
proof (induction n arbitrary: pt a)
  case (Suc n)
  show ?case
  proof (cases "a \<le> maxAttempts")
    case True
    then show ?thesis
      using Suc.IH [of "a + 1" pt] unat_Suc_le [of a maxAttempts] assms(2) by (simp add: assms(1) Let_def word_le_nat_alt)
  next
    case False
    then show ?thesis by (simp add: assms(1) Let_def word_le_nat_alt)
  qed
qed simp

text \<open>With infinite retries the attempts are given back, so nothing but an answer ends the loop.\<close>

lemma wait_loop_forever:
  assumes "\<And>p. ob p = \<lparr>o_result = Timeout, o_header = h, o_infinite = True, o_earlyOut = False, o_running = True\<rparr>" and "a \<le> 1"
  shows "wait_loop command verifyUID uid full maxAttempts (replicate n ob) pt ir a = None"
  using assms(2)
proof (induction n arbitrary: pt ir a)
  case (Suc n)
  have "a = 0 \<or> a = 1"
  proof (cases "unat a")
    case 0
    then show ?thesis by (simp add: unat_eq_zero)
  next
    case (Suc k)
    then have "unat a = unat (1::u32)" using \<open>a \<le> 1\<close> by (simp add: word_le_nat_alt)
    then show ?thesis by (simp add: word_unat_eq_iff)
  qed
  then have "(if a > 0 then a - 1 else a) = 0" by auto
  then show ?case using Suc.IH [of 1 1 True] by (simp add: assms(1) Let_def)
qed simp

text \<open>C27. \<open>waitForCommand\<close> returns.  Unless infinite retries are asked for, and with fewer than $2^{32}-1$ attempts configured, it
  returns after at most \<open>maxAttempts + 2\<close> peeks, whatever these see, and it returns \<open>Success\<close> only on a header that is the
  command asked for with the UID asked for.  When nothing arrives it makes exactly \<open>maxAttempts + 2\<close> peeks; with infinite
  retries it never returns then.\<close>

theorem wait_returns:
  assumes "unat maxAttempts < 2 ^ 32 - 1"
  shows "(length obs = unat maxAttempts + 2 \<and> (\<forall>ob \<in> set obs. \<forall>p. \<not> o_infinite (ob p)) \<longrightarrow>
      (\<exists>r. waitForCommand command over verifyUID uid timeout maxAttempts obs = Some r
        \<and> (r = Success \<longrightarrow> (\<exists>ob \<in> set obs. \<exists>p. o_result (ob p) = Success \<and> accepts command verifyUID uid (o_header (ob p))))))
    \<and> waitForCommand command over verifyUID uid timeout maxAttempts
        (replicate n (\<lambda>p. \<lparr>o_result = Timeout, o_header = h, o_infinite = False, o_earlyOut = False, o_running = True\<rparr>))
      = (if n \<le> unat maxAttempts + 1 then None else Some Timeout)
    \<and> waitForCommand command over verifyUID uid timeout maxAttempts
        (replicate n (\<lambda>p. \<lparr>o_result = Timeout, o_header = h, o_infinite = True, o_earlyOut = False, o_running = True\<rparr>)) = None"
  using wait_loop_returns [of obs maxAttempts 0] wait_loop_quiet [of _ h maxAttempts 0] assms
  by (simp add: waitForCommand_def Let_def wait_loop_forever)

theorem wait_returns_witness:
  "waitForCommand Bridge_Response 0 True 3 1000 2
     (replicate 4 (\<lambda>p. \<lparr>o_result = Timeout, o_header = demo_header 5 3, o_infinite = False, o_earlyOut = False, o_running = True\<rparr>)) = Some Timeout"
  using wait_returns [of 2 "[]" Bridge_Response 0 True 3 1000 4 "demo_header 5 3"] by simp

lemma push_loop_returns:
  assumes "\<forall>(env1, _) \<in> set env. \<forall>q. acq_push timeoutMS h env1 0 q \<noteq> None" and "unat numRetries \<le> unat retries"
    and "unat retries < length env + unat numRetries"
  shows "\<exists>result q1 running srv. push_loop h timeoutMS retries env numRetries q = Some (result, q1, running, srv)"
  using assms
proof (induction env arbitrary: numRetries q)
  case (Cons e env)
  obtain env1 running srv where e: "e = (env1, running, srv)" by (cases e)
  then have "acq_push timeoutMS h env1 0 q \<noteq> None" using Cons.prems(1) by auto
  then obtain result q1 where p: "acq_push timeoutMS h env1 0 q = Some (result, q1)" by auto
  have "\<exists>result q2 running srv. push_loop h timeoutMS retries env (numRetries + 1) q1 = Some (result, q2, running, srv)"
    if "numRetries < retries"
  proof -
    have lt: "unat numRetries < unat retries" using that by (simp add: word_less_nat_alt)
    then have "unat (numRetries + 1) = unat numRetries + 1"
      using unsigned_less [of retries, where 'a = nat] by (simp add: unat_word_ariths)
    then show ?thesis using Cons.IH [of "numRetries + 1" q1] Cons.prems lt by simp
  qed
  then show ?case using e p by auto
qed simp

text \<open>The destructor ends, and a command that was not sent leaves the bridge off.  When every single \<open>push\<close> returns, it is called
  at most \<open>retries + 1\<close> times; afterwards no command is in progress, and if the bridge is still on, the header was
  pushed and the UID counted once, so that no command of a live bridge is missing in the count.\<close>

theorem destructor_ends:
  assumes "length env = unat retries + 1"
    and "\<forall>(env1, _) \<in> set env. \<forall>q. acq_push timeoutMS (cmd_header command flags hnd (close_batch b)) env1 0 q \<noteq> None"
  shows "\<exists>b'. end_command command flags hnd timeoutMS retries env b = Some b' \<and> \<not> pbCmdInProgress b'
    \<and> (gbBridgeRunning b' \<longrightarrow> gbBridgeRunning b \<and> s_cmdUID b' = s_cmdUID b + 1)
    \<and> (s_cmdUID b' = s_cmdUID b \<or> s_cmdUID b' = s_cmdUID b + 1)"
proof (cases "gbBridgeRunning b")
  case True
  let ?h = "cmd_header command flags hnd (close_batch b)"
  obtain result q1 running srv where "push_loop ?h timeoutMS retries env 0 (commands (close_batch b)) = Some (result, q1, running, srv)"
    using push_loop_returns [OF assms(2), of 0 retries "commands (close_batch b)"] assms(1) by auto
  moreover have "s_cmdUID (close_batch b) = s_cmdUID b" by (simp add: close_batch_def)
  ultimately show ?thesis using True by (simp add: end_command_def end_push_def Let_def)
qed (simp add: end_command_def)

text \<open>A fresh bridge that sends one header.\<close>

theorem destructor_ends_witness:
  "\<exists>b b'. end_command 40 0 7 3 0 [([(id, 1), (id, 5)], True, Running)] b = Some b' \<and> gbBridgeRunning b \<and> \<not> pbCmdInProgress b'"
proof -
  let ?b = "\<lparr>commands = acq_new 4 (demo_header 0 0), wdata = cq_new 64, wsync = ipc_sync_new, pbCmdInProgress = True,
    gbBridgeRunning = True, s_cmdCounter = 1, s_cmdUID = 0\<rparr>"
  have "acq_push 3 h [(id, 1), (id, 5)] 0 q \<noteq> None" for h and q :: "Header acq"
    by (subst acq_push.simps, subst acq_push.simps) (simp split: prod.splits bool.splits)
  then obtain b' where "end_command 40 0 7 3 0 [([(id, 1), (id, 5)], True, Running)] ?b = Some b'" "\<not> pbCmdInProgress b'"
    using destructor_ends [where retries = 0 and timeoutMS = 3 and env = "[([(id, 1), (id, 5)], True, Running)]" and b = ?b and command = 40 and flags = 0 and hnd = 7]
    by auto
  then show ?thesis by (intro exI [of _ ?b] exI [of _ b']) simp
qed

end
