(* ===== verification/Swap_Chain.thy ===== *)
theory Swap_Chain
  imports Server_Dispatch Present_Params
begin

text \<open>
  Swap chains (\<open>d3d9_swapchain.h\<close>, \<open>d3d9_swapchain.cpp\<close>, and the functions of \<open>d3d9_device.cpp\<close> that create
  them): the messages the constructor of \<open>Direct3DSwapChain9_LSS\<close> and the implicit objects of a device send, what
  the server makes of them on its handle tables, and the presentation loop of both processes with
  its semaphore.  The Direct3D runtime of the server is a parameter: what a method called on an
  object returns.
\<close>

section \<open>The client\<close>

text \<open>A command with the handle of its header.\<close>

type_synonym cmd = "u32 \<times> wire"

text \<open>
  The messages of the constructor.  \<open>bufs\<close> are the ids of the wrappers it creates for the back buffers,
  one for each of the \<open>BackBufferCount\<close> children.
\<close>

definition link_buffer :: "u32 \<Rightarrow> nat \<times> u32 \<Rightarrow> cmd" where
  "link_buffer chain ib = (chain, ''SwapChain9_GetBackBuffer'', [Word (word_of_nat (fst ib)), Word 0, Word (snd ib)])"

definition new_SwapChain :: "u32 \<Rightarrow> u32 \<Rightarrow> u32 list \<Rightarrow> cmd list" where
  "new_SwapChain device chain bufs = (device, ''LinkSwapchain'', [Word chain]) # map (link_buffer chain) (enumerate 0 bufs)"

text \<open>\<open>CreateAdditionalSwapChain\<close>; \<open>raw\<close> are the bytes of the completed parameters.\<close>

definition dev_CreateAdditionalSwapChain :: "memory option \<Rightarrow> u32 \<Rightarrow> u32 \<Rightarrow> u32 list \<Rightarrow> cmd list option" where
  "dev_CreateAdditionalSwapChain pPresentationParameters device chain bufs =
     (case pPresentationParameters of None \<Rightarrow> None
      | Some raw \<Rightarrow> Some (new_SwapChain device chain bufs
          @ [(device, ''CreateAdditionalSwapChain'', [Word chain, Obj (Some raw)])]))"

text \<open>\<open>initImplicitSwapchain\<close>, \<open>initImplicitRenderTarget\<close>, \<open>initImplicitDepthStencil\<close>: \<open>gamma\<close> are the messages of
  \<open>SetGammaRamp\<close> when the windowed mode changed.\<close>

definition initImplicitObjects :: "u32 \<Rightarrow> u32 \<Rightarrow> u32 list \<Rightarrow> cmd list \<Rightarrow> u32 \<Rightarrow> u32 option \<Rightarrow> cmd list" where
  "initImplicitObjects device chain bufs gamma target depth =
     new_SwapChain device chain bufs @ gamma
     @ [(device, ''LinkBackBuffer'', [Word 0, Word target])]
     @ (case depth of None \<Rightarrow> [] | Some z \<Rightarrow> [(device, ''LinkAutoDepthStencil'', [Word z])])"

section \<open>The server\<close>

definition on_SwapChain9_Present :: "bool \<Rightarrow> decoder" where
  "on_SwapChain9_Present presentSemaphoreEnabled = pull_data (\<lambda>pSourceRect. pull_data (\<lambda>pDestRect. pull (\<lambda>hDestWindowOverride.
     pull_data (\<lambda>pDirtyRegion. pull (\<lambda>dwFlags. (\<lambda>h. call ((request (Some (SwapChains, h)) ''Present''
       [P pSourceRect, P pDestRect, W hDestWindowOverride, P pDirtyRegion, W dwFlags] NoAnswer)
       \<lparr>releases_present := presentSemaphoreEnabled\<rparr>) h))))))"

definition on_SwapChain9_GetFrontBufferData :: decoder where
  "on_SwapChain9_GetFrontBufferData = pull (\<lambda>pDestSurfaceHandle. (\<lambda>h. call (request (Some (SwapChains, h)) ''GetFrontBufferData''
     [H Resources pDestSurfaceHandle] AlwaysAnswer) h))"

definition on_SwapChain9_GetBackBuffer :: decoder where
  "on_SwapChain9_GetBackBuffer = pull (\<lambda>iBackBuffer. pull (\<lambda>Type. pull (\<lambda>pSurfaceHandle.
     (\<lambda>h. call ((request (Some (SwapChains, h)) ''GetBackBuffer'' [W iBackBuffer, W Type, Out] OptionalAnswer)
        \<lparr>stores := Some (Resources, pSurfaceHandle)\<rparr>) h))))"

definition dec_swapchain9 :: "(string \<times> decoder) list" where
  "dec_swapchain9 = [(''SwapChain9_Present'', on_SwapChain9_Present True),
     (''SwapChain9_GetFrontBufferData'', on_SwapChain9_GetFrontBufferData),
     (''SwapChain9_GetBackBuffer'', on_SwapChain9_GetBackBuffer)]"

definition dispatch_swap :: "string \<Rightarrow> decoder" where
  "dispatch_swap n = (case map_of dec_swapchain9 n of Some k \<Rightarrow> k | None \<Rightarrow> dispatch n)"

text \<open>
  The handle tables, and the runtime: the object a method yields through its output argument, \<open>None\<close> when it
  fails.  A handle that is not in the table of the receiver is a null pointer.
\<close>

type_synonym tables = "table \<Rightarrow> u32 \<Rightarrow> ptr option"
type_synonym runtime = "ptr \<Rightarrow> string \<Rightarrow> api_arg list \<Rightarrow> ptr option"

definition store_result :: "(table \<times> u32) option \<Rightarrow> ptr option \<Rightarrow> tables \<Rightarrow> tables" where
  "store_result st r T = (case st of None \<Rightarrow> T
     | Some (t, h) \<Rightarrow> (case r of None \<Rightarrow> T | Some p \<Rightarrow> T(t := (T t)(h \<mapsto> p))))"

definition exec_req :: "runtime \<Rightarrow> req \<Rightarrow> tables \<Rightarrow> tables or_error" where
  "exec_req rt q T = (case recv q of None \<Rightarrow> Inr T
     | Some (t, h) \<Rightarrow> (case T t h of None \<Rightarrow> Inl NullDereference
         | Some p \<Rightarrow> Inr (store_result (stores q) (rt p (meth q) (args q)) T)))"

fun exec_reqs :: "runtime \<Rightarrow> req list \<Rightarrow> tables \<Rightarrow> tables or_error" where
  "exec_reqs rt [] T = Inr T"
| "exec_reqs rt (q # qs) T = bindE (exec_req rt q T) (exec_reqs rt qs)"

definition serve_cmd :: "runtime \<Rightarrow> cmd \<Rightarrow> tables \<Rightarrow> tables or_error" where
  "serve_cmd rt c T = bindE (dispatch_swap (fst (snd c)) (fst c) (map received (snd (snd c))))
     (\<lambda>(qs, rest). if rest = [] then exec_reqs rt qs T else Inl Desync)"

fun serve_cmds :: "runtime \<Rightarrow> cmd list \<Rightarrow> tables \<Rightarrow> tables or_error" where
  "serve_cmds rt [] T = Inr T"
| "serve_cmds rt (c # cs) T = bindE (serve_cmd rt c T) (serve_cmds rt cs)"

section \<open>Presentation\<close>

text \<open>
  \<open>CreateSemaphore\<close> of a named semaphore: the second process opens the one that exists, with its count.
\<close>

definition CreateSemaphore :: "nat \<Rightarrow> nat option \<Rightarrow> nat" where
  "CreateSemaphore initialCount existing = (case existing of None \<Rightarrow> initialCount | Some c \<Rightarrow> c)"

text \<open>Both processes at start-up: \<open>RemixAttach\<close> creates the semaphore before the server is launched.\<close>

definition present_semaphore :: "nat \<Rightarrow> nat" where
  "present_semaphore maxFrames = CreateSemaphore maxFrames (Some (CreateSemaphore 0 None))"

text \<open>\<open>syncOnPresent\<close>: the environment gives \<open>gbBridgeRunning\<close> before each wait and the result of the wait.\<close>

fun present_wait :: "nat \<Rightarrow> nat \<Rightarrow> (nat \<Rightarrow> bool \<times> Result) \<Rightarrow> nat" where
  "present_wait 0 numRetries env = (if fst (env numRetries) \<and> snd (env numRetries) \<noteq> Success then numRetries + 1 else numRetries)"
| "present_wait (Suc left) numRetries env =
     (if fst (env numRetries) \<and> snd (env numRetries) \<noteq> Success then present_wait left (numRetries + 1) env else numRetries)"

datatype present_result = Presented | ErrorSemTimeout | ErrorOperationAborted

definition syncOnPresent :: "bool \<Rightarrow> nat \<Rightarrow> bool \<Rightarrow> (nat \<Rightarrow> bool \<times> Result) \<Rightarrow> present_result" where
  "syncOnPresent presentSemaphoreEnabled maxRetries runningAfter env =
     (if \<not> presentSemaphoreEnabled then Presented
      else if present_wait maxRetries 0 env \<ge> maxRetries then ErrorSemTimeout
      else if \<not> runningAfter then ErrorOperationAborted else Presented)"

text \<open>
  The frames of both processes while no wait gives up: \<open>shown\<close> are the \<open>Present\<close> calls the server has made.
\<close>

record frames =
  sem :: nat
  sent :: nat
  shown :: nat
  in_present :: bool

inductive frame_step :: "nat \<Rightarrow> frames \<Rightarrow> frames \<Rightarrow> bool" for maxFrames where
  present_sent: "\<not> in_present f \<Longrightarrow> frame_step maxFrames f (f\<lparr>sent := sent f + 1, in_present := True\<rparr>)"
| present_acquired: "in_present f \<Longrightarrow> sem f > 0 \<Longrightarrow> frame_step maxFrames f (f\<lparr>sem := sem f - 1, in_present := False\<rparr>)"
| present_shown: "shown f < sent f \<Longrightarrow>
    frame_step maxFrames f (f\<lparr>shown := shown f + 1, sem := (if sem f < maxFrames then sem f + 1 else sem f)\<rparr>)"

inductive_cases frame_stepE: "frame_step maxFrames f f'"

definition frames_new :: "nat \<Rightarrow> frames" where
  "frames_new maxFrames = \<lparr>sem = present_semaphore maxFrames, sent = 0, shown = 0, in_present = False\<rparr>"

section \<open>Lemmas\<close>

lemma serve_cmds_append: "serve_cmds rt (xs @ ys) T = bindE (serve_cmds rt xs T) (serve_cmds rt ys)"
  by (induction xs arbitrary: T) (auto simp: bindE_assoc [symmetric] bindE_def split: sum.splits)

lemma dispatch_chain:
  "dispatch_swap ''LinkSwapchain'' = on_LinkSwapchain" "dispatch_swap ''LinkBackBuffer'' = on_LinkBackBuffer"
  "dispatch_swap ''LinkAutoDepthStencil'' = on_LinkAutoDepthStencil"
  "dispatch_swap ''CreateAdditionalSwapChain'' = on_CreateAdditionalSwapChain"
  "dispatch_swap ''SwapChain9_GetBackBuffer'' = on_SwapChain9_GetBackBuffer"
  by (simp_all add: dispatch_swap_def dec_swapchain9_def dispatch_def case_lists)

lemmas chain_defs = serve_cmd_def dispatch_chain decode_defs exec_req_def store_result_def on_LinkSwapchain_def on_LinkBackBuffer_def
  on_LinkAutoDepthStencil_def on_CreateAdditionalSwapChain_def on_SwapChain9_GetBackBuffer_def

lemma serve_buffers:
  assumes "T SwapChains chain = Some c" and "distinct bufs"
    and "\<forall>i < length bufs. rt c ''GetBackBuffer'' [W (word_of_nat (n + i)), W 0, Out] = Some (buf (n + i))"
  shows "\<exists>T'. serve_cmds rt (map (link_buffer chain) (enumerate n bufs)) T = Inr T' \<and> (\<forall>t. t \<noteq> Resources \<longrightarrow> T' t = T t)
    \<and> (\<forall>h. h \<notin> set bufs \<longrightarrow> T' Resources h = T Resources h) \<and> (\<forall>i < length bufs. T' Resources (bufs ! i) = Some (buf (n + i)))"
  using assms
proof (induction bufs arbitrary: n T)
  case (Cons b bufs)
  let ?T = "T(Resources := (T Resources)(b \<mapsto> buf n))"
  have step: "serve_cmd rt (link_buffer chain (n, b)) T = Inr ?T"
    using Cons.prems(1) Cons.prems(3) [rule_format, of 0] by (simp add: link_buffer_def chain_defs)
  have "\<exists>T'. serve_cmds rt (map (link_buffer chain) (enumerate (Suc n) bufs)) ?T = Inr T' \<and> (\<forall>t. t \<noteq> Resources \<longrightarrow> T' t = ?T t)
    \<and> (\<forall>h. h \<notin> set bufs \<longrightarrow> T' Resources h = ?T Resources h) \<and> (\<forall>i < length bufs. T' Resources (bufs ! i) = Some (buf (Suc n + i)))"
  proof (rule Cons.IH)
    show "\<forall>i < length bufs. rt c ''GetBackBuffer'' [W (word_of_nat (Suc n + i)), W 0, Out] = Some (buf (Suc n + i))"
    proof (intro allI impI)
      fix i assume "i < length bufs"
      then show "rt c ''GetBackBuffer'' [W (word_of_nat (Suc n + i)), W 0, Out] = Some (buf (Suc n + i))"
        using Cons.prems(3) [rule_format, of "Suc i"] by (simp add: algebra_simps)
    qed
  qed (use Cons.prems in simp_all)
  then obtain T' where T': "serve_cmds rt (map (link_buffer chain) (enumerate (Suc n) bufs)) ?T = Inr T'"
    "\<forall>t. t \<noteq> Resources \<longrightarrow> T' t = ?T t" "\<forall>h. h \<notin> set bufs \<longrightarrow> T' Resources h = ?T Resources h"
    "\<forall>i < length bufs. T' Resources (bufs ! i) = Some (buf (Suc n + i))" by blast
  have "T' Resources ((b # bufs) ! i) = Some (buf (n + i))" if "i < length (b # bufs)" for i
    using T'(3,4) Cons.prems(2) that by (cases i) auto
  then show ?case using step T' by (intro exI [of _ T']) auto
qed simp

lemma serve_new_chain:
  assumes "T Devices device = Some d" and "rt d ''GetSwapChain'' [W 0, Out] = Some c" and "distinct bufs"
    and "\<forall>i < length bufs. rt c ''GetBackBuffer'' [W (word_of_nat i), W 0, Out] = Some (buf i)"
  obtains T' where "serve_cmds rt (new_SwapChain device chain bufs) T = Inr T'" and "T' Devices = T Devices"
    and "T' SwapChains = (T SwapChains)(chain \<mapsto> c)" and "\<forall>i < length bufs. T' Resources (bufs ! i) = Some (buf i)"
    and "\<forall>h. h \<notin> set bufs \<longrightarrow> T' Resources h = T Resources h"
proof -
  let ?T = "T(SwapChains := (T SwapChains)(chain \<mapsto> c))"
  have step: "serve_cmd rt (device, ''LinkSwapchain'', [Word chain]) T = Inr ?T"
    using assms(1,2) by (simp add: chain_defs)
  obtain T' where "serve_cmds rt (map (link_buffer chain) (enumerate 0 bufs)) ?T = Inr T'" "\<forall>t. t \<noteq> Resources \<longrightarrow> T' t = ?T t"
    "\<forall>h. h \<notin> set bufs \<longrightarrow> T' Resources h = ?T Resources h" "\<forall>i < length bufs. T' Resources (bufs ! i) = Some (buf i)"
    using serve_buffers [of ?T chain c bufs rt 0 buf] assms(3,4) by auto
  then show ?thesis using that [of T'] step by (auto simp: new_SwapChain_def)
qed

lemma frames_inv:
  assumes "(frame_step maxFrames)\<^sup>*\<^sup>* (frames_new maxFrames) f" and "0 < maxFrames"
  shows "sent f = shown f + (if in_present f then 1 - sem f else 0) \<and> sem f \<le> (if in_present f then 1 else 0)"
  using assms(1)
proof (induction rule: rtranclp_induct)
  case base
  then show ?case by (simp add: frames_new_def present_semaphore_def CreateSemaphore_def)
next
  case (step f g)
  from step(2) step(3) show ?case using assms(2) by (auto elim!: frame_stepE split: if_splits)
qed

section \<open>Properties\<close>

text \<open>The implicit objects of a device are linked.  When the runtime yields the implicit swap chain, its back buffers and its
  depth buffer, the messages of \<open>initImplicitObjects\<close> leave, under the ids of the wrappers, the swap chain,
  every back buffer at its index, the first back buffer as render target, and the depth buffer.\<close>

theorem implicit_objects_linked:
  assumes "T Devices device = Some d" and "rt d ''GetSwapChain'' [W 0, Out] = Some c" and "distinct (target # z # bufs)"
    and "\<forall>i < length bufs. rt c ''GetBackBuffer'' [W (word_of_nat i), W 0, Out] = Some (buf i)"
    and "rt d ''GetBackBuffer'' [W 0, W 0, W 0, Out] = Some (buf 0)" and "rt d ''GetDepthStencilSurface'' [Out] = Some ds"
  shows "\<exists>T'. serve_cmds rt (initImplicitObjects device chain bufs [] target (Some z)) T = Inr T'
    \<and> T' SwapChains chain = Some c \<and> (\<forall>i < length bufs. T' Resources (bufs ! i) = Some (buf i))
    \<and> T' Resources target = Some (buf 0) \<and> T' Resources z = Some ds"
proof -
  have "distinct bufs" using assms(3) by simp
  obtain T1 where T1: "serve_cmds rt (new_SwapChain device chain bufs) T = Inr T1" "T1 Devices = T Devices"
    "T1 SwapChains = (T SwapChains)(chain \<mapsto> c)" "\<forall>i < length bufs. T1 Resources (bufs ! i) = Some (buf i)"
    by (rule serve_new_chain [where rt = rt and T = T and buf = buf, OF assms(1,2) \<open>distinct bufs\<close> assms(4)])
  then have r: "serve_cmds rt (initImplicitObjects device chain bufs [] target (Some z)) T
      = Inr (T1(Resources := (T1 Resources)(target \<mapsto> buf 0, z \<mapsto> ds)))"
    using assms(1,5,6) by (simp add: initImplicitObjects_def serve_cmds_append chain_defs)
  have "((T1 Resources)(target \<mapsto> buf 0, z \<mapsto> ds)) (bufs ! i) = Some (buf i)" if "i < length bufs" for i
    using that T1(4) assms(3) by auto
  then show ?thesis using r T1(3) assms(3) by auto
qed

text \<open>A device 1 whose runtime gives chain 100 with the buffers 200, 201 and a new chain 101.\<close>

definition demo_runtime :: runtime where
  "demo_runtime p m xs = (if m = ''GetSwapChain'' then Some 100
     else if m = ''CreateAdditionalSwapChain'' then Some 101
     else if m = ''GetDepthStencilSurface'' then Some 300
     else (case xs of W i # _ \<Rightarrow> Some ((if p = 101 then 400 else 200) + unat i) | _ \<Rightarrow> None))"

definition demo_tables :: tables where
  "demo_tables t h = (if t = Devices \<and> h = 1 then Some 1 else None)"

theorem implicit_objects_linked_witness:
  "\<exists>T'. serve_cmds demo_runtime (initImplicitObjects 1 2 [3, 4] [] 5 (Some 6)) demo_tables = Inr T'
    \<and> T' Resources 4 = Some 201 \<and> T' Resources 5 = Some 200 \<and> T' Resources 6 = Some 300"
  using implicit_objects_linked [where T = demo_tables and device = 1 and d = 1 and rt = demo_runtime and c = 100 and target = 5
      and z = 6 and bufs = "[3, 4]" and buf = "\<lambda>i. 200 + i" and ds = 300 and chain = 2]
  by (auto simp: demo_tables_def demo_runtime_def nth_Cons less_Suc_eq split: nat.splits dest: spec [of _ 1])

text \<open>An additional swap chain shows the buffers of the implicit one.  The constructor links its wrapper and the back buffers before
  the message that creates the chain: on the server the chain's id ends up naming the new chain, while every
  back buffer id of its wrapper names the back buffer of the implicit chain 0 at that index.\<close>

theorem additional_chain_buffers:
  assumes "T Devices device = Some d" and "rt d ''GetSwapChain'' [W 0, Out] = Some c" and "distinct bufs"
    and "\<forall>i < length bufs. rt c ''GetBackBuffer'' [W (word_of_nat i), W 0, Out] = Some (buf i)"
    and "raw \<noteq> []" and "rt d ''CreateAdditionalSwapChain'' [Pres (Some raw), Out] = Some c1"
  shows "\<exists>cs T'. dev_CreateAdditionalSwapChain (Some raw) device chain bufs = Some cs \<and> serve_cmds rt cs T = Inr T'
    \<and> T' SwapChains chain = Some c1 \<and> (\<forall>i < length bufs. T' Resources (bufs ! i) = Some (buf i))"
proof -
  obtain T1 where T1: "serve_cmds rt (new_SwapChain device chain bufs) T = Inr T1" "T1 Devices = T Devices"
    "\<forall>i < length bufs. T1 Resources (bufs ! i) = Some (buf i)"
    by (rule serve_new_chain [where rt = rt and T = T and buf = buf, OF assms(1-4)])
  then show ?thesis
    using assms(1,5,6) by (simp add: dev_CreateAdditionalSwapChain_def serve_cmds_append chain_defs)
qed

theorem additional_chain_buffers_witness:
  "\<exists>cs T'. dev_CreateAdditionalSwapChain (Some [0]) 1 2 [3, 4] = Some cs \<and> serve_cmds demo_runtime cs demo_tables = Inr T'
    \<and> T' SwapChains 2 = Some 101 \<and> T' Resources 4 = Some 201
    \<and> demo_runtime 101 ''GetBackBuffer'' [W 1, W 0, Out] = Some 401"
  using additional_chain_buffers [where T = demo_tables and device = 1 and d = 1 and rt = demo_runtime and c = 100
      and bufs = "[3, 4]" and buf = "\<lambda>i. 200 + i" and raw = "[0]" and ?c1.0 = 101 and chain = 2]
  by (auto simp: demo_tables_def demo_runtime_def nth_Cons less_Suc_eq split: nat.splits dest: spec [of _ 1])

text \<open>Client and server present in lockstep.  As long as no wait gives up, and whatever number of frames is configured, the
  client is at most one frame ahead while it is in \<open>Present\<close>, and when it has returned the server has presented every frame:
  the semaphore that would let frames be in flight exists with count 0 when the server asks for its initial count.\<close>

theorem present_in_lockstep:
  assumes "(frame_step maxFrames)\<^sup>*\<^sup>* (frames_new maxFrames) f" and "0 < maxFrames"
  shows "sent f \<le> shown f + 1 \<and> (\<not> in_present f \<longrightarrow> sent f = shown f)"
  using frames_inv [OF assms] by auto

theorem present_in_lockstep_witness:
  "\<exists>f. (frame_step 3)\<^sup>*\<^sup>* (frames_new 3) f \<and> in_present f \<and> sent f = 1 \<and> sent f \<le> shown f + 1"
proof -
  let ?f = "(frames_new 3)\<lparr>sent := sent (frames_new 3) + 1, in_present := True\<rparr>"
  have "(frame_step 3)\<^sup>*\<^sup>* (frames_new 3) ?f"
    by (rule r_into_rtranclp) (rule present_sent, simp add: frames_new_def)
  then show ?thesis
    using present_in_lockstep [of 3 ?f] by (intro exI [of _ ?f]) (simp add: frames_new_def)
qed

text \<open>The last wait that \<open>syncOnPresent\<close> makes is lost when it succeeds: the frame counts as timed out.\<close>

lemma last_wait_lost:
  assumes "\<forall>i < maxRetries. env i = (True, Timeout)" and "env maxRetries = (True, Success)"
  shows "present_wait maxRetries 0 env = maxRetries \<and> syncOnPresent True maxRetries True env = ErrorSemTimeout"
proof -
  have "present_wait left n env = n + left" if "n + left = maxRetries" for left n
    using that assms by (induction left arbitrary: n) auto
  from this [of 0 maxRetries] have "present_wait maxRetries 0 env = maxRetries" by simp
  then show ?thesis by (simp add: syncOnPresent_def)
qed

end
