(* ===== verification/Lockable_Buffer.thy ===== *)
theory Lockable_Buffer
  imports Circular_Buffer Shared_Heap
begin

text \<open>
  Vertex and index buffers: \<open>LockableBuffer\<close> of \<open>lockable_buffer.h\<close>, which both wrappers inherit, and the server's
  cases \<open>IDirect3DVertexBuffer9_Unlock\<close> and \<open>IDirect3DIndexBuffer9_Unlock\<close>, which are the same.  A buffer works in one of three
  ways: its contents live in a shadow copy and are sent on \<open>Unlock\<close>; they live in the shared heap and only the id of
  the allocation is sent; or \<open>Lock\<close> reserves a blob in the data ring, the application writes there, and its offset is sent.
\<close>

section \<open>State\<close>

definition D3DLOCK_READONLY :: u32 where "D3DLOCK_READONLY = 0x10"
definition D3DLOCK_DISCARD :: u32 where "D3DLOCK_DISCARD = 0x2000"
definition kLockCheckValue :: u32 where "kLockCheckValue = 0xbaadf00d"
definition kSIMDAlign :: nat where "kSIMDAlign = 16"

text \<open>Where the application writes: byte positions in the shadow, in a shared allocation, in the data ring.\<close>

datatype data_ptr = ShadowPtr nat | HeapPtr nat nat | RingPtr nat

record LockInfo =
  offsetToLock :: u32
  sizeToLock :: u32
  pbData :: "data_ptr option"
  li_flags :: u32
  checkPtr :: "nat option"
  li_bufferId :: nat
  discardedBufferId :: nat

record lockable =
  desc_Size :: u32
  m_bUseSharedHeap :: bool
  m_sendWhole :: bool
  m_optimizedLock :: bool
  m_shadow :: memory
  m_bufferId :: nat
  m_lockInfos :: "LockInfo list"

text \<open>The constructor: \<open>dynamic\<close> is \<open>D3DUSAGE_DYNAMIC\<close>; the other flags are options.\<close>

definition getSharedHeapPolicy :: "bool \<Rightarrow> bool \<Rightarrow> bool \<Rightarrow> bool \<Rightarrow> bool" where
  "getSharedHeapPolicy useSharedHeap forDynamic forStatic dynamic =
     (if useSharedHeap then (if dynamic then forDynamic else forStatic) else False)"

definition new_LockableBuffer :: "u32 \<Rightarrow> bool \<Rightarrow> bool \<Rightarrow> bool \<Rightarrow> bool \<Rightarrow> memory \<Rightarrow> lockable" where
  "new_LockableBuffer sz dynamic shared copyEntireStatic optimizedDynamic shadow =
     \<lparr>desc_Size = sz, m_bUseSharedHeap = shared, m_sendWhole = (\<not> dynamic \<and> copyEntireStatic),
      m_optimizedLock = (dynamic \<and> optimizedDynamic), m_shadow = (if shared then [] else shadow),
      m_bufferId = kInvalidId, m_lockInfos = []\<rparr>"

section \<open>\<open>Lock\<close>\<close>

datatype lock_result = LockOk | LockFailed | LockInvalidCall

text \<open>
  In the shared heap: \<open>alloc\<close> is what \<open>SharedHeap::allocate(m_desc.Size)\<close> returns when it is called.
\<close>

definition lock_shared :: "nat \<Rightarrow> u32 \<Rightarrow> u32 \<Rightarrow> u32 \<Rightarrow> lockable \<Rightarrow> lock_result \<times> data_ptr option \<times> lockable" where
  "lock_shared alloc offset sz flags b =
     (let bDiscard = (flags AND D3DLOCK_DISCARD \<noteq> 0);
          discarded = (if bDiscard \<and> m_bufferId b \<noteq> kInvalidId then m_bufferId b else kInvalidId);
          next = (if bDiscard \<or> m_bufferId b = kInvalidId then alloc else m_bufferId b);
          b1 = b\<lparr>m_bufferId := next\<rparr>
      in if next = kInvalidId then (LockFailed, None, b1)
         else (LockOk, Some (HeapPtr next (unat offset)), b1\<lparr>m_lockInfos := m_lockInfos b1 @
           [\<lparr>offsetToLock = offset, sizeToLock = sz, pbData = None, li_flags = flags, checkPtr = None,
             li_bufferId = next, discardedBufferId = discarded\<rparr>]\<rparr>))"

text \<open>
  In the ring: \<open>blob\<close> is the byte position of the blob that \<open>begin_data_blob\<close> reserved and \<open>base\<close> the address of
  the ring; the check value is written in front and the data are aligned behind it.
\<close>

definition blob_size :: "u32 \<Rightarrow> lockable \<Rightarrow> u32" where
  "blob_size sz b = (if sz = 0 then desc_Size b else sz) + 4 + word_of_nat kSIMDAlign"

definition align_up :: "nat \<Rightarrow> nat \<Rightarrow> nat" where
  "align_up a n = (a + n - 1) div n * n"

definition lock_reserved :: "nat \<Rightarrow> nat \<Rightarrow> u32 \<Rightarrow> u32 \<Rightarrow> u32 \<Rightarrow> lockable \<Rightarrow> memory \<Rightarrow> data_ptr \<times> lockable \<times> memory" where
  "lock_reserved base blob offset sz flags b ring =
     (let data = align_up (base + blob + 4) kSIMDAlign - base in
      (RingPtr data, b\<lparr>m_lockInfos := m_lockInfos b @
         [\<lparr>offsetToLock = offset, sizeToLock = sz, pbData = Some (RingPtr data), li_flags = flags, checkPtr = Some blob,
           li_bufferId = kInvalidId, discardedBufferId = kInvalidId\<rparr>]\<rparr>,
       mem_write blob (u32_bytes kLockCheckValue) ring))"

definition lock_shadow :: "u32 \<Rightarrow> u32 \<Rightarrow> u32 \<Rightarrow> lockable \<Rightarrow> data_ptr \<times> lockable" where
  "lock_shadow offset sz flags b =
     (ShadowPtr (unat offset), b\<lparr>m_lockInfos := m_lockInfos b @
        [\<lparr>offsetToLock = offset, sizeToLock = sz, pbData = Some (ShadowPtr (unat offset)), li_flags = flags, checkPtr = None,
          li_bufferId = kInvalidId, discardedBufferId = kInvalidId\<rparr>]\<rparr>)"

definition lock :: "nat \<Rightarrow> nat \<Rightarrow> nat \<Rightarrow> u32 \<Rightarrow> u32 \<Rightarrow> bool \<Rightarrow> u32 \<Rightarrow> lockable \<times> memory
    \<Rightarrow> lock_result \<times> data_ptr option \<times> lockable \<times> memory" where
  "lock alloc base blob offset sz ppbData flags st = (case st of (b, ring) \<Rightarrow>
     if \<not> ppbData then (LockInvalidCall, None, b, ring)
     else if m_bUseSharedHeap b then (case lock_shared alloc offset sz flags b of (r, p, b1) \<Rightarrow> (r, p, b1, ring))
     else if m_optimizedLock b then (case lock_reserved base blob offset sz flags b ring of (p, b1, ring1) \<Rightarrow> (LockOk, Some p, b1, ring1))
     else (case lock_shadow offset sz flags b of (p, b1) \<Rightarrow> (LockOk, Some p, b1, ring)))"

section \<open>\<open>Unlock\<close>\<close>

text \<open>The range that is sent: clamped to the buffer, or the whole buffer.\<close>

definition sent_range :: "lockable \<Rightarrow> LockInfo \<Rightarrow> u32 \<times> u32" where
  "sent_range b li = (if m_sendWhole b then (0, desc_Size b)
     else (offsetToLock li, if sizeToLock li = 0 then desc_Size b - offsetToLock li
                            else min (sizeToLock li) (desc_Size b - offsetToLock li)))"

datatype unlock_data = InSharedHeap nat | Reserved u32 | Inline memory

record unlock_msg =
  um_offset :: u32
  um_size :: u32
  um_flags :: u32
  um_data :: unlock_data

text \<open>
  The result is the new state, the message and the allocation that is released.  The corrupted check value ends the
  process; an inline range that leaves the shadow is undefined.
\<close>

definition unlock_payload :: "lockable \<Rightarrow> LockInfo \<Rightarrow> u32 \<Rightarrow> memory \<Rightarrow> unlock_data or_error" where
  "unlock_payload b li sz ring =
     (if m_bUseSharedHeap b then Inr (InSharedHeap (li_bufferId li))
      else if m_optimizedLock b then
        (case (checkPtr li, pbData li) of
           (Some c, Some (RingPtr p)) \<Rightarrow> if u32_of_bytes (mem_read c 4 ring) \<noteq> kLockCheckValue then Inl ProcessExit
             else Inr (Reserved (word_of_nat (p div 4)))
         | _ \<Rightarrow> Inl NullDereference)
      else let start = (if m_sendWhole b then 0 else unat (offsetToLock li)) in
        if start + unat sz \<le> length (m_shadow b) then Inr (Inline (mem_read start (unat sz) (m_shadow b))) else Inl OutOfBounds)"

definition unlock :: "lockable \<times> memory \<Rightarrow> (lockable \<times> unlock_msg option \<times> nat option) or_error" where
  "unlock st = (case st of (b, ring) \<Rightarrow> (case m_lockInfos b of
       [] \<Rightarrow> Inr (b, None, None)
     | li # rest \<Rightarrow> (let (offset, sz) = sent_range b li; b1 = b\<lparr>m_lockInfos := rest\<rparr> in
         if li_flags li AND D3DLOCK_READONLY = 0
         then bindE (unlock_payload b li sz ring) (\<lambda>payload.
           Inr (b1, Some \<lparr>um_offset = offset, um_size = sz, um_flags = li_flags li, um_data = payload\<rparr>,
             if discardedBufferId li \<noteq> kInvalidId then Some (discardedBufferId li) else None))
         else Inr (b1, None, None))))"

section \<open>Server\<close>

text \<open>
  The handler: \<open>Lock\<close> with \<open>D3DLOCK_DISCARD\<close> gives a buffer of unknown contents (\<open>fresh\<close>), then the bytes are copied
  from the ring, the shared allocation or the pulled object.
\<close>

definition on_Unlock :: "(memory \<Rightarrow> memory) \<Rightarrow> (nat \<Rightarrow> memory) \<Rightarrow> memory \<Rightarrow> unlock_msg \<Rightarrow> memory \<Rightarrow> memory or_error" where
  "on_Unlock fresh shared ring m buf =
     (let buf1 = (if um_flags m AND D3DLOCK_DISCARD \<noteq> 0 then fresh buf else buf);
          off = unat (um_offset m); n = unat (um_size m);
          (src, from_pos) = (case um_data m of
             Reserved d \<Rightarrow> (ring, 4 * unat d)
           | InSharedHeap i \<Rightarrow> (shared i, off)
           | Inline bs \<Rightarrow> (bs, 0))
      in if from_pos + n \<le> length src \<and> off + n \<le> length buf1
         then Inr (mem_write off (mem_read from_pos n src) buf1) else Inl OutOfBounds)"

section \<open>Runs of the application\<close>

text \<open>The application locks, writes a byte, unlocks.  The server works off the messages in order, at any later time.\<close>

datatype buf_event = ELock u32 u32 u32 | EWrite nat u8 | EUnlock

definition buf_step :: "buf_event \<Rightarrow> lockable \<Rightarrow> (lockable \<times> unlock_msg option) or_error" where
  "buf_step e b = (case e of
     ELock offset sz flags \<Rightarrow> (case lock kInvalidId 0 0 offset sz True flags (b, []) of (_, _, b1, _) \<Rightarrow> Inr (b1, None))
   | EWrite p v \<Rightarrow> if p < length (m_shadow b) then Inr (b\<lparr>m_shadow := (m_shadow b)[p := v]\<rparr>, None) else Inl OutOfBounds
   | EUnlock \<Rightarrow> bindE (unlock (b, [])) (\<lambda>(b1, m, _). Inr (b1, m)))"

fun run_buf :: "buf_event list \<Rightarrow> lockable \<Rightarrow> (lockable \<times> unlock_msg list) or_error" where
  "run_buf [] b = Inr (b, [])"
| "run_buf (e # es) b = bindE (buf_step e b) (\<lambda>(b1, m).
     bindE (run_buf es b1) (\<lambda>(b2, ms). Inr (b2, (case m of None \<Rightarrow> ms | Some x \<Rightarrow> x # ms))))"

fun serve_unlocks :: "(memory \<Rightarrow> memory) \<Rightarrow> unlock_msg list \<Rightarrow> memory \<Rightarrow> memory or_error" where
  "serve_unlocks fresh [] buf = Inr buf"
| "serve_unlocks fresh (m # ms) buf = bindE (on_Unlock fresh (\<lambda>_. []) [] m buf) (serve_unlocks fresh ms)"

text \<open>
  What the application may do: write only where a lock that is not read-only is pending, and discard only when it
  locks the whole buffer.
\<close>

definition in_range :: "lockable \<Rightarrow> LockInfo \<Rightarrow> nat \<Rightarrow> bool" where
  "in_range b li p \<longleftrightarrow> unat (fst (sent_range b li)) \<le> p \<and> p < unat (fst (sent_range b li)) + unat (snd (sent_range b li))"

definition pending :: "lockable \<Rightarrow> nat \<Rightarrow> bool" where
  "pending b p \<longleftrightarrow> (\<exists>li \<in> set (m_lockInfos b). li_flags li AND D3DLOCK_READONLY = 0 \<and> in_range b li p)"

definition whole :: "lockable \<Rightarrow> u32 \<Rightarrow> u32 \<Rightarrow> bool" where
  "whole b offset sz \<longleftrightarrow> m_sendWhole b \<or> offset = 0 \<and> (sz = 0 \<or> sz = desc_Size b)"

definition event_ok :: "lockable \<Rightarrow> buf_event \<Rightarrow> bool" where
  "event_ok b e = (case e of
     ELock offset sz flags \<Rightarrow> flags AND D3DLOCK_DISCARD \<noteq> 0 \<longrightarrow> whole b offset sz
   | EWrite p v \<Rightarrow> pending b p
   | EUnlock \<Rightarrow> True)"

fun events_ok :: "buf_event list \<Rightarrow> lockable \<Rightarrow> bool" where
  "events_ok [] b \<longleftrightarrow> True"
| "events_ok (e # es) b \<longleftrightarrow> event_ok b e \<and> (case buf_step e b of Inl _ \<Rightarrow> True | Inr (b1, _) \<Rightarrow> events_ok es b1)"

text \<open>The server's copy differs from the shadow only where a lock is pending.\<close>

definition uploaded :: "lockable \<Rightarrow> memory \<Rightarrow> bool" where
  "uploaded b buf \<longleftrightarrow> \<not> m_bUseSharedHeap b \<and> \<not> m_optimizedLock b \<and> length (m_shadow b) = unat (desc_Size b)
   \<and> length buf = unat (desc_Size b)
   \<and> (\<forall>li \<in> set (m_lockInfos b). li_flags li AND D3DLOCK_DISCARD \<noteq> 0 \<longrightarrow> whole b (offsetToLock li) (sizeToLock li))
   \<and> (\<forall>p < length buf. buf ! p = m_shadow b ! p \<or> pending b p)"

lemma range_upd [simp]:
  "sent_range (b\<lparr>m_lockInfos := x\<rparr>) = sent_range b" "sent_range (b\<lparr>m_shadow := s\<rparr>) = sent_range b"
  "in_range (b\<lparr>m_lockInfos := x\<rparr>) = in_range b" "in_range (b\<lparr>m_shadow := s\<rparr>) = in_range b"
  "whole (b\<lparr>m_lockInfos := x\<rparr>) = whole b" "whole (b\<lparr>m_shadow := s\<rparr>) = whole b"
  by (auto simp: fun_eq_iff sent_range_def in_range_def whole_def)

lemma uploaded_lock:
  assumes "uploaded b buf" and "event_ok b (ELock offset sz flags)" and "buf_step (ELock offset sz flags) b = Inr (b1, m)"
  shows "uploaded b1 buf \<and> m = None"
  using assms by (auto simp: uploaded_def buf_step_def lock_def lock_shadow_def event_ok_def pending_def)

lemma uploaded_write:
  assumes "uploaded b buf" and "event_ok b (EWrite p v)" and "buf_step (EWrite p v) b = Inr (b1, m)"
  shows "uploaded b1 buf \<and> m = None"
proof -
  have "pending b1 q = pending b q" for q
    using assms(3) by (auto simp: buf_step_def pending_def split: if_splits)
  then show ?thesis
    using assms by (auto simp: uploaded_def buf_step_def event_ok_def nth_list_update split: if_splits)
qed

lemma sent_range_le:
  assumes "whole b offset sz" and "offsetToLock li = offset" "sizeToLock li = sz"
  shows "sent_range b li = (0, desc_Size b)"
  using assms by (auto simp: whole_def sent_range_def)

lemma uploaded_unlock:
  assumes up: "uploaded b buf" and step: "buf_step EUnlock b = Inr (b1, m)" and fresh: "length (fresh buf) = length buf"
  shows "case m of None \<Rightarrow> uploaded b1 buf | Some x \<Rightarrow> \<exists>buf1. on_Unlock fresh (\<lambda>_. []) [] x buf = Inr buf1 \<and> uploaded b1 buf1"
proof (cases "m_lockInfos b")
  case Nil
  then show ?thesis using up step by (auto simp: buf_step_def unlock_def)
next
  case (Cons li rest)
  obtain off n where r: "sent_range b li = (off, n)" by fastforce
  have b1: "b1 = b\<lparr>m_lockInfos := rest\<rparr>"
    using step Cons r by (auto simp: buf_step_def unlock_def bind_simps Let_def split: if_splits)
  show ?thesis
  proof (cases "li_flags li AND D3DLOCK_READONLY = 0")
    case False
    then have "m = None" using step Cons r by (auto simp: buf_step_def unlock_def)
    moreover have "pending b1 p = pending b p" for p
      using Cons b1 False by (auto simp: pending_def)
    ultimately show ?thesis using up Cons b1 by (auto simp: uploaded_def)
  next
    case True
    let ?start = "unat off" and ?k = "unat n"
    have start: "(if m_sendWhole b then 0 else unat (offsetToLock li)) = ?start"
      using r by (auto simp: sent_range_def split: if_splits)
    then have le: "?start + ?k \<le> length (m_shadow b)" and
      m: "m = Some \<lparr>um_offset = off, um_size = n, um_flags = li_flags li, um_data = Inline (mem_read ?start ?k (m_shadow b))\<rparr>"
      using step Cons r True up by (auto simp: buf_step_def unlock_def unlock_payload_def uploaded_def bind_simps Let_def split: if_splits)
    let ?src = "if li_flags li AND D3DLOCK_DISCARD \<noteq> 0 then fresh buf else buf"
    let ?buf1 = "mem_write ?start (mem_read ?start ?k (m_shadow b)) ?src"
    have len: "length ?src = length buf" "length buf = length (m_shadow b)" using fresh up by (auto simp: uploaded_def)
    have rd: "length (mem_read ?start ?k (m_shadow b)) = ?k" using le by (simp add: mem_read_def)
    have on: "on_Unlock fresh (\<lambda>_. []) [] (the m) buf = Inr ?buf1"
      using m le len rd by (auto simp: on_Unlock_def mem_read_def Let_def)
    have nth: "?buf1 ! p = (if ?start \<le> p \<and> p < ?start + ?k then m_shadow b ! p else ?src ! p)" if "p < length buf" for p
      using le len rd that by (auto simp: mem_write_def mem_read_def nth_append)
    have "?buf1 ! p = m_shadow b ! p \<or> pending b1 p" if p: "p < length buf" for p
    proof (cases "?start \<le> p \<and> p < ?start + ?k")
      case False
      then have no: "\<not> in_range b li p" using r by (auto simp: in_range_def)
      have "li_flags li AND D3DLOCK_DISCARD = 0"
      proof (rule ccontr)
        assume "li_flags li AND D3DLOCK_DISCARD \<noteq> 0"
        then have "sent_range b li = (0, desc_Size b)"
          using up Cons by (intro sent_range_le [OF _ refl refl]) (auto simp: uploaded_def)
        then show False using False r p up by (auto simp: uploaded_def)
      qed
      then have "?buf1 ! p = buf ! p" using nth [OF p] False by auto
      moreover have "pending b1 p = pending b p"
        using Cons b1 no by (auto simp: pending_def)
      ultimately show ?thesis using up p by (auto simp: uploaded_def)
    qed (use nth [OF p] in auto)
    moreover have "length ?buf1 = length buf" using le len rd by simp
    ultimately have "uploaded b1 ?buf1" using up Cons b1 by (auto simp: uploaded_def)
    then show ?thesis using m on by auto
  qed
qed

lemma run_uploaded:
  assumes "uploaded b buf" and "events_ok es b" and "run_buf es b = Inr (b', ms)" and "\<And>x. length (fresh x) = length x"
  shows "\<exists>buf'. serve_unlocks fresh ms buf = Inr buf' \<and> uploaded b' buf'"
  using assms(1-3)
proof (induction es arbitrary: b buf ms)
  case (Cons e es)
  obtain b1 m ms1 where s: "buf_step e b = Inr (b1, m)" "run_buf es b1 = Inr (b', ms1)" "ms = (case m of None \<Rightarrow> ms1 | Some x \<Rightarrow> x # ms1)"
    using Cons.prems(3) by (auto simp: bind_simps)
  have ok: "event_ok b e" "events_ok es b1" using Cons.prems(2) s(1) by auto
  show ?case
  proof (cases e)
    case (ELock o1 o2 o3)
    then have "uploaded b1 buf" "m = None" using uploaded_lock [OF Cons.prems(1)] ok(1) s(1) by blast+
    then show ?thesis using Cons.IH [OF _ ok(2) s(2)] s(3) by auto
  next
    case (EWrite p v)
    then have "uploaded b1 buf" "m = None" using uploaded_write [OF Cons.prems(1)] ok(1) s(1) by blast+
    then show ?thesis using Cons.IH [OF _ ok(2) s(2)] s(3) by auto
  next
    case EUnlock
    then show ?thesis
      using uploaded_unlock [OF Cons.prems(1), of b1 m fresh] assms(4) ok s Cons.IH [OF _ ok(2) s(2)]
      by (cases m) auto
  qed
qed simp

section \<open>Properties\<close>


text \<open>Eight bytes, one lock of the bytes 2 to 4, a write.\<close>

definition demo_buffer :: lockable where
  "demo_buffer = new_LockableBuffer 8 True False False False (replicate 8 0)"


text \<open>\<open>Unlock\<close> takes the oldest lock.  A comment in \<open>unlock\<close> says it gets the most recently locked range, but the queue yields the
  first one: when the application locks a range, locks a second one, unlocks the second and goes on writing to the first, the
  range sent first is the first, the byte is never sent, and the server keeps the old value.\<close>

theorem nested_lock_write_lost:
  assumes "\<not> m_bUseSharedHeap b" and "\<not> m_optimizedLock b" and "\<not> m_sendWhole b"
    and "length (m_shadow b) = unat (desc_Size b)" and "m_lockInfos b = []" and "2 \<le> unat (desc_Size b)" and "m_shadow b ! 0 \<noteq> v"
  shows "\<exists>b' ms. run_buf [ELock 0 1 0, ELock 1 1 0, EUnlock, EWrite 0 v, EUnlock] b = Inr (b', ms) \<and> m_lockInfos b' = []
    \<and> serve_unlocks fresh ms (m_shadow b) = Inr (m_shadow b) \<and> m_shadow b' = (m_shadow b)[0 := v]"
proof -
  have one: "min 1 (desc_Size b) = 1" "min 1 (desc_Size b - 1) = 1"
    using assms(6) by (auto simp: min_def word_le_nat_alt unat_sub)
  have copy: "mem_write i (mem_read i 1 s) s = s" if "i < length s" for i and s :: memory
  proof (rule nth_equalityI)
    fix j assume "j < length (mem_write i (mem_read i 1 s) s)"
    then show "mem_write i (mem_read i 1 s) s ! j = s ! j"
      using that by (cases "j = i") (auto simp: mem_write_nth length_mem_read mem_read_nth)
  qed (use that in \<open>simp add: length_mem_read\<close>)
  show ?thesis
    using assms one length_greater_0_conv [of "m_shadow b"] copy [of 0 "m_shadow b"] copy [of 1 "m_shadow b"]
    by (simp add: buf_step_def lock_def lock_shadow_def unlock_def unlock_payload_def sent_range_def on_Unlock_def Let_def
        D3DLOCK_DISCARD_def mem_read_def)
qed

theorem nested_lock_write_lost_witness:
  "\<exists>b' ms. run_buf [ELock 0 1 0, ELock 1 1 0, EUnlock, EWrite 0 9, EUnlock] demo_buffer = Inr (b', ms)
     \<and> serve_unlocks id ms (replicate 8 0) = Inr (replicate 8 0) \<and> m_shadow b' ! 0 = 9"
  using nested_lock_write_lost [of demo_buffer 9 id]
  by (auto simp: demo_buffer_def new_LockableBuffer_def)

end
