(* ===== verification/Fast_Lock.thy ===== *)
theory Fast_Lock
  imports Bridge_Prelude
begin

text \<open>
  The recursive lock of a writer channel, which is also the lock of the device: \<open>SpinLock\<close> and \<open>SrwRecursiveLock\<close> of
  \<open>util_fastlock.h\<close>.  Threads interleave at every access to the three shared members; the exchange on
  \<open>m_flag\<close> is atomic.  Thread ids are not 0.  The depth is a natural number: a thread that nests $2^{32}$ locks is left out.
\<close>

section \<open>State and accesses\<close>

text \<open>
  Where a thread is.  \<open>In k\<close>: it holds the lock \<open>k\<close> times and is outside the functions of the lock.  The three
  entry points keep what they were called for: \<open>Enter b\<close> and \<open>Spin b\<close> are in \<open>lock\<close> (\<open>b = False\<close>) or in \<open>try_lock\<close>.
\<close>

datatype lock_pc = Out | Enter bool nat | Spin bool | SetOwner | SetDepth | In nat | Leave nat | ClearOwner | ClearFlag

record rlock =
  m_flag :: bool
  m_owner :: nat
  m_depth :: nat
  lpc :: "nat \<Rightarrow> lock_pc"

definition rlock_new :: rlock where
  "rlock_new = \<lparr>m_flag = False, m_owner = 0, m_depth = 0, lpc = (\<lambda>_. Out)\<rparr>"

definition at :: "nat \<Rightarrow> lock_pc \<Rightarrow> rlock \<Rightarrow> rlock" where
  "at me p s = s\<lparr>lpc := (lpc s)(me := p)\<rparr>"

text \<open>The number of times the thread holds the lock where it stands.\<close>

fun depth_at :: "lock_pc \<Rightarrow> nat" where
  "depth_at (Enter _ k) = k"
| "depth_at (In k) = k"
| "depth_at (Leave k) = k"
| "depth_at _ = 0"

inductive lock_step :: "rlock \<Rightarrow> rlock \<Rightarrow> bool" where
  call: "me \<noteq> 0 \<Longrightarrow> lpc s me = Out \<Longrightarrow> lock_step s (at me (Enter attempt 0) s)"
| call_again: "me \<noteq> 0 \<Longrightarrow> lpc s me = In k \<Longrightarrow> lock_step s (at me (Enter attempt k) s)"
| reenter: "me \<noteq> 0 \<Longrightarrow> lpc s me = Enter attempt k \<Longrightarrow> m_owner s = me \<Longrightarrow>
    lock_step s (at me (In (m_depth s + 1)) (s\<lparr>m_depth := m_depth s + 1\<rparr>))"
| not_owner: "me \<noteq> 0 \<Longrightarrow> lpc s me = Enter attempt k \<Longrightarrow> m_owner s \<noteq> me \<Longrightarrow> lock_step s (at me (Spin attempt) s)"
| exchange_free: "me \<noteq> 0 \<Longrightarrow> lpc s me = Spin attempt \<Longrightarrow> \<not> m_flag s \<Longrightarrow> lock_step s (at me SetOwner (s\<lparr>m_flag := True\<rparr>))"
| exchange_busy: "me \<noteq> 0 \<Longrightarrow> lpc s me = Spin False \<Longrightarrow> m_flag s \<Longrightarrow> lock_step s (s\<lparr>m_flag := True\<rparr>)"
| try_failed: "me \<noteq> 0 \<Longrightarrow> lpc s me = Spin True \<Longrightarrow> m_flag s \<Longrightarrow> lock_step s (at me Out (s\<lparr>m_flag := True\<rparr>))"
| set_owner: "me \<noteq> 0 \<Longrightarrow> lpc s me = SetOwner \<Longrightarrow> lock_step s (at me SetDepth (s\<lparr>m_owner := me\<rparr>))"
| set_depth: "me \<noteq> 0 \<Longrightarrow> lpc s me = SetDepth \<Longrightarrow> lock_step s (at me (In 1) (s\<lparr>m_depth := 1\<rparr>))"
| release: "me \<noteq> 0 \<Longrightarrow> lpc s me = In k \<Longrightarrow> lock_step s (at me (Leave k) s)"
| dec_depth: "me \<noteq> 0 \<Longrightarrow> lpc s me = Leave k \<Longrightarrow>
    lock_step s (at me (if m_depth s - 1 = 0 then ClearOwner else In (m_depth s - 1)) (s\<lparr>m_depth := m_depth s - 1\<rparr>))"
| clear_owner: "me \<noteq> 0 \<Longrightarrow> lpc s me = ClearOwner \<Longrightarrow> lock_step s (at me ClearFlag (s\<lparr>m_owner := 0\<rparr>))"
| clear_flag: "me \<noteq> 0 \<Longrightarrow> lpc s me = ClearFlag \<Longrightarrow> lock_step s (at me Out (s\<lparr>m_flag := False\<rparr>))"

inductive_cases lock_stepE: "lock_step s s'"

section \<open>The invariant\<close>

text \<open>Whether a thread at this point has the flag, and whether its id is in \<open>m_owner\<close>.\<close>

fun has_flag :: "lock_pc \<Rightarrow> bool" where
  "has_flag Out = False" | "has_flag (Enter _ k) = (0 < k)" | "has_flag (Spin _) = False" | "has_flag SetOwner = True"
| "has_flag SetDepth = True" | "has_flag (In _) = True" | "has_flag (Leave _) = True" | "has_flag ClearOwner = True"
| "has_flag ClearFlag = True"

definition is_owner :: "lock_pc \<Rightarrow> bool" where
  "is_owner p \<longleftrightarrow> has_flag p \<and> p \<noteq> SetOwner \<and> p \<noteq> ClearFlag"

text \<open>What holds of one thread.\<close>

definition thread_ok :: "rlock \<Rightarrow> nat \<Rightarrow> bool" where
  "thread_ok s t \<longleftrightarrow> (has_flag (lpc s t) \<longrightarrow> m_flag s \<and> t \<noteq> 0)
   \<and> (is_owner (lpc s t) \<longleftrightarrow> m_owner s = t \<and> t \<noteq> 0)
   \<and> (0 < depth_at (lpc s t) \<longrightarrow> m_depth s = depth_at (lpc s t))
   \<and> (\<forall>k. lpc s t = In k \<or> lpc s t = Leave k \<longrightarrow> 0 < k)"

definition lock_inv :: "rlock \<Rightarrow> bool" where
  "lock_inv s \<longleftrightarrow> (\<forall>t. thread_ok s t) \<and> (\<forall>t t'. has_flag (lpc s t) \<and> has_flag (lpc s t') \<longrightarrow> t = t')
   \<and> (m_flag s \<longrightarrow> (\<exists>t. has_flag (lpc s t)))"

lemma lpc_at [simp]: "lpc (at me p s) t = (if t = me then p else lpc s t)" "m_flag (at me p s) = m_flag s"
  "m_owner (at me p s) = m_owner s" "m_depth (at me p s) = m_depth s"
  by (simp_all add: at_def)

text \<open>What a step of thread \<open>me\<close> has to show: the other threads keep their places.\<close>

lemma lock_inv_step:
  assumes inv: "lock_inv s" and me: "me \<noteq> 0"
    and own: "thread_ok (at me p s1) me" and places: "lpc s1 = lpc s"
    and flag: "if has_flag (lpc s me) \<or> has_flag p then m_flag s1 = has_flag p else m_flag s1 = m_flag s"
    and excl: "has_flag p \<Longrightarrow> has_flag (lpc s me) \<or> \<not> m_flag s"
    and owner: "m_owner s1 = m_owner s \<or> m_owner s = me \<and> m_owner s1 = 0 \<or> has_flag (lpc s me) \<and> m_owner s1 = me"
    and depth: "m_depth s1 = m_depth s \<or> has_flag (lpc s me)"
  shows "lock_inv (at me p s1)"
proof -
  have no: "\<not> has_flag (lpc s t)" if "t \<noteq> me" "has_flag (lpc s me) \<or> has_flag p" for t
    using inv excl that unfolding lock_inv_def thread_ok_def by metis
  have "thread_ok (at me p s1) t" if "t \<noteq> me" for t
  proof -
    have t: "thread_ok s t" using inv by (simp add: lock_inv_def)
    show ?thesis
    proof (cases "has_flag (lpc s me) \<or> has_flag p")
      case True
      then have nt: "\<not> has_flag (lpc s t)" using no that by blast
      then have "depth_at (lpc s t) = 0" "m_owner s \<noteq> t \<or> t = 0" "\<forall>k. lpc s t \<noteq> In k \<and> lpc s t \<noteq> Leave k"
        using t by (cases "lpc s t"; auto simp: thread_ok_def is_owner_def)+
      then show ?thesis using that nt owner places by (auto simp: thread_ok_def is_owner_def)
    next
      case False
      then have "m_flag s1 = m_flag s" "m_depth s1 = m_depth s" using flag depth by auto
      moreover have "m_owner s1 = m_owner s"
        using owner False inv me unfolding lock_inv_def thread_ok_def is_owner_def by metis
      ultimately show ?thesis using t that places by (auto simp: thread_ok_def)
    qed
  qed
  moreover have "t = t'" if "has_flag (lpc (at me p s1) t)" "has_flag (lpc (at me p s1) t')" for t t'
    using that no places inv unfolding lock_inv_def by (metis lpc_at(1))
  moreover have "\<exists>t. has_flag (lpc (at me p s1) t)" if "m_flag (at me p s1)"
    using that flag places inv unfolding lock_inv_def by (metis lpc_at(1,2))
  ultimately show ?thesis
    using own unfolding lock_inv_def by metis
qed

lemma lock_step_inv:
  assumes "lock_step s s'" and inv: "lock_inv s"
  shows "lock_inv s'"
proof -
  have ok: "thread_ok s t" for t using inv by (simp add: lock_inv_def)
  show ?thesis
    using assms(1)
  proof cases
    case (exchange_busy me)
    then have "s' = s" by simp
    then show ?thesis using inv by simp
  next
    case (try_failed me)
    then have s': "s' = at me Out s" by (cases s) (simp add: at_def)
    show ?thesis unfolding s' using ok [of me] try_failed
      by (intro lock_inv_step [OF inv]) (auto simp: thread_ok_def is_owner_def)
  next
    case (call me attempt)
    show ?thesis unfolding call(1) using ok [of me] call(2-)
      by (intro lock_inv_step [OF inv]) (auto simp: thread_ok_def is_owner_def)
  next
    case (call_again me k attempt)
    show ?thesis unfolding call_again(1) using ok [of me] call_again(2-)
      by (intro lock_inv_step [OF inv]) (auto simp: thread_ok_def is_owner_def)
  next
    case (reenter me attempt k)
    show ?thesis unfolding reenter(1) using ok [of me] reenter(2-)
      by (intro lock_inv_step [OF inv]) (auto simp: thread_ok_def is_owner_def)
  next
    case (not_owner me attempt k)
    show ?thesis unfolding not_owner(1) using ok [of me] not_owner(2-)
      by (intro lock_inv_step [OF inv]) (auto simp: thread_ok_def is_owner_def)
  next
    case (exchange_free me attempt)
    show ?thesis unfolding exchange_free(1) using ok [of me] exchange_free(2-)
      by (intro lock_inv_step [OF inv]) (auto simp: thread_ok_def is_owner_def)
  next
    case (set_owner me)
    show ?thesis unfolding set_owner(1) using ok [of me] set_owner(2-)
      by (intro lock_inv_step [OF inv]) (auto simp: thread_ok_def is_owner_def)
  next
    case (set_depth me)
    show ?thesis unfolding set_depth(1) using ok [of me] set_depth(2-)
      by (intro lock_inv_step [OF inv]) (auto simp: thread_ok_def is_owner_def)
  next
    case (release me k)
    show ?thesis unfolding release(1) using ok [of me] release(2-)
      by (intro lock_inv_step [OF inv]) (auto simp: thread_ok_def is_owner_def)
  next
    case (dec_depth me k)
    show ?thesis unfolding dec_depth(1) using ok [of me] dec_depth(2-)
      by (intro lock_inv_step [OF inv]) (auto simp: thread_ok_def is_owner_def)
  next
    case (clear_owner me)
    show ?thesis unfolding clear_owner(1) using ok [of me] clear_owner(2-)
      by (intro lock_inv_step [OF inv]) (auto simp: thread_ok_def is_owner_def)
  next
    case (clear_flag me)
    show ?thesis unfolding clear_flag(1) using ok [of me] clear_flag(2-)
      by (intro lock_inv_step [OF inv]) (auto simp: thread_ok_def is_owner_def)
  qed
qed


lemma lock_inv_new: "lock_inv rlock_new"
  by (simp add: lock_inv_def thread_ok_def is_owner_def rlock_new_def neq0_conv [symmetric] del: neq0_conv)

lemma reachable_lock_inv: "lock_step\<^sup>*\<^sup>* rlock_new s \<Longrightarrow> lock_inv s"
  by (induction rule: rtranclp_induct) (auto intro: lock_inv_new lock_step_inv)

section \<open>What the callers rely on\<close>

text \<open>C16. However the threads interleave at their accesses to the members, at most one thread is
  between the exchange that took the flag and the store that clears it; a thread that is inside is the owner, and the stored depth is the number of locks it nests; and the unsynchronised read
  of \<open>m_owner\<close> that the recursion test and \<open>owner()\<close> do is reliable: it gives a thread its own id exactly when that
  thread holds the lock, so a thread outside never takes the path without the exchange.\<close>

theorem mutual_exclusion:
  assumes "lock_step\<^sup>*\<^sup>* rlock_new s"
  shows "(has_flag (lpc s t) \<and> has_flag (lpc s t') \<longrightarrow> t = t')
    \<and> (lpc s t = In k \<longrightarrow> m_flag s \<and> m_owner s = t \<and> m_depth s = k \<and> 0 < k)
    \<and> (lpc s t = Out \<and> t \<noteq> 0 \<longrightarrow> m_owner s \<noteq> t)
    \<and> (lpc s t = Enter attempt j \<and> t \<noteq> 0 \<and> m_owner s = t \<longrightarrow> 0 < j \<and> m_depth s = j)"
proof -
  have inv: "lock_inv s" and ok: "thread_ok s t" using reachable_lock_inv [OF assms] by (simp_all add: lock_inv_def)
  have "has_flag (lpc s t) \<and> has_flag (lpc s t') \<longrightarrow> t = t'" using inv unfolding lock_inv_def by blast
  then show ?thesis using ok by (auto simp: thread_ok_def is_owner_def)
qed

text \<open>Thread 1 locks twice while thread 2 spins: a reachable state with the lock held and another thread waiting.\<close>

definition contended :: rlock where
  "contended = \<lparr>m_flag = True, m_owner = 1, m_depth = 2, lpc = (\<lambda>_. Out)(1 := In 2, 2 := Spin False)\<rparr>"

lemma contended_reachable: "lock_step\<^sup>*\<^sup>* rlock_new contended"
proof -
  let ?s1 = "at 1 (Enter False 0) rlock_new"
  let ?s2 = "at 1 (Spin False) ?s1"
  let ?s3 = "at 1 SetOwner (?s2\<lparr>m_flag := True\<rparr>)"
  let ?s4 = "at 1 SetDepth (?s3\<lparr>m_owner := 1\<rparr>)"
  let ?s5 = "at 1 (In 1) (?s4\<lparr>m_depth := 1\<rparr>)"
  let ?s6 = "at 1 (Enter False 1) ?s5"
  let ?s7 = "at 1 (In (m_depth ?s6 + 1)) (?s6\<lparr>m_depth := m_depth ?s6 + 1\<rparr>)"
  let ?s8 = "at 2 (Enter False 0) ?s7"
  let ?s9 = "at 2 (Spin False) ?s8"
  have "lock_step rlock_new ?s1" by (rule lock_step.call) (simp_all add: rlock_new_def)
  moreover have "lock_step ?s1 ?s2" by (rule lock_step.not_owner [where k = 0]) (simp_all add: rlock_new_def at_def)
  moreover have "lock_step ?s2 ?s3" by (rule lock_step.exchange_free [where attempt = False]) (simp_all add: rlock_new_def at_def)
  moreover have "lock_step ?s3 ?s4" by (rule lock_step.set_owner) (simp_all add: rlock_new_def at_def)
  moreover have "lock_step ?s4 ?s5" by (rule lock_step.set_depth) (simp_all add: rlock_new_def at_def)
  moreover have "lock_step ?s5 ?s6" by (rule lock_step.call_again) (simp_all add: rlock_new_def at_def)
  moreover have "lock_step ?s6 ?s7" by (rule lock_step.reenter [where attempt = False and k = 1]) (simp_all add: rlock_new_def at_def)
  moreover have "lock_step ?s7 ?s8" by (rule lock_step.call) (simp_all add: rlock_new_def at_def)
  moreover have "lock_step ?s8 ?s9" by (rule lock_step.not_owner [where k = 0]) (simp_all add: rlock_new_def at_def)
  ultimately have "lock_step\<^sup>*\<^sup>* rlock_new ?s9" by (meson rtranclp.rtrancl_into_rtrancl rtranclp.rtrancl_refl)
  moreover have "?s9 = contended" by (simp add: contended_def rlock_new_def at_def fun_eq_iff)
  ultimately show ?thesis by simp
qed

lemma mutual_exclusion_witness:
  "has_flag (lpc contended 1) \<and> m_flag contended \<and> m_owner contended = 1 \<and> m_depth contended = 2"
  using mutual_exclusion [OF contended_reachable, of 1 1 2] by (simp add: contended_def)

end
