(* ===== verification/Serializable.thy ===== *)
theory Serializable
  imports Bridge_Prelude
begin

text \<open>
  Serialisation of structures (\<open>util_serializable.h\<close>): the fundamental readers and writers with their
  cursor, the folds over a list of members, the frame that precedes every structure with its size.  The locale \<open>codec\<close> is
  what a member type promises (reading what was written gives it back and leaves the rest, and the size computed
  beforehand is the size written); \<open>optional_codec\<close> lifts it to optional pointers; \<open>serializable\<close> is what a whole structure promises, and gives that it survives the frame.
  \<open>None\<close> stands for a read outside of an array or of the object received.
\<close>

named_theorems codec_simps "reading back what was written"

section \<open>Fundamental types\<close>

text \<open>A cursor is the memory from it on: \<open>serialize\<close> gives the bytes it writes, \<open>deserialize\<close> the value and the cursor behind it.\<close>

type_synonym 'a reader = "memory \<Rightarrow> ('a \<times> memory) option"

definition take_bytes :: "nat \<Rightarrow> memory reader" where
  "take_bytes n p = (if n \<le> length p then Some (take n p, drop n p) else None)"

definition ser_u8 :: "u8 \<Rightarrow> memory" where "ser_u8 w = [w]"

definition des_u8 :: "u8 reader" where
  "des_u8 p = map_option (\<lambda>(b, r). (b ! 0, r)) (take_bytes 1 p)"

definition des_u32 :: "u32 reader" where
  "des_u32 p = map_option (\<lambda>(b, r). (u32_of_bytes b, r)) (take_bytes 4 p)"

definition u64_bytes :: "u64 \<Rightarrow> memory" where
  "u64_bytes w = u32_bytes (ucast w) @ u32_bytes (ucast (drop_bit 32 w))"

definition des_u64 :: "u64 reader" where
  "des_u64 p = map_option (\<lambda>(b, r). (ucast (u32_of_bytes (take 4 b)) OR push_bit 32 (ucast (u32_of_bytes (drop 4 b))), r)) (take_bytes 8 p)"

text \<open>\<open>enum class Bool\<close>: a byte, 0 or 255.\<close>

definition ser_bool :: "bool \<Rightarrow> memory" where
  "ser_bool b = [if b then 0xff else 0]"

definition des_bool :: "bool reader" where
  "des_bool p = map_option (\<lambda>(b, r). (b = 0xff, r)) (des_u8 p)"

lemma take_bytes_append [simp]: "n = length bs \<Longrightarrow> take_bytes n (bs @ rest) = Some (bs, rest)"
  by (simp add: take_bytes_def)

lemma des_u8_ser [simp]: "des_u8 (ser_u8 w @ rest) = Some (w, rest)"
  by (simp add: des_u8_def ser_u8_def take_bytes_def)

lemma length_ser_u8 [simp]: "length (ser_u8 w) = 1"
  by (simp add: ser_u8_def)

lemma des_u32_ser [simp]: "des_u32 (u32_bytes w @ rest) = Some (w, rest)"
  by (simp add: des_u32_def)

lemma length_u64_bytes [simp]: "length (u64_bytes w) = 8"
  by (simp add: u64_bytes_def)

lemma u64_halves: "ucast (ucast w :: u32) OR push_bit 32 (ucast (ucast (drop_bit 32 w) :: u32)) = (w :: u64)"
  by (rule bit_word_eqI) (auto simp: bit_simps)

lemma des_u64_ser [simp]: "des_u64 (u64_bytes w @ rest) = Some (w, rest)"
  by (simp add: des_u64_def u64_halves) (simp add: u64_bytes_def u64_halves)

lemma des_bool_ser [simp]: "des_bool (ser_bool b @ rest) = Some (b, rest)"
  by (simp add: des_bool_def ser_bool_def des_u8_def take_bytes_def)

lemma length_ser_bool [simp]: "length (ser_bool b) = 1"
  by (simp add: ser_bool_def)

section \<open>Members of a structure\<close>

text \<open>What the three folds do with a member: \<open>sizeOf(args)\<close>, \<open>serialize(args, p)\<close>, \<open>deserialize(p, args)\<close>.  \<open>member\<close> builds it from the
  functions of the member's type and the access to it.\<close>

record 'a member =
  m_sizeOf :: "'a \<Rightarrow> u32"
  m_serialize :: "'a \<Rightarrow> memory"
  m_deserialize :: "'a \<Rightarrow> 'a reader"

definition member :: "('v \<Rightarrow> memory) \<Rightarrow> ('v \<Rightarrow> u32) \<Rightarrow> ('v \<Rightarrow> 'v reader) \<Rightarrow> ('a \<Rightarrow> 'v) \<Rightarrow> (('v \<Rightarrow> 'v) \<Rightarrow> 'a \<Rightarrow> 'a) \<Rightarrow> 'a member" where
  "member ser sizeOf des get upd = \<lparr>m_sizeOf = (\<lambda>x. sizeOf (get x)), m_serialize = (\<lambda>x. ser (get x)),
     m_deserialize = (\<lambda>old p. map_option (\<lambda>(v, r). (upd (\<lambda>_. v) old, r)) (des (get old) p))\<rparr>"

text \<open>\<open>fold_helper\<close>.\<close>

definition fold_calcSize :: "'a member list \<Rightarrow> 'a \<Rightarrow> u32" where
  "fold_calcSize vars x = sum_list (map (\<lambda>m. m_sizeOf m x) vars)"

definition fold_serialize :: "'a member list \<Rightarrow> 'a \<Rightarrow> memory" where
  "fold_serialize vars x = concat (map (\<lambda>m. m_serialize m x) vars)"

fun fold_deserialize :: "'a member list \<Rightarrow> 'a \<Rightarrow> 'a reader" where
  "fold_deserialize [] old p = Some (old, p)"
| "fold_deserialize (m # ms) old p = (case m_deserialize m old p of None \<Rightarrow> None | Some (x, r) \<Rightarrow> fold_deserialize ms x r)"

text \<open>\<open>deserialize_const_p_for_each\<close>: an array of elements, each deserialised into a fresh object.\<close>

fun des_for_each :: "('v \<Rightarrow> 'v reader) \<Rightarrow> 'v \<Rightarrow> nat \<Rightarrow> 'v list reader" where
  "des_for_each des fresh 0 p = Some ([], p)"
| "des_for_each des fresh (Suc n) p = (case des fresh p of None \<Rightarrow> None
     | Some (v, r) \<Rightarrow> map_option (\<lambda>(vs, r1). (v # vs, r1)) (des_for_each des fresh n r))"

text \<open>The helpers for optional pointers: a flag, and the value when there is one.\<close>

definition sizeOf__optionalPointer :: "('v \<Rightarrow> u32) \<Rightarrow> 'v option \<Rightarrow> u32" where
  "sizeOf__optionalPointer sizeOf v = 1 + (case v of None \<Rightarrow> 0 | Some x \<Rightarrow> sizeOf x)"

definition serialize__optionalPointer :: "('v \<Rightarrow> memory) \<Rightarrow> 'v option \<Rightarrow> memory" where
  "serialize__optionalPointer ser v = ser_bool (v \<noteq> None) @ (case v of None \<Rightarrow> [] | Some x \<Rightarrow> ser x)"

definition deserialize__optionalPointer :: "('v \<Rightarrow> 'v reader) \<Rightarrow> 'v \<Rightarrow> 'v option reader" where
  "deserialize__optionalPointer des fresh p = (case des_bool p of None \<Rightarrow> None
     | Some (b, r) \<Rightarrow> if b then map_option (\<lambda>(v, r1). (Some v, r1)) (des fresh r) else Some (None, r))"

section \<open>The contract of a member type\<close>

locale codec =
  fixes ser :: "'v \<Rightarrow> memory" and sizeOf :: "'v \<Rightarrow> u32" and des :: "'v \<Rightarrow> 'v reader" and ok :: "'v \<Rightarrow> bool"
  assumes des_ser: "ok v \<Longrightarrow> des old (ser v @ rest) = Some (v, rest)"
    and size_ser: "ok v \<Longrightarrow> word_of_nat (length (ser v)) = sizeOf v"
begin

lemma member_des [codec_simps]:
  "ok (get x) \<Longrightarrow> m_deserialize (member ser sizeOf des get upd) old (m_serialize (member ser sizeOf des get upd) x @ rest)
     = Some (upd (\<lambda>_. get x) old, rest)"
  by (simp add: member_def des_ser)

lemma member_size [codec_simps]:
  "ok (get x) \<Longrightarrow> word_of_nat (length (m_serialize (member ser sizeOf des get upd) x)) = m_sizeOf (member ser sizeOf des get upd) x"
  by (simp add: member_def size_ser)

lemma for_each:
  "\<forall>v\<in>set vs. ok v \<Longrightarrow> des_for_each des fresh (length vs) (concat (map ser vs) @ rest) = Some (vs, rest)"
  by (induction vs) (simp_all add: des_ser)

lemma for_each_size:
  "\<forall>v\<in>set vs. ok v \<Longrightarrow> word_of_nat (length (concat (map ser vs))) = sum_list (map sizeOf vs)"
  by (induction vs) (simp_all add: size_ser)

end

locale optional_codec = codec ser sizeOf des ok
  for ser :: "'v \<Rightarrow> memory" and sizeOf and des and ok +
  fixes fresh :: 'v

sublocale optional_codec \<subseteq> pointer: codec "serialize__optionalPointer ser" "sizeOf__optionalPointer sizeOf"
    "\<lambda>_. deserialize__optionalPointer des fresh" "\<lambda>v. \<forall>x. v = Some x \<longrightarrow> ok x"
proof
  fix v and rest :: memory
  assume ok: "\<forall>x. v = Some x \<longrightarrow> ok x"
  show "deserialize__optionalPointer des fresh (serialize__optionalPointer ser v @ rest) = Some (v, rest)"
    using ok by (cases v) (simp_all add: deserialize__optionalPointer_def serialize__optionalPointer_def des_ser)
  show "word_of_nat (length (serialize__optionalPointer ser v)) = sizeOf__optionalPointer sizeOf v"
    using ok by (cases v) (simp_all add: serialize__optionalPointer_def sizeOf__optionalPointer_def size_ser)
qed

lemma fold_serialize_simps [codec_simps]:
  "fold_serialize [] x = []" "fold_serialize (m # ms) x = m_serialize m x @ fold_serialize ms x"
  by (simp_all add: fold_serialize_def)

lemma fold_calcSize_simps [codec_simps]:
  "fold_calcSize [] x = 0" "fold_calcSize (m # ms) x = m_sizeOf m x + fold_calcSize ms x"
  by (simp_all add: fold_calcSize_def)

lemmas [codec_simps] = append_assoc append_Nil fold_deserialize.simps option.case prod.case
  length_append of_nat_add of_nat_0 list.size(3) simp_thms

section \<open>The frame of a structure\<close>

text \<open>
  \<open>Serializable<T>\<close> by its three hand-written functions.  \<open>size()\<close> of an object made for serialising is \<open>calcSize()\<close>, which for a static
  size was computed once from another object of the type.  \<open>serialize\<close> writes the size and the
  members into a block of that size: a longer result overruns it, of a shorter one the rest is indeterminate.
\<close>

definition calcSize :: "('a \<Rightarrow> u32) \<Rightarrow> 'a \<Rightarrow> u32" where
  "calcSize calc x = calc x + 4"

definition serialize :: "('a \<Rightarrow> memory option) \<Rightarrow> ('a \<Rightarrow> u32) \<Rightarrow> 'a \<Rightarrow> memory option" where
  "serialize ser calc x = (case ser x of None \<Rightarrow> None
     | Some bs \<Rightarrow> if 4 + length bs = unat (calcSize calc x) then Some (u32_bytes (calcSize calc x) @ bs) else None)"

text \<open>The deserialising constructor and \<open>deserialize\<close>; the members of the object are \<open>fresh\<close> before.\<close>

definition deserialize :: "('a \<Rightarrow> 'a reader) \<Rightarrow> 'a \<Rightarrow> memory \<Rightarrow> 'a option" where
  "deserialize des fresh p = (case des_u32 p of None \<Rightarrow> None | Some (_, r) \<Rightarrow> map_option fst (des fresh r))"

text \<open>What the functions of a structure promise: \<open>kept fresh x\<close> is the object received, which may keep members of \<open>fresh\<close> that are
  not part of the stream.\<close>

locale serializable =
  fixes ser :: "'a \<Rightarrow> memory option" and calc :: "'a \<Rightarrow> u32" and des :: "'a \<Rightarrow> 'a reader" and ok :: "'a \<Rightarrow> bool"
    and kept :: "'a \<Rightarrow> 'a \<Rightarrow> 'a"
  assumes written: "ok x \<Longrightarrow> \<exists>bs. ser x = Some bs \<and> length bs + 4 < 2 ^ 32 \<and> word_of_nat (length bs) = calc x
      \<and> (\<forall>fresh rest. des fresh (bs @ rest) = Some (kept fresh x, rest))"
begin

lemma frame:
  assumes "ok x"
  obtains bs where "serialize ser calc x = Some bs" "length bs = unat (calcSize calc x)" "0 < length bs"
    "\<And>fresh. deserialize des fresh bs = Some (kept fresh x)"
proof -
  obtain bs where bs: "ser x = Some bs" "length bs + 4 < 2 ^ 32" "word_of_nat (length bs) = calc x"
    "\<And>fresh rest. des fresh (bs @ rest) = Some (kept fresh x, rest)" using written [OF assms] by blast
  have "calcSize calc x = word_of_nat (length bs + 4)" by (simp add: calcSize_def flip: bs(3))
  then have size: "unat (calcSize calc x) = length bs + 4" using bs(2) by (simp only: unat_of_nat) simp
  show thesis
  proof (rule that)
    show "serialize ser calc x = Some (u32_bytes (calcSize calc x) @ bs)" by (simp add: serialize_def bs(1) size)
    show "length (u32_bytes (calcSize calc x) @ bs) = unat (calcSize calc x)" by (simp add: size)
    show "0 < length (u32_bytes (calcSize calc x) @ bs)" by simp
    show "deserialize des fresh (u32_bytes (calcSize calc x) @ bs) = Some (kept fresh x)" for fresh
      using bs(4) [of fresh "[]"] by (simp add: deserialize_def)
  qed
qed

end

text \<open>A structure that is serialised by the folds over a list of its members.\<close>

locale layout =
  fixes vars :: "'a member list" and ok :: "'a \<Rightarrow> bool" and kept :: "'a \<Rightarrow> 'a \<Rightarrow> 'a"
  assumes fits: "ok x \<Longrightarrow> length (fold_serialize vars x) + 4 < 2 ^ 32"
    and members_size: "ok x \<Longrightarrow> word_of_nat (length (fold_serialize vars x)) = fold_calcSize vars x"
    and members_des: "ok x \<Longrightarrow> fold_deserialize vars fresh (fold_serialize vars x @ rest) = Some (kept fresh x, rest)"

sublocale layout \<subseteq> serializable "\<lambda>x. Some (fold_serialize vars x)" "fold_calcSize vars" "fold_deserialize vars" ok kept
  by unfold_locales (use fits members_size members_des in auto)

text \<open>One whose size does not depend on the object, as the template argument \<open>HasStaticSize\<close> claims.\<close>

locale static_layout = layout vars ok kept
  for vars :: "'a member list" and ok and kept +
  fixes s_kSize :: u32
  assumes static: "calcSize (fold_calcSize vars) x = s_kSize"

section \<open>The fundamental types keep the contract\<close>

interpretation u8: codec ser_u8 "\<lambda>_. 1" "\<lambda>_. des_u8" "\<lambda>_. True"
  by unfold_locales simp_all

interpretation u32: optional_codec u32_bytes "\<lambda>_. 4" "\<lambda>_. des_u32" "\<lambda>_. True" fresh for fresh
  by unfold_locales simp_all

interpretation u64: codec u64_bytes "\<lambda>_. 8" "\<lambda>_. des_u64" "\<lambda>_. True"
  by unfold_locales simp_all

end
