(* ===== verification/Remix_Structs.thy ===== *)
theory Remix_Structs
  imports Serializable
begin

text \<open>
  The structures of the Remix API and their serialisation (\<open>util_remixapi.cpp\<close>, \<open>util_remixapi.h\<close>, the structures
  of \<open>ext/remix/remix_c.h\<close>).  A record has the members of the structure but \<open>pNext\<close>, which the serialisation leaves out and sets
  to null; a prefix tells the records apart.  Floats and enumerations are their 32 bits.
\<close>

section \<open>Types of members\<close>

text \<open>\<open>remixapi_Path\<close>, a pointer to a zero-terminated string of 16-bit characters: \<open>None\<close> is null, the terminator is not part of the list.\<close>

type_synonym path = "u16 list option"

definition u16_bytes :: "u16 \<Rightarrow> memory" where "u16_bytes c = [ucast c, ucast (drop_bit 8 c)]"

fun wchars :: "memory \<Rightarrow> u16 list" where
  "wchars (a # b # r) = (ucast a OR push_bit 8 (ucast b)) # wchars r"
| "wchars _ = []"

text \<open>\<open>wcslen\<close> on memory: it runs off the end when there is no terminator.\<close>

fun wcslen :: "memory \<Rightarrow> nat option" where
  "wcslen (a # b # r) = (if a = 0 \<and> b = 0 then Some 0 else map_option Suc (wcslen r))"
| "wcslen _ = None"

definition pathSize :: "path \<Rightarrow> u32" where
  "pathSize v = (case v of None \<Rightarrow> 0 | Some s \<Rightarrow> word_of_nat (length s) + 1) * 2"

definition sizeOf_path :: "path \<Rightarrow> u32" where "sizeOf_path v = 1 + pathSize v"

definition ser_path :: "path \<Rightarrow> memory" where
  "ser_path v = ser_bool (v \<noteq> None) @ (case v of None \<Rightarrow> [] | Some s \<Rightarrow> concat (map u16_bytes (s @ [0])))"

definition des_path :: "path reader" where
  "des_path p = (case des_bool p of None \<Rightarrow> None
     | Some (b, r) \<Rightarrow> if b then (case wcslen r of None \<Rightarrow> None
         | Some n \<Rightarrow> map_option (\<lambda>(bs, r1). (Some (butlast (wchars bs)), r1)) (take_bytes (2 * (n + 1)) r)) else Some (None, r))"

definition path_ok :: "path \<Rightarrow> bool" where
  "path_ok v \<longleftrightarrow> (\<forall>s. v = Some s \<longrightarrow> 0 \<notin> set s)"

lemma u16_of_bytes: "ucast (ucast c :: u8) OR push_bit 8 (ucast (ucast (drop_bit 8 c) :: u8)) = (c :: u16)"
  by (rule bit_word_eqI) (auto simp: bit_simps)

lemma wchars_ser: "wchars (concat (map u16_bytes s)) = s"
  by (induction s) (simp_all add: u16_bytes_def u16_of_bytes)

lemma length_wide [simp]: "length (concat (map u16_bytes s)) = 2 * length s"
  by (induction s) (simp_all add: u16_bytes_def)

lemma wcslen_ser: "0 \<notin> set s \<Longrightarrow> wcslen (concat (map u16_bytes s) @ 0 # 0 # rest) = Some (length s)"
proof (induction s)
  case (Cons c s)
  have "\<not> (ucast c = (0 :: u8) \<and> ucast (drop_bit 8 c) = (0 :: u8))"
    using Cons.prems u16_of_bytes [of c] by auto
  then show ?case using Cons by (simp add: u16_bytes_def)
qed simp

lemma des_path_ser: "path_ok v \<Longrightarrow> des_path (ser_path v @ rest) = Some (v, rest)"
proof (cases v)
  case (Some s)
  let ?b = "concat (map u16_bytes (s @ [0]))"
  assume "path_ok v"
  then have "0 \<notin> set s" using Some by (simp add: path_ok_def)
  then have "wcslen (?b @ rest) = Some (length s)" using wcslen_ser [of s rest] by (simp add: u16_bytes_def)
  moreover have "take_bytes (2 * (length s + 1)) (?b @ rest) = Some (?b, rest)"
    by (rule take_bytes_append) (simp add: u16_bytes_def)
  moreover have "wchars ?b = s @ [0]" by (rule wchars_ser)
  ultimately show ?thesis using Some by (simp add: des_path_def ser_path_def del: map_append concat_append)
qed (simp add: des_path_def ser_path_def)

lemma size_path_ser: "word_of_nat (length (ser_path v)) = sizeOf_path v"
  by (cases v) (simp_all add: ser_path_def sizeOf_path_def pathSize_def u16_bytes_def)

interpretation path: codec ser_path sizeOf_path "\<lambda>_. des_path" path_ok
  by unfold_locales (simp_all add: des_path_ser size_path_ser)

text \<open>\<open>remixapi_Float3D\<close> and \<open>remixapi_Transform\<close> (3 rows of 4 columns, one row after the other) are copied as they lie in memory.\<close>

record Float3D =
  f_x :: u32
  f_y :: u32
  f_z :: u32

definition ser_float3 :: "Float3D \<Rightarrow> memory" where
  "ser_float3 v = u32_bytes (f_x v) @ u32_bytes (f_y v) @ u32_bytes (f_z v)"

definition des_float3 :: "Float3D reader" where
  "des_float3 p = map_option (\<lambda>(b, r). (\<lparr>f_x = u32_of_bytes (take 4 b), f_y = u32_of_bytes (take 4 (drop 4 b)), f_z = u32_of_bytes (drop 8 b)\<rparr>, r)) (take_bytes 12 p)"

fun words_in :: "memory \<Rightarrow> u32 list" where
  "words_in (a # b # c # d # r) = u32_of_bytes [a, b, c, d] # words_in r"
| "words_in _ = []"

definition ser_words :: "u32 list \<Rightarrow> memory" where
  "ser_words ws = concat (map u32_bytes ws)"

definition des_transform :: "u32 list reader" where
  "des_transform p = map_option (\<lambda>(b, r). (words_in b, r)) (take_bytes 48 p)"

definition transform_ok :: "u32 list \<Rightarrow> bool" where
  "transform_ok t \<longleftrightarrow> length t = 12"

lemma length_ser_words [simp]: "length (ser_words ws) = 4 * length ws"
  unfolding ser_words_def by (induction ws) simp_all

lemma words_in_ser [simp]: "words_in (ser_words ws) = ws"
proof (induction ws)
  case (Cons w ws)
  have "words_in (u32_bytes w @ r) = u32_of_bytes (u32_bytes w) # words_in r" for r by (simp add: u32_bytes_def)
  then show ?case using Cons by (simp add: ser_words_def)
qed (simp add: ser_words_def)

lemma length_ser_float3 [simp]: "length (ser_float3 v) = 12"
  by (simp add: ser_float3_def)

interpretation float3: optional_codec ser_float3 "\<lambda>_. 12" "\<lambda>_. des_float3" "\<lambda>_. True" fresh for fresh
proof unfold_locales
  fix v rest show "des_float3 (ser_float3 v @ rest) = Some (v, rest)"
    by (simp add: des_float3_def) (simp add: ser_float3_def)
qed simp

interpretation transform: codec ser_words "\<lambda>_. 48" "\<lambda>_. des_transform" transform_ok
  by unfold_locales (simp_all add: des_transform_def transform_ok_def)

text \<open>A handle is a pointer, of which the lower 32 bits are copied; the rest of the pointer was set to zero.\<close>

definition ser_handle :: "u64 \<Rightarrow> memory" where "ser_handle p = u32_bytes (ucast p)"

definition des_handle :: "u64 reader" where
  "des_handle p = map_option (\<lambda>(w, r). (ucast w, r)) (des_u32 p)"

definition handle_ok :: "u64 \<Rightarrow> bool" where
  "handle_ok p \<longleftrightarrow> unat p < 2 ^ 32"

lemma handle_low: "handle_ok p \<Longrightarrow> ucast (ucast p :: u32) = p"
  by (simp add: handle_ok_def word_unat_eq_iff unsigned_ucast_eq unsigned_take_bit_eq take_bit_nat_eq_self)

interpretation handle: codec ser_handle "\<lambda>_. 4" "\<lambda>_. des_handle" handle_ok
  by unfold_locales (simp_all add: ser_handle_def des_handle_def handle_low)

abbreviation "u8_member \<equiv> member ser_u8 (\<lambda>_. 1) (\<lambda>_. des_u8)"
abbreviation "u32_member \<equiv> member u32_bytes (\<lambda>_. 4) (\<lambda>_. des_u32)"
abbreviation "u64_member \<equiv> member u64_bytes (\<lambda>_. 8) (\<lambda>_. des_u64)"
abbreviation "path_member \<equiv> member ser_path sizeOf_path (\<lambda>_. des_path)"
abbreviation "float3_member \<equiv> member ser_float3 (\<lambda>_. 12) (\<lambda>_. des_float3)"
abbreviation "transform_member \<equiv> member ser_words (\<lambda>_. 48) (\<lambda>_. des_transform)"
abbreviation "handle_member \<equiv> member ser_handle (\<lambda>_. 4) (\<lambda>_. des_handle)"

lemma length_ser_handle [simp]: "length (ser_handle p) = 4"
  by (simp add: ser_handle_def)

lemma member_static:
  "m_sizeOf (member ser sz des get upd) x = sz (get x)" "length (m_serialize (member ser sz des get upd) x) = length (ser (get x))"
  by (simp_all add: member_def)

lemmas static_sizes = member_static calcSize_def transform_ok_def

section \<open>Materials\<close>

record MaterialInfo =
  mat_sType :: u32
  mat_hash :: u64
  mat_albedoTexture :: path
  mat_normalTexture :: path
  mat_tangentTexture :: path
  mat_emissiveTexture :: path
  mat_emissiveIntensity :: u32
  mat_emissiveColorConstant :: Float3D
  mat_spriteSheetRow :: u8
  mat_spriteSheetCol :: u8
  mat_spriteSheetFps :: u8
  mat_filterMode :: u8
  mat_wrapModeU :: u8
  mat_wrapModeV :: u8

definition MaterialInfoVars :: "MaterialInfo member list" where
  "MaterialInfoVars = [u32_member mat_sType mat_sType_update, u64_member mat_hash mat_hash_update,
    path_member mat_albedoTexture mat_albedoTexture_update, path_member mat_normalTexture mat_normalTexture_update,
    path_member mat_tangentTexture mat_tangentTexture_update,
    path_member mat_emissiveTexture mat_emissiveTexture_update,
    u32_member mat_emissiveIntensity mat_emissiveIntensity_update,
    float3_member mat_emissiveColorConstant mat_emissiveColorConstant_update,
    u8_member mat_spriteSheetRow mat_spriteSheetRow_update, u8_member mat_spriteSheetCol mat_spriteSheetCol_update,
    u8_member mat_spriteSheetFps mat_spriteSheetFps_update, u8_member mat_filterMode mat_filterMode_update,
    u8_member mat_wrapModeU mat_wrapModeU_update, u8_member mat_wrapModeV mat_wrapModeV_update]"

definition MaterialInfo_ok :: "MaterialInfo \<Rightarrow> bool" where
  "MaterialInfo_ok x \<longleftrightarrow> path_ok (mat_albedoTexture x) \<and> path_ok (mat_normalTexture x) \<and> path_ok (mat_tangentTexture x) \<and>
    path_ok (mat_emissiveTexture x) \<and> length (fold_serialize MaterialInfoVars x) + 4 < 2 ^ 32"

interpretation MaterialInfo: layout MaterialInfoVars MaterialInfo_ok "\<lambda>_ x. x"
  by unfold_locales (auto simp: MaterialInfoVars_def MaterialInfo_ok_def codec_simps intro!: MaterialInfo.equality)

record MaterialInfoOpaque =
  opq_sType :: u32
  opq_roughnessTexture :: path
  opq_metallicTexture :: path
  opq_anisotropy :: u32
  opq_albedoConstant :: Float3D
  opq_opacityConstant :: u32
  opq_roughnessConstant :: u32
  opq_metallicConstant :: u32
  opq_thinFilmThickness_hasvalue :: u32
  opq_thinFilmThickness_value :: u32
  opq_alphaIsThinFilmThickness :: u32
  opq_heightTexture :: path
  opq_displaceIn :: u32
  opq_useDrawCallAlphaState :: u32
  opq_blendType_hasvalue :: u32
  opq_blendType_value :: u32
  opq_invertedBlend :: u32
  opq_alphaTestType :: u32
  opq_alphaReferenceValue :: u8
  opq_displaceOut :: u32

definition MaterialInfoOpaqueVars :: "MaterialInfoOpaque member list" where
  "MaterialInfoOpaqueVars = [u32_member opq_sType opq_sType_update, path_member opq_roughnessTexture opq_roughnessTexture_update,
    path_member opq_metallicTexture opq_metallicTexture_update, u32_member opq_anisotropy opq_anisotropy_update,
    float3_member opq_albedoConstant opq_albedoConstant_update,
    u32_member opq_opacityConstant opq_opacityConstant_update,
    u32_member opq_roughnessConstant opq_roughnessConstant_update,
    u32_member opq_metallicConstant opq_metallicConstant_update,
    u32_member opq_thinFilmThickness_hasvalue opq_thinFilmThickness_hasvalue_update,
    u32_member opq_thinFilmThickness_value opq_thinFilmThickness_value_update,
    u32_member opq_alphaIsThinFilmThickness opq_alphaIsThinFilmThickness_update,
    path_member opq_heightTexture opq_heightTexture_update, u32_member opq_displaceIn opq_displaceIn_update,
    u32_member opq_useDrawCallAlphaState opq_useDrawCallAlphaState_update,
    u32_member opq_blendType_hasvalue opq_blendType_hasvalue_update,
    u32_member opq_blendType_value opq_blendType_value_update, u32_member opq_invertedBlend opq_invertedBlend_update,
    u32_member opq_alphaTestType opq_alphaTestType_update,
    u8_member opq_alphaReferenceValue opq_alphaReferenceValue_update,
    u32_member opq_displaceOut opq_displaceOut_update]"

definition MaterialInfoOpaque_ok :: "MaterialInfoOpaque \<Rightarrow> bool" where
  "MaterialInfoOpaque_ok x \<longleftrightarrow> path_ok (opq_roughnessTexture x) \<and> path_ok (opq_metallicTexture x) \<and>
    path_ok (opq_heightTexture x) \<and> length (fold_serialize MaterialInfoOpaqueVars x) + 4 < 2 ^ 32"

interpretation MaterialInfoOpaque: layout MaterialInfoOpaqueVars MaterialInfoOpaque_ok "\<lambda>_ x. x"
  by unfold_locales (auto simp: MaterialInfoOpaqueVars_def MaterialInfoOpaque_ok_def codec_simps intro!: MaterialInfoOpaque.equality)

record MaterialInfoOpaqueSubsurface =
  sub_sType :: u32
  sub_subsurfaceTransmittanceTexture :: path
  sub_subsurfaceThicknessTexture :: path
  sub_subsurfaceSingleScatteringAlbedoTexture :: path
  sub_subsurfaceTransmittanceColor :: Float3D
  sub_subsurfaceMeasurementDistance :: u32
  sub_subsurfaceSingleScatteringAlbedo :: Float3D
  sub_subsurfaceVolumetricAnisotropy :: u32
  sub_subsurfaceDiffusionProfile :: u32
  sub_subsurfaceRadius :: Float3D
  sub_subsurfaceRadiusScale :: u32
  sub_subsurfaceMaxSampleRadius :: u32
  sub_subsurfaceRadiusTexture :: path

definition MaterialInfoOpaqueSubsurfaceVars :: "MaterialInfoOpaqueSubsurface member list" where
  "MaterialInfoOpaqueSubsurfaceVars = [u32_member sub_sType sub_sType_update,
    path_member sub_subsurfaceTransmittanceTexture sub_subsurfaceTransmittanceTexture_update,
    path_member sub_subsurfaceThicknessTexture sub_subsurfaceThicknessTexture_update,
    path_member sub_subsurfaceSingleScatteringAlbedoTexture sub_subsurfaceSingleScatteringAlbedoTexture_update,
    float3_member sub_subsurfaceTransmittanceColor sub_subsurfaceTransmittanceColor_update,
    u32_member sub_subsurfaceMeasurementDistance sub_subsurfaceMeasurementDistance_update,
    float3_member sub_subsurfaceSingleScatteringAlbedo sub_subsurfaceSingleScatteringAlbedo_update,
    u32_member sub_subsurfaceVolumetricAnisotropy sub_subsurfaceVolumetricAnisotropy_update]"

definition MaterialInfoOpaqueSubsurface_ok :: "MaterialInfoOpaqueSubsurface \<Rightarrow> bool" where
  "MaterialInfoOpaqueSubsurface_ok x \<longleftrightarrow> path_ok (sub_subsurfaceTransmittanceTexture x) \<and> path_ok (sub_subsurfaceThicknessTexture x) \<and>
    path_ok (sub_subsurfaceSingleScatteringAlbedoTexture x) \<and>
    length (fold_serialize MaterialInfoOpaqueSubsurfaceVars x) + 4 < 2 ^ 32"

definition MaterialInfoOpaqueSubsurface_kept :: "MaterialInfoOpaqueSubsurface \<Rightarrow> MaterialInfoOpaqueSubsurface \<Rightarrow> MaterialInfoOpaqueSubsurface" where
  "MaterialInfoOpaqueSubsurface_kept fresh x = x\<lparr>sub_subsurfaceDiffusionProfile := sub_subsurfaceDiffusionProfile fresh,
    sub_subsurfaceRadius := sub_subsurfaceRadius fresh, sub_subsurfaceRadiusScale := sub_subsurfaceRadiusScale fresh,
    sub_subsurfaceMaxSampleRadius := sub_subsurfaceMaxSampleRadius fresh,
    sub_subsurfaceRadiusTexture := sub_subsurfaceRadiusTexture fresh\<rparr>"

interpretation MaterialInfoOpaqueSubsurface: layout MaterialInfoOpaqueSubsurfaceVars MaterialInfoOpaqueSubsurface_ok MaterialInfoOpaqueSubsurface_kept
  by unfold_locales (auto simp: MaterialInfoOpaqueSubsurfaceVars_def MaterialInfoOpaqueSubsurface_ok_def MaterialInfoOpaqueSubsurface_kept_def codec_simps intro!: MaterialInfoOpaqueSubsurface.equality)

record MaterialInfoTranslucent =
  trl_sType :: u32
  trl_transmittanceTexture :: path
  trl_refractiveIndex :: u32
  trl_transmittanceColor :: Float3D
  trl_transmittanceMeasurementDistance :: u32
  trl_thinWallThickness_hasvalue :: u32
  trl_thinWallThickness_value :: u32
  trl_useDiffuseLayer :: u32

definition MaterialInfoTranslucentVars :: "MaterialInfoTranslucent member list" where
  "MaterialInfoTranslucentVars = [u32_member trl_sType trl_sType_update, path_member trl_transmittanceTexture trl_transmittanceTexture_update,
    u32_member trl_refractiveIndex trl_refractiveIndex_update,
    float3_member trl_transmittanceColor trl_transmittanceColor_update,
    u32_member trl_transmittanceMeasurementDistance trl_transmittanceMeasurementDistance_update,
    u32_member trl_thinWallThickness_hasvalue trl_thinWallThickness_hasvalue_update,
    u32_member trl_thinWallThickness_value trl_thinWallThickness_value_update,
    u32_member trl_useDiffuseLayer trl_useDiffuseLayer_update]"

definition MaterialInfoTranslucent_ok :: "MaterialInfoTranslucent \<Rightarrow> bool" where
  "MaterialInfoTranslucent_ok x \<longleftrightarrow> path_ok (trl_transmittanceTexture x) \<and> length (fold_serialize MaterialInfoTranslucentVars x) + 4 < 2 ^ 32"

interpretation MaterialInfoTranslucent: layout MaterialInfoTranslucentVars MaterialInfoTranslucent_ok "\<lambda>_ x. x"
  by unfold_locales (auto simp: MaterialInfoTranslucentVars_def MaterialInfoTranslucent_ok_def codec_simps intro!: MaterialInfoTranslucent.equality)

record MaterialInfoPortal =
  por_sType :: u32
  por_rayPortalIndex :: u8
  por_rotationSpeed :: u32

definition MaterialInfoPortalVars :: "MaterialInfoPortal member list" where
  "MaterialInfoPortalVars = [u32_member por_sType por_sType_update, u8_member por_rayPortalIndex por_rayPortalIndex_update,
    u32_member por_rotationSpeed por_rotationSpeed_update]"

interpretation MaterialInfoPortal: static_layout MaterialInfoPortalVars "\<lambda>_. True" "\<lambda>_ x. x" 13
  by unfold_locales (auto simp: MaterialInfoPortalVars_def codec_simps static_sizes intro!: MaterialInfoPortal.equality)

section \<open>Instances\<close>

record InstanceInfo =
  ins_sType :: u32
  ins_categoryFlags :: u32
  ins_mesh :: u64
  ins_transform :: "u32 list"
  ins_doubleSided :: u32

definition InstanceInfoVars :: "InstanceInfo member list" where
  "InstanceInfoVars = [u32_member ins_sType ins_sType_update, u32_member ins_categoryFlags ins_categoryFlags_update,
    handle_member ins_mesh ins_mesh_update, transform_member ins_transform ins_transform_update,
    u32_member ins_doubleSided ins_doubleSided_update]"

definition InstanceInfo_ok :: "InstanceInfo \<Rightarrow> bool" where
  "InstanceInfo_ok x \<longleftrightarrow> handle_ok (ins_mesh x) \<and> transform_ok (ins_transform x)"

interpretation InstanceInfo: static_layout InstanceInfoVars InstanceInfo_ok "\<lambda>_ x. x" 68
  by unfold_locales (auto simp: InstanceInfoVars_def InstanceInfo_ok_def codec_simps static_sizes intro!: InstanceInfo.equality)

record InstanceInfoObjectPicking =
  opk_objectPickingValue :: u32
  opk_sType :: u32

definition InstanceInfoObjectPickingVars :: "InstanceInfoObjectPicking member list" where
  "InstanceInfoObjectPickingVars = [u32_member opk_objectPickingValue opk_objectPickingValue_update]"

definition InstanceInfoObjectPicking_kept :: "InstanceInfoObjectPicking \<Rightarrow> InstanceInfoObjectPicking \<Rightarrow> InstanceInfoObjectPicking" where
  "InstanceInfoObjectPicking_kept fresh x = x\<lparr>opk_sType := opk_sType fresh\<rparr>"

interpretation InstanceInfoObjectPicking: static_layout InstanceInfoObjectPickingVars "\<lambda>_. True" InstanceInfoObjectPicking_kept 8
  by unfold_locales (auto simp: InstanceInfoObjectPickingVars_def InstanceInfoObjectPicking_kept_def codec_simps static_sizes intro!: InstanceInfoObjectPicking.equality)

record InstanceInfoBlend =
  bld_sType :: u32
  bld_alphaTestEnabled :: u32
  bld_alphaTestReferenceValue :: u8
  bld_alphaTestCompareOp :: u32
  bld_alphaBlendEnabled :: u32
  bld_srcColorBlendFactor :: u32
  bld_dstColorBlendFactor :: u32
  bld_colorBlendOp :: u32
  bld_textureColorArg1Source :: u32
  bld_textureColorArg2Source :: u32
  bld_textureColorOperation :: u32
  bld_textureAlphaArg1Source :: u32
  bld_textureAlphaArg2Source :: u32
  bld_textureAlphaOperation :: u32
  bld_tFactor :: u32
  bld_isTextureFactorBlend :: u32

definition InstanceInfoBlendVars :: "InstanceInfoBlend member list" where
  "InstanceInfoBlendVars = [u32_member bld_sType bld_sType_update, u32_member bld_alphaTestEnabled bld_alphaTestEnabled_update,
    u8_member bld_alphaTestReferenceValue bld_alphaTestReferenceValue_update,
    u32_member bld_alphaTestCompareOp bld_alphaTestCompareOp_update,
    u32_member bld_alphaBlendEnabled bld_alphaBlendEnabled_update,
    u32_member bld_srcColorBlendFactor bld_srcColorBlendFactor_update,
    u32_member bld_dstColorBlendFactor bld_dstColorBlendFactor_update,
    u32_member bld_colorBlendOp bld_colorBlendOp_update,
    u32_member bld_textureColorArg1Source bld_textureColorArg1Source_update,
    u32_member bld_textureColorArg2Source bld_textureColorArg2Source_update,
    u32_member bld_textureColorOperation bld_textureColorOperation_update,
    u32_member bld_textureAlphaArg1Source bld_textureAlphaArg1Source_update,
    u32_member bld_textureAlphaArg2Source bld_textureAlphaArg2Source_update,
    u32_member bld_textureAlphaOperation bld_textureAlphaOperation_update, u32_member bld_tFactor bld_tFactor_update,
    u32_member bld_isTextureFactorBlend bld_isTextureFactorBlend_update]"

interpretation InstanceInfoBlend: static_layout InstanceInfoBlendVars "\<lambda>_. True" "\<lambda>_ x. x" 65
  by unfold_locales (auto simp: InstanceInfoBlendVars_def codec_simps static_sizes intro!: InstanceInfoBlend.equality)

text \<open>The bone transforms are an array with its length.\<close>

record InstanceInfoTransforms =
  bon_sType :: u32
  bon_boneTransforms_values :: "u32 list list"
  bon_boneTransforms_count :: u32

definition InstanceInfoTransforms_calcSize :: "InstanceInfoTransforms \<Rightarrow> u32" where
  "InstanceInfoTransforms_calcSize x = 4 + 4 + 48 * bon_boneTransforms_count x"

definition InstanceInfoTransforms_serialize :: "InstanceInfoTransforms \<Rightarrow> memory option" where
  "InstanceInfoTransforms_serialize x = (let n = unat (bon_boneTransforms_count x) in
     if n \<le> length (bon_boneTransforms_values x)
     then Some (u32_bytes (bon_sType x) @ u32_bytes (bon_boneTransforms_count x) @
       concat (map ser_words (take n (bon_boneTransforms_values x))))
     else None)"

definition InstanceInfoTransforms_deserialize :: "InstanceInfoTransforms \<Rightarrow> InstanceInfoTransforms reader" where
  "InstanceInfoTransforms_deserialize old p = (case des_u32 p of None \<Rightarrow> None | Some (t, p1) \<Rightarrow>
     (case des_u32 p1 of None \<Rightarrow> None | Some (n, p2) \<Rightarrow>
     (case des_for_each (\<lambda>_. des_transform) [] (unat n) p2 of None \<Rightarrow> None | Some (xs, p3) \<Rightarrow>
       Some (old\<lparr>bon_sType := t, bon_boneTransforms_count := n, bon_boneTransforms_values := xs\<rparr>, p3))))"

definition InstanceInfoTransforms_ok :: "InstanceInfoTransforms \<Rightarrow> bool" where
  "InstanceInfoTransforms_ok x \<longleftrightarrow> unat (bon_boneTransforms_count x) = length (bon_boneTransforms_values x) \<and>
     (\<forall>t\<in>set (bon_boneTransforms_values x). transform_ok t) \<and> 48 * length (bon_boneTransforms_values x) + 12 < 2 ^ 32"

lemma length_transforms: "\<forall>t\<in>set ts. transform_ok t \<Longrightarrow> length (concat (map ser_words ts)) = 48 * length ts"
  by (induction ts) (simp_all add: transform_ok_def)

interpretation InstanceInfoTransforms: serializable InstanceInfoTransforms_serialize InstanceInfoTransforms_calcSize
    InstanceInfoTransforms_deserialize InstanceInfoTransforms_ok "\<lambda>_ x. x"
proof
  fix x assume ok: "InstanceInfoTransforms_ok x"
  let ?bs = "u32_bytes (bon_sType x) @ u32_bytes (bon_boneTransforms_count x) @ concat (map ser_words (bon_boneTransforms_values x))"
  have n: "unat (bon_boneTransforms_count x) = length (bon_boneTransforms_values x)"
    and each: "\<forall>t\<in>set (bon_boneTransforms_values x). transform_ok t"
    and len: "length ?bs = 8 + 48 * length (bon_boneTransforms_values x)" and small: "48 * length (bon_boneTransforms_values x) + 12 < 2 ^ 32"
    using ok length_transforms by (simp_all add: InstanceInfoTransforms_ok_def)
  have count: "bon_boneTransforms_count x = word_of_nat (length (bon_boneTransforms_values x))"
    by (simp flip: n)
  have "InstanceInfoTransforms_serialize x = Some ?bs" by (simp add: InstanceInfoTransforms_serialize_def n)
  moreover have "word_of_nat (length ?bs) = InstanceInfoTransforms_calcSize x"
    by (simp only: len) (simp add: InstanceInfoTransforms_calcSize_def count)
  moreover have "InstanceInfoTransforms_deserialize old (?bs @ rest) = Some (x, rest)" for old rest
    using transform.for_each [OF each, of "[]" rest]
    by (simp add: InstanceInfoTransforms_deserialize_def n InstanceInfoTransforms.equality)
  ultimately show "\<exists>bs. InstanceInfoTransforms_serialize x = Some bs \<and> length bs + 4 < 2 ^ 32 \<and>
      word_of_nat (length bs) = InstanceInfoTransforms_calcSize x \<and>
      (\<forall>fresh rest. InstanceInfoTransforms_deserialize fresh (bs @ rest) = Some (x, rest))"
    using small len by (intro exI [of _ ?bs]) simp
qed

section \<open>Lights\<close>

record LightInfo =
  lgt_sType :: u32
  lgt_hash :: u64
  lgt_radiance :: Float3D

definition LightInfoVars :: "LightInfo member list" where
  "LightInfoVars = [u32_member lgt_sType lgt_sType_update, u64_member lgt_hash lgt_hash_update,
    float3_member lgt_radiance lgt_radiance_update]"

interpretation LightInfo: static_layout LightInfoVars "\<lambda>_. True" "\<lambda>_ x. x" 28
  by unfold_locales (auto simp: LightInfoVars_def codec_simps static_sizes intro!: LightInfo.equality)

record LightShaping =
  shp_direction :: Float3D
  shp_coneAngleDegrees :: u32
  shp_coneSoftness :: u32
  shp_focusExponent :: u32

definition LightShapingVars :: "LightShaping member list" where
  "LightShapingVars = [float3_member shp_direction shp_direction_update, u32_member shp_coneAngleDegrees shp_coneAngleDegrees_update,
    u32_member shp_coneSoftness shp_coneSoftness_update, u32_member shp_focusExponent shp_focusExponent_update]"

interpretation shaping: codec "fold_serialize LightShapingVars" "fold_calcSize LightShapingVars" "fold_deserialize LightShapingVars" "\<lambda>_. True"
  by unfold_locales (auto simp: LightShapingVars_def codec_simps intro!: LightShaping.equality)

abbreviation "shaping_member \<equiv> member (fold_serialize LightShapingVars) (fold_calcSize LightShapingVars) (fold_deserialize LightShapingVars)"

lemma shaping_static: "fold_calcSize LightShapingVars v = 24" "length (fold_serialize LightShapingVars v) = 24"
  by (simp_all add: LightShapingVars_def codec_simps static_sizes)

lemmas [simp] = shaping_static

record LightInfoSphere =
  sph_sType :: u32
  sph_position :: Float3D
  sph_radius :: u32
  sph_shaping_hasvalue :: u32
  sph_shaping_value :: LightShaping
  sph_volumetricRadianceScale :: u32

definition LightInfoSphereVars :: "LightInfoSphere member list" where
  "LightInfoSphereVars = [u32_member sph_sType sph_sType_update, float3_member sph_position sph_position_update,
    u32_member sph_radius sph_radius_update, u32_member sph_shaping_hasvalue sph_shaping_hasvalue_update,
    shaping_member sph_shaping_value sph_shaping_value_update]"

definition LightInfoSphere_kept :: "LightInfoSphere \<Rightarrow> LightInfoSphere \<Rightarrow> LightInfoSphere" where
  "LightInfoSphere_kept fresh x = x\<lparr>sph_volumetricRadianceScale := sph_volumetricRadianceScale fresh\<rparr>"

interpretation LightInfoSphere: static_layout LightInfoSphereVars "\<lambda>_. True" LightInfoSphere_kept 52
  by unfold_locales (auto simp: LightInfoSphereVars_def LightInfoSphere_kept_def codec_simps static_sizes intro!: LightInfoSphere.equality)

record LightInfoRect =
  rct_sType :: u32
  rct_position :: Float3D
  rct_xAxis :: Float3D
  rct_xSize :: u32
  rct_yAxis :: Float3D
  rct_ySize :: u32
  rct_direction :: Float3D
  rct_shaping_hasvalue :: u32
  rct_shaping_value :: LightShaping
  rct_volumetricRadianceScale :: u32

definition LightInfoRectVars :: "LightInfoRect member list" where
  "LightInfoRectVars = [u32_member rct_sType rct_sType_update, float3_member rct_position rct_position_update,
    float3_member rct_xAxis rct_xAxis_update, u32_member rct_xSize rct_xSize_update,
    float3_member rct_yAxis rct_yAxis_update, u32_member rct_ySize rct_ySize_update,
    float3_member rct_direction rct_direction_update, u32_member rct_shaping_hasvalue rct_shaping_hasvalue_update,
    shaping_member rct_shaping_value rct_shaping_value_update]"

definition LightInfoRect_kept :: "LightInfoRect \<Rightarrow> LightInfoRect \<Rightarrow> LightInfoRect" where
  "LightInfoRect_kept fresh x = x\<lparr>rct_volumetricRadianceScale := rct_volumetricRadianceScale fresh\<rparr>"

interpretation LightInfoRect: static_layout LightInfoRectVars "\<lambda>_. True" LightInfoRect_kept 92
  by unfold_locales (auto simp: LightInfoRectVars_def LightInfoRect_kept_def codec_simps static_sizes intro!: LightInfoRect.equality)

record LightInfoDisk =
  dsk_sType :: u32
  dsk_position :: Float3D
  dsk_xAxis :: Float3D
  dsk_xRadius :: u32
  dsk_yAxis :: Float3D
  dsk_yRadius :: u32
  dsk_direction :: Float3D
  dsk_shaping_hasvalue :: u32
  dsk_shaping_value :: LightShaping
  dsk_volumetricRadianceScale :: u32

definition LightInfoDiskVars :: "LightInfoDisk member list" where
  "LightInfoDiskVars = [u32_member dsk_sType dsk_sType_update, float3_member dsk_position dsk_position_update,
    float3_member dsk_xAxis dsk_xAxis_update, u32_member dsk_xRadius dsk_xRadius_update,
    float3_member dsk_yAxis dsk_yAxis_update, u32_member dsk_yRadius dsk_yRadius_update,
    float3_member dsk_direction dsk_direction_update, u32_member dsk_shaping_hasvalue dsk_shaping_hasvalue_update,
    shaping_member dsk_shaping_value dsk_shaping_value_update]"

definition LightInfoDisk_kept :: "LightInfoDisk \<Rightarrow> LightInfoDisk \<Rightarrow> LightInfoDisk" where
  "LightInfoDisk_kept fresh x = x\<lparr>dsk_volumetricRadianceScale := dsk_volumetricRadianceScale fresh\<rparr>"

interpretation LightInfoDisk: static_layout LightInfoDiskVars "\<lambda>_. True" LightInfoDisk_kept 92
  by unfold_locales (auto simp: LightInfoDiskVars_def LightInfoDisk_kept_def codec_simps static_sizes intro!: LightInfoDisk.equality)

record LightInfoCylinder =
  cyl_sType :: u32
  cyl_position :: Float3D
  cyl_radius :: u32
  cyl_axis :: Float3D
  cyl_axisLength :: u32
  cyl_volumetricRadianceScale :: u32

definition LightInfoCylinderVars :: "LightInfoCylinder member list" where
  "LightInfoCylinderVars = [u32_member cyl_sType cyl_sType_update, float3_member cyl_position cyl_position_update,
    u32_member cyl_radius cyl_radius_update, float3_member cyl_axis cyl_axis_update,
    u32_member cyl_axisLength cyl_axisLength_update]"

definition LightInfoCylinder_kept :: "LightInfoCylinder \<Rightarrow> LightInfoCylinder \<Rightarrow> LightInfoCylinder" where
  "LightInfoCylinder_kept fresh x = x\<lparr>cyl_volumetricRadianceScale := cyl_volumetricRadianceScale fresh\<rparr>"

interpretation LightInfoCylinder: static_layout LightInfoCylinderVars "\<lambda>_. True" LightInfoCylinder_kept 40
  by unfold_locales (auto simp: LightInfoCylinderVars_def LightInfoCylinder_kept_def codec_simps static_sizes intro!: LightInfoCylinder.equality)

record LightInfoDistant =
  dst_sType :: u32
  dst_direction :: Float3D
  dst_angularDiameterDegrees :: u32
  dst_volumetricRadianceScale :: u32

definition LightInfoDistantVars :: "LightInfoDistant member list" where
  "LightInfoDistantVars = [u32_member dst_sType dst_sType_update, float3_member dst_direction dst_direction_update,
    u32_member dst_angularDiameterDegrees dst_angularDiameterDegrees_update]"

definition LightInfoDistant_kept :: "LightInfoDistant \<Rightarrow> LightInfoDistant \<Rightarrow> LightInfoDistant" where
  "LightInfoDistant_kept fresh x = x\<lparr>dst_volumetricRadianceScale := dst_volumetricRadianceScale fresh\<rparr>"

interpretation LightInfoDistant: static_layout LightInfoDistantVars "\<lambda>_. True" LightInfoDistant_kept 24
  by unfold_locales (auto simp: LightInfoDistantVars_def LightInfoDistant_kept_def codec_simps static_sizes intro!: LightInfoDistant.equality)

record LightInfoDome =
  dom_sType :: u32
  dom_transform :: "u32 list"
  dom_colorTexture :: path

definition LightInfoDomeVars :: "LightInfoDome member list" where
  "LightInfoDomeVars = [u32_member dom_sType dom_sType_update, transform_member dom_transform dom_transform_update,
    path_member dom_colorTexture dom_colorTexture_update]"

definition LightInfoDome_ok :: "LightInfoDome \<Rightarrow> bool" where
  "LightInfoDome_ok x \<longleftrightarrow> transform_ok (dom_transform x) \<and> path_ok (dom_colorTexture x) \<and>
    length (fold_serialize LightInfoDomeVars x) + 4 < 2 ^ 32"

interpretation LightInfoDome: layout LightInfoDomeVars LightInfoDome_ok "\<lambda>_ x. x"
  by unfold_locales (auto simp: LightInfoDomeVars_def LightInfoDome_ok_def codec_simps intro!: LightInfoDome.equality)

text \<open>The optional members of \<open>remixapi_LightInfoUSDEXT\<close> are pointers, null when there is no value; the last one is not in the list.\<close>

definition no_float3 :: Float3D where "no_float3 = \<lparr>f_x = 0, f_y = 0, f_z = 0\<rparr>"

abbreviation "u32_pointer \<equiv> member (serialize__optionalPointer u32_bytes) (sizeOf__optionalPointer (\<lambda>_. 4))
  (\<lambda>_. deserialize__optionalPointer (\<lambda>_. des_u32) 0)"
abbreviation "float3_pointer \<equiv> member (serialize__optionalPointer ser_float3) (sizeOf__optionalPointer (\<lambda>_. 12))
  (\<lambda>_. deserialize__optionalPointer (\<lambda>_. des_float3) no_float3)"

record LightInfoUSD =
  usd_sType :: u32
  usd_lightType :: u32
  usd_transform :: "u32 list"
  usd_pRadius :: "u32 option"
  usd_pWidth :: "u32 option"
  usd_pHeight :: "u32 option"
  usd_pLength :: "u32 option"
  usd_pAngleRadians :: "u32 option"
  usd_pEnableColorTemp :: "u32 option"
  usd_pColor :: "Float3D option"
  usd_pColorTemp :: "u32 option"
  usd_pExposure :: "u32 option"
  usd_pIntensity :: "u32 option"
  usd_pConeAngleRadians :: "u32 option"
  usd_pConeSoftness :: "u32 option"
  usd_pFocus :: "u32 option"
  usd_pVolumetricRadianceScale :: "u32 option"

definition LightInfoUSDVars :: "LightInfoUSD member list" where
  "LightInfoUSDVars = [u32_member usd_sType usd_sType_update, u32_member usd_lightType usd_lightType_update,
    transform_member usd_transform usd_transform_update, u32_pointer usd_pRadius usd_pRadius_update,
    u32_pointer usd_pWidth usd_pWidth_update, u32_pointer usd_pHeight usd_pHeight_update,
    u32_pointer usd_pLength usd_pLength_update, u32_pointer usd_pAngleRadians usd_pAngleRadians_update,
    u32_pointer usd_pEnableColorTemp usd_pEnableColorTemp_update, float3_pointer usd_pColor usd_pColor_update,
    u32_pointer usd_pColorTemp usd_pColorTemp_update, u32_pointer usd_pExposure usd_pExposure_update,
    u32_pointer usd_pIntensity usd_pIntensity_update, u32_pointer usd_pConeAngleRadians usd_pConeAngleRadians_update,
    u32_pointer usd_pConeSoftness usd_pConeSoftness_update, u32_pointer usd_pFocus usd_pFocus_update]"

definition LightInfoUSD_ok :: "LightInfoUSD \<Rightarrow> bool" where
  "LightInfoUSD_ok x \<longleftrightarrow> transform_ok (usd_transform x) \<and> length (fold_serialize LightInfoUSDVars x) + 4 < 2 ^ 32"

definition LightInfoUSD_kept :: "LightInfoUSD \<Rightarrow> LightInfoUSD \<Rightarrow> LightInfoUSD" where
  "LightInfoUSD_kept fresh x = x\<lparr>usd_pVolumetricRadianceScale := usd_pVolumetricRadianceScale fresh\<rparr>"

interpretation LightInfoUSD: layout LightInfoUSDVars LightInfoUSD_ok LightInfoUSD_kept
  by unfold_locales (auto simp: LightInfoUSDVars_def LightInfoUSD_ok_def LightInfoUSD_kept_def codec_simps intro!: LightInfoUSD.equality)

end
