(* ===== verification/Remix_Mesh.thy ===== *)
theory Remix_Mesh
  imports Remix_Structs
begin

text \<open>
  The serialisation of \<open>remixapi_MeshInfo\<close> with its surfaces (\<open>util_remixapi.cpp\<close>).  An array of the caller is a list; copying more
  bytes than the array has is a read outside of it.  The padding of a vertex is not part of the stream and left out.
\<close>

section \<open>Vertices\<close>

record HardcodedVertex =
  vtx_position :: "u32 list"
  vtx_normal :: "u32 list"
  vtx_texcoord :: "u32 list"
  vtx_color :: u32

definition andthen :: "'a reader \<Rightarrow> ('a \<Rightarrow> 'b reader) \<Rightarrow> 'b reader" where
  "andthen m f p = (case m p of None \<Rightarrow> None | Some (x, r) \<Rightarrow> f x r)"

definition words_of :: "nat \<Rightarrow> u32 list reader" where
  "words_of n p = map_option (\<lambda>(b, r). (words_in b, r)) (take_bytes n p)"

definition ser_vertex :: "HardcodedVertex \<Rightarrow> memory" where
  "ser_vertex v = ser_words (vtx_position v) @ ser_words (vtx_normal v) @ ser_words (vtx_texcoord v) @ u32_bytes (vtx_color v)"

definition des_vertex :: "HardcodedVertex \<Rightarrow> HardcodedVertex reader" where
  "des_vertex old = andthen (words_of 12) (\<lambda>a. andthen (words_of 12) (\<lambda>b. andthen (words_of 8) (\<lambda>c. andthen des_u32 (\<lambda>d p.
     Some (old\<lparr>vtx_position := a, vtx_normal := b, vtx_texcoord := c, vtx_color := d\<rparr>, p)))))"

definition vertex_ok :: "HardcodedVertex \<Rightarrow> bool" where
  "vertex_ok v \<longleftrightarrow> length (vtx_position v) = 3 \<and> length (vtx_normal v) = 3 \<and> length (vtx_texcoord v) = 2"

lemma andthen_Some [simp]: "m p = Some (x, r) \<Longrightarrow> andthen m f p = f x r"
  by (simp add: andthen_def)

lemma words_of_ser [simp]: "n = 4 * length ws \<Longrightarrow> words_of n (ser_words ws @ rest) = Some (ws, rest)"
  by (simp add: words_of_def)

interpretation vertex: codec ser_vertex "\<lambda>_. 36" des_vertex vertex_ok
  by unfold_locales (auto simp: ser_vertex_def des_vertex_def vertex_ok_def intro!: HardcodedVertex.equality)

section \<open>Surfaces\<close>

record MeshInfoSkinning =
  skn_bonesPerVertex :: u32
  skn_blendWeights_values :: "u32 list"
  skn_blendWeights_count :: u32
  skn_blendIndices_values :: "u32 list"
  skn_blendIndices_count :: u32

record MeshInfoSurfaceTriangles =
  srf_vertices_values :: "HardcodedVertex list"
  srf_vertices_count :: u64
  srf_indices_values :: "u32 list"
  srf_indices_count :: u64
  srf_skinning_hasvalue :: u32
  srf_skinning_value :: MeshInfoSkinning
  srf_material :: u64

definition blendWeightSizePerVtx :: "MeshInfoSkinning \<Rightarrow> u32" where
  "blendWeightSizePerVtx k = skn_blendWeights_count k * skn_bonesPerVertex k * 4"

definition blendIndicesSizePerVtx :: "MeshInfoSkinning \<Rightarrow> u32" where
  "blendIndicesSizePerVtx k = skn_blendIndices_count k * skn_bonesPerVertex k * 4"

text \<open>\<open>vertices_count\<close> has 64 bits and the sizes 32.\<close>

definition per_vertex :: "u64 \<Rightarrow> u32 \<Rightarrow> u32" where
  "per_vertex count sz = ucast (count * ucast sz)"

definition sizeOf_surface :: "MeshInfoSurfaceTriangles \<Rightarrow> u32" where
  "sizeOf_surface s = 8 + per_vertex (srf_vertices_count s) 36 + 8 + per_vertex (srf_indices_count s) 4 + 4
     + (if srf_skinning_hasvalue s \<noteq> 0
        then 4 + 4 + per_vertex (srf_vertices_count s) (blendWeightSizePerVtx (srf_skinning_value s))
           + 4 + per_vertex (srf_vertices_count s) (blendIndicesSizePerVtx (srf_skinning_value s)) else 0) + 4"

text \<open>\<open>serialize(pointer, p, size)\<close> on an array of words.\<close>

definition copied :: "u32 list \<Rightarrow> u32 \<Rightarrow> memory option" where
  "copied ws n = map_option fst (take_bytes (unat n) (ser_words ws))"

definition joined :: "memory option list \<Rightarrow> memory option" where
  "joined bs = (if None \<in> set bs then None else Some (concat (map the bs)))"

definition ser_surface :: "MeshInfoSurfaceTriangles \<Rightarrow> memory option" where
  "ser_surface s = joined
    ([Some (u64_bytes (srf_vertices_count s)),
      if unat (srf_vertices_count s) \<le> length (srf_vertices_values s)
        then Some (concat (map ser_vertex (take (unat (srf_vertices_count s)) (srf_vertices_values s)))) else None,
      Some (u64_bytes (srf_indices_count s)),
      copied (srf_indices_values s) (per_vertex (srf_indices_count s) 4),
      Some (u32_bytes (srf_skinning_hasvalue s))]
     @ (if srf_skinning_hasvalue s \<noteq> 0 then let k = srf_skinning_value s in
         [Some (u32_bytes (skn_bonesPerVertex k)), Some (u32_bytes (skn_blendWeights_count k)),
          copied (skn_blendWeights_values k) (per_vertex (srf_vertices_count s) (blendWeightSizePerVtx k)),
          Some (u32_bytes (skn_blendIndices_count k)),
          copied (skn_blendIndices_values k) (per_vertex (srf_vertices_count s) (blendIndicesSizePerVtx k))] else [])
     @ [Some (ser_handle (srf_material s))])"

definition des_skinning :: "u64 \<Rightarrow> MeshInfoSkinning \<Rightarrow> MeshInfoSkinning reader" where
  "des_skinning vertices old = andthen des_u32 (\<lambda>bones. andthen des_u32 (\<lambda>wc.
     let k1 = old\<lparr>skn_bonesPerVertex := bones, skn_blendWeights_count := wc\<rparr> in
     andthen (words_of (unat (per_vertex vertices (blendWeightSizePerVtx k1)))) (\<lambda>ws. andthen des_u32 (\<lambda>ic.
     let k2 = k1\<lparr>skn_blendWeights_values := ws, skn_blendIndices_count := ic\<rparr> in
     andthen (words_of (unat (per_vertex vertices (blendIndicesSizePerVtx k2)))) (\<lambda>is p. Some (k2\<lparr>skn_blendIndices_values := is\<rparr>, p))))))"

definition des_surface :: "HardcodedVertex \<Rightarrow> MeshInfoSurfaceTriangles \<Rightarrow> MeshInfoSurfaceTriangles reader" where
  "des_surface fresh old = andthen des_u64 (\<lambda>vc. andthen (des_for_each des_vertex fresh (unat vc)) (\<lambda>vs.
     andthen des_u64 (\<lambda>ic. andthen (words_of (unat (per_vertex ic 4))) (\<lambda>is. andthen des_u32 (\<lambda>has.
     let s1 = old\<lparr>srf_vertices_count := vc, srf_vertices_values := vs, srf_indices_count := ic, srf_indices_values := is,
       srf_skinning_hasvalue := has\<rparr> in
     andthen (\<lambda>p. if has \<noteq> 0 then des_skinning vc (srf_skinning_value old) p else Some (srf_skinning_value old, p)) (\<lambda>k.
     andthen des_handle (\<lambda>m p. Some (s1\<lparr>srf_skinning_value := k, srf_material := m\<rparr>, p))))))))"

section \<open>The mesh\<close>

record MeshInfo =
  msh_sType :: u32
  msh_hash :: u64
  msh_surfaces_values :: "MeshInfoSurfaceTriangles list"
  msh_surfaces_count :: u32

definition MeshInfo_calcSize :: "MeshInfo \<Rightarrow> u32" where
  "MeshInfo_calcSize m = 4 + 8 + 4 + sum_list (map sizeOf_surface (take (unat (msh_surfaces_count m)) (msh_surfaces_values m)))"

definition MeshInfo_serialize :: "MeshInfo \<Rightarrow> memory option" where
  "MeshInfo_serialize m = (let n = unat (msh_surfaces_count m) in
     if n \<le> length (msh_surfaces_values m)
     then joined ([Some (u32_bytes (msh_sType m)), Some (u64_bytes (msh_hash m)), Some (u32_bytes (msh_surfaces_count m))]
       @ map ser_surface (take n (msh_surfaces_values m)))
     else None)"

definition MeshInfo_deserialize :: "HardcodedVertex \<Rightarrow> MeshInfoSurfaceTriangles \<Rightarrow> MeshInfo \<Rightarrow> MeshInfo reader" where
  "MeshInfo_deserialize fresh_vertex fresh_surface old = andthen des_u32 (\<lambda>t. andthen des_u64 (\<lambda>h. andthen des_u32 (\<lambda>n.
     andthen (des_for_each (des_surface fresh_vertex) fresh_surface (unat n)) (\<lambda>ss p.
       Some (old\<lparr>msh_sType := t, msh_hash := h, msh_surfaces_count := n, msh_surfaces_values := ss\<rparr>, p)))))"

section \<open>Reading a mesh back\<close>

text \<open>What an application has to pass: arrays of the sizes that are copied.  A surface without skinning is received with what
  its new object held for the skinning.\<close>

definition skinning_ok :: "u64 \<Rightarrow> MeshInfoSkinning \<Rightarrow> bool" where
  "skinning_ok vertices k \<longleftrightarrow>
     unat (per_vertex vertices (blendWeightSizePerVtx k)) = 4 * length (skn_blendWeights_values k) \<and>
     unat (per_vertex vertices (blendIndicesSizePerVtx k)) = 4 * length (skn_blendIndices_values k)"

definition surface_ok :: "MeshInfoSkinning \<Rightarrow> MeshInfoSurfaceTriangles \<Rightarrow> bool" where
  "surface_ok fresh s \<longleftrightarrow> unat (srf_vertices_count s) = length (srf_vertices_values s) \<and> (\<forall>v\<in>set (srf_vertices_values s). vertex_ok v) \<and>
     unat (srf_indices_count s) = length (srf_indices_values s) \<and> 4 * length (srf_indices_values s) < 2 ^ 32 \<and>
     handle_ok (srf_material s) \<and>
     (if srf_skinning_hasvalue s \<noteq> 0 then skinning_ok (srf_vertices_count s) (srf_skinning_value s) else srf_skinning_value s = fresh)"

definition mesh_ok :: "MeshInfoSkinning \<Rightarrow> MeshInfo \<Rightarrow> bool" where
  "mesh_ok fresh m \<longleftrightarrow> unat (msh_surfaces_count m) = length (msh_surfaces_values m) \<and> (\<forall>s\<in>set (msh_surfaces_values m). surface_ok fresh s) \<and>
     (\<forall>bs. MeshInfo_serialize m = Some bs \<longrightarrow> length bs + 4 < 2 ^ 32)"

lemma joined_Some: "joined (map Some bs) = Some (concat bs)"
  by (auto simp: joined_def comp_def)

lemma joined_Cons: "joined (b # bs) = (case b of None \<Rightarrow> None | Some x \<Rightarrow> map_option (\<lambda>y. x @ y) (joined bs))"
  by (auto simp: joined_def split: option.splits)

lemma joined_Nil [simp]: "joined [] = Some []"
  by (simp add: joined_def)

lemma copied_all: "unat n = 4 * length ws \<Longrightarrow> copied ws n = Some (ser_words ws)"
  by (simp add: copied_def take_bytes_def)

lemma copied_over: "4 * length ws < unat n \<Longrightarrow> copied ws n = None"
  by (simp add: copied_def take_bytes_def)

lemma per_vertex_nat:
  assumes "unat n * unat sz < 2 ^ 32"
  shows "unat (per_vertex n sz) = unat n * unat sz"
proof -
  have "unat sz mod 2 ^ 64 = unat sz" using unsigned_less [of sz, where 'a = nat] by simp
  then show ?thesis
    using assms by (simp add: per_vertex_def unsigned_ucast_eq unsigned_take_bit_eq unat_word_ariths take_bit_eq_mod)
qed

definition skinning_bytes :: "MeshInfoSkinning \<Rightarrow> memory" where
  "skinning_bytes k = u32_bytes (skn_bonesPerVertex k) @ u32_bytes (skn_blendWeights_count k) @ ser_words (skn_blendWeights_values k) @
     u32_bytes (skn_blendIndices_count k) @ ser_words (skn_blendIndices_values k)"

definition surface_bytes :: "MeshInfoSurfaceTriangles \<Rightarrow> memory" where
  "surface_bytes s = u64_bytes (srf_vertices_count s) @ concat (map ser_vertex (srf_vertices_values s)) @
     u64_bytes (srf_indices_count s) @ ser_words (srf_indices_values s) @ u32_bytes (srf_skinning_hasvalue s) @
     (if srf_skinning_hasvalue s \<noteq> 0 then skinning_bytes (srf_skinning_value s) else []) @ ser_handle (srf_material s)"

lemma indices_size: "surface_ok k s \<Longrightarrow> unat (per_vertex (srf_indices_count s) 4) = 4 * length (srf_indices_values s)"
  by (simp add: surface_ok_def per_vertex_nat)

lemma ser_surface_bytes:
  assumes "surface_ok k s"
  shows "ser_surface s = Some (surface_bytes s)"
  using assms indices_size [OF assms]
  by (auto simp: ser_surface_def surface_ok_def skinning_ok_def joined_Cons copied_all Let_def surface_bytes_def skinning_bytes_def)

lemma des_skinning_bytes:
  "skinning_ok n k \<Longrightarrow> des_skinning n old (skinning_bytes k @ rest) = Some (k, rest)"
  by (auto simp: des_skinning_def skinning_bytes_def skinning_ok_def Let_def blendWeightSizePerVtx_def blendIndicesSizePerVtx_def
      intro!: MeshInfoSkinning.equality)

lemma des_surface_bytes:
  assumes ok: "surface_ok (srf_skinning_value old) s"
  shows "des_surface fresh old (surface_bytes s @ rest) = Some (s, rest)"
proof -
  have vs: "des_for_each des_vertex fresh (length (srf_vertices_values s)) (concat (map ser_vertex (srf_vertices_values s)) @ r)
      = Some (srf_vertices_values s, r)" for r
    using ok vertex.for_each [of "srf_vertices_values s" fresh r] by (simp add: surface_ok_def)
  show ?thesis
    using ok indices_size [OF ok]
    by (auto simp: des_surface_def surface_bytes_def vs surface_ok_def Let_def des_skinning_bytes handle.des_ser
        intro!: MeshInfoSurfaceTriangles.equality)
qed

lemma length_vertices: "\<forall>v\<in>set vs. vertex_ok v \<Longrightarrow> length (concat (map ser_vertex vs)) = 36 * length vs"
  by (induction vs) (simp_all add: ser_vertex_def vertex_ok_def)

lemma word_of_nat_mod64: "(word_of_nat (m mod 2 ^ 64) :: u32) = word_of_nat m"
proof -
  have "take_bit 32 (take_bit 64 m) = take_bit 32 m" by simp
  then show ?thesis by (simp add: word_of_nat_eq_iff take_bit_eq_mod)
qed

lemma per_vertex_word: "per_vertex n sz = ucast n * sz"
proof -
  have "per_vertex n sz = word_of_nat (unat (n * ucast sz))" by (simp add: per_vertex_def)
  also have "unat (n * ucast sz) = (unat n * unat (ucast sz :: u64)) mod 2 ^ 64" by (simp add: unat_word_ariths)
  also have "word_of_nat \<dots> = (word_of_nat (unat n) * word_of_nat (unat (ucast sz :: u64)) :: u32)"
    unfolding word_of_nat_mod64 by simp
  also have "\<dots> = ucast n * sz" by (simp add: ucast_up_ucast_id is_up)
  finally show ?thesis .
qed

lemma size_surface_bytes:
  assumes ok: "surface_ok k s"
  shows "word_of_nat (length (surface_bytes s)) = sizeOf_surface s"
proof -
  have "word_of_nat (unat (srf_vertices_count s)) = (word_of_nat (length (srf_vertices_values s)) :: u32)"
    "word_of_nat (unat (srf_indices_count s)) = (word_of_nat (length (srf_indices_values s)) :: u32)"
    using ok by (simp_all only: surface_ok_def)
  then have n: "(word_of_nat (length (srf_vertices_values s)) :: u32) = ucast (srf_vertices_count s)"
    and i: "(word_of_nat (length (srf_indices_values s)) :: u32) = ucast (srf_indices_count s)" by simp_all
  have w: "(word_of_nat (4 * length ws) :: u32) = x" if "unat x = 4 * length ws" for x ws
    using that by (metis of_nat_unat unsigned_word_eqI ucast_id)
  have vs: "length (concat (map ser_vertex (srf_vertices_values s))) = 36 * length (srf_vertices_values s)"
    using ok by (intro length_vertices) (simp add: surface_ok_def)
  show ?thesis
  proof (cases "srf_skinning_hasvalue s = 0")
    case True
    then show ?thesis using vs by (simp add: surface_bytes_def sizeOf_surface_def per_vertex_word n i algebra_simps)
  next
    case False
    let ?k = "srf_skinning_value s"
    have "skinning_ok (srf_vertices_count s) ?k" using ok False by (simp add: surface_ok_def)
    then have b: "4 * (word_of_nat (length (skn_blendWeights_values ?k)) :: u32) = ucast (srf_vertices_count s) * blendWeightSizePerVtx ?k"
      "4 * (word_of_nat (length (skn_blendIndices_values ?k)) :: u32) = ucast (srf_vertices_count s) * blendIndicesSizePerVtx ?k"
      using w [of "per_vertex (srf_vertices_count s) (blendWeightSizePerVtx ?k)" "skn_blendWeights_values ?k"]
        w [of "per_vertex (srf_vertices_count s) (blendIndicesSizePerVtx ?k)" "skn_blendIndices_values ?k"]
      by (simp_all add: skinning_ok_def per_vertex_word)
    have len: "word_of_nat (length (skinning_bytes ?k)) = 12 + 4 * (word_of_nat (length (skn_blendWeights_values ?k)) :: u32)
        + 4 * word_of_nat (length (skn_blendIndices_values ?k))"
      by (simp add: skinning_bytes_def)
    have "word_of_nat (length (surface_bytes s)) = 16 + 36 * ucast (srf_vertices_count s) + 4 * ucast (srf_indices_count s) + 4
        + (word_of_nat (length (skinning_bytes ?k)) :: u32) + 4"
      using vs False by (simp add: surface_bytes_def n i)
    also have "\<dots> = sizeOf_surface s"
      unfolding len b using False by (simp add: sizeOf_surface_def per_vertex_word algebra_simps)
    finally show ?thesis .
  qed
qed

text \<open>A surface is an array element, so that the whole mesh follows from the contract.\<close>

interpretation surface: codec surface_bytes sizeOf_surface "\<lambda>_. des_surface fresh_vertex fresh" "surface_ok (srf_skinning_value fresh)"
  for fresh_vertex fresh
  by unfold_locales (simp_all add: des_surface_bytes size_surface_bytes)

lemma des_for_each_fresh: "des_for_each des fresh n p = des_for_each (\<lambda>_. des fresh) other n p"
  by (induction n arbitrary: p) (simp_all split: option.splits)

definition mesh_bytes :: "MeshInfo \<Rightarrow> memory" where
  "mesh_bytes m = u32_bytes (msh_sType m) @ u64_bytes (msh_hash m) @ u32_bytes (msh_surfaces_count m) @
     concat (map surface_bytes (msh_surfaces_values m))"

lemma joined_surfaces: "\<forall>s\<in>set ss. surface_ok k s \<Longrightarrow> joined (map ser_surface ss) = Some (concat (map surface_bytes ss))"
  by (induction ss) (simp_all add: joined_Cons ser_surface_bytes [of k])

lemma MeshInfo_serialize_bytes: "mesh_ok k m \<Longrightarrow> MeshInfo_serialize m = Some (mesh_bytes m)"
  by (simp add: mesh_ok_def MeshInfo_serialize_def joined_Cons joined_surfaces [of _ k] mesh_bytes_def)

interpretation MeshInfo: serializable MeshInfo_serialize MeshInfo_calcSize "MeshInfo_deserialize fresh_vertex fresh_surface"
    "mesh_ok (srf_skinning_value fresh_surface)" "\<lambda>_ m. m" for fresh_vertex fresh_surface
proof
  fix m assume ok: "mesh_ok (srf_skinning_value fresh_surface) m"
  let ?ss = "msh_surfaces_values m"
  have n: "unat (msh_surfaces_count m) = length ?ss" and each: "\<forall>s\<in>set ?ss. surface_ok (srf_skinning_value fresh_surface) s"
    using ok by (simp_all add: mesh_ok_def)
  have ser: "MeshInfo_serialize m = Some (mesh_bytes m)" by (rule MeshInfo_serialize_bytes [OF ok])
  moreover have "length (mesh_bytes m) + 4 < 2 ^ 32" using ok ser unfolding mesh_ok_def by blast
  moreover have "word_of_nat (length (mesh_bytes m)) = MeshInfo_calcSize m"
    using surface.for_each_size [OF each] by (simp add: mesh_bytes_def MeshInfo_calcSize_def n)
  moreover have "MeshInfo_deserialize fresh_vertex fresh_surface old (mesh_bytes m @ rest) = Some (m, rest)" for old rest
  proof -
    have "des_for_each (des_surface fresh_vertex) fresh_surface (length ?ss) (concat (map surface_bytes ?ss) @ rest) = Some (?ss, rest)"
      using surface.for_each [OF each, of fresh_vertex fresh_surface rest]
      by (simp only: des_for_each_fresh [of "des_surface fresh_vertex" fresh_surface _ _ fresh_surface])
    then show ?thesis
      by (auto simp: MeshInfo_deserialize_def mesh_bytes_def n intro!: MeshInfo.equality)
  qed
  ultimately show "\<exists>bs. MeshInfo_serialize m = Some bs \<and> length bs + 4 < 2 ^ 32 \<and> word_of_nat (length bs) = MeshInfo_calcSize m \<and>
      (\<forall>old rest. MeshInfo_deserialize fresh_vertex fresh_surface old (bs @ rest) = Some (m, rest))"
    by (intro exI [of _ "mesh_bytes m"]) simp
qed

section \<open>Skinned meshes\<close>

text \<open>The API asks for \<open>bonesPerVertex * vertexCount\<close> weights and for that number as their count.  The serialisation
  multiplies the count by the bones and by the vertices once more, so it reads outside of the array of weights of every such surface with
  two vertices or two bones, unless the product is beyond 32 bits.\<close>

theorem skinned_surface_overrun:
  assumes "srf_skinning_hasvalue s \<noteq> 0" and k: "k = srf_skinning_value s"
    and documented: "unat (skn_blendWeights_count k) = unat (skn_bonesPerVertex k) * unat (srf_vertices_count s)"
      "length (skn_blendWeights_values k) = unat (skn_blendWeights_count k)"
    and more: "1 < unat (skn_blendWeights_count k)"
    and small: "4 * (unat (skn_blendWeights_count k))\<^sup>2 < 2 ^ 32"
  shows "ser_surface s = None"
proof -
  let ?c = "unat (skn_blendWeights_count k)" and ?b = "unat (skn_bonesPerVertex k)" and ?v = "unat (srf_vertices_count s)"
  have cbv: "?v * (?c * ?b * 4) = 4 * ?c\<^sup>2" by (simp add: power2_eq_square documented(1) algebra_simps)
  have "0 < ?v" using more documented(1) by (cases "?v = 0") simp_all
  then have "1 * (?c * ?b * 4) \<le> ?v * (?c * ?b * 4)" by (intro mult_le_mono1) simp
  then have le: "?c * ?b * 4 < 2 ^ 32" using small unfolding cbv by linarith
  have "unat (blendWeightSizePerVtx k) = (?c * ?b mod 2 ^ 32) * 4 mod 2 ^ 32"
    by (simp add: blendWeightSizePerVtx_def unat_word_ariths)
  also have "\<dots> = ?c * ?b * 4" using le by simp
  finally have per: "unat (blendWeightSizePerVtx k) = ?c * ?b * 4" .
  have "unat (per_vertex (srf_vertices_count s) (blendWeightSizePerVtx k)) = 4 * ?c\<^sup>2"
    using per_vertex_nat [of "srf_vertices_count s" "blendWeightSizePerVtx k"] small unfolding per cbv by simp
  moreover have "4 * ?c < 4 * ?c\<^sup>2" using more by (simp add: power2_eq_square)
  ultimately have "copied (skn_blendWeights_values k) (per_vertex (srf_vertices_count s) (blendWeightSizePerVtx k)) = None"
    using documented(2) by (intro copied_over) simp
  then show ?thesis using assms(1) k by (simp add: ser_surface_def Let_def joined_def)
qed

text \<open>A triangle whose vertices have two bones each.\<close>

definition skinned_triangle :: MeshInfoSurfaceTriangles where
  "skinned_triangle = \<lparr>srf_vertices_values = replicate 3 \<lparr>vtx_position = [0, 0, 0], vtx_normal = [0, 0, 0], vtx_texcoord = [0, 0], vtx_color = 0\<rparr>,
     srf_vertices_count = 3, srf_indices_values = [0, 1, 2], srf_indices_count = 3, srf_skinning_hasvalue = 1,
     srf_skinning_value = \<lparr>skn_bonesPerVertex = 2, skn_blendWeights_values = replicate 6 0, skn_blendWeights_count = 6,
       skn_blendIndices_values = replicate 6 0, skn_blendIndices_count = 6\<rparr>, srf_material = 1\<rparr>"

lemma skinned_surface_overrun_witness: "ser_surface skinned_triangle = None"
  by (rule skinned_surface_overrun [of _ "srf_skinning_value skinned_triangle"]) (simp_all add: skinned_triangle_def)

end
