(* ===== verification/Remix_Calls.thy ===== *)
theory Remix_Calls
  imports Remix_Mesh Circular_Buffer
begin

text \<open>
  The Remix API across the bridge: the functions of the client (\<open>client/remix_api.cpp\<close>), their messages, and the cases of
  the server (\<open>server/main.cpp\<close>, \<open>server/remix_api.h\<close>) with the tables of handles (\<open>util_remixapi.h\<close>).  The Remix library
  is the parameter \<open>rt\<close>, which answers a creation with a handle or fails.  A message is its command and its items, as in the other
  theories; assertions are compiled out.  The \<open>pNext\<close> chain of the caller is a list, as it ends with null.
\<close>

section \<open>Structure types\<close>

text \<open>The values of \<open>remixapi_StructType\<close> that are used.\<close>

abbreviation (input) "MATERIAL_INFO \<equiv> 2 :: u32"
abbreviation (input) "MATERIAL_INFO_PORTAL_EXT \<equiv> 3 :: u32"
abbreviation (input) "MATERIAL_INFO_TRANSLUCENT_EXT \<equiv> 4 :: u32"
abbreviation (input) "MATERIAL_INFO_OPAQUE_EXT \<equiv> 5 :: u32"
abbreviation (input) "LIGHT_INFO \<equiv> 6 :: u32"
abbreviation (input) "LIGHT_INFO_DISTANT_EXT \<equiv> 7 :: u32"
abbreviation (input) "LIGHT_INFO_CYLINDER_EXT \<equiv> 8 :: u32"
abbreviation (input) "LIGHT_INFO_DISK_EXT \<equiv> 9 :: u32"
abbreviation (input) "LIGHT_INFO_RECT_EXT \<equiv> 10 :: u32"
abbreviation (input) "LIGHT_INFO_SPHERE_EXT \<equiv> 11 :: u32"
abbreviation (input) "MESH_INFO \<equiv> 12 :: u32"
abbreviation (input) "INSTANCE_INFO \<equiv> 13 :: u32"
abbreviation (input) "INSTANCE_INFO_BONE_TRANSFORMS_EXT \<equiv> 14 :: u32"
abbreviation (input) "INSTANCE_INFO_BLEND_EXT \<equiv> 15 :: u32"
abbreviation (input) "MATERIAL_INFO_OPAQUE_SUBSURFACE_EXT \<equiv> 18 :: u32"
abbreviation (input) "INSTANCE_INFO_OBJECT_PICKING_EXT \<equiv> 19 :: u32"
abbreviation (input) "LIGHT_INFO_DOME_EXT \<equiv> 20 :: u32"
abbreviation (input) "LIGHT_INFO_USD_EXT \<equiv> 21 :: u32"

text \<open>An extension in a chain; one of another type has only its type.\<close>

datatype (plugins only:) ext = Opaque MaterialInfoOpaque | Subsurface MaterialInfoOpaqueSubsurface | Translucent MaterialInfoTranslucent
  | Portal MaterialInfoPortal | Picking InstanceInfoObjectPicking | Blend InstanceInfoBlend | Bones InstanceInfoTransforms
  | Sphere LightInfoSphere | Rect LightInfoRect | Disk LightInfoDisk | Cylinder LightInfoCylinder | Distant LightInfoDistant
  | Dome LightInfoDome | USD LightInfoUSD | Unknown u32

section \<open>The client\<close>

definition ser_layout :: "'a member list \<Rightarrow> 'a \<Rightarrow> memory option" where
  "ser_layout vars x = serialize (\<lambda>x. Some (fold_serialize vars x)) (fold_calcSize vars) x"

text \<open>The cases of the three switches: the type sent for a known extension (\<open>ToRemixApiStructEnum\<close>) and its bytes.\<close>

fun material_ext :: "ext \<Rightarrow> (u32 \<times> memory option) option" where
  "material_ext (Opaque x) = Some (MATERIAL_INFO_OPAQUE_EXT, ser_layout MaterialInfoOpaqueVars x)"
| "material_ext (Subsurface x) = Some (MATERIAL_INFO_OPAQUE_SUBSURFACE_EXT, ser_layout MaterialInfoOpaqueSubsurfaceVars x)"
| "material_ext (Translucent x) = Some (MATERIAL_INFO_TRANSLUCENT_EXT, ser_layout MaterialInfoTranslucentVars x)"
| "material_ext (Portal x) = Some (MATERIAL_INFO_PORTAL_EXT, ser_layout MaterialInfoPortalVars x)"
| "material_ext _ = None"

fun instance_ext :: "ext \<Rightarrow> (u32 \<times> memory option) option" where
  "instance_ext (Picking x) = Some (INSTANCE_INFO_OBJECT_PICKING_EXT, ser_layout InstanceInfoObjectPickingVars x)"
| "instance_ext (Blend x) = Some (INSTANCE_INFO_BLEND_EXT, ser_layout InstanceInfoBlendVars x)"
| "instance_ext (Bones x) = Some (INSTANCE_INFO_BONE_TRANSFORMS_EXT, serialize InstanceInfoTransforms_serialize InstanceInfoTransforms_calcSize x)"
| "instance_ext _ = None"

fun light_ext :: "ext \<Rightarrow> (u32 \<times> memory option) option" where
  "light_ext (Sphere x) = Some (LIGHT_INFO_SPHERE_EXT, ser_layout LightInfoSphereVars x)"
| "light_ext (Rect x) = Some (LIGHT_INFO_RECT_EXT, ser_layout LightInfoRectVars x)"
| "light_ext (Disk x) = Some (LIGHT_INFO_DISK_EXT, ser_layout LightInfoDiskVars x)"
| "light_ext (Cylinder x) = Some (LIGHT_INFO_CYLINDER_EXT, ser_layout LightInfoCylinderVars x)"
| "light_ext (Distant x) = Some (LIGHT_INFO_DISTANT_EXT, ser_layout LightInfoDistantVars x)"
| "light_ext (Dome x) = Some (LIGHT_INFO_DOME_EXT, ser_layout LightInfoDomeVars x)"
| "light_ext (USD x) = Some (LIGHT_INFO_USD_EXT, ser_layout LightInfoUSDVars x)"
| "light_ext _ = None"

definition serializeAndSend :: "u32 \<Rightarrow> memory option \<Rightarrow> item list or_error" where
  "serializeAndSend sType bytes = (case bytes of None \<Rightarrow> Inl OutOfBounds | Some bs \<Rightarrow> Inr [Word sType, Obj (Some bs)])"

text \<open>\<open>send(c, Bool::True)\<close> and \<open>send(c, Bool::False)\<close>, and the loop over a chain: an unknown extension is skipped.\<close>

definition send_Bool :: "bool \<Rightarrow> item" where
  "send_Bool b = Word (if b then 0xff else 0)"

fun send_chain :: "(ext \<Rightarrow> (u32 \<times> memory option) option) \<Rightarrow> ext list \<Rightarrow> item list or_error" where
  "send_chain known [] = Inr [send_Bool False]"
| "send_chain known (e # es) = (case known e of None \<Rightarrow> send_chain known es
     | Some (sType, bytes) \<Rightarrow> bindE (serializeAndSend sType bytes) (\<lambda>its. bindE (send_chain known es) (\<lambda>more.
         Inr (send_Bool True # its @ more))))"

text \<open>The counters \<open>nextUid\<close> of the three handle types.\<close>

record remix_client =
  nextMaterial :: u32
  nextMesh :: u32
  nextLight :: u32

datatype ErrorCode = REMIX_SUCCESS | INVALID_ARGUMENTS | GENERAL_FAILURE

type_synonym command = "string \<times> item list"

text \<open>A call returns a code, the handle it puts out, and sends a message or none.\<close>

type_synonym remix_reply = "(ErrorCode \<times> u32 option \<times> command option \<times> remix_client) or_error"

definition handle_valid :: "u32 \<Rightarrow> u32 \<Rightarrow> bool" where
  "handle_valid next uid \<longleftrightarrow> 0 < uid \<and> uid < next"

definition with_handle :: "string \<Rightarrow> u32 \<Rightarrow> u32 \<Rightarrow> remix_client \<Rightarrow> remix_reply" where
  "with_handle name next uid c = Inr (if handle_valid next uid then (REMIX_SUCCESS, None, Some (name, [Word uid]), c)
     else (INVALID_ARGUMENTS, None, None, c))"

definition remixapi_CreateMaterial :: "MaterialInfo \<Rightarrow> ext list \<Rightarrow> remix_client \<Rightarrow> remix_reply" where
  "remixapi_CreateMaterial info exts c = (let uid = nextMaterial c in
     bindE (serializeAndSend MATERIAL_INFO (ser_layout MaterialInfoVars info)) (\<lambda>its. bindE (send_chain material_ext exts) (\<lambda>more.
       Inr (REMIX_SUCCESS, Some uid, Some (''RemixApi_CreateMaterial'', its @ more @ [Word uid]), c\<lparr>nextMaterial := uid + 1\<rparr>))))"

definition remixapi_DestroyMaterial :: "u32 \<Rightarrow> remix_client \<Rightarrow> remix_reply" where
  "remixapi_DestroyMaterial uid c = with_handle ''RemixApi_DestroyMaterial'' (nextMaterial c) uid c"

text \<open>The loop over the chain of a mesh, which never advances \<open>infoItr\<close>: not returning is \<open>None\<close>.\<close>

partial_function (option) mesh_chain_loop :: "bool \<Rightarrow> unit option" where
  "mesh_chain_loop has_pNext = (if has_pNext then mesh_chain_loop has_pNext else Some ())"

definition remixapi_CreateMesh :: "MeshInfo \<Rightarrow> ext list \<Rightarrow> remix_client \<Rightarrow> remix_reply option" where
  "remixapi_CreateMesh info exts c = (let uid = nextMesh c in
     case serializeAndSend MESH_INFO (serialize MeshInfo_serialize MeshInfo_calcSize info) of Inl e \<Rightarrow> Some (Inl e)
     | Inr its \<Rightarrow> map_option (\<lambda>_. Inr (REMIX_SUCCESS, Some uid, Some (''RemixApi_CreateMesh'', its @ [Word uid]),
         c\<lparr>nextMesh := uid + 1\<rparr>)) (mesh_chain_loop (exts \<noteq> [])))"

definition remixapi_DestroyMesh :: "u32 \<Rightarrow> remix_client \<Rightarrow> remix_reply" where
  "remixapi_DestroyMesh uid c = with_handle ''RemixApi_DestroyMesh'' (nextMesh c) uid c"

definition remixapi_DrawInstance :: "InstanceInfo \<Rightarrow> ext list \<Rightarrow> remix_client \<Rightarrow> remix_reply" where
  "remixapi_DrawInstance info exts c =
     bindE (serializeAndSend INSTANCE_INFO (ser_layout InstanceInfoVars info)) (\<lambda>its. bindE (send_chain instance_ext exts) (\<lambda>more.
       Inr (REMIX_SUCCESS, None, Some (''RemixApi_DrawInstance'', its @ more), c)))"

definition remixapi_CreateLight :: "LightInfo \<Rightarrow> ext list \<Rightarrow> remix_client \<Rightarrow> remix_reply" where
  "remixapi_CreateLight info exts c = (let uid = nextLight c in
     bindE (serializeAndSend LIGHT_INFO (ser_layout LightInfoVars info)) (\<lambda>its. bindE (send_chain light_ext exts) (\<lambda>more.
       Inr (REMIX_SUCCESS, Some uid, Some (''RemixApi_CreateLight'', its @ more @ [Word uid]), c\<lparr>nextLight := uid + 1\<rparr>))))"

definition remixapi_DestroyLight :: "u32 \<Rightarrow> remix_client \<Rightarrow> remix_reply" where
  "remixapi_DestroyLight uid c = with_handle ''RemixApi_DestroyLight'' (nextLight c) uid c"

definition remixapi_DrawLightInstance :: "u32 \<Rightarrow> remix_client \<Rightarrow> remix_reply" where
  "remixapi_DrawLightInstance uid c = with_handle ''RemixApi_DrawLightInstance'' (nextLight c) uid c"

text \<open>Strings without their terminator; null pointers are \<open>None\<close>.\<close>

definition remixapi_SetConfigVariable :: "memory option \<Rightarrow> memory option \<Rightarrow> remix_client \<Rightarrow> remix_reply" where
  "remixapi_SetConfigVariable var val c = (case (var, val) of
       (Some s, Some v) \<Rightarrow> Inr (REMIX_SUCCESS, None, Some (''RemixApi_SetConfigVariable'', [Obj (Some (s @ [0])), Obj (Some (v @ [0]))]), c)
     | _ \<Rightarrow> Inr (INVALID_ARGUMENTS, None, None, c))"

definition remixapi_dxvk_CreateD3D9 :: "remix_client \<Rightarrow> remix_reply" where
  "remixapi_dxvk_CreateD3D9 c = Inr (GENERAL_FAILURE, None, None, c)"

definition remixapi_dxvk_RegisterD3D9Device :: "bool \<Rightarrow> remix_client \<Rightarrow> remix_reply" where
  "remixapi_dxvk_RegisterD3D9Device device c = Inr (if device then GENERAL_FAILURE else INVALID_ARGUMENTS, None, None, c)"

section \<open>The server\<close>

text \<open>
  What a new object holds before its members are deserialised; for the arrays, a new element.  It is arbitrary: the
  objects are on the stack or come from \<open>new\<close>.
\<close>

record garbage =
  g_material :: MaterialInfo
  g_opaque :: MaterialInfoOpaque
  g_subsurface :: MaterialInfoOpaqueSubsurface
  g_translucent :: MaterialInfoTranslucent
  g_portal :: MaterialInfoPortal
  g_instance :: InstanceInfo
  g_picking :: InstanceInfoObjectPicking
  g_blend :: InstanceInfoBlend
  g_bones :: InstanceInfoTransforms
  g_mesh :: MeshInfo
  g_surface :: MeshInfoSurfaceTriangles
  g_vertex :: HardcodedVertex
  g_light :: LightInfo
  g_sphere :: LightInfoSphere
  g_rect :: LightInfoRect
  g_disk :: LightInfoDisk
  g_cylinder :: LightInfoCylinder
  g_distant :: LightInfoDistant
  g_dome :: LightInfoDome
  g_usd :: LightInfoUSD

definition get_word :: "item list \<Rightarrow> (u32 \<times> item list) or_error" where
  "get_word its = (case its of Word w # r \<Rightarrow> Inr (w, r) | _ \<Rightarrow> Inl Desync)"

definition get_object :: "item list \<Rightarrow> (memory option \<times> item list) or_error" where
  "get_object its = (case its of Obj b # r \<Rightarrow> Inr (b, r) | _ \<Rightarrow> Inl Desync)"

definition pullBool :: "item list \<Rightarrow> (bool \<times> item list) or_error" where
  "pullBool its = bindE (get_word its) (\<lambda>(w, r). Inr (w AND 0xff \<noteq> 0, r))"

definition deserializeFromQueue :: "(memory \<Rightarrow> 'a option) \<Rightarrow> item list \<Rightarrow> ('a \<times> item list) or_error" where
  "deserializeFromQueue des its = bindE (get_object its) (\<lambda>(b, r). case b of None \<Rightarrow> Inl NullDereference
     | Some bs \<Rightarrow> (case des bs of None \<Rightarrow> Inl OutOfBounds | Some x \<Rightarrow> Inr (x, r)))"

definition des_layout :: "'a member list \<Rightarrow> 'a \<Rightarrow> memory \<Rightarrow> 'a option" where
  "des_layout vars fresh bs = deserialize (fold_deserialize vars) fresh bs"

text \<open>The cases of the three switches of the server.\<close>

definition material_case :: "garbage \<Rightarrow> u32 \<Rightarrow> (memory \<Rightarrow> ext option) option" where
  "material_case g t = (
     if t = MATERIAL_INFO_OPAQUE_EXT then Some (\<lambda>bs. map_option Opaque (des_layout MaterialInfoOpaqueVars (g_opaque g) bs))
     else if t = MATERIAL_INFO_OPAQUE_SUBSURFACE_EXT then Some (\<lambda>bs. map_option Subsurface (des_layout MaterialInfoOpaqueSubsurfaceVars (g_subsurface g) bs))
     else if t = MATERIAL_INFO_TRANSLUCENT_EXT then Some (\<lambda>bs. map_option Translucent (des_layout MaterialInfoTranslucentVars (g_translucent g) bs))
     else if t = MATERIAL_INFO_PORTAL_EXT then Some (\<lambda>bs. map_option Portal (des_layout MaterialInfoPortalVars (g_portal g) bs))
     else None)"

definition instance_case :: "garbage \<Rightarrow> u32 \<Rightarrow> (memory \<Rightarrow> ext option) option" where
  "instance_case g t = (
     if t = INSTANCE_INFO_OBJECT_PICKING_EXT then Some (\<lambda>bs. map_option Picking (des_layout InstanceInfoObjectPickingVars (g_picking g) bs))
     else if t = INSTANCE_INFO_BLEND_EXT then Some (\<lambda>bs. map_option Blend (des_layout InstanceInfoBlendVars (g_blend g) bs))
     else if t = INSTANCE_INFO_BONE_TRANSFORMS_EXT then Some (\<lambda>bs. map_option Bones (deserialize InstanceInfoTransforms_deserialize (g_bones g) bs))
     else None)"

definition light_case :: "garbage \<Rightarrow> u32 \<Rightarrow> (memory \<Rightarrow> ext option) option" where
  "light_case g t = (
     if t = LIGHT_INFO_SPHERE_EXT then Some (\<lambda>bs. map_option Sphere (des_layout LightInfoSphereVars (g_sphere g) bs))
     else if t = LIGHT_INFO_RECT_EXT then Some (\<lambda>bs. map_option Rect (des_layout LightInfoRectVars (g_rect g) bs))
     else if t = LIGHT_INFO_DISK_EXT then Some (\<lambda>bs. map_option Disk (des_layout LightInfoDiskVars (g_disk g) bs))
     else if t = LIGHT_INFO_CYLINDER_EXT then Some (\<lambda>bs. map_option Cylinder (des_layout LightInfoCylinderVars (g_cylinder g) bs))
     else if t = LIGHT_INFO_DISTANT_EXT then Some (\<lambda>bs. map_option Distant (des_layout LightInfoDistantVars (g_distant g) bs))
     else if t = LIGHT_INFO_DOME_EXT then Some (\<lambda>bs. map_option Dome (des_layout LightInfoDomeVars (g_dome g) bs))
     else if t = LIGHT_INFO_USD_EXT then Some (\<lambda>bs. map_option USD (des_layout LightInfoUSDVars (g_usd g) bs))
     else None)"

text \<open>
  The local struct of extensions has one object for each type, so a place in the chain is a type.  \<open>pInfoProto\<close> is the object that
  the next extension is linked to, \<open>None\<close> for the main structure; every object has its own \<open>pNext\<close>, which deserialising resets.
\<close>

record chain =
  objects :: "u32 \<Rightarrow> ext option"
  pNext :: "u32 option \<Rightarrow> u32 option"
  pInfoProto :: "u32 option"

definition empty_chain :: chain where
  "empty_chain = \<lparr>objects = (\<lambda>_. None), pNext = (\<lambda>_. None), pInfoProto = None\<rparr>"

definition link_ext :: "u32 \<Rightarrow> ext \<Rightarrow> chain \<Rightarrow> chain" where
  "link_ext t e ch = \<lparr>objects = (objects ch)(t \<mapsto> e), pNext = (pNext ch)(Some t := None, pInfoProto ch := Some t), pInfoProto = Some t\<rparr>"

fun pull_chain :: "(u32 \<Rightarrow> (memory \<Rightarrow> ext option) option) \<Rightarrow> nat \<Rightarrow> item list \<Rightarrow> chain \<Rightarrow> (chain \<times> item list) or_error" where
  "pull_chain known 0 its ch = Inl Desync"
| "pull_chain known (Suc n) its ch = bindE (pullBool its) (\<lambda>(exists, r). if \<not> exists then Inr (ch, r) else
     bindE (get_word r) (\<lambda>(t, r1). case known t of None \<Rightarrow> pull_chain known n r1 ch
       | Some des \<Rightarrow> bindE (deserializeFromQueue des r1) (\<lambda>(e, r2). pull_chain known n r2 (link_ext t e ch))))"

text \<open>Every round takes an item, so the number of items is enough fuel.\<close>

definition pull_exts :: "(u32 \<Rightarrow> (memory \<Rightarrow> ext option) option) \<Rightarrow> item list \<Rightarrow> (chain \<times> item list) or_error" where
  "pull_exts known its = pull_chain known (length its) its empty_chain"

text \<open>How the library walks the chain: it follows \<open>pNext\<close> until null, for at most \<open>n\<close> objects; \<open>None\<close> when it is not at the end by then.\<close>

fun walk :: "nat \<Rightarrow> chain \<Rightarrow> u32 option \<Rightarrow> ext list option" where
  "walk 0 ch at_node = None"
| "walk (Suc n) ch at_node = (case pNext ch at_node of None \<Rightarrow> Some []
     | Some t \<Rightarrow> (case objects ch t of None \<Rightarrow> None | Some e \<Rightarrow> map_option (\<lambda>es. e # es) (walk n ch (Some t))))"

text \<open>The calls of the library; \<open>'c\<close> is how the chain of extensions is given.\<close>

datatype (plugins only:) 'c remix_call = CallCreateMaterial MaterialInfo 'c | CallDestroyMaterial u64
  | CallCreateMesh MeshInfo | CallDestroyMesh u64 | CallDrawInstance InstanceInfo 'c
  | CallCreateLight LightInfo 'c | CallDestroyLight u64 | CallDrawLightInstance u64
  | CallSetConfigVariable memory memory

text \<open>The three maps \<open>s_handleMap\<close>.\<close>

record remix_server =
  materials :: "u32 \<Rightarrow> u64 option"
  meshes :: "u32 \<Rightarrow> u64 option"
  lights :: "u32 \<Rightarrow> u64 option"

type_synonym library = "chain remix_call \<Rightarrow> u64 option"

type_synonym remix_result = "(chain remix_call list \<times> remix_server \<times> item list) or_error"

definition is_valid :: "u32 \<Rightarrow> (u32 \<Rightarrow> u64 option) \<Rightarrow> bool" where
  "is_valid uid m \<longleftrightarrow> 0 < uid \<and> m uid \<noteq> None"

text \<open>The conversion to a handle of the library, by \<open>operator[]\<close>, which adds a null entry for a missing key.\<close>

definition lookup_handle :: "u32 \<Rightarrow> (u32 \<Rightarrow> u64 option) \<Rightarrow> u64 \<times> (u32 \<Rightarrow> u64 option)" where
  "lookup_handle uid m = (case m uid of Some p \<Rightarrow> (p, m) | None \<Rightarrow> (0, m(uid \<mapsto> 0)))"

definition store_handle :: "u32 \<Rightarrow> u64 option \<Rightarrow> (u32 \<Rightarrow> u64 option) \<Rightarrow> (u32 \<Rightarrow> u64 option)" where
  "store_handle uid p m = (case p of None \<Rightarrow> m | Some h \<Rightarrow> m(uid \<mapsto> h))"

definition on_RemixCreateMaterial :: "garbage \<Rightarrow> library \<Rightarrow> remix_server \<Rightarrow> item list \<Rightarrow> remix_result" where
  "on_RemixCreateMaterial g rt s its = bindE (get_word its) (\<lambda>(_, r1).
     bindE (deserializeFromQueue (des_layout MaterialInfoVars (g_material g)) r1) (\<lambda>(info, r2).
     bindE (pull_exts (material_case g) r2) (\<lambda>(ch, r3). bindE (get_word r3) (\<lambda>(uid, r4).
       let q = CallCreateMaterial info ch in Inr ([q], s\<lparr>materials := store_handle uid (rt q) (materials s)\<rparr>, r4)))))"

definition on_RemixDestroyMaterial :: "remix_server \<Rightarrow> item list \<Rightarrow> remix_result" where
  "on_RemixDestroyMaterial s its = bindE (get_word its) (\<lambda>(uid, r). Inr (if is_valid uid (materials s)
     then ([CallDestroyMaterial (fst (lookup_handle uid (materials s)))], s\<lparr>materials := (materials s)(uid := None)\<rparr>, r) else ([], s, r)))"

text \<open>The loop that replaces the material ids of the surfaces.\<close>

fun map_materials :: "MeshInfoSurfaceTriangles list \<Rightarrow> (u32 \<Rightarrow> u64 option) \<Rightarrow> MeshInfoSurfaceTriangles list \<times> (u32 \<Rightarrow> u64 option)" where
  "map_materials [] m = ([], m)"
| "map_materials (s # ss) m = (let (p, m1) = lookup_handle (ucast (srf_material s)) m; (ss', m2) = map_materials ss m1
     in (s\<lparr>srf_material := p\<rparr> # ss', m2))"

definition on_RemixCreateMesh :: "garbage \<Rightarrow> library \<Rightarrow> remix_server \<Rightarrow> item list \<Rightarrow> remix_result" where
  "on_RemixCreateMesh g rt s its = bindE (get_word its) (\<lambda>(_, r1).
     bindE (deserializeFromQueue (deserialize (MeshInfo_deserialize (g_vertex g) (g_surface g)) (g_mesh g)) r1) (\<lambda>(info, r2).
     let (ss, m) = map_materials (msh_surfaces_values info) (materials s) in bindE (get_word r2) (\<lambda>(uid, r3).
       let q = CallCreateMesh (info\<lparr>msh_surfaces_values := ss\<rparr>) in
       Inr ([q], s\<lparr>materials := m, meshes := store_handle uid (rt q) (meshes s)\<rparr>, r3))))"

definition on_RemixDestroyMesh :: "remix_server \<Rightarrow> item list \<Rightarrow> remix_result" where
  "on_RemixDestroyMesh s its = bindE (get_word its) (\<lambda>(uid, r). Inr (if is_valid uid (meshes s)
     then ([CallDestroyMesh (fst (lookup_handle uid (meshes s)))], s\<lparr>meshes := (meshes s)(uid := None)\<rparr>, r) else ([], s, r)))"

definition on_RemixDrawInstance :: "garbage \<Rightarrow> remix_server \<Rightarrow> item list \<Rightarrow> remix_result" where
  "on_RemixDrawInstance g s its = bindE (get_word its) (\<lambda>(_, r1).
     bindE (deserializeFromQueue (des_layout InstanceInfoVars (g_instance g)) r1) (\<lambda>(info, r2).
     let uid = ucast (ins_mesh info);
         info1 = (if is_valid uid (meshes s) then info\<lparr>ins_mesh := fst (lookup_handle uid (meshes s))\<rparr> else info)
     in bindE (pull_exts (instance_case g) r2) (\<lambda>(ch, r3). Inr ([CallDrawInstance info1 ch], s, r3))))"

definition on_RemixCreateLight :: "garbage \<Rightarrow> library \<Rightarrow> remix_server \<Rightarrow> item list \<Rightarrow> remix_result" where
  "on_RemixCreateLight g rt s its = bindE (get_word its) (\<lambda>(_, r1).
     bindE (deserializeFromQueue (des_layout LightInfoVars (g_light g)) r1) (\<lambda>(info, r2).
     bindE (pull_exts (light_case g) r2) (\<lambda>(ch, r3). bindE (get_word r3) (\<lambda>(uid, r4).
       let q = CallCreateLight info ch in Inr ([q], s\<lparr>lights := store_handle uid (rt q) (lights s)\<rparr>, r4)))))"

definition on_RemixDestroyLight :: "remix_server \<Rightarrow> item list \<Rightarrow> remix_result" where
  "on_RemixDestroyLight s its = bindE (get_word its) (\<lambda>(uid, r). Inr (if is_valid uid (lights s)
     then ([CallDestroyLight (fst (lookup_handle uid (lights s)))], s\<lparr>lights := (lights s)(uid := None)\<rparr>, r) else ([], s, r)))"

definition on_RemixDrawLightInstance :: "remix_server \<Rightarrow> item list \<Rightarrow> remix_result" where
  "on_RemixDrawLightInstance s its = bindE (get_word its) (\<lambda>(uid, r). Inr (if is_valid uid (lights s)
     then ([CallDrawLightInstance (fst (lookup_handle uid (lights s)))], s, r) else ([], s, r)))"

text \<open>The strings passed on end at the first zero, which \<open>c_str()\<close> has after the bytes received in any case.\<close>

definition c_str :: "memory \<Rightarrow> memory" where
  "c_str bs = takeWhile (\<lambda>b. b \<noteq> 0) bs"

definition on_RemixSetConfigVariable :: "remix_server \<Rightarrow> item list \<Rightarrow> remix_result" where
  "on_RemixSetConfigVariable s its = bindE (get_object its) (\<lambda>(var, r). bindE (get_object r) (\<lambda>(val, r1).
     case (var, val) of (Some x, Some y) \<Rightarrow> Inr ([CallSetConfigVariable (c_str x) (c_str y)], s, r1) | _ \<Rightarrow> Inl NullDereference))"

definition serve_remix :: "garbage \<Rightarrow> library \<Rightarrow> command \<Rightarrow> remix_server \<Rightarrow> remix_result" where
  "serve_remix g rt cmd s = (case cmd of (name, its) \<Rightarrow>
     if name = ''RemixApi_CreateMaterial'' then on_RemixCreateMaterial g rt s its
     else if name = ''RemixApi_DestroyMaterial'' then on_RemixDestroyMaterial s its
     else if name = ''RemixApi_CreateMesh'' then on_RemixCreateMesh g rt s its
     else if name = ''RemixApi_DestroyMesh'' then on_RemixDestroyMesh s its
     else if name = ''RemixApi_DrawInstance'' then on_RemixDrawInstance g s its
     else if name = ''RemixApi_CreateLight'' then on_RemixCreateLight g rt s its
     else if name = ''RemixApi_DestroyLight'' then on_RemixDestroyLight s its
     else if name = ''RemixApi_DrawLightInstance'' then on_RemixDrawLightInstance s its
     else if name = ''RemixApi_SetConfigVariable'' then on_RemixSetConfigVariable s its
     else Inr ([], s, its))"

section \<open>The chain arrives\<close>

text \<open>A path of objects from a node, and the node it ends at.\<close>

fun path_from :: "chain \<Rightarrow> u32 option \<Rightarrow> (u32 \<times> ext) list \<Rightarrow> bool" where
  "path_from ch a [] \<longleftrightarrow> pNext ch a = None"
| "path_from ch a ((t, e) # r) \<longleftrightarrow> pNext ch a = Some t \<and> objects ch t = Some e \<and> path_from ch (Some t) r"

fun last_node :: "u32 option \<Rightarrow> (u32 \<times> ext) list \<Rightarrow> u32 option" where
  "last_node a [] = a"
| "last_node a ((t, e) # r) = last_node (Some t) r"

lemma walk_path: "path_from ch a tes \<Longrightarrow> length tes < n \<Longrightarrow> walk n ch a = Some (map snd tes)"
proof (induction tes arbitrary: a n)
  case Nil
  then show ?case by (cases n) auto
next
  case (Cons p r)
  then obtain k where "n = Suc k" by (cases n) auto
  then show ?case using Cons by (cases p) auto
qed

lemma last_node_in: "last_node a tes \<in> insert a (Some ` fst ` set tes)"
  by (induction a tes rule: last_node.induct) auto

lemma path_link:
  assumes "path_from ch a tes" "pInfoProto ch = last_node a tes" "distinct (map fst tes)" "a \<notin> Some ` fst ` set tes"
    "t \<notin> fst ` set tes" "a \<noteq> Some t"
  shows "path_from (link_ext t e ch) a (tes @ [(t, e)])"
  using assms
proof (induction tes arbitrary: a)
  case (Cons p r)
  obtain t1 e1 where p: "p = (t1, e1)" by (cases p)
  have "pInfoProto ch \<noteq> a" using Cons.prems last_node_in [of "Some t1" r] by (auto simp: p)
  moreover have "path_from (link_ext t e ch) (Some t1) (r @ [(t, e)])"
    using Cons.prems by (intro Cons.IH) (auto simp: p)
  ultimately show ?case using Cons.prems by (auto simp: p link_ext_def)
qed (auto simp: link_ext_def)

lemma last_node_snoc [simp]: "last_node a (tes @ [(t, e)]) = Some t"
  by (induction a tes rule: last_node.induct) simp_all

text \<open>What the loop of the server builds from the extensions it receives.\<close>

definition linked :: "(u32 \<times> ext) list \<Rightarrow> chain" where
  "linked tes = foldl (\<lambda>ch (t, e). link_ext t e ch) empty_chain tes"

lemma linked_path: "distinct (map fst tes) \<Longrightarrow> path_from (linked tes) None tes \<and> pInfoProto (linked tes) = last_node None tes"
proof (induction tes rule: rev_induct)
  case (snoc p tes)
  obtain t e where p: "p = (t, e)" by (cases p)
  have "path_from (link_ext t e (linked tes)) None (tes @ [(t, e)])"
    using snoc by (intro path_link) (auto simp: p)
  then show ?case by (simp add: p linked_def link_ext_def)
qed (simp add: linked_def empty_chain_def)

text \<open>What the two switches of a structure have to agree on.\<close>

locale ext_channel =
  fixes known :: "ext \<Rightarrow> (u32 \<times> memory option) option" and cases_of :: "u32 \<Rightarrow> (memory \<Rightarrow> ext option) option"
    and ok :: "ext \<Rightarrow> bool" and received_as :: "ext \<Rightarrow> ext" and types :: "u32 list"
  assumes agree: "ok e \<Longrightarrow> known e = Some (t, b) \<Longrightarrow> t \<in> set types \<and> (\<exists>bs des. b = Some bs \<and> cases_of t = Some des \<and> des bs = Some (received_as e))"
    and few: "length types \<le> 7"
begin

lemma chain_sent:
  assumes "\<forall>e\<in>set es. ok e"
  shows "\<exists>its. send_chain known es = Inr its \<and> length (filter (\<lambda>e. known e \<noteq> None) es) < length its \<and>
    (\<forall>n rest ch. length its \<le> n \<longrightarrow> pull_chain cases_of n (its @ rest) ch =
       Inr (foldl (\<lambda>ch (t, e). link_ext t e ch) ch (map (\<lambda>e. (fst (the (known e)), received_as e)) (filter (\<lambda>e. known e \<noteq> None) es)), rest))"
  using assms
proof (induction es)
  case Nil
  have "pull_chain cases_of n (send_Bool False # rest) ch = Inr (ch, rest)" if "1 \<le> n" for n rest ch
    using that by (cases n) (simp_all add: pullBool_def get_word_def send_Bool_def)
  then show ?case by simp
next
  case (Cons e es)
  then obtain its where its: "send_chain known es = Inr its" "length (filter (\<lambda>e. known e \<noteq> None) es) < length its"
    "\<And>n rest ch. length its \<le> n \<Longrightarrow> pull_chain cases_of n (its @ rest) ch =
       Inr (foldl (\<lambda>ch (t, e). link_ext t e ch) ch (map (\<lambda>e. (fst (the (known e)), received_as e)) (filter (\<lambda>e. known e \<noteq> None) es)), rest)"
    by auto
  show ?case
  proof (cases "known e")
    case None
    then show ?thesis using its by auto
  next
    case (Some p)
    obtain t b where p: "known e = Some (t, b)" using Some by (cases p) auto
    obtain bs des where b: "b = Some bs" "cases_of t = Some des" "des bs = Some (received_as e)"
      using agree [OF _ p] Cons.prems by auto
    let ?its = "[send_Bool True, Word t, Obj (Some bs)] @ its"
    have "send_chain known (e # es) = Inr ?its"
      by (simp add: p b its serializeAndSend_def)
    moreover have "pull_chain cases_of n (?its @ rest) ch = pull_chain cases_of (n - 1) (its @ rest) (link_ext t (received_as e) ch)"
      if "length ?its \<le> n" for n rest ch
      using that by (cases n) (simp_all add: pullBool_def get_word_def get_object_def send_Bool_def deserializeFromQueue_def b)
    ultimately show ?thesis
      using its(2,3) p by (intro exI [of _ ?its]) auto
  qed
qed

lemma chain_arrives:
  assumes "\<forall>e\<in>set es. ok e" and "distinct (map (\<lambda>e. fst (the (known e))) (filter (\<lambda>e. known e \<noteq> None) es))"
  obtains its ch where "send_chain known es = Inr its" "\<And>rest. pull_exts cases_of (its @ rest) = Inr (ch, rest)"
    "walk 8 ch None = Some (map received_as (filter (\<lambda>e. known e \<noteq> None) es))"
proof -
  let ?es = "filter (\<lambda>e. known e \<noteq> None) es"
  let ?tes = "map (\<lambda>e. (fst (the (known e)), received_as e)) ?es"
  obtain its where its: "send_chain known es = Inr its"
    "\<And>n rest ch. length its \<le> n \<Longrightarrow> pull_chain cases_of n (its @ rest) ch = Inr (foldl (\<lambda>ch (t, e). link_ext t e ch) ch ?tes, rest)"
    using chain_sent [OF assms(1)] by blast
  have "path_from (linked ?tes) None ?tes" using linked_path [of ?tes] assms(2) by (simp add: comp_def)
  moreover have "length ?tes < 8"
  proof -
    have "set (map fst ?tes) \<subseteq> set types" using agree assms(1) by auto
    then have "card (set (map fst ?tes)) \<le> card (set types)" by (intro card_mono) auto
    moreover have d: "distinct (map fst ?tes)" using assms(2) by (simp add: comp_def)
    moreover have "card (set (map fst ?tes)) = length ?tes" using distinct_card [OF d] by (simp only: length_map)
    ultimately show ?thesis using few card_length [of types] by linarith
  qed
  ultimately have "walk 8 (linked ?tes) None = Some (map snd ?tes)" by (rule walk_path)
  then have w: "walk 8 (linked ?tes) None = Some (map received_as ?es)" by (simp only: map_map comp_def snd_conv)
  have "pull_exts cases_of (its @ rest) = Inr (linked ?tes, rest)" for rest
    unfolding pull_exts_def linked_def by (rule its(2)) simp
  then show thesis by (rule that [OF its(1) _ w])
qed

end

text \<open>What the application has to pass, and what the library receives: members outside the stream keep what the new object held.\<close>

fun ext_ok :: "ext \<Rightarrow> bool" where
  "ext_ok (Opaque x) = MaterialInfoOpaque_ok x"
| "ext_ok (Subsurface x) = MaterialInfoOpaqueSubsurface_ok x"
| "ext_ok (Translucent x) = MaterialInfoTranslucent_ok x"
| "ext_ok (Bones x) = InstanceInfoTransforms_ok x"
| "ext_ok (Dome x) = LightInfoDome_ok x"
| "ext_ok (USD x) = LightInfoUSD_ok x"
| "ext_ok _ = True"

fun received_ext :: "garbage \<Rightarrow> ext \<Rightarrow> ext" where
  "received_ext g (Subsurface x) = Subsurface (MaterialInfoOpaqueSubsurface_kept (g_subsurface g) x)"
| "received_ext g (Picking x) = Picking (InstanceInfoObjectPicking_kept (g_picking g) x)"
| "received_ext g (Sphere x) = Sphere (LightInfoSphere_kept (g_sphere g) x)"
| "received_ext g (Rect x) = Rect (LightInfoRect_kept (g_rect g) x)"
| "received_ext g (Disk x) = Disk (LightInfoDisk_kept (g_disk g) x)"
| "received_ext g (Cylinder x) = Cylinder (LightInfoCylinder_kept (g_cylinder g) x)"
| "received_ext g (Distant x) = Distant (LightInfoDistant_kept (g_distant g) x)"
| "received_ext g (USD x) = USD (LightInfoUSD_kept (g_usd g) x)"
| "received_ext g e = e"

context layout
begin

lemma sent: "ok x \<Longrightarrow> \<exists>bs. ser_layout vars x = Some bs \<and> des_layout vars fresh bs = Some (kept fresh x)"
  unfolding ser_layout_def des_layout_def by (erule frame) blast

end

context serializable
begin

lemma framed: "ok x \<Longrightarrow> \<exists>bs. serialize ser calc x = Some bs \<and> deserialize des fresh bs = Some (kept fresh x)"
  by (erule frame) blast

end

interpretation material_channel: ext_channel material_ext "material_case g" ext_ok "received_ext g" "[3, 4, 5, 18]" for g
proof
  fix e t b
  assume "ext_ok e" "material_ext e = Some (t, b)"
  then show "t \<in> set [3, 4, 5, 18] \<and> (\<exists>bs des. b = Some bs \<and> material_case g t = Some des \<and> des bs = Some (received_ext g e))"
    using MaterialInfoOpaque.sent [of _ "g_opaque g"] MaterialInfoOpaqueSubsurface.sent [of _ "g_subsurface g"]
      MaterialInfoTranslucent.sent [of _ "g_translucent g"] MaterialInfoPortal.sent [of _ "g_portal g"]
    by (cases e) (fastforce simp: material_case_def)+
qed simp

interpretation instance_channel: ext_channel instance_ext "instance_case g" ext_ok "received_ext g" "[14, 15, 19]" for g
proof
  fix e t b
  assume "ext_ok e" "instance_ext e = Some (t, b)"
  then show "t \<in> set [14, 15, 19] \<and> (\<exists>bs des. b = Some bs \<and> instance_case g t = Some des \<and> des bs = Some (received_ext g e))"
    using InstanceInfoObjectPicking.sent [of _ "g_picking g"] InstanceInfoBlend.sent [of _ "g_blend g"]
      InstanceInfoTransforms.framed [of _ "g_bones g"]
    by (cases e) (fastforce simp: instance_case_def)+
qed simp

interpretation light_channel: ext_channel light_ext "light_case g" ext_ok "received_ext g" "[7, 8, 9, 10, 11, 20, 21]" for g
proof
  fix e t b
  assume "ext_ok e" "light_ext e = Some (t, b)"
  then show "t \<in> set [7, 8, 9, 10, 11, 20, 21] \<and> (\<exists>bs des. b = Some bs \<and> light_case g t = Some des \<and> des bs = Some (received_ext g e))"
    using LightInfoSphere.sent [of _ "g_sphere g"] LightInfoRect.sent [of _ "g_rect g"] LightInfoDisk.sent [of _ "g_disk g"]
      LightInfoCylinder.sent [of _ "g_cylinder g"] LightInfoDistant.sent [of _ "g_distant g"] LightInfoDome.sent [of _ "g_dome g"]
      LightInfoUSD.sent [of _ "g_usd g"]
    by (cases e) (fastforce simp: light_case_def)+
qed simp

section \<open>Calls arrive\<close>

text \<open>The calls of an application, and when they keep to what the API and the bridge ask for: handles that are known to both sides, and in a chain no type twice.\<close>

datatype (plugins only:) request = CreateMaterial MaterialInfo "ext list" | DestroyMaterial u32 | CreateMesh MeshInfo | DestroyMesh u32
  | DrawInstance InstanceInfo "ext list" | CreateLight LightInfo "ext list" | DestroyLight u32 | DrawLightInstance u32
  | SetConfigVariable memory memory

fun client_call :: "request \<Rightarrow> remix_client \<Rightarrow> remix_reply option" where
  "client_call (CreateMaterial i es) c = Some (remixapi_CreateMaterial i es c)"
| "client_call (DestroyMaterial h) c = Some (remixapi_DestroyMaterial h c)"
| "client_call (CreateMesh i) c = remixapi_CreateMesh i [] c"
| "client_call (DestroyMesh h) c = Some (remixapi_DestroyMesh h c)"
| "client_call (DrawInstance i es) c = Some (remixapi_DrawInstance i es c)"
| "client_call (CreateLight i es) c = Some (remixapi_CreateLight i es c)"
| "client_call (DestroyLight h) c = Some (remixapi_DestroyLight h c)"
| "client_call (DrawLightInstance h) c = Some (remixapi_DrawLightInstance h c)"
| "client_call (SetConfigVariable n v) c = Some (remixapi_SetConfigVariable (Some n) (Some v) c)"

definition chain_ok :: "(ext \<Rightarrow> (u32 \<times> memory option) option) \<Rightarrow> ext list \<Rightarrow> bool" where
  "chain_ok known es \<longleftrightarrow> (\<forall>e\<in>set es. ext_ok e) \<and> distinct (map (\<lambda>e. fst (the (known e))) (filter (\<lambda>e. known e \<noteq> None) es))"

fun request_ok :: "garbage \<Rightarrow> request \<Rightarrow> remix_client \<Rightarrow> remix_server \<Rightarrow> bool" where
  "request_ok g (CreateMaterial i es) c s \<longleftrightarrow> MaterialInfo_ok i \<and> chain_ok material_ext es"
| "request_ok g (DestroyMaterial h) c s \<longleftrightarrow> handle_valid (nextMaterial c) h \<and> materials s h \<noteq> None"
| "request_ok g (CreateMesh i) c s \<longleftrightarrow> mesh_ok (srf_skinning_value (g_surface g)) i \<and>
     (\<forall>x\<in>set (msh_surfaces_values i). materials s (ucast (srf_material x)) \<noteq> None)"
| "request_ok g (DestroyMesh h) c s \<longleftrightarrow> handle_valid (nextMesh c) h \<and> meshes s h \<noteq> None"
| "request_ok g (DrawInstance i es) c s \<longleftrightarrow> InstanceInfo_ok i \<and> chain_ok instance_ext es \<and>
     handle_valid (nextMesh c) (ucast (ins_mesh i)) \<and> meshes s (ucast (ins_mesh i)) \<noteq> None"
| "request_ok g (CreateLight i es) c s \<longleftrightarrow> chain_ok light_ext es"
| "request_ok g (DestroyLight h) c s \<longleftrightarrow> handle_valid (nextLight c) h \<and> lights s h \<noteq> None"
| "request_ok g (DrawLightInstance h) c s \<longleftrightarrow> handle_valid (nextLight c) h \<and> lights s h \<noteq> None"
| "request_ok g (SetConfigVariable n v) c s \<longleftrightarrow> 0 \<notin> set n \<and> 0 \<notin> set v"

text \<open>The call that the library should see: the structures as passed, the handles replaced by those it gave out.\<close>

definition seen :: "garbage \<Rightarrow> (ext \<Rightarrow> (u32 \<times> memory option) option) \<Rightarrow> ext list \<Rightarrow> ext list option" where
  "seen g known es = Some (map (received_ext g) (filter (\<lambda>e. known e \<noteq> None) es))"

fun expected :: "garbage \<Rightarrow> request \<Rightarrow> remix_server \<Rightarrow> ext list option remix_call" where
  "expected g (CreateMaterial i es) s = CallCreateMaterial i (seen g material_ext es)"
| "expected g (DestroyMaterial h) s = CallDestroyMaterial (the (materials s h))"
| "expected g (CreateMesh i) s = CallCreateMesh (i\<lparr>msh_surfaces_values :=
     map (\<lambda>x. x\<lparr>srf_material := the (materials s (ucast (srf_material x)))\<rparr>) (msh_surfaces_values i)\<rparr>)"
| "expected g (DestroyMesh h) s = CallDestroyMesh (the (meshes s h))"
| "expected g (DrawInstance i es) s = CallDrawInstance (i\<lparr>ins_mesh := the (meshes s (ucast (ins_mesh i)))\<rparr>) (seen g instance_ext es)"
| "expected g (CreateLight i es) s = CallCreateLight i (seen g light_ext es)"
| "expected g (DestroyLight h) s = CallDestroyLight (the (lights s h))"
| "expected g (DrawLightInstance h) s = CallDrawLightInstance (the (lights s h))"
| "expected g (SetConfigVariable n v) s = CallSetConfigVariable n v"

text \<open>The tables afterwards, by the answer of the library.\<close>

fun tables_after :: "request \<Rightarrow> remix_client \<Rightarrow> u64 option \<Rightarrow> remix_server \<Rightarrow> remix_server" where
  "tables_after (CreateMaterial i es) c a s = s\<lparr>materials := store_handle (nextMaterial c) a (materials s)\<rparr>"
| "tables_after (DestroyMaterial h) c a s = s\<lparr>materials := (materials s)(h := None)\<rparr>"
| "tables_after (CreateMesh i) c a s = s\<lparr>meshes := store_handle (nextMesh c) a (meshes s)\<rparr>"
| "tables_after (DestroyMesh h) c a s = s\<lparr>meshes := (meshes s)(h := None)\<rparr>"
| "tables_after (CreateLight i es) c a s = s\<lparr>lights := store_handle (nextLight c) a (lights s)\<rparr>"
| "tables_after (DestroyLight h) c a s = s\<lparr>lights := (lights s)(h := None)\<rparr>"
| "tables_after _ c a s = s"

lemma map_materials_known:
  "\<forall>x\<in>set ss. m (ucast (srf_material x)) \<noteq> None \<Longrightarrow>
   map_materials ss m = (map (\<lambda>x. x\<lparr>srf_material := the (m (ucast (srf_material x)))\<rparr>) ss, m)"
  by (induction ss) (auto simp: lookup_handle_def)

lemma mesh_chain_loop_simps [simp]: "mesh_chain_loop False = Some ()"
  by (simp add: mesh_chain_loop.simps)

lemma from_queue: "des bs = Some x \<Longrightarrow> deserializeFromQueue des (Obj (Some bs) # r) = Inr (x, r)"
  by (simp add: deserializeFromQueue_def get_object_def)

lemma get_word_Word [simp]: "get_word (Word w # r) = Inr (w, r)"
  by (simp add: get_word_def)

definition arrives :: "garbage \<Rightarrow> library \<Rightarrow> request \<Rightarrow> remix_client \<Rightarrow> remix_server \<Rightarrow> bool" where
  "arrives g rt r c s \<longleftrightarrow> (\<exists>out cmd c' q. client_call r c = Some (Inr (REMIX_SUCCESS, out, Some cmd, c')) \<and>
     serve_remix g rt cmd s = Inr ([q], tables_after r c (rt q) s, []) \<and>
     map_remix_call (\<lambda>ch. walk 8 ch None) q = expected g r s)"

lemma arrivesI:
  "client_call r c = Some (Inr (REMIX_SUCCESS, out, Some cmd, c')) \<Longrightarrow> serve_remix g rt cmd s = Inr ([q], tables_after r c (rt q) s, []) \<Longrightarrow>
   map_remix_call (\<lambda>ch. walk 8 ch None) q = expected g r s \<Longrightarrow> arrives g rt r c s"
  unfolding arrives_def by blast

lemma material_arrives:
  assumes "MaterialInfo_ok i" and "chain_ok material_ext es"
  shows "arrives g rt (CreateMaterial i es) c s"
proof -
  obtain bs where bs: "ser_layout MaterialInfoVars i = Some bs" "des_layout MaterialInfoVars (g_material g) bs = Some i"
    using MaterialInfo.sent [OF assms(1), of "g_material g"] by blast
  obtain its ch where its: "send_chain material_ext es = Inr its" "\<And>rest. pull_exts (material_case g) (its @ rest) = Inr (ch, rest)"
    "walk 8 ch None = Some (map (received_ext g) (filter (\<lambda>e. material_ext e \<noteq> None) es))"
    using material_channel.chain_arrives [of es g] assms(2) unfolding chain_ok_def by blast
  show ?thesis
    by (rule arrivesI [where q = "CallCreateMaterial i ch"])
      (simp add: remixapi_CreateMaterial_def serializeAndSend_def bs its serve_remix_def on_RemixCreateMaterial_def deserializeFromQueue_def get_object_def bs(2)
        seen_def Let_def)+
qed

lemma light_arrives:
  assumes "chain_ok light_ext es"
  shows "arrives g rt (CreateLight i es) c s"
proof -
  obtain bs where bs: "ser_layout LightInfoVars i = Some bs" "des_layout LightInfoVars (g_light g) bs = Some i"
    using LightInfo.sent [of i "g_light g"] by blast
  obtain its ch where its: "send_chain light_ext es = Inr its" "\<And>rest. pull_exts (light_case g) (its @ rest) = Inr (ch, rest)"
    "walk 8 ch None = Some (map (received_ext g) (filter (\<lambda>e. light_ext e \<noteq> None) es))"
    using light_channel.chain_arrives [of es g] assms unfolding chain_ok_def by blast
  show ?thesis
    by (rule arrivesI [where q = "CallCreateLight i ch"])
      (simp add: remixapi_CreateLight_def serializeAndSend_def bs its serve_remix_def on_RemixCreateLight_def deserializeFromQueue_def get_object_def bs(2)
        seen_def Let_def)+
qed

lemma instance_arrives:
  assumes "InstanceInfo_ok i" and "chain_ok instance_ext es" and mesh: "handle_valid (nextMesh c) (ucast (ins_mesh i))" "meshes s (ucast (ins_mesh i)) \<noteq> None"
  shows "arrives g rt (DrawInstance i es) c s"
proof -
  obtain bs where bs: "ser_layout InstanceInfoVars i = Some bs" "des_layout InstanceInfoVars (g_instance g) bs = Some i"
    using InstanceInfo.sent [OF assms(1), of "g_instance g"] by blast
  obtain its ch where its: "send_chain instance_ext es = Inr its" "\<And>rest. pull_exts (instance_case g) (its @ rest) = Inr (ch, rest)"
    "walk 8 ch None = Some (map (received_ext g) (filter (\<lambda>e. instance_ext e \<noteq> None) es))"
    using instance_channel.chain_arrives [of es g] assms(2) unfolding chain_ok_def by blast
  obtain p where p: "meshes s (ucast (ins_mesh i)) = Some p" using mesh(2) by blast
  have end_its: "pull_exts (instance_case g) its = Inr (ch, [])" using its(2) [of "[]"] by simp
  show ?thesis
    using mesh
    by (intro arrivesI [where q = "CallDrawInstance (i\<lparr>ins_mesh := p\<rparr>) ch"])
      (simp add: remixapi_DrawInstance_def serializeAndSend_def bs its(1,3) end_its serve_remix_def on_RemixDrawInstance_def
        deserializeFromQueue_def get_object_def bs(2) seen_def Let_def is_valid_def handle_valid_def lookup_handle_def p)+
qed

lemma mesh_arrives:
  assumes "mesh_ok (srf_skinning_value (g_surface g)) i" and known: "\<forall>x\<in>set (msh_surfaces_values i). materials s (ucast (srf_material x)) \<noteq> None"
  shows "arrives g rt (CreateMesh i) c s"
proof -
  obtain bs where bs: "serialize MeshInfo_serialize MeshInfo_calcSize i = Some bs"
    "deserialize (MeshInfo_deserialize (g_vertex g) (g_surface g)) (g_mesh g) bs = Some i"
    using MeshInfo.framed [OF assms(1), of "g_vertex g" "g_mesh g"] by blast
  show ?thesis
    by (rule arrivesI [where q = "CallCreateMesh (i\<lparr>msh_surfaces_values :=
        map (\<lambda>x. x\<lparr>srf_material := the (materials s (ucast (srf_material x)))\<rparr>) (msh_surfaces_values i)\<rparr>)"])
      (simp add: remixapi_CreateMesh_def serializeAndSend_def bs serve_remix_def on_RemixCreateMesh_def deserializeFromQueue_def get_object_def bs(2)
        map_materials_known [OF known] Let_def)+
qed

lemmas handle_call_defs = with_handle_def remixapi_DestroyMaterial_def remixapi_DestroyMesh_def remixapi_DestroyLight_def
  remixapi_DrawLightInstance_def on_RemixDestroyMaterial_def on_RemixDestroyMesh_def on_RemixDestroyLight_def
  on_RemixDrawLightInstance_def serve_remix_def is_valid_def handle_valid_def lookup_handle_def

lemma handle_calls_arrive:
  "handle_valid (nextMaterial c) h \<Longrightarrow> materials s h \<noteq> None \<Longrightarrow> arrives g rt (DestroyMaterial h) c s"
  "handle_valid (nextMesh c) h \<Longrightarrow> meshes s h \<noteq> None \<Longrightarrow> arrives g rt (DestroyMesh h) c s"
  "handle_valid (nextLight c) h \<Longrightarrow> lights s h \<noteq> None \<Longrightarrow> arrives g rt (DestroyLight h) c s"
  "handle_valid (nextLight c) h \<Longrightarrow> lights s h \<noteq> None \<Longrightarrow> arrives g rt (DrawLightInstance h) c s"
  by (auto simp: handle_call_defs intro!: arrivesI)

lemma c_str_terminated: "0 \<notin> set bs \<Longrightarrow> c_str (bs @ [0]) = bs"
  unfolding c_str_def by (induction bs) auto

lemma config_arrives: "0 \<notin> set n \<Longrightarrow> 0 \<notin> set v \<Longrightarrow> arrives g rt (SetConfigVariable n v) c s"
  by (rule arrivesI [where q = "CallSetConfigVariable n v"])
    (simp add: remixapi_SetConfigVariable_def serve_remix_def on_RemixSetConfigVariable_def get_object_def c_str_terminated)+


text \<open>A light with two known extensions and one that is skipped.\<close>

definition some_float3 :: Float3D where "some_float3 = \<lparr>f_x = 0x3f800000, f_y = 0, f_z = 0x40000000\<rparr>"

definition some_light :: LightInfo where
  "some_light = \<lparr>lgt_sType = LIGHT_INFO, lgt_hash = 7, lgt_radiance = some_float3\<rparr>"

definition some_distant :: LightInfoDistant where
  "some_distant = \<lparr>dst_sType = LIGHT_INFO_DISTANT_EXT, dst_direction = some_float3, dst_angularDiameterDegrees = 5, dst_volumetricRadianceScale = 1\<rparr>"

definition some_cylinder :: LightInfoCylinder where
  "some_cylinder = \<lparr>cyl_sType = LIGHT_INFO_CYLINDER_EXT, cyl_position = some_float3, cyl_radius = 2, cyl_axis = some_float3, cyl_axisLength = 3,
     cyl_volumetricRadianceScale = 1\<rparr>"

definition some_client :: remix_client where
  "some_client = \<lparr>nextMaterial = 1, nextMesh = 1, nextLight = 5\<rparr>"


section \<open>Where it goes wrong\<close>

lemma mesh_chain_loop_True: "mesh_chain_loop True = None"
proof -
  have "b = False" if "mesh_chain_loop b = Some u" for b u
    by (rule mesh_chain_loop.raw_induct [where P = "\<lambda>b u. b = False", OF _ that]) (auto split: if_splits)
  then show ?thesis by (cases "mesh_chain_loop True") blast+
qed


text \<open>Members that are not in the lists: the extension for object picking is received without its structure type, the lights without
  their volumetric scale: whatever the application passed, the library finds there what the memory of the new object held.\<close>

theorem members_not_transferred:
  "(\<exists>bs. ser_layout InstanceInfoObjectPickingVars x1 = Some bs \<and> des_layout InstanceInfoObjectPickingVars fresh1 bs = Some (x1\<lparr>opk_sType := opk_sType fresh1\<rparr>)) \<and>
   (\<exists>bs. ser_layout LightInfoSphereVars x2 = Some bs \<and> des_layout LightInfoSphereVars fresh2 bs = Some (x2\<lparr>sph_volumetricRadianceScale := sph_volumetricRadianceScale fresh2\<rparr>)) \<and>
   (\<exists>bs. ser_layout LightInfoRectVars x3 = Some bs \<and> des_layout LightInfoRectVars fresh3 bs = Some (x3\<lparr>rct_volumetricRadianceScale := rct_volumetricRadianceScale fresh3\<rparr>)) \<and>
   (\<exists>bs. ser_layout LightInfoDiskVars x4 = Some bs \<and> des_layout LightInfoDiskVars fresh4 bs = Some (x4\<lparr>dsk_volumetricRadianceScale := dsk_volumetricRadianceScale fresh4\<rparr>)) \<and>
   (\<exists>bs. ser_layout LightInfoCylinderVars x5 = Some bs \<and> des_layout LightInfoCylinderVars fresh5 bs = Some (x5\<lparr>cyl_volumetricRadianceScale := cyl_volumetricRadianceScale fresh5\<rparr>)) \<and>
   (\<exists>bs. ser_layout LightInfoDistantVars x6 = Some bs \<and> des_layout LightInfoDistantVars fresh6 bs = Some (x6\<lparr>dst_volumetricRadianceScale := dst_volumetricRadianceScale fresh6\<rparr>))"
  using InstanceInfoObjectPicking.sent [of x1 fresh1]
    LightInfoSphere.sent [of x2 fresh2]
    LightInfoRect.sent [of x3 fresh3]
    LightInfoDisk.sent [of x4 fresh4]
    LightInfoCylinder.sent [of x5 fresh5]
    LightInfoDistant.sent [of x6 fresh6]
  by (simp add: InstanceInfoObjectPicking_kept_def LightInfoSphere_kept_def LightInfoRect_kept_def LightInfoDisk_kept_def LightInfoCylinder_kept_def LightInfoDistant_kept_def)

lemma walk_cycle: "pNext ch (Some t) = Some t \<Longrightarrow> walk n ch (Some t) = None"
  by (induction n) (simp_all split: option.splits)

text \<open>Two extensions of one type in a row share the object of the server, which is then linked to itself: the library never reaches the
  end of the chain.\<close>

theorem repeated_extension_cycles:
  assumes "MaterialInfo_ok i" "MaterialInfoOpaque_ok x" "MaterialInfoOpaque_ok y"
  shows "\<exists>out cmd c' ch. remixapi_CreateMaterial i [Opaque x, Opaque y] c = Inr (REMIX_SUCCESS, out, Some cmd, c') \<and>
    fst (projr (serve_remix g rt cmd s)) = [CallCreateMaterial i ch] \<and> (\<forall>n. walk n ch None = None)"
proof -
  obtain bs where bs: "ser_layout MaterialInfoVars i = Some bs" "des_layout MaterialInfoVars (g_material g) bs = Some i"
    using MaterialInfo.sent [OF assms(1), of "g_material g"] by blast
  let ?ch = "link_ext 5 (Opaque y) (link_ext 5 (Opaque x) empty_chain)"
  obtain its where its: "send_chain material_ext [Opaque x, Opaque y] = Inr its"
    and pull: "\<And>n rest. length its \<le> n \<Longrightarrow> pull_chain (material_case g) n (its @ rest) empty_chain = Inr (?ch, rest)"
    using material_channel.chain_sent [of "[Opaque x, Opaque y]" g] assms(2,3) by auto
  have ch: "pull_exts (material_case g) (its @ rest) = Inr (?ch, rest)" for rest
    unfolding pull_exts_def by (rule pull) simp
  have cycle: "walk n ?ch None = None" for n
    by (cases n) (simp_all add: link_ext_def empty_chain_def walk_cycle)
  let ?uid = "nextMaterial c"
  have "remixapi_CreateMaterial i [Opaque x, Opaque y] c = Inr (REMIX_SUCCESS, Some ?uid,
      Some (''RemixApi_CreateMaterial'', Word MATERIAL_INFO # Obj (Some bs) # its @ [Word ?uid]), c\<lparr>nextMaterial := ?uid + 1\<rparr>)"
    unfolding remixapi_CreateMaterial_def its by (simp add: serializeAndSend_def bs Let_def)
  moreover have "fst (projr (serve_remix g rt (''RemixApi_CreateMaterial'', Word MATERIAL_INFO # Obj (Some bs) # its @ [Word ?uid]) s)) = [CallCreateMaterial i ?ch]"
    by (simp add: serve_remix_def on_RemixCreateMaterial_def deserializeFromQueue_def get_object_def bs(2) ch Let_def)
  ultimately show ?thesis using cycle by blast
qed

definition plain_material :: MaterialInfo where
  "plain_material = \<lparr>mat_sType = MATERIAL_INFO, mat_hash = 1, mat_albedoTexture = Some [65, 66], mat_normalTexture = None, mat_tangentTexture = None,
     mat_emissiveTexture = None, mat_emissiveIntensity = 0, mat_emissiveColorConstant = some_float3, mat_spriteSheetRow = 0, mat_spriteSheetCol = 0,
     mat_spriteSheetFps = 0, mat_filterMode = 0, mat_wrapModeU = 0, mat_wrapModeV = 0\<rparr>"

definition plain_opaque :: MaterialInfoOpaque where
  "plain_opaque = \<lparr>opq_sType = MATERIAL_INFO_OPAQUE_EXT, opq_roughnessTexture = None, opq_metallicTexture = None, opq_anisotropy = 0,
     opq_albedoConstant = some_float3, opq_opacityConstant = 0, opq_roughnessConstant = 0, opq_metallicConstant = 0, opq_thinFilmThickness_hasvalue = 0,
     opq_thinFilmThickness_value = 0, opq_alphaIsThinFilmThickness = 0, opq_heightTexture = None, opq_displaceIn = 0, opq_useDrawCallAlphaState = 0,
     opq_blendType_hasvalue = 0, opq_blendType_value = 0, opq_invertedBlend = 0, opq_alphaTestType = 0, opq_alphaReferenceValue = 0, opq_displaceOut = 0\<rparr>"

lemma plain_ok: "MaterialInfo_ok plain_material" "MaterialInfoOpaque_ok plain_opaque"
  by (simp_all add: MaterialInfo_ok_def MaterialInfoOpaque_ok_def plain_material_def plain_opaque_def path_ok_def MaterialInfoVars_def
      MaterialInfoOpaqueVars_def fold_serialize_def member_def ser_path_def u16_bytes_def)

lemma repeated_extension_cycles_witness:
  "\<forall>g rt s. \<exists>out cmd c' ch. remixapi_CreateMaterial plain_material [Opaque plain_opaque, Opaque plain_opaque] some_client
       = Inr (REMIX_SUCCESS, out, Some cmd, c') \<and>
     fst (projr (serve_remix g rt cmd s)) = [CallCreateMaterial plain_material ch] \<and> (\<forall>n. walk n ch None = None)"
  using repeated_extension_cycles [OF plain_ok(1) plain_ok(2) plain_ok(2)] by blast

text \<open>A mesh whose surface names a destroyed material is created with a null handle, and leaves an entry for it in the table: destroying
  the material again, which the client allows, passes null to the library.\<close>

theorem destroyed_material_revived:
  assumes "mesh_ok (srf_skinning_value (g_surface g)) i" and surf: "msh_surfaces_values i = [x]" "ucast (srf_material x) = h"
    and gone: "materials s h = None" "handle_valid (nextMaterial c) h"
  shows "\<exists>cmd c' q s'. remixapi_CreateMesh i [] c = Some (Inr (REMIX_SUCCESS, Some (nextMesh c), Some cmd, c')) \<and>
    serve_remix g rt cmd s = Inr ([q], s', []) \<and> q = CallCreateMesh (i\<lparr>msh_surfaces_values := [x\<lparr>srf_material := 0\<rparr>]\<rparr>) \<and>
    remixapi_DestroyMaterial h c' = Inr (REMIX_SUCCESS, None, Some (''RemixApi_DestroyMaterial'', [Word h]), c') \<and>
    fst (projr (serve_remix g rt (''RemixApi_DestroyMaterial'', [Word h]) s')) = [CallDestroyMaterial 0]"
proof -
  obtain bs where bs: "serialize MeshInfo_serialize MeshInfo_calcSize i = Some bs"
    "deserialize (MeshInfo_deserialize (g_vertex g) (g_surface g)) (g_mesh g) bs = Some i"
    using MeshInfo.framed [OF assms(1), of "g_vertex g" "g_mesh g"] by blast
  let ?q = "CallCreateMesh (i\<lparr>msh_surfaces_values := [x\<lparr>srf_material := 0\<rparr>]\<rparr>)"
  let ?s' = "s\<lparr>materials := (materials s)(h \<mapsto> 0), meshes := store_handle (nextMesh c) (rt ?q) (meshes s)\<rparr>"
  let ?cmd = "(''RemixApi_CreateMesh'', [Word MESH_INFO, Obj (Some bs), Word (nextMesh c)])"
  have sent: "remixapi_CreateMesh i [] c = Some (Inr (REMIX_SUCCESS, Some (nextMesh c), Some ?cmd, c\<lparr>nextMesh := nextMesh c + 1\<rparr>))"
    by (simp add: remixapi_CreateMesh_def serializeAndSend_def bs Let_def)
  have served: "serve_remix g rt ?cmd s = Inr ([?q], ?s', [])"
    by (simp add: serve_remix_def on_RemixCreateMesh_def deserializeFromQueue_def get_object_def bs surf gone lookup_handle_def Let_def)
  have again: "remixapi_DestroyMaterial h (c\<lparr>nextMesh := nextMesh c + 1\<rparr>) =
      Inr (REMIX_SUCCESS, None, Some (''RemixApi_DestroyMaterial'', [Word h]), c\<lparr>nextMesh := nextMesh c + 1\<rparr>)"
    using gone by (simp add: remixapi_DestroyMaterial_def with_handle_def)
  have null: "fst (projr (serve_remix g rt (''RemixApi_DestroyMaterial'', [Word h]) ?s')) = [CallDestroyMaterial 0]"
    using gone by (simp add: handle_call_defs)
  show ?thesis
    by (rule exI [of _ ?cmd], rule exI [of _ "c\<lparr>nextMesh := nextMesh c + 1\<rparr>"], rule exI [of _ ?q], rule exI [of _ ?s'])
      (use sent served again null in simp)
qed

definition plain_mesh :: "garbage \<Rightarrow> MeshInfo" where
  "plain_mesh g = \<lparr>msh_sType = MESH_INFO, msh_hash = 3, msh_surfaces_values = [\<lparr>srf_vertices_values = [], srf_vertices_count = 0,
     srf_indices_values = [0, 0, 0], srf_indices_count = 3, srf_skinning_hasvalue = 0, srf_skinning_value = srf_skinning_value (g_surface g),
     srf_material = 4\<rparr>], msh_surfaces_count = 1\<rparr>"

lemma plain_mesh_ok: "mesh_ok (srf_skinning_value (g_surface g)) (plain_mesh g)"
  by (simp add: mesh_ok_def plain_mesh_def surface_ok_def handle_ok_def MeshInfo_serialize_def joined_Cons ser_surface_def copied_all per_vertex_word
      split: option.splits)

definition empty_tables :: remix_server where
  "empty_tables = \<lparr>materials = (\<lambda>_. None), meshes = (\<lambda>_. None), lights = (\<lambda>_. None)\<rparr>"

lemma destroyed_material_revived_witness:
  "\<forall>g rt. \<exists>cmd c' q s'. remixapi_CreateMesh (plain_mesh g) [] (some_client\<lparr>nextMaterial := 6\<rparr>) = Some (Inr (REMIX_SUCCESS, Some 1, Some cmd, c')) \<and>
    serve_remix g rt cmd empty_tables = Inr ([q], s', []) \<and>
    fst (projr (serve_remix g rt (''RemixApi_DestroyMaterial'', [Word 4]) s')) = [CallDestroyMaterial 0]"
proof (intro allI)
  fix g rt
  show "\<exists>cmd c' q s'. remixapi_CreateMesh (plain_mesh g) [] (some_client\<lparr>nextMaterial := 6\<rparr>) = Some (Inr (REMIX_SUCCESS, Some 1, Some cmd, c')) \<and>
    serve_remix g rt cmd empty_tables = Inr ([q], s', []) \<and>
    fst (projr (serve_remix g rt (''RemixApi_DestroyMaterial'', [Word 4]) s')) = [CallDestroyMaterial 0]"
    using destroyed_material_revived [OF plain_mesh_ok, of g "hd (msh_surfaces_values (plain_mesh g))" 4 empty_tables "some_client\<lparr>nextMaterial := 6\<rparr>" rt]
    by (fastforce simp: plain_mesh_def empty_tables_def handle_valid_def some_client_def)
qed

end
