(* ===== verification/Object_Cases.thy ===== *)
theory Object_Cases
  imports Swap_Chain
begin

text \<open>
  The cases of the server's switch for the objects of the device (\<open>server/main.cpp\<close>): state blocks, resources, shaders, textures, buffers, surfaces, volumes,
  queries, and the commands of the bridge itself, with their effect on the handle tables.  Where a case calls the runtime it is
  a \<open>req\<close> as in \<open>Server_Dispatch\<close>; the cases that copy the contents of buffers and surfaces are in \<open>Lockable_Buffer\<close> and
  \<open>Surface_Data\<close>.  Commands whose case is empty are not in the lists.
\<close>

section \<open>Actions\<close>

text \<open>A call on an object that must exist; a call that is left out when the table has no object; \<open>safeDestroy\<close> with the removal of the entry; the
  removal alone; commands of the bridge.\<close>

datatype (plugins only:) action = Call req | CallIfPresent req | Destroy table u32 | Unlink table u32
  | Terminate | AddNewHeapSegment u32 | HeapAllocate u32 u32 | HeapDeallocate u32

type_synonym obj_case = "u32 \<Rightarrow> item list \<Rightarrow> (action list \<times> item list) or_error"

definition with_word :: "(u32 \<Rightarrow> obj_case) \<Rightarrow> obj_case" where
  "with_word k h its = (case its of Word w # r \<Rightarrow> k w h r | _ \<Rightarrow> Inl Desync)"

definition with_obj :: "(memory option \<Rightarrow> obj_case) \<Rightarrow> obj_case" where
  "with_obj k h its = (case its of Obj b # r \<Rightarrow> k b h r | _ \<Rightarrow> Inl Desync)"

definition act :: "(u32 \<Rightarrow> action) \<Rightarrow> obj_case" where
  "act a h its = Inr ([a h], its)"

definition skip :: obj_case where
  "skip h its = Inr ([], its)"

definition call_on :: "table \<Rightarrow> string \<Rightarrow> api_arg list \<Rightarrow> answer \<Rightarrow> obj_case" where
  "call_on t m as ans = act (\<lambda>h. Call (request (Some (t, h)) m as ans))"

definition call_if_present :: "table \<Rightarrow> string \<Rightarrow> api_arg list \<Rightarrow> answer \<Rightarrow> obj_case" where
  "call_if_present t m as ans = act (\<lambda>h. CallIfPresent (request (Some (t, h)) m as ans))"

definition call_storing :: "table \<Rightarrow> u32 \<Rightarrow> table \<Rightarrow> string \<Rightarrow> api_arg list \<Rightarrow> answer \<Rightarrow> obj_case" where
  "call_storing st sh t m as ans = act (\<lambda>h. Call ((request (Some (t, h)) m as ans)\<lparr>stores := Some (st, sh)\<rparr>))"

lemmas case_defs = with_word_def with_obj_def act_def skip_def call_on_def call_if_present_def call_storing_def request_def

section \<open>The cases\<close>

definition on_AddRef :: "table \<Rightarrow> obj_case" where "on_AddRef t = call_on t ''AddRef'' [] NoAnswer"

definition on_Destroy :: "table \<Rightarrow> obj_case" where "on_Destroy t = act (Destroy t)"

definition on_StateBlock9_Capture :: obj_case where "on_StateBlock9_Capture = call_on StateBlocks ''Capture'' [] NoAnswer"

definition on_StateBlock9_Apply :: obj_case where "on_StateBlock9_Apply = call_on StateBlocks ''Apply'' [] NoAnswer"

definition dec_blocks :: "(string \<times> obj_case) list" where
  "dec_blocks = [(''StateBlock9_Destroy'', on_Destroy StateBlocks), (''StateBlock9_Capture'', on_StateBlock9_Capture),
     (''StateBlock9_Apply'', on_StateBlock9_Apply), (''SwapChain9_Destroy'', on_Destroy SwapChains)]"

definition on_Resource9_SetPriority :: obj_case where
  "on_Resource9_SetPriority = with_word (\<lambda>PriorityNew. call_on Resources ''SetPriority'' [W PriorityNew] NoAnswer)"

definition on_Resource9_PreLoad :: obj_case where "on_Resource9_PreLoad = call_on Resources ''PreLoad'' [] NoAnswer"

definition dec_shaders :: "(string \<times> obj_case) list" where
  "dec_shaders = [(''Resource9_SetPriority'', on_Resource9_SetPriority), (''Resource9_PreLoad'', on_Resource9_PreLoad),
     (''VertexDeclaration9_AddRef'', on_AddRef VertexDeclarations), (''VertexDeclaration9_Destroy'', on_Destroy VertexDeclarations),
     (''VertexShader9_AddRef'', on_AddRef VertexShaders), (''VertexShader9_Destroy'', on_Destroy VertexShaders),
     (''PixelShader9_AddRef'', on_AddRef PixelShaders), (''PixelShader9_Destroy'', on_Destroy PixelShaders)]"

definition on_BaseTexture9_SetLOD :: obj_case where
  "on_BaseTexture9_SetLOD = with_word (\<lambda>LODNew. call_if_present Resources ''SetLOD'' [W LODNew] NoAnswer)"

definition on_BaseTexture9_SetAutoGenFilterType :: obj_case where
  "on_BaseTexture9_SetAutoGenFilterType = with_word (\<lambda>FilterType. call_if_present Resources ''SetAutoGenFilterType'' [W FilterType] OptionalAnswer)"

definition on_BaseTexture9_GenerateMipSubLevels :: obj_case where
  "on_BaseTexture9_GenerateMipSubLevels = call_if_present Resources ''GenerateMipSubLevels'' [] NoAnswer"

definition on_GetLevelCount :: obj_case where
  "on_GetLevelCount = with_word (\<lambda>orig_cnt. call_on Resources ''GetLevelCount'' [] NoAnswer)"

definition on_GetLevelDesc :: obj_case where
  "on_GetLevelDesc = with_obj (\<lambda>orig_desc. with_word (\<lambda>Level. call_on Resources ''GetLevelDesc'' [W Level, Out] NoAnswer))"

definition on_Texture9_GetSurfaceLevel :: obj_case where
  "on_Texture9_GetSurfaceLevel = with_word (\<lambda>Level. with_word (\<lambda>pSurfaceHandle.
     call_storing Resources pSurfaceHandle Resources ''GetSurfaceLevel'' [W Level, Out] NoAnswer))"

definition on_Texture9_AddDirtyRect :: obj_case where
  "on_Texture9_AddDirtyRect = with_obj (\<lambda>pDirtyRect. call_on Resources ''AddDirtyRect'' [P pDirtyRect] OptionalAnswer)"

definition on_VolumeTexture9_GetVolumeLevel :: obj_case where
  "on_VolumeTexture9_GetVolumeLevel = with_word (\<lambda>Level. with_word (\<lambda>pVolumeLevelHandle.
     call_storing Volumes pVolumeLevelHandle Resources ''GetVolumeLevel'' [W Level, Out] NoAnswer))"

definition on_VolumeTexture9_AddDirtyBox :: obj_case where
  "on_VolumeTexture9_AddDirtyBox = with_word (\<lambda>Level. with_obj (\<lambda>pBox. call_on Resources ''AddDirtyBox'' [P pBox] OptionalAnswer))"

definition on_CubeTexture9_GetCubeMapSurface :: obj_case where
  "on_CubeTexture9_GetCubeMapSurface = with_word (\<lambda>FaceType. with_word (\<lambda>Level. with_word (\<lambda>pCubeMapSurfaceHandle.
     call_storing Resources pCubeMapSurfaceHandle Resources ''GetCubeMapSurface'' [W FaceType, W Level, Out] NoAnswer)))"

definition on_CubeTexture9_AddDirtyRect :: obj_case where
  "on_CubeTexture9_AddDirtyRect = with_word (\<lambda>FaceType. with_obj (\<lambda>pDirtyRect.
     call_on Resources ''AddDirtyRect'' [W FaceType, P pDirtyRect] OptionalAnswer))"

definition dec_textures :: "(string \<times> obj_case) list" where
  "dec_textures = [(''BaseTexture9_SetLOD'', on_BaseTexture9_SetLOD), (''BaseTexture9_SetAutoGenFilterType'', on_BaseTexture9_SetAutoGenFilterType),
     (''BaseTexture9_GenerateMipSubLevels'', on_BaseTexture9_GenerateMipSubLevels),
     (''Texture9_AddRef'', on_AddRef Resources), (''Texture9_Destroy'', on_Destroy Resources), (''Texture9_GetLevelCount'', on_GetLevelCount),
     (''Texture9_GetLevelDesc'', on_GetLevelDesc), (''Texture9_GetSurfaceLevel'', on_Texture9_GetSurfaceLevel),
     (''Texture9_AddDirtyRect'', on_Texture9_AddDirtyRect),
     (''VolumeTexture9_AddRef'', on_AddRef Resources), (''VolumeTexture9_Destroy'', on_Destroy Resources),
     (''VolumeTexture9_GetLevelCount'', on_GetLevelCount), (''VolumeTexture9_GetLevelDesc'', on_GetLevelDesc),
     (''VolumeTexture9_GetVolumeLevel'', on_VolumeTexture9_GetVolumeLevel), (''VolumeTexture9_AddDirtyBox'', on_VolumeTexture9_AddDirtyBox),
     (''CubeTexture9_AddRef'', on_AddRef Resources), (''CubeTexture9_Destroy'', on_Destroy Resources),
     (''CubeTexture9_GetLevelCount'', on_GetLevelCount), (''CubeTexture9_GetLevelDesc'', on_GetLevelDesc),
     (''CubeTexture9_GetCubeMapSurface'', on_CubeTexture9_GetCubeMapSurface), (''CubeTexture9_AddDirtyRect'', on_CubeTexture9_AddDirtyRect)]"

definition on_Buffer9_Lock :: obj_case where "on_Buffer9_Lock = with_obj (\<lambda>data. skip)"

definition on_GetDesc :: "table \<Rightarrow> obj_case" where
  "on_GetDesc t = with_obj (\<lambda>orig_desc. call_on t ''GetDesc'' [Out] NoAnswer)"

definition dec_buffers :: "(string \<times> obj_case) list" where
  "dec_buffers = [(''VertexBuffer9_AddRef'', on_AddRef Resources), (''VertexBuffer9_Destroy'', on_Destroy Resources),
     (''VertexBuffer9_Lock'', on_Buffer9_Lock), (''VertexBuffer9_GetDesc'', on_GetDesc Resources),
     (''IndexBuffer9_AddRef'', on_AddRef Resources), (''IndexBuffer9_Destroy'', on_Destroy Resources),
     (''IndexBuffer9_Lock'', on_Buffer9_Lock), (''IndexBuffer9_GetDesc'', on_GetDesc Resources),
     (''Surface9_AddRef'', on_AddRef Resources), (''Surface9_Destroy'', on_Destroy Resources), (''Surface9_GetDesc'', on_GetDesc Resources),
     (''Volume9_AddRef'', on_AddRef Volumes), (''Volume9_Destroy'', on_Destroy Volumes), (''Volume9_GetDesc'', on_GetDesc Volumes)]"

definition on_Query9_Issue :: obj_case where
  "on_Query9_Issue = with_word (\<lambda>dwIssueFlags. call_on Queries ''Issue'' [W dwIssueFlags] OptionalAnswer)"

definition on_Query9_GetData :: obj_case where
  "on_Query9_GetData = with_word (\<lambda>dwSize. with_word (\<lambda>dwGetDataFlags. call_on Queries ''GetData'' [Out, W dwSize, W dwGetDataFlags] AlwaysAnswer))"

definition on_DebugMessage :: obj_case where "on_DebugMessage = with_word (\<lambda>i. with_obj (\<lambda>text. skip))"

definition on_SharedHeap_Alloc :: obj_case where
  "on_SharedHeap_Alloc = with_word (\<lambda>chunkId. act (\<lambda>allocId. HeapAllocate allocId chunkId))"

definition dec_bridge :: "(string \<times> obj_case) list" where
  "dec_bridge = [(''Query9_Destroy'', on_Destroy Queries), (''Query9_Issue'', on_Query9_Issue), (''Query9_GetData'', on_Query9_GetData),
     (''DebugMessage'', on_DebugMessage), (''Terminate'', act (\<lambda>_. Terminate)), (''SharedHeap_AddSeg'', act AddNewHeapSegment),
     (''SharedHeap_Alloc'', on_SharedHeap_Alloc), (''SharedHeap_Dealloc'', act HeapDeallocate),
     (''UnlinkResource'', act (Unlink Resources)), (''UnlinkVolumeResource'', act (Unlink Volumes))]"

definition object_cases :: "(string \<times> obj_case) list" where
  "object_cases = dec_blocks @ dec_shaders @ dec_textures @ dec_buffers @ dec_bridge"

lemmas object_lists = object_cases_def dec_blocks_def dec_shaders_def dec_textures_def dec_buffers_def dec_bridge_def

definition dispatch_object :: "string \<Rightarrow> obj_case" where
  "dispatch_object n = (case map_of object_cases n of Some k \<Rightarrow> k | None \<Rightarrow> skip)"

section \<open>Effect on the tables\<close>

text \<open>\<open>safeDestroy\<close>: \<open>Release\<close> until it gives zero or less (as a signed number); the list is what the successive calls give.  \<open>None\<close> when
  the list ends before.\<close>

fun safeDestroy :: "bool \<Rightarrow> int list \<Rightarrow> nat option" where
  "safeDestroy present [] = (if present then None else Some 0)"
| "safeDestroy present (c # cs) = (if \<not> present then Some 0 else if c > 0 then map_option Suc (safeDestroy present cs) else Some 1)"

definition exec_action :: "runtime \<Rightarrow> action \<Rightarrow> tables \<Rightarrow> tables or_error" where
  "exec_action rt a T = (case a of
     Call q \<Rightarrow> exec_req rt q T
   | CallIfPresent q \<Rightarrow> (case recv q of None \<Rightarrow> Inr T | Some (t, h) \<Rightarrow> if T t h = None then Inr T else exec_req rt q T)
   | Destroy t h \<Rightarrow> Inr (T(t := (T t)(h := None)))
   | Unlink t h \<Rightarrow> Inr (T(t := (T t)(h := None)))
   | _ \<Rightarrow> Inr T)"

definition serve_object :: "runtime \<Rightarrow> cmd \<Rightarrow> tables \<Rightarrow> tables or_error" where
  "serve_object rt c T = bindE (dispatch_object (fst (snd c)) (fst c) (map received (snd (snd c)))) (\<lambda>(as, rest).
     if rest \<noteq> [] then Inl Desync else fold (\<lambda>a r. bindE r (exec_action rt a)) as (Inr T))"

fun serve_objects :: "runtime \<Rightarrow> cmd list \<Rightarrow> tables \<Rightarrow> tables or_error" where
  "serve_objects rt [] T = Inr T"
| "serve_objects rt (c # cs) T = bindE (serve_object rt c T) (serve_objects rt cs)"

text \<open>The loop ends at the first count that is not positive.\<close>

lemma safeDestroy_ends: "safeDestroy True cs = Some n \<longleftrightarrow> 0 < n \<and> n \<le> length cs \<and> cs ! (n - 1) \<le> 0 \<and> (\<forall>i < n - 1. 0 < cs ! i)"
proof (induction cs arbitrary: n)
  case (Cons c cs)
  show ?case
  proof (cases "n \<le> 1")
    case True
    then show ?thesis using Cons.IH [of 0] by (cases n) (auto split: option.splits)
  next
    case False
    then obtain m where n: "n = Suc m" "0 < m" by (cases n) auto
    then show ?thesis using Cons.IH [of m] by (auto simp: nth_Cons less_Suc_eq_0_disj split: nat.splits)
  qed
qed auto

end
