(* ===== verification/Texture_Wrappers.thy ===== *)
theory Texture_Wrappers
  imports Object_Cases Device_State
begin

text \<open>
  The wrappers of textures on the client (\<open>d3d9_base_texture.h\<close>, \<open>d3d9_texture.cpp\<close>, \<open>d3d9_cubetexture.cpp\<close>, \<open>d3d9_volumetexture.cpp\<close>,
  the resource and container classes of \<open>d3d9_resource.h\<close>), the queries (\<open>d3d9_query.cpp\<close>), and what their messages do on the server.
  Interface pointers are the ids of wrappers, an output pointer is a flag, \<open>new_id\<close> is the id of the wrapper that a call may
  create, \<open>readOnly\<close> the option \<open>sendReadOnlyCalls\<close>.  A texture is called on its own, so that the lock of the device is left out;
  reference counts are in \<open>Ref_Counts\<close>.
\<close>

section \<open>State\<close>

definition D3DUSAGE_AUTOGENMIPMAP :: u32 where "D3DUSAGE_AUTOGENMIPMAP = 0x400"
definition D3DTEXF_NONE :: u32 where "D3DTEXF_NONE = 0"
definition D3DTEXF_LINEAR :: u32 where "D3DTEXF_LINEAR = 2"
definition D3DTEXF_CONVOLUTIONMONO :: u32 where "D3DTEXF_CONVOLUTIONMONO = 8"
definition D3DRTYPE_SURFACE :: u32 where "D3DRTYPE_SURFACE = 1"
definition D3DRTYPE_VOLUME :: u32 where "D3DRTYPE_VOLUME = 2"
definition MaxCubeFaces :: u32 where "MaxCubeFaces = 6"

record TEXTURE_DESC =
  td_Width :: u32
  td_Height :: u32
  td_Depth :: u32
  td_Levels :: u32
  td_Usage :: u32
  td_Format :: u32
  td_Pool :: u32

record texture =
  tx_id :: u32
  tx_desc :: TEXTURE_DESC
  m_lod :: u32
  m_mipFilter :: u32
  m_priority :: u32
  m_children :: "u32 option list"

definition GetLevelCount :: "texture \<Rightarrow> u32" where
  "GetLevelCount t = (if td_Usage (tx_desc t) AND D3DUSAGE_AUTOGENMIPMAP \<noteq> 0 then 1 else td_Levels (tx_desc t))"

text \<open>The constructors: the description is sanitised, then the children are made room for.\<close>

definition new_BaseTexture :: "u32 \<Rightarrow> TEXTURE_DESC \<Rightarrow> texture" where
  "new_BaseTexture i d = \<lparr>tx_id = i, tx_desc = d\<lparr>td_Width := max (td_Width d) 1, td_Height := max (td_Height d) 1,
     td_Depth := max (td_Depth d) 1, td_Levels := max (td_Levels d) 1\<rparr>, m_lod = 0, m_mipFilter = D3DTEXF_LINEAR, m_priority = 0, m_children = []\<rparr>"

definition new_Texture :: "u32 \<Rightarrow> TEXTURE_DESC \<Rightarrow> texture" where
  "new_Texture i d = (let t = new_BaseTexture i d in t\<lparr>m_children := replicate (unat (GetLevelCount t)) None\<rparr>)"

definition new_VolumeTexture :: "u32 \<Rightarrow> TEXTURE_DESC \<Rightarrow> texture" where
  "new_VolumeTexture i d = new_Texture i d"

definition new_CubeTexture :: "u32 \<Rightarrow> TEXTURE_DESC \<Rightarrow> texture" where
  "new_CubeTexture i d = (let t = new_BaseTexture i d in t\<lparr>m_children := replicate (unat (GetLevelCount t * MaxCubeFaces)) None\<rparr>)"

type_synonym tex_result = "(HRESULT \<times> texture \<times> cmd list) or_error"

definition tx_msg :: "texture \<Rightarrow> string \<Rightarrow> item list \<Rightarrow> cmd" where
  "tx_msg t name items = (tx_id t, name, items)"

section \<open>Resources and base textures\<close>

definition tx_SetPriority :: "u32 \<Rightarrow> texture \<Rightarrow> u32 \<times> texture \<times> cmd list" where
  "tx_SetPriority PriorityNew t = (m_priority t, t\<lparr>m_priority := PriorityNew\<rparr>,
     if m_priority t \<noteq> PriorityNew then [tx_msg t ''Resource9_SetPriority'' [Word PriorityNew]] else [])"

definition tx_PreLoad :: "texture \<Rightarrow> cmd list" where
  "tx_PreLoad t = [tx_msg t ''Resource9_PreLoad'' []]"

definition tx_SetLOD :: "u32 \<Rightarrow> texture \<Rightarrow> u32 \<times> texture \<times> cmd list" where
  "tx_SetLOD LODNew t = (m_lod t, t\<lparr>m_lod := LODNew\<rparr>, if m_lod t \<noteq> LODNew then [tx_msg t ''BaseTexture9_SetLOD'' [Word LODNew]] else [])"

text \<open>\<open>resp\<close> is the value returned after the message: the answer of the server when answers are asked for.\<close>

definition tx_SetAutoGenFilterType :: "HRESULT \<Rightarrow> u32 \<Rightarrow> texture \<Rightarrow> HRESULT \<times> texture \<times> cmd list" where
  "tx_SetAutoGenFilterType resp FilterType t =
     (if FilterType = D3DTEXF_NONE \<or> FilterType > D3DTEXF_CONVOLUTIONMONO then (D3DERR_INVALIDCALL, t, [])
      else if m_mipFilter t = FilterType then (S_OK, t, [])
      else (resp, t\<lparr>m_mipFilter := FilterType\<rparr>, [tx_msg t ''BaseTexture9_SetAutoGenFilterType'' [Word FilterType]]))"

definition tx_GenerateMipSubLevels :: "texture \<Rightarrow> cmd list" where
  "tx_GenerateMipSubLevels t = (if td_Usage (tx_desc t) AND D3DUSAGE_AUTOGENMIPMAP \<noteq> 0 then [tx_msg t ''BaseTexture9_GenerateMipSubLevels'' []] else [])"

section \<open>Children\<close>

text \<open>\<open>getChild\<close> and \<open>setChild\<close> index a vector.\<close>

definition getChild :: "nat \<Rightarrow> texture \<Rightarrow> u32 option or_error" where
  "getChild i t = getE (m_children t) i"

definition setChild :: "nat \<Rightarrow> u32 \<Rightarrow> texture \<Rightarrow> texture" where
  "setChild i c t = t\<lparr>m_children := (m_children t)[i := Some c]\<rparr>"

text \<open>A shift by 32 or more is undefined; the shift of the processor takes the lower five bits.\<close>

definition shifted :: "u32 \<Rightarrow> u32 \<Rightarrow> u32" where
  "shifted w Level = max 1 (drop_bit (unat Level mod 32) w)"

definition surface_desc :: "u32 \<Rightarrow> texture \<Rightarrow> memory" where
  "surface_desc level t = (let d = tx_desc t in concat (map u32_bytes
     [td_Format d, D3DRTYPE_SURFACE, td_Usage d, td_Pool d, 0, 0, shifted (td_Width d) level, shifted (td_Height d) level]))"

definition volume_desc :: "u32 \<Rightarrow> texture \<Rightarrow> memory" where
  "volume_desc level t = (let d = tx_desc t in concat (map u32_bytes
     [td_Format d, D3DRTYPE_VOLUME, td_Usage d, td_Pool d, shifted (td_Width d) level, shifted (td_Height d) level, shifted (td_Depth d) level]))"

text \<open>\<open>GetLevelDesc\<close> of the three classes: the description put out, and the messages.\<close>

definition level_desc :: "string \<Rightarrow> (u32 \<Rightarrow> texture \<Rightarrow> memory) \<Rightarrow> bool \<Rightarrow> u32 \<Rightarrow> bool \<Rightarrow> texture \<Rightarrow> HRESULT \<times> memory option \<times> cmd list" where
  "level_desc name desc readOnly Level pDesc t = (if Level \<ge> GetLevelCount t \<or> \<not> pDesc then (D3DERR_INVALIDCALL, None, [])
     else (S_OK, Some (desc Level t), if readOnly then [tx_msg t name [Obj (Some (desc Level t)), Word Level]] else []))"

definition tx_GetLevelDesc :: "bool \<Rightarrow> u32 \<Rightarrow> bool \<Rightarrow> texture \<Rightarrow> HRESULT \<times> memory option \<times> cmd list" where
  "tx_GetLevelDesc = level_desc ''Texture9_GetLevelDesc'' surface_desc"

definition cube_GetLevelDesc :: "bool \<Rightarrow> u32 \<Rightarrow> bool \<Rightarrow> texture \<Rightarrow> HRESULT \<times> memory option \<times> cmd list" where
  "cube_GetLevelDesc = level_desc ''CubeTexture9_GetLevelDesc'' surface_desc"

definition vol_GetLevelDesc :: "bool \<Rightarrow> u32 \<Rightarrow> bool \<Rightarrow> texture \<Rightarrow> HRESULT \<times> memory option \<times> cmd list" where
  "vol_GetLevelDesc = level_desc ''VolumeTexture9_GetLevelDesc'' volume_desc"

text \<open>The getters of a child: an existing one is put out, otherwise a wrapper is made and the server is told its id.\<close>

type_synonym child_result = "(HRESULT \<times> u32 option \<times> texture \<times> cmd list) or_error"

definition tx_GetSurfaceLevel :: "bool \<Rightarrow> u32 \<Rightarrow> u32 \<Rightarrow> bool \<Rightarrow> texture \<Rightarrow> child_result" where
  "tx_GetSurfaceLevel readOnly new_id Level ppSurfaceLevel t =
     (if Level \<ge> GetLevelCount t \<or> \<not> ppSurfaceLevel then Inr (D3DERR_INVALIDCALL, None, t, [])
      else bindE (getChild (unat Level) t) (\<lambda>c. case c of
          Some s \<Rightarrow> Inr (S_OK, Some s, t, [])
        | None \<Rightarrow> (case tx_GetLevelDesc readOnly Level True t of (_, _, ms) \<Rightarrow>
            Inr (S_OK, Some new_id, setChild (unat Level) new_id t,
              ms @ [tx_msg t ''Texture9_GetSurfaceLevel'' [Word Level, Word new_id]]))))"

definition vol_GetVolumeLevel :: "bool \<Rightarrow> u32 \<Rightarrow> u32 \<Rightarrow> bool \<Rightarrow> texture \<Rightarrow> child_result" where
  "vol_GetVolumeLevel readOnly new_id Level ppVolumeLevel t =
     (if Level \<ge> GetLevelCount t \<or> \<not> ppVolumeLevel then Inr (D3DERR_INVALIDCALL, None, t, [])
      else bindE (getChild (unat Level) t) (\<lambda>c. case c of
          Some v \<Rightarrow> Inr (S_OK, Some v, t, [])
        | None \<Rightarrow> (case vol_GetLevelDesc readOnly Level True t of (_, _, ms) \<Rightarrow>
            Inr (S_OK, Some new_id, setChild (unat Level) new_id t,
              ms @ [tx_msg t ''VolumeTexture9_GetVolumeLevel'' [Word Level, Word new_id]]))))"

definition getCubeSurfaceIndex :: "u32 \<Rightarrow> u32 \<Rightarrow> u32" where
  "getCubeSurfaceIndex FaceType Level = FaceType + Level * MaxCubeFaces"

text \<open>The face is an enumeration, which the compiler compares as a signed number here.\<close>

definition cube_GetCubeMapSurface :: "bool \<Rightarrow> u32 \<Rightarrow> u32 \<Rightarrow> u32 \<Rightarrow> bool \<Rightarrow> texture \<Rightarrow> child_result" where
  "cube_GetCubeMapSurface readOnly new_id FaceType Level ppCubeMapSurface t =
     (if Level \<ge> GetLevelCount t \<or> sint FaceType > 5 \<or> \<not> ppCubeMapSurface then Inr (D3DERR_INVALIDCALL, None, t, [])
      else let i = unat (getCubeSurfaceIndex FaceType Level) in bindE (getChild i t) (\<lambda>c. case c of
          Some s \<Rightarrow> Inr (S_OK, Some s, t, [])
        | None \<Rightarrow> (case cube_GetLevelDesc readOnly Level True t of (_, _, ms) \<Rightarrow>
            Inr (S_OK, Some new_id, setChild i new_id t,
              ms @ [tx_msg t ''CubeTexture9_GetCubeMapSurface'' [Word FaceType, Word Level, Word new_id]]))))"

text \<open>\<open>LockRect\<close> and \<open>UnlockRect\<close> of a texture: the child that is locked or unlocked.  The level is compared with the levels of the description.\<close>

definition tx_LockRect :: "bool \<Rightarrow> u32 \<Rightarrow> u32 \<Rightarrow> texture \<Rightarrow> child_result" where
  "tx_LockRect readOnly new_id Level t = (if Level \<ge> td_Levels (tx_desc t) then Inr (D3DERR_INVALIDCALL, None, t, [])
     else bindE (getChild (unat Level) t) (\<lambda>c. case c of Some s \<Rightarrow> Inr (S_OK, Some s, t, [])
       | None \<Rightarrow> tx_GetSurfaceLevel readOnly new_id Level True t))"

definition tx_UnlockRect :: "u32 \<Rightarrow> texture \<Rightarrow> (HRESULT \<times> u32 option) or_error" where
  "tx_UnlockRect Level t = (if Level \<ge> td_Levels (tx_desc t) then Inr (D3DERR_INVALIDCALL, None)
     else bindE (getChild (unat Level) t) (\<lambda>c. Inr (if c = None then D3DERR_INVALIDCALL else S_OK, c)))"

definition vol_LockBox :: "bool \<Rightarrow> u32 \<Rightarrow> u32 \<Rightarrow> texture \<Rightarrow> child_result" where
  "vol_LockBox readOnly new_id Level t = (if Level \<ge> td_Levels (tx_desc t) then Inr (D3DERR_INVALIDCALL, None, t, [])
     else bindE (getChild (unat Level) t) (\<lambda>c. case c of Some v \<Rightarrow> Inr (S_OK, Some v, t, [])
       | None \<Rightarrow> vol_GetVolumeLevel readOnly new_id Level True t))"

definition vol_UnlockBox :: "u32 \<Rightarrow> texture \<Rightarrow> (HRESULT \<times> u32 option) or_error" where
  "vol_UnlockBox = tx_UnlockRect"

definition cube_LockRect :: "bool \<Rightarrow> u32 \<Rightarrow> u32 \<Rightarrow> u32 \<Rightarrow> texture \<Rightarrow> child_result" where
  "cube_LockRect readOnly new_id FaceType Level t =
     (if Level \<ge> td_Levels (tx_desc t) \<or> FaceType \<ge> MaxCubeFaces then Inr (D3DERR_INVALIDCALL, None, t, [])
      else bindE (getChild (unat (getCubeSurfaceIndex FaceType Level)) t) (\<lambda>c. case c of Some s \<Rightarrow> Inr (S_OK, Some s, t, [])
        | None \<Rightarrow> cube_GetCubeMapSurface readOnly new_id FaceType Level True t))"

definition cube_UnlockRect :: "u32 \<Rightarrow> u32 \<Rightarrow> texture \<Rightarrow> (HRESULT \<times> u32 option) or_error" where
  "cube_UnlockRect FaceType Level t =
     (if Level \<ge> td_Levels (tx_desc t) \<or> FaceType \<ge> MaxCubeFaces then Inr (D3DERR_INVALIDCALL, None)
      else bindE (getChild (unat (getCubeSurfaceIndex FaceType Level)) t) (\<lambda>c. Inr (if c = None then D3DERR_INVALIDCALL else S_OK, c)))"

text \<open>Dirty regions; a null pointer is sent as an empty object.\<close>

definition tx_AddDirtyRect :: "memory option \<Rightarrow> texture \<Rightarrow> cmd list" where
  "tx_AddDirtyRect pDirtyRect t = [tx_msg t ''Texture9_AddDirtyRect'' [Obj pDirtyRect]]"

definition cube_AddDirtyRect :: "u32 \<Rightarrow> memory option \<Rightarrow> texture \<Rightarrow> cmd list" where
  "cube_AddDirtyRect FaceType pDirtyRect t = [tx_msg t ''CubeTexture9_AddDirtyRect'' [Word FaceType, Obj pDirtyRect]]"

definition vol_AddDirtyBox :: "memory option \<Rightarrow> texture \<Rightarrow> cmd list" where
  "vol_AddDirtyBox pDirtyBox t = [tx_msg t ''VolumeTexture9_AddDirtyBox'' [Obj pDirtyBox]]"

text \<open>Destruction: the message of the texture, then its destructor destroys the children, which only unlink themselves.\<close>

definition onDestroy_child :: "bool \<Rightarrow> string \<Rightarrow> string \<Rightarrow> u32 \<Rightarrow> cmd" where
  "onDestroy_child standalone destroyed unlinked i = (i, if standalone then destroyed else unlinked, [])"

definition destroy_children :: "(u32 \<Rightarrow> cmd) \<Rightarrow> texture \<Rightarrow> cmd list" where
  "destroy_children f t = concat (map (\<lambda>c. case c of None \<Rightarrow> [] | Some i \<Rightarrow> [f i]) (m_children t))"

definition tx_destroy :: "texture \<Rightarrow> cmd list" where
  "tx_destroy t = tx_msg t ''Texture9_Destroy'' [] # destroy_children (onDestroy_child False ''Surface9_Destroy'' ''UnlinkResource'') t"

definition cube_destroy :: "texture \<Rightarrow> cmd list" where
  "cube_destroy t = tx_msg t ''CubeTexture9_Destroy'' [] # destroy_children (onDestroy_child False ''Surface9_Destroy'' ''UnlinkResource'') t"

definition vol_destroy :: "texture \<Rightarrow> cmd list" where
  "vol_destroy t = tx_msg t ''VolumeTexture9_Destroy'' [] # destroy_children (onDestroy_child False ''Volume9_Destroy'' ''UnlinkVolumeResource'') t"

section \<open>Runs of the application\<close>

text \<open>The three classes, and the calls of the application on a texture.  The calls that may make a wrapper carry its id; the face is
  used by cube textures only.\<close>

datatype tex_class = Texture2D | CubeTexture | VolumeTexture

datatype tex_op = GetLevel u32 u32 u32 | LockLevel u32 u32 u32 | LevelDesc u32 | SetLOD u32 | SetPriority u32 | PreLoad
  | SetAutoGen HRESULT u32 | GenerateMips | AddDirty u32 "memory option"

definition new_tex :: "tex_class \<Rightarrow> u32 \<Rightarrow> TEXTURE_DESC \<Rightarrow> texture" where
  "new_tex k = (case k of Texture2D \<Rightarrow> new_Texture | CubeTexture \<Rightarrow> new_CubeTexture | VolumeTexture \<Rightarrow> new_VolumeTexture)"

definition get_level :: "tex_class \<Rightarrow> bool \<Rightarrow> u32 \<Rightarrow> u32 \<Rightarrow> u32 \<Rightarrow> texture \<Rightarrow> child_result" where
  "get_level k readOnly new_id face Level t = (case k of Texture2D \<Rightarrow> tx_GetSurfaceLevel readOnly new_id Level True t
     | CubeTexture \<Rightarrow> cube_GetCubeMapSurface readOnly new_id face Level True t | VolumeTexture \<Rightarrow> vol_GetVolumeLevel readOnly new_id Level True t)"

definition lock_level :: "tex_class \<Rightarrow> bool \<Rightarrow> u32 \<Rightarrow> u32 \<Rightarrow> u32 \<Rightarrow> texture \<Rightarrow> child_result" where
  "lock_level k readOnly new_id face Level t = (case k of Texture2D \<Rightarrow> tx_LockRect readOnly new_id Level t
     | CubeTexture \<Rightarrow> cube_LockRect readOnly new_id face Level t | VolumeTexture \<Rightarrow> vol_LockBox readOnly new_id Level t)"

definition tex_step :: "tex_class \<Rightarrow> bool \<Rightarrow> tex_op \<Rightarrow> texture \<Rightarrow> (texture \<times> cmd list) or_error" where
  "tex_step k readOnly op t = (case op of
     GetLevel i face Level \<Rightarrow> bindE (get_level k readOnly i face Level t) (\<lambda>(_, _, t1, ms). Inr (t1, ms))
   | LockLevel i face Level \<Rightarrow> bindE (lock_level k readOnly i face Level t) (\<lambda>(_, _, t1, ms). Inr (t1, ms))
   | LevelDesc Level \<Rightarrow> Inr (t, snd (snd ((case k of Texture2D \<Rightarrow> tx_GetLevelDesc | CubeTexture \<Rightarrow> cube_GetLevelDesc
       | VolumeTexture \<Rightarrow> vol_GetLevelDesc) readOnly Level True t)))
   | SetLOD l \<Rightarrow> Inr (snd (tx_SetLOD l t))
   | SetPriority q \<Rightarrow> Inr (snd (tx_SetPriority q t))
   | PreLoad \<Rightarrow> Inr (t, tx_PreLoad t)
   | SetAutoGen resp f \<Rightarrow> Inr (snd (tx_SetAutoGenFilterType resp f t))
   | GenerateMips \<Rightarrow> Inr (t, tx_GenerateMipSubLevels t)
   | AddDirty face r \<Rightarrow> Inr (t, case k of Texture2D \<Rightarrow> tx_AddDirtyRect r t | CubeTexture \<Rightarrow> cube_AddDirtyRect face r t
       | VolumeTexture \<Rightarrow> vol_AddDirtyBox r t))"

fun tex_run :: "tex_class \<Rightarrow> bool \<Rightarrow> tex_op list \<Rightarrow> texture \<Rightarrow> (texture \<times> cmd list) or_error" where
  "tex_run k readOnly [] t = Inr (t, [])"
| "tex_run k readOnly (op # ops) t = bindE (tex_step k readOnly op t) (\<lambda>(t1, ms). bindE (tex_run k readOnly ops t1) (\<lambda>(t2, ms2). Inr (t2, ms @ ms2)))"

definition tex_destroy :: "tex_class \<Rightarrow> texture \<Rightarrow> cmd list" where
  "tex_destroy k = (case k of Texture2D \<Rightarrow> tx_destroy | CubeTexture \<Rightarrow> cube_destroy | VolumeTexture \<Rightarrow> vol_destroy)"

section \<open>What the server's tables hold\<close>

definition child_table :: "tex_class \<Rightarrow> table" where
  "child_table k = (if k = VolumeTexture then Volumes else Resources)"

text \<open>The runtime's object for a slot of the children.\<close>

definition runtime_child :: "tex_class \<Rightarrow> runtime \<Rightarrow> ptr \<Rightarrow> nat \<Rightarrow> ptr option" where
  "runtime_child k rt p i = (case k of
     Texture2D \<Rightarrow> rt p ''GetSurfaceLevel'' [W (word_of_nat i), Out]
   | VolumeTexture \<Rightarrow> rt p ''GetVolumeLevel'' [W (word_of_nat i), Out]
   | CubeTexture \<Rightarrow> rt p ''GetCubeMapSurface'' [W (word_of_nat (i mod 6)), W (word_of_nat (i div 6)), Out])"

definition slots :: "tex_class \<Rightarrow> texture \<Rightarrow> nat" where
  "slots k t = unat (GetLevelCount t) * (if k = CubeTexture then 6 else 1)"

definition slot :: "tex_class \<Rightarrow> u32 \<Rightarrow> u32 \<Rightarrow> nat" where
  "slot k face Level = (if k = CubeTexture then unat (getCubeSurfaceIndex face Level) else unat Level)"

definition op_ids :: "tex_op \<Rightarrow> u32 list" where
  "op_ids op = (case op of GetLevel i _ _ \<Rightarrow> [i] | LockLevel i _ _ \<Rightarrow> [i] | _ \<Rightarrow> [])"

text \<open>A face is one of the six; a volume texture is not given dirty boxes.\<close>

definition op_ok :: "tex_class \<Rightarrow> tex_op \<Rightarrow> bool" where
  "op_ok k op = (case op of GetLevel _ face _ \<Rightarrow> k = CubeTexture \<longrightarrow> face < 6 | AddDirty _ _ \<Rightarrow> k \<noteq> VolumeTexture | _ \<Rightarrow> True)"

definition child_ids :: "texture \<Rightarrow> u32 set" where
  "child_ids t = {c. Some c \<in> set (m_children t)}"

definition own_ids :: "texture \<Rightarrow> u32 set" where
  "own_ids t = insert (tx_id t) (child_ids t)"

definition linked :: "tex_class \<Rightarrow> ptr \<Rightarrow> (nat \<Rightarrow> ptr) \<Rightarrow> tables \<Rightarrow> texture \<Rightarrow> bool" where
  "linked k p child T t \<longleftrightarrow> T Resources (tx_id t) = Some p \<and> length (m_children t) = slots k t \<and> slots k t < 2 ^ 32
     \<and> td_Levels (tx_desc t) \<le> GetLevelCount t
     \<and> (\<forall>i < length (m_children t). \<forall>c. m_children t ! i = Some c \<longrightarrow> T (child_table k) c = Some (child i))"

lemma dispatch_tex:
  "dispatch_object ''Resource9_SetPriority'' = on_Resource9_SetPriority" "dispatch_object ''Resource9_PreLoad'' = on_Resource9_PreLoad"
  "dispatch_object ''BaseTexture9_SetLOD'' = on_BaseTexture9_SetLOD"
  "dispatch_object ''BaseTexture9_SetAutoGenFilterType'' = on_BaseTexture9_SetAutoGenFilterType"
  "dispatch_object ''BaseTexture9_GenerateMipSubLevels'' = on_BaseTexture9_GenerateMipSubLevels"
  "dispatch_object ''Texture9_GetLevelDesc'' = on_GetLevelDesc" "dispatch_object ''VolumeTexture9_GetLevelDesc'' = on_GetLevelDesc"
  "dispatch_object ''CubeTexture9_GetLevelDesc'' = on_GetLevelDesc"
  "dispatch_object ''Texture9_GetSurfaceLevel'' = on_Texture9_GetSurfaceLevel"
  "dispatch_object ''VolumeTexture9_GetVolumeLevel'' = on_VolumeTexture9_GetVolumeLevel"
  "dispatch_object ''CubeTexture9_GetCubeMapSurface'' = on_CubeTexture9_GetCubeMapSurface"
  "dispatch_object ''Texture9_AddDirtyRect'' = on_Texture9_AddDirtyRect" "dispatch_object ''CubeTexture9_AddDirtyRect'' = on_CubeTexture9_AddDirtyRect"
  "dispatch_object ''VolumeTexture9_AddDirtyBox'' = on_VolumeTexture9_AddDirtyBox"
  by (simp_all add: dispatch_object_def object_lists)

lemma dispatch_destroy:
  "dispatch_object ''Texture9_Destroy'' = on_Destroy Resources" "dispatch_object ''VolumeTexture9_Destroy'' = on_Destroy Resources"
  "dispatch_object ''CubeTexture9_Destroy'' = on_Destroy Resources" "dispatch_object ''UnlinkResource'' = act (Unlink Resources)"
  "dispatch_object ''UnlinkVolumeResource'' = act (Unlink Volumes)"
  by (simp_all add: dispatch_object_def object_lists)

lemmas on_tex_defs = on_Resource9_SetPriority_def on_Resource9_PreLoad_def on_BaseTexture9_SetLOD_def on_BaseTexture9_SetAutoGenFilterType_def
  on_BaseTexture9_GenerateMipSubLevels_def on_GetLevelDesc_def on_Texture9_GetSurfaceLevel_def on_VolumeTexture9_GetVolumeLevel_def
  on_CubeTexture9_GetCubeMapSurface_def on_Texture9_AddDirtyRect_def on_CubeTexture9_AddDirtyRect_def on_Destroy_def

lemmas serve_defs = serve_object_def dispatch_tex dispatch_destroy on_tex_defs case_defs exec_action_def exec_req_def store_result_def

lemma serve_objects_append: "serve_objects rt (xs @ ys) T = bindE (serve_objects rt xs T) (serve_objects rt ys)"
  by (induction xs arbitrary: T) (auto simp: bindE_assoc [symmetric] bindE_def split: sum.splits)

text \<open>The messages that store nothing leave the tables.\<close>

definition quiet :: "texture \<Rightarrow> cmd list \<Rightarrow> bool" where
  "quiet t ms \<longleftrightarrow> (\<forall>rt p T. T Resources (tx_id t) = Some p \<longrightarrow> serve_objects rt ms T = Inr T)"

lemma quiet_Nil: "quiet t []"
  by (simp add: quiet_def)

lemma quiet_desc:
  "quiet t (snd (snd (tx_GetLevelDesc ro l pp t)))" "quiet t (snd (snd (cube_GetLevelDesc ro l pp t)))"
  "quiet t (snd (snd (vol_GetLevelDesc ro l pp t)))"
  by (auto simp: quiet_def tx_GetLevelDesc_def cube_GetLevelDesc_def vol_GetLevelDesc_def level_desc_def tx_msg_def serve_defs)

lemma quiet_simple:
  "quiet t (snd (snd (tx_SetLOD l t)))" "quiet t (snd (snd (tx_SetPriority q t)))" "quiet t (tx_PreLoad t)"
  "quiet t (snd (snd (tx_SetAutoGenFilterType resp f t)))" "quiet t (tx_GenerateMipSubLevels t)"
  "quiet t (tx_AddDirtyRect r t)" "quiet t (cube_AddDirtyRect face r t)"
  by (auto simp: quiet_def tx_SetLOD_def tx_SetPriority_def tx_PreLoad_def tx_SetAutoGenFilterType_def tx_GenerateMipSubLevels_def
      tx_AddDirtyRect_def cube_AddDirtyRect_def tx_msg_def serve_defs)

text \<open>The slot of a level and face.\<close>

definition link_msg :: "tex_class \<Rightarrow> u32 \<Rightarrow> u32 \<Rightarrow> u32 \<Rightarrow> texture \<Rightarrow> cmd" where
  "link_msg k new_id face Level t = (case k of
     Texture2D \<Rightarrow> tx_msg t ''Texture9_GetSurfaceLevel'' [Word Level, Word new_id]
   | CubeTexture \<Rightarrow> tx_msg t ''CubeTexture9_GetCubeMapSurface'' [Word face, Word Level, Word new_id]
   | VolumeTexture \<Rightarrow> tx_msg t ''VolumeTexture9_GetVolumeLevel'' [Word Level, Word new_id])"

lemma cube_slot:
  assumes "unat (levels :: u32) * 6 < 2 ^ 32" and "Level < levels" and "face < 6"
  shows "unat (getCubeSurfaceIndex face Level) = unat face + unat Level * 6" and "unat face + unat Level * 6 < unat levels * 6"
proof -
  have f: "unat face < 6" and l: "unat Level < unat levels"
    using assms(2,3) by (simp_all add: word_less_nat_alt)
  show le: "unat face + unat Level * 6 < unat levels * 6" using f l by simp
  have m: "unat (Level * 6) = unat Level * 6" using le assms(1) by (simp add: unat_word_ariths)
  show "unat (getCubeSurfaceIndex face Level) = unat face + unat Level * 6"
    using le assms(1) m by (simp add: getCubeSurfaceIndex_def MaxCubeFaces_def unat_word_ariths)
qed

lemma slot_less:
  assumes "slots k t < 2 ^ 32" and "Level < GetLevelCount t" and "k = CubeTexture \<longrightarrow> face < 6"
  shows "slot k face Level < slots k t"
  using assms cube_slot [of "GetLevelCount t" Level face]
  by (cases "k = CubeTexture") (auto simp: slot_def slots_def word_less_nat_alt)

lemma get_level_result:
  assumes "length (m_children t) = slots k t" and "slots k t < 2 ^ 32" and "k = CubeTexture \<longrightarrow> face < 6"
  shows "if Level \<ge> GetLevelCount t then get_level k ro n face Level t = Inr (D3DERR_INVALIDCALL, None, t, [])
    else case m_children t ! slot k face Level of
        Some c \<Rightarrow> get_level k ro n face Level t = Inr (S_OK, Some c, t, [])
      | None \<Rightarrow> \<exists>ms. quiet t ms
          \<and> get_level k ro n face Level t = Inr (S_OK, Some n, setChild (slot k face Level) n t, ms @ [link_msg k n face Level t])"
proof (cases "Level \<ge> GetLevelCount t")
  case False
  then have lt: "slot k face Level < length (m_children t)" using slot_less [of k t Level face] assms by simp
  have face: "\<not> sint face > 5" if "k = CubeTexture"
  proof -
    have "unat face < 6" using assms(3) that by (simp add: word_less_nat_alt)
    then have "unat face \<in> {0, 1, 2, 3, 4, 5}" by auto
    then have "face \<in> {0, 1, 2, 3, 4, 5}" by (simp add: word_unat_eq_iff)
    then show ?thesis by auto
  qed
  show ?thesis
    using False lt face
    by (cases k; cases "m_children t ! slot k face Level")
      (auto simp: get_level_def slot_def tx_GetSurfaceLevel_def vol_GetVolumeLevel_def cube_GetCubeMapSurface_def getChild_def getE_def
        link_msg_def not_le Let_def split_beta quiet_desc)
qed (cases k; simp add: get_level_def tx_GetSurfaceLevel_def vol_GetVolumeLevel_def cube_GetCubeMapSurface_def)

lemma serve_link:
  assumes "T Resources (tx_id t) = Some p" and "slots k t < 2 ^ 32" and "Level < GetLevelCount t" and "k = CubeTexture \<longrightarrow> face < 6"
    and "runtime_child k rt p (slot k face Level) = Some c"
  shows "serve_objects rt [link_msg k n face Level t] T = Inr (T(child_table k := (T (child_table k))(n \<mapsto> c)))"
proof (cases "k = CubeTexture")
  case True
  then have "slot k face Level = unat face + unat Level * 6" and "unat face < 6"
    using cube_slot [of "GetLevelCount t" Level face] assms by (auto simp: slots_def slot_def word_less_nat_alt)
  then have "word_of_nat (slot k face Level mod 6) = face" "word_of_nat (slot k face Level div 6) = Level"
    by (simp_all add: div_mult_self3)
  then show ?thesis using assms True by (simp add: link_msg_def tx_msg_def serve_defs runtime_child_def child_table_def)
next
  case False
  then show ?thesis using assms
    by (cases k) (simp_all add: link_msg_def tx_msg_def serve_defs runtime_child_def child_table_def slot_def)
qed

lemma lock_level_eq:
  assumes "length (m_children t) = slots k t" and "slots k t < 2 ^ 32" and "td_Levels (tx_desc t) \<le> GetLevelCount t"
  shows "lock_level k ro n face Level t = (if Level \<ge> td_Levels (tx_desc t) \<or> k = CubeTexture \<and> face \<ge> 6
    then Inr (D3DERR_INVALIDCALL, None, t, []) else get_level k ro n face Level t)"
proof (cases "Level \<ge> td_Levels (tx_desc t) \<or> k = CubeTexture \<and> face \<ge> 6")
  case False
  then have "Level < GetLevelCount t" "k = CubeTexture \<longrightarrow> face < 6" using assms(3) by auto
  then have lt: "slot k face Level < length (m_children t)" using slot_less [of k t Level face] assms by simp
  have r: "if Level \<ge> GetLevelCount t then get_level k ro n face Level t = Inr (D3DERR_INVALIDCALL, None, t, [])
    else case m_children t ! slot k face Level of
        Some c \<Rightarrow> get_level k ro n face Level t = Inr (S_OK, Some c, t, [])
      | None \<Rightarrow> \<exists>ms. quiet t ms
          \<and> get_level k ro n face Level t = Inr (S_OK, Some n, setChild (slot k face Level) n t, ms @ [link_msg k n face Level t])"
    by (rule get_level_result [OF assms(1,2) \<open>k = CubeTexture \<longrightarrow> face < 6\<close>])
  have some: "get_level k ro n face Level t = Inr (S_OK, Some c, t, [])" if "m_children t ! slot k face Level = Some c" for c
    using r that \<open>Level < GetLevelCount t\<close> by (simp add: not_le [symmetric])
  show ?thesis
    using False lt some [unfolded get_level_def slot_def]
    by (cases k; cases "m_children t ! slot k face Level")
      (auto simp: lock_level_def slot_def tx_LockRect_def vol_LockBox_def cube_LockRect_def getChild_def getE_def MaxCubeFaces_def get_level_def)
qed (cases k; auto simp: lock_level_def tx_LockRect_def vol_LockBox_def cube_LockRect_def MaxCubeFaces_def)

text \<open>What a step keeps: \<open>grown\<close> relates tables and texture before and after.\<close>

definition grown :: "tex_class \<Rightarrow> u32 set \<Rightarrow> tables \<Rightarrow> texture \<Rightarrow> tables \<Rightarrow> texture \<Rightarrow> bool" where
  "grown k new T t T1 t1 \<longleftrightarrow> tx_id t1 = tx_id t \<and> slots k t1 = slots k t \<and> child_ids t \<subseteq> child_ids t1 \<and> child_ids t1 \<subseteq> child_ids t \<union> new
     \<and> (\<forall>tb h. T1 tb h \<noteq> T tb h \<longrightarrow> tb = child_table k \<and> h \<in> child_ids t1)"

lemma grown_refl: "grown k {} T t T t"
  by (simp add: grown_def)

lemma set_children_update: "i < length xs \<Longrightarrow> xs ! i = None \<Longrightarrow> {c. Some c \<in> set (xs[i := Some n])} = insert n {c. Some c \<in> set xs}"
  by (auto simp: set_conv_nth nth_list_update) (metis option.distinct(1))+

lemma linked_get_level:
  assumes "linked k p child T t" and "k = CubeTexture \<longrightarrow> face < 6" and "\<forall>i < slots k t. runtime_child k rt p i = Some (child i)"
    and "n \<notin> own_ids t"
  shows "\<exists>r c t1 ms T1. get_level k ro n face Level t = Inr (r, c, t1, ms) \<and> serve_objects rt ms T = Inr T1
    \<and> linked k p child T1 t1 \<and> grown k {n} T t T1 t1"
proof -
  have l: "T Resources (tx_id t) = Some p" "length (m_children t) = slots k t" "slots k t < 2 ^ 32"
    using assms(1) by (auto simp: linked_def)
  note r = get_level_result [OF l(2,3) assms(2), of Level ro n]
  have same: ?thesis if "get_level k ro n face Level t = Inr (r, c, t, [])" for r c
    using that assms(1) by (auto simp: grown_def)
  show ?thesis
  proof (cases "Level \<ge> GetLevelCount t \<or> m_children t ! slot k face Level \<noteq> None")
    case True
    then show ?thesis using r same by (auto split: if_splits)
  next
    case False
    then have lv: "Level < GetLevelCount t" and none: "m_children t ! slot k face Level = None" by auto
    then have "\<not> GetLevelCount t \<le> Level" by simp
    let ?s = "slot k face Level" and ?T = "T(child_table k := (T (child_table k))(n \<mapsto> child (slot k face Level)))"
    let ?t = "setChild ?s n t"
    obtain ms where ms: "quiet t ms" "get_level k ro n face Level t = Inr (S_OK, Some n, ?t, ms @ [link_msg k n face Level t])"
      using r \<open>\<not> GetLevelCount t \<le> Level\<close> none by auto
    have s: "?s < slots k t" using slot_less l(3) lv assms(2) by blast
    have link: "serve_objects rt [link_msg k n face Level t] T = Inr ?T"
      using l(1,3) lv assms(2,3) s by (intro serve_link) auto
    have "serve_objects rt (ms @ [link_msg k n face Level t]) T = Inr ?T"
      using ms(1) l link assms(3) s
      by (simp only: serve_objects_append quiet_def bindE_Inr)
    moreover have upd: "slots k ?t = slots k t" "tx_id ?t = tx_id t" "tx_desc ?t = tx_desc t" "GetLevelCount ?t = GetLevelCount t"
      by (simp_all add: setChild_def slots_def GetLevelCount_def)
    moreover have "linked k p child ?T ?t"
    proof -
      have "n \<noteq> tx_id t" "\<forall>i < slots k t. m_children t ! i \<noteq> Some n"
        using assms(4) l(2) by (auto simp: own_ids_def child_ids_def in_set_conv_nth)
      moreover have "m_children ?t ! i = (if i = ?s then Some n else m_children t ! i)" if "i < slots k t" for i
        using that l(2) by (simp add: setChild_def)
      moreover have "length (m_children ?t) = slots k t" using l(2) by (simp add: setChild_def)
      ultimately show ?thesis using assms(1) upd by (auto simp: linked_def split: if_splits)
    qed
    moreover have "child_ids ?t = insert n (child_ids t)"
      using set_children_update [of ?s "m_children t" n] s l(2) none by (simp add: child_ids_def setChild_def)
    ultimately show ?thesis using ms(2) by (auto simp: grown_def)
  qed
qed

lemma linked_step:
  assumes "linked k p child T t" and "op_ok k op" and "\<forall>i < slots k t. runtime_child k rt p i = Some (child i)"
    and "set (op_ids op) \<inter> own_ids t = {}"
  shows "\<exists>t1 ms T1. tex_step k ro op t = Inr (t1, ms) \<and> serve_objects rt ms T = Inr T1 \<and> linked k p child T1 t1
    \<and> grown k (set (op_ids op)) T t T1 t1"
proof -
  have quiet: "\<exists>t1 ms T1. Inr (t', ms') = Inr (t1, ms) \<and> serve_objects rt ms T = Inr T1 \<and> linked k p child T1 t1 \<and> grown k new T t T1 t1"
    if "quiet t ms'" and "tx_id t' = tx_id t" "tx_desc t' = tx_desc t" "m_children t' = m_children t" for t' ms' new
    using that assms(1) by (auto simp: quiet_def linked_def grown_def slots_def GetLevelCount_def child_ids_def)
  show ?thesis
  proof (cases op)
    case (GetLevel n face Level)
    then show ?thesis
      using linked_get_level [OF assms(1) _ assms(3), of face n ro Level] assms(2,4) by (auto simp: tex_step_def op_ok_def op_ids_def)
  next
    case (LockLevel n face Level)
    have q: ?thesis if "lock_level k ro n face Level t = Inr (r, c, t, [])" for r c
      using that LockLevel assms(1) by (auto simp: tex_step_def grown_def)
    have e: "lock_level k ro n face Level t = (if Level \<ge> td_Levels (tx_desc t) \<or> k = CubeTexture \<and> face \<ge> 6
      then Inr (D3DERR_INVALIDCALL, None, t, []) else get_level k ro n face Level t)"
      using assms(1) by (intro lock_level_eq) (auto simp: linked_def)
    show ?thesis
    proof (cases "Level \<ge> td_Levels (tx_desc t) \<or> k = CubeTexture \<and> face \<ge> 6")
      case True
      then show ?thesis using e q by simp
    next
      case False
      then have "k = CubeTexture \<longrightarrow> face < 6" by auto
      then show ?thesis
        using linked_get_level [OF assms(1) _ assms(3), of face n ro Level] assms(4) LockLevel e False by (auto simp: tex_step_def op_ids_def)
    qed
  next
    case (LevelDesc l)
    let ?ms = "snd (snd ((case k of Texture2D \<Rightarrow> tx_GetLevelDesc | CubeTexture \<Rightarrow> cube_GetLevelDesc
       | VolumeTexture \<Rightarrow> vol_GetLevelDesc) ro l True t))"
    have "quiet t ?ms" by (cases k) (simp_all add: quiet_desc)
    then show ?thesis using quiet [of ?ms t] LevelDesc by (simp add: tex_step_def)
  next
    case (AddDirty face r)
    then show ?thesis using assms(2) quiet quiet_simple unfolding tex_step_def op_ok_def by (cases k) auto
  next
    case (SetLOD l)
    then show ?thesis using quiet [OF quiet_simple(1) [of t l], of "fst (snd (tx_SetLOD l t))"]
      by (simp add: tex_step_def) (simp add: tx_SetLOD_def)
  next
    case (SetPriority q)
    then show ?thesis using quiet [OF quiet_simple(2) [of t q], of "fst (snd (tx_SetPriority q t))"]
      by (simp add: tex_step_def) (simp add: tx_SetPriority_def)
  next
    case (SetAutoGen resp f)
    then show ?thesis using quiet [OF quiet_simple(4) [of t resp f], of "fst (snd (tx_SetAutoGenFilterType resp f t))"]
      by (simp add: tex_step_def) (simp add: tx_SetAutoGenFilterType_def split: if_splits)
  qed (simp_all add: tex_step_def quiet [OF quiet_simple(3) [of t], of t] quiet [OF quiet_simple(5) [of t], of t, simplified]
      quiet [OF quiet_simple(3) [of t], of t, simplified])
qed

lemma grown_trans:
  assumes "grown k A T t T1 t1" and "grown k B T1 t1 T2 t2"
  shows "grown k (A \<union> B) T t T2 t2"
proof -
  have "tb = child_table k \<and> h \<in> child_ids t2" if "T2 tb h \<noteq> T tb h" for tb h
    using that assms by (cases "T2 tb h = T1 tb h") (auto simp: grown_def)
  then show ?thesis using assms unfolding grown_def by auto
qed

lemma linked_run:
  assumes "linked k p child T t" and "list_all (op_ok k) ops" and "\<forall>i < slots k t. runtime_child k rt p i = Some (child i)"
    and "distinct (concat (map op_ids ops))" and "set (concat (map op_ids ops)) \<inter> own_ids t = {}"
  shows "\<exists>t1 ms T1. tex_run k ro ops t = Inr (t1, ms) \<and> serve_objects rt ms T = Inr T1 \<and> linked k p child T1 t1
    \<and> grown k (set (concat (map op_ids ops))) T t T1 t1"
  using assms
proof (induction ops arbitrary: T t)
  case (Cons op ops)
  obtain t1 ms T1 where s: "tex_step k ro op t = Inr (t1, ms)" "serve_objects rt ms T = Inr T1" "linked k p child T1 t1"
    "grown k (set (op_ids op)) T t T1 t1"
    using linked_step [OF Cons.prems(1) _ Cons.prems(3), of op ro] Cons.prems(2,5) by auto
  have "own_ids t1 \<subseteq> own_ids t \<union> set (op_ids op)" using s(4) by (auto simp: grown_def own_ids_def)
  then have "set (concat (map op_ids ops)) \<inter> own_ids t1 = {}" using Cons.prems(4,5) by auto
  moreover have "slots k t1 = slots k t" using s(4) by (simp add: grown_def)
  ultimately obtain t2 ms2 T2 where r: "tex_run k ro ops t1 = Inr (t2, ms2)" "serve_objects rt ms2 T1 = Inr T2"
    "linked k p child T2 t2" "grown k (set (concat (map op_ids ops))) T1 t1 T2 t2"
    using Cons.IH [OF s(3)] Cons.prems(2-4) by auto
  show ?case using s(1-3) r(1-3) grown_trans [OF s(4) r(4)] by (simp add: serve_objects_append)
qed (simp add: grown_def)

lemma serve_unlink:
  assumes "\<And>i. f i = (i, if tb = Resources then ''UnlinkResource'' else ''UnlinkVolumeResource'', [])" and "tb = Resources \<or> tb = Volumes"
  shows "serve_objects rt (concat (map (\<lambda>c. case c of None \<Rightarrow> [] | Some i \<Rightarrow> [f i]) cs)) T
    = Inr (T(tb := (\<lambda>h. if Some h \<in> set cs then None else T tb h)))"
proof (induction cs arbitrary: T)
  case (Cons c cs)
  show ?case
  proof (cases c)
    case None
    then show ?thesis using Cons.IH by simp
  next
    case (Some i)
    have "serve_object rt (f i) T = Inr (T(tb := (T tb)(i := None)))"
      using assms by (auto simp: serve_defs)
    then show ?thesis using Some Cons.IH by (auto simp: fun_eq_iff)
  qed
qed simp

lemma serve_destroy:
  "serve_objects rt (tex_destroy k t) T = Inr ((T(Resources := (T Resources)(tx_id t := None)))
     (child_table k := (\<lambda>h. if h \<in> child_ids t then None else (T(Resources := (T Resources)(tx_id t := None))) (child_table k) h)))"
proof -
  let ?T = "T(Resources := (T Resources)(tx_id t := None))"
  have "\<exists>m f. tex_destroy k t = m # destroy_children f t \<and> serve_object rt m T = Inr ?T
    \<and> (\<forall>i. f i = (i, if child_table k = Resources then ''UnlinkResource'' else ''UnlinkVolumeResource'', []))"
    by (cases k) (auto simp: tex_destroy_def tx_destroy_def cube_destroy_def vol_destroy_def tx_msg_def serve_defs child_table_def onDestroy_child_def)
  then show ?thesis
    using serve_unlink [of _ "child_table k" rt "m_children t" ?T]
    by (auto simp: destroy_children_def child_ids_def child_table_def)
qed

lemma linked_new:
  assumes "T Resources i = Some p" and "unat (td_Levels d) * 6 < 2 ^ 32" and "td_Usage d AND D3DUSAGE_AUTOGENMIPMAP = 0 \<or> td_Levels d \<le> 1"
  shows "linked k p child T (new_tex k i d)" and "tx_id (new_tex k i d) = i \<and> child_ids (new_tex k i d) = {}" and "slots k (new_tex k i d) < 2 ^ 32"
proof -
  let ?n = "GetLevelCount (new_BaseTexture i d)"
  have lv: "td_Levels (tx_desc (new_BaseTexture i d)) \<le> ?n" using assms(3)
    by (auto simp: GetLevelCount_def new_BaseTexture_def max_def)
  have "?n \<le> max (td_Levels d) 1" by (auto simp: GetLevelCount_def new_BaseTexture_def)
  then have n: "unat ?n * 6 < 2 ^ 32" using assms(2) by (auto simp: word_le_nat_alt max_def split: if_splits)
  then have m: "unat (?n * MaxCubeFaces) = unat ?n * 6" by (simp add: MaxCubeFaces_def unat_word_ariths)
  have gl: "GetLevelCount (t\<lparr>m_children := cs\<rparr>) = GetLevelCount t" for t cs by (simp add: GetLevelCount_def)
  have sl: "slots k (new_tex k i d) = length (m_children (new_tex k i d))" "slots k (new_tex k i d) < 2 ^ 32"
    using n m by (cases k; simp add: new_tex_def new_Texture_def new_CubeTexture_def new_VolumeTexture_def slots_def gl Let_def)+
  show "slots k (new_tex k i d) < 2 ^ 32" by (rule sl(2))
  have un: "tx_id (new_tex k i d) = i" "tx_desc (new_tex k i d) = tx_desc (new_BaseTexture i d)" "GetLevelCount (new_tex k i d) = ?n"
    "set (m_children (new_tex k i d)) \<subseteq> {None}"
    by (cases k; auto simp: new_tex_def new_Texture_def new_CubeTexture_def new_VolumeTexture_def gl Let_def new_BaseTexture_def GetLevelCount_def)+
  then show "tx_id (new_tex k i d) = i \<and> child_ids (new_tex k i d) = {}" by (auto simp: child_ids_def)
  show "linked k p child T (new_tex k i d)"
    using assms(1) sl un lv unfolding linked_def by (auto dest!: nth_mem)
qed

section \<open>Properties\<close>


text \<open>A cube texture 7 of two levels, of which the application locks face 5 of level 1 and gets face 0 of level 0.\<close>

definition cube_runtime :: runtime where
  "cube_runtime p m xs = (case xs of [W f, W l, _] \<Rightarrow> Some (100 + unat f + 6 * unat l) | _ \<Rightarrow> None)"

definition cube_tables :: tables where
  "cube_tables tb h = (if tb = Resources \<and> h = 7 then Some 1 else None)"

definition cube_desc :: TEXTURE_DESC where
  "cube_desc = \<lparr>td_Width = 8, td_Height = 8, td_Depth = 1, td_Levels = 2, td_Usage = 0, td_Format = 21, td_Pool = 1\<rparr>"

lemma cube_run: "\<exists>t ms. tex_run CubeTexture False [LockLevel 8 5 1, GetLevel 9 0 0] (new_tex CubeTexture 7 cube_desc) = Inr (t, ms)
    \<and> slots CubeTexture t = 12 \<and> m_children t ! 11 = Some 8"
  by (simp add: tex_step_def lock_level_def cube_LockRect_def get_level_def cube_GetCubeMapSurface_def new_tex_def new_CubeTexture_def new_BaseTexture_def
      cube_desc_def GetLevelCount_def D3DUSAGE_AUTOGENMIPMAP_def MaxCubeFaces_def getCubeSurfaceIndex_def getChild_def getE_def setChild_def
      cube_GetLevelDesc_def level_desc_def Let_def slots_def max_def word_le_nat_alt word_less_nat_alt)


text \<open>\<open>AddDirtyBox\<close> breaks the channel.  The client sends the box, the server first pulls a level: whatever the texture and the box, the data of
  the two processes are no longer aligned.\<close>

theorem add_dirty_box_desync: "serve_objects rt (vol_AddDirtyBox pDirtyBox t) T = Inl Desync"
  by (simp add: vol_AddDirtyBox_def tx_msg_def serve_defs on_VolumeTexture9_AddDirtyBox_def)

text \<open>A lock of a level that is not there.  For a texture with automatic mip maps the vector of children has one entry, but the level is compared with
  the levels of the description, which \<open>CreateTexture\<close> computes from the size when it is called with none: any further level passes the check
  and indexes beyond the vector.\<close>

theorem autogen_level_out_of_range:
  assumes "td_Usage d AND D3DUSAGE_AUTOGENMIPMAP \<noteq> 0" and "1 \<le> Level" and "Level < td_Levels d"
  shows "tx_LockRect ro n Level (new_Texture i d) = Inl OutOfBounds \<and> tx_UnlockRect Level (new_Texture i d) = Inl OutOfBounds"
proof -
  have "m_children (new_Texture i d) = [None]" "\<not> td_Levels (tx_desc (new_Texture i d)) \<le> Level"
    using assms by (auto simp: new_Texture_def new_BaseTexture_def GetLevelCount_def Let_def max_def)
  moreover have "\<not> unat Level < 1" using assms(2) by (simp add: word_le_nat_alt)
  ultimately show ?thesis by (simp add: tx_LockRect_def tx_UnlockRect_def getChild_def getE_def)
qed

text \<open>An 8 by 8 texture that is created with \<open>D3DUSAGE_AUTOGENMIPMAP\<close> and four levels.\<close>

theorem autogen_level_out_of_range_witness:
  "tx_LockRect False 8 2 (new_Texture 7 (cube_desc\<lparr>td_Usage := 0x400, td_Levels := 4\<rparr>)) = Inl OutOfBounds
    \<and> tx_UnlockRect 2 (new_Texture 7 (cube_desc\<lparr>td_Usage := 0x400, td_Levels := 4\<rparr>)) = Inl OutOfBounds"
  by (rule autogen_level_out_of_range) (simp_all add: D3DUSAGE_AUTOGENMIPMAP_def)

end
