(* ===== verification/Surface_Data.thy ===== *)
theory Surface_Data
  imports Lockable_Buffer
begin

text \<open>
  The contents of surfaces: sizes and pitches (\<open>util_texture_and_volume.h\<close>), lock and unlock of \<open>Direct3DSurface9_LSS\<close>
  (\<open>d3d9_surface.cpp\<close>), the server's case \<open>IDirect3DSurface9_UnlockRect\<close>, and the way back of a surface's contents
  (\<open>ReturnSurfaceDataToClient\<close> of \<open>server/main.cpp\<close>, \<open>copyServerSurfaceRawData\<close> of \<open>d3d9_surfacebuffer_helper.h\<close>).
  The numbers of the formats are those of \<open>d3d9types.h\<close>.  \<open>sizeof(size_t)\<close> is 4 in the client and 8 in the server.
\<close>

section \<open>Formats\<close>

definition MAKEFOURCC :: "string \<Rightarrow> u32" where
  "MAKEFOURCC cs = u32_of_bytes (map of_char cs)"

definition sdk_formats :: "(string \<times> u32) list" where
  "sdk_formats = [(''R8G8B8'', 20), (''A8R8G8B8'', 21), (''X8R8G8B8'', 22), (''R5G6B5'', 23), (''X1R5G5B5'', 24), (''A1R5G5B5'', 25),
     (''A4R4G4B4'', 26), (''R3G3B2'', 27), (''A8'', 28), (''A8R3G3B2'', 29), (''X4R4G4B4'', 30), (''A2B10G10R10'', 31), (''A8B8G8R8'', 32),
     (''X8B8G8R8'', 33), (''G16R16'', 34), (''A2R10G10B10'', 35), (''A16B16G16R16'', 36), (''A8P8'', 40), (''P8'', 41), (''L8'', 50),
     (''A8L8'', 51), (''A4L4'', 52), (''V8U8'', 60), (''L6V5U5'', 61), (''X8L8V8U8'', 62), (''Q8W8V8U8'', 63), (''V16U16'', 64),
     (''A2W10V10U10'', 67), (''D16_LOCKABLE'', 70), (''D32'', 71), (''D15S1'', 73), (''D24S8'', 75), (''D24X8'', 77), (''D24X4S4'', 79),
     (''D16'', 80), (''L16'', 81), (''D32F_LOCKABLE'', 82), (''D24FS8'', 83), (''D32_LOCKABLE'', 84), (''S8_LOCKABLE'', 85),
     (''Q16W16V16U16'', 110), (''R16F'', 111), (''G16R16F'', 112), (''A16B16G16R16F'', 113), (''R32F'', 114), (''G32R32F'', 115),
     (''A32B32G32R32F'', 116), (''CxV8U8'', 117), (''A1'', 118)]"

text \<open>The other formats are four-character codes, some under another name.\<close>

definition fourcc_names :: "(string \<times> string) list" where
  "fourcc_names = [(''NULL_FORMAT'', ''NULL''), (''OPAQUE_420'', ''420O''), (''R16'', '' R16''), (''MULTI2_ARGB8'', ''MET1''), (''R8G8_B8G8'', ''RGBG''),
     (''G8R8_G8B8'', ''GRGB'')]"

definition D3DFMT :: "string \<Rightarrow> u32" where
  "D3DFMT n = (case map_of sdk_formats n of Some v \<Rightarrow> v
     | None \<Rightarrow> MAKEFOURCC (case map_of fourcc_names n of Some c \<Rightarrow> c | None \<Rightarrow> n))"

definition is_format :: "string list \<Rightarrow> u32 \<Rightarrow> bool" where
  "is_format ns format \<longleftrightarrow> format \<in> set (map D3DFMT ns)"

definition getBlockSize :: "u32 \<Rightarrow> u32" where
  "getBlockSize format = (if is_format [''DXT1'', ''DXT2'', ''DXT3'', ''DXT4'', ''DXT5''] format then 4 else 1)"

text \<open>An unknown format is thrown with nothing to rethrow, which ends the process.\<close>

definition getBytesFromFormat :: "u32 \<Rightarrow> u32 or_error" where
  "getBytesFromFormat format =
     (if is_format [''DXT1''] format then Inr 8
      else if is_format [''DXT2'', ''DXT3'', ''DXT4'', ''DXT5''] format then Inr 16
      else if is_format [''ATI1'', ''ATI2''] format then Inr 1
      else if is_format [''RESZ'', ''INST'', ''NVDB'', ''GET4'', ''GET1'', ''NULL_FORMAT'', ''A2M1'', ''A2M0'', ''ATOC'', ''RAWZ'', ''NV11'', ''P010'',
        ''Y210'', ''Y216'', ''Y410'', ''AYUV'', ''OPAQUE_420'', ''AI44'', ''IA44'', ''R2VB'', ''COPM'', ''SSAA'', ''AL16'', ''R16'', ''EXT1'', ''FXT1'',
        ''GXT1'', ''HXT1''] format then Inr 0
      else if is_format [''A32B32G32R32F''] format then Inr 16
      else if is_format [''A16B16G16R16'', ''Q16W16V16U16'', ''A16B16G16R16F'', ''G32R32F'', ''MULTI2_ARGB8''] format then Inr 8
      else if is_format [''A8R8G8B8'', ''X8R8G8B8'', ''D32'', ''D24S8'', ''X8L8V8U8'', ''D24X4S4'', ''Q8W8V8U8'', ''V16U16'', ''A2W10V10U10'',
        ''A2B10G10R10'', ''A8B8G8R8'', ''X8B8G8R8'', ''G16R16'', ''D24X8'', ''A2R10G10B10'', ''G16R16F'', ''R32F'', ''D32F_LOCKABLE'', ''D24FS8'',
        ''D32_LOCKABLE'', ''DF24'', ''INTZ''] format then Inr 4
      else if is_format [''R8G8B8'', ''YV12''] format then Inr 3
      else if is_format [''R5G6B5'', ''X1R5G5B5'', ''A1R5G5B5'', ''A4R4G4B4'', ''A8L8'', ''V8U8'', ''L6V5U5'', ''D16'', ''D16_LOCKABLE'', ''D15S1'', ''A8P8'',
        ''A8R3G3B2'', ''UYVY'', ''YUY2'', ''X4R4G4B4'', ''CxV8U8'', ''L16'', ''R16F'', ''R8G8_B8G8'', ''G8R8_G8B8'', ''DF16'', ''P016''] format then Inr 2
      else if is_format [''P8'', ''L8'', ''R3G3B2'', ''A4L4'', ''A8'', ''A1'', ''S8_LOCKABLE'', ''NV12''] format then Inr 1
      else Inl ProcessExit)"

section \<open>Sizes\<close>

datatype arch = X86 | X64

definition MinSurfacePitch :: "arch \<Rightarrow> u32" where
  "MinSurfacePitch a = (case a of X86 \<Rightarrow> 4 | X64 \<Rightarrow> 8)"

record RECT =
  rc_left :: u32
  rc_top :: u32
  rc_right :: u32
  rc_bottom :: u32

definition calcStride :: "u32 \<Rightarrow> u32 \<Rightarrow> u32" where
  "calcStride numPixels format = (numPixels + getBlockSize format - 1) div getBlockSize format"

definition calcRowSize :: "arch \<Rightarrow> u32 \<Rightarrow> u32 \<Rightarrow> u32 or_error" where
  "calcRowSize a width format = bindE (getBytesFromFormat format) (\<lambda>bytesPerPixel.
     Inr (max (MinSurfacePitch a) (calcStride width format * bytesPerPixel)))"

definition calcTotalSizeOfRect :: "arch \<Rightarrow> u32 \<Rightarrow> u32 \<Rightarrow> u32 \<Rightarrow> u32 or_error" where
  "calcTotalSizeOfRect a width height format = bindE (calcRowSize a width format) (\<lambda>rowSize. Inr (calcStride height format * rowSize))"

definition calcImageByteOffset :: "u32 \<Rightarrow> RECT \<Rightarrow> u32 \<Rightarrow> u32 or_error" where
  "calcImageByteOffset pitch rect format = bindE (getBytesFromFormat format) (\<lambda>bytesPerPixel.
     Inr (calcStride (rc_top rect) format * pitch + bytesPerPixel * calcStride (rc_left rect) format))"

text \<open>\<open>getRectDimensions\<close>: the differences as \<open>size_t\<close> of the client; the server subtracts the same way.\<close>

definition getRectDimensions :: "RECT \<Rightarrow> u32 \<times> u32" where
  "getRectDimensions rect = (rc_right rect - rc_left rect, rc_bottom rect - rc_top rect)"

section \<open>Rows\<close>

text \<open>
  \<open>FOR_EACH_RECT_ROW\<close> with a copy of \<open>n\<close> bytes per row: from a memory into one piece, and between two memories with pitches.  Rows
  that leave a memory are undefined.
\<close>

fun gather_rows :: "nat \<Rightarrow> nat \<Rightarrow> nat \<Rightarrow> nat \<Rightarrow> memory \<Rightarrow> memory or_error" where
  "gather_rows n pitch 0 ptr m = Inr []"
| "gather_rows n pitch (Suc k) ptr m = (if ptr + n \<le> length m
     then bindE (gather_rows n pitch k (ptr + pitch) m) (\<lambda>rest. Inr (mem_read ptr n m @ rest)) else Inl OutOfBounds)"

fun copy_rows :: "nat \<Rightarrow> nat \<Rightarrow> nat \<Rightarrow> nat \<Rightarrow> nat \<Rightarrow> nat \<Rightarrow> memory \<Rightarrow> memory \<Rightarrow> memory or_error" where
  "copy_rows n dpitch spitch 0 d s src dst = Inr dst"
| "copy_rows n dpitch spitch (Suc k) d s src dst = (if s + n \<le> length src \<and> d + n \<le> length dst
     then copy_rows n dpitch spitch k (d + dpitch) (s + spitch) src (mem_write d (mem_read s n src) dst) else Inl OutOfBounds)"

section \<open>The client\<close>

text \<open>A lock: the locked rectangle's pitch and pointer as a position in the shadow or the allocation.\<close>

record surface_lock =
  sl_rect :: RECT
  sl_pitch :: u32
  sl_ptr :: nat
  sl_flags :: u32
  sl_bufId :: nat
  sl_discardBufId :: nat

record surface =
  sf_Width :: u32
  sf_Height :: u32
  sf_Format :: u32
  sf_bUseSharedHeap :: bool
  sf_shadow :: "memory option"
  sf_bufferId :: nat
  sf_locks :: "surface_lock list"

definition new_Surface :: "bool \<Rightarrow> u32 \<Rightarrow> u32 \<Rightarrow> u32 \<Rightarrow> surface" where
  "new_Surface shared w h format = \<lparr>sf_Width = w, sf_Height = h, sf_Format = format, sf_bUseSharedHeap = shared, sf_shadow = None,
     sf_bufferId = kInvalidId, sf_locks = []\<rparr>"

definition resolveLockInfoRect :: "RECT option \<Rightarrow> surface \<Rightarrow> RECT" where
  "resolveLockInfoRect pRect s = (case pRect of Some r \<Rightarrow> r
     | None \<Rightarrow> \<lparr>rc_left = 0, rc_top = 0, rc_right = sf_Width s, rc_bottom = sf_Height s\<rparr>)"

text \<open>\<open>lock\<close>: \<open>alloc\<close> is what \<open>SharedHeap::allocate\<close> returns, \<open>uninit\<close> the contents of new memory of a size.  The result is the answer and the new
  surface.\<close>

definition sf_lock :: "nat \<Rightarrow> (nat \<Rightarrow> memory) \<Rightarrow> RECT option \<Rightarrow> u32 \<Rightarrow> surface \<Rightarrow> (bool \<times> surface) or_error" where
  "sf_lock alloc uninit pRect flags s =
     (let rect = resolveLockInfoRect pRect s in
      bindE (calcRowSize X86 (sf_Width s) (sf_Format s)) (\<lambda>pitch.
      bindE (calcTotalSizeOfRect X86 (sf_Width s) (sf_Height s) (sf_Format s)) (\<lambda>surfaceSize.
      if sf_bUseSharedHeap s then
        let bDiscard = (flags AND D3DLOCK_DISCARD \<noteq> 0); renew = (bDiscard \<or> sf_bufferId s = kInvalidId);
            discardBufId = (if renew then sf_bufferId s else kInvalidId);
            s1 = (if renew then s\<lparr>sf_bufferId := alloc\<rparr> else s)
        in if sf_bufferId s1 = kInvalidId then Inr (False, s1)
           else bindE (calcImageByteOffset pitch rect (sf_Format s)) (\<lambda>byteOffset.
             Inr (True, s1\<lparr>sf_locks := sf_locks s1 @ [\<lparr>sl_rect = rect, sl_pitch = pitch, sl_ptr = unat byteOffset, sl_flags = flags,
               sl_bufId = sf_bufferId s1, sl_discardBufId = discardBufId\<rparr>]\<rparr>))
      else
        let s1 = (if sf_shadow s = None then s\<lparr>sf_shadow := Some (uninit (unat surfaceSize))\<rparr> else s)
        in bindE (calcImageByteOffset pitch rect (sf_Format s)) (\<lambda>byteOffset.
             Inr (True, s1\<lparr>sf_locks := sf_locks s1 @ [\<lparr>sl_rect = rect, sl_pitch = pitch, sl_ptr = unat byteOffset, sl_flags = flags,
               sl_bufId = kInvalidId, sl_discardBufId = kInvalidId\<rparr>]\<rparr>)))))"

datatype surface_data = SharedAt nat | Blob memory

record surface_msg =
  sm_rect :: RECT
  sm_flags :: u32
  sm_format :: u32
  sm_pitch :: u32
  sm_data :: surface_data

definition sf_sendDataToServer :: "surface_lock \<Rightarrow> surface \<Rightarrow> (surface_msg \<times> nat option) or_error" where
  "sf_sendDataToServer li s =
     (if sf_bUseSharedHeap s
      then Inr (\<lparr>sm_rect = sl_rect li, sm_flags = sl_flags li, sm_format = sf_Format s, sm_pitch = sl_pitch li, sm_data = SharedAt (sl_bufId li)\<rparr>,
        if sl_discardBufId li \<noteq> kInvalidId then Some (sl_discardBufId li) else None)
      else case getRectDimensions (sl_rect li) of (width, height) \<Rightarrow>
        bindE (calcRowSize X86 width (sf_Format s)) (\<lambda>rowSize.
        bindE (case sf_shadow s of None \<Rightarrow> Inl NullDereference
          | Some m \<Rightarrow> gather_rows (unat rowSize) (unat (sl_pitch li)) (unat (calcStride height (sf_Format s))) (sl_ptr li) m) (\<lambda>blob.
        Inr (\<lparr>sm_rect = sl_rect li, sm_flags = sl_flags li, sm_format = sf_Format s, sm_pitch = rowSize, sm_data = Blob blob\<rparr>, None))))"

text \<open>\<open>unlock\<close>: the new surface, the message and the allocation that is released.\<close>

definition sf_unlock :: "surface \<Rightarrow> (surface \<times> surface_msg option \<times> nat option) or_error" where
  "sf_unlock s = (case sf_locks s of [] \<Rightarrow> Inr (s, None, None)
     | li # rest \<Rightarrow> (let s1 = s\<lparr>sf_locks := rest\<rparr> in
         if sl_flags li AND D3DLOCK_READONLY = 0
         then bindE (sf_sendDataToServer li s1) (\<lambda>(m, freed). Inr (s1, Some m, freed))
         else Inr (s1, None, None)))"

section \<open>The server\<close>

text \<open>
  The runtime's surface is a memory with a pitch; \<open>LockRect\<close> yields the position of the rectangle in it, as it is documented.  \<open>after\<close> are the bytes of
  the ring that follow the object, \<open>shared\<close> the contents of the shared allocations.
\<close>

record rt_surface =
  rt_pitch :: nat
  rt_mem :: memory

definition rt_position :: "rt_surface \<Rightarrow> RECT \<Rightarrow> u32 \<Rightarrow> u32 \<Rightarrow> nat" where
  "rt_position r rect format bytesPerPixel = unat (calcStride (rc_top rect) format) * rt_pitch r
     + unat bytesPerPixel * unat (calcStride (rc_left rect) format)"

definition on_Surface9_UnlockRect :: "(nat \<Rightarrow> memory) \<Rightarrow> memory \<Rightarrow> surface_msg \<Rightarrow> rt_surface \<Rightarrow> rt_surface or_error" where
  "on_Surface9_UnlockRect shared after m r =
     (let rect = sm_rect m; format = sm_format m; width = rc_right rect - rc_left rect; height = rc_bottom rect - rc_top rect in
      bindE (getBytesFromFormat format) (\<lambda>b.
      bindE (calcRowSize X64 width format) (\<lambda>rowSize.
      bindE (case sm_data m of
          SharedAt allocId \<Rightarrow> bindE (calcImageByteOffset (sm_pitch m) rect format) (\<lambda>byteOffset. Inr (shared allocId, unat byteOffset))
        | Blob bs \<Rightarrow> Inr (bs @ after, 0)) (\<lambda>(src, s).
      bindE (copy_rows (unat rowSize) (rt_pitch r) (unat (sm_pitch m)) (unat (calcStride height format)) (rt_position r rect format b) s src (rt_mem r))
        (\<lambda>mem1. Inr (r\<lparr>rt_mem := mem1\<rparr>))))))"

text \<open>\<open>ReturnSurfaceDataToClient\<close> of a surface that the runtime locks as a whole, and the client's side, which locks its own surface with
  \<open>D3DLOCK_DISCARD\<close>, copies the rows and unlocks it.\<close>

definition ReturnSurfaceDataToClient :: "u32 \<Rightarrow> u32 \<Rightarrow> u32 \<Rightarrow> rt_surface \<Rightarrow> (u32 \<times> u32 \<times> u32 \<times> memory) or_error" where
  "ReturnSurfaceDataToClient width height format r = bindE (calcRowSize X64 width format) (\<lambda>rowSize.
     bindE (gather_rows (unat rowSize) (rt_pitch r) (unat (calcStride height format)) 0 (rt_mem r)) (\<lambda>blob. Inr (width, height, format, blob)))"

definition copyServerSurfaceRawData :: "(nat \<Rightarrow> memory) \<Rightarrow> memory \<Rightarrow> u32 \<times> u32 \<times> u32 \<times> memory \<Rightarrow> surface \<Rightarrow> (surface \<times> surface_msg option) or_error" where
  "copyServerSurfaceRawData uninit after answer s = (case answer of (width, height, format, pData) \<Rightarrow>
     bindE (calcRowSize X86 width format) (\<lambda>rowSize.
     bindE (sf_lock kInvalidId uninit None D3DLOCK_DISCARD s) (\<lambda>(ok, s1).
     if \<not> ok then Inr (s1, None)
     else (case sf_shadow s1 of None \<Rightarrow> Inl NullDereference | Some m \<Rightarrow>
       let li = last (sf_locks s1) in
       bindE (copy_rows (unat rowSize) (unat (sl_pitch li)) (unat rowSize) (unat (calcStride height format)) (sl_ptr li) 0 (pData @ after) m) (\<lambda>m1.
       bindE (sf_unlock (s1\<lparr>sf_shadow := Some m1\<rparr>)) (\<lambda>(s2, msg, _). Inr (s2, msg)))))))"

section \<open>Lemmas\<close>

lemma getBlockSize_cases: "getBlockSize format = 1 \<or> getBlockSize format = 4"
  by (simp add: getBlockSize_def)

lemma unat_calcStride:
  assumes "unat n + 3 < 2 ^ 32"
  shows "unat (calcStride n format) = (unat n + unat (getBlockSize format) - 1) div unat (getBlockSize format)"
proof -
  have "unat (n + 3) = unat n + 3" using assms by (simp add: unat_word_ariths)
  show ?thesis
  proof (cases "getBlockSize format = 4")
    case True
    moreover have "unat (4 :: u32) = 4" "n + 4 - 1 = n + 3" by simp_all
    ultimately show ?thesis using \<open>unat (n + 3) = unat n + 3\<close> by (simp only: calcStride_def unat_div)
  next
    case False
    then show ?thesis using getBlockSize_cases [of format] by (simp add: calcStride_def unat_div)
  qed
qed

text \<open>The bytes of the copied rows.\<close>

lemma gather_rows_result:
  assumes "k = 0 \<or> ptr + (k - 1) * pitch + n \<le> length m"
  shows "\<exists>bs. gather_rows n pitch k ptr m = Inr bs \<and> length bs = k * n \<and> (\<forall>j < k. \<forall>c < n. bs ! (j * n + c) = m ! (ptr + j * pitch + c))"
  using assms
proof (induction k arbitrary: ptr)
  case (Suc k)
  have "k = 0 \<or> (ptr + pitch) + (k - 1) * pitch + n \<le> length m" using Suc.prems by (cases k) auto
  then obtain bs where bs: "gather_rows n pitch k (ptr + pitch) m = Inr bs" "length bs = k * n"
    "\<forall>j < k. \<forall>c < n. bs ! (j * n + c) = m ! (ptr + pitch + j * pitch + c)" using Suc.IH by blast
  have le: "ptr + n \<le> length m" using Suc.prems by auto
  then have l: "length (mem_read ptr n m) = n" by (simp add: mem_read_def)
  have "(mem_read ptr n m @ bs) ! (j * n + c) = m ! (ptr + j * pitch + c)" if "j < Suc k" "c < n" for j c
  proof (cases j)
    case 0
    then show ?thesis using that le l by (simp add: nth_append) (simp add: mem_read_def)
  next
    case (Suc i)
    then show ?thesis using that l bs(3) by (simp add: nth_append algebra_simps)
  qed
  then show ?case using bs(1,2) le l by (intro exI [of _ "mem_read ptr n m @ bs"]) simp
qed simp

lemma copy_rows_result:
  assumes "k = 0 \<or> s + (k - 1) * spitch + n \<le> length src \<and> d + (k - 1) * dpitch + n \<le> length dst" and "n \<le> dpitch"
  shows "\<exists>res. copy_rows n dpitch spitch k d s src dst = Inr res \<and> length res = length dst
    \<and> (\<forall>j < k. \<forall>c < n. res ! (d + j * dpitch + c) = src ! (s + j * spitch + c))
    \<and> (\<forall>q < length dst. (\<forall>j < k. q < d + j * dpitch \<or> d + j * dpitch + n \<le> q) \<longrightarrow> res ! q = dst ! q)"
  using assms(1)
proof (induction k arbitrary: d s dst)
  case (Suc k)
  let ?dst = "mem_write d (mem_read s n src) dst"
  have le: "s + n \<le> length src" "d + n \<le> length dst" using Suc.prems by auto
  then have l: "length (mem_read s n src) = n" "length ?dst = length dst" by (simp_all add: mem_read_def)
  have "k = 0 \<or> (s + spitch) + (k - 1) * spitch + n \<le> length src \<and> (d + dpitch) + (k - 1) * dpitch + n \<le> length ?dst"
    using Suc.prems l by (cases k) auto
  then obtain res where r: "copy_rows n dpitch spitch k (d + dpitch) (s + spitch) src ?dst = Inr res" "length res = length ?dst"
    "\<forall>j < k. \<forall>c < n. res ! (d + dpitch + j * dpitch + c) = src ! (s + spitch + j * spitch + c)"
    "\<forall>q < length ?dst. (\<forall>j < k. q < d + dpitch + j * dpitch \<or> d + dpitch + j * dpitch + n \<le> q) \<longrightarrow> res ! q = ?dst ! q"
    using Suc.IH by blast
  have w: "?dst ! q = (if d \<le> q \<and> q < d + n then src ! (s + (q - d)) else dst ! q)" if "q < length dst" for q
    using that le l by (auto simp: mem_write_nth mem_read_nth)
  have "res ! (d + j * dpitch + c) = src ! (s + j * spitch + c)" if "j < Suc k" "c < n" for j c
  proof (cases j)
    case 0
    have "res ! (d + c) = ?dst ! (d + c)" using r(4) that le assms(2) l(2) by auto
    then show ?thesis using 0 w [of "d + c"] that le by simp
  next
    case (Suc i)
    then show ?thesis using r(3) [rule_format, of i c] that by (simp add: algebra_simps)
  qed
  moreover have "res ! q = dst ! q" if "q < length dst" "\<forall>j < Suc k. q < d + j * dpitch \<or> d + j * dpitch + n \<le> q" for q
  proof -
    have "q < d \<or> d + n \<le> q" using that(2) by force
    moreover have "\<forall>j < k. q < d + dpitch + j * dpitch \<or> d + dpitch + j * dpitch + n \<le> q"
    proof (intro allI impI)
      fix j assume "j < k"
      then show "q < d + dpitch + j * dpitch \<or> d + dpitch + j * dpitch + n \<le> q"
        using that(2) [rule_format, of "Suc j"] by (simp add: algebra_simps)
    qed
    ultimately show ?thesis using r(4) w that(1) l(2) by auto
  qed
  ultimately show ?case using r(1,2) le l by (intro exI [of _ res]) auto
qed simp

text \<open>A rectangle in a surface, in rows and columns of blocks.\<close>

definition blocks :: "u32 \<Rightarrow> u32 \<Rightarrow> nat" where
  "blocks n format = (unat n + unat (getBlockSize format) - 1) div unat (getBlockSize format)"

definition rect_in :: "RECT \<Rightarrow> surface \<Rightarrow> bool" where
  "rect_in rect s \<longleftrightarrow> rc_left rect < rc_right rect \<and> rc_right rect \<le> sf_Width s \<and> rc_top rect < rc_bottom rect \<and> rc_bottom rect \<le> sf_Height s
     \<and> unat (getBlockSize (sf_Format s)) dvd unat (rc_left rect) \<and> unat (getBlockSize (sf_Format s)) dvd unat (rc_top rect)"

text \<open>The sizes are in the range of their 32 bits.\<close>

definition surface_ok :: "u32 \<Rightarrow> surface \<Rightarrow> bool" where
  "surface_ok b s \<longleftrightarrow> getBytesFromFormat (sf_Format s) = Inr b \<and> \<not> sf_bUseSharedHeap s \<and> unat (sf_Width s) + 3 < 2 ^ 32 \<and> unat (sf_Height s) + 3 < 2 ^ 32
     \<and> blocks (sf_Height s) (sf_Format s) * max 4 (blocks (sf_Width s) (sf_Format s) * unat b) < 2 ^ 32"

definition client_pitch :: "u32 \<Rightarrow> surface \<Rightarrow> nat" where
  "client_pitch b s = max 4 (blocks (sf_Width s) (sf_Format s) * unat b)"

lemma blocks_split:
  assumes "l < r" and "k dvd unat l" and "0 < k"
  shows "unat l div k + (unat (r - l) + k - 1) div k = (unat r + k - 1) div k" and "0 < (unat (r - l) + k - 1) div k"
proof -
  obtain q where q: "unat l = k * q" using assms(2) by blast
  have d: "unat (r - l) = unat r - unat l" "unat l < unat r" using assms(1) by (simp_all add: unat_sub order_less_imp_le word_less_nat_alt [symmetric])
  have "unat r + k - 1 = (unat (r - l) + k - 1) + k * q" using d q assms(3) by simp
  then show "unat l div k + (unat (r - l) + k - 1) div k = (unat r + k - 1) div k"
    using assms(3) q div_mult_self2 [of k "unat (r - l) + k - 1" q] by simp
  have "k \<le> unat (r - l) + k - 1" using d by simp
  then show "0 < (unat (r - l) + k - 1) div k" using assms(3) by (simp add: div_greater_zero_iff)
qed

lemma unat_mult_small: "unat x * unat y < 2 ^ 32 \<Longrightarrow> unat (x * y :: u32) = unat x * unat y"
  by (simp add: unat_word_ariths)

lemma row_size:
  assumes "getBytesFromFormat f = Inr b" and "unat w + 3 < 2 ^ 32" and "blocks w f * unat b < 2 ^ 32"
  shows "\<exists>r. calcRowSize a w f = Inr r \<and> unat r = max (unat (MinSurfacePitch a)) (blocks w f * unat b)"
proof -
  have "unat (calcStride w f * b) = blocks w f * unat b"
    using unat_calcStride [OF assms(2), of f] assms(3) by (simp only: unat_mult_small blocks_def)
  then show ?thesis
    using assms(1) by (simp add: calcRowSize_def) (simp add: max_def word_le_nat_alt)
qed

text \<open>The numbers of a rectangle: first row and column, rows and columns.\<close>

definition rect_nums :: "u32 \<Rightarrow> surface \<Rightarrow> RECT \<Rightarrow> nat \<times> nat \<times> nat \<times> nat" where
  "rect_nums b s rect = (let f = sf_Format s; k = unat (getBlockSize f) in
     (unat (rc_top rect) div k, unat (rc_left rect) div k, blocks (rc_bottom rect - rc_top rect) f, blocks (rc_right rect - rc_left rect) f))"

lemma rect_sizes:
  assumes "surface_ok b s" and "rect_in rect s" and "rect_nums b s rect = (t, l, h, w)"
  shows "unat (calcStride (rc_bottom rect - rc_top rect) (sf_Format s)) = h" and "unat (calcStride (rc_top rect) (sf_Format s)) = t"
    and "unat (calcStride (rc_left rect) (sf_Format s)) = l" and "0 < h" and "0 < w"
    and "t + h \<le> blocks (sf_Height s) (sf_Format s)" and "l + w \<le> blocks (sf_Width s) (sf_Format s)"
    and "\<exists>r. calcRowSize a (rc_right rect - rc_left rect) (sf_Format s) = Inr r \<and> unat r = max (unat (MinSurfacePitch a)) (w * unat b)"
    and "\<exists>p n. calcRowSize X86 (sf_Width s) (sf_Format s) = Inr p \<and> unat p = client_pitch b s
      \<and> calcTotalSizeOfRect X86 (sf_Width s) (sf_Height s) (sf_Format s) = Inr n \<and> unat n = blocks (sf_Height s) (sf_Format s) * client_pitch b s
      \<and> (\<exists>off. calcImageByteOffset p rect (sf_Format s) = Inr off \<and> unat off = t * client_pitch b s + unat b * l)"
proof -
  let ?f = "sf_Format s" and ?k = "unat (getBlockSize (sf_Format s))"
  let ?W = "blocks (sf_Width s) ?f" and ?H = "blocks (sf_Height s) ?f" and ?cp = "client_pitch b s"
  have k: "0 < ?k" using getBlockSize_cases [of ?f] by auto
  have ok: "getBytesFromFormat ?f = Inr b" "unat (sf_Width s) + 3 < 2 ^ 32" "unat (sf_Height s) + 3 < 2 ^ 32" "?H * ?cp < 2 ^ 32"
    using assms(1) by (auto simp: surface_ok_def client_pitch_def)
  have tl: "t = unat (rc_top rect) div ?k" "l = unat (rc_left rect) div ?k" "h = blocks (rc_bottom rect - rc_top rect) ?f"
    "w = blocks (rc_right rect - rc_left rect) ?f"
    using assms(3) by (auto simp: rect_nums_def Let_def)
  have r: "rc_left rect < rc_right rect" "rc_right rect \<le> sf_Width s" "rc_top rect < rc_bottom rect" "rc_bottom rect \<le> sf_Height s"
    "?k dvd unat (rc_left rect)" "?k dvd unat (rc_top rect)"
    using assms(2) by (auto simp: rect_in_def)
  have small: "unat (rc_right rect - rc_left rect) \<le> unat (sf_Width s)" "unat (rc_bottom rect - rc_top rect) \<le> unat (sf_Height s)"
    "unat (rc_left rect) \<le> unat (sf_Width s)" "unat (rc_top rect) \<le> unat (sf_Height s)" "unat (rc_right rect) \<le> unat (sf_Width s)"
    "unat (rc_bottom rect) \<le> unat (sf_Height s)"
    using r by (simp_all add: unat_sub order_less_imp_le) (simp_all add: word_le_nat_alt word_less_nat_alt)
  have down: "(n + ?k - 1) div ?k = n div ?k" if dv: "?k dvd n" for n
  proof -
    obtain q where q: "n = ?k * q" using dv by (auto simp: dvd_def)
    then have "n + ?k - 1 = (?k - 1) + ?k * q" using k by simp
    then show ?thesis using q k by (simp only: div_mult_self2 div_mult_self1_is_m) simp
  qed
  show "unat (calcStride (rc_bottom rect - rc_top rect) ?f) = h"
    using unat_calcStride [of "rc_bottom rect - rc_top rect" ?f] small ok(3) tl by (simp add: blocks_def)
  show t: "unat (calcStride (rc_top rect) ?f) = t"
    using unat_calcStride [of "rc_top rect" ?f] small ok(3) tl down [OF r(6)] by simp
  show l: "unat (calcStride (rc_left rect) ?f) = l"
    using unat_calcStride [of "rc_left rect" ?f] small ok(2) tl down [OF r(5)] by simp
  show "0 < h" "0 < w" using blocks_split(2) [OF r(1,5) k] blocks_split(2) [OF r(3,6) k] tl by (simp_all add: blocks_def)
  show th: "t + h \<le> ?H" using blocks_split(1) [OF r(3,6) k] tl small by (simp add: blocks_def div_le_mono)
  show lw: "l + w \<le> ?W" using blocks_split(1) [OF r(1,5) k] tl small by (simp add: blocks_def div_le_mono)
  have H: "1 \<le> ?H" using th \<open>0 < h\<close> by simp
  have cp: "?cp < 2 ^ 32" by (rule le_less_trans [OF _ ok(4)]) (use mult_le_mono1 [OF H, of ?cp] in simp)
  then have Wb: "?W * unat b < 2 ^ 32" by (auto simp: client_pitch_def)
  have "w * unat b < 2 ^ 32" by (rule le_less_trans [OF _ Wb]) (use lw in simp)
  then show "\<exists>r. calcRowSize a (rc_right rect - rc_left rect) ?f = Inr r \<and> unat r = max (unat (MinSurfacePitch a)) (w * unat b)"
    using row_size [OF ok(1), of "rc_right rect - rc_left rect" a] small ok(2) tl(4) by simp
  obtain p where p: "calcRowSize X86 (sf_Width s) ?f = Inr p" "unat p = ?cp"
    using row_size [OF ok(1,2) Wb, of X86] by (auto simp: client_pitch_def MinSurfacePitch_def)
  have Hs: "unat (calcStride (sf_Height s) ?f) = ?H" using unat_calcStride [OF ok(3), of ?f] by (simp add: blocks_def)
  have n: "unat (calcStride (sf_Height s) ?f * p) = ?H * ?cp" using unat_mult_small [of "calcStride (sf_Height s) ?f" p] Hs p(2) ok(4) by simp
  have row: "unat b * l + unat b * w \<le> ?cp"
    using mult_le_mono2 [OF lw, of "unat b"] by (simp add: client_pitch_def algebra_simps)
  have "t * ?cp + unat b * l \<le> t * ?cp + h * ?cp"
  proof -
    have "?cp \<le> h * ?cp" using \<open>0 < h\<close> by (cases h) simp_all
    then show ?thesis using row by linarith
  qed
  also have "\<dots> \<le> ?H * ?cp" using mult_le_mono1 [OF th, of ?cp] by (simp add: algebra_simps)
  finally have off: "t * ?cp + unat b * l < 2 ^ 32" using ok(4) by simp
  have "unat (calcStride (rc_top rect) ?f * p) = t * ?cp" "unat (b * calcStride (rc_left rect) ?f) = unat b * l"
    using unat_mult_small [of "calcStride (rc_top rect) ?f" p] unat_mult_small [of b "calcStride (rc_left rect) ?f"] t l p(2) off by simp_all
  then have "unat (calcStride (rc_top rect) ?f * p + b * calcStride (rc_left rect) ?f) = t * ?cp + unat b * l"
    using off by (simp add: unat_word_ariths)
  then show "\<exists>p n. calcRowSize X86 (sf_Width s) ?f = Inr p \<and> unat p = ?cp
      \<and> calcTotalSizeOfRect X86 (sf_Width s) (sf_Height s) ?f = Inr n \<and> unat n = ?H * ?cp
      \<and> (\<exists>off. calcImageByteOffset p rect ?f = Inr off \<and> unat off = t * ?cp + unat b * l)"
    using p n ok(1) by (intro exI [of _ p] exI [of _ "calcStride (sf_Height s) ?f * p"])
      (simp add: calcTotalSizeOfRect_def calcImageByteOffset_def)
qed

text \<open>One lock and unlock, and the server's case: which bytes the rows of the runtime's surface get.\<close>

lemma upload_rows:
  assumes ok: "surface_ok b s" "rect_in rect s" "sf_locks s = []" "flags AND D3DLOCK_READONLY = 0" "length m = blocks (sf_Height s) (sf_Format s) * client_pitch b s"
    and nums: "rect_nums b s rect = (t, l, h, w)" and n: "n = w * unat b" "4 \<le> n" "n8 = max 8 n"
    and rt: "unat b * l + n8 \<le> rt_pitch r" "(t + h) * rt_pitch r \<le> length (rt_mem r)" "n8 - n \<le> length after"
  shows "\<exists>s1 s2 msg r'. sf_lock alloc uninit (Some rect) flags s = Inr (True, s1) \<and> sf_unlock (s1\<lparr>sf_shadow := Some m\<rparr>) = Inr (s2, Some msg, None)
    \<and> sf_locks s2 = [] \<and> on_Surface9_UnlockRect shared after msg r = Inr r' \<and> rt_pitch r' = rt_pitch r \<and> length (rt_mem r') = length (rt_mem r)
    \<and> (\<forall>j < h. \<forall>c < n8. rt_mem r' ! ((t + j) * rt_pitch r + unat b * l + c) =
         (if c < n then m ! ((t + j) * client_pitch b s + unat b * l + c)
          else if j + 1 < h then m ! ((t + j + 1) * client_pitch b s + unat b * l + (c - n)) else after ! (c - n)))
    \<and> (\<forall>q < length (rt_mem r). (\<forall>j < h. q < (t + j) * rt_pitch r + unat b * l \<or> (t + j) * rt_pitch r + unat b * l + n8 \<le> q)
         \<longrightarrow> rt_mem r' ! q = rt_mem r ! q)"
proof -
  let ?f = "sf_Format s" and ?cp = "client_pitch b s" and ?o = "unat b * l"
  have b: "getBytesFromFormat ?f = Inr b" "\<not> sf_bUseSharedHeap s" using ok(1) by (auto simp: surface_ok_def)
  note sz = rect_sizes [OF ok(1,2) nums]
  obtain p total off where p: "calcRowSize X86 (sf_Width s) ?f = Inr p" "unat p = ?cp"
    "calcTotalSizeOfRect X86 (sf_Width s) (sf_Height s) ?f = Inr total" "calcImageByteOffset p rect ?f = Inr off" "unat off = t * ?cp + ?o"
    using sz(9) by blast
  obtain rs where rs: "calcRowSize X86 (rc_right rect - rc_left rect) ?f = Inr rs" "unat rs = n"
    using sz(8) [of X86] n by (auto simp: MinSurfacePitch_def)
  obtain rs8 where rs8: "calcRowSize X64 (rc_right rect - rc_left rect) ?f = Inr rs8" "unat rs8 = n8"
    using sz(8) [of X64] n by (auto simp: MinSurfacePitch_def)
  have fit: "?o + n \<le> ?cp" using mult_le_mono2 [OF sz(7), of "unat b"] n(1) by (simp add: client_pitch_def algebra_simps)
  have "t * ?cp + ?o + (h - 1) * ?cp + n \<le> (t + (h - 1) + 1) * ?cp" using fit by (simp add: algebra_simps)
  also have "\<dots> \<le> length m" using sz(4,6) mult_le_mono1 [of "t + (h - 1) + 1" "blocks (sf_Height s) ?f" ?cp] ok(5) by simp
  finally obtain bs where bs: "gather_rows n ?cp h (t * ?cp + ?o) m = Inr bs" "length bs = h * n"
    "\<forall>j < h. \<forall>c < n. bs ! (j * n + c) = m ! (t * ?cp + ?o + j * ?cp + c)"
    using gather_rows_result [of h "t * ?cp + ?o" ?cp n m] by blast
  have src: "(bs @ after) ! (j * n + c) = (if c < n then m ! ((t + j) * ?cp + ?o + c)
      else if j + 1 < h then m ! ((t + j + 1) * ?cp + ?o + (c - n)) else after ! (c - n))" if "j < h" "c < n8" for j c
  proof (cases "c < n")
    case True
    have "j * n + c < (j + 1) * n" using True by simp
    also have "\<dots> \<le> h * n" using that(1) by (intro mult_le_mono1) simp
    finally show ?thesis using True that bs by (simp add: nth_append algebra_simps)
  next
    case False
    then have c: "j * n + c = (j + 1) * n + (c - n)" "c - n < n" using that n by auto
    show ?thesis
    proof (cases "j + 1 < h")
      case True
      have "(j + 1) * n + (c - n) < (j + 2) * n" using c(2) by (simp add: algebra_simps)
      also have "\<dots> \<le> h * n" using True by (intro mult_le_mono1) simp
      finally show ?thesis using c True False bs(2) bs(3) [rule_format, of "j + 1" "c - n"] by (simp add: nth_append algebra_simps)
    next
      case False
      then have "h = j + 1" using that(1) by simp
      then show ?thesis using c \<open>\<not> c < n\<close> bs(2) by (simp add: nth_append)
    qed
  qed
  define d where "d = t * rt_pitch r + ?o"
  have "0 + (h - 1) * n + n8 \<le> length (bs @ after)"
    using bs(2) rt(3) sz(4) n(3) by (cases h) (auto simp: max_def)
  moreover have "d + (h - 1) * rt_pitch r + n8 \<le> length (rt_mem r)"
    using rt sz(4) by (cases h) (auto simp: d_def algebra_simps)
  moreover have "n8 \<le> rt_pitch r" using rt(1) by simp
  ultimately obtain res where res: "copy_rows n8 (rt_pitch r) n h d 0 (bs @ after) (rt_mem r) = Inr res" "length res = length (rt_mem r)"
    "\<forall>j < h. \<forall>c < n8. res ! (d + j * rt_pitch r + c) = (bs @ after) ! (0 + j * n + c)"
    "\<forall>q < length (rt_mem r). (\<forall>j < h. q < d + j * rt_pitch r \<or> d + j * rt_pitch r + n8 \<le> q) \<longrightarrow> res ! q = rt_mem r ! q"
    using copy_rows_result [of h 0 n n8 "bs @ after" d "rt_pitch r" "rt_mem r"] by blast
  define s1 where "s1 = (if sf_shadow s = None then s\<lparr>sf_shadow := Some (uninit (unat total))\<rparr> else s)\<lparr>sf_locks :=
    [\<lparr>sl_rect = rect, sl_pitch = p, sl_ptr = unat off, sl_flags = flags, sl_bufId = kInvalidId, sl_discardBufId = kInvalidId\<rparr>]\<rparr>"
  have lock: "sf_lock alloc uninit (Some rect) flags s = Inr (True, s1)"
    using p b(2) ok(3) by (simp add: sf_lock_def resolveLockInfoRect_def s1_def)
  define msg where "msg = \<lparr>sm_rect = rect, sm_flags = flags, sm_format = ?f, sm_pitch = rs, sm_data = Blob bs\<rparr>"
  have upd: "sf_Format s1 = ?f" "sf_bUseSharedHeap s1 = False" using b(2) by (simp_all add: s1_def)
  have unlock: "sf_unlock (s1\<lparr>sf_shadow := Some m\<rparr>) = Inr (s1\<lparr>sf_shadow := Some m, sf_locks := []\<rparr>, Some msg, None)"
    using ok(4) upd bs(1) rs p sz(1)
    by (simp add: sf_unlock_def s1_def sf_sendDataToServer_def getRectDimensions_def msg_def del: unat_eq_0 split del: if_split)
  have pos: "rt_position r rect ?f b = d" using sz(2,3) by (simp add: rt_position_def d_def)
  have serve: "on_Surface9_UnlockRect shared after msg r = Inr (r\<lparr>rt_mem := res\<rparr>)"
    using b(1) rs8 rs sz(1) res(1) pos by (simp add: on_Surface9_UnlockRect_def msg_def)
  have "res ! ((t + j) * rt_pitch r + ?o + c) = (bs @ after) ! (j * n + c)" if "j < h" "c < n8" for j c
    using res(3) [rule_format, OF that] by (simp add: d_def algebra_simps)
  moreover have "res ! q = rt_mem r ! q"
    if "q < length (rt_mem r)" "\<forall>j < h. q < (t + j) * rt_pitch r + ?o \<or> (t + j) * rt_pitch r + ?o + n8 \<le> q" for q
    using res(4) [rule_format, OF that(1)] that(2) by (simp add: d_def algebra_simps)
  ultimately show ?thesis
    using lock unlock serve res(2) src by (intro exI [of _ s1] exI [of _ "s1\<lparr>sf_shadow := Some m, sf_locks := []\<rparr>"] exI [of _ msg] exI [of _ "r\<lparr>rt_mem := res\<rparr>"]) simp
qed

lemma unat_MinSurfacePitch: "unat (MinSurfacePitch X86) = 4" "unat (MinSurfacePitch X64) = 8"
  by (simp_all add: MinSurfacePitch_def)

lemma row_apart:
  assumes "col < (p::nat)" and "o1 + n \<le> p" and "row \<noteq> i \<or> col < o1 \<or> o1 + n \<le> col"
  shows "row * p + col < i * p + o1 \<or> i * p + o1 + n \<le> row * p + col"
proof (cases "row = i")
  case False
  consider "row + 1 \<le> i" | "i + 1 \<le> row" using False by linarith
  then show ?thesis
  proof cases
    case 1
    then have "(row + 1) * p \<le> i * p" by (rule mult_le_mono1)
    then show ?thesis using assms(1) by (simp add: algebra_simps)
  next
    case 2
    then have "(i + 1) * p \<le> row * p" by (rule mult_le_mono1)
    then show ?thesis using assms(2) by (simp add: algebra_simps)
  qed
qed (use assms in auto)

section \<open>Properties\<close>

text \<open>C9. The server's surface gets the rectangle.  For a surface with a shadow, in any format (block-compressed ones included), a lock of a rectangle inside
  it that is at least eight bytes wide, any contents \<open>m\<close> that the application leaves in the shadow, and a runtime surface of any pitch that has room for the rows:
  lock and unlock succeed, and after the server's case the rows and columns of the rectangle hold the shadow's bytes, all others what they held.\<close>

theorem surface_upload_exact:
  assumes "surface_ok b s" and "rect_in rect s" and "sf_locks s = []" and "flags AND D3DLOCK_READONLY = 0"
    and "length m = blocks (sf_Height s) (sf_Format s) * client_pitch b s" and "rect_nums b s rect = (t, l, h, w)" and "8 \<le> w * unat b"
    and "blocks (sf_Width s) (sf_Format s) * unat b \<le> rt_pitch r" and "length (rt_mem r) = blocks (sf_Height s) (sf_Format s) * rt_pitch r"
  shows "\<exists>s1 s2 msg r'. sf_lock alloc uninit (Some rect) flags s = Inr (True, s1) \<and> sf_unlock (s1\<lparr>sf_shadow := Some m\<rparr>) = Inr (s2, Some msg, None)
    \<and> on_Surface9_UnlockRect shared after msg r = Inr r' \<and> rt_pitch r' = rt_pitch r \<and> length (rt_mem r') = length (rt_mem r)
    \<and> (\<forall>row < blocks (sf_Height s) (sf_Format s). \<forall>col < rt_pitch r. rt_mem r' ! (row * rt_pitch r + col) =
        (if t \<le> row \<and> row < t + h \<and> unat b * l \<le> col \<and> col < unat b * (l + w) then m ! (row * client_pitch b s + col)
         else rt_mem r ! (row * rt_pitch r + col)))"
proof -
  let ?H = "blocks (sf_Height s) (sf_Format s)" and ?o = "unat b * l" and ?n = "w * unat b" and ?rp = "rt_pitch r"
  note sz = rect_sizes [OF assms(1,2,6)]
  have on: "?o + ?n \<le> ?rp" using mult_le_mono2 [OF sz(7), of "unat b"] assms(8) by (simp add: algebra_simps)
  have hr: "(t + h) * ?rp \<le> length (rt_mem r)" using mult_le_mono1 [OF sz(6), of ?rp] assms(9) by simp
  obtain s1 s2 msg r' where u: "sf_lock alloc uninit (Some rect) flags s = Inr (True, s1)" "sf_unlock (s1\<lparr>sf_shadow := Some m\<rparr>) = Inr (s2, Some msg, None)"
    "on_Surface9_UnlockRect shared after msg r = Inr r'" "rt_pitch r' = ?rp" "length (rt_mem r') = length (rt_mem r)"
    and c: "\<forall>j < h. \<forall>c < ?n. rt_mem r' ! ((t + j) * ?rp + ?o + c) =
         (if c < ?n then m ! ((t + j) * client_pitch b s + ?o + c)
          else if j + 1 < h then m ! ((t + j + 1) * client_pitch b s + ?o + (c - ?n)) else after ! (c - ?n))"
    and z: "\<forall>q < length (rt_mem r). (\<forall>j < h. q < (t + j) * ?rp + ?o \<or> (t + j) * ?rp + ?o + ?n \<le> q) \<longrightarrow> rt_mem r' ! q = rt_mem r ! q"
    using upload_rows [OF assms(1-6) refl, of ?n r after alloc uninit shared] assms(7) on hr by auto
  have "rt_mem r' ! (row * ?rp + col) = (if t \<le> row \<and> row < t + h \<and> ?o \<le> col \<and> col < unat b * (l + w) then m ! (row * client_pitch b s + col)
         else rt_mem r ! (row * ?rp + col))" if rc: "row < ?H" "col < ?rp" for row col
  proof (cases "t \<le> row \<and> row < t + h \<and> ?o \<le> col \<and> col < unat b * (l + w)")
    case True
    then have "row - t < h" "col - ?o < ?n" by (auto simp: algebra_simps)
    then show ?thesis using c [rule_format, of "row - t" "col - ?o"] True by (simp add: algebra_simps)
  next
    case False
    have "(row + 1) * ?rp \<le> ?H * ?rp" using rc(1) by (intro mult_le_mono1) simp
    then have q: "row * ?rp + col < length (rt_mem r)" using rc(2) assms(9) by (simp add: algebra_simps)
    have "row * ?rp + col < (t + j) * ?rp + ?o \<or> (t + j) * ?rp + ?o + ?n \<le> row * ?rp + col" if "j < h" for j
      using row_apart [OF rc(2) on, of row "t + j"] False that by (auto simp: algebra_simps)
    then show ?thesis using z [rule_format, OF q] False by auto
  qed
  then show ?thesis using u by blast
qed

text \<open>A surface of 4 by 2 pixels in \<open>D3DFMT_A8R8G8B8\<close>, of which the application locks the right half.\<close>

definition demo_surface :: surface where
  "demo_surface = new_Surface False 4 2 21"

definition right_half :: RECT where
  "right_half = \<lparr>rc_left = 2, rc_top = 0, rc_right = 4, rc_bottom = 2\<rparr>"

lemma demo_format_both: "getBytesFromFormat 21 = Inr 4 \<and> getBlockSize 21 = 1"
  by code_simp

lemmas demo_format = demo_format_both [THEN conjunct1] demo_format_both [THEN conjunct2]

lemma demo_ok: "surface_ok 4 demo_surface" "rect_in right_half demo_surface" "rect_nums 4 demo_surface right_half = (0, 2, 2, 2)"
  "client_pitch 4 demo_surface = 16" "blocks (sf_Height demo_surface) (sf_Format demo_surface) = 2" "sf_locks demo_surface = []"
  by (simp_all add: surface_ok_def rect_in_def rect_nums_def client_pitch_def blocks_def demo_surface_def new_Surface_def right_half_def demo_format Let_def)

theorem surface_upload_exact_witness:
  "\<exists>s1 s2 msg r'. sf_lock kInvalidId (\<lambda>n. []) (Some right_half) 0 demo_surface = Inr (True, s1)
    \<and> sf_unlock (s1\<lparr>sf_shadow := Some (replicate 32 7)\<rparr>) = Inr (s2, Some msg, None)
    \<and> on_Surface9_UnlockRect (\<lambda>_. []) [] msg \<lparr>rt_pitch = 20, rt_mem = replicate 40 0\<rparr> = Inr r'
    \<and> rt_mem r' ! 28 = 7 \<and> rt_mem r' ! 27 = 0"
proof -
  obtain s1 s2 msg r' where u: "sf_lock kInvalidId (\<lambda>n. []) (Some right_half) 0 demo_surface = Inr (True, s1)"
    "sf_unlock (s1\<lparr>sf_shadow := Some (replicate 32 7)\<rparr>) = Inr (s2, Some msg, None)"
    "on_Surface9_UnlockRect (\<lambda>_. []) [] msg \<lparr>rt_pitch = 20, rt_mem = replicate 40 0\<rparr> = Inr r'"
    and all: "\<forall>row < blocks (sf_Height demo_surface) (sf_Format demo_surface). \<forall>col < 20. rt_mem r' ! (row * 20 + col) =
        (if 0 \<le> row \<and> row < 0 + 2 \<and> unat (4 :: u32) * 2 \<le> col \<and> col < unat (4 :: u32) * (2 + 2)
         then replicate 32 7 ! (row * client_pitch 4 demo_surface + col) else replicate 40 0 ! (row * 20 + col))"
    using surface_upload_exact [OF demo_ok(1,2,6) _ _ demo_ok(3), of 0 "replicate 32 7" "\<lparr>rt_pitch = 20, rt_mem = replicate 40 0\<rparr>"
        kInvalidId "\<lambda>n. []" "\<lambda>_. []" "[]"] demo_ok(4,5)
    by (auto simp: demo_surface_def new_Surface_def blocks_def demo_format)
  have "rt_mem r' ! 28 = 7" "rt_mem r' ! 27 = 0"
    using all [rule_format, of 1 8] all [rule_format, of 1 7] demo_ok(4,5) by simp_all
  then show ?thesis using u by blast
qed

text \<open>A narrow rectangle spills over.  The smallest row is \<open>sizeof(size_t)\<close>, 4 bytes in the client and 8 in the server: a rectangle of 4 bytes' width (one
  pixel of a 32-bit format) is sent with 4 bytes per row and written with 8.  Whatever the application wrote, the 4 bytes right of every row
  but the last get the rectangle's next row, and those right of the last row get what follows the object in the ring.\<close>

theorem narrow_rect_spills:
  assumes "surface_ok b s" and "rect_in rect s" and "sf_locks s = []" and "flags AND D3DLOCK_READONLY = 0"
    and "length m = blocks (sf_Height s) (sf_Format s) * client_pitch b s" and "rect_nums b s rect = (t, l, h, w)" and "w * unat b = 4"
    and "unat b * l + 8 \<le> rt_pitch r" and "length (rt_mem r) = blocks (sf_Height s) (sf_Format s) * rt_pitch r" and "4 \<le> length after"
  shows "\<exists>s1 s2 msg r'. sf_lock alloc uninit (Some rect) flags s = Inr (True, s1) \<and> sf_unlock (s1\<lparr>sf_shadow := Some m\<rparr>) = Inr (s2, Some msg, None)
    \<and> on_Surface9_UnlockRect shared after msg r = Inr r'
    \<and> (\<forall>j c. j + 1 < h \<and> c < 4 \<longrightarrow>
        rt_mem r' ! ((t + j) * rt_pitch r + unat b * (l + w) + c) = m ! ((t + j + 1) * client_pitch b s + unat b * l + c))
    \<and> (\<forall>c < 4. rt_mem r' ! ((t + h - 1) * rt_pitch r + unat b * (l + w) + c) = after ! c)"
proof -
  let ?o = "unat b * l" and ?rp = "rt_pitch r"
  note sz = rect_sizes [OF assms(1,2,6)]
  have hr: "(t + h) * ?rp \<le> length (rt_mem r)" using mult_le_mono1 [OF sz(6), of ?rp] assms(9) by simp
  have lw: "unat b * (l + w) = ?o + 4" using assms(7) by (simp add: algebra_simps)
  obtain s1 s2 msg r' where u: "sf_lock alloc uninit (Some rect) flags s = Inr (True, s1)" "sf_unlock (s1\<lparr>sf_shadow := Some m\<rparr>) = Inr (s2, Some msg, None)"
    "on_Surface9_UnlockRect shared after msg r = Inr r'"
    and c: "\<forall>j < h. \<forall>c < 8. rt_mem r' ! ((t + j) * ?rp + ?o + c) =
         (if c < 4 then m ! ((t + j) * client_pitch b s + ?o + c)
          else if j + 1 < h then m ! ((t + j + 1) * client_pitch b s + ?o + (c - 4)) else after ! (c - 4))"
    using upload_rows [OF assms(1-6), of 4 8 r after alloc uninit shared] assms(7,8,10) hr by auto
  have "rt_mem r' ! ((t + j) * ?rp + (?o + 4) + c) = m ! ((t + j + 1) * client_pitch b s + ?o + c)" if "j + 1 < h \<and> c < 4" for j c
    using c [rule_format, of j "c + 4"] that by (simp add: algebra_simps)
  moreover have "rt_mem r' ! ((t + h - 1) * ?rp + (?o + 4) + i) = after ! i" if "i < 4" for i
    using c [rule_format, of "h - 1" "i + 4"] that sz(4) by (simp add: algebra_simps)
  ultimately show ?thesis unfolding lw using u by blast
qed

text \<open>One column of the demonstration surface: the pixel right of its first row becomes the pixel of its second row.\<close>

definition one_column :: RECT where
  "one_column = \<lparr>rc_left = 1, rc_top = 0, rc_right = 2, rc_bottom = 2\<rparr>"

theorem narrow_rect_spills_witness:
  "\<exists>s1 s2 msg r'. sf_lock kInvalidId (\<lambda>n. []) (Some one_column) 0 demo_surface = Inr (True, s1)
    \<and> sf_unlock (s1\<lparr>sf_shadow := Some (replicate 16 1 @ replicate 16 2)\<rparr>) = Inr (s2, Some msg, None)
    \<and> on_Surface9_UnlockRect (\<lambda>_. []) [9, 9, 9, 9] msg \<lparr>rt_pitch = 16, rt_mem = replicate 32 0\<rparr> = Inr r'
    \<and> rt_mem r' ! 8 = 2 \<and> rt_mem r' ! 24 = 9"
proof -
  have n: "rect_in one_column demo_surface" "rect_nums 4 demo_surface one_column = (0, 1, 2, 1)"
    by (simp_all add: rect_in_def rect_nums_def blocks_def demo_surface_def new_Surface_def one_column_def demo_format Let_def)
  have "\<exists>s1 s2 msg r'. sf_lock kInvalidId (\<lambda>n. []) (Some one_column) 0 demo_surface = Inr (True, s1)
    \<and> sf_unlock (s1\<lparr>sf_shadow := Some (replicate 16 1 @ replicate 16 2)\<rparr>) = Inr (s2, Some msg, None)
    \<and> on_Surface9_UnlockRect (\<lambda>_. []) [9, 9, 9, 9] msg \<lparr>rt_pitch = 16, rt_mem = replicate 32 0\<rparr> = Inr r'
    \<and> (\<forall>j c. j + 1 < 2 \<and> c < 4 \<longrightarrow> rt_mem r' ! ((0 + j) * rt_pitch \<lparr>rt_pitch = 16, rt_mem = replicate 32 0\<rparr> + unat (4 :: u32) * (1 + 1) + c)
        = (replicate 16 1 @ replicate 16 2) ! ((0 + j + 1) * client_pitch 4 demo_surface + unat (4 :: u32) * 1 + c))
    \<and> (\<forall>c < 4. rt_mem r' ! ((0 + 2 - 1) * rt_pitch \<lparr>rt_pitch = 16, rt_mem = replicate 32 0\<rparr> + unat (4 :: u32) * (1 + 1) + c) = [9, 9, 9, 9] ! c)"
    by (rule narrow_rect_spills [OF demo_ok(1) n(1) demo_ok(6) _ _ n(2)]) (simp_all add: demo_ok(4,5))
  then obtain s1 s2 msg r' where u: "sf_lock kInvalidId (\<lambda>n. []) (Some one_column) 0 demo_surface = Inr (True, s1)"
    "sf_unlock (s1\<lparr>sf_shadow := Some (replicate 16 1 @ replicate 16 2)\<rparr>) = Inr (s2, Some msg, None)"
    "on_Surface9_UnlockRect (\<lambda>_. []) [9, 9, 9, 9] msg \<lparr>rt_pitch = 16, rt_mem = replicate 32 0\<rparr> = Inr r'"
    and c: "\<forall>j c. j + 1 < 2 \<and> c < 4 \<longrightarrow> rt_mem r' ! (j * 16 + 8 + c) = (replicate 16 1 @ replicate 16 2) ! ((j + 1) * 16 + 4 + c)"
      "\<forall>c < 4. rt_mem r' ! (24 + c) = [9, 9, 9, 9] ! c"
    by (auto simp: demo_ok(4))
  have "rt_mem r' ! 8 = 2" "rt_mem r' ! 24 = 9"
    using c(1) [rule_format, of 0 0] c(2) [rule_format, of 0] by (simp_all add: nth_append)
  then show ?thesis using u by blast
qed


text \<open>The demonstration surface, locked as a whole for reading.\<close>

definition read_surface :: surface where
  "read_surface = demo_surface\<lparr>sf_shadow := Some (replicate 32 0), sf_locks :=
     [\<lparr>sl_rect = \<lparr>rc_left = 0, rc_top = 0, rc_right = 4, rc_bottom = 2\<rparr>, sl_pitch = 16, sl_ptr = 0, sl_flags = D3DLOCK_READONLY, sl_bufId = kInvalidId,
        sl_discardBufId = kInvalidId\<rparr>]\<rparr>"


end
