(* ===== verification/Volume_Data.thy ===== *)
theory Volume_Data
  imports Surface_Data
begin

text \<open>
  The contents of volumes: \<open>LockBox\<close> and \<open>UnlockBox\<close> of \<open>Direct3DVolume9_LSS\<close> (\<open>d3d9_volume.cpp\<close>) and the server's case
  \<open>IDirect3DVolume9_UnlockBox\<close> (\<open>IDirect3DVolumeTexture9_UnlockBox\<close> copies in the same way).  A lock allocates memory for its box, unlock sends it.
\<close>

record BOX =
  bx_Left :: u32
  bx_Top :: u32
  bx_Right :: u32
  bx_Bottom :: u32
  bx_Front :: u32
  bx_Back :: u32

record volume_lock =
  vl_box :: BOX
  vl_RowPitch :: u32
  vl_SlicePitch :: u32
  vl_data :: memory
  vl_flags :: u32

record volume =
  vo_Width :: u32
  vo_Height :: u32
  vo_Depth :: u32
  vo_Format :: u32
  vo_locks :: "volume_lock list"

definition resolveLockInfoBox :: "BOX option \<Rightarrow> volume \<Rightarrow> BOX" where
  "resolveLockInfoBox pBox v = (case pBox of Some b \<Rightarrow> b
     | None \<Rightarrow> \<lparr>bx_Left = 0, bx_Top = 0, bx_Right = vo_Width v, bx_Bottom = vo_Height v, bx_Front = 0, bx_Back = vo_Depth v\<rparr>)"

definition getBoxDimensions :: "BOX \<Rightarrow> u32 \<times> u32 \<times> u32" where
  "getBoxDimensions box = (bx_Right box - bx_Left box, bx_Bottom box - bx_Top box, bx_Back box - bx_Front box)"

text \<open>\<open>uninit\<close>: the contents of new memory of a size.\<close>

definition vo_lock :: "(nat \<Rightarrow> memory) \<Rightarrow> BOX option \<Rightarrow> u32 \<Rightarrow> volume \<Rightarrow> volume or_error" where
  "vo_lock uninit pBox flags v =
     (let box = resolveLockInfoBox pBox v; (width, height, depth) = getBoxDimensions box; pixelsPerBlock = getBlockSize (vo_Format v) in
      bindE (getBytesFromFormat (vo_Format v)) (\<lambda>bytesPerPixel.
        let rowStride = (width + pixelsPerBlock - 1) div pixelsPerBlock;
            columnStride = (height + pixelsPerBlock - 1) div pixelsPerBlock;
            sz = depth * columnStride * rowStride * bytesPerPixel
        in Inr (v\<lparr>vo_locks := vo_locks v @ [\<lparr>vl_box = box, vl_RowPitch = rowStride, vl_SlicePitch = columnStride, vl_data = uninit (unat sz),
             vl_flags = flags\<rparr>]\<rparr>)))"

text \<open>The slices of a memory, and between two memories.\<close>

fun gather_slices :: "nat \<Rightarrow> nat \<Rightarrow> nat \<Rightarrow> nat \<Rightarrow> nat \<Rightarrow> nat \<Rightarrow> memory \<Rightarrow> memory or_error" where
  "gather_slices n pitch rows sp 0 ptr m = Inr []"
| "gather_slices n pitch rows sp (Suc d) ptr m = bindE (gather_rows n pitch rows ptr m) (\<lambda>bs.
     bindE (gather_slices n pitch rows sp d (ptr + sp) m) (\<lambda>rest. Inr (bs @ rest)))"

fun copy_slices :: "nat \<Rightarrow> nat \<Rightarrow> nat \<Rightarrow> nat \<Rightarrow> nat \<Rightarrow> nat \<Rightarrow> nat \<Rightarrow> memory \<Rightarrow> memory \<Rightarrow> memory or_error" where
  "copy_slices n dpitch rows dsl 0 d s src dst = Inr dst"
| "copy_slices n dpitch rows dsl (Suc k) d s src dst = bindE (copy_rows n dpitch n rows d s src dst)
     (copy_slices n dpitch rows dsl k (d + dsl) (s + n * rows) src)"

record volume_msg =
  vm_box :: BOX
  vm_flags :: u32
  vm_bytesPerPixel :: u32
  vm_width :: u32
  vm_height :: u32
  vm_depth :: u32
  vm_blob :: memory

definition vo_unlock :: "volume \<Rightarrow> (volume \<times> volume_msg option) or_error" where
  "vo_unlock v = (case vo_locks v of [] \<Rightarrow> Inr (v, None)
     | li # rest \<Rightarrow> (let v1 = v\<lparr>vo_locks := rest\<rparr>; (width, height, depth) = getBoxDimensions (vl_box li) in
         bindE (getBytesFromFormat (vo_Format v)) (\<lambda>bytesPerPixel. let rowSize = vl_RowPitch li * bytesPerPixel in
         if vl_flags li AND D3DLOCK_READONLY = 0
         then bindE (gather_slices (unat rowSize) (unat (vl_RowPitch li)) (unat (vl_SlicePitch li)) (unat (vl_SlicePitch li)) (unat depth) 0 (vl_data li)) (\<lambda>blob.
           Inr (v1, Some \<lparr>vm_box = vl_box li, vm_flags = vl_flags li, vm_bytesPerPixel = bytesPerPixel, vm_width = vl_RowPitch li, vm_height = vl_SlicePitch li,
             vm_depth = depth, vm_blob = blob\<rparr>))
         else Inr (v1, None))))"

text \<open>The server: the runtime locks the box at a position of its memory, with its pitches.\<close>

record rt_volume =
  rv_row :: nat
  rv_slice :: nat
  rv_mem :: memory

definition on_Volume9_UnlockBox :: "nat \<Rightarrow> volume_msg \<Rightarrow> rt_volume \<Rightarrow> rt_volume or_error" where
  "on_Volume9_UnlockBox position m r = (let row_size = vm_width m * vm_bytesPerPixel m in
     bindE (copy_slices (unat row_size) (rv_row r) (unat (vm_height m)) (rv_slice r) (unat (vm_depth m)) position 0 (vm_blob m) (rv_mem r))
       (\<lambda>mem1. Inr (r\<lparr>rv_mem := mem1\<rparr>)))"

section \<open>Lemmas\<close>

lemma gather_slices_result:
  assumes "d = 0 \<or> rows = 0 \<or> ptr + (d - 1) * sp + (rows - 1) * pitch + n \<le> length m"
  shows "\<exists>bs. gather_slices n pitch rows sp d ptr m = Inr bs \<and> length bs = d * (rows * n)
    \<and> (\<forall>z < d. \<forall>y < rows. \<forall>c < n. bs ! (z * (rows * n) + y * n + c) = m ! (ptr + z * sp + y * pitch + c))"
  using assms
proof (induction d arbitrary: ptr)
  case (Suc d)
  have "rows = 0 \<or> ptr + (rows - 1) * pitch + n \<le> length m" using Suc.prems by auto
  then obtain b1 where b1: "gather_rows n pitch rows ptr m = Inr b1" "length b1 = rows * n"
    "\<forall>j < rows. \<forall>c < n. b1 ! (j * n + c) = m ! (ptr + j * pitch + c)" using gather_rows_result by blast
  have "d = 0 \<or> rows = 0 \<or> (ptr + sp) + (d - 1) * sp + (rows - 1) * pitch + n \<le> length m" using Suc.prems by (cases d) auto
  then obtain b2 where b2: "gather_slices n pitch rows sp d (ptr + sp) m = Inr b2" "length b2 = d * (rows * n)"
    "\<forall>z < d. \<forall>y < rows. \<forall>c < n. b2 ! (z * (rows * n) + y * n + c) = m ! (ptr + sp + z * sp + y * pitch + c)" using Suc.IH by blast
  have "(b1 @ b2) ! (z * (rows * n) + y * n + c) = m ! (ptr + z * sp + y * pitch + c)" if "z < Suc d" "y < rows" "c < n" for z y c
  proof (cases z)
    case 0
    have "y * n + c < (y + 1) * n" using that by simp
    also have "\<dots> \<le> rows * n" using that by (intro mult_le_mono1) simp
    finally show ?thesis using 0 that b1 by (simp add: nth_append)
  next
    case (Suc x)
    then show ?thesis using that b1(2) b2(3) [rule_format, of x y c] by (simp add: nth_append algebra_simps)
  qed
  then show ?case using b1 b2 by (intro exI [of _ "b1 @ b2"]) simp
qed simp

lemma copy_slices_result:
  assumes "k = 0 \<or> rows = 0 \<or> s + (k - 1) * (n * rows) + rows * n \<le> length src \<and> d + (k - 1) * dsl + (rows - 1) * dpitch + n \<le> length dst"
    and "n \<le> dpitch" and "rows = 0 \<or> (rows - 1) * dpitch + n \<le> dsl"
  shows "\<exists>res. copy_slices n dpitch rows dsl k d s src dst = Inr res \<and> length res = length dst
    \<and> (\<forall>z < k. \<forall>y < rows. \<forall>c < n. res ! (d + z * dsl + y * dpitch + c) = src ! (s + z * (n * rows) + y * n + c))
    \<and> (\<forall>q < length dst. (\<forall>z < k. \<forall>y < rows. q < d + z * dsl + y * dpitch \<or> d + z * dsl + y * dpitch + n \<le> q) \<longrightarrow> res ! q = dst ! q)"
  using assms(1)
proof (induction k arbitrary: d s dst)
  case (Suc k)
  have "rows = 0 \<or> s + (rows - 1) * n + n \<le> length src \<and> d + (rows - 1) * dpitch + n \<le> length dst" using Suc.prems by (cases rows) auto
  then obtain m1 where m1: "copy_rows n dpitch n rows d s src dst = Inr m1" "length m1 = length dst"
    "\<forall>j < rows. \<forall>c < n. m1 ! (d + j * dpitch + c) = src ! (s + j * n + c)"
    "\<forall>q < length dst. (\<forall>j < rows. q < d + j * dpitch \<or> d + j * dpitch + n \<le> q) \<longrightarrow> m1 ! q = dst ! q"
    using copy_rows_result [OF _ assms(2), of rows s n src d dst] by blast
  have "k = 0 \<or> rows = 0 \<or> (s + n * rows) + (k - 1) * (n * rows) + rows * n \<le> length src
      \<and> (d + dsl) + (k - 1) * dsl + (rows - 1) * dpitch + n \<le> length m1"
    using Suc.prems m1(2) by (cases k) (auto simp: algebra_simps)
  then obtain res where r: "copy_slices n dpitch rows dsl k (d + dsl) (s + n * rows) src m1 = Inr res" "length res = length m1"
    "\<forall>z < k. \<forall>y < rows. \<forall>c < n. res ! (d + dsl + z * dsl + y * dpitch + c) = src ! (s + n * rows + z * (n * rows) + y * n + c)"
    "\<forall>q < length m1. (\<forall>z < k. \<forall>y < rows. q < d + dsl + z * dsl + y * dpitch \<or> d + dsl + z * dsl + y * dpitch + n \<le> q) \<longrightarrow> res ! q = m1 ! q"
    using Suc.IH by blast
  have "res ! (d + z * dsl + y * dpitch + c) = src ! (s + z * (n * rows) + y * n + c)" if zyc: "z < Suc k" "y < rows" "c < n" for z y c
  proof (cases z)
    case 0
    have "y * dpitch \<le> (rows - 1) * dpitch" using zyc(2) by (intro mult_le_mono1) simp
    moreover have "(rows - 1) * dpitch + n \<le> dsl" using assms(3) zyc(2) by blast
    moreover have "d + k * dsl + (rows - 1) * dpitch + n \<le> length dst" using Suc.prems zyc(2) by simp
    ultimately have "y * dpitch + c < dsl" "d + y * dpitch + c < length dst" using zyc(3) by linarith+
    then have "res ! (d + y * dpitch + c) = m1 ! (d + y * dpitch + c)" using r(4) m1(2) by auto
    then show ?thesis using 0 m1(3) zyc by simp
  next
    case (Suc x)
    then show ?thesis using r(3) [rule_format, of x y c] zyc by (simp add: algebra_simps)
  qed
  moreover have "res ! q = dst ! q"
    if q: "q < length dst" "\<forall>z < Suc k. \<forall>y < rows. q < d + z * dsl + y * dpitch \<or> d + z * dsl + y * dpitch + n \<le> q" for q
  proof -
    have "q < d + dsl + z * dsl + y * dpitch \<or> d + dsl + z * dsl + y * dpitch + n \<le> q" if "z < k" "y < rows" for z y
      using q(2) [rule_format, of "Suc z" y] that by (simp add: algebra_simps)
    then have "res ! q = m1 ! q" using r(4) q(1) m1(2) by auto
    moreover have "m1 ! q = dst ! q" using m1(4) q(1) q(2) [rule_format, of 0] by auto
    ultimately show ?thesis by simp
  qed
  ultimately show ?case using m1(1,2) r(1,2) by (intro exI [of _ res]) auto
qed simp

text \<open>A box in rows of blocks: rows are \<open>w\<close> blocks of \<open>b\<close> bytes, \<open>h\<close> rows, \<open>d\<close> slices, within 32 bits.\<close>

definition box_nums :: "u32 \<Rightarrow> BOX \<Rightarrow> volume \<Rightarrow> nat \<times> nat \<times> nat \<Rightarrow> bool" where
  "box_nums b box v whd \<longleftrightarrow> (case (whd, getBoxDimensions box) of ((w, h, d), (width, height, depth)) \<Rightarrow>
     getBytesFromFormat (vo_Format v) = Inr b \<and> unat width + 3 < 2 ^ 32 \<and> unat height + 3 < 2 ^ 32 \<and> w = blocks width (vo_Format v) \<and> h = blocks height (vo_Format v)
     \<and> d = unat depth \<and> 0 < b \<and> 0 < w \<and> 0 < h \<and> 0 < d \<and> d * h * w * unat b < 2 ^ 32)"

section \<open>Properties\<close>

text \<open>C31. The pitches of a volume are counted in blocks.  \<open>LockBox\<close> gives the application the number of blocks in a row and of rows in a slice as pitches in bytes.  Lock, any
  contents \<open>m\<close>, unlock and the server's case succeed, and row \<open>y\<close> of slice \<open>z\<close> of the runtime's box gets the bytes from \<open>z * h + y * w\<close> on, although a
  row has \<open>w * b\<close> bytes: with more than one byte per block, the end of every row is the beginning of the next one, whatever the application writes.\<close>

theorem volume_rows_overlap:
  assumes "box_nums b box v (w, h, d)" and "vo_locks v = []" and "flags AND D3DLOCK_READONLY = 0" and "length m = d * h * w * unat b"
    and "w * unat b \<le> rv_row r" and "(h - 1) * rv_row r + w * unat b \<le> rv_slice r"
    and "pos + (d - 1) * rv_slice r + (h - 1) * rv_row r + w * unat b \<le> length (rv_mem r)"
  shows "\<exists>l v1 v2 msg r'. vo_lock uninit (Some box) flags v = Inr v1 \<and> vo_locks v1 = [l]
    \<and> vo_unlock (v1\<lparr>vo_locks := [l\<lparr>vl_data := m\<rparr>]\<rparr>) = Inr (v2, Some msg) \<and> on_Volume9_UnlockBox pos msg r = Inr r'
    \<and> (\<forall>z < d. \<forall>y < h. \<forall>c < w * unat b. rv_mem r' ! (pos + z * rv_slice r + y * rv_row r + c) = m ! (z * h + y * w + c))
    \<and> (\<forall>z < d. \<forall>y < h - 1. \<forall>j < w * unat b - w. rv_mem r' ! (pos + z * rv_slice r + y * rv_row r + (w + j))
         = rv_mem r' ! (pos + z * rv_slice r + (y + 1) * rv_row r + j))"
proof -
  let ?f = "vo_Format v" and ?n = "w * unat b"
  obtain width height depth where dim: "getBoxDimensions box = (width, height, depth)" by (cases "getBoxDimensions box")
  then have n: "getBytesFromFormat ?f = Inr b" "unat width + 3 < 2 ^ 32" "unat height + 3 < 2 ^ 32" "w = blocks width ?f" "h = blocks height ?f" "d = unat depth"
    "0 < unat b" "0 < w" "0 < h" "0 < d" "d * h * w * unat b < 2 ^ 32"
    using assms(1) by (auto simp: box_nums_def word_neq_0_conv unat_gt_0)
  have st: "unat (calcStride width ?f) = w" "unat (calcStride height ?f) = h"
    using unat_calcStride [OF n(2), of ?f] unat_calcStride [OF n(3), of ?f] n(4,5) by (simp_all add: blocks_def)
  have "1 * ?n \<le> (d * h) * ?n" using n(9,10) by (intro mult_le_mono1) simp
  then have "?n < 2 ^ 32" using n(11) by (simp only: mult.assoc mult_1)
  then have rs: "unat (calcStride width ?f * b) = ?n"
    using unat_mult_small [of "calcStride width ?f" b] st by simp
  define l where "l = \<lparr>vl_box = box, vl_RowPitch = calcStride width ?f, vl_SlicePitch = calcStride height ?f,
    vl_data = uninit (unat (depth * calcStride height ?f * calcStride width ?f * b)), vl_flags = flags\<rparr>"
  have lock: "vo_lock uninit (Some box) flags v = Inr (v\<lparr>vo_locks := [l]\<rparr>)"
    using dim n(1) assms(2) by (simp add: vo_lock_def resolveLockInfoBox_def calcStride_def l_def Let_def)
  have fit: "0 + (d - 1) * h + (h - 1) * w + ?n \<le> length m"
  proof -
    obtain d' h' where dh: "d = Suc d'" "h = Suc h'" using n(9,10) by (metis gr0_conv_Suc)
    have "d' * h \<le> (d' * h) * ?n" "h' * w \<le> h' * ?n" using n(7,8) by simp_all
    moreover have "length m = (d' * h) * ?n + h' * ?n + ?n" using dh assms(4) by (simp add: algebra_simps)
    ultimately have "d' * h + h' * w + ?n \<le> length m" by linarith
    moreover have "d - 1 = d'" "h - 1 = h'" using dh by simp_all
    ultimately show ?thesis by (simp only: add_0)
  qed
  obtain bs where bs: "gather_slices ?n w h h d 0 m = Inr bs" "length bs = d * (h * ?n)"
    "\<forall>z < d. \<forall>y < h. \<forall>c < ?n. bs ! (z * (h * ?n) + y * ?n + c) = m ! (0 + z * h + y * w + c)"
    using gather_slices_result [of d h 0 h w ?n m] fit by blast
  define msg where "msg = \<lparr>vm_box = box, vm_flags = flags, vm_bytesPerPixel = b, vm_width = calcStride width ?f, vm_height = calcStride height ?f,
    vm_depth = depth, vm_blob = bs\<rparr>"
  have unlock: "vo_unlock (v\<lparr>vo_locks := [l\<lparr>vl_data := m\<rparr>]\<rparr>) = Inr (v\<lparr>vo_locks := []\<rparr>, Some msg)"
    using dim n(1,6) assms(3) st rs bs(1) by (simp add: vo_unlock_def l_def msg_def Let_def)
  have "0 + (d - 1) * (?n * h) + h * ?n \<le> length bs" using bs(2) n(10) by (cases d) (simp_all add: algebra_simps)
  then obtain res where r: "copy_slices ?n (rv_row r) h (rv_slice r) d pos 0 bs (rv_mem r) = Inr res"
    "\<forall>z < d. \<forall>y < h. \<forall>c < ?n. res ! (pos + z * rv_slice r + y * rv_row r + c) = bs ! (0 + z * (?n * h) + y * ?n + c)"
    using copy_slices_result [of d h 0 ?n bs pos "rv_slice r" "rv_row r" "rv_mem r"] assms(5-7) by blast
  have serve: "on_Volume9_UnlockBox pos msg r = Inr (r\<lparr>rv_mem := res\<rparr>)"
    using st rs n(6) r(1) by (simp add: on_Volume9_UnlockBox_def msg_def Let_def)
  have all: "res ! (pos + z * rv_slice r + y * rv_row r + c) = m ! (z * h + y * w + c)" if "z < d" "y < h" "c < ?n" for z y c
    using r(2) [rule_format, OF that] bs(3) [rule_format, OF that] by (simp add: algebra_simps)
  have "res ! (pos + z * rv_slice r + y * rv_row r + (w + j)) = res ! (pos + z * rv_slice r + (y + 1) * rv_row r + j)"
    if "z < d" "y < h - 1" "j < ?n - w" for z y j
    using all [of z y "w + j"] all [of z "y + 1" j] that by (simp add: algebra_simps)
  then show ?thesis using lock unlock serve all
    by (intro exI [of _ l] exI [of _ "v\<lparr>vo_locks := [l]\<rparr>"] exI [of _ "v\<lparr>vo_locks := []\<rparr>"] exI [of _ msg] exI [of _ "r\<lparr>rv_mem := res\<rparr>"]) simp
qed

text \<open>A volume of 2 by 2 by 1 pixels of four bytes: the third and fourth byte of every row are the first two of the next.\<close>

definition demo_volume :: volume where
  "demo_volume = \<lparr>vo_Width = 2, vo_Height = 2, vo_Depth = 1, vo_Format = 21, vo_locks = []\<rparr>"

definition demo_box :: BOX where
  "demo_box = \<lparr>bx_Left = 0, bx_Top = 0, bx_Right = 2, bx_Bottom = 2, bx_Front = 0, bx_Back = 1\<rparr>"

theorem volume_rows_overlap_witness:
  "\<exists>l v1 v2 msg r'. vo_lock (\<lambda>_. []) (Some demo_box) 0 demo_volume = Inr v1 \<and> vo_locks v1 = [l]
    \<and> vo_unlock (v1\<lparr>vo_locks := [l\<lparr>vl_data := [0, 1, 2, 3, 4, 5, 6, 7, 8, 9, 10, 11, 12, 13, 14, 15]\<rparr>]\<rparr>) = Inr (v2, Some msg)
    \<and> on_Volume9_UnlockBox 0 msg \<lparr>rv_row = 8, rv_slice = 16, rv_mem = replicate 16 0\<rparr> = Inr r' \<and> rv_mem r' ! 9 = 3 \<and> rv_mem r' ! 3 = rv_mem r' ! 9"
proof -
  let ?m = "[0, 1, 2, 3, 4, 5, 6, 7, 8, 9, 10, 11, 12, 13, 14, 15] :: memory" and ?r = "\<lparr>rv_row = 8, rv_slice = 16, rv_mem = replicate 16 0\<rparr> :: rt_volume"
  have n: "box_nums 4 demo_box demo_volume (2, 2, 1)"
    by (simp add: box_nums_def getBoxDimensions_def demo_box_def demo_volume_def blocks_def demo_format)
  obtain l v1 v2 msg r' where u: "vo_lock (\<lambda>_. []) (Some demo_box) 0 demo_volume = Inr v1" "vo_locks v1 = [l]"
    "vo_unlock (v1\<lparr>vo_locks := [l\<lparr>vl_data := ?m\<rparr>]\<rparr>) = Inr (v2, Some msg)" "on_Volume9_UnlockBox 0 msg ?r = Inr r'"
    and c: "\<forall>z < 1. \<forall>y < 2. \<forall>c < 2 * unat (4 :: u32). rv_mem r' ! (0 + z * rv_slice ?r + y * rv_row ?r + c) = ?m ! (z * 2 + y * 2 + c)"
    using volume_rows_overlap [OF n, of 0 ?m ?r 0 "\<lambda>_. []"] by (auto simp: demo_volume_def)
  have "rv_mem r' ! 9 = 3" "rv_mem r' ! 3 = rv_mem r' ! 9"
    using c [rule_format, of 0 1 1] c [rule_format, of 0 0 3] by simp_all
  then show ?thesis using u by blast
qed

end
