(* ===== verification/Ref_Counts.thy ===== *)
theory Ref_Counts
  imports Device_State
begin

text \<open>
  The life of the wrappers (\<open>client/base.h\<close>): the two reference counts of \<open>D3DRefCounted\<close> that are kept in one word, \<open>D3DBase\<close> with
  its parent and its children, and \<open>D3DAutoPtr\<close>, by which devices and state blocks hold the objects that are bound.  The override of
  \<open>AddRef\<close> and \<open>Release\<close> by the device, which takes away the references of its implicit objects, is left out.
\<close>

section \<open>The fused counter\<close>

datatype Ref = Object | Interface

definition RefBitwidth :: nat where "RefBitwidth = 16"

definition toRefValue :: "Ref \<Rightarrow> u32 \<Rightarrow> u32" where
  "toRefValue r cnt = drop_bit (case r of Object \<Rightarrow> 0 | Interface \<Rightarrow> RefBitwidth) cnt AND mask RefBitwidth"

definition toAdjValue :: "Ref \<Rightarrow> u32 \<Rightarrow> u32" where
  "toAdjValue r v = (case r of Interface \<Rightarrow> v OR push_bit RefBitwidth v | Object \<Rightarrow> v)"

text \<open>\<open>incRef\<close>: the count and the new word.  \<open>decRef\<close>: the count, the new word, and whether the deleter is called.\<close>

definition incRef :: "Ref \<Rightarrow> u32 \<Rightarrow> u32 \<times> u32" where
  "incRef r m_fusedRefCnt = (let c = m_fusedRefCnt + toAdjValue r 1 in (toRefValue r c, c))"

definition decRef :: "Ref \<Rightarrow> u32 \<Rightarrow> u32 \<times> u32 \<times> bool" where
  "decRef r m_fusedRefCnt = (let c = m_fusedRefCnt - toAdjValue r 1; cnt = toRefValue r c in
     if cnt \<noteq> 0 then (cnt, c, False) else (0, c, toRefValue Object c = 0))"

section \<open>Objects\<close>

text \<open>\<open>slots\<close> are the members of type \<open>D3DAutoPtr\<close>; an object that is not there has been deleted.  The number of an object is its id.  The base
  \<open>D3DRefCounted\<close> of an object refers to a counter, its own or the one of its container: \<open>m_counter\<close> is the object in which that counter lies, and which
  the deleter destroys.\<close>

record d3d_object =
  m_fusedRefCnt :: u32
  m_counter :: nat
  m_pParent :: "nat option"
  m_standalone :: bool
  m_kids :: "nat list"
  slots :: "nat option list"

type_synonym wrappers = "nat \<Rightarrow> d3d_object option"

text \<open>\<open>AddRef\<close> and \<open>Release\<close> go on to the parent.  The first argument bounds the length of the way, as a parent has a smaller id (\<open>getNextId\<close>); the
  run below takes one that is enough.\<close>

fun AddRef :: "nat \<Rightarrow> nat \<Rightarrow> wrappers \<Rightarrow> (u32 \<times> wrappers) or_error" where
  "AddRef 0 i s = Inl ProcessExit"
| "AddRef (Suc n) i s = (case s i of None \<Rightarrow> Inl NullDereference | Some x \<Rightarrow>
     if \<not> m_standalone x then (case m_pParent x of None \<Rightarrow> Inl NullDereference | Some p \<Rightarrow> AddRef n p s)
     else (case incRef Interface (m_fusedRefCnt x) of (cnt, c) \<Rightarrow>
       let s1 = s(i \<mapsto> x\<lparr>m_fusedRefCnt := c\<rparr>) in
       case m_pParent x of None \<Rightarrow> Inr (cnt, s1)
       | Some p \<Rightarrow> if cnt = 1 then bindE (AddRef n p s1) (\<lambda>(_, s2). Inr (cnt, s2)) else Inr (cnt, s1)))"

text \<open>\<open>destroy\<close>: the message of the object, those of its children, then its \<open>D3DAutoPtr\<close> members let go of their objects.  The results list the
  objects that were destroyed, in the order of their messages.\<close>

definition decRefObject :: "(nat \<Rightarrow> wrappers \<Rightarrow> (nat list \<times> wrappers) or_error) \<Rightarrow> nat \<Rightarrow> wrappers \<Rightarrow> (nat list \<times> wrappers) or_error" where
  "decRefObject destroyed i s = (case s i of None \<Rightarrow> Inl NullDereference | Some y \<Rightarrow> let r = m_counter y in
     (case s r of None \<Rightarrow> Inl NullDereference | Some x \<Rightarrow>
     (case decRef Object (m_fusedRefCnt x) of (_, c, deleter) \<Rightarrow>
       let s1 = s(r \<mapsto> x\<lparr>m_fusedRefCnt := c\<rparr>) in if deleter then destroyed r s1 else Inr ([], s1))))"

fun release_slots :: "(nat \<Rightarrow> wrappers \<Rightarrow> (nat list \<times> wrappers) or_error) \<Rightarrow> nat option list \<Rightarrow> wrappers \<Rightarrow> (nat list \<times> wrappers) or_error" where
  "release_slots destroyed [] s = Inr ([], s)"
| "release_slots destroyed (None # xs) s = release_slots destroyed xs s"
| "release_slots destroyed (Some x # xs) s = bindE (decRefObject destroyed x s) (\<lambda>(l, s1).
     bindE (release_slots destroyed xs s1) (\<lambda>(l2, s2). Inr (l @ l2, s2)))"

primrec destroy :: "nat \<Rightarrow> nat \<Rightarrow> wrappers \<Rightarrow> (nat list \<times> wrappers) or_error" where
  "destroy 0 = (\<lambda>i s. Inl ProcessExit)"
| "destroy (Suc n) = (\<lambda>i s. case s i of None \<Rightarrow> Inl NullDereference | Some x \<Rightarrow>
     bindE (release_slots (destroy n) (slots x) (\<lambda>j. if j = i \<or> j \<in> set (m_kids x) then None else s j))
       (\<lambda>(l, s1). Inr (i # m_kids x @ l, s1)))"

fun Release :: "nat \<Rightarrow> nat \<Rightarrow> wrappers \<Rightarrow> (u32 \<times> nat list \<times> wrappers) or_error" where
  "Release 0 i s = Inl ProcessExit"
| "Release (Suc n) i s = (case s i of None \<Rightarrow> Inl NullDereference | Some x \<Rightarrow>
     if \<not> m_standalone x then (case m_pParent x of None \<Rightarrow> Inl NullDereference | Some p \<Rightarrow> Release n p s)
     else if toRefValue Interface (m_fusedRefCnt x) = 0 then Inr (0, [], s)
     else (case decRef Interface (m_fusedRefCnt x) of (cnt, c, deleter) \<Rightarrow>
       bindE (let s1 = s(i \<mapsto> x\<lparr>m_fusedRefCnt := c\<rparr>) in if deleter then destroy 2 i s1 else Inr ([], s1)) (\<lambda>(l, s2).
         case m_pParent x of None \<Rightarrow> Inr (cnt, l, s2)
         | Some p \<Rightarrow> if cnt = 0 then bindE (Release n p s2) (\<lambda>(_, l2, s3). Inr (cnt, l @ l2, s3)) else Inr (cnt, l, s2))))"

text \<open>The constructors, with \<open>onConstruct\<close>; a child takes its reference on the container.\<close>

definition new_object :: "nat \<Rightarrow> nat option \<Rightarrow> nat \<Rightarrow> wrappers \<Rightarrow> wrappers or_error" where
  "new_object i pParent n s = bindE (AddRef (Suc i) i (s(i \<mapsto> \<lparr>m_fusedRefCnt = 0, m_counter = i, m_pParent = pParent, m_standalone = True, m_kids = [],
     slots = replicate n None\<rparr>))) (\<lambda>(_, s1). Inr s1)"

definition new_child :: "nat \<Rightarrow> nat \<Rightarrow> wrappers \<Rightarrow> wrappers or_error" where
  "new_child i container s = (case s container of None \<Rightarrow> Inl NullDereference | Some x \<Rightarrow>
     bindE (AddRef (Suc i) i (s(i \<mapsto> \<lparr>m_fusedRefCnt = 0, m_counter = m_counter x, m_pParent = Some container, m_standalone = False, m_kids = [], slots = []\<rparr>,
       container \<mapsto> x\<lparr>m_kids := m_kids x @ [i]\<rparr>))) (\<lambda>(_, s1). Inr s1))"

text \<open>\<open>D3DAutoPtr\<close>.  \<open>reset\<close> lets go of the old object first; the assignment of \<open>MakeD3DAutoPtr\<close> takes the new reference before
  the old one is let go.\<close>

definition incRefObject :: "nat \<Rightarrow> wrappers \<Rightarrow> wrappers or_error" where
  "incRefObject i s = (case s i of None \<Rightarrow> Inl NullDereference | Some y \<Rightarrow> let r = m_counter y in
     (case s r of None \<Rightarrow> Inl NullDereference | Some x \<Rightarrow> Inr (s(r \<mapsto> x\<lparr>m_fusedRefCnt := snd (incRef Object (m_fusedRefCnt x))\<rparr>))))"

definition set_slot :: "nat \<Rightarrow> nat \<Rightarrow> nat option \<Rightarrow> wrappers \<Rightarrow> wrappers" where
  "set_slot h k v s = (case s h of None \<Rightarrow> s | Some x \<Rightarrow> s(h \<mapsto> x\<lparr>slots := (slots x)[k := v]\<rparr>))"

definition get_slot :: "nat \<Rightarrow> nat \<Rightarrow> wrappers \<Rightarrow> nat option or_error" where
  "get_slot h k s = (case s h of None \<Rightarrow> Inl NullDereference | Some x \<Rightarrow> getE (slots x) k)"

definition assign_ptr :: "nat \<Rightarrow> nat \<Rightarrow> nat option \<Rightarrow> wrappers \<Rightarrow> (nat list \<times> wrappers) or_error" where
  "assign_ptr h k v s = bindE (get_slot h k s) (\<lambda>old.
     bindE (case v of None \<Rightarrow> Inr s | Some i \<Rightarrow> incRefObject i s) (\<lambda>s1.
     bindE (release_slots (destroy 2) [old] s1) (\<lambda>(l, s2). Inr (l, set_slot h k v s2))))"

definition reset_ptr :: "nat \<Rightarrow> nat \<Rightarrow> nat option \<Rightarrow> wrappers \<Rightarrow> (nat list \<times> wrappers) or_error" where
  "reset_ptr h k v s = bindE (get_slot h k s) (\<lambda>old.
     bindE (release_slots (destroy 2) [old] s) (\<lambda>(l, s1).
     bindE (case v of None \<Rightarrow> Inr s1 | Some i \<Rightarrow> incRefObject i s1) (\<lambda>s2. Inr (l, set_slot h k v s2))))"

section \<open>The two counts\<close>

definition obc :: "u32 \<Rightarrow> nat" where "obc c = unat c mod 65536"
definition ifc :: "u32 \<Rightarrow> nat" where "ifc c = unat c div 65536"

lemma unat_less_32: "unat (c :: u32) < 2 ^ 32"
  using unsigned_less [of c] by simp

lemma unat_toRefValue: "unat (toRefValue Object c) = obc c" "unat (toRefValue Interface c) = ifc c"
proof -
  have "unat c div 65536 < 65536" using unat_less_32 [of c] by simp
  then show "unat (toRefValue Object c) = obc c" "unat (toRefValue Interface c) = ifc c"
    by (simp_all add: toRefValue_def RefBitwidth_def obc_def ifc_def unat_drop_bit_eq drop_bit_eq_div take_bit_eq_mod
        unat_mod unat_div flip: take_bit_eq_mask)
qed

lemma toRefValue_eq_0: "toRefValue Interface c = 0 \<longleftrightarrow> ifc c = 0" "toRefValue Object c = 0 \<longleftrightarrow> obc c = 0"
  using unat_toRefValue [of c] by (metis unat_eq_zero)+

lemma toAdjValue_1: "toAdjValue Object 1 = 1" "toAdjValue Interface 1 = 65537"
  by (simp_all add: toAdjValue_def RefBitwidth_def push_bit_eq_mult)

lemma counts_less: "obc c < 65536" "ifc c < 65536"
  using unat_less_32 [of c] by (simp_all add: obc_def ifc_def)

lemma counts_of: "unat c = 65536 * i + k \<Longrightarrow> k < 65536 \<Longrightarrow> obc c = k \<and> ifc c = i"
  by (simp add: obc_def ifc_def)

lemma unat_counts: "unat c = 65536 * ifc c + obc c"
  by (simp add: obc_def ifc_def)

lemma inc_counts:
  assumes "obc c + 1 < 65536"
  shows "obc (c + 1) = obc c + 1 \<and> ifc (c + 1) = ifc c"
    and "ifc c + 1 < 65536 \<Longrightarrow> obc (c + 65537) = obc c + 1 \<and> ifc (c + 65537) = ifc c + 1"
proof -
  have "unat (c + 1) = 65536 * ifc c + (obc c + 1)" using assms counts_less(2) [of c] unat_counts [of c]
    by (simp add: unat_word_ariths)
  then show "obc (c + 1) = obc c + 1 \<and> ifc (c + 1) = ifc c" using assms by (rule counts_of)
  assume "ifc c + 1 < 65536"
  then have "unat (c + 65537) = 65536 * (ifc c + 1) + (obc c + 1)" using assms unat_counts [of c]
    by (simp add: unat_word_ariths)
  then show "obc (c + 65537) = obc c + 1 \<and> ifc (c + 65537) = ifc c + 1" using assms by (rule counts_of)
qed

lemma dec_counts:
  assumes "0 < obc c"
  shows "obc (c - 1) = obc c - 1 \<and> ifc (c - 1) = ifc c"
    and "0 < ifc c \<Longrightarrow> obc (c - 65537) = obc c - 1 \<and> ifc (c - 65537) = ifc c - 1"
proof -
  have "unat (c - 1) = 65536 * ifc c + (obc c - 1)" using assms unat_counts [of c]
    by (simp add: unat_sub word_le_nat_alt)
  then show "obc (c - 1) = obc c - 1 \<and> ifc (c - 1) = ifc c" using counts_less(1) [of c] by (intro counts_of) simp_all
  assume "0 < ifc c"
  then have "65537 \<le> unat c" using assms unat_counts [of c] by linarith
  then have "unat (c - 65537) = unat c - 65537" by (subst unat_sub) (simp_all add: word_le_nat_alt)
  then have "unat (c - 65537) = 65536 * (ifc c - 1) + (obc c - 1)" using assms \<open>0 < ifc c\<close> unat_counts [of c] by linarith
  then show "obc (c - 65537) = obc c - 1 \<and> ifc (c - 65537) = ifc c - 1" using counts_less(1) [of c] by (intro counts_of) simp_all
qed

lemma incRef_Interface:
  assumes "obc c + 1 < 65536" and "ifc c + 1 < 65536"
  shows "\<exists>cnt c'. incRef Interface c = (cnt, c') \<and> obc c' = obc c + 1 \<and> ifc c' = ifc c + 1 \<and> (cnt = 1 \<longleftrightarrow> ifc c = 0)"
proof -
  have "unat (toRefValue Interface (c + 65537)) = ifc c + 1" using inc_counts(2) [OF assms] unat_toRefValue(2) by simp
  then have "toRefValue Interface (c + 65537) = 1 \<longleftrightarrow> ifc c = 0" by (simp add: word_unat_eq_iff)
  then show ?thesis using inc_counts(2) [OF assms] by (simp add: incRef_def toAdjValue_1 Let_def)
qed

lemma decRef_Interface:
  assumes "0 < obc c" and "0 < ifc c" and "ifc c \<le> obc c"
  shows "\<exists>cnt c'. decRef Interface c = (cnt, c', obc c = 1) \<and> obc c' = obc c - 1 \<and> ifc c' = ifc c - 1 \<and> (cnt = 0 \<longleftrightarrow> ifc c = 1)"
  using dec_counts(2) [OF assms(1,2)] assms(2,3)
  by (auto simp: decRef_def toAdjValue_1 toRefValue_eq_0 Let_def)

lemma decRef_Object:
  assumes "0 < obc c"
  shows "\<exists>cnt c'. decRef Object c = (cnt, c', obc c = 1) \<and> obc c' = obc c - 1 \<and> ifc c' = ifc c"
  using dec_counts(1) [OF assms] assms by (auto simp: decRef_def toAdjValue_1 toRefValue_eq_0 Let_def)

lemma incRef_Object: "obc c + 1 < 65536 \<Longrightarrow> obc (snd (incRef Object c)) = obc c + 1 \<and> ifc (snd (incRef Object c)) = ifc c"
  using inc_counts(1) [of c] by (simp add: incRef_def toAdjValue_1 Let_def)

section \<open>The members of the objects, by id\<close>

definition sa :: "wrappers \<Rightarrow> nat \<Rightarrow> bool" where
  "sa s i = (case s i of None \<Rightarrow> False | Some x \<Rightarrow> m_standalone x)"

definition par :: "wrappers \<Rightarrow> nat \<Rightarrow> nat option" where
  "par s i = (case s i of None \<Rightarrow> None | Some x \<Rightarrow> m_pParent x)"

definition ctr :: "wrappers \<Rightarrow> nat \<Rightarrow> nat" where
  "ctr s i = (case s i of None \<Rightarrow> 0 | Some x \<Rightarrow> m_counter x)"

definition kd :: "wrappers \<Rightarrow> nat \<Rightarrow> nat list" where
  "kd s i = (case s i of None \<Rightarrow> [] | Some x \<Rightarrow> m_kids x)"

definition sl :: "wrappers \<Rightarrow> nat \<Rightarrow> nat option list" where
  "sl s i = (case s i of None \<Rightarrow> [] | Some x \<Rightarrow> slots x)"

definition obs :: "wrappers \<Rightarrow> nat \<Rightarrow> nat" where
  "obs s i = (case s i of None \<Rightarrow> 0 | Some x \<Rightarrow> obc (m_fusedRefCnt x))"

definition ifs :: "wrappers \<Rightarrow> nat \<Rightarrow> nat" where
  "ifs s i = (case s i of None \<Rightarrow> 0 | Some x \<Rightarrow> ifc (m_fusedRefCnt x))"

definition fused :: "wrappers \<Rightarrow> nat \<Rightarrow> u32" where
  "fused s i = (case s i of None \<Rightarrow> 0 | Some x \<Rightarrow> m_fusedRefCnt x)"

lemmas members = sa_def par_def ctr_def kd_def sl_def obs_def ifs_def fused_def

lemma sa_dom: "sa s i \<Longrightarrow> i \<in> dom s"
  by (auto simp: sa_def split: option.splits)

lemma members_outside: "i \<notin> dom s \<Longrightarrow> par s i = None \<and> kd s i = [] \<and> sl s i = [] \<and> obs s i = 0 \<and> ifs s i = 0"
  by (simp add: members domIff)

text \<open>A change of counts, and the removal of objects.\<close>

definition put :: "nat \<Rightarrow> u32 \<Rightarrow> wrappers \<Rightarrow> wrappers" where
  "put i c s = (\<lambda>j. map_option (\<lambda>x. x\<lparr>m_fusedRefCnt := if j = i then c else m_fusedRefCnt x\<rparr>) (s j))"

definition cut :: "nat set \<Rightarrow> wrappers \<Rightarrow> wrappers" where
  "cut X s = (\<lambda>j. if j \<in> X then None else s j)"

lemma put_Some: "s i = Some x \<Longrightarrow> s(i \<mapsto> x\<lparr>m_fusedRefCnt := c\<rparr>) = put i c s"
  by (auto simp: put_def fun_eq_iff map_option.identity)

lemma put_members [simp]:
  "sa (put i c s) j = sa s j" "par (put i c s) j = par s j" "ctr (put i c s) j = ctr s j" "kd (put i c s) j = kd s j" "sl (put i c s) j = sl s j"
  "obs (put i c s) j = (if j = i \<and> i \<in> dom s then obc c else obs s j)" "ifs (put i c s) j = (if j = i \<and> i \<in> dom s then ifc c else ifs s j)"
  "dom (put i c s) = dom s"
  by (auto simp: members put_def split: option.splits)

lemma cut_members [simp]:
  "sa (cut X s) j = (j \<notin> X \<and> sa s j)" "par (cut X s) j = (if j \<in> X then None else par s j)" "ctr (cut X s) j = (if j \<in> X then 0 else ctr s j)"
  "kd (cut X s) j = (if j \<in> X then [] else kd s j)" "sl (cut X s) j = (if j \<in> X then [] else sl s j)"
  "obs (cut X s) j = (if j \<in> X then 0 else obs s j)" "ifs (cut X s) j = (if j \<in> X then 0 else ifs s j)" "dom (cut X s) = dom s - X"
  by (auto simp: members cut_def split: if_splits)

lemma cut_put: "i \<in> X \<Longrightarrow> cut X (put i c s) = cut X s"
  by (auto simp: cut_def put_def fun_eq_iff map_option_case split: option.split)

end
