(* ===== verification/Ref_Life.thy ===== *)
theory Ref_Life
  imports Ref_Counts
begin

text \<open>
  Who keeps the wrappers alive: the two counts of an object are the references of the application, of its active children and of the
  \<open>D3DAutoPtr\<close> members that hold it, and every operation keeps it so.
\<close>

declare destroy.simps(2) [simp del]

section \<open>The references\<close>

definition act :: "wrappers \<Rightarrow> nat \<Rightarrow> nat set" where
  "act s p = {j. sa s j \<and> par s j = Some p \<and> 0 < ifs s j}"

definition held :: "wrappers \<Rightarrow> nat \<Rightarrow> (nat \<times> nat) set" where
  "held s c = {(h, k). k < length (sl s h) \<and> (\<exists>i. sl s h ! k = Some i \<and> ctr s i = c)}"

text \<open>Slots of an object that is gone are still to be released; they count too.\<close>

definition pend :: "wrappers \<Rightarrow> nat option list \<Rightarrow> nat \<Rightarrow> nat" where
  "pend s ps c = length (filter (\<lambda>v. \<exists>x. v = Some x \<and> ctr s x = c) ps)"

text \<open>The structure of the objects, whatever their counts: parents are older, containers and children know each other, what is held holds nothing and
  belongs to its holder or to the same device.\<close>

definition shape :: "wrappers \<Rightarrow> bool" where
  "shape s \<longleftrightarrow> finite (dom s)
     \<and> (\<forall>i p. par s i = Some p \<longrightarrow> p < i)
     \<and> (\<forall>i \<in> dom s. \<not> sa s i \<longrightarrow> sl s i = [] \<and> par s i = Some (ctr s i) \<and> sa s (ctr s i) \<and> i \<in> set (kd s (ctr s i)))
     \<and> (\<forall>i. sa s i \<longrightarrow> ctr s i = i)
     \<and> (\<forall>i. distinct (kd s i))
     \<and> (\<forall>i. \<forall>k \<in> set (kd s i). k \<in> dom s \<and> \<not> sa s k \<and> par s k = Some i)
     \<and> (\<forall>h k i. k < length (sl s h) \<and> sl s h ! k = Some i \<longrightarrow>
          i \<in> dom s \<and> sl s (ctr s i) = [] \<and> (par s (ctr s i) = Some h \<or> par s (ctr s i) = par s h))"

lemma shapeD:
  assumes "shape s"
  shows "finite (dom s)" and "par s i = Some p \<Longrightarrow> p < i"
    and "i \<in> dom s \<Longrightarrow> \<not> sa s i \<Longrightarrow> sl s i = [] \<and> par s i = Some (ctr s i) \<and> sa s (ctr s i) \<and> i \<in> set (kd s (ctr s i))"
    and "sa s i \<Longrightarrow> ctr s i = i" and "k \<in> set (kd s i) \<Longrightarrow> k \<in> dom s \<and> \<not> sa s k \<and> par s k = Some i"
    and "n < length (sl s h) \<Longrightarrow> sl s h ! n = Some i \<Longrightarrow>
      i \<in> dom s \<and> sl s (ctr s i) = [] \<and> (par s (ctr s i) = Some h \<or> par s (ctr s i) = par s h)"
    and "distinct (kd s i)"
  using assms unfolding shape_def by blast+

lemma ctr_sa: "shape s \<Longrightarrow> i \<in> dom s \<Longrightarrow> sa s (ctr s i)"
  using shapeD(3,4) by (cases "sa s i") auto

lemma kd_ctr: "shape s \<Longrightarrow> k \<in> set (kd s i) \<Longrightarrow> ctr s k = i"
  using shapeD(3,5) by (metis option.inject)

lemma shape_put [simp]: "shape (put i c s) = shape s"
  by (simp add: shape_def)

lemma pend_put [simp]: "pend (put i c s) ps j = pend s ps j"
  by (simp add: pend_def)

lemma pend_simps [simp]:
  "pend s [] c = 0" "pend s (None # ps) c = pend s ps c" "pend s (Some x # ps) c = of_bool (ctr s x = c) + pend s ps c"
  "pend s (ps @ qs) c = pend s ps c + pend s qs c"
  by (simp_all add: pend_def)

lemma held_put [simp]: "held (put i c s) j = held s j"
  by (simp add: held_def)

lemma finite_act: "shape s \<Longrightarrow> finite (act s p)"
  by (rule finite_subset [OF _ shapeD(1) [of s]]) (auto simp: act_def dest: sa_dom)

lemma finite_held: "shape s \<Longrightarrow> finite (held s i)"
proof (rule finite_subset)
  have "h \<in> dom s" if "k < length (sl s h)" for h k using that members_outside [of h s] by (cases "h \<in> dom s") simp_all
  then show "held s i \<subseteq> (SIGMA h : dom s. {..< length (sl s h)})" unfolding held_def by blast
  show "shape s \<Longrightarrow> finite (SIGMA h : dom s. {..< length (sl s h)})" by (simp add: shapeD(1))
qed

lemma card_act_put:
  assumes sh: "shape s" and i: "sa s i"
  shows "int (card (act (put i c s) j)) = int (card (act s j)) + (if par s i = Some j then of_bool (0 < ifc c) - of_bool (0 < ifs s i) else 0)"
proof -
  have mem: "i \<in> act s j \<longleftrightarrow> par s i = Some j \<and> 0 < ifs s i" using i by (simp add: act_def)
  have "act (put i c s) j = (if par s i = Some j then (if 0 < ifc c then insert i (act s j) else act s j - {i}) else act s j)"
    using i sa_dom [OF i] by (auto simp: act_def)
  moreover have "i \<in> act s j \<Longrightarrow> 1 \<le> card (act s j)" using finite_act [OF sh] by (metis One_nat_def Suc_leI card_gt_0_iff empty_iff)
  ultimately show ?thesis using mem finite_act [OF sh, of j] by (auto simp: insert_absorb card_Diff_singleton of_nat_diff)
qed

section \<open>The invariant\<close>

text \<open>\<open>e i\<close> are the references to \<open>i\<close> that are not from active children; the counts of the objects of \<open>X\<close> are exempt, and \<open>ps\<close> are the
  slots that are about to be released.\<close>

definition counted :: "nat set \<Rightarrow> (nat \<Rightarrow> int) \<Rightarrow> nat option list \<Rightarrow> wrappers \<Rightarrow> bool" where
  "counted X e ps s \<longleftrightarrow> shape s
     \<and> (\<forall>i p. sa s i \<and> 0 < ifs s i \<and> par s i = Some p \<longrightarrow> sa s p)
     \<and> (\<forall>x. Some x \<in> set ps \<longrightarrow> x \<in> dom s \<and> sl s (ctr s x) = [])
     \<and> (\<forall>j. sa s j \<and> j \<notin> X \<longrightarrow> int (ifs s j) = e j + int (card (act s j)) \<and> obs s j = ifs s j + card (held s j) + pend s ps j \<and> 0 < obs s j)"

lemma countedD:
  assumes "counted X e ps s"
  shows "shape s" and "sa s i \<Longrightarrow> 0 < ifs s i \<Longrightarrow> par s i = Some p \<Longrightarrow> sa s p"
    and "Some x \<in> set ps \<Longrightarrow> x \<in> dom s \<and> sl s (ctr s x) = []"
    and "sa s j \<Longrightarrow> j \<notin> X \<Longrightarrow> int (ifs s j) = e j + int (card (act s j)) \<and> obs s j = ifs s j + card (held s j) + pend s ps j \<and> 0 < obs s j"
  using assms unfolding counted_def by blast+

lemma counted_put:
  assumes c: "counted X e ps s" and i: "sa s i" and X: "X \<subseteq> {i}"
    and ob: "obc w = ifc w + card (held s i) + pend s qs i" and pos: "0 < obc w"
    and live: "\<And>p. 0 < ifc w \<Longrightarrow> par s i = Some p \<Longrightarrow> sa s p"
    and qs: "\<And>x. Some x \<in> set qs \<Longrightarrow> x \<in> dom s \<and> sl s (ctr s x) = []" and other: "\<And>j. j \<noteq> i \<Longrightarrow> pend s qs j = pend s ps j"
    and e: "\<And>j. f j = (if j = i then int (ifc w) - int (card (act s i))
      else e j + (if par s i = Some j then of_bool (0 < ifs s i) - of_bool (0 < ifc w) else 0))"
  shows "counted {} f qs (put i w s)"
proof -
  note sh = countedD(1) [OF c]
  have self: "par s i \<noteq> Some i" using shapeD(2) [OF sh, of i i] by blast
  have "int (ifs (put i w s) j) = f j + int (card (act (put i w s) j)) \<and> obs (put i w s) j = ifs (put i w s) j + card (held s j) + pend s qs j
      \<and> 0 < obs (put i w s) j" if j: "sa s j" for j
    using countedD(4) [OF c j] X ob pos other [of j] e [of j] card_act_put [OF sh i, of w j] sa_dom [OF i] self by (cases "j = i") auto
  moreover have "sa s p" if "sa s j" "0 < ifs (put i w s) j" "par s j = Some p" for j p
    using that countedD(2) [OF c, of j p] live [of p] by (cases "j = i") (auto split: if_splits)
  ultimately show ?thesis using sh qs unfolding counted_def shape_put pend_put held_put put_members(1-3,5,8) by blast
qed

section \<open>The destruction of an object\<close>

text \<open>An object to which nothing refers may go, with its children; its slots become pending.\<close>

lemma cut_shape:
  assumes sh: "shape s" and r: "sa s r" and held: "held s r = {}"
  shows "shape (cut (insert r (set (kd s r))) s)" and "\<And>h k i. h \<notin> insert r (set (kd s r)) \<Longrightarrow> k < length (sl s h) \<Longrightarrow> sl s h ! k = Some i \<Longrightarrow>
    i \<notin> insert r (set (kd s r)) \<and> ctr s i \<notin> insert r (set (kd s r))"
proof -
  let ?X = "insert r (set (kd s r))"
  have kids: "\<not> sa s k" "ctr s k = r" if "k \<in> set (kd s r)" for k using that shapeD(5) [OF sh] kd_ctr [OF sh] by blast+
  have ref: "i \<notin> ?X \<and> ctr s i \<notin> ?X" if "k < length (sl s h)" "sl s h ! k = Some i" for h k i
  proof -
    have "ctr s i \<noteq> r" using that held by (auto simp: held_def)
    moreover have "sa s (ctr s i)" using shapeD(6) [OF sh that] ctr_sa [OF sh] by blast
    ultimately show ?thesis using kids shapeD(4) [OF sh r] by auto
  qed
  then show "\<And>h k i. h \<notin> ?X \<Longrightarrow> k < length (sl s h) \<Longrightarrow> sl s h ! k = Some i \<Longrightarrow> i \<notin> ?X \<and> ctr s i \<notin> ?X" by blast
  have cont: "ctr s i \<notin> ?X" if "i \<in> dom s" "\<not> sa s i" "i \<notin> ?X" for i
    using shapeD(3) [OF sh that(1,2)] that(3) kids by auto
  have kid: "k \<notin> ?X" if "k \<in> set (kd s i)" "i \<notin> ?X" for i k
    using shapeD(5) [OF sh that(1)] that(2) r shapeD(5) [OF sh, of k r] by auto
  show "shape (cut ?X s)"
    unfolding shape_def cut_members
  proof (intro conjI allI ballI impI)
    show "finite (dom s - ?X)" using shapeD(1) [OF sh] by simp
  next
    fix i p assume "(if i \<in> ?X then None else par s i) = Some p"
    then show "p < i" using shapeD(2) [OF sh] by (auto split: if_splits)
  next
    fix i assume i: "i \<in> dom s - ?X" "\<not> (i \<notin> ?X \<and> sa s i)"
    then have n: "\<not> sa s i" and d: "i \<in> dom s" "i \<notin> ?X" by auto
    note c = shapeD(3) [OF sh d(1) n] cont [OF d(1) n d(2)]
    show "(if i \<in> ?X then [] else sl s i) = []" using c by simp
    show "(if i \<in> ?X then None else par s i) = Some (if i \<in> ?X then 0 else ctr s i)" using c d(2) by simp
    show "(if i \<in> ?X then 0 else ctr s i) \<notin> ?X" using c d(2) by simp
    show "sa s (if i \<in> ?X then 0 else ctr s i)" using c d(2) by simp
    show "i \<in> set (if (if i \<in> ?X then 0 else ctr s i) \<in> ?X then [] else kd s (if i \<in> ?X then 0 else ctr s i))" using c d(2) by simp
  next
    fix i assume "i \<notin> ?X \<and> sa s i"
    then show "(if i \<in> ?X then 0 else ctr s i) = i" using shapeD(4) [OF sh] by simp
  next
    fix i show "distinct (if i \<in> ?X then [] else kd s i)" using shapeD(7) [OF sh] by simp
  next
    fix i k assume "k \<in> set (if i \<in> ?X then [] else kd s i)"
    then have k: "k \<in> set (kd s i)" "i \<notin> ?X" by (auto split: if_splits)
    note c = shapeD(5) [OF sh k(1)] kid [OF k]
    show "k \<in> dom s - ?X" "\<not> (k \<notin> ?X \<and> sa s k)" "(if k \<in> ?X then None else par s k) = Some i" using c by simp_all
  next
    fix h k i assume "k < length (if h \<in> ?X then [] else sl s h) \<and> (if h \<in> ?X then [] else sl s h) ! k = Some i"
    then have k: "k < length (sl s h)" "sl s h ! k = Some i" and h: "h \<notin> ?X" by (auto split: if_splits)
    note c = shapeD(6) [OF sh k] ref [OF k] h
    show "i \<in> dom s - ?X" using c by simp
    show "(if (if i \<in> ?X then 0 else ctr s i) \<in> ?X then [] else sl s (if i \<in> ?X then 0 else ctr s i)) = []" using c by simp
    show "(if (if i \<in> ?X then 0 else ctr s i) \<in> ?X then None else par s (if i \<in> ?X then 0 else ctr s i)) = Some h
      \<or> (if (if i \<in> ?X then 0 else ctr s i) \<in> ?X then None else par s (if i \<in> ?X then 0 else ctr s i)) = (if h \<in> ?X then None else par s h)"
      using c by simp
  qed
qed

lemma cut_held:
  assumes sh: "shape s" and r: "sa s r" and none: "held s r = {}"
  shows "card (held s j) = card (held (cut (insert r (set (kd s r))) s) j) + pend s (sl s r) j"
proof -
  let ?X = "insert r (set (kd s r))"
  let ?own = "(\<lambda>k. (r, k)) ` {k. k < length (sl s r) \<and> (\<exists>i. sl s r ! k = Some i \<and> ctr s i = j)}"
  have kids: "sl s k = []" if "k \<in> set (kd s r)" for k using that shapeD(5) [OF sh that] shapeD(3) [OF sh] by blast
  have un: "held s j = held (cut ?X s) j \<union> ?own"
  proof (intro equalityI subsetI)
    fix x assume x: "x \<in> held s j"
    obtain h k i where hk: "x = (h, k)" "k < length (sl s h)" "sl s h ! k = Some i" "ctr s i = j" using x unfolding held_def by blast
    show "x \<in> held (cut ?X s) j \<union> ?own"
    proof (cases "h \<in> ?X")
      case True
      then have "h = r" using hk(2) kids by auto
      then show ?thesis using hk by auto
    next
      case False
      then show ?thesis using hk cut_shape(2) [OF sh r none False hk(2,3)] by (simp add: held_def)
    qed
  next
    fix x assume "x \<in> held (cut ?X s) j \<union> ?own"
    then show "x \<in> held s j"
    proof
      assume "x \<in> held (cut ?X s) j"
      then obtain h k i where hk: "x = (h, k)" "h \<notin> ?X" "k < length (sl s h)" "sl s h ! k = Some i" "ctr (cut ?X s) i = j"
        unfolding held_def by (auto split: if_splits)
      then show ?thesis using cut_shape(2) [OF sh r none hk(2,3,4)] by (auto simp: held_def)
    qed (auto simp: held_def)
  qed
  have "held (cut ?X s) j \<inter> ?own = {}" by (auto simp: held_def)
  moreover have "finite (held (cut ?X s) j)" by (rule finite_held [OF cut_shape(1) [OF sh r none]])
  ultimately have "card (held s j) = card (held (cut ?X s) j) + card ?own" unfolding un by (intro card_Un_disjoint) simp_all
  moreover have "card ?own = pend s (sl s r) j"
    by (subst card_image) (auto simp: inj_on_def pend_def length_filter_conv_card)
  ultimately show ?thesis by simp
qed

lemma counted_cut:
  assumes c: "counted {r} e ps s" and r: "sa s r" and none: "held s r = {}" "act s r = {}" "pend s ps r = 0"
    and f: "\<And>j. f j = e j + of_bool (par s r = Some j \<and> 0 < ifs s r)"
  shows "counted {} f (sl s r @ ps) (cut (insert r (set (kd s r))) s)"
proof -
  let ?X = "insert r (set (kd s r))"
  note sh = countedD(1) [OF c]
  have kids: "\<not> sa s k" "ctr s k = r" if "k \<in> set (kd s r)" for k using that shapeD(5) [OF sh] kd_ctr [OF sh] by blast+
  have stand: "j \<in> ?X \<longleftrightarrow> j = r" if "sa s j" for j using that kids by blast
  have ps: "x \<in> dom s \<and> sl s (ctr s x) = [] \<and> x \<notin> ?X \<and> ctr s x \<notin> ?X" if x: "Some x \<in> set (sl s r @ ps)" for x
  proof (cases "Some x \<in> set (sl s r)")
    case True
    then obtain k where k: "k < length (sl s r)" "sl s r ! k = Some x" by (metis in_set_conv_nth)
    then have "ctr s x \<noteq> r" using none(1) by (auto simp: held_def)
    then have "x \<notin> ?X" using kids shapeD(4) [OF sh r] by blast
    then show ?thesis using shapeD(6) [OF sh k] ctr_sa [OF sh] stand \<open>ctr s x \<noteq> r\<close> by blast
  next
    case False
    then have x: "Some x \<in> set ps" using x by simp
    have "ctr s x \<noteq> r" using x none(3) by (auto simp: pend_def filter_empty_conv)
    then have "x \<notin> ?X" using kids shapeD(4) [OF sh r] by blast
    then show ?thesis using countedD(3) [OF c x] ctr_sa [OF sh] stand \<open>ctr s x \<noteq> r\<close> by blast
  qed
  have pend: "pend (cut ?X s) (sl s r @ ps) j = pend s (sl s r @ ps) j" for j
    unfolding pend_def by (rule arg_cong [where f = length], rule filter_cong [OF refl]) (use ps in \<open>auto split: if_splits\<close>)
  have act: "act s j = act (cut ?X s) j \<union> (if par s r = Some j \<and> 0 < ifs s r then {r} else {})" "r \<notin> act (cut ?X s) j" for j
    using kids(1) r by (auto simp: act_def)
  have card: "int (card (act s j)) = int (card (act (cut ?X s) j)) + of_bool (par s r = Some j \<and> 0 < ifs s r)" for j
    using act(2) [of j] finite_act [OF cut_shape(1) [OF sh r none(1)], of j] by (subst act(1)) simp
  have live: "sa (cut ?X s) p" if "sa (cut ?X s) i" "0 < ifs (cut ?X s) i" "par (cut ?X s) i = Some p" for i p
  proof -
    have i: "sa s i" "0 < ifs s i" "par s i = Some p" using that by (auto split: if_splits)
    then have "p \<noteq> r" using none(2) by (auto simp: act_def)
    then show ?thesis using countedD(2) [OF c i] stand [of p] by simp
  qed
  have "int (ifs (cut ?X s) j) = f j + int (card (act (cut ?X s) j))
      \<and> obs (cut ?X s) j = ifs (cut ?X s) j + card (held (cut ?X s) j) + pend s (sl s r @ ps) j \<and> 0 < obs (cut ?X s) j"
    if j: "sa (cut ?X s) j" for j
  proof -
    have j: "sa s j" "j \<notin> ?X" using j by simp_all
    show ?thesis using countedD(4) [OF c j(1)] j(2) f [of j] card [of j] cut_held [OF sh r none(1), of j] by auto
  qed
  moreover have "x \<in> dom (cut ?X s) \<and> sl (cut ?X s) (ctr (cut ?X s) x) = []" if "Some x \<in> set (sl s r @ ps)" for x
    using ps [OF that] by simp
  ultimately show ?thesis using cut_shape(1) [OF sh r none(1)] live unfolding counted_def pend by blast
qed

text \<open>What an operation leaves as it was.\<close>

definition rest :: "nat list \<Rightarrow> wrappers \<Rightarrow> wrappers \<Rightarrow> bool" where
  "rest l s t \<longleftrightarrow> distinct l \<and> set l \<subseteq> dom s \<and> dom t = dom s - set l
     \<and> (\<forall>i \<in> dom t. sa t i = sa s i \<and> par t i = par s i \<and> ctr t i = ctr s i \<and> kd t i = kd s i \<and> sl t i = sl s i)"

lemma rest_refl: "rest [] s s"
  by (simp add: rest_def)

lemma rest_put: "rest [] s (put i c s)"
  by (simp add: rest_def)

lemma rest_trans: "rest l s t \<Longrightarrow> rest l' t u \<Longrightarrow> rest (l @ l') s u"
  unfolding rest_def by auto

lemma rest_cut: "shape s \<Longrightarrow> sa s r \<Longrightarrow> rest (r # kd s r) s (cut (insert r (set (kd s r))) s)"
  using shapeD(5) [of s _ r] shapeD(7) [of s r] sa_dom [of s r] by (auto simp: rest_def)

lemma counted_exempt: "counted Y f ps s \<Longrightarrow> Y \<subseteq> X \<Longrightarrow> (\<And>j. j \<notin> X \<Longrightarrow> e j = f j) \<Longrightarrow> counted X e ps s"
  unfolding counted_def by auto

lemma counted_tail: "counted {} f (Some x # ps) s \<Longrightarrow> counted {ctr s x} f ps s"
  unfolding counted_def by auto

lemma parents_live:
  assumes c: "counted {} e [] s" and p: "par s i = Some p"
  shows "sa s p"
proof (cases "sa s i \<and> ifs s i = 0")
  case False
  have "i \<in> dom s" using p members_outside [of i s] by (cases "i \<in> dom s") simp_all
  then show ?thesis using False p countedD(2) [OF c, of i p] shapeD(3) [OF countedD(1) [OF c], of i] by (cases "sa s i") auto
next
  case True
  note sh = countedD(1) [OF c]
  have "held s i \<noteq> {}" using countedD(4) [OF c, of i] True by auto
  then obtain h k x where k: "k < length (sl s h)" "sl s h ! k = Some x" "ctr s x = i" by (auto simp: held_def)
  have h: "sa s h"
  proof (rule ccontr)
    assume "\<not> sa s h"
    moreover have "h \<in> dom s" using k(1) members_outside [of h s] by (cases "h \<in> dom s") simp_all
    ultimately show False using shapeD(3) [OF sh, of h] k(1) by simp
  qed
  have "held s h = {}" using shapeD(6) [OF sh] k(1) by (fastforce simp: held_def)
  then have "0 < ifs s h" using countedD(4) [OF c h] by simp
  then show ?thesis using shapeD(6) [OF sh k(1,2)] k(3) p h countedD(2) [OF c h] by auto
qed

lemma decRefObject_eq:
  assumes "i \<in> dom s" and "ctr s i = r" and "r \<in> dom s" and "0 < obs s r"
  shows "decRefObject D i s = (if obs s r = 1 then D r (put r (fused s r - 1) s) else Inr ([], put r (fused s r - 1) s))"
    and "obc (fused s r - 1) = obs s r - 1" and "ifc (fused s r - 1) = ifs s r"
proof -
  obtain y x where y: "s i = Some y" "s r = Some x" using assms by blast
  then have m: "m_counter y = r" "fused s r = m_fusedRefCnt x" "obs s r = obc (m_fusedRefCnt x)" "ifs s r = ifc (m_fusedRefCnt x)"
    using assms by (simp_all add: members)
  show c: "obc (fused s r - 1) = obs s r - 1" "ifc (fused s r - 1) = ifs s r" using dec_counts(1) [of "fused s r"] assms(4) m by simp_all
  have "decRef Object (fused s r) = (fst (decRef Object (fused s r)), fused s r - 1, obs s r = 1)"
    using c(1) assms(4) by (auto simp: decRef_def toAdjValue_1 toRefValue_eq_0 Let_def)
  then show "decRefObject D i s = (if obs s r = 1 then D r (put r (fused s r - 1) s) else Inr ([], put r (fused s r - 1) s))"
    using y m(1,2) put_Some [of s r x] by (auto simp: decRefObject_def Let_def split: prod.split)
qed

lemma destroy_eq:
  "r \<in> dom s \<Longrightarrow> destroy (Suc n) r s =
    bindE (release_slots (destroy n) (sl s r) (cut (insert r (set (kd s r))) s)) (\<lambda>(l, t). Inr (r # kd s r @ l, t))"
  by (auto simp: destroy.simps(2) members cut_def)

lemma destroy_leaf: "r \<in> dom s \<Longrightarrow> sl s r = [] \<Longrightarrow> destroy (Suc n) r s = Inr (r # kd s r, cut (insert r (set (kd s r))) s)"
  by (simp add: destroy_eq bindE_def)

section \<open>The operations keep the invariant\<close>

lemma release_slots_ok:
  assumes "counted {} f ps s" and "\<And>j. 0 \<le> f j"
  shows "\<exists>l t. release_slots (destroy (Suc n)) ps s = Inr (l, t) \<and> counted {} f [] t \<and> rest l s t \<and> (\<forall>j. sa s j \<and> 0 < f j \<longrightarrow> sa t j)
    \<and> (\<forall>j \<in> set l. sl s j = []) \<and> (\<forall>j. obs t j \<le> obs s j)"
  using assms(1)
proof (induction ps arbitrary: s)
  case Nil
  then show ?case using rest_refl by simp
next
  case (Cons v ps)
  show ?case
  proof (cases v)
    case None
    then show ?thesis using Cons by (simp add: counted_def)
  next
    case (Some x)
    note c = Cons.prems [unfolded Some] and sh = countedD(1) [OF Cons.prems]
    let ?r = "ctr s x"
    have x: "x \<in> dom s" "sl s ?r = []" using countedD(3) [OF c, of x] by simp_all
    note r = ctr_sa [OF sh x(1)]
    have counts: "int (ifs s ?r) = f ?r + int (card (act s ?r))" "obs s ?r = ifs s ?r + card (held s ?r) + (1 + pend s ps ?r)"
      using countedD(4) [OF c r] by simp_all
    let ?w = "fused s ?r - 1"
    have o: "0 < obs s ?r" using counts(2) by simp
    note step = decRefObject_eq(1) [OF x(1) refl sa_dom [OF r] o, of "destroy (Suc n)"] and w = decRefObject_eq(2,3) [OF x(1) refl sa_dom [OF r] o]
    obtain l t where one: "decRefObject (destroy (Suc n)) x s = Inr (l, t)" and t: "counted {} f ps t" "rest l s t" "\<And>j. sa s j \<Longrightarrow> 0 < f j \<Longrightarrow> sa t j"
      "\<And>j. j \<in> set l \<Longrightarrow> sl s j = []" "\<And>j. obs t j \<le> obs s j"
    proof (cases "obs s ?r = 1")
      case True
      have zero: "ifs s ?r = 0" "held s ?r = {}" "pend s ps ?r = 0" "act s ?r = {}" "f ?r = 0"
      proof -
        have n: "ifs s ?r = 0" "card (held s ?r) = 0" "pend s ps ?r = 0" using counts(2) True by linarith+
        then have "f ?r = 0" "card (act s ?r) = 0" using counts(1) assms(2) [of ?r] by linarith+
        then show "ifs s ?r = 0" "held s ?r = {}" "pend s ps ?r = 0" "act s ?r = {}" "f ?r = 0"
          using n finite_held [OF sh, of ?r] finite_act [OF sh, of ?r] by simp_all
      qed
      have "counted {} f (sl s ?r @ ps) (cut (insert ?r (set (kd s ?r))) s)"
        by (rule counted_cut [OF counted_tail [OF c] r zero(2,4,3)]) (simp add: zero)
      moreover have "destroy (Suc n) ?r (put ?r ?w s) = Inr (?r # kd s ?r, cut (insert ?r (set (kd s ?r))) s)"
        using destroy_leaf [of ?r "put ?r ?w s" n] x(2) sa_dom [OF r] by (simp add: cut_put)
      moreover have "sa (cut (insert ?r (set (kd s ?r))) s) j" if "sa s j" "0 < f j" for j
        using that zero(5) shapeD(5) [OF sh, of j ?r] by auto
      moreover have "sl s j = []" if "j \<in> set (?r # kd s ?r)" for j
        using that x(2) shapeD(5) [OF sh, of j ?r] shapeD(3) [OF sh, of j] by auto
      ultimately show thesis using step True x(2) rest_cut [OF sh r] by (intro that [of "?r # kd s ?r" "cut (insert ?r (set (kd s ?r))) s"]) simp_all
    next
      case False
      have "counted {} f ps (put ?r ?w s)"
        by (rule counted_put [OF counted_tail [OF c] r]) (use w counts False countedD(2) [OF c r] countedD(3) [OF c] in \<open>auto simp: pend_def\<close>)
      then show thesis using step False rest_put w by (intro that [of "[]" "put ?r ?w s"]) simp_all
    qed
    obtain l' u where u: "release_slots (destroy (Suc n)) ps t = Inr (l', u)" "counted {} f [] u" "rest l' t u" "\<forall>j. sa t j \<and> 0 < f j \<longrightarrow> sa u j"
      "\<forall>j \<in> set l'. sl t j = []" "\<forall>j. obs u j \<le> obs t j"
      using Cons.IH [OF t(1)] by blast
    have "sl s j = []" if "j \<in> set (l @ l')" for j
    proof (cases "j \<in> set l")
      case False
      then have "sl t j = []" "j \<in> dom t" using that u(3,5) unfolding rest_def by auto
      then show ?thesis using t(2) unfolding rest_def by metis
    qed (rule t(4))
    moreover have "obs u j \<le> obs s j" for j using u(6) t(5) le_trans by blast
    ultimately show ?thesis using u one t(3) rest_trans [OF t(2) u(3)] Some by (simp add: bindE_def)
  qed
qed

lemma AddRef_ok:
  assumes "i < n" and "i \<in> dom s" and "counted {ctr s i} e [] s" and "\<And>j p. par s j = Some p \<Longrightarrow> sa s p"
    and "int (ifs s (ctr s i)) + 1 = e (ctr s i) + int (card (act s (ctr s i)))" and "obs s (ctr s i) = ifs s (ctr s i) + card (held s (ctr s i))"
    and "\<And>j. j \<le> i \<Longrightarrow> obs s j + 1 < 65536"
  shows "\<exists>cnt t. AddRef n i s = Inr (cnt, t) \<and> counted {} e [] t \<and> rest [] s t"
  using assms
proof (induction n arbitrary: i s)
  case 0
  then show ?case by simp
next
  case (Suc n)
  note sh = countedD(1) [OF Suc.prems(3)]
  obtain x where x: "s i = Some x" using Suc.prems(2) by blast
  have m: "m_standalone x = sa s i" "m_pParent x = par s i" "ifc (m_fusedRefCnt x) = ifs s i" "obc (m_fusedRefCnt x) = obs s i"
    using x by (simp_all add: members)
  show ?case
  proof (cases "sa s i")
    case False
    let ?c = "ctr s i"
    have c: "par s i = Some ?c" "sa s ?c" "?c < i" using shapeD(2,3) [OF sh] Suc.prems(2) False by blast+
    then have "ctr s ?c = ?c" using shapeD(4) [OF sh] by blast
    then have "\<exists>cnt t. AddRef n ?c s = Inr (cnt, t) \<and> counted {} e [] t \<and> rest [] s t"
      using Suc.prems c by (intro Suc.IH) (auto dest: sa_dom)
    then show ?thesis using x m c False by simp
  next
    case True
    have i: "ctr s i = i" using shapeD(4) [OF sh True] .
    note p = Suc.prems [unfolded i]
    have "ifc (m_fusedRefCnt x) + 1 < 65536" "obc (m_fusedRefCnt x) + 1 < 65536" using p(6) p(7) [of i] m by simp_all
    then obtain cnt w where w: "incRef Interface (m_fusedRefCnt x) = (cnt, w)" "obc w = obs s i + 1" "ifc w = ifs s i + 1" "cnt = 1 \<longleftrightarrow> ifs s i = 0"
      using incRef_Interface [of "m_fusedRefCnt x"] m by auto
    let ?t = "put i w s"
    have t: "counted {} (\<lambda>j. e j - of_bool (par s i = Some j \<and> ifs s i = 0)) [] ?t"
      by (rule counted_put [OF p(3) True]) (use w p shapeD(2) [OF sh, of i i] in auto)
    show ?thesis
    proof (cases "\<exists>p. par s i = Some p \<and> ifs s i = 0")
      case False
      then have "counted {} e [] ?t" by (intro counted_exempt [OF t]) auto
      then show ?thesis using x m True w False rest_put put_Some [of s i x] by (auto simp: Let_def split: option.split)
    next
      case parent: True
      then obtain q where q: "par s i = Some q" "ifs s i = 0" by blast
      have lq: "sa s q" "q < i" using p(4) q shapeD(2) [OF sh] by blast+
      then have cq: "ctr ?t q = q" using shapeD(4) [OF sh] by simp
      have "\<exists>cnt u. AddRef n q ?t = Inr (cnt, u) \<and> counted {} e [] u \<and> rest [] ?t u"
      proof (rule Suc.IH)
        show "counted {ctr ?t q} e [] ?t" using q cq by (intro counted_exempt [OF t]) auto
        show "int (ifs ?t (ctr ?t q)) + 1 = e (ctr ?t q) + int (card (act ?t (ctr ?t q)))"
          "obs ?t (ctr ?t q) = ifs ?t (ctr ?t q) + card (held ?t (ctr ?t q))"
          using countedD(4) [OF t, of q] lq q unfolding cq by simp_all
      qed (use p lq sa_dom in auto)
      then obtain c u where "AddRef n q ?t = Inr (c, u)" "counted {} e [] u" "rest [] ?t u" by blast
      then show ?thesis using x m True w q put_Some [of s i x] rest_trans [OF rest_put] by (fastforce simp: Let_def bindE_def)
    qed
  qed
qed

lemma Release_ok:
  assumes "i < n" and "i \<in> dom s" and "counted {ctr s i} e [] s" and "\<And>j p. par s j = Some p \<Longrightarrow> sa s p" and "\<And>j. 0 \<le> e j"
    and "int (ifs s (ctr s i)) = e (ctr s i) + 1 + int (card (act s (ctr s i)))" and "obs s (ctr s i) = ifs s (ctr s i) + card (held s (ctr s i))"
  shows "\<exists>cnt l t. Release n i s = Inr (cnt, l, t) \<and> counted {} e [] t \<and> rest l s t \<and> (\<forall>j. sa s j \<and> 0 < e j \<longrightarrow> sa t j)"
  using assms(1-4,6-7)
proof (induction n arbitrary: i s)
  case 0
  then show ?case by simp
next
  case (Suc n)
  note sh = countedD(1) [OF Suc.prems(3)]
  obtain x where x: "s i = Some x" using Suc.prems(2) by blast
  have m: "m_standalone x = sa s i" "m_pParent x = par s i" "ifc (m_fusedRefCnt x) = ifs s i" "obc (m_fusedRefCnt x) = obs s i"
    using x by (simp_all add: members)
  show ?case
  proof (cases "sa s i")
    case False
    let ?c = "ctr s i"
    have c: "par s i = Some ?c" "sa s ?c" "?c < i" using shapeD(2,3) [OF sh] Suc.prems(2) False by blast+
    then have "ctr s ?c = ?c" using shapeD(4) [OF sh] by blast
    then have "\<exists>cnt l t. Release n ?c s = Inr (cnt, l, t) \<and> counted {} e [] t \<and> rest l s t \<and> (\<forall>j. sa s j \<and> 0 < e j \<longrightarrow> sa t j)"
      using Suc.prems c by (intro Suc.IH) (auto dest: sa_dom)
    then show ?thesis using x m c False by simp
  next
    case True
    have i: "ctr s i = i" using shapeD(4) [OF sh True] .
    note p = Suc.prems [unfolded i]
    have pos: "0 < ifs s i" "ifs s i \<le> obs s i" using p(5,6) assms(5) [of i] by linarith+
    then obtain cnt w where w: "decRef Interface (m_fusedRefCnt x) = (cnt, w, obs s i = 1)" "obc w = obs s i - 1" "ifc w = ifs s i - 1" "cnt = 0 \<longleftrightarrow> ifs s i = 1"
      using decRef_Interface [of "m_fusedRefCnt x"] m by auto
    let ?s = "put i w s"
    let ?f = "\<lambda>j. e j + of_bool (par s i = Some j \<and> ifs s i = 1)"
    have f: "0 \<le> ?f j" for j using assms(5) [of j] by simp
    obtain l t where one: "(if obs s i = 1 then destroy 2 i ?s else Inr ([], ?s)) = Inr (l, t)"
      and t: "counted {} ?f [] t" "rest l s t" "\<And>j. sa s j \<Longrightarrow> 0 < ?f j \<Longrightarrow> j \<noteq> i \<Longrightarrow> sa t j" "\<And>j. sa s j \<Longrightarrow> 0 < e j \<Longrightarrow> sa t j"
    proof (cases "obs s i = 1")
      case dead: True
      have n: "ifs s i = 1" "card (held s i) = 0" using pos dead p(6) by linarith+
      then have zero: "card (act s i) = 0" "e i = 0" using p(5) assms(5) [of i] by linarith+
      then have none: "held s i = {}" "act s i = {}" using n finite_held [OF sh, of i] finite_act [OF sh, of i] by simp_all
      let ?t = "cut (insert i (set (kd s i))) s"
      have t: "counted {} ?f (sl s i) ?t" using counted_cut [OF p(3) True none, of ?f] n by simp
      obtain l u where u: "release_slots (destroy 1) (sl s i) ?t = Inr (l, u)" "counted {} ?f [] u" "rest l ?t u" "\<And>j. sa ?t j \<Longrightarrow> 0 < ?f j \<Longrightarrow> sa u j"
        using release_slots_ok [OF t f, of 0] by auto
      have "destroy 2 i ?s = Inr ((i # kd s i) @ l, u)"
        using u(1) destroy_eq [of i ?s 1] sa_dom [OF True] by (simp add: numeral_2_eq_2 cut_put bindE_def)
      moreover have live: "sa u j" if "sa s j" "0 < ?f j" "j \<noteq> i" for j using u(4) [of j] that shapeD(5) [OF sh, of j i] by auto
      moreover have "sa u j" if "sa s j" "0 < e j" for j using live [of j] that zero by (cases "j = i") auto
      ultimately show thesis using u dead rest_trans [OF rest_cut [OF sh True] u(3)] by (intro that [of "(i # kd s i) @ l" u]) (auto simp: zero)
    next
      case False
      have "counted {} ?f [] ?s"
        by (rule counted_put [OF p(3) True]) (use w p pos False countedD(2) [OF p(3) True] shapeD(2) [OF sh, of i i] in \<open>auto simp: of_nat_diff\<close>)
      then show thesis using False rest_put by (intro that [of "[]" ?s]) simp_all
    qed
    show ?thesis
    proof (cases "\<exists>p. par s i = Some p \<and> ifs s i = 1")
      case False
      then have "counted {} e [] t" by (intro counted_exempt [OF t(1)]) auto
      then show ?thesis using x m True w False one t(2,4) pos put_Some [of s i x]
        by (auto simp: Let_def bindE_def toRefValue_eq_0 split: option.split)
    next
      case parent: True
      then obtain q where q: "par s i = Some q" "ifs s i = 1" by blast
      have lq: "sa s q" "q < i" using p(4) q shapeD(2) [OF sh] by blast+
      then have sq: "sa t q" using t(3) [of q] q assms(5) [of q] by auto
      then have cq: "ctr t q = q" using shapeD(4) [OF countedD(1) [OF t(1)]] by blast
      have "\<exists>cnt l u. Release n q t = Inr (cnt, l, u) \<and> counted {} e [] u \<and> rest l t u \<and> (\<forall>j. sa t j \<and> 0 < e j \<longrightarrow> sa u j)"
      proof (rule Suc.IH)
        show "counted {ctr t q} e [] t" using q cq by (intro counted_exempt [OF t(1)]) auto
        show "int (ifs t (ctr t q)) = e (ctr t q) + 1 + int (card (act t (ctr t q)))"
          "obs t (ctr t q) = ifs t (ctr t q) + card (held t (ctr t q))"
          using countedD(4) [OF t(1) sq] q unfolding cq by simp_all
        show "sa t p" if "par t j = Some p" for j p using parents_live [OF t(1) that] .
      qed (use p(1) lq sq sa_dom in auto)
      then obtain c l' u where "Release n q t = Inr (c, l', u)" "counted {} e [] u" "rest l' t u" "\<forall>j. sa t j \<and> 0 < e j \<longrightarrow> sa u j" by blast
      then show ?thesis using x m True w q one pos put_Some [of s i x] rest_trans [OF t(2)] t(4)
        by (auto simp: Let_def bindE_def toRefValue_eq_0 split: if_splits)
    qed
  qed
qed

end
