(* ===== verification/Ref_Runs.thy ===== *)
theory Ref_Runs
  imports Ref_Life
begin

text \<open>
  Runs of an application over the wrappers: creation, \<open>AddRef\<close>, \<open>Release\<close>, and the assignments to the \<open>D3DAutoPtr\<close> members of devices and state blocks.
  An application that keeps the rules of COM never reaches an object that has been destroyed, and what it has given back is destroyed.
\<close>

section \<open>The application\<close>

text \<open>\<open>app\<close> are the references that the application owns; those on a child are references on its container.\<close>

record wrapper_world =
  objs :: wrappers
  next_id :: nat
  app :: "nat \<Rightarrow> nat"
  destroyed :: "nat list"

datatype ref_op = Create "nat option" nat | CreateChild nat | AddRefOn nat | ReleaseOn nat | Assign nat nat "nat option" | CopyPtr nat nat nat nat

definition empty_world :: wrapper_world where
  "empty_world = \<lparr>objs = Map.empty, next_id = 1, app = (\<lambda>_. 0), destroyed = []\<rparr>"

fun ref_step :: "ref_op \<Rightarrow> wrapper_world \<Rightarrow> wrapper_world or_error" where
  "ref_step (Create p n) w = bindE (new_object (next_id w) p n (objs w)) (\<lambda>s.
     Inr (w\<lparr>objs := s, next_id := next_id w + 1, app := (app w)(next_id w := 1)\<rparr>))"
| "ref_step (CreateChild c) w = bindE (new_child (next_id w) c (objs w)) (\<lambda>s.
     Inr (w\<lparr>objs := s, next_id := next_id w + 1, app := (app w)(c := app w c + 1)\<rparr>))"
| "ref_step (AddRefOn i) w = bindE (AddRef (Suc i) i (objs w)) (\<lambda>(_, s).
     Inr (w\<lparr>objs := s, app := (app w)(ctr (objs w) i := app w (ctr (objs w) i) + 1)\<rparr>))"
| "ref_step (ReleaseOn i) w = bindE (Release (Suc i) i (objs w)) (\<lambda>(_, l, s).
     Inr (w\<lparr>objs := s, app := (app w)(ctr (objs w) i := app w (ctr (objs w) i) - 1), destroyed := destroyed w @ l\<rparr>))"
| "ref_step (Assign h k v) w = bindE (assign_ptr h k v (objs w)) (\<lambda>(l, s). Inr (w\<lparr>objs := s, destroyed := destroyed w @ l\<rparr>))"
| "ref_step (CopyPtr h k h' k') w = bindE (get_slot h' k' (objs w)) (\<lambda>v. bindE (reset_ptr h k v (objs w)) (\<lambda>(l, s).
     Inr (w\<lparr>objs := s, destroyed := destroyed w @ l\<rparr>)))"

fun ref_run :: "ref_op list \<Rightarrow> wrapper_world \<Rightarrow> wrapper_world or_error" where
  "ref_run [] w = Inr w"
| "ref_run (a # as) w = bindE (ref_step a w) (ref_run as)"

text \<open>The rules: only objects of which the application owns a reference are used, a resource is bound where its device is, and no count of references reaches 65535.\<close>

definition owns :: "wrapper_world \<Rightarrow> nat \<Rightarrow> bool" where
  "owns w i \<longleftrightarrow> objs w i \<noteq> None \<and> 0 < app w (ctr (objs w) i)"

definition fits :: "wrappers \<Rightarrow> nat \<Rightarrow> nat option \<Rightarrow> bool" where
  "fits s h v = (case v of None \<Rightarrow> True | Some i \<Rightarrow> sl s (ctr s i) = [] \<and> (par s (ctr s i) = Some h \<or> par s (ctr s i) = par s h))"

definition counts_fit :: "wrapper_world \<Rightarrow> bool" where
  "counts_fit w = list_all (\<lambda>i. toRefValue Object (fused (objs w) i) < 65535) [0 ..< next_id w]"

fun allowed :: "ref_op \<Rightarrow> wrapper_world \<Rightarrow> bool" where
  "allowed (Create p n) w = (case p of None \<Rightarrow> True | Some d \<Rightarrow> owns w d \<and> sa (objs w) d)"
| "allowed (CreateChild c) w = (owns w c \<and> sa (objs w) c)"
| "allowed (AddRefOn i) w = owns w i"
| "allowed (ReleaseOn i) w = owns w i"
| "allowed (Assign h k v) w = (owns w h \<and> k < length (sl (objs w) h) \<and> fits (objs w) h v \<and> (case v of None \<Rightarrow> True | Some i \<Rightarrow> owns w i))"
| "allowed (CopyPtr h k h' k') w = (k < length (sl (objs w) h) \<and> k' < length (sl (objs w) h') \<and> (h, k) \<noteq> (h', k')
     \<and> fits (objs w) h (sl (objs w) h' ! k'))"

fun well_behaved :: "ref_op list \<Rightarrow> wrapper_world \<Rightarrow> bool" where
  "well_behaved [] w = True"
| "well_behaved (a # as) w = (allowed a w \<and> counts_fit w \<and> (case ref_step a w of Inl _ \<Rightarrow> True | Inr w' \<Rightarrow> well_behaved as w'))"

section \<open>New objects\<close>

lemma upd_members:
  "sa (s(i \<mapsto> x)) j = (if j = i then m_standalone x else sa s j)" "par (s(i \<mapsto> x)) j = (if j = i then m_pParent x else par s j)"
  "ctr (s(i \<mapsto> x)) j = (if j = i then m_counter x else ctr s j)" "kd (s(i \<mapsto> x)) j = (if j = i then m_kids x else kd s j)"
  "sl (s(i \<mapsto> x)) j = (if j = i then slots x else sl s j)" "obs (s(i \<mapsto> x)) j = (if j = i then obc (m_fusedRefCnt x) else obs s j)"
  "ifs (s(i \<mapsto> x)) j = (if j = i then ifc (m_fusedRefCnt x) else ifs s j)" "dom (s(i \<mapsto> x)) = insert i (dom s)"
  by (simp_all add: members)

lemma counts_0 [simp]: "obc 0 = 0" "ifc 0 = 0"
  by (simp_all add: obc_def ifc_def)

lemma counted_new:
  assumes c: "counted {} e [] s" and i: "i \<notin> dom s"
    and x: "m_fusedRefCnt x = 0" "m_counter x = i" "m_standalone x" "m_kids x = []" "set (slots x) \<subseteq> {None}"
    and p: "\<And>p. m_pParent x = Some p \<Longrightarrow> p < i \<and> sa s p"
  shows "counted {i} e [] (s(i \<mapsto> x))" and "act (s(i \<mapsto> x)) i = {}" and "held (s(i \<mapsto> x)) i = {}"
proof -
  note sh = countedD(1) [OF c]
  have nopar: "par s j \<noteq> Some i" for j using parents_live [OF c, of j i] i sa_dom by blast
  have noslot: "y \<noteq> i \<and> ctr s y \<noteq> i" if "k < length (sl s h)" "sl s h ! k = Some y" for h k y
    using shapeD(6) [OF sh that] ctr_sa [OF sh, of y] i sa_dom [of s] by blast
  have own: "k < length (slots x) \<Longrightarrow> slots x ! k \<noteq> Some y" for k y using x(5) by (metis nth_mem option.distinct(1) singletonD subsetD)
  have cont: "ctr s j \<noteq> i" "j \<noteq> i" if "j \<in> dom s" for j using ctr_sa [OF sh that] i sa_dom that by blast+
  have "shape (s(i \<mapsto> x))"
    unfolding shape_def upd_members
  proof (intro conjI allI ballI impI)
    show "finite (insert i (dom s))" using shapeD(1) [OF sh] by simp
  next
    fix j q assume "(if j = i then m_pParent x else par s j) = Some q"
    then show "q < j" using p shapeD(2) [OF sh] by (auto split: if_splits)
  next
    fix j assume j: "j \<in> insert i (dom s)" "\<not> (if j = i then m_standalone x else sa s j)"
    then have d: "j \<in> dom s" "\<not> sa s j" using x(3) by (auto split: if_splits)
    note d3 = shapeD(3) [OF sh d] cont [OF d(1)]
    show "(if j = i then slots x else sl s j) = []" using d3 by simp
    show "(if j = i then m_pParent x else par s j) = Some (if j = i then m_counter x else ctr s j)" using d3 by simp
    show "if (if j = i then m_counter x else ctr s j) = i then m_standalone x else sa s (if j = i then m_counter x else ctr s j)" using d3 by simp
    show "j \<in> set (if (if j = i then m_counter x else ctr s j) = i then m_kids x else kd s (if j = i then m_counter x else ctr s j))" using d3 by simp
  next
    fix j assume "if j = i then m_standalone x else sa s j"
    then show "(if j = i then m_counter x else ctr s j) = j" using x(2) shapeD(4) [OF sh] by simp
  next
    fix j show "distinct (if j = i then m_kids x else kd s j)" using x(4) shapeD(7) [OF sh] by simp
  next
    fix j k assume "k \<in> set (if j = i then m_kids x else kd s j)"
    then have "k \<in> set (kd s j)" using x(4) by (auto split: if_splits)
    note k = shapeD(5) [OF sh this]
    then have "k \<noteq> i" using i by blast
    then show "k \<in> insert i (dom s)" "\<not> (if k = i then m_standalone x else sa s k)" "(if k = i then m_pParent x else par s k) = Some j" using k by simp_all
  next
    fix h k y assume k: "k < length (if h = i then slots x else sl s h) \<and> (if h = i then slots x else sl s h) ! k = Some y"
    then have h: "h \<noteq> i" using own by auto
    then have k: "k < length (sl s h)" "sl s h ! k = Some y" using k by simp_all
    note c = shapeD(6) [OF sh k] noslot [OF k] h
    show "y \<in> insert i (dom s)" using c by simp
    show "(if (if y = i then m_counter x else ctr s y) = i then slots x else sl s (if y = i then m_counter x else ctr s y)) = []" using c by simp
    show "(if (if y = i then m_counter x else ctr s y) = i then m_pParent x else par s (if y = i then m_counter x else ctr s y)) = Some h
      \<or> (if (if y = i then m_counter x else ctr s y) = i then m_pParent x else par s (if y = i then m_counter x else ctr s y))
        = (if h = i then m_pParent x else par s h)" using c by simp
  qed
  moreover have act: "act (s(i \<mapsto> x)) j = act s j" for j using x(1) i members_outside [OF i] by (auto simp: act_def upd_members)
  moreover have held: "held (s(i \<mapsto> x)) j = held s j" if "j \<noteq> i" for j
  proof (intro equalityI subsetI)
    fix q assume "q \<in> held (s(i \<mapsto> x)) j"
    then obtain h k y where q: "q = (h, k)" "k < length (sl (s(i \<mapsto> x)) h)" "sl (s(i \<mapsto> x)) h ! k = Some y" "ctr (s(i \<mapsto> x)) y = j"
      unfolding held_def by blast
    then have "h \<noteq> i" using own by (auto simp: upd_members)
    then show "q \<in> held s j" using q that x(2) by (auto simp: held_def upd_members split: if_splits)
  next
    fix q assume "q \<in> held s j"
    then obtain h k y where q: "q = (h, k)" "k < length (sl s h)" "sl s h ! k = Some y" "ctr s y = j" unfolding held_def by blast
    then have "h \<noteq> i" "y \<noteq> i" using members_outside [OF i] noslot by auto
    then show "q \<in> held (s(i \<mapsto> x)) j" using q by (simp add: held_def upd_members)
  qed
  moreover have "sa (s(i \<mapsto> x)) q" if "sa (s(i \<mapsto> x)) j" "0 < ifs (s(i \<mapsto> x)) j" "par (s(i \<mapsto> x)) j = Some q" for j q
    using that x(1) nopar countedD(2) [OF c, of j q] by (auto simp: upd_members split: if_splits)
  moreover have "int (ifs (s(i \<mapsto> x)) j) = e j + int (card (act (s(i \<mapsto> x)) j))
      \<and> obs (s(i \<mapsto> x)) j = ifs (s(i \<mapsto> x)) j + card (held (s(i \<mapsto> x)) j) + pend (s(i \<mapsto> x)) [] j \<and> 0 < obs (s(i \<mapsto> x)) j"
    if "sa (s(i \<mapsto> x)) j" "j \<notin> {i}" for j
    using that countedD(4) [OF c, of j] act [of j] held [of j] by (auto simp: upd_members)
  ultimately show "counted {i} e [] (s(i \<mapsto> x))" unfolding counted_def by (simp only: list.set empty_iff) blast
  show "act (s(i \<mapsto> x)) i = {}" unfolding act using nopar by (simp add: act_def)
  have "(h, k) \<notin> held (s(i \<mapsto> x)) i" for h k
    using own [of k] noslot [of k h] i shapeD(6) [OF sh, of k h i] by (auto simp: held_def upd_members split: if_splits)
  then show "held (s(i \<mapsto> x)) i = {}" by auto
qed

lemma new_object_ok:
  assumes c: "counted {} e [] s" and i: "i \<notin> dom s" and p: "\<And>p. pParent = Some p \<Longrightarrow> p < i \<and> sa s p"
    and fit: "\<And>j. j \<in> dom s \<Longrightarrow> obs s j + 1 < 65536" and e: "e i = 0"
  shows "\<exists>t x. new_object i pParent n s = Inr t \<and> counted {} (e(i := 1)) [] t \<and> rest [] (s(i \<mapsto> x)) t \<and> m_standalone x"
proof -
  let ?x = "\<lparr>m_fusedRefCnt = 0, m_counter = i, m_pParent = pParent, m_standalone = True, m_kids = [], slots = replicate n None\<rparr>"
  let ?s = "s(i \<mapsto> ?x)"
  have new: "counted {i} e [] ?s" "act ?s i = {}" "held ?s i = {}" by (rule counted_new [OF c i]; use p in auto)+
  have "\<exists>cnt t. AddRef (Suc i) i ?s = Inr (cnt, t) \<and> counted {} (e(i := 1)) [] t \<and> rest [] ?s t"
  proof (rule AddRef_ok)
    show "counted {ctr ?s i} (e(i := 1)) [] ?s" by (rule counted_exempt [OF new(1)]) (simp_all add: upd_members)
    show "sa ?s q" if "par ?s j = Some q" for j q
      using that p parents_live [OF c, of j q] by (auto simp: upd_members split: if_splits)
    show "obs ?s j + 1 < 65536" if "j \<le> i" for j using fit [of j] members_outside [of j s] by (cases "j \<in> dom s") (auto simp: upd_members)
    show "int (ifs ?s (ctr ?s i)) + 1 = (e(i := 1)) (ctr ?s i) + int (card (act ?s (ctr ?s i)))"
      "obs ?s (ctr ?s i) = ifs ?s (ctr ?s i) + card (held ?s (ctr ?s i))" using new(2,3) by (simp_all add: upd_members)
  qed (simp_all add: upd_members)
  then obtain cnt t where t: "AddRef (Suc i) i ?s = Inr (cnt, t)" "counted {} (e(i := 1)) [] t" "rest [] ?s t" by blast
  show ?thesis by (intro exI [of _ t] exI [of _ ?x]) (use t in \<open>simp add: new_object_def bindE_def del: AddRef.simps\<close>)
qed

lemma counted_child:
  assumes c: "counted {} e [] s" and i: "i \<notin> dom s" "p < i" and y: "s p = Some y" "m_standalone y"
  shows "counted {} e [] (s(i \<mapsto> \<lparr>m_fusedRefCnt = 0, m_counter = m_counter y, m_pParent = Some p, m_standalone = False, m_kids = [], slots = []\<rparr>,
    p \<mapsto> y\<lparr>m_kids := m_kids y @ [i]\<rparr>))" (is "counted {} e [] ?s")
proof -
  note sh = countedD(1) [OF c]
  have p: "sa s p" "p \<noteq> i" using y i by (auto simp: sa_def)
  have my: "m_counter y = p" using shapeD(4) [OF sh p(1)] y by (simp add: ctr_def)
  have same: "sa ?s j = sa s j" "sl ?s j = sl s j" "obs ?s j = obs s j" "ifs ?s j = ifs s j" for j
    using i p y by (auto simp: members split: option.splits)
  have diff: "par ?s j = (if j = i then Some p else par s j)" "ctr ?s j = (if j = i then p else ctr s j)"
    "kd ?s j = (if j = p then kd s p @ [i] else kd s j)" "dom ?s = insert i (dom s)" for j
    using i p y my by (auto simp: members split: option.splits)
  have i': "\<not> sa s i" "i \<notin> set (kd s j)" for j using i(1) sa_dom shapeD(5) [OF sh, of i j] by blast+
  have ref: "y \<noteq> i" if "k < length (sl s h)" "sl s h ! k = Some y" for h k y using shapeD(6) [OF sh that] i(1) by blast
  have cp: "ctr s p = p" using shapeD(4) [OF sh p(1)] .
  have "shape ?s"
    unfolding shape_def same diff
  proof (intro conjI allI ballI impI)
    show "finite (insert i (dom s))" using shapeD(1) [OF sh] by simp
  next
    fix j q assume "(if j = i then Some p else par s j) = Some q"
    then show "q < j" using i(2) shapeD(2) [OF sh] by (auto split: if_splits)
  next
    fix j assume j: "j \<in> insert i (dom s)" "\<not> sa s j"
    note d = shapeD(3) [OF sh, of j]
    show "sl s j = []" using d j members_outside [OF i(1)] by auto
    show "(if j = i then Some p else par s j) = Some (if j = i then p else ctr s j)" using d j by auto
    show "sa s (if j = i then p else ctr s j)" using d j p by auto
    show "j \<in> set (if (if j = i then p else ctr s j) = p then kd s p @ [i] else kd s (if j = i then p else ctr s j))" using d j by auto
  next
    fix j assume "sa s j"
    then show "(if j = i then p else ctr s j) = j" using i' shapeD(4) [OF sh] by auto
  next
    fix j show "distinct (if j = p then kd s p @ [i] else kd s j)" using shapeD(7) [OF sh] i' by simp
  next
    fix j k assume "k \<in> set (if j = p then kd s p @ [i] else kd s j)"
    then consider "k = i" "j = p" | "k \<noteq> i" "k \<in> set (kd s j)" using i' by (auto split: if_splits)
    then show "k \<in> insert i (dom s)" "\<not> sa s k" "(if k = i then Some p else par s k) = Some j"
      using i' shapeD(5) [OF sh, of k j] by (cases; simp)+
  next
    fix h k x assume k: "k < length (sl s h) \<and> sl s h ! k = Some x"
    note d = shapeD(6) [OF sh, of k h x] ref [of k h x] ctr_sa [OF sh, of x] i'(1)
    have n: "h \<noteq> i" using k members_outside [OF i(1)] by auto
    show "x \<in> insert i (dom s)" using d k by simp
    show "sl s (if x = i then p else ctr s x) = []" using d k by simp
    show "(if (if x = i then p else ctr s x) = i then Some p else par s (if x = i then p else ctr s x)) = Some h \<or>
      (if (if x = i then p else ctr s x) = i then Some p else par s (if x = i then p else ctr s x)) = (if h = i then Some p else par s h)"
      using d k n by auto
  qed
  moreover have act: "act ?s j = act s j" for j using i' unfolding act_def same diff by auto
  moreover have held: "held ?s j = held s j" for j using ref unfolding held_def same diff by (metis (mono_tags, lifting))
  moreover have "sa s q" if "sa s j" "0 < ifs s j" "(if j = i then Some p else par s j) = Some q" for j q
    using that i' countedD(2) [OF c, of j q] by (auto split: if_splits)
  moreover have "int (ifs s j) = e j + int (card (act ?s j)) \<and> obs s j = ifs s j + card (held ?s j) + pend ?s [] j \<and> 0 < obs s j" if "sa s j" for j
    using countedD(4) [OF c that] unfolding act held by auto
  ultimately show ?thesis unfolding counted_def same diff by (simp only: list.set empty_iff) blast
qed

lemma new_child_ok:
  assumes c: "counted {} e [] s" and i: "i \<notin> dom s" and p: "p < i" "sa s p" and fit: "\<And>j. j \<in> dom s \<Longrightarrow> obs s j + 1 < 65536"
  shows "\<exists>t u. new_child i p s = Inr t \<and> counted {} (e(p := e p + 1)) [] t \<and> rest [] u t \<and> dom u = insert i (dom s) \<and> \<not> sa u i \<and> (\<forall>j. sa u j = sa s j)"
proof -
  obtain y where y: "s p = Some y" "m_standalone y" using p(2) by (auto simp: sa_def split: option.splits)
  let ?s = "s(i \<mapsto> \<lparr>m_fusedRefCnt = 0, m_counter = m_counter y, m_pParent = Some p, m_standalone = False, m_kids = [], slots = []\<rparr>,
    p \<mapsto> y\<lparr>m_kids := m_kids y @ [i]\<rparr>)"
  note new = counted_child [OF c i p(1) y]
  have d: "dom ?s = insert i (dom s)" using y by auto
  have sa: "sa ?s j = sa s j" "obs ?s j = obs s j" for j using i p y by (auto simp: members split: option.splits)
  have cy: "m_counter y = p" using shapeD(4) [OF countedD(1) [OF c] p(2)] y by (simp add: ctr_def)
  have n: "\<not> sa s i" using i sa_dom by blast
  have cp: "ctr ?s i = p" using cy p(1) by (simp add: members)
  have sp: "sa ?s p" unfolding sa using p by simp
  have "\<exists>cnt t. AddRef (Suc i) i ?s = Inr (cnt, t) \<and> counted {} (e(p := e p + 1)) [] t \<and> rest [] ?s t"
  proof (rule AddRef_ok)
    show "counted {ctr ?s i} (e(p := e p + 1)) [] ?s" by (rule counted_exempt [OF new]) (simp_all add: cp)
    show "sa ?s q" if "par ?s j = Some q" for j q using parents_live [OF new that] .
    show "obs ?s j + 1 < 65536" if "j \<le> i" for j using fit [of j] members_outside [of j s] unfolding sa by (cases "j \<in> dom s") auto
    show "int (ifs ?s (ctr ?s i)) + 1 = (e(p := e p + 1)) (ctr ?s i) + int (card (act ?s (ctr ?s i)))"
      "obs ?s (ctr ?s i) = ifs ?s (ctr ?s i) + card (held ?s (ctr ?s i))" unfolding cp using countedD(4) [OF new sp] by simp_all
  qed (use d in auto)
  then obtain cnt t where t: "AddRef (Suc i) i ?s = Inr (cnt, t)" "counted {} (e(p := e p + 1)) [] t" "rest [] ?s t" by blast
  show ?thesis by (intro exI [of _ t] exI [of _ ?s]) (use t y n d sa in \<open>simp add: new_child_def bindE_def del: AddRef.simps\<close>)
qed

section \<open>The members of type D3DAutoPtr\<close>

lemma counted_None: "counted X e (None # ps) s = counted X e ps s"
  by (simp add: counted_def)

lemma set_slot_members:
  "sa (set_slot h k v s) j = sa s j" "par (set_slot h k v s) j = par s j" "ctr (set_slot h k v s) j = ctr s j" "kd (set_slot h k v s) j = kd s j"
  "sl (set_slot h k v s) j = (if j = h then (sl s h)[k := v] else sl s j)" "obs (set_slot h k v s) j = obs s j" "ifs (set_slot h k v s) j = ifs s j"
  "fused (set_slot h k v s) j = fused s j" "dom (set_slot h k v s) = dom s"
  by (auto simp: members set_slot_def split: option.splits)

lemma refs_slot:
  assumes "shape s" and "k < length (sl s h)"
  shows "card (held s j) = card (held s j - {(h, k)}) + pend s [sl s h ! k] j"
proof -
  have "(h, k) \<in> held s j \<longleftrightarrow> pend s [sl s h ! k] j = 1" "pend s [sl s h ! k] j \<le> 1" using assms(2) by (auto simp: held_def pend_def)
  then show ?thesis using finite_held [OF assms(1), of j] card_Suc_Diff1 [of "held s j" "(h, k)"] by (cases "(h, k) \<in> held s j") auto
qed

lemma counted_set_slot:
  assumes c: "counted {} e [v] s" and k: "k < length (sl s h)" and v: "fits s h v"
  shows "counted {} e [sl s h ! k] (set_slot h k v s)"
proof -
  note sh = countedD(1) [OF c]
  have leaf: "sl (set_slot h k v s) x = []" if "sl s x = []" for x using that k by (auto simp: set_slot_members)
  have vd: "x \<in> dom s" "sl s (ctr s x) = []" "par s (ctr s x) = Some h \<or> par s (ctr s x) = par s h" if "v = Some x" for x
    using countedD(3) [OF c, of x] v that by (auto simp: fits_def)
  have old: "x \<in> dom s \<and> sl s (ctr s x) = [] \<and> (par s (ctr s x) = Some g \<or> par s (ctr s x) = par s g)"
    if "n < length (sl (set_slot h k v s) g)" "sl (set_slot h k v s) g ! n = Some x" for n g x
  proof (cases "g = h \<and> n = k")
    case True
    then show ?thesis using vd [of x] that k by (auto simp: set_slot_members)
  next
    case False
    then have "n < length (sl s g)" "sl s g ! n = Some x" using that by (auto simp: set_slot_members split: if_splits)
    then show ?thesis by (rule shapeD(6) [OF sh])
  qed
  have sh': "shape (set_slot h k v s)"
    unfolding shape_def
  proof (intro conjI allI ballI impI)
    fix g n x assume n: "n < length (sl (set_slot h k v s) g) \<and> sl (set_slot h k v s) g ! n = Some x"
    show "x \<in> dom (set_slot h k v s)" "sl (set_slot h k v s) (ctr (set_slot h k v s) x) = []"
      "par (set_slot h k v s) (ctr (set_slot h k v s) x) = Some g \<or> par (set_slot h k v s) (ctr (set_slot h k v s) x) = par (set_slot h k v s) g"
      using old [of n g x] n leaf by (simp_all add: set_slot_members(1-4,9))
  next
    fix i assume "i \<in> dom (set_slot h k v s)" "\<not> sa (set_slot h k v s) i"
    then show "sl (set_slot h k v s) i = []" "par (set_slot h k v s) i = Some (ctr (set_slot h k v s) i)" "sa (set_slot h k v s) (ctr (set_slot h k v s) i)"
      "i \<in> set (kd (set_slot h k v s) (ctr (set_slot h k v s) i))"
      using shapeD(3) [OF sh, of i] leaf by (simp_all add: set_slot_members(1-4,9))
  qed (use shapeD(1,2,4,5,7) [OF sh] in \<open>simp_all add: set_slot_members(1-4,9)\<close>)
  have diff: "held (set_slot h k v s) j - {(h, k)} = held s j - {(h, k)}" for j
    by (auto simp: held_def set_slot_members nth_list_update split: if_splits)
  have act: "act (set_slot h k v s) j = act s j" for j by (simp add: act_def set_slot_members)
  have pend: "pend (set_slot h k v s) ps j = pend s ps j" for ps j by (simp add: pend_def set_slot_members)
  have held: "card (held (set_slot h k v s) j) + pend s [sl s h ! k] j = card (held s j) + pend s [v] j" for j
    using refs_slot [OF sh k, of j] refs_slot [OF sh', of k h j] k unfolding diff pend by (simp add: set_slot_members)
  have "x \<in> dom s \<and> sl (set_slot h k v s) (ctr s x) = []" if "Some x \<in> set [sl s h ! k]" for x
    using shapeD(6) [OF sh k, of x] that leaf by auto
  moreover have "int (ifs s j) = e j + int (card (act s j)) \<and> obs s j = ifs s j + card (held (set_slot h k v s) j) + pend s [sl s h ! k] j \<and> 0 < obs s j"
    if "sa s j" for j using countedD(4) [OF c that] held [of j] by (simp del: pend_simps) linarith
  ultimately show ?thesis using sh' countedD(2) [OF c] unfolding counted_def act pend set_slot_members(1-4,6-9) by blast
qed

lemma incRefObject_eq:
  assumes "i \<in> dom s" and "ctr s i = r" and "r \<in> dom s" and "obs s r + 1 < 65536"
  shows "\<exists>w. incRefObject i s = Inr (put r w s) \<and> obc w = obs s r + 1 \<and> ifc w = ifs s r"
proof -
  obtain y x where y: "s i = Some y" "s r = Some x" using assms by blast
  then have m: "m_counter y = r" "obs s r = obc (m_fusedRefCnt x)" "ifs s r = ifc (m_fusedRefCnt x)" using assms by (simp_all add: members)
  show ?thesis using incRef_Object [of "m_fusedRefCnt x"] y m assms(4) put_Some [of s r x] by (auto simp: incRefObject_def Let_def)
qed

lemma counted_inc:
  assumes c: "counted {} e [] s" and i: "i \<in> dom s" "sl s (ctr s i) = []" and fit: "obs s (ctr s i) + 1 < 65536"
  shows "\<exists>w. incRefObject i s = Inr (put (ctr s i) w s) \<and> counted {} e [Some i] (put (ctr s i) w s)"
proof -
  note r = ctr_sa [OF countedD(1) [OF c] i(1)]
  obtain w where w: "incRefObject i s = Inr (put (ctr s i) w s)" "obc w = obs s (ctr s i) + 1" "ifc w = ifs s (ctr s i)"
    using incRefObject_eq [OF i(1) refl sa_dom [OF r] fit] by blast
  have "counted {} e [Some i] (put (ctr s i) w s)"
    by (rule counted_put [OF c r]) (use w i countedD(4) [OF c r] countedD(2) [OF c r] in auto)
  then show ?thesis using w(1) by blast
qed

lemma set_slot_put: "set_slot h k v (put r w s) = put r w (set_slot h k v s)"
  by (auto simp: set_slot_def put_def fun_eq_iff split: option.split)

lemma set_slot_cut: "h \<notin> X \<Longrightarrow> set_slot h k v (cut X s) = cut X (set_slot h k v s)"
  by (auto simp: set_slot_def cut_def fun_eq_iff split: option.split)

lemma set_slot_twice: "set_slot h k v (set_slot h k u s) = set_slot h k v s"
  by (auto simp: set_slot_def fun_eq_iff split: option.split)

lemma incRefObject_set_slot: "incRefObject i (set_slot h k v s) = bindE (incRefObject i s) (\<lambda>u. Inr (set_slot h k v u))"
  by (auto simp: incRefObject_def set_slot_def bindE_def Let_def fun_eq_iff split: option.splits)

text \<open>The object that is let go of is not the holder of the slot, so it does not matter when the slot is written.\<close>

lemma release_set_slot:
  assumes c: "counted {} e [old] (set_slot h k v s)" and k: "k < length (sl s h)"
  shows "release_slots (destroy 2) [old] (set_slot h k v s) = bindE (release_slots (destroy 2) [old] s) (\<lambda>(l, t). Inr (l, set_slot h k v t))"
proof (cases old)
  case None
  then show ?thesis by (simp add: bindE_def)
next
  case (Some x)
  note sh = countedD(1) [OF c]
  let ?r = "ctr s x"
  let ?X = "insert ?r (set (kd s ?r))"
  have x: "x \<in> dom s" "sl (set_slot h k v s) ?r = []" using countedD(3) [OF c, of x] Some by (simp_all add: set_slot_members)
  have r: "sa s ?r" using ctr_sa [OF sh, of x] x(1) by (simp add: set_slot_members)
  have o: "0 < obs s ?r" using countedD(4) [OF c, of ?r] r by (auto simp: set_slot_members)
  have "h \<noteq> ?r" using x(2) k by (auto simp: set_slot_members)
  moreover have "h \<notin> set (kd s ?r)" using shapeD(5) [OF sh, of h ?r] shapeD(3) [OF sh, of h] k by (auto simp: set_slot_members)
  ultimately have h: "h \<notin> ?X" and leaf: "sl s ?r = []" using x(2) by (simp_all add: set_slot_members)
  note d = sa_dom [OF r]
  have D: "destroy 2 ?r (put ?r w u) = Inr (?r # kd s ?r, cut ?X u)" if "sl u ?r = []" "kd u ?r = kd s ?r" "?r \<in> dom u" for w u
    using destroy_leaf [of ?r "put ?r w u" 1] that by (simp add: numeral_2_eq_2 cut_put)
  have "decRefObject (destroy 2) x (set_slot h k v s) = bindE (decRefObject (destroy 2) x s) (\<lambda>(l, t). Inr (l, set_slot h k v t))"
    using decRefObject_eq(1) [OF x(1) refl d o, of "destroy 2"] decRefObject_eq(1) [of x "set_slot h k v s" ?r "destroy 2"] x d o leaf h D [of s] D [of "set_slot h k v s"]
    by (simp add: set_slot_members bindE_def set_slot_put set_slot_cut)
  then show ?thesis using Some by (simp add: bindE_def split: sum.split)
qed

definition gone :: "nat list \<Rightarrow> wrappers \<Rightarrow> wrappers \<Rightarrow> bool" where
  "gone l s t \<longleftrightarrow> distinct l \<and> set l \<subseteq> dom s \<and> dom t = dom s - set l"

lemma rest_gone: "rest l s t \<Longrightarrow> gone l s t"
  by (simp add: rest_def gone_def)

lemma release_ok:
  assumes "counted {} e [old] s" and "\<And>j. 0 \<le> e j"
  shows "\<exists>l t. release_slots (destroy 2) [old] s = Inr (l, t) \<and> counted {} e [] t \<and> gone l s t \<and> (\<forall>j. sa s j \<and> 0 < e j \<longrightarrow> sa t j)"
  using release_slots_ok [OF assms, of 1] rest_gone unfolding numeral_2_eq_2 One_nat_def by blast

lemma assign_ok:
  assumes c: "counted {} e [] s" and e: "\<And>j. 0 \<le> e j" and k: "k < length (sl s h)" and v: "fits s h v"
    and i: "\<And>i. v = Some i \<Longrightarrow> i \<in> dom s \<and> obs s (ctr s i) + 1 < 65536"
  shows "\<exists>l t. assign_ptr h k v s = Inr (l, t) \<and> counted {} e [] t \<and> gone l s t \<and> (\<forall>j. sa s j \<and> 0 < e j \<longrightarrow> sa t j)"
proof -
  have get: "get_slot h k s = Inr (sl s h ! k)" using k by (auto simp: get_slot_def getE_def members split: option.splits)
  obtain u where u: "(case v of None \<Rightarrow> Inr s | Some i \<Rightarrow> incRefObject i s) = Inr u" "counted {} e [v] u" "rest [] s u" "\<And>j. sl u j = sl s j" "fits u h v"
  proof (cases v)
    case None
    show thesis by (rule that [of s]) (use c v rest_refl in \<open>auto simp: None counted_def\<close>)
  next
    case (Some i)
    then have "sl s (ctr s i) = []" using v by (simp add: fits_def)
    then obtain w where "incRefObject i s = Inr (put (ctr s i) w s)" "counted {} e [Some i] (put (ctr s i) w s)"
      using counted_inc [OF c] assms(5) [OF Some] by blast
    then show thesis using Some v rest_put by (intro that [of "put (ctr s i) w s"]) (simp_all add: fits_def)
  qed
  have k': "k < length (sl u h)" using k u(4) by simp
  note c' = counted_set_slot [OF u(2) k' u(5)]
  obtain l t where t: "release_slots (destroy 2) [sl u h ! k] (set_slot h k v u) = Inr (l, t)" "counted {} e [] t"
    "gone l (set_slot h k v u) t" "\<forall>j. sa (set_slot h k v u) j \<and> 0 < e j \<longrightarrow> sa t j"
    using release_ok [OF c' e] by blast
  then obtain t' where t': "release_slots (destroy 2) [sl u h ! k] u = Inr (l, t')" "t = set_slot h k v t'"
    using release_set_slot [OF c' k'] by (auto simp: bindE_def split: sum.splits prod.splits)
  have "dom u = dom s" "\<And>j. sa s j \<Longrightarrow> sa u j" using u(3) sa_dom unfolding rest_def by auto
  then show ?thesis using t t' get u(1,4) by (simp add: assign_ptr_def bindE_def gone_def set_slot_members)
qed

text \<open>\<open>reset\<close> with the value of another slot, which keeps its object alive while the old one is let go of.\<close>

lemma reset_ok:
  assumes c: "counted {} e [] s" and e: "\<And>j. 0 \<le> e j" and k: "k < length (sl s h)" "k' < length (sl s h')" "(h, k) \<noteq> (h', k')"
    and v: "fits s h (sl s h' ! k')" and fit: "\<And>i. i \<in> dom s \<Longrightarrow> obs s i + 1 < 65536"
  shows "\<exists>l t. reset_ptr h k (sl s h' ! k') s = Inr (l, t) \<and> counted {} e [] t \<and> gone l s t \<and> (\<forall>j. sa s j \<and> 0 < e j \<longrightarrow> sa t j)"
proof -
  let ?v = "sl s h' ! k'" and ?s = "set_slot h k None s"
  have get: "get_slot h k s = Inr (sl s h ! k)" using k(1) by (auto simp: get_slot_def getE_def members split: option.splits)
  have "counted {} e [None] s" using c by (simp only: counted_None)
  then have c': "counted {} e [sl s h ! k] ?s" using counted_set_slot k(1) by (simp add: fits_def)
  obtain l t where t: "release_slots (destroy 2) [sl s h ! k] ?s = Inr (l, t)" "counted {} e [] t" "rest l ?s t"
    "\<forall>j. sa ?s j \<and> 0 < e j \<longrightarrow> sa t j" "\<And>j. j \<in> set l \<Longrightarrow> sl ?s j = []" "\<And>j. obs t j \<le> obs ?s j"
    using release_slots_ok [OF c' e, of 1] unfolding numeral_2_eq_2 One_nat_def by blast
  then obtain t' where t': "release_slots (destroy 2) [sl s h ! k] s = Inr (l, t')" "t = set_slot h k None t'"
    using release_set_slot [OF c' k(1)] by (auto simp: bindE_def split: sum.splits prod.splits)
  have dom: "dom t = dom s - set l" "set l \<subseteq> dom s" "distinct l" using t(3) unfolding rest_def by (simp_all add: set_slot_members)
  have sa: "\<forall>j. sa s j \<and> 0 < e j \<longrightarrow> sa t j" using t(4) by (simp add: set_slot_members)
  have keep: "par t j = par s j" "ctr t j = ctr s j" "sl t j = sl ?s j" if "j \<in> dom t" for j
    using t(3) that unfolding rest_def by (simp_all add: set_slot_members(2,3))
  have "g \<in> dom t" if "n < length (sl s g)" for g n
    using that t(5) [of g] members_outside [of g s] unfolding dom by (cases "g \<in> dom s") (auto simp: set_slot_members split: if_splits)
  then have h: "h \<in> dom t" "h' \<in> dom t" using k by blast+
  have slots: "sl t h = (sl s h)[k := None]" "k' < length (sl t h')" "sl t h' ! k' = ?v"
    using keep(3) [OF h(1)] keep(3) [OF h(2)] k by (auto simp: set_slot_members nth_list_update)
  show ?thesis
  proof (cases ?v)
    case None
    then show ?thesis using get t t' dom sa by (simp add: reset_ptr_def bindE_def gone_def)
  next
    case (Some i)
    note i = shapeD(6) [OF countedD(1) [OF t(2)] slots(2) slots(3) [unfolded Some]]
    have r: "ctr t i = ctr s i" "sa t (ctr t i)" using keep(2) i ctr_sa [OF countedD(1) [OF t(2)]] by blast+
    have fit': "obs t (ctr t i) + 1 < 65536"
      using t(6) [of "ctr t i"] fit [of "ctr t i"] sa_dom [OF r(2)] dom(1) by (fastforce simp: set_slot_members)
    obtain w where w: "incRefObject i t = Inr (put (ctr t i) w t)" "counted {} e [Some i] (put (ctr t i) w t)"
      using counted_inc [OF t(2) _ _ fit'] i by blast
    have "fits (put (ctr t i) w t) h (Some i)"
      using v i keep(1) [OF h(1)] keep(1) [OF sa_dom [OF r(2)]] unfolding Some fits_def by (simp add: r(1))
    then have new: "counted {} e [] (set_slot h k (Some i) (put (ctr t i) w t))"
      using counted_set_slot [OF w(2), of k h] k(1) slots(1) by (simp add: counted_None)
    obtain u where u: "incRefObject i t' = Inr u" "put (ctr t i) w t = set_slot h k None u"
      using w(1) incRefObject_set_slot [of i h k None t'] unfolding t'(2) by (auto simp: bindE_def split: sum.splits)
    have eq: "set_slot h k (Some i) (put (ctr t i) w t) = set_slot h k (Some i) u" unfolding u(2) by (rule set_slot_twice)
    have "dom (set_slot h k (Some i) u) = dom t" "sa (set_slot h k (Some i) u) j = sa t j" for j
      unfolding eq [symmetric] by (simp_all add: set_slot_members)
    then show ?thesis using get t'(1) u(1) new dom sa Some unfolding eq by (simp add: reset_ptr_def bindE_def gone_def)
  qed
qed

section \<open>Runs\<close>

definition ref_inv :: "wrapper_world \<Rightarrow> bool" where
  "ref_inv w \<longleftrightarrow> counted {} (\<lambda>i. int (app w i)) [] (objs w) \<and> (\<forall>i. 0 < app w i \<longrightarrow> sa (objs w) i)
     \<and> distinct (destroyed w) \<and> set (destroyed w) \<union> dom (objs w) = {1 ..< next_id w} \<and> set (destroyed w) \<inter> dom (objs w) = {} \<and> 0 < next_id w"

lemma ref_invD:
  assumes "ref_inv w"
  shows "counted {} (\<lambda>i. int (app w i)) [] (objs w)" and "0 < app w i \<Longrightarrow> sa (objs w) i" and "next_id w \<notin> dom (objs w)"
    and "i \<in> dom (objs w) \<Longrightarrow> i < next_id w" and "distinct (destroyed w)" and "set (destroyed w) \<union> dom (objs w) = {1 ..< next_id w}"
    and "set (destroyed w) \<inter> dom (objs w) = {}" and "0 < next_id w"
  using assms unfolding ref_inv_def by auto

lemma ref_inv_gone:
  assumes inv: "ref_inv w" and "counted {} (\<lambda>i. int (a i)) [] t" and "gone l (objs w) t" and "\<And>i. 0 < a i \<Longrightarrow> sa t i"
  shows "ref_inv (w\<lparr>objs := t, app := a, destroyed := destroyed w @ l\<rparr>)"
proof -
  have "distinct l" "set l \<subseteq> dom (objs w)" "dom t = dom (objs w) - set l" using assms(3) by (simp_all add: gone_def)
  then show ?thesis using assms(2,4) ref_invD(5-8) [OF inv] unfolding ref_inv_def by auto
qed

lemma ref_inv_new:
  assumes inv: "ref_inv w" and "counted {} (\<lambda>i. int (a i)) [] t" and "dom t = insert (next_id w) (dom (objs w))" and "\<And>i. 0 < a i \<Longrightarrow> sa t i"
  shows "ref_inv (w\<lparr>objs := t, next_id := next_id w + 1, app := a\<rparr>)"
  using assms(2-4) ref_invD(3,5-8) [OF inv] unfolding ref_inv_def by auto

lemma owns_D: "owns w i \<Longrightarrow> i \<in> dom (objs w)" "owns w i \<Longrightarrow> 0 < app w (ctr (objs w) i)"
  by (auto simp: owns_def)

lemma fit_obs: "counts_fit w \<Longrightarrow> ref_inv w \<Longrightarrow> i \<in> dom (objs w) \<Longrightarrow> obs (objs w) i + 1 < 65536"
proof -
  assume fit: "counts_fit w" and "ref_inv w" "i \<in> dom (objs w)"
  then have "toRefValue Object (fused (objs w) i) < 65535" using ref_invD(4) [of w i] by (simp add: counts_fit_def list_all_iff)
  then have "obc (fused (objs w) i) < 65535" by (simp add: word_less_nat_alt unat_toRefValue)
  then show ?thesis using \<open>i \<in> dom (objs w)\<close> by (auto simp: members)
qed

lemma app_inc: "(\<lambda>j. int ((a(i := a i + 1)) j)) = (\<lambda>j. int (a j))(i := int (a i) + 1)"
  by auto

lemma create_ok:
  assumes inv: "ref_inv w" and fit: "counts_fit w" and p: "allowed (Create p n) w"
  shows "\<exists>w'. ref_step (Create p n) w = Inr w' \<and> ref_inv w'"
proof -
  have z: "app w (next_id w) = 0" using ref_invD(2,3) [OF inv] sa_dom by (metis gr0I)
  obtain t x where t: "new_object (next_id w) p n (objs w) = Inr t" "counted {} ((\<lambda>i. int (app w i))(next_id w := 1)) [] t"
    "rest [] ((objs w)(next_id w \<mapsto> x)) t" "m_standalone x"
    using new_object_ok [OF ref_invD(1,3) [OF inv], of p n] p fit_obs [OF fit inv] ref_invD(4) [OF inv] sa_dom z by (fastforce split: option.splits)
  have "ref_inv (w\<lparr>objs := t, next_id := next_id w + 1, app := (app w)(next_id w := 1)\<rparr>)"
  proof (rule ref_inv_new [OF inv])
    have "(\<lambda>i. int (((app w)(next_id w := 1)) i)) = (\<lambda>i. int (app w i))(next_id w := 1)" by auto
    then show "counted {} (\<lambda>i. int (((app w)(next_id w := 1)) i)) [] t" using t(2) by simp
    have eq: "sa t j = sa ((objs w)(next_id w \<mapsto> x)) j" if "j \<in> insert (next_id w) (dom (objs w))" for j
      using t(3) that unfolding rest_def upd_members(8) by simp
    show "dom t = insert (next_id w) (dom (objs w))" using t(3) unfolding rest_def upd_members(8) by simp
    show "sa t i" if "0 < ((app w)(next_id w := 1)) i" for i
      using that ref_invD(2) [OF inv, of i] eq [of i] sa_dom [of "objs w" i] t(4) by (auto simp: upd_members split: if_splits)
  qed
  then show ?thesis using t(1) by (simp add: bindE_def)
qed

lemma create_child_ok:
  assumes inv: "ref_inv w" and fit: "counts_fit w" and c: "allowed (CreateChild c) w"
  shows "\<exists>w'. ref_step (CreateChild c) w = Inr w' \<and> ref_inv w'"
proof -
  have p: "sa (objs w) c" "c < next_id w" using c ref_invD(4) [OF inv] sa_dom by auto
  obtain t u where t: "new_child (next_id w) c (objs w) = Inr t" "counted {} ((\<lambda>i. int (app w i))(c := int (app w c) + 1)) [] t"
    "rest [] u t" "dom u = insert (next_id w) (dom (objs w))" "\<And>j. sa u j = sa (objs w) j"
    using new_child_ok [OF ref_invD(1,3) [OF inv] p(2,1) fit_obs [OF fit inv]] by blast
  have "ref_inv (w\<lparr>objs := t, next_id := next_id w + 1, app := (app w)(c := app w c + 1)\<rparr>)"
  proof (rule ref_inv_new [OF inv])
    show "counted {} (\<lambda>i. int (((app w)(c := app w c + 1)) i)) [] t" unfolding app_inc by (rule t(2))
    show "dom t = insert (next_id w) (dom (objs w))" using t(3,4) unfolding rest_def by simp
    show "sa t i" if "0 < ((app w)(c := app w c + 1)) i" for i
    proof -
      have "sa (objs w) i" using that ref_invD(2) [OF inv, of i] p(1) by (auto split: if_splits)
      then show ?thesis using t(3,4,5) sa_dom [of "objs w" i] unfolding rest_def by auto
    qed
  qed
  then show ?thesis using t(1) by (simp add: bindE_def)
qed

lemma addref_ok:
  assumes inv: "ref_inv w" and fit: "counts_fit w" and o: "owns w i"
  shows "\<exists>w'. ref_step (AddRefOn i) w = Inr w' \<and> ref_inv w'"
proof -
  let ?r = "ctr (objs w) i" and ?e = "(\<lambda>j. int (app w j))(ctr (objs w) i := int (app w (ctr (objs w) i)) + 1)"
  note c = ref_invD(1) [OF inv]
  have r: "sa (objs w) ?r" using ref_invD(2) [OF inv] owns_D(2) [OF o] .
  have "\<exists>cnt t. AddRef (Suc i) i (objs w) = Inr (cnt, t) \<and> counted {} ?e [] t \<and> rest [] (objs w) t"
  proof (rule AddRef_ok)
    show "counted {?r} ?e [] (objs w)" by (rule counted_exempt [OF c]) auto
    show "sa (objs w) q" if "par (objs w) j = Some q" for j q using parents_live [OF c that] .
    show "obs (objs w) j + 1 < 65536" if "j \<le> i" for j
      using fit_obs [OF fit inv, of j] members_outside [of j "objs w"] by (cases "j \<in> dom (objs w)") auto
  qed (use countedD(4) [OF c r] owns_D(1) [OF o] in auto)
  then obtain cnt t where t: "AddRef (Suc i) i (objs w) = Inr (cnt, t)" "counted {} ?e [] t" "rest [] (objs w) t" by blast
  have "ref_inv (w\<lparr>objs := t, app := (app w)(?r := app w ?r + 1), destroyed := destroyed w @ []\<rparr>)"
  proof (rule ref_inv_gone [OF inv])
    show "counted {} (\<lambda>j. int (((app w)(?r := app w ?r + 1)) j)) [] t" unfolding app_inc by (rule t(2))
    show "sa t j" if "0 < ((app w)(?r := app w ?r + 1)) j" for j
      using that ref_invD(2) [OF inv, of j] r t(3) sa_dom [of "objs w" j] unfolding rest_def by (auto split: if_splits)
  qed (rule rest_gone [OF t(3)])
  then show ?thesis using t(1) by (simp add: bindE_def del: AddRef.simps)
qed

lemma release_op_ok:
  assumes inv: "ref_inv w" and o: "owns w i"
  shows "\<exists>w'. ref_step (ReleaseOn i) w = Inr w' \<and> ref_inv w'"
proof -
  let ?r = "ctr (objs w) i" let ?a = "(app w)(?r := app w ?r - 1)"
  note c = ref_invD(1) [OF inv]
  have r: "sa (objs w) ?r" using ref_invD(2) [OF inv] owns_D(2) [OF o] .
  have "\<exists>cnt l t. Release (Suc i) i (objs w) = Inr (cnt, l, t) \<and> counted {} (\<lambda>j. int (?a j)) [] t \<and> rest l (objs w) t
    \<and> (\<forall>j. sa (objs w) j \<and> 0 < int (?a j) \<longrightarrow> sa t j)"
  proof (rule Release_ok)
    show "counted {?r} (\<lambda>j. int (?a j)) [] (objs w)" by (rule counted_exempt [OF c]) auto
    show "sa (objs w) q" if "par (objs w) j = Some q" for j q using parents_live [OF c that] .
  qed (use countedD(4) [OF c r] owns_D [OF o] in \<open>auto simp: of_nat_diff\<close>)
  then obtain cnt l t where t: "Release (Suc i) i (objs w) = Inr (cnt, l, t)" "counted {} (\<lambda>j. int (?a j)) [] t" "rest l (objs w) t"
    "\<forall>j. sa (objs w) j \<and> 0 < int (?a j) \<longrightarrow> sa t j" by blast
  have "ref_inv (w\<lparr>objs := t, app := ?a, destroyed := destroyed w @ l\<rparr>)"
  proof (rule ref_inv_gone [OF inv t(2) rest_gone [OF t(3)]])
    fix j assume j: "0 < ?a j"
    then have "sa (objs w) j" using ref_invD(2) [OF inv, of j] r by (auto split: if_splits)
    then show "sa t j" using t(4) j by simp
  qed
  then show ?thesis using t(1) by (simp add: bindE_def del: Release.simps)
qed

lemma pointer_op_ok:
  assumes inv: "ref_inv w" and t: "counted {} (\<lambda>i. int (app w i)) [] t" "gone l (objs w) t" "\<forall>j. sa (objs w) j \<and> 0 < int (app w j) \<longrightarrow> sa t j"
  shows "ref_inv (w\<lparr>objs := t, destroyed := destroyed w @ l\<rparr>)"
proof -
  have "ref_inv (w\<lparr>objs := t, app := app w, destroyed := destroyed w @ l\<rparr>)"
    using ref_inv_gone [OF inv t(1,2)] t(3) ref_invD(2) [OF inv] by simp
  then show ?thesis by simp
qed

lemma ref_step_ok:
  assumes inv: "ref_inv w" and fit: "counts_fit w" and a: "allowed a w"
  shows "\<exists>w'. ref_step a w = Inr w' \<and> ref_inv w'"
proof (cases a)
  case (Assign h k v)
  then have k: "k < length (sl (objs w) h)" "fits (objs w) h v" and o: "\<And>i. v = Some i \<Longrightarrow> owns w i" using a by auto
  have i: "i \<in> dom (objs w) \<and> obs (objs w) (ctr (objs w) i) + 1 < 65536" if "v = Some i" for i
    using owns_D(1) [OF o [OF that]] fit_obs [OF fit inv sa_dom [OF ctr_sa [OF countedD(1) [OF ref_invD(1) [OF inv]]]]] by blast
  obtain l t where t: "assign_ptr h k v (objs w) = Inr (l, t)" "counted {} (\<lambda>i. int (app w i)) [] t" "gone l (objs w) t"
    "\<forall>j. sa (objs w) j \<and> 0 < int (app w j) \<longrightarrow> sa t j"
    using assign_ok [OF ref_invD(1) [OF inv] _ k i] by auto
  show ?thesis using pointer_op_ok [OF inv t(2-4)] t(1) Assign by (simp add: bindE_def)
next
  case (CopyPtr h k h' k')
  then have k: "k < length (sl (objs w) h)" "k' < length (sl (objs w) h')" "(h, k) \<noteq> (h', k')" "fits (objs w) h (sl (objs w) h' ! k')"
    using a by auto
  obtain l t where t: "reset_ptr h k (sl (objs w) h' ! k') (objs w) = Inr (l, t)" "counted {} (\<lambda>i. int (app w i)) [] t" "gone l (objs w) t"
    "\<forall>j. sa (objs w) j \<and> 0 < int (app w j) \<longrightarrow> sa t j"
    using reset_ok [OF ref_invD(1) [OF inv] _ k fit_obs [OF fit inv]] by auto
  have "get_slot h' k' (objs w) = Inr (sl (objs w) h' ! k')" using k(2) by (auto simp: get_slot_def getE_def members split: option.splits)
  then show ?thesis using pointer_op_ok [OF inv t(2-4)] t(1) CopyPtr by (simp add: bindE_def)
qed (use inv fit a create_ok create_child_ok addref_ok release_op_ok in \<open>simp_all del: ref_step.simps\<close>)

lemma ref_run_ok: "ref_inv w \<Longrightarrow> well_behaved ops w \<Longrightarrow> \<exists>w'. ref_run ops w = Inr w' \<and> ref_inv w'"
proof (induction ops arbitrary: w)
  case (Cons a ops)
  obtain u where "ref_step a w = Inr u" "ref_inv u" using ref_step_ok Cons.prems by fastforce
  then show ?case using Cons by (simp add: bindE_def)
qed simp

lemma ref_inv_empty: "ref_inv empty_world"
  by (simp add: ref_inv_def empty_world_def counted_def shape_def members)



section \<open>The width of the counts\<close>

lemma incRef_Object_many: "((\<lambda>c. snd (incRef Object c)) ^^ n) c = c + of_nat n"
  by (induction n) (simp_all add: incRef_def toAdjValue_1 Let_def)

text \<open>C32. 65536 more bindings of one object leave its count of references where it was: the next one that is let go of destroys it.\<close>

theorem references_wrap:
  assumes "obc c = 1"
  shows "snd (snd (decRef Object (((\<lambda>c. snd (incRef Object c)) ^^ 65536) c)))"
proof -
  have wrap: "((\<lambda>c. snd (incRef Object c)) ^^ 65536) c = c + 65536" unfolding incRef_Object_many of_nat_numeral by (rule refl)
  have "unat (c + 65536) = (unat c + 65536) mod 4294967296" by (simp add: unat_word_ariths)
  moreover have "(unat c + 65536) mod 4294967296 mod 65536 = unat c mod 65536" by (subst mod_mod_cancel) simp_all
  ultimately have "obc (c + 65536) = 1" using assms unfolding obc_def by (simp only:)
  then show ?thesis using decRef_Object [of "c + 65536"] unfolding wrap by auto
qed

section \<open>Witnesses\<close>

text \<open>A device with two slots, a texture with a level, a state block; the texture is bound and captured, and everything is released.\<close>

definition demo_run :: "ref_op list" where
  "demo_run = [Create None 0, Create (Some 1) 2, Create (Some 2) 0, CreateChild 3, Create (Some 2) 1, Assign 2 0 (Some 4), CopyPtr 5 0 2 0,
     ReleaseOn 3, ReleaseOn 4, AddRefOn 5, ReleaseOn 5, ReleaseOn 2, ReleaseOn 5, ReleaseOn 1]"

lemma demo_well_behaved: "well_behaved demo_run empty_world"
  by code_simp

lemma demo_end: "(case ref_run demo_run empty_world of Inl _ \<Rightarrow> False | Inr w \<Rightarrow>
    next_id w = 6 \<and> list_all (\<lambda>i. app w i = 0) [0 ..< 6] \<and> destroyed w = [5, 2, 3, 4, 1])"
  by code_simp



theorem references_wrap_witness: "snd (snd (decRef Object (((\<lambda>c. snd (incRef Object c)) ^^ 65536) 65537)))"
proof (rule references_wrap)
  show "obc 65537 = 1" by (simp add: obc_def)
qed

end
