(* ===== verification/Device_Reset.thy ===== *)
theory Device_Reset
  imports Device_Invariant Swap_Chain
begin

text \<open>
  A device from its construction through resets (\<open>d3d9_device_base.cpp\<close>, \<open>d3d9_device.h\<close>, \<open>d3d9_device.cpp\<close>): the state a new
  device assumes, its implicit swap chain, render target and depth buffer, and what \<open>Reset\<close> and \<open>ResetEx\<close> give up and set anew.  References
  that are given up are events, in the order of the code; what follows from them is in the theories on reference counts.
\<close>

section \<open>State\<close>

text \<open>What the device is given: the ids of new wrappers, and of its creation parameters what the functions here read.\<close>

record reset_env =
  this_id :: u32
  clientArea :: "u32 \<Rightarrow> u32 \<times> u32"
  forceWindowed :: bool
  hFocusWindow :: u32
  noWindowChanges :: bool

record new_ids =
  chain_id :: u32
  buffer_ids :: "u32 list"
  target_id :: u32
  depth_id :: u32

text \<open>The implicit swap chain with its presentation parameters; the null pointer is 0 for surfaces.\<close>

record reset_device =
  shadow :: device
  m_pSwapchain :: "(u32 \<times> pres_params32) option"
  m_pImplicitRenderTarget :: u32
  m_pImplicitDepthStencil :: u32
  m_implicitRefCnt :: u32
  m_presParams :: pres_params32
  m_previousPresentParams :: pres_params32
  m_gammaRamp :: memory

text \<open>\<open>TakeDevice\<close> and \<open>LetGo\<close> are \<open>AddRef\<close> of the device and \<open>Release\<close> of an object, \<open>Unbind\<close> a \<open>D3DAutoPtr\<close> that lets go of its object.\<close>

datatype reset_event = TakeDevice | LetGo u32 | Unbind u32 | Tell cmd

definition unbound :: "u32 \<Rightarrow> reset_event list" where
  "unbound i = (if i = 0 then [] else [Unbind i])"

definition set_shadow :: "(dev_state \<Rightarrow> dev_state) \<Rightarrow> reset_device \<Rightarrow> reset_device" where
  "set_shadow f d = d\<lparr>shadow := set_state f (shadow d)\<rparr>"

definition sanitize_for :: "reset_env \<Rightarrow> pres_params32 \<Rightarrow> pres_params32" where
  "sanitize_for env = sanitizePresentationParameters (clientArea env) (forceWindowed env) (hFocusWindow env)"

section \<open>The implicit objects\<close>

definition initImplicitSwapchain :: "reset_env \<Rightarrow> new_ids \<Rightarrow> pres_params32 \<Rightarrow> reset_device \<Rightarrow> reset_device \<times> reset_event list" where
  "initImplicitSwapchain env ids presParam d =
    (d\<lparr>m_pSwapchain := Some (chain_id ids, sanitize_for env presParam), m_implicitRefCnt := m_implicitRefCnt d + 1\<rparr>,
     map Tell (new_SwapChain (this_id env) (chain_id ids) (buffer_ids ids)
       @ (if Windowed presParam \<noteq> Windowed (m_previousPresentParams d) \<and> \<not> noWindowChanges env
          then [(this_id env, ''SetGammaRamp'', [Word 0, Word 0, Obj (Some (m_gammaRamp d))])] else [])))"

definition initImplicitRenderTarget :: "reset_env \<Rightarrow> new_ids \<Rightarrow> reset_device \<Rightarrow> reset_device \<times> reset_event list" where
  "initImplicitRenderTarget env ids d =
    ((set_shadow (renderTargets_update (\<lambda>xs. xs[0 := target_id ids])) d)
       \<lparr>m_pImplicitRenderTarget := target_id ids, m_implicitRefCnt := m_implicitRefCnt d + 1\<rparr>,
     Tell (this_id env, ''LinkBackBuffer'', [Word 0, Word (target_id ids)]) # unbound (renderTargets (m_state (shadow d)) ! 0))"

definition initImplicitDepthStencil :: "reset_env \<Rightarrow> new_ids \<Rightarrow> reset_device \<Rightarrow> reset_device \<times> reset_event list" where
  "initImplicitDepthStencil env ids d =
    ((set_shadow (depthStencil_update (\<lambda>_. depth_id ids)) d)
       \<lparr>m_pImplicitDepthStencil := depth_id ids, m_implicitRefCnt := m_implicitRefCnt d + 1\<rparr>,
     Tell (this_id env, ''LinkAutoDepthStencil'', [Word (depth_id ids)]) # unbound (depthStencil (m_state (shadow d))))"

definition dev_initImplicitObjects :: "reset_env \<Rightarrow> new_ids \<Rightarrow> pres_params32 \<Rightarrow> reset_device \<Rightarrow> reset_device \<times> reset_event list" where
  "dev_initImplicitObjects env ids presParam d =
    (let (d1, e1) = initImplicitSwapchain env ids presParam d;
         (d2, e2) = initImplicitRenderTarget env ids d1
     in if EnableAutoDepthStencil presParam \<noteq> 0
        then (let (d3, e3) = initImplicitDepthStencil env ids d2 in (d3, e1 @ e2 @ e3))
        else (d2, e1 @ e2))"

definition destroyImplicitObjects :: "reset_device \<Rightarrow> (reset_device \<times> reset_event list) or_error" where
  "destroyImplicitObjects d =
    (if m_pImplicitRenderTarget d = 0 then Inl NullDereference else
     let e1 = LetGo (m_pImplicitRenderTarget d) # unbound (renderTargets (m_state (shadow d)) ! 0);
         d1 = (set_shadow (renderTargets_update (\<lambda>xs. xs[0 := 0])) d)
           \<lparr>m_pImplicitRenderTarget := 0, m_implicitRefCnt := m_implicitRefCnt d - 1\<rparr>
     in case m_pSwapchain d of None \<Rightarrow> Inl NullDereference | Some (chain, p) \<Rightarrow>
     bindE (if EnableAutoDepthStencil p = 0 then Inr (d1, [])
       else if m_pImplicitDepthStencil d = 0 then Inl NullDereference
       else Inr ((set_shadow (depthStencil_update (\<lambda>_. 0)) d1)
           \<lparr>m_pImplicitDepthStencil := 0, m_implicitRefCnt := m_implicitRefCnt d1 - 1\<rparr>,
         LetGo (m_pImplicitDepthStencil d) # unbound (depthStencil (m_state (shadow d)))))
     (\<lambda>(d2, e2). Inr (d2\<lparr>m_pSwapchain := None, m_implicitRefCnt := m_implicitRefCnt d2 - 1\<rparr>,
        e1 @ e2 @ replicate (unat (BackBufferCount p)) (LetGo chain) @ [LetGo chain])))"

definition unbind_state :: "dev_state \<Rightarrow> dev_state" where
  "unbind_state s = s\<lparr>textures := map (\<lambda>_. (0, 0)) (textures s), renderTargets := map (\<lambda>_. 0) (renderTargets s), streams := map (\<lambda>_. 0) (streams s),
     indices := 0, depthStencil := 0, vertexShader := 0, pixelShader := 0, vertexDecl := 0\<rparr>"

definition unbind_events :: "dev_state \<Rightarrow> reset_event list" where
  "unbind_events s = concat (map (unbound \<circ> fst) (textures s)) @ concat (map unbound (renderTargets s)) @ concat (map unbound (streams s))
     @ unbound (indices s) @ unbound (depthStencil s) @ unbound (vertexShader s) @ unbound (pixelShader s) @ unbound (vertexDecl s)"

definition releaseInternalObjects :: "reset_env \<Rightarrow> bool \<Rightarrow> reset_device \<Rightarrow> (reset_device \<times> reset_event list) or_error" where
  "releaseInternalObjects env resetState d =
    (let implicitRefCnt = unat (m_implicitRefCnt d) in
     bindE (destroyImplicitObjects d) (\<lambda>(d1, e1).
     let (d2, e2) = (if resetState then (set_shadow unbind_state d1, unbind_events (m_state (shadow d1))) else (d1, []))
     in Inr (d2, replicate implicitRefCnt TakeDevice @ e1 @ e2 @ replicate implicitRefCnt (LetGo (this_id env)))))"

section \<open>The defaults\<close>

definition f0 :: u32 where "f0 = 0"
definition f1 :: u32 where "f1 = 0x3F800000"
definition f8192 :: u32 where "f8192 = 0x46000000"

text \<open>\<open>ResetState\<close>: the states of one texture stage and of one sampler; the last word of a sampler row is not written.\<close>

definition stage_defaults :: "nat \<Rightarrow> u32 list" where
  "stage_defaults stageIdx =
    [if stageIdx = 0 then 4 else 1, 2, 1, if stageIdx = 0 then 2 else 1, 2, 1, f0, f0, f0, f0, word_of_nat stageIdx, f0, f0, 0, 1, 1, 1, 0]"

definition sampler_defaults :: "u32 list" where
  "sampler_defaults = [1, 1, 1, 0, 1, 1, 0, 0, 0, 1, 0, 0, 0]"

definition render_defaults :: "(nat \<times> u32) list" where
  "render_defaults =
    [(8, 3), (9, 2), (14, 1), (15, 0), (16, 1), (19, 2), (20, 1), (22, 3), (23, 4), (24, 0), (25, 8), (26, 0), (27, 0), (28, 0), (29, 0),
     (34, 0), (35, 0), (36, f0), (37, f1), (38, f1), (48, 0), (52, 0), (53, 1), (54, 1), (55, 1), (56, 8), (57, 0), (58, 0xFFFFFFFF),
     (59, 0xFFFFFFFF), (60, 0xFFFFFFFF)]
     @ map (\<lambda>i. (128 + i, 0)) [0 ..< 8] @
    [(136, 1), (137, 1), (139, 0), (140, 0), (141, 1), (142, 1), (143, 0), (145, 1), (146, 2), (147, 0), (148, 0), (151, 0), (152, 0),
     (154, f1), (155, f1), (156, 0), (157, 0), (158, f1), (159, f0), (160, f0), (161, 1), (162, 0xFFFFFFFF), (163, 0), (165, 0),
     (166, f8192), (167, 0), (168, 15), (170, f0), (171, 1), (172, 3), (173, 1), (174, 0), (175, 0), (176, 0), (178, f1), (179, f1),
     (180, f0), (181, f0), (182, f1), (183, f0), (184, 0), (185, 0), (186, 1), (187, 1), (188, 1), (189, 8), (190, 15), (191, 15), (192, 15),
     (193, 0xFFFFFFFF), (194, 0), (195, f0)]
     @ map (\<lambda>i. (198 + i, 0)) [0 ..< 8] @ [(206, 0), (207, 2), (208, 1), (209, 1)]"

text \<open>The first argument is the value of \<open>D3DRS_ZENABLE\<close>.\<close>

definition reset_states :: "u32 \<Rightarrow> dev_state \<Rightarrow> dev_state" where
  "reset_states zenable s = s\<lparr>
     textureStageStates := map stage_defaults [0 ..< kNumStageSamplers],
     samplerStates := map (\<lambda>row. sampler_defaults @ drop (length sampler_defaults) row) (samplerStates s),
     renderStates := fold (\<lambda>(i, v) xs. xs[i := v]) ((7, zenable) # render_defaults) (renderStates s),
     bLightEnables := (\<lambda>i. i \<ge> 8 \<and> bLightEnables s i),
     streamFreqs := replicate MaxStreams 1\<rparr>"

definition ResetState :: "reset_device \<Rightarrow> reset_device" where
  "ResetState d = (let zenable = (case m_pSwapchain d of None \<Rightarrow> 0 | Some (_, p) \<Rightarrow> if EnableAutoDepthStencil p = 0 then 0 else 1);
       d1 = set_shadow (reset_states zenable) d
     in d1\<lparr>shadow := (shadow d1)\<lparr>m_curTexPalette := 65535\<rparr>\<rparr>)"

section \<open>Reset and construction\<close>

definition Reset :: "reset_env \<Rightarrow> new_ids \<Rightarrow> HRESULT \<Rightarrow> pres_params32 \<Rightarrow> reset_device \<Rightarrow> (HRESULT \<times> reset_device \<times> reset_event list) or_error" where
  "Reset env ids resp pPresentationParameters d =
    bindE (releaseInternalObjects env True d) (\<lambda>(d1, e1).
      let presParam = sanitize_for env pPresentationParameters;
          d2 = (ResetState d1)\<lparr>m_presParams := presParam\<rparr>;
          (d3, e3) = dev_initImplicitObjects env ids presParam d2
      in Inr (optional_response (shadow d) resp, d3\<lparr>m_previousPresentParams := pPresentationParameters\<rparr>,
           e1 @ [Tell (this_id env, ''Reset'', [Obj (Some (raw_bytes presParam))])] @ e3))"

definition ResetEx :: "reset_env \<Rightarrow> new_ids \<Rightarrow> HRESULT \<Rightarrow> pres_params32 \<Rightarrow> memory option \<Rightarrow> reset_device \<Rightarrow>
    (HRESULT \<times> reset_device \<times> reset_event list) or_error" where
  "ResetEx env ids resp pPresentationParameters pFullscreenDisplayMode d =
    bindE (releaseInternalObjects env False d) (\<lambda>(d1, e1).
      let presParam = sanitize_for env pPresentationParameters;
          d2 = d1\<lparr>m_presParams := presParam\<rparr>;
          (d3, e3) = dev_initImplicitObjects env ids presParam d2
      in Inr (optional_response (shadow d) resp, d3\<lparr>m_previousPresentParams := pPresentationParameters\<rparr>,
           e1 @ [Tell (this_id env, ''ResetEx'', [Obj (Some (raw_bytes presParam)), Obj pFullscreenDisplayMode])] @ e3))"

text \<open>The constructors of both classes; what \<open>raw\<close> holds in the members that they do not write is indeterminate.\<close>

definition identity_matrix :: memory where
  "identity_matrix = concat (map (\<lambda>k. u32_bytes (if k mod 5 = 0 then f1 else 0)) [0 ..< 16])"

definition new_state :: "pres_params32 \<Rightarrow> dev_state \<Rightarrow> dev_state" where
  "new_state p s = (unbind_state s)\<lparr>renderStates := replicate kNumRenderStates 0xFEFEFEFE,
     transforms := replicate 256 identity_matrix @ replicate (MaxTransforms - 256) (replicate 64 0),
     viewport := concat (map u32_bytes [0, 0, BackBufferWidth p, BackBufferHeight p, 0, f1]),
     scissorRect := concat (map u32_bytes [0, 0, BackBufferWidth p, BackBufferHeight p])\<rparr>"

definition new_Device :: "reset_env \<Rightarrow> new_ids \<Rightarrow> bool \<Rightarrow> pres_params32 \<Rightarrow> reset_device \<Rightarrow> reset_device \<times> reset_event list" where
  "new_Device env ids software presParams raw =
    (let d = (set_shadow (new_state presParams) raw)\<lparr>m_pSwapchain := None, m_pImplicitRenderTarget := 0, m_pImplicitDepthStencil := 0,
           m_implicitRefCnt := 0, m_presParams := presParams, m_previousPresentParams := presParams\<rparr>;
         d1 = d\<lparr>shadow := (shadow d)\<lparr>m_bSoftwareVtxProcessing := of_bool software, m_stateRecording := None\<rparr>\<rparr>;
         (d2, e) = dev_initImplicitObjects env ids presParams d1
     in (ResetState d2, e))"

section \<open>What a reset does\<close>

lemma fold_updates:
  "length (fold (\<lambda>(i, v) xs. xs[i := v]) ps xs) = length xs"
  "i < length xs \<Longrightarrow> distinct (map fst ps) \<Longrightarrow> (i, v) \<in> set ps \<Longrightarrow> fold (\<lambda>(i, v) xs. xs[i := v]) ps xs ! i = v"
proof -
  show len: "length (fold (\<lambda>(i, v) xs. xs[i := v]) ps xs) = length xs" for ps :: "(nat \<times> 'b) list" and xs by (induction ps arbitrary: xs) auto
  have other: "i \<notin> fst ` set ps \<Longrightarrow> fold (\<lambda>(i, v) xs. xs[i := v]) ps xs ! i = xs ! i" for ps :: "(nat \<times> 'b) list" and xs
    by (induction ps arbitrary: xs) auto
  show "i < length xs \<Longrightarrow> distinct (map fst ps) \<Longrightarrow> (i, v) \<in> set ps \<Longrightarrow> fold (\<lambda>(i, v) xs. xs[i := v]) ps xs ! i = v"
  proof (induction ps arbitrary: xs)
    case (Cons p ps)
    show ?case
    proof (cases "p = (i, v)")
      case True
      then have "i \<notin> fst ` set ps" using Cons.prems(2) by auto
      then show ?thesis using True Cons.prems(1) other [of ps "xs[i := v]"] by simp
    next
      case False
      then show ?thesis using Cons by (cases p) auto
    qed
  qed simp
qed

lemma distinct_defaults: "distinct (map fst ((7, z) # render_defaults))"
  by (simp add: render_defaults_def upt_rec)

lemma defaults_bound: "(i, v) \<in> set ((7, z) # render_defaults) \<Longrightarrow> i < 256"
  by (auto simp: render_defaults_def)

text \<open>The device between calls: the implicit objects are there, as many as it counts, and the arrays have their sizes.\<close>

definition reset_inv :: "reset_device \<Rightarrow> bool" where
  "reset_inv d \<longleftrightarrow> dev_inv (shadow d) \<and> length (renderTargets (m_state (shadow d))) = MaxSimultaneousRenderTargets
     \<and> m_pImplicitRenderTarget d \<noteq> 0 \<and> (case m_pSwapchain d of None \<Rightarrow> False
     | Some (_, p) \<Rightarrow> (EnableAutoDepthStencil p \<noteq> 0 \<longrightarrow> m_pImplicitDepthStencil d \<noteq> 0)
        \<and> m_implicitRefCnt d = (if EnableAutoDepthStencil p \<noteq> 0 then 3 else 2))"

lemma dev_inv_state: "dev_inv (shadow d) \<Longrightarrow> keeps f \<Longrightarrow> dev_inv (shadow (set_shadow f d))"
  by (simp add: set_shadow_def dev_inv_set_state)

lemma keeps_reset [simp]:
  "keeps unbind_state" "keeps (renderTargets_update f)" "keeps (depthStencil_update g)" "keeps (reset_states z)"
proof -
  show "keeps (reset_states z)"
    unfolding keeps_def shapes reset_states_def
    by (auto simp: fold_updates(1) stage_defaults_def sampler_defaults_def shape_defs)
qed (simp_all add: keeps_def shapes unbind_state_def)

lemma shadow_simps [simp]:
  "m_state (shadow (set_shadow f d)) = f (m_state (shadow d))" "m_stateRecording (shadow (set_shadow f d)) = m_stateRecording (shadow d)"
  "opt_eliminate (shadow (set_shadow f d)) = opt_eliminate (shadow d)" "opt_sendAll (shadow (set_shadow f d)) = opt_sendAll (shadow d)"
  "m_pSwapchain (set_shadow f d) = m_pSwapchain d" "m_pImplicitRenderTarget (set_shadow f d) = m_pImplicitRenderTarget d"
  "m_pImplicitDepthStencil (set_shadow f d) = m_pImplicitDepthStencil d" "m_implicitRefCnt (set_shadow f d) = m_implicitRefCnt d"
  "m_presParams (set_shadow f d) = m_presParams d" "m_previousPresentParams (set_shadow f d) = m_previousPresentParams d"
  "m_gammaRamp (set_shadow f d) = m_gammaRamp d"
  by (simp_all add: set_shadow_def set_state_def)

definition letGo :: "reset_event list \<Rightarrow> u32 list" where
  "letGo es = concat (map (\<lambda>e. case e of LetGo i \<Rightarrow> [i] | _ \<Rightarrow> []) es)"

lemma letGo_simps [simp]:
  "letGo [] = []" "letGo (LetGo i # es) = i # letGo es" "letGo (TakeDevice # es) = letGo es" "letGo (Unbind i # es) = letGo es"
  "letGo (Tell c # es) = letGo es" "letGo (es @ fs) = letGo es @ letGo fs" "letGo (unbound i) = []" "letGo (map Tell cs) = []"
  "letGo (replicate n (LetGo i)) = replicate n i" "letGo (replicate n TakeDevice) = []"
  by (simp_all add: letGo_def unbound_def comp_def)

lemma letGo_unbound [simp]: "letGo (concat (map unbound xs)) = []" "letGo (concat (map (unbound \<circ> f) ys)) = []"
  by (simp_all add: letGo_def unbound_def map_concat comp_def if_distrib cong: if_cong)

lemma letGo_unbind [simp]: "letGo (unbind_events s) = []"
  by (simp add: unbind_events_def)

text \<open>Letting go of the internal objects: the counts come out even, and the state is only unbound.\<close>

definition give_up :: "bool \<Rightarrow> bool \<Rightarrow> dev_state \<Rightarrow> dev_state" where
  "give_up auto all s = (if all then unbind_state else id) ((if auto then depthStencil_update (\<lambda>_. 0) else id) (renderTargets_update (\<lambda>xs. xs[0 := 0]) s))"

lemma keeps_give_up: "keeps (give_up auto all)"
  using keeps_reset(1) keeps_reset(2) [of "\<lambda>xs. xs[0 := 0]"] keeps_reset(3) [of "\<lambda>_. 0"] by (simp add: keeps_def give_up_def)

lemma releaseInternalObjects_ok:
  assumes inv: "reset_inv d" and c: "m_pSwapchain d = Some (chain, p)"
  shows "\<exists>d1 ev. releaseInternalObjects env all d = Inr (d1, ev)
    \<and> shadow d1 = set_state (give_up (EnableAutoDepthStencil p \<noteq> 0) all) (shadow d) \<and> m_pSwapchain d1 = None \<and> m_implicitRefCnt d1 = 0
    \<and> m_previousPresentParams d1 = m_previousPresentParams d \<and> m_gammaRamp d1 = m_gammaRamp d
    \<and> letGo ev = m_pImplicitRenderTarget d # (if EnableAutoDepthStencil p \<noteq> 0 then [m_pImplicitDepthStencil d] else [])
        @ replicate (unat (BackBufferCount p) + 1) chain @ replicate (unat (m_implicitRefCnt d)) (this_id env)"
  using inv c
  by (cases "EnableAutoDepthStencil p = 0"; cases all)
     (simp_all add: reset_inv_def releaseInternalObjects_def destroyImplicitObjects_def bindE_def Let_def give_up_def set_shadow_def set_state_def replicate_append_same)

lemma dev_initImplicitObjects_ok:
  "\<exists>d1 ev. dev_initImplicitObjects env ids p d = (d1, ev)
    \<and> shadow d1 = set_state ((if EnableAutoDepthStencil p \<noteq> 0 then depthStencil_update (\<lambda>_. depth_id ids) else id)
        \<circ> renderTargets_update (\<lambda>xs. xs[0 := target_id ids])) (shadow d)
    \<and> m_pSwapchain d1 = Some (chain_id ids, sanitize_for env p) \<and> m_pImplicitRenderTarget d1 = target_id ids
    \<and> m_pImplicitDepthStencil d1 = (if EnableAutoDepthStencil p \<noteq> 0 then depth_id ids else m_pImplicitDepthStencil d)
    \<and> m_implicitRefCnt d1 = m_implicitRefCnt d + (if EnableAutoDepthStencil p \<noteq> 0 then 3 else 2)
    \<and> letGo ev = []"
  by (simp add: dev_initImplicitObjects_def initImplicitSwapchain_def initImplicitRenderTarget_def initImplicitDepthStencil_def Let_def
      set_shadow_def set_state_def comp_def split: prod.split)

lemma sanitize_auto: "EnableAutoDepthStencil (sanitize_for env p) = EnableAutoDepthStencil p"
  by (simp add: sanitize_for_def sanitize_fields)

lemma keeps_comp: "keeps f \<Longrightarrow> keeps g \<Longrightarrow> keeps (f \<circ> g)"
  by (simp add: keeps_def)

lemma keeps_init: "keeps ((if a then depthStencil_update f else id) \<circ> renderTargets_update g)"
  by (rule keeps_comp) (simp_all add: keeps_def shapes)

text \<open>The state after a reset.\<close>

definition after_reset :: "bool \<Rightarrow> bool \<Rightarrow> new_ids \<Rightarrow> dev_state \<Rightarrow> dev_state" where
  "after_reset auto auto' ids s = ((if auto' then depthStencil_update (\<lambda>_. depth_id ids) else id)
     \<circ> renderTargets_update (\<lambda>xs. xs[0 := target_id ids])) (reset_states 0 (give_up auto True s))"

lemma Reset_eq:
  assumes inv: "reset_inv d" and c: "m_pSwapchain d = Some (chain, p)"
  shows "\<exists>d' ev. Reset env ids resp pp d = Inr (optional_response (shadow d) resp, d', ev)
    \<and> shadow d' = (set_state (after_reset (EnableAutoDepthStencil p \<noteq> 0) (EnableAutoDepthStencil pp \<noteq> 0) ids) (shadow d))\<lparr>m_curTexPalette := 65535\<rparr>
    \<and> m_pSwapchain d' = Some (chain_id ids, sanitize_for env (sanitize_for env pp)) \<and> m_pImplicitRenderTarget d' = target_id ids
    \<and> (EnableAutoDepthStencil pp \<noteq> 0 \<longrightarrow> m_pImplicitDepthStencil d' = depth_id ids)
    \<and> m_implicitRefCnt d' = (if EnableAutoDepthStencil pp \<noteq> 0 then 3 else 2) \<and> m_previousPresentParams d' = pp
    \<and> letGo ev = m_pImplicitRenderTarget d # (if EnableAutoDepthStencil p \<noteq> 0 then [m_pImplicitDepthStencil d] else [])
        @ replicate (unat (BackBufferCount p) + 1) chain @ replicate (unat (m_implicitRefCnt d)) (this_id env)"
proof -
  obtain d1 e1 where r: "releaseInternalObjects env True d = Inr (d1, e1)"
    "shadow d1 = set_state (give_up (EnableAutoDepthStencil p \<noteq> 0) True) (shadow d)" "m_pSwapchain d1 = None" "m_implicitRefCnt d1 = 0"
    "letGo e1 = m_pImplicitRenderTarget d # (if EnableAutoDepthStencil p \<noteq> 0 then [m_pImplicitDepthStencil d] else [])
        @ replicate (unat (BackBufferCount p) + 1) chain @ replicate (unat (m_implicitRefCnt d)) (this_id env)"
    using releaseInternalObjects_ok [OF assms, of env True] by blast
  let ?d2 = "(ResetState d1)\<lparr>m_presParams := sanitize_for env pp\<rparr>"
  have d2: "shadow ?d2 = (set_state (reset_states 0) (shadow d1))\<lparr>m_curTexPalette := 65535\<rparr>" "m_implicitRefCnt ?d2 = 0"
    using r(3,4) by (simp_all add: ResetState_def set_shadow_def)
  obtain d3 e3 where i: "dev_initImplicitObjects env ids (sanitize_for env pp) ?d2 = (d3, e3)"
    "shadow d3 = set_state ((if EnableAutoDepthStencil pp \<noteq> 0 then depthStencil_update (\<lambda>_. depth_id ids) else id)
        \<circ> renderTargets_update (\<lambda>xs. xs[0 := target_id ids])) (shadow ?d2)"
    "m_pSwapchain d3 = Some (chain_id ids, sanitize_for env (sanitize_for env pp))" "m_pImplicitRenderTarget d3 = target_id ids"
    "EnableAutoDepthStencil pp \<noteq> 0 \<longrightarrow> m_pImplicitDepthStencil d3 = depth_id ids"
    "m_implicitRefCnt d3 = m_implicitRefCnt ?d2 + (if EnableAutoDepthStencil pp \<noteq> 0 then 3 else 2)" "letGo e3 = []"
    using dev_initImplicitObjects_ok [of env ids "sanitize_for env pp" ?d2] unfolding sanitize_auto by auto
  have "shadow d3 = (set_state (after_reset (EnableAutoDepthStencil p \<noteq> 0) (EnableAutoDepthStencil pp \<noteq> 0) ids) (shadow d))\<lparr>m_curTexPalette := 65535\<rparr>"
    unfolding i(2) d2(1) r(2) by (simp add: set_state_def after_reset_def)
  then show ?thesis
    by (intro exI [of _ "d3\<lparr>m_previousPresentParams := pp\<rparr>"]) (use r i d2(2) in \<open>simp add: Reset_def bindE_def Let_def\<close>)
qed

lemma keeps_after_reset: "keeps (after_reset auto auto' ids)"
  using keeps_init [of auto' "\<lambda>_. depth_id ids" "\<lambda>xs. xs[0 := target_id ids]"] keeps_reset(4) [of 0] keeps_give_up [of auto True]
  unfolding keeps_def after_reset_def by blast

lemma reset_states_fields:
  "transforms (reset_states z s) = transforms s" "viewport (reset_states z s) = viewport s" "scissorRect (reset_states z s) = scissorRect s"
  "material (reset_states z s) = material s" "lights (reset_states z s) = lights s" "clipPlanes (reset_states z s) = clipPlanes s"
  "renderStates (reset_states z s) = fold (\<lambda>(i, v) xs. xs[i := v]) ((7, z) # render_defaults) (renderStates s)"
  "textureStageStates (reset_states z s) = map stage_defaults [0 ..< kNumStageSamplers]"
  "samplerStates (reset_states z s) = map (\<lambda>row. sampler_defaults @ drop (length sampler_defaults) row) (samplerStates s)"
  "textures (reset_states z s) = textures s" "streams (reset_states z s) = streams s" "renderTargets (reset_states z s) = renderTargets s"
  by (simp_all add: reset_states_def del: fold_Cons)

lemma give_up_fields:
  "transforms (give_up a b s) = transforms s" "viewport (give_up a b s) = viewport s" "scissorRect (give_up a b s) = scissorRect s"
  "material (give_up a b s) = material s" "lights (give_up a b s) = lights s" "clipPlanes (give_up a b s) = clipPlanes s"
  "renderStates (give_up a b s) = renderStates s" "samplerStates (give_up a b s) = samplerStates s"
  "textures (give_up a True s) = map (\<lambda>_. (0, 0)) (textures s)" "streams (give_up a True s) = map (\<lambda>_. 0) (streams s)"
  "length (renderTargets (give_up a b s)) = length (renderTargets s)"
  by (simp_all add: give_up_def unbind_state_def)

lemma after_reset_fields:
  "transforms (after_reset a b ids s) = transforms s" "viewport (after_reset a b ids s) = viewport s" "scissorRect (after_reset a b ids s) = scissorRect s"
  "material (after_reset a b ids s) = material s" "lights (after_reset a b ids s) = lights s" "clipPlanes (after_reset a b ids s) = clipPlanes s"
  "renderStates (after_reset a b ids s) = fold (\<lambda>(i, v) xs. xs[i := v]) ((7, 0) # render_defaults) (renderStates s)"
  "textureStageStates (after_reset a b ids s) = map stage_defaults [0 ..< kNumStageSamplers]"
  "samplerStates (after_reset a b ids s) = map (\<lambda>row. sampler_defaults @ drop (length sampler_defaults) row) (samplerStates s)"
  "textures (after_reset a b ids s) = map (\<lambda>_. (0, 0)) (textures s)" "streams (after_reset a b ids s) = map (\<lambda>_. 0) (streams s)"
  "length (renderTargets (after_reset a b ids s)) = length (renderTargets s)"
  by (simp_all add: after_reset_def reset_states_fields give_up_fields del: fold_Cons)

lemma device_reset_ok:
  assumes "reset_inv d" and "m_pSwapchain d = Some (chain, p)" and "target_id ids \<noteq> 0" and "depth_id ids \<noteq> 0"
  shows "\<exists>d' ev. Reset env ids resp pp d = Inr (optional_response (shadow d) resp, d', ev) \<and> reset_inv d'
    \<and> (\<forall>(i, v) \<in> set render_defaults. dev_GetRenderState (word_of_nat i) (shadow d') = Inr v)
    \<and> textureStageStates (m_state (shadow d')) = map stage_defaults [0 ..< kNumStageSamplers]
    \<and> (\<forall>row \<in> set (samplerStates (m_state (shadow d'))). take 13 row = sampler_defaults)
    \<and> set (textures (m_state (shadow d'))) \<subseteq> {(0, 0)} \<and> set (streams (m_state (shadow d'))) \<subseteq> {0}
    \<and> letGo ev = m_pImplicitRenderTarget d # (if EnableAutoDepthStencil p \<noteq> 0 then [m_pImplicitDepthStencil d] else [])
        @ replicate (unat (BackBufferCount p) + 1) chain @ replicate (unat (m_implicitRefCnt d)) (this_id env)"
proof -
  obtain d' ev where r: "Reset env ids resp pp d = Inr (optional_response (shadow d) resp, d', ev)"
    "shadow d' = (set_state (after_reset (EnableAutoDepthStencil p \<noteq> 0) (EnableAutoDepthStencil pp \<noteq> 0) ids) (shadow d))\<lparr>m_curTexPalette := 65535\<rparr>"
    "m_pSwapchain d' = Some (chain_id ids, sanitize_for env (sanitize_for env pp))" "m_pImplicitRenderTarget d' = target_id ids"
    "EnableAutoDepthStencil pp \<noteq> 0 \<longrightarrow> m_pImplicitDepthStencil d' = depth_id ids"
    "m_implicitRefCnt d' = (if EnableAutoDepthStencil pp \<noteq> 0 then 3 else 2)"
    "letGo ev = m_pImplicitRenderTarget d # (if EnableAutoDepthStencil p \<noteq> 0 then [m_pImplicitDepthStencil d] else [])
        @ replicate (unat (BackBufferCount p) + 1) chain @ replicate (unat (m_implicitRefCnt d)) (this_id env)"
    using Reset_eq [OF assms(1,2), of env ids resp pp] by blast
  have inv: "dev_inv (shadow d)" "length (renderTargets (m_state (shadow d))) = MaxSimultaneousRenderTargets" using assms(1) by (simp_all add: reset_inv_def)
  then have len: "length (renderStates (m_state (shadow d))) = 256" by (simp add: dev_inv_def shapes kNumRenderStates_def)
  have "dev_inv (shadow d')" using dev_inv_set_state [OF inv(1) keeps_after_reset] unfolding r(2) by (simp add: dev_inv_def)
  then have "reset_inv d'" using r(2-6) inv(2) assms(3,4) by (simp add: reset_inv_def after_reset_fields sanitize_auto set_state_def)
  moreover have "dev_GetRenderState (word_of_nat i) (shadow d') = Inr v" if "(i, v) \<in> set render_defaults" for i v
  proof -
    have i: "i < 256" using defaults_bound [of i v 0] that by simp
    then have "unat (word_of_nat i :: u32) = i" by (simp add: unat_of_nat)
    moreover have "fold (\<lambda>(i, v) xs. xs[i := v]) ((7, 0) # render_defaults) (renderStates (m_state (shadow d))) ! i = v"
      by (rule fold_updates(2) [OF _ distinct_defaults]) (use i len that in simp_all)
    moreover have "renderStates (m_state (shadow d')) = fold (\<lambda>(i, v) xs. xs[i := v]) ((7, 0) # render_defaults) (renderStates (m_state (shadow d)))"
      unfolding r(2) by (simp add: set_state_def after_reset_fields del: fold_Cons)
    ultimately show ?thesis using i len by (simp add: dev_GetRenderState_def getE_def fold_updates(1) del: fold_Cons)
  qed
  moreover have "take 13 row = sampler_defaults" if "row \<in> set (samplerStates (m_state (shadow d')))" for row
    using that unfolding r(2) by (auto simp: set_state_def after_reset_fields sampler_defaults_def)
  ultimately show ?thesis using r(1,2,7) by (auto simp: set_state_def after_reset_fields)
qed


text \<open>The state that a reset leaves alone on the client is at its defaults in the runtime.  A setter that repeats the value from before the reset is
  taken for redundant and dropped; and as the swap chain is gone when the state is reset, so is the call that turns the depth test off.\<close>

theorem reset_drops_setters:
  assumes "reset_inv d" and "opt_eliminate (shadow d)" and "m_stateRecording (shadow d) = None" and "Reset env ids resp pp d = Inr (hr, d', ev)"
    and "isValidD3drtansformstatetype t"
  shows "dev_SetViewport r (Some (viewport (m_state (shadow d)))) (shadow d') = Inr (S_OK, shadow d', [])
    \<and> dev_SetTransform r t (Some (transforms (m_state (shadow d)) ! mapXformStateTypeToIdx t)) (shadow d') = Inr (S_OK, shadow d', [])
    \<and> dev_SetRenderState r 7 0 (shadow d') = Inr (S_OK, shadow d', [])"
proof -
  obtain chain p where c: "m_pSwapchain d = Some (chain, p)" using assms(1) by (auto simp: reset_inv_def split: option.splits)
  have s: "shadow d' = (set_state (after_reset (EnableAutoDepthStencil p \<noteq> 0) (EnableAutoDepthStencil pp \<noteq> 0) ids) (shadow d))\<lparr>m_curTexPalette := 65535\<rparr>"
    using Reset_eq [OF assms(1) c, of env ids resp pp] assms(4) by auto
  have sh: "state_shape (m_state (shadow d))" using assms(1) by (simp add: reset_inv_def dev_inv_def shape_def)
  have z: "fold (\<lambda>(i, v) xs. xs[i := v]) ((7, 0) # render_defaults) (renderStates (m_state (shadow d))) ! 7 = 0"
    by (rule fold_updates(2) [OF _ distinct_defaults]) (use sh in \<open>simp_all add: state_shape_def kNumRenderStates_def\<close>)
  have v: "dev_SetViewport r (Some (viewport (m_state (shadow d)))) (shadow d') = Inr (S_OK, shadow d', [])"
    using assms(2,3) unfolding s by (simp add: dev_SetViewport_def set_state_def after_reset_fields Let_def)
  have t: "dev_SetTransform r t (Some (transforms (m_state (shadow d)) ! mapXformStateTypeToIdx t)) (shadow d') = Inr (S_OK, shadow d', [])"
    using assms(2,3,5) sh mapXformStateTypeToIdx_bound [OF assms(5)] unfolding s
    by (simp add: dev_SetTransform_def set_state_def after_reset_fields getE_def state_shape_def bindE_def Let_def)
  have "renderStates (m_state (shadow d')) ! 7 = 0" "7 < length (renderStates (m_state (shadow d')))"
    using z sh unfolding s by (simp_all add: set_state_def after_reset_fields fold_updates(1) state_shape_def kNumRenderStates_def del: fold_Cons)
  then have "dev_SetRenderState r 7 0 (shadow d') = Inr (S_OK, shadow d', [])"
    using assms(2,3) unfolding s by (simp add: dev_SetRenderState_def set_state_def getE_def bindE_def Let_def)
  then show ?thesis using v t by blast
qed

section \<open>The life of a device\<close>

lemma new_Device_eq:
  "\<exists>d ev. new_Device env ids sw p raw = (d, ev)
    \<and> m_state (shadow d) = reset_states (if EnableAutoDepthStencil p \<noteq> 0 then 1 else 0) (((if EnableAutoDepthStencil p \<noteq> 0 then depthStencil_update (\<lambda>_. depth_id ids) else id)
        \<circ> renderTargets_update (\<lambda>xs. xs[0 := target_id ids])) (new_state p (m_state (shadow raw))))
    \<and> m_stateRecording (shadow d) = None \<and> m_pSwapchain d = Some (chain_id ids, sanitize_for env p) \<and> m_pImplicitRenderTarget d = target_id ids
    \<and> (EnableAutoDepthStencil p \<noteq> 0 \<longrightarrow> m_pImplicitDepthStencil d = depth_id ids)
    \<and> m_implicitRefCnt d = (if EnableAutoDepthStencil p \<noteq> 0 then 3 else 2)"
proof -
  let ?d1 = "(set_shadow (new_state p) raw)\<lparr>m_pSwapchain := None, m_pImplicitRenderTarget := 0, m_pImplicitDepthStencil := 0,
    m_implicitRefCnt := 0, m_presParams := p, m_previousPresentParams := p,
    shadow := (shadow (set_shadow (new_state p) raw))\<lparr>m_bSoftwareVtxProcessing := of_bool sw, m_stateRecording := None\<rparr>\<rparr>"
  obtain d2 e where i: "dev_initImplicitObjects env ids p ?d1 = (d2, e)"
    "shadow d2 = set_state ((if EnableAutoDepthStencil p \<noteq> 0 then depthStencil_update (\<lambda>_. depth_id ids) else id)
        \<circ> renderTargets_update (\<lambda>xs. xs[0 := target_id ids])) (shadow ?d1)"
    "m_pSwapchain d2 = Some (chain_id ids, sanitize_for env p)" "m_pImplicitRenderTarget d2 = target_id ids"
    "EnableAutoDepthStencil p \<noteq> 0 \<longrightarrow> m_pImplicitDepthStencil d2 = depth_id ids"
    "m_implicitRefCnt d2 = (if EnableAutoDepthStencil p \<noteq> 0 then 3 else 2)"
    using dev_initImplicitObjects_ok [of env ids p ?d1] by auto
  have "new_Device env ids sw p raw = (ResetState d2, e)" using i(1) by (simp add: new_Device_def Let_def)
  then show ?thesis by (intro exI [of _ "ResetState d2"] exI [of _ e])
    (use i in \<open>simp add: ResetState_def sanitize_auto set_shadow_def set_state_def Let_def\<close>)
qed

inductive device_life :: "reset_device \<Rightarrow> bool" where
  created: "shape (m_state (shadow raw)) \<Longrightarrow> target_id ids \<noteq> 0 \<Longrightarrow> depth_id ids \<noteq> 0 \<Longrightarrow>
    length (renderTargets (m_state (shadow raw))) = MaxSimultaneousRenderTargets \<Longrightarrow> device_life (fst (new_Device env ids sw p raw))"
| setter: "device_life d \<Longrightarrow> run_setter resp a (shadow d) = Inr (hr, s, ms) \<Longrightarrow> device_life (d\<lparr>shadow := s\<rparr>)"
| reset: "device_life d \<Longrightarrow> target_id ids \<noteq> 0 \<Longrightarrow> depth_id ids \<noteq> 0 \<Longrightarrow> Reset env ids resp pp d = Inr (hr, d', ev) \<Longrightarrow> device_life d'"
| reset_ex: "device_life d \<Longrightarrow> target_id ids \<noteq> 0 \<Longrightarrow> depth_id ids \<noteq> 0 \<Longrightarrow> ResetEx env ids resp pp m d = Inr (hr, d', ev) \<Longrightarrow> device_life d'"

lemma new_Device_inv:
  assumes "shape (m_state (shadow raw))" and "target_id ids \<noteq> 0" and "depth_id ids \<noteq> 0"
    and "length (renderTargets (m_state (shadow raw))) = MaxSimultaneousRenderTargets"
  shows "reset_inv (fst (new_Device env ids sw p raw))"
proof -
  obtain d ev where n: "new_Device env ids sw p raw = (d, ev)" and s: "m_state (shadow d) =
      reset_states (if EnableAutoDepthStencil p \<noteq> 0 then 1 else 0) (((if EnableAutoDepthStencil p \<noteq> 0 then depthStencil_update (\<lambda>_. depth_id ids) else id)
        \<circ> renderTargets_update (\<lambda>xs. xs[0 := target_id ids])) (new_state p (m_state (shadow raw))))"
    and r: "m_stateRecording (shadow d) = None" "m_pSwapchain d = Some (chain_id ids, sanitize_for env p)" "m_pImplicitRenderTarget d = target_id ids"
    "EnableAutoDepthStencil p \<noteq> 0 \<longrightarrow> m_pImplicitDepthStencil d = depth_id ids" "m_implicitRefCnt d = (if EnableAutoDepthStencil p \<noteq> 0 then 3 else 2)"
    using new_Device_eq [of env ids sw p raw] by blast
  have "shape (new_state p (m_state (shadow raw)))"
    using assms(1) by (simp add: new_state_def unbind_state_def shapes MaxTransforms_def)
  then have "shape (m_state (shadow d))" unfolding s using keeps_reset(4) keeps_init unfolding keeps_def by blast
  moreover have "length (renderTargets (m_state (shadow d))) = MaxSimultaneousRenderTargets"
    unfolding s using assms(4) by (simp add: reset_states_fields new_state_def unbind_state_def)
  ultimately show ?thesis using n r assms(2,3) by (simp add: reset_inv_def dev_inv_def sanitize_auto)
qed

lemma run_setter_targets:
  assumes "run_setter resp a d = Inr (hr, d', ms)"
  shows "renderTargets (m_state d') = renderTargets (m_state d)"
  using assms
  by (cases a; cases "m_stateRecording d")
    (auto simp: setter_defs Let_def bind_simps set_state_def set_capture_def split: if_splits option.splits)

lemma ResetEx_ok:
  assumes inv: "reset_inv d" and ids: "target_id ids \<noteq> 0" "depth_id ids \<noteq> 0"
  shows "\<exists>d' ev. ResetEx env ids resp pp m d = Inr (optional_response (shadow d) resp, d', ev) \<and> reset_inv d'"
proof -
  obtain chain p where c: "m_pSwapchain d = Some (chain, p)" using inv by (auto simp: reset_inv_def split: option.splits)
  obtain d1 e1 where r: "releaseInternalObjects env False d = Inr (d1, e1)"
    "shadow d1 = set_state (give_up (EnableAutoDepthStencil p \<noteq> 0) False) (shadow d)" "m_implicitRefCnt d1 = 0"
    using releaseInternalObjects_ok [OF inv c, of env False] by blast
  let ?d2 = "d1\<lparr>m_presParams := sanitize_for env pp\<rparr>"
  obtain d3 e3 where i: "dev_initImplicitObjects env ids (sanitize_for env pp) ?d2 = (d3, e3)"
    "shadow d3 = set_state ((if EnableAutoDepthStencil pp \<noteq> 0 then depthStencil_update (\<lambda>_. depth_id ids) else id)
        \<circ> renderTargets_update (\<lambda>xs. xs[0 := target_id ids])) (shadow ?d2)"
    "m_pSwapchain d3 = Some (chain_id ids, sanitize_for env (sanitize_for env pp))" "m_pImplicitRenderTarget d3 = target_id ids"
    "EnableAutoDepthStencil pp \<noteq> 0 \<longrightarrow> m_pImplicitDepthStencil d3 = depth_id ids"
    "m_implicitRefCnt d3 = m_implicitRefCnt ?d2 + (if EnableAutoDepthStencil pp \<noteq> 0 then 3 else 2)"
    using dev_initImplicitObjects_ok [of env ids "sanitize_for env pp" ?d2] unfolding sanitize_auto by auto
  have "dev_inv (shadow d3)"
    using inv unfolding i(2) by (simp add: r(2) reset_inv_def dev_inv_set_state keeps_give_up keeps_init)
  moreover have "length (renderTargets (m_state (shadow d3))) = MaxSimultaneousRenderTargets"
    using inv unfolding i(2) by (simp add: r(2) reset_inv_def set_state_def give_up_fields)
  ultimately have "reset_inv (d3\<lparr>m_previousPresentParams := pp\<rparr>)" using i(3-6) r(3) ids by (simp add: reset_inv_def sanitize_auto)
  then show ?thesis using r(1) i(1) by (simp add: ResetEx_def bindE_def Let_def)
qed

lemma device_life_inv: "device_life d \<Longrightarrow> reset_inv d"
proof (induction rule: device_life.induct)
  case (created raw ids env sw p)
  then show ?case by (rule new_Device_inv)
next
  case (setter d resp a hr s ms)
  have "dev_inv (shadow d)" using setter.IH by (simp add: reset_inv_def)
  then have "dev_inv s" using setter.hyps(2) by (rule run_setter_inv)
  then show ?case using setter.IH run_setter_targets [OF setter.hyps(2)]
    by (cases "m_pSwapchain d") (auto simp: reset_inv_def)
next
  case (reset d ids env resp pp hr d' ev)
  obtain chain p where c: "m_pSwapchain d = Some (chain, p)" using reset.IH by (auto simp: reset_inv_def split: option.splits)
  show ?case using device_reset_ok [OF reset.IH c reset.hyps(2,3), of env resp pp] reset.hyps(4) by auto
next
  case (reset_ex d ids env resp pp m hr d' ev)
  then show ?case using ResetEx_ok [of d ids env resp pp m] by auto
qed

text \<open>C7. In its whole life, through setters and resets of both kinds in any order, a device has the implicit objects that its swap chain's parameters
  ask for and counts them right, and a further reset succeeds: it meets no null pointer.\<close>

theorem reset_always_possible:
  assumes "device_life d" and "target_id ids \<noteq> 0" and "depth_id ids \<noteq> 0"
  shows "(\<exists>hr d' ev. Reset env ids resp pp d = Inr (hr, d', ev)) \<and> (\<exists>hr d' ev. ResetEx env ids resp pp m d = Inr (hr, d', ev))
    \<and> (\<exists>chain p. m_pSwapchain d = Some (chain, p) \<and> m_implicitRefCnt d = (if EnableAutoDepthStencil p \<noteq> 0 then 3 else 2))"
proof -
  have inv: "reset_inv d" by (rule device_life_inv [OF assms(1)])
  obtain chain p where c: "m_pSwapchain d = Some (chain, p)" using inv by (auto simp: reset_inv_def split: option.splits)
  then have "m_implicitRefCnt d = (if EnableAutoDepthStencil p \<noteq> 0 then 3 else 2)" using inv by (simp add: reset_inv_def)
  then show ?thesis using c device_reset_ok [OF inv c assms(2,3), of env resp pp] ResetEx_ok [OF inv assms(2,3), of env resp pp m] by blast
qed

text \<open>A new device gives the identity for the world matrices 0 to 245 only, and zeros for the last ten.\<close>

theorem new_device_world_matrices:
  assumes "i < 256"
  shows "dev_GetTransform (256 + word_of_nat i) (shadow (fst (new_Device env ids sw p raw))) = Inr (if i < 246 then identity_matrix else replicate 64 0)"
proof -
  obtain d ev where n: "new_Device env ids sw p raw = (d, ev)" and s: "m_state (shadow d) =
      reset_states (if EnableAutoDepthStencil p \<noteq> 0 then 1 else 0) (((if EnableAutoDepthStencil p \<noteq> 0 then depthStencil_update (\<lambda>_. depth_id ids) else id)
        \<circ> renderTargets_update (\<lambda>xs. xs[0 := target_id ids])) (new_state p (m_state (shadow raw))))"
    using new_Device_eq [of env ids sw p raw] by blast
  have t: "transforms (m_state (shadow d)) = replicate 256 identity_matrix @ replicate 10 (replicate 64 0)"
    unfolding s by (simp add: reset_states_fields new_state_def MaxTransforms_def)
  have u: "unat (256 + word_of_nat i :: u32) = 256 + i" using assms by (simp add: unat_word_ariths unat_of_nat)
  have "mapXformStateTypeToIdx (256 + word_of_nat i) = 10 + i"
  proof -
    have "256 + word_of_nat i \<noteq> (2 :: u32)" "256 + word_of_nat i \<noteq> (3 :: u32)" "\<not> 256 + word_of_nat i \<le> (23 :: u32)"
      using u by (simp_all add: word_unat_eq_iff word_le_nat_alt)
    moreover have "unat (10 + (word_of_nat i :: u32)) = 10 + i" using assms by (simp add: unat_word_ariths unat_of_nat)
    ultimately show ?thesis by (simp add: mapXformStateTypeToIdx_def)
  qed
  then show ?thesis using assms unfolding n by (simp add: dev_GetTransform_def getE_def t nth_append)
qed

section \<open>Witnesses\<close>

definition demo_params :: pres_params32 where
  "demo_params = \<lparr>BackBufferWidth = 640, BackBufferHeight = 480, BackBufferFormat = 22, BackBufferCount = 1, MultiSampleType = 0,
     MultiSampleQuality = 0, SwapEffect = 1, hDeviceWindow = 5, Windowed = 1, EnableAutoDepthStencil = 1, AutoDepthStencilFormat = 75,
     PresentFlags = 0, FullScreen_RefreshRateInHz = 0, PresentationInterval = 0\<rparr>"

definition demo_env :: reset_env where
  "demo_env = \<lparr>this_id = 1, clientArea = (\<lambda>_. (640, 480)), forceWindowed = False, hFocusWindow = 5, noWindowChanges = True\<rparr>"

definition demo_ids :: new_ids where
  "demo_ids = \<lparr>chain_id = 2, buffer_ids = [3], target_id = 4, depth_id = 5\<rparr>"

definition demo_raw :: reset_device where
  "demo_raw = \<lparr>shadow = blank_device, m_pSwapchain = None, m_pImplicitRenderTarget = 0, m_pImplicitDepthStencil = 0, m_implicitRefCnt = 0,
     m_presParams = demo_params, m_previousPresentParams = demo_params, m_gammaRamp = []\<rparr>"

definition demo_new :: reset_device where
  "demo_new = fst (new_Device demo_env demo_ids False demo_params demo_raw)"

lemma demo_life: "device_life demo_new"
  unfolding demo_new_def
  by (rule device_life.created) (use blank_shape in \<open>simp_all add: demo_raw_def demo_ids_def blank_device_def shape_def\<close>, simp add: blank_state_def)

lemma demo_new_fields: "m_pSwapchain demo_new = Some (2, demo_params)" "opt_eliminate (shadow demo_new)" "m_stateRecording (shadow demo_new) = None"
  unfolding demo_new_def demo_raw_def demo_env_def demo_ids_def demo_params_def
  by (simp_all add: new_Device_def dev_initImplicitObjects_def initImplicitSwapchain_def initImplicitRenderTarget_def initImplicitDepthStencil_def
      ResetState_def set_shadow_def set_state_def blank_device_def sanitize_for_def sanitizePresentationParameters_def Let_def split: prod.split)


theorem reset_drops_setters_witness:
  "\<exists>hr d' ev. Reset demo_env demo_ids S_OK demo_params demo_new = Inr (hr, d', ev) \<and> dev_SetRenderState S_OK 7 0 (shadow d') = Inr (S_OK, shadow d', [])"
proof -
  have ids: "target_id demo_ids \<noteq> 0" "depth_id demo_ids \<noteq> 0" by (simp_all add: demo_ids_def)
  obtain hr d' ev where r: "Reset demo_env demo_ids S_OK demo_params demo_new = Inr (hr, d', ev)"
    using device_reset_ok [OF device_life_inv [OF demo_life] demo_new_fields(1) ids, of demo_env S_OK demo_params] by blast
  have "isValidD3drtansformstatetype 2" by (simp add: isValidD3drtansformstatetype_def)
  then show ?thesis using reset_drops_setters [OF device_life_inv [OF demo_life] demo_new_fields(2,3) r, of 2 S_OK] r by blast
qed

theorem reset_always_possible_witness:
  "\<exists>hr d' ev. ResetEx demo_env demo_ids S_OK demo_params None demo_new = Inr (hr, d', ev)"
  by (rule reset_always_possible [THEN conjunct2, THEN conjunct1, OF demo_life]) (simp_all add: demo_ids_def)

theorem new_device_world_matrices_witness:
  "dev_GetTransform (256 + word_of_nat 250) (shadow (fst (new_Device demo_env demo_ids False demo_params demo_raw))) = Inr (replicate 64 0)"
proof -
  have "(250 :: nat) < 256" by simp
  from new_device_world_matrices [OF this, of demo_env demo_ids False demo_params demo_raw] show ?thesis by simp
qed

end
