(* ===== verification/Config_Parser.thy ===== *)
theory Config_Parser
  imports Bridge_Prelude
begin

text \<open>
  The configuration (\<open>util/config/config.cpp\<close>, \<open>config.h\<close>, \<open>global_options.h\<close>, \<open>global_options.cpp\<close>): the lines of a file, the table of options
  with the defaults for an application, the conversion of option values, and the options that both processes share.  The search of the
  regular expressions and \<open>std::stod\<close> are parameters; an exception that nobody catches is \<open>ProcessExit\<close>, the overflow of a signed integer
  \<open>OutOfBounds\<close>.
\<close>

section \<open>Lines\<close>

definition isWhitespace :: "char \<Rightarrow> bool" where
  "isWhitespace ch \<longleftrightarrow> ch = CHR '' '' \<or> ch = CHR 0x09 \<or> ch = CHR 0x0D"

definition isDigit :: "char \<Rightarrow> bool" where
  "isDigit ch \<longleftrightarrow> (of_char ch :: nat) \<in> {48 .. 57}"

definition isValidKeyChar :: "char \<Rightarrow> bool" where
  "isValidKeyChar ch \<longleftrightarrow> isDigit ch \<or> (of_char ch :: nat) \<in> {65 .. 90} \<or> (of_char ch :: nat) \<in> {97 .. 122} \<or> ch = CHR ''.'' \<or> ch = CHR ''_''"

text \<open>Positions in a line are the rest of it; \<open>skipWhitespace\<close> moves on.\<close>

definition skipWhitespace :: "string \<Rightarrow> string" where
  "skipWhitespace = dropWhile isWhitespace"

fun parse_value :: "bool \<Rightarrow> string \<Rightarrow> string" where
  "parse_value insideString [] = []"
| "parse_value insideString (c # cs) =
    (if \<not> insideString \<and> isWhitespace c then []
     else if c = CHR 0x22 then parse_value (\<not> insideString) cs
     else c # parse_value insideString cs)"

text \<open>The option that a line sets.  A line that begins with a bracket names a section and sets nothing.\<close>

definition parseUserConfigLine :: "string \<Rightarrow> (string \<times> string) option" where
  "parseUserConfigLine line =
    (let n = skipWhitespace line in
     if n \<noteq> [] \<and> hd n = CHR ''['' then None
     else let key = takeWhile isValidKeyChar n;
              e = skipWhitespace (dropWhile isValidKeyChar n)
          in case e of [] \<Rightarrow> None
             | c # rest \<Rightarrow> if c \<noteq> CHR ''='' then None else Some (key, parse_value False (skipWhitespace rest)))"

section \<open>The table\<close>

type_synonym OptionMap = "string \<rightharpoonup> string"

definition setOption :: "string \<times> string \<Rightarrow> OptionMap \<Rightarrow> OptionMap" where
  "setOption kv m = m(fst kv \<mapsto> snd kv)"

definition merge_config :: "OptionMap \<Rightarrow> OptionMap \<Rightarrow> OptionMap" where
  "merge_config m other = m ++ other"

text \<open>Name, regular expression (\<open>0x5C\<close> is the backslash) and options of the known applications.\<close>

definition appDefaultConfigs :: "(string \<times> string \<times> OptionMap) list" where
  "appDefaultConfigs = [(''Source Engine'', [CHR 0x5C, CHR 0x5C] @ ''hl2'' @ [CHR 0x5C] @ ''.exe$'', [''presentSemaphoreMaxFrames '' \<mapsto> ''1''])]"

definition getAppDefaultConfig :: "(string \<Rightarrow> string \<Rightarrow> bool) \<Rightarrow> string \<Rightarrow> OptionMap" where
  "getAppDefaultConfig regex_search exeFilePath =
    (case find (\<lambda>(name, regex, opts). regex_search exeFilePath regex) appDefaultConfigs of None \<Rightarrow> Map.empty | Some (name, regex, opts) \<Rightarrow> opts)"

text \<open>\<open>std::getline\<close> until it fails.\<close>

function getlines :: "char \<Rightarrow> string \<Rightarrow> string list" where
  "getlines d [] = []"
| "getlines d (c # cs) = takeWhile (\<lambda>x. x \<noteq> d) (c # cs) # getlines d (drop 1 (dropWhile (\<lambda>x. x \<noteq> d) (c # cs)))"
  by pat_completeness auto
termination by (relation "measure (length \<circ> snd)") (auto simp: le_imp_less_Suc length_dropWhile_le diff_le_self le_trans [OF diff_le_self length_dropWhile_le])

text \<open>\<open>getUserConfig\<close> gives the path of the file beside the module and, for its contents, the table.  \<open>setOption\<close> is static: the lines go to the table of the
  process, and the table that is returned and merged is empty.\<close>

definition user_config_path :: "bool \<Rightarrow> string \<Rightarrow> string option" where
  "user_config_path client moduleFilePath =
    (if CHR 0x5C \<in> set moduleFilePath
     then Some (rev (dropWhile (\<lambda>c. c \<noteq> CHR 0x5C) (rev moduleFilePath)) @ (if client then ''.trex'' @ [CHR 0x5C] else []) @ ''bridge.conf'')
     else None)"

definition getUserConfig :: "string option \<Rightarrow> OptionMap \<Rightarrow> OptionMap \<times> OptionMap" where
  "getUserConfig file m = (case file of None \<Rightarrow> (Map.empty, m)
     | Some t \<Rightarrow> (Map.empty, fold setOption (List.map_filter parseUserConfigLine (getlines (CHR 0x0A) t)) m))"

record Config =
  s_bIsInit :: bool
  m_options :: OptionMap

text \<open>\<open>exeFilePath\<close> is the path of the application: of the process itself in the client, of its parent in the server.\<close>

definition Config_init :: "(string \<Rightarrow> string \<Rightarrow> bool) \<Rightarrow> string \<Rightarrow> string option \<Rightarrow> Config \<Rightarrow> Config" where
  "Config_init regex_search exeFilePath file c =
    (if s_bIsInit c then c
     else let m = merge_config (m_options c) (getAppDefaultConfig regex_search exeFilePath);
              (config, m1) = getUserConfig file m
          in c\<lparr>s_bIsInit := True, m_options := merge_config m1 config\<rparr>)"

definition isOptionDefined :: "Config \<Rightarrow> string \<Rightarrow> bool" where
  "isOptionDefined c option = (m_options c option \<noteq> None)"

definition getOptionValue :: "Config \<Rightarrow> string \<Rightarrow> string" where
  "getOptionValue c option = (case m_options c option of None \<Rightarrow> [] | Some v \<Rightarrow> v)"

section \<open>Values\<close>

text \<open>The overloads of \<open>parseOptionValue\<close>: \<open>None\<close> when the value is not accepted.\<close>

definition parse_string :: "string \<Rightarrow> string option" where
  "parse_string value = (if value = [] then None else Some value)"

definition parse_strings :: "string \<Rightarrow> string list option" where
  "parse_strings value = (let l = getlines (CHR '','') value in if l = [] then None else Some l)"

definition parse_float :: "(string \<Rightarrow> 'f or_error) \<Rightarrow> string \<Rightarrow> 'f option or_error" where
  "parse_float stof value = (if value = [] then Inr None else bindE (stof value) (\<lambda>v. Inr (Some v)))"

definition parse_bool :: "string \<Rightarrow> bool option" where
  "parse_bool value = (if value = ''True'' then Some True else if value = ''False'' then Some False else None)"

datatype Tristate = Auto | TFalse | TTrue

definition parse_tristate :: "string \<Rightarrow> Tristate option" where
  "parse_tristate value = (if value = ''True'' then Some TTrue else if value = ''False'' then Some TFalse
     else if value = ''Auto'' then Some Auto else None)"

text \<open>\<open>option &= state != False; option |= state == True\<close>.\<close>

definition applyTristate :: "bool \<Rightarrow> Tristate \<Rightarrow> bool" where
  "applyTristate option state = (let o1 = (option \<and> state \<noteq> TFalse) in o1 \<or> state = TTrue)"

definition digit :: "char \<Rightarrow> nat" where
  "digit c = of_char c - 48"

fun parse_digits :: "('a :: len) word \<Rightarrow> string \<Rightarrow> 'a word option" where
  "parse_digits intval [] = Some intval"
| "parse_digits intval (c # cs) = (if isDigit c then parse_digits (intval * 10 + word_of_nat (digit c)) cs else None)"

definition parse_uint16 :: "string \<Rightarrow> u16 option" where
  "parse_uint16 value = (if value = [] then None else parse_digits 0 value)"

definition parse_uint8 :: "string \<Rightarrow> u8 option" where
  "parse_uint8 value = (if value = [] then None else parse_digits 0 value)"

fun parse_int_digits :: "int \<Rightarrow> string \<Rightarrow> int option or_error" where
  "parse_int_digits intval [] = Inr (Some intval)"
| "parse_int_digits intval (c # cs) = (if \<not> isDigit c then Inr None
     else let v = intval * 10 + int (digit c) in if v < 2 ^ 31 then parse_int_digits v cs else Inl OutOfBounds)"

definition parse_int32 :: "string \<Rightarrow> int option or_error" where
  "parse_int32 value = (case value of [] \<Rightarrow> Inr None | c # cs \<Rightarrow>
     if c = CHR ''-'' then bindE (parse_int_digits 0 cs) (\<lambda>v. Inr (map_option uminus v)) else parse_int_digits 0 value)"

text \<open>\<open>std::stoul\<close> with the 32 bits of \<open>unsigned long\<close>, and \<open>std::bitset<32>(s, 2)\<close>.\<close>

definition isspace :: "char \<Rightarrow> bool" where
  "isspace c \<longleftrightarrow> c = CHR '' '' \<or> (of_char c :: nat) \<in> {9 .. 13}"

definition digit_of :: "nat \<Rightarrow> char \<Rightarrow> nat option" where
  "digit_of base c = (let n = of_char c :: nat;
       v = (if n \<in> {48 .. 57} then n - 48 else if n \<in> {97 .. 122} then n - 87 else if n \<in> {65 .. 90} then n - 55 else 36)
     in if v < base then Some v else None)"

fun read_digits :: "nat \<Rightarrow> nat \<Rightarrow> string \<Rightarrow> nat" where
  "read_digits base v [] = v"
| "read_digits base v (c # cs) = (case digit_of base c of None \<Rightarrow> v | Some d \<Rightarrow> read_digits base (v * base + d) cs)"

definition begins_digit :: "nat \<Rightarrow> string \<Rightarrow> bool" where
  "begins_digit base s = (case s of [] \<Rightarrow> False | c # cs \<Rightarrow> digit_of base c \<noteq> None)"

definition stoul :: "nat \<Rightarrow> string \<Rightarrow> u32 or_error" where
  "stoul base s =
    (let s1 = dropWhile isspace s;
         neg = (case s1 of [] \<Rightarrow> False | c # cs \<Rightarrow> c = CHR ''-'');
         s2 = (case s1 of [] \<Rightarrow> [] | c # cs \<Rightarrow> if c = CHR ''-'' \<or> c = CHR ''+'' then cs else s1);
         s3 = (if base = 16 \<and> (take 2 s2 = ''0x'' \<or> take 2 s2 = ''0X'') \<and> begins_digit 16 (drop 2 s2) then drop 2 s2 else s2)
     in if \<not> begins_digit base s3 then Inl ProcessExit
        else let v = read_digits base 0 s3 in
          if v \<ge> 2 ^ 32 then Inl ProcessExit else Inr (if neg then - word_of_nat v else word_of_nat v))"

definition bitset32 :: "string \<Rightarrow> u32 or_error" where
  "bitset32 s = (if length s < 2 then Inl ProcessExit
     else if list_all (\<lambda>c. c = CHR ''0'' \<or> c = CHR ''1'') (drop 2 s) then Inr (word_of_nat (read_digits 2 0 (take 32 (drop 2 s))))
     else Inl ProcessExit)"

definition has_sub :: "string \<Rightarrow> string \<Rightarrow> bool" where
  "has_sub t s = list_ex (\<lambda>i. take (length t) (drop i s) = t) [0 ..< Suc (length s)]"

text \<open>\<open>stod k s\<close> is \<open>std::stod(s)\<close> multiplied by \<open>2 ^ k\<close> and cut to 32 bits.\<close>

definition parse_number :: "(nat \<Rightarrow> string \<Rightarrow> u32 or_error) \<Rightarrow> string \<Rightarrow> u32 or_error" where
  "parse_number stod value =
    (if has_sub ''kB'' value then stod 10 value
     else if has_sub ''MB'' value then stod 20 value
     else if has_sub ''GB'' value then stod 30 value
     else if has_sub ''0b'' value then bitset32 value
     else if has_sub ''0x'' value then stoul 16 value
     else stoul 10 value)"

definition parse_uint32 :: "(nat \<Rightarrow> string \<Rightarrow> u32 or_error) \<Rightarrow> string \<Rightarrow> u32 option or_error" where
  "parse_uint32 stod value = (if value = [] then Inr None else bindE (parse_number stod value) (\<lambda>v. Inr (Some v)))"

fun mapE :: "('a \<Rightarrow> 'b or_error) \<Rightarrow> 'a list \<Rightarrow> 'b list or_error" where
  "mapE f [] = Inr []"
| "mapE f (x # xs) = bindE (f x) (\<lambda>y. bindE (mapE f xs) (\<lambda>ys. Inr (y # ys)))"

definition parse_sizes :: "(nat \<Rightarrow> string \<Rightarrow> u32 or_error) \<Rightarrow> string \<Rightarrow> u32 list option or_error" where
  "parse_sizes stod value = (let l = getlines (CHR '','') value in
     if l = [] then Inr None else bindE (mapE (parse_number stod) l) (\<lambda>vs. Inr (Some vs)))"

text \<open>\<open>getOption<T>\<close>, with the value \<open>T()\<close>, before the configuration is initialised and with the conversion of the type.\<close>

definition getOption :: "'a \<Rightarrow> (string \<Rightarrow> 'a option or_error) \<Rightarrow> Config \<Rightarrow> string \<Rightarrow> 'a \<Rightarrow> 'a or_error" where
  "getOption T parse c option fallback =
    (if \<not> s_bIsInit c then Inr T
     else bindE (parse (getOptionValue c option)) (\<lambda>r. Inr (case r of Some v \<Rightarrow> v | None \<Rightarrow> fallback)))"

section \<open>Reading lines\<close>

lemma valid_key_not_space: "isValidKeyChar c \<Longrightarrow> \<not> isWhitespace c"
  by (auto simp: isValidKeyChar_def isWhitespace_def isDigit_def)

lemma valid_key_special: "\<not> isValidKeyChar (CHR ''['')" "\<not> isValidKeyChar (CHR ''='')" "\<not> isWhitespace (CHR ''='')" "\<not> isWhitespace (CHR 0x22)"
  by (simp_all add: isValidKeyChar_def isWhitespace_def isDigit_def)

lemma skip_spaces: "list_all isWhitespace w \<Longrightarrow> (t = [] \<or> \<not> isWhitespace (hd t)) \<Longrightarrow> skipWhitespace (w @ t) = t"
  by (cases t) (simp_all add: skipWhitespace_def dropWhile_append list_all_iff)

lemma parse_value_quoted:
  "CHR 0x22 \<notin> set v \<Longrightarrow> parse_value True (v @ CHR 0x22 # r) = v @ parse_value False r"
  by (induction v) (auto simp: valid_key_special)

lemma parse_value_plain:
  "CHR 0x22 \<notin> set v \<Longrightarrow> list_all (\<lambda>c. \<not> isWhitespace c) v \<Longrightarrow> parse_value False (v @ r) = v @ parse_value False r"
  by (induction v) auto

lemma parse_value_end: "r = [] \<or> isWhitespace (hd r) \<Longrightarrow> parse_value False r = []"
  by (cases r) auto

lemma parse_line:
  assumes "list_all isWhitespace w1" and "list_all isValidKeyChar key" and "list_all isWhitespace w2"
  shows "parseUserConfigLine (w1 @ key @ w2 @ CHR ''='' # r) = Some (key, parse_value False (skipWhitespace r))"
proof -
  have k: "key @ w2 @ CHR ''='' # r = [] \<or> \<not> isWhitespace (hd (key @ w2 @ CHR ''='' # r))" if "key \<noteq> [] \<or> w2 = []"
    using that assms(2) valid_key_not_space valid_key_special(3) by (cases key) auto
  have notkey: "\<not> isValidKeyChar (hd (w2 @ CHR ''='' # r))"
    using assms(3) valid_key_not_space valid_key_special(2) by (cases w2) (auto simp: list_all_iff)
  have tw: "takeWhile isValidKeyChar (key @ w2 @ CHR ''='' # r) = key" "dropWhile isValidKeyChar (key @ w2 @ CHR ''='' # r) = w2 @ CHR ''='' # r"
  proof -
    have ks: "\<And>c. c \<in> set key \<Longrightarrow> isValidKeyChar c" using assms(2) by (simp add: list_all_iff)
    have "takeWhile isValidKeyChar (w2 @ CHR ''='' # r) = []" "dropWhile isValidKeyChar (w2 @ CHR ''='' # r) = w2 @ CHR ''='' # r"
      using notkey by (cases "w2 @ CHR ''='' # r"; simp)+
    then show "takeWhile isValidKeyChar (key @ w2 @ CHR ''='' # r) = key" "dropWhile isValidKeyChar (key @ w2 @ CHR ''='' # r) = w2 @ CHR ''='' # r"
      using takeWhile_append2 [of key isValidKeyChar "w2 @ CHR ''='' # r"] dropWhile_append2 [of key isValidKeyChar "w2 @ CHR ''='' # r"] ks by simp_all
  qed
  have eq: "skipWhitespace (w2 @ CHR ''='' # r) = CHR ''='' # r" using assms(3) by (intro skip_spaces) (simp_all add: valid_key_special)
  show ?thesis
  proof (cases "key = []")
    case True
    have "skipWhitespace (w1 @ w2 @ CHR ''='' # r) = CHR ''='' # r"
      using skip_spaces [of "w1 @ w2" "CHR ''='' # r"] assms(1,3) by (simp add: valid_key_special)
    then show ?thesis using True by (simp add: parseUserConfigLine_def Let_def valid_key_special skipWhitespace_def)
  next
    case False
    then have "skipWhitespace (w1 @ key @ w2 @ CHR ''='' # r) = key @ w2 @ CHR ''='' # r" using k assms(1) by (intro skip_spaces) simp_all
    moreover have "hd (key @ w2 @ CHR ''='' # r) \<noteq> CHR ''[''" using False assms(2) valid_key_special(1) by (cases key) auto
    ultimately show ?thesis using tw eq False by (simp add: parseUserConfigLine_def Let_def)
  qed
qed

text \<open>C34. A line in the form of the sample file is read as it is meant: the key, and the value in quotes with everything in it, or without quotes up to the
  next blank; what follows is ignored.  Comments and section names set nothing.\<close>

theorem config_line_roundtrip:
  assumes "list_all isWhitespace w1" and "list_all isValidKeyChar key" and "list_all isWhitespace w2" and "list_all isWhitespace w3"
    and "CHR 0x22 \<notin> set v" and "rest = [] \<or> isWhitespace (hd rest)"
  shows "parseUserConfigLine (w1 @ key @ w2 @ ''='' @ w3 @ [CHR 0x22] @ v @ [CHR 0x22] @ rest) = Some (key, v)
    \<and> (v \<noteq> [] \<and> list_all (\<lambda>c. \<not> isWhitespace c) v \<longrightarrow> parseUserConfigLine (w1 @ key @ w2 @ ''='' @ w3 @ v @ rest) = Some (key, v))
    \<and> parseUserConfigLine (w1 @ ''['' @ v) = None \<and> parseUserConfigLine (w1 @ ''#'' @ v) = None"
proof -
  have "skipWhitespace (w3 @ CHR 0x22 # v @ CHR 0x22 # rest) = CHR 0x22 # v @ CHR 0x22 # rest"
    using assms(4) by (intro skip_spaces) (simp_all add: valid_key_special)
  then have quoted: "parseUserConfigLine (w1 @ key @ w2 @ ''='' @ w3 @ [CHR 0x22] @ v @ [CHR 0x22] @ rest) = Some (key, v)"
    using parse_line [OF assms(1-3), of "w3 @ CHR 0x22 # v @ CHR 0x22 # rest"] parse_value_quoted [OF assms(5), of rest] parse_value_end [OF assms(6)]
    by (simp add: valid_key_special)
  have plain: "parseUserConfigLine (w1 @ key @ w2 @ ''='' @ w3 @ v @ rest) = Some (key, v)" if "v \<noteq> []" "list_all (\<lambda>c. \<not> isWhitespace c) v"
  proof -
    have "skipWhitespace (w3 @ v @ rest) = v @ rest" using that assms(4) by (intro skip_spaces) (auto simp: neq_Nil_conv)
    then show ?thesis
      using parse_line [OF assms(1-3), of "w3 @ v @ rest"] parse_value_plain [OF assms(5) that(2), of rest] parse_value_end [OF assms(6)] by simp
  qed
  have "skipWhitespace (w1 @ CHR ''['' # v) = CHR ''['' # v" "skipWhitespace (w1 @ CHR ''#'' # v) = CHR ''#'' # v"
    using assms(1) by (auto intro!: skip_spaces simp: isWhitespace_def)
  moreover have "\<not> isValidKeyChar (CHR ''#'')" "\<not> isWhitespace (CHR ''#'')" by (simp_all add: isValidKeyChar_def isDigit_def isWhitespace_def)
  ultimately have "parseUserConfigLine (w1 @ ''['' @ v) = None" "parseUserConfigLine (w1 @ ''#'' @ v) = None"
    by (simp_all add: parseUserConfigLine_def Let_def skipWhitespace_def)
  then show ?thesis using quoted plain by blast
qed

lemma config_line_roundtrip_witness:
  "parseUserConfigLine ([] @ ''logLevel'' @ '' '' @ ''='' @ '' '' @ [CHR 0x22] @ ''two words'' @ [CHR 0x22] @ '' # why'') = Some (''logLevel'', ''two words'')"
  using config_line_roundtrip [of "[]" "''logLevel''" "'' ''" "'' ''" "''two words''" "'' # why''"]
  by (simp add: isWhitespace_def isValidKeyChar_def isDigit_def)

section \<open>The effective table\<close>

lemma fold_setOption: "fold setOption kvs m = m ++ map_of (rev kvs)"
  by (induction kvs arbitrary: m) (auto simp: setOption_def map_add_def fun_eq_iff split: option.splits)

text \<open>What \<open>init\<close> leaves in the table: the last line of the user's file that sets an option wins, then the defaults of the application.  A second \<open>init\<close> does
  nothing.\<close>

theorem user_config_wins:
  "m_options (Config_init rx exe file \<lparr>s_bIsInit = False, m_options = Map.empty\<rparr>) k =
     (case file of None \<Rightarrow> getAppDefaultConfig rx exe k
      | Some t \<Rightarrow> (case map_of (rev (List.map_filter parseUserConfigLine (getlines (CHR 0x0A) t))) k of Some v \<Rightarrow> Some v
                  | None \<Rightarrow> getAppDefaultConfig rx exe k))
   \<and> Config_init rx2 exe2 file2 (Config_init rx exe file c) = Config_init rx exe file c"
  by (simp add: Config_init_def getUserConfig_def merge_config_def fold_setOption map_add_def Let_def split: option.split)

section \<open>Numbers\<close>

definition decimal_char :: "nat \<Rightarrow> char" where
  "decimal_char n = char_of (48 + n)"

fun decimal :: "nat \<Rightarrow> string" where
  "decimal n = (if n < 10 then [decimal_char n] else decimal (n div 10) @ [decimal_char (n mod 10)])"

declare decimal.simps [simp del]

lemma of_decimal_char: "n < 10 \<Longrightarrow> (of_char (decimal_char n) :: nat) = 48 + n"
  by (simp add: decimal_char_def)

lemma digit_simps:
  assumes "n < 10"
  shows "isDigit (decimal_char n)" "digit (decimal_char n) = n" "digit_of 10 (decimal_char n) = Some n"
  using of_decimal_char [OF assms] assms by (simp_all add: isDigit_def digit_def digit_of_def Let_def)

lemma decimal_nonempty: "decimal n \<noteq> []"
  by (subst decimal.simps) simp

lemma decimal_digits: "list_all (\<lambda>c. \<exists>d < 10. c = decimal_char d) (decimal n)"
proof (induction n rule: decimal.induct)
  case (1 n)
  have "\<exists>d < 10. decimal_char (n mod 10) = decimal_char d" by (intro exI [of _ "n mod 10"]) simp
  then show ?case using 1 by (subst decimal.simps) (auto simp: list_all_iff)
qed

lemma parse_digits_snoc: "parse_digits a (xs @ [c]) = (case parse_digits a xs of None \<Rightarrow> None
   | Some v \<Rightarrow> if isDigit c then Some (v * 10 + word_of_nat (digit c)) else None)"
  by (induction xs arbitrary: a) auto

lemma parse_digits_decimal: "parse_digits 0 (decimal n) = Some (word_of_nat n)"
proof (induction n rule: decimal.induct)
  case (1 n)
  show ?case
  proof (cases "n < 10")
    case True
    then show ?thesis by (subst decimal.simps) (simp add: digit_simps)
  next
    case False
    have "word_of_nat (n div 10) * 10 + word_of_nat (n mod 10) = (word_of_nat (n div 10 * 10 + n mod 10) :: 'a word)" by (simp only: of_nat_add of_nat_mult of_nat_numeral)
    then show ?thesis using 1 False by (subst decimal.simps) (simp add: parse_digits_snoc digit_simps)
  qed
qed

lemma read_digits_snoc: "list_all (\<lambda>c. \<exists>d < 10. c = decimal_char d) xs \<Longrightarrow> d < 10 \<Longrightarrow> read_digits 10 a (xs @ [decimal_char d]) = read_digits 10 a xs * 10 + d"
  by (induction xs arbitrary: a) (auto simp: digit_simps)

lemma read_digits_decimal: "read_digits 10 0 (decimal n) = n"
proof (induction n rule: decimal.induct)
  case (1 n)
  show ?case
  proof (cases "n < 10")
    case True
    then show ?thesis by (subst decimal.simps) (simp add: digit_simps)
  next
    case False
    have "decimal n = decimal (n div 10) @ [decimal_char (n mod 10)]" using False by (subst decimal.simps) simp
    then show ?thesis using 1 False read_digits_snoc [OF decimal_digits, of "n mod 10" 0 "n div 10"] by simp
  qed
qed

lemma has_sub_char: "has_sub t s \<Longrightarrow> c \<in> set t \<Longrightarrow> c \<in> set s"
  unfolding has_sub_def list_ex_iff by (metis in_set_dropD in_set_takeD)

lemma decimal_no_letters: "c \<in> set (decimal n) \<Longrightarrow> (of_char c :: nat) \<in> {48 .. 57}"
  using decimal_digits [of n] of_decimal_char by (auto simp: list_all_iff)

text \<open>Decimal numerals: 32-bit options take exactly the numbers below \<open>2 ^ 32\<close> and end the process for larger ones; 16- and 8-bit options are
  reduced silently.\<close>

theorem decimal_options:
  "parse_uint16 (decimal n) = Some (word_of_nat n) \<and> parse_uint8 (decimal n) = Some (word_of_nat n)
   \<and> parse_uint32 stod (decimal n) = (if n < 2 ^ 32 then Inr (Some (word_of_nat n)) else Inl ProcessExit)"
proof -
  have no: "\<not> has_sub ''kB'' (decimal n)" "\<not> has_sub ''MB'' (decimal n)" "\<not> has_sub ''GB'' (decimal n)" "\<not> has_sub ''0b'' (decimal n)" "\<not> has_sub ''0x'' (decimal n)"
    using has_sub_char [of "''kB''" "decimal n" "CHR ''B''"] has_sub_char [of "''MB''" "decimal n" "CHR ''B''"] has_sub_char [of "''GB''" "decimal n" "CHR ''B''"]
      has_sub_char [of "''0b''" "decimal n" "CHR ''b''"] has_sub_char [of "''0x''" "decimal n" "CHR ''x''"]
      decimal_no_letters [of "CHR ''B''" n] decimal_no_letters [of "CHR ''b''" n] decimal_no_letters [of "CHR ''x''" n] by auto
  obtain c cs where d: "decimal n = c # cs" using decimal_nonempty by (cases "decimal n") auto
  then have c: "(of_char c :: nat) \<in> {48 .. 57}" using decimal_no_letters [of c n] by simp
  then have "\<not> isspace c" "c \<noteq> CHR ''-''" "c \<noteq> CHR ''+''" "begins_digit 10 (decimal n)"
    by (auto simp: isspace_def begins_digit_def digit_of_def d Let_def)
  then have "stoul 10 (decimal n) = (if n < 2 ^ 32 then Inr (word_of_nat n) else Inl ProcessExit)"
    using read_digits_decimal [of n] d by (simp add: stoul_def Let_def)
  then show ?thesis using no decimal_nonempty by (simp add: parse_uint16_def parse_uint8_def parse_digits_decimal parse_uint32_def parse_number_def bindE_def)
qed

text \<open>A hexadecimal numeral with the digits \<open>0b\<close> in it is taken for a binary one, whose conversion throws.\<close>

theorem hexadecimal_0b_throws:
  assumes "has_sub ''0b'' s" and "\<not> has_sub ''kB'' (''0x'' @ s)" and "\<not> has_sub ''MB'' (''0x'' @ s)" and "\<not> has_sub ''GB'' (''0x'' @ s)"
  shows "parse_uint32 stod (''0x'' @ s) = Inl ProcessExit"
proof -
  have sub: "has_sub ''0b'' (''0x'' @ s)"
  proof -
    obtain i where "i < Suc (length s)" "take (length ''0b'') (drop i s) = ''0b''" using assms(1) unfolding has_sub_def list_ex_iff by (metis atLeastLessThan_upt atLeastLessThan_iff)
    then show ?thesis unfolding has_sub_def list_ex_iff by (intro bexI [of _ "Suc (Suc i)"]) (simp_all, arith)
  qed
  have b: "CHR ''b'' \<in> set s" using has_sub_char [OF assms(1)] by simp
  have "\<not> list_all (\<lambda>c. c = CHR ''0'' \<or> c = CHR ''1'') s"
  proof
    assume "list_all (\<lambda>c. c = CHR ''0'' \<or> c = CHR ''1'') s"
    then have "\<forall>c \<in> set s. c = CHR ''0'' \<or> c = CHR ''1''" by (simp only: list_all_iff)
    from bspec [OF this b] show False by simp
  qed
  then have "bitset32 (''0x'' @ s) = Inl ProcessExit" by (simp add: bitset32_def)
  then show ?thesis using sub assms(2-4) by (simp add: parse_uint32_def parse_number_def bindE_def)
qed

lemma hexadecimal_0b_throws_witness: "parse_uint32 (\<lambda>_ _. Inr 0) ''0x10b0'' = Inl ProcessExit"
proof -
  have "has_sub ''0b'' ''10b0''" "\<not> has_sub ''kB'' (''0x'' @ ''10b0'')" "\<not> has_sub ''MB'' (''0x'' @ ''10b0'')" "\<not> has_sub ''GB'' (''0x'' @ ''10b0'')"
    by (simp_all add: has_sub_def upt_rec del: upt_Suc)
  from hexadecimal_0b_throws [OF this] show ?thesis by simp
qed

end
