(* ===== verification/Global_Options.thy ===== *)
theory Global_Options
  imports Config_Parser
begin

text \<open>
  The options of the bridge (\<open>util/config/global_options.h\<close>, \<open>global_options.cpp\<close>, \<open>str_to_loglevel\<close> of \<open>util/log/log.h\<close>): how the
  table of the configuration becomes the settings, and what the accessors make of them.
\<close>

datatype LogLevel = LogTrace | LogDebug | LogInfo | LogWarn | LogError | LogNone

definition str_to_loglevel :: "string \<Rightarrow> LogLevel" where
  "str_to_loglevel s = (case map_of [(''Trace'', LogTrace), (''Debug'', LogDebug), (''Info'', LogInfo), (''Warn'', LogWarn), (''Error'', LogError),
     (''None'', LogNone)] s of Some l \<Rightarrow> l | None \<Rightarrow> LogInfo)"

record GlobalOptions =
  moduleClientChannelMemSize :: u32
  moduleClientCmdQueueSize :: u32
  moduleClientDataQueueSize :: u32
  moduleServerChannelMemSize :: u32
  moduleServerCmdQueueSize :: u32
  moduleServerDataQueueSize :: u32
  clientChannelMemSize :: u32
  clientCmdQueueSize :: u32
  clientDataQueueSize :: u32
  serverChannelMemSize :: u32
  serverCmdQueueSize :: u32
  serverDataQueueSize :: u32
  sendReadOnlyCalls :: bool
  sendAllServerResponses :: bool
  sendCreateFunctionServerResponses :: bool
  logAllCalls :: bool
  logApiCalls :: bool
  logAllCommands :: bool
  logServerCommands :: bool
  commandTimeout :: u32
  startupTimeout :: u32
  ackTimeout :: u32
  commandRetries :: u32
  infiniteRetries :: bool
  logLevel :: LogLevel
  keyStateCircBufMaxSize :: u16
  presentSemaphoreMaxFrames :: u8
  presentSemaphoreEnabled :: bool
  commandBatchingEnabled :: bool
  disableTimeoutsWhenDebugging :: bool
  disableTimeouts :: bool
  useSharedHeap :: bool
  sharedHeapPolicy :: u32
  sharedHeapSize :: u32
  sharedHeapDefaultSegmentSize :: u32
  sharedHeapChunkSize :: u32
  sharedHeapFreeChunkWaitTimeout :: u32
  threadSafetyPolicy :: u32
  alwaysCopyEntireStaticBuffer :: bool
  exposeRemixApi :: bool
  eliminateRedundantSetterCalls :: bool
  clientCmdPublishBatch :: u32
  clientFrameCap :: u32
  clientStateBatch :: bool

section \<open>One option\<close>

definition u32_option :: "(nat \<Rightarrow> string \<Rightarrow> u32 or_error) \<Rightarrow> Config \<Rightarrow> string \<Rightarrow> u32 \<Rightarrow> ((u32 \<Rightarrow> u32) \<Rightarrow> GlobalOptions \<Rightarrow> GlobalOptions) \<Rightarrow> GlobalOptions \<Rightarrow> GlobalOptions or_error" where
  "u32_option stod c name fallback upd opts = bindE (getOption 0 (parse_uint32 stod) c name fallback) (\<lambda>v. Inr (upd (\<lambda>_. v) opts))"

definition u16_option :: "Config \<Rightarrow> string \<Rightarrow> u16 \<Rightarrow> ((u16 \<Rightarrow> u16) \<Rightarrow> GlobalOptions \<Rightarrow> GlobalOptions) \<Rightarrow> GlobalOptions \<Rightarrow> GlobalOptions or_error" where
  "u16_option c name fallback upd opts = bindE (getOption 0 (Inr \<circ> parse_uint16) c name fallback) (\<lambda>v. Inr (upd (\<lambda>_. v) opts))"

definition u8_option :: "Config \<Rightarrow> string \<Rightarrow> u8 \<Rightarrow> ((u8 \<Rightarrow> u8) \<Rightarrow> GlobalOptions \<Rightarrow> GlobalOptions) \<Rightarrow> GlobalOptions \<Rightarrow> GlobalOptions or_error" where
  "u8_option c name fallback upd opts = bindE (getOption 0 (Inr \<circ> parse_uint8) c name fallback) (\<lambda>v. Inr (upd (\<lambda>_. v) opts))"

definition bool_option :: "Config \<Rightarrow> string \<Rightarrow> bool \<Rightarrow> ((bool \<Rightarrow> bool) \<Rightarrow> GlobalOptions \<Rightarrow> GlobalOptions) \<Rightarrow> GlobalOptions \<Rightarrow> GlobalOptions or_error" where
  "bool_option c name fallback upd opts = bindE (getOption False (Inr \<circ> parse_bool) c name fallback) (\<lambda>v. Inr (upd (\<lambda>_. v) opts))"

definition level_option :: "Config \<Rightarrow> string \<Rightarrow> GlobalOptions \<Rightarrow> GlobalOptions or_error" where
  "level_option c kDefaultLogLevel opts = bindE (getOption [] (Inr \<circ> parse_string) c ''logLevel'' kDefaultLogLevel)
     (\<lambda>strLevel. Inr (opts\<lparr>logLevel := str_to_loglevel strLevel\<rparr>))"

section \<open>The policy of the shared heap\<close>

definition Policy_Textures :: u32 where "Policy_Textures = 1"
definition Policy_DynamicBuffers :: u32 where "Policy_DynamicBuffers = 2"
definition Policy_StaticBuffers :: u32 where "Policy_StaticBuffers = 4"

definition add_policy :: "string \<Rightarrow> u32 \<Rightarrow> u32" where
  "add_policy policyStr p = (if policyStr = ''Textures'' then p OR Policy_Textures
     else if policyStr = ''DynamicBuffers'' then p OR Policy_DynamicBuffers
     else if policyStr = ''StaticBuffers'' then p OR Policy_StaticBuffers else p)"

definition heap_policy :: "string list \<Rightarrow> bool option \<Rightarrow> u32" where
  "heap_policy policyStrs shadow =
    (let p = (if policyStrs = [] then Policy_Textures OR Policy_StaticBuffers else fold add_policy policyStrs 0) in
     case shadow of None \<Rightarrow> p | Some b \<Rightarrow> if b = (p AND Policy_DynamicBuffers \<noteq> 0) then p XOR Policy_DynamicBuffers else p)"

definition initSharedHeapPolicy :: "Config \<Rightarrow> GlobalOptions \<Rightarrow> GlobalOptions or_error" where
  "initSharedHeapPolicy c opts =
    (if useSharedHeap opts
     then bindE (getOption [] (Inr \<circ> parse_strings) c ''sharedHeapPolicy'' []) (\<lambda>policyStrs.
          bindE (if isOptionDefined c ''useShadowMemoryForDynamicBuffers''
                 then bindE (getOption False (Inr \<circ> parse_bool) c ''useShadowMemoryForDynamicBuffers'' False) (Inr \<circ> Some) else Inr None) (\<lambda>shadow.
          Inr (opts\<lparr>sharedHeapPolicy := heap_policy policyStrs shadow\<rparr>)))
     else Inr (opts\<lparr>sharedHeapPolicy := 0\<rparr>))"

section \<open>All options\<close>

fun run_steps :: "(GlobalOptions \<Rightarrow> GlobalOptions or_error) list \<Rightarrow> GlobalOptions \<Rightarrow> GlobalOptions or_error" where
  "run_steps [] opts = Inr opts"
| "run_steps (f # fs) opts = bindE (f opts) (run_steps fs)"

definition option_steps :: "bool \<Rightarrow> (nat \<Rightarrow> string \<Rightarrow> u32 or_error) \<Rightarrow> Config \<Rightarrow> (GlobalOptions \<Rightarrow> GlobalOptions or_error) list" where
  "option_steps debug_build stod c =
   [u32_option stod c ''moduleClientChannelMemSize'' (4 * 2 ^ 20) moduleClientChannelMemSize_update,
    u32_option stod c ''moduleClientCmdQueueSize'' 5 moduleClientCmdQueueSize_update,
    u32_option stod c ''moduleClientDataQueueSize'' 25 moduleClientDataQueueSize_update,
    u32_option stod c ''moduleServerChannelMemSize'' (4 * 2 ^ 20) moduleServerChannelMemSize_update,
    u32_option stod c ''moduleServerCmdQueueSize'' 5 moduleServerCmdQueueSize_update,
    u32_option stod c ''moduleServerDataQueueSize'' 25 moduleServerDataQueueSize_update,
    u32_option stod c ''clientChannelMemSize'' (96 * 2 ^ 20) clientChannelMemSize_update,
    u32_option stod c ''clientCmdQueueSize'' (3 * 2 ^ 10) clientCmdQueueSize_update,
    u32_option stod c ''clientDataQueueSize'' (3 * 2 ^ 10) clientDataQueueSize_update,
    u32_option stod c ''serverChannelMemSize'' (32 * 2 ^ 20) serverChannelMemSize_update,
    u32_option stod c ''serverCmdQueueSize'' 10 serverCmdQueueSize_update,
    u32_option stod c ''serverDataQueueSize'' 25 serverDataQueueSize_update,
    bool_option c ''sendReadOnlyCalls'' False sendReadOnlyCalls_update,
    bool_option c ''sendAllServerResponses'' False sendAllServerResponses_update,
    bool_option c ''sendCreateFunctionServerResponses'' True sendCreateFunctionServerResponses_update,
    bool_option c ''logApiCalls'' False logApiCalls_update,
    bool_option c ''logAllCalls'' False logAllCalls_update,
    bool_option c ''logAllCommands'' False logAllCommands_update,
    bool_option c ''logServerCommands'' False logServerCommands_update,
    u32_option stod c ''commandTimeout'' 1000 commandTimeout_update,
    u32_option stod c ''startupTimeout'' 100 startupTimeout_update,
    u32_option stod c ''commandRetries'' 300 commandRetries_update,
    u32_option stod c ''ackTimeout'' 10 ackTimeout_update,
    bool_option c ''infiniteRetries'' False infiniteRetries_update,
    level_option c (if debug_build then ''Debug'' else ''Info''),
    u16_option c ''keyStateCircBufMaxSize'' 100 keyStateCircBufMaxSize_update,
    u8_option c ''presentSemaphoreMaxFrames'' 3 presentSemaphoreMaxFrames_update,
    bool_option c ''presentSemaphoreEnabled'' True presentSemaphoreEnabled_update,
    bool_option c ''commandBatchingEnabled'' False commandBatchingEnabled_update,
    bool_option c ''disableTimeoutsWhenDebugging'' False disableTimeoutsWhenDebugging_update,
    bool_option c ''disableTimeouts'' True disableTimeouts_update,
    bool_option c ''useSharedHeap'' False useSharedHeap_update,
    initSharedHeapPolicy c,
    u32_option stod c ''sharedHeapDefaultSegmentSize'' (256 * 2 ^ 20) sharedHeapDefaultSegmentSize_update,
    u32_option stod c ''sharedHeapChunkSize'' (4 * 2 ^ 10) sharedHeapChunkSize_update,
    u32_option stod c ''sharedHeapFreeChunkWaitTimeout'' 10 sharedHeapFreeChunkWaitTimeout_update,
    u32_option stod c ''threadSafetyPolicy'' 0 threadSafetyPolicy_update,
    bool_option c ''alwaysCopyEntireStaticBuffer'' False alwaysCopyEntireStaticBuffer_update,
    bool_option c ''exposeRemixApi'' False exposeRemixApi_update,
    bool_option c ''eliminateRedundantSetterCalls'' False eliminateRedundantSetterCalls_update,
    u32_option stod c ''clientCmdPublishBatch'' 32 clientCmdPublishBatch_update,
    u32_option stod c ''clientFrameCap'' 0 clientFrameCap_update,
    bool_option c ''clientStateBatch'' True clientStateBatch_update]"

definition initialize_options :: "bool \<Rightarrow> (nat \<Rightarrow> string \<Rightarrow> u32 or_error) \<Rightarrow> Config \<Rightarrow> GlobalOptions \<Rightarrow> GlobalOptions or_error" where
  "initialize_options debug_build stod c = run_steps (option_steps debug_build stod c)"

section \<open>Accessors\<close>

text \<open>\<open>debug\<close> is \<open>_DEBUG\<close>, \<open>server\<close> is \<open>REMIX_BRIDGE_SERVER\<close>, \<open>debugger\<close> the answer of \<open>IsDebuggerPresent\<close>.\<close>

definition timeouts_off :: "bool \<Rightarrow> bool \<Rightarrow> GlobalOptions \<Rightarrow> bool" where
  "timeouts_off debug debugger o1 = (disableTimeouts o1 \<or> debug \<and> debugger \<and> disableTimeoutsWhenDebugging o1)"

definition getCommandTimeout :: "bool \<Rightarrow> bool \<Rightarrow> GlobalOptions \<Rightarrow> u32" where
  "getCommandTimeout debug debugger o1 = (if timeouts_off debug debugger o1 then 0 else commandTimeout o1)"

definition getStartupTimeout :: "bool \<Rightarrow> bool \<Rightarrow> GlobalOptions \<Rightarrow> u32" where
  "getStartupTimeout debug debugger o1 = (if timeouts_off debug debugger o1 then 0 else startupTimeout o1)"

definition getAckTimeout :: "bool \<Rightarrow> bool \<Rightarrow> GlobalOptions \<Rightarrow> u32" where
  "getAckTimeout debug debugger o1 = (if timeouts_off debug debugger o1 then 0 else ackTimeout o1)"

definition getSemaphoreTimeout :: "GlobalOptions \<Rightarrow> u32" where
  "getSemaphoreTimeout o1 = commandTimeout o1"

definition getCommandRetries :: "GlobalOptions \<Rightarrow> u32" where
  "getCommandRetries o1 = (if infiniteRetries o1 then 0xFFFFFFFF else commandRetries o1)"

definition getInfiniteRetries :: "bool \<Rightarrow> GlobalOptions \<Rightarrow> bool" where
  "getInfiniteRetries server o1 = (server \<or> infiniteRetries o1)"

definition getLogServerCommands :: "GlobalOptions \<Rightarrow> bool" where
  "getLogServerCommands o1 = (logServerCommands o1 \<or> logAllCommands o1)"

definition getUseSharedHeapForTextures :: "GlobalOptions \<Rightarrow> bool" where
  "getUseSharedHeapForTextures o1 = (sharedHeapPolicy o1 AND Policy_Textures \<noteq> 0)"

definition getUseSharedHeapForDynamicBuffers :: "GlobalOptions \<Rightarrow> bool" where
  "getUseSharedHeapForDynamicBuffers o1 = (sharedHeapPolicy o1 AND Policy_DynamicBuffers \<noteq> 0)"

definition getUseSharedHeapForStaticBuffers :: "GlobalOptions \<Rightarrow> bool" where
  "getUseSharedHeapForStaticBuffers o1 = (sharedHeapPolicy o1 AND Policy_StaticBuffers \<noteq> 0)"

definition getServerSyncFlags :: "bool \<Rightarrow> GlobalOptions \<Rightarrow> u32" where
  "getServerSyncFlags server o1 = (if disableTimeouts o1 then 1 else 0) OR (if getInfiniteRetries server o1 then 2 else 0)"

definition applyServerSyncFlags :: "u32 \<Rightarrow> GlobalOptions \<Rightarrow> GlobalOptions" where
  "applyServerSyncFlags flags o1 = o1\<lparr>disableTimeouts := (flags AND 1 = 1), infiniteRetries := (flags AND 2 = 2)\<rparr>"

section \<open>Starting with a table\<close>

definition u32_options :: "string list" where
  "u32_options = [''moduleClientChannelMemSize'', ''moduleClientCmdQueueSize'', ''moduleClientDataQueueSize'', ''moduleServerChannelMemSize'', ''moduleServerCmdQueueSize'', ''moduleServerDataQueueSize'', ''clientChannelMemSize'', ''clientCmdQueueSize'', ''clientDataQueueSize'', ''serverChannelMemSize'', ''serverCmdQueueSize'', ''serverDataQueueSize'', ''commandTimeout'', ''startupTimeout'', ''commandRetries'', ''ackTimeout'', ''sharedHeapDefaultSegmentSize'', ''sharedHeapChunkSize'', ''sharedHeapFreeChunkWaitTimeout'', ''threadSafetyPolicy'', ''clientCmdPublishBatch'', ''clientFrameCap'']"

lemma run_steps_accepts:
  "(\<And>f o2 o3. f \<in> set fs \<Longrightarrow> (\<exists>x. f o2 = Inr x) = (\<exists>x. f o3 = Inr x)) \<Longrightarrow>
   (\<exists>x. run_steps fs o1 = Inr x) = list_all (\<lambda>f. \<exists>x. f o1 = Inr x) fs"
proof (induction fs arbitrary: o1)
  case (Cons f fs)
  have rest: "(\<exists>x. run_steps fs o2 = Inr x) = list_all (\<lambda>f. \<exists>x. f o1 = Inr x) fs" for o2
  proof -
    have "list_all (\<lambda>f. \<exists>x. f o2 = Inr x) fs = list_all (\<lambda>f. \<exists>x. f o1 = Inr x) fs"
      using Cons.prems by (intro list.pred_cong) auto
    then show ?thesis using Cons by simp
  qed
  show ?case
  proof (cases "f o1")
    case (Inr o2)
    then show ?thesis using rest [of o2] by simp
  qed simp
qed simp

lemma u32_option_accepts: "(\<exists>x. u32_option stod c name fallback upd o1 = Inr x)
    = (s_bIsInit c \<longrightarrow> (\<exists>r. parse_uint32 stod (getOptionValue c name) = Inr r))"
  by (cases "parse_uint32 stod (getOptionValue c name)") (simp_all add: u32_option_def getOption_def)

lemma other_options_accept:
  "\<exists>x. u16_option c name f16 upd16 o1 = Inr x" "\<exists>x. u8_option c name f8 upd8 o1 = Inr x"
  "\<exists>x. bool_option c name fb updb o1 = Inr x" "\<exists>x. level_option c fl o1 = Inr x" "\<exists>x. initSharedHeapPolicy c o1 = Inr x"
  by (simp_all add: u16_option_def u8_option_def bool_option_def level_option_def initSharedHeapPolicy_def getOption_def)

lemma get_strings: "s_bIsInit c \<Longrightarrow> getOption [] (Inr \<circ> parse_strings) c name [] = Inr (getlines (CHR '','') (getOptionValue c name))"
  by (simp add: getOption_def parse_strings_def Let_def)

lemma get_bool_unset: "s_bIsInit c \<Longrightarrow> getOption False (Inr \<circ> parse_bool) c name False = Inr (getOptionValue c name = ''True'')"
  by (simp add: getOption_def parse_bool_def)

lemma initSharedHeapPolicy_value:
  assumes "s_bIsInit c"
  shows "initSharedHeapPolicy c o1 = Inr (o1\<lparr>sharedHeapPolicy := if useSharedHeap o1 then
     heap_policy (getlines (CHR '','') (getOptionValue c ''sharedHeapPolicy''))
       (map_option (\<lambda>v. v = ''True'') (m_options c ''useShadowMemoryForDynamicBuffers'')) else 0\<rparr>)"
proof (cases "useSharedHeap o1")
  case True
  show ?thesis
  proof (cases "m_options c ''useShadowMemoryForDynamicBuffers''")
    case None
    then have "\<not> isOptionDefined c ''useShadowMemoryForDynamicBuffers''" by (simp only: isOptionDefined_def simp_thms)
    then show ?thesis using True assms None by (simp only: initSharedHeapPolicy_def get_strings if_True if_False bindE_Inr option.map)
  next
    case (Some v)
    then have "isOptionDefined c ''useShadowMemoryForDynamicBuffers''" "getOptionValue c ''useShadowMemoryForDynamicBuffers'' = v"
      by (simp_all only: isOptionDefined_def getOptionValue_def option.case option.distinct simp_thms)
    then show ?thesis using True assms Some
      by (simp only: initSharedHeapPolicy_def get_strings get_bool_unset if_True bindE_Inr option.map comp_apply)
  qed
qed (simp add: initSharedHeapPolicy_def)



lemma policy_exp: "Policy_Textures = 2 ^ 0" "Policy_DynamicBuffers = 2 ^ 1" "Policy_StaticBuffers = 2 ^ 2"
  by (simp_all add: Policy_Textures_def Policy_DynamicBuffers_def Policy_StaticBuffers_def)

lemma policy_tests:
  "p AND Policy_Textures \<noteq> 0 \<longleftrightarrow> bit p 0" "p AND Policy_DynamicBuffers \<noteq> 0 \<longleftrightarrow> bit p 1" "p AND Policy_StaticBuffers \<noteq> 0 \<longleftrightarrow> bit p 2"
  unfolding policy_exp by (simp_all only: and_exp_eq_0_iff_not_bit not_not)

lemma policy_bits:
  "bit Policy_Textures n \<longleftrightarrow> n = 0" "bit Policy_DynamicBuffers n \<longleftrightarrow> n = 1" "bit Policy_StaticBuffers n \<longleftrightarrow> n = 2"
  unfolding policy_exp bit_exp_iff by auto

lemma add_policy_bits:
  "bit (add_policy x p) 0 \<longleftrightarrow> bit p 0 \<or> x = ''Textures''" "bit (add_policy x p) 1 \<longleftrightarrow> bit p 1 \<or> x = ''DynamicBuffers''"
  "bit (add_policy x p) 2 \<longleftrightarrow> bit p 2 \<or> x = ''StaticBuffers''"
  by (simp_all add: add_policy_def bit_or_iff policy_bits)

lemma fold_policy_bits:
  "bit (fold add_policy xs p) 0 \<longleftrightarrow> bit p 0 \<or> ''Textures'' \<in> set xs"
  "bit (fold add_policy xs p) 1 \<longleftrightarrow> bit p 1 \<or> ''DynamicBuffers'' \<in> set xs"
  "bit (fold add_policy xs p) 2 \<longleftrightarrow> bit p 2 \<or> ''StaticBuffers'' \<in> set xs"
  by (induction xs arbitrary: p) (simp_all only: fold_simps add_policy_bits set_simps insert_iff empty_iff; blast)+

lemma heap_policy_bits:
  "bit (heap_policy xs b) 0 \<longleftrightarrow> xs = [] \<or> ''Textures'' \<in> set xs" "bit (heap_policy xs b) 2 \<longleftrightarrow> xs = [] \<or> ''StaticBuffers'' \<in> set xs"
  "bit (heap_policy xs b) 1 \<longleftrightarrow> (case b of None \<Rightarrow> ''DynamicBuffers'' \<in> set xs | Some s \<Rightarrow> \<not> s)"
  unfolding heap_policy_def Let_def policy_tests
  by (auto simp: bit_or_iff bit_xor_iff policy_bits fold_policy_bits simp del: One_nat_def split: option.split)

text \<open>C36. What is kept in the shared heap when it is used: a list of policies replaces the default of textures and static buffers; the option for shadow memory, when it is
  set, decides about dynamic buffers whatever the policy says, and counts as \<open>False\<close> unless it is spelt \<open>True\<close>.\<close>

theorem heap_policy_decided:
  assumes "s_bIsInit c" and "useSharedHeap o1"
  shows "\<exists>o2. initSharedHeapPolicy c o1 = Inr o2 \<and>
    (let ps = getlines (CHR '','') (getOptionValue c ''sharedHeapPolicy'') in
     (getUseSharedHeapForTextures o2 = (ps = [] \<or> ''Textures'' \<in> set ps)) \<and>
     (getUseSharedHeapForStaticBuffers o2 = (ps = [] \<or> ''StaticBuffers'' \<in> set ps)) \<and>
     (getUseSharedHeapForDynamicBuffers o2 = (case m_options c ''useShadowMemoryForDynamicBuffers'' of None \<Rightarrow> ''DynamicBuffers'' \<in> set ps | Some v \<Rightarrow> v \<noteq> ''True'')))"
  using assms unfolding initSharedHeapPolicy_value [OF assms(1)] Let_def getUseSharedHeapForTextures_def getUseSharedHeapForStaticBuffers_def
    getUseSharedHeapForDynamicBuffers_def policy_tests by (simp add: heap_policy_bits del: One_nat_def split: option.split)

text \<open>The line of the sample file: only textures remain in the heap.\<close>

lemma sample_policy_line:
  "parseUserConfigLine ''sharedHeapPolicy = Textures, StaticBuffers'' = Some (''sharedHeapPolicy'', ''Textures,'')"
  "getlines (CHR '','') ''Textures,'' = [''Textures'']"
  by (simp_all add: parseUserConfigLine_def skipWhitespace_def isWhitespace_def isValidKeyChar_def isDigit_def Let_def)

lemma heap_policy_decided_witness:
  "\<exists>o2. initSharedHeapPolicy \<lparr>s_bIsInit = True, m_options = [''sharedHeapPolicy'' \<mapsto> ''Textures,'']\<rparr> ((undefined :: GlobalOptions)\<lparr>useSharedHeap := True\<rparr>) = Inr o2
    \<and> getUseSharedHeapForTextures o2 \<and> \<not> getUseSharedHeapForStaticBuffers o2 \<and> \<not> getUseSharedHeapForDynamicBuffers o2"
  using heap_policy_decided [of "\<lparr>s_bIsInit = True, m_options = [''sharedHeapPolicy'' \<mapsto> ''Textures,'']\<rparr>" "(undefined :: GlobalOptions)\<lparr>useSharedHeap := True\<rparr>"]
  by (simp add: getOptionValue_def sample_policy_line Let_def)

lemma sync_flags_arrive:
  "disableTimeouts (applyServerSyncFlags (getServerSyncFlags False o1) o2) = disableTimeouts o1"
  "infiniteRetries (applyServerSyncFlags (getServerSyncFlags False o1) o2) = infiniteRetries o1"
  by (auto simp: applyServerSyncFlags_def getServerSyncFlags_def getInfiniteRetries_def)

end
