(* ===== verification/Direct3D_Module.thy ===== *)
theory Direct3D_Module
  imports Server_Dispatch
begin

text \<open>
  The Direct3D module: \<open>Direct3D9Ex_LSS\<close> of \<open>client/d3d9_module.cpp\<close> with its caches, and the cases of \<open>processModuleCommandQueue\<close> of
  \<open>server/module_processing.cpp\<close> that answer its commands.  The runtime is the parameter \<open>rt\<close>: what its method answers when the server has
  served so many commands.  Creating a device is in the theories of the device.
\<close>

section \<open>The server\<close>

text \<open>The value a method returns, the structures it fills, the quality levels and the monitor (64 bits in the server) of the methods that have these.\<close>

record rt_answer =
  ret :: u32
  outs :: "memory list"
  quality :: u32
  monitor :: u64

type_synonym server_runtime = "nat \<Rightarrow> string \<Rightarrow> api_arg list \<Rightarrow> rt_answer"

text \<open>What is undetermined in one exchange: whether the client sees the answer in time, the bytes that follow the data of the answer in the ring, the
  address of the data in the server, and the contents of its stack.\<close>

record surroundings =
  answered :: bool
  following :: memory
  data_address :: u64
  stack_bytes :: memory

definition SUCCEEDED :: "u32 \<Rightarrow> bool" where
  "SUCCEEDED hr = (\<not> bit hr 31)"

abbreviation INVALIDCALL :: u32 where "INVALIDCALL \<equiv> 0x8876086C"
abbreviation NOTAVAILABLE :: u32 where "NOTAVAILABLE \<equiv> 0x8876086A"
abbreviation FAIL :: u32 where "FAIL \<equiv> 0x80004005"

type_synonym server_case = "item list \<Rightarrow> item list or_error"

definition take_word :: "(u32 \<Rightarrow> server_case) \<Rightarrow> server_case" where
  "take_word k its = (case its of Word w # r \<Rightarrow> k w r | _ \<Rightarrow> Inl Desync)"

definition take_data :: "(memory option \<Rightarrow> server_case) \<Rightarrow> server_case" where
  "take_data k its = (case its of Obj b # r \<Rightarrow> k b r | _ \<Rightarrow> Inl Desync)"

text \<open>\<open>send_data(hresult)\<close>, followed by the structures when it is a success.\<close>

definition send_value :: "rt_answer \<Rightarrow> server_case" where
  "send_value a its = Inr [Word (ret a)]"

definition send_structs :: "rt_answer \<Rightarrow> server_case" where
  "send_structs a its = Inr (Word (ret a) # (if SUCCEEDED (ret a) then map (Obj \<circ> Some) (outs a) else []))"

type_synonym rt1 = "string \<Rightarrow> api_arg list \<Rightarrow> rt_answer"

definition case_GetAdapterCount :: "rt1 \<Rightarrow> server_case" where
  "case_GetAdapterCount rt = send_value (rt ''GetAdapterCount'' [])"

definition case_GetAdapterIdentifier :: "rt1 \<Rightarrow> server_case" where
  "case_GetAdapterIdentifier rt = take_word (\<lambda>Adapter. take_word (\<lambda>Flags. send_structs (rt ''GetAdapterIdentifier'' [W Adapter, W Flags, Out])))"

definition case_GetAdapterModeCount :: "rt1 \<Rightarrow> server_case" where
  "case_GetAdapterModeCount rt = take_word (\<lambda>Adapter. take_word (\<lambda>Format. send_value (rt ''GetAdapterModeCount'' [W Adapter, W Format])))"

definition case_EnumAdapterModes :: "rt1 \<Rightarrow> server_case" where
  "case_EnumAdapterModes rt = take_word (\<lambda>Adapter. take_word (\<lambda>Format. take_word (\<lambda>Mode.
     send_structs (rt ''EnumAdapterModes'' [W Adapter, W Format, W Mode, Out]))))"

definition case_GetAdapterDisplayMode :: "rt1 \<Rightarrow> server_case" where
  "case_GetAdapterDisplayMode rt = take_word (\<lambda>Adapter. send_structs (rt ''GetAdapterDisplayMode'' [W Adapter, Out]))"

definition case_CheckDeviceType :: "rt1 \<Rightarrow> server_case" where
  "case_CheckDeviceType rt = take_word (\<lambda>Adapter. take_word (\<lambda>DevType. take_word (\<lambda>AdapterFormat. take_word (\<lambda>BackBufferFormat. take_word (\<lambda>bWindowed.
     send_value (rt ''CheckDeviceType'' [W Adapter, W DevType, W AdapterFormat, W BackBufferFormat, W bWindowed]))))))"

definition case_CheckDeviceFormat :: "rt1 \<Rightarrow> server_case" where
  "case_CheckDeviceFormat rt = take_word (\<lambda>Adapter. take_word (\<lambda>DeviceType. take_word (\<lambda>AdapterFormat. take_word (\<lambda>Usage. take_word (\<lambda>RType.
     take_word (\<lambda>CheckFormat. send_value (rt ''CheckDeviceFormat'' [W Adapter, W DeviceType, W AdapterFormat, W Usage, W RType, W CheckFormat])))))))"

definition case_CheckDeviceMultiSampleType :: "rt1 \<Rightarrow> server_case" where
  "case_CheckDeviceMultiSampleType rt = take_word (\<lambda>Adapter. take_word (\<lambda>DeviceType. take_word (\<lambda>SurfaceFormat. take_word (\<lambda>Windowed.
     take_word (\<lambda>MultiSampleType. \<lambda>its.
       let a = rt ''CheckDeviceMultiSampleType'' [W Adapter, W DeviceType, W SurfaceFormat, W Windowed, W MultiSampleType, Out]
       in Inr [Word (ret a), Word (quality a)])))))"

definition case_CheckDepthStencilMatch :: "rt1 \<Rightarrow> server_case" where
  "case_CheckDepthStencilMatch rt = take_word (\<lambda>Adapter. take_word (\<lambda>DeviceType. take_word (\<lambda>AdapterFormat. take_word (\<lambda>RenderTargetFormat.
     take_word (\<lambda>DepthStencilFormat. send_value (rt ''CheckDepthStencilMatch''
       [W Adapter, W DeviceType, W AdapterFormat, W RenderTargetFormat, W DepthStencilFormat]))))))"

definition case_CheckDeviceFormatConversion :: "rt1 \<Rightarrow> server_case" where
  "case_CheckDeviceFormatConversion rt = take_word (\<lambda>Adapter. take_word (\<lambda>DeviceType. take_word (\<lambda>SourceFormat. take_word (\<lambda>TargetFormat.
     send_value (rt ''CheckDeviceFormatConversion'' [W Adapter, W DeviceType, W SourceFormat, W TargetFormat])))))"

definition case_GetDeviceCaps :: "rt1 \<Rightarrow> server_case" where
  "case_GetDeviceCaps rt = take_word (\<lambda>Adapter. take_word (\<lambda>DeviceType. send_structs (rt ''GetDeviceCaps'' [W Adapter, W DeviceType, Out])))"

definition case_GetAdapterMonitor :: "rt1 \<Rightarrow> server_case" where
  "case_GetAdapterMonitor rt = take_word (\<lambda>Adapter. \<lambda>its. Inr [Word (ucast (monitor (rt ''GetAdapterMonitor'' [W Adapter])))])"

text \<open>\<open>PULL_DATA\<close> here stores the address of the data over the first eight bytes of the structure on the stack, which the runtime is then given.\<close>

definition address_bytes :: "u64 \<Rightarrow> memory" where
  "address_bytes w = u32_bytes (ucast w) @ u32_bytes (ucast (drop_bit 32 w))"

definition case_GetAdapterModeCountEx :: "surroundings \<Rightarrow> rt1 \<Rightarrow> server_case" where
  "case_GetAdapterModeCountEx e rt = take_word (\<lambda>Adapter. take_data (\<lambda>b.
     send_value (rt ''GetAdapterModeCountEx'' [W Adapter, P (Some (address_bytes (case b of None \<Rightarrow> 0 | Some _ \<Rightarrow> data_address e) @ stack_bytes e))])))"

definition case_GetAdapterLUID :: "rt1 \<Rightarrow> server_case" where
  "case_GetAdapterLUID rt = take_word (\<lambda>Adapter. send_structs (rt ''GetAdapterLUID'' [W Adapter, Out]))"

definition case_EnumAdapterModesEx :: "rt1 \<Rightarrow> server_case" where
  "case_EnumAdapterModesEx rt = take_word (\<lambda>Adapter. take_word (\<lambda>Mode. take_data (\<lambda>pFilter.
     send_structs (rt ''EnumAdapterModesEx'' [W Adapter, P pFilter, W Mode, Out]))))"

definition case_GetAdapterDisplayModeEx :: "rt1 \<Rightarrow> server_case" where
  "case_GetAdapterDisplayModeEx rt = take_word (\<lambda>Adapter. take_data (\<lambda>pMode. take_data (\<lambda>pRotation.
     (\<lambda>its. let a = rt ''GetAdapterDisplayModeEx'' [W Adapter, P pMode, P pRotation] in
       Inr (Word (ret a) # (if SUCCEEDED (ret a)
         then [Obj (map_option (\<lambda>_. outs a ! 0) pMode), Obj (map_option (\<lambda>_. outs a ! 1) pRotation)] else []))))))"

lemmas server_defs = take_word_def take_data_def send_value_def send_structs_def case_GetAdapterCount_def case_GetAdapterIdentifier_def
  case_GetAdapterModeCount_def case_EnumAdapterModes_def case_GetAdapterDisplayMode_def case_CheckDeviceType_def case_CheckDeviceFormat_def
  case_CheckDeviceMultiSampleType_def case_CheckDepthStencilMatch_def case_CheckDeviceFormatConversion_def case_GetDeviceCaps_def
  case_GetAdapterMonitor_def case_GetAdapterModeCountEx_def case_GetAdapterLUID_def case_EnumAdapterModesEx_def case_GetAdapterDisplayModeEx_def

section \<open>The client\<close>

text \<open>The module with its caches and the number of commands it has sent.\<close>

record Module =
  m_adapterCount :: u32
  m_adapterIdentifiers :: "u32 \<rightharpoonup> memory"
  m_adapterModeCount :: "u32 \<rightharpoonup> u32"
  m_enumAdapterMode :: "u32 \<rightharpoonup> memory"
  m_deviceCaps :: "u32 \<rightharpoonup> memory"
  m_adapterDisplayMode :: "u32 \<rightharpoonup> memory"
  commands :: nat

definition new_module :: Module where
  "new_module = \<lparr>m_adapterCount = 0, m_adapterIdentifiers = Map.empty, m_adapterModeCount = Map.empty, m_enumAdapterMode = Map.empty,
     m_deviceCaps = Map.empty, m_adapterDisplayMode = Map.empty, commands = 0\<rparr>"

text \<open>\<open>GET_HASH\<close>, on the 32 bits of \<open>size_t\<close>; \<open>h\<close> is \<open>std::hash\<close> on 32-bit values.\<close>

fun hash_combine :: "(u32 \<Rightarrow> u32) \<Rightarrow> u32 \<Rightarrow> u32 list \<Rightarrow> u32" where
  "hash_combine h seed [] = seed"
| "hash_combine h seed (v # rest) = hash_combine h (seed XOR (h v + 0x9e3779b9 + push_bit 6 seed + drop_bit 2 seed)) rest"

definition GET_HASH :: "(u32 \<Rightarrow> u32) \<Rightarrow> u32 list \<Rightarrow> u32" where
  "GET_HASH h vs = hash_combine h 0 vs"

type_synonym world = "(nat \<Rightarrow> surroundings) \<times> server_runtime"

text \<open>A command with its data and the wait for the answer, whose data are \<open>None\<close> when it did not come in time; what becomes of an answer that comes late is
  not modelled here.\<close>

definition exchange :: "world \<Rightarrow> (surroundings \<Rightarrow> rt1 \<Rightarrow> server_case) \<Rightarrow> item list \<Rightarrow> Module \<Rightarrow> (item list option \<times> Module) or_error" where
  "exchange w f its m = (let n = commands m; e = fst w n in
     bindE (f e (snd w n) (map received its)) (\<lambda>reply. Inr (if answered e then Some (map received reply) else None, m\<lparr>commands := n + 1\<rparr>)))"

definition answer_word :: "item list \<Rightarrow> (u32 \<times> item list) or_error" where
  "answer_word its = (case its of Word w # r \<Rightarrow> Inr (w, r) | _ \<Rightarrow> Inl Desync)"

definition copy_data :: "memory \<Rightarrow> nat \<Rightarrow> item list \<Rightarrow> (nat \<times> memory \<times> item list) or_error" where
  "copy_data ring sz its = (case its of Obj None # r \<Rightarrow> Inr (0, replicate sz 0, r) | Obj (Some bs) # r \<Rightarrow> Inr (length bs, take sz (bs @ ring), r) | _ \<Rightarrow> Inl Desync)"

definition adapter_refused :: "Module \<Rightarrow> u32 \<Rightarrow> bool" where
  "adapter_refused m Adapter = (m_adapterCount m \<noteq> 0 \<and> Adapter \<ge> m_adapterCount m)"

text \<open>The answer of a method that returns a value, \<open>None\<close> when there is none.\<close>

definition ask_value :: "world \<Rightarrow> (surroundings \<Rightarrow> rt1 \<Rightarrow> server_case) \<Rightarrow> item list \<Rightarrow> Module \<Rightarrow> (u32 option \<times> Module) or_error" where
  "ask_value w f its m = bindE (exchange w f its m) (\<lambda>(r, m1). case r of None \<Rightarrow> Inr (None, m1)
     | Some ds \<Rightarrow> bindE (answer_word ds) (\<lambda>(v, _). Inr (Some v, m1)))"

text \<open>A structure: the result, and the bytes when it was a success, complete or not.\<close>

definition read_struct :: "memory \<Rightarrow> nat \<Rightarrow> nat \<Rightarrow> item list \<Rightarrow> (u32 \<times> memory option) or_error" where
  "read_struct ring sz good ds = bindE (answer_word ds) (\<lambda>(hresult, r).
     if SUCCEEDED hresult
     then bindE (copy_data ring sz r) (\<lambda>(len, v, _). Inr (if len \<noteq> good \<and> len \<noteq> 0 then INVALIDCALL else hresult, Some v))
     else Inr (hresult, None))"

text \<open>The getters with a cache: \<open>p\<close> tells whether the pointer they write through is not null.\<close>

definition cached_struct :: "world \<Rightarrow> (surroundings \<Rightarrow> rt1 \<Rightarrow> server_case) \<Rightarrow> item list \<Rightarrow> nat \<Rightarrow> nat \<Rightarrow> u32 \<Rightarrow> (Module \<Rightarrow> u32 \<rightharpoonup> memory)
    \<Rightarrow> (((u32 \<rightharpoonup> memory) \<Rightarrow> (u32 \<rightharpoonup> memory)) \<Rightarrow> Module \<Rightarrow> Module) \<Rightarrow> u32 \<Rightarrow> bool \<Rightarrow> Module \<Rightarrow> ((u32 \<times> memory list) \<times> Module) or_error" where
  "cached_struct w f its sz good dflt cache upd key p m =
    (case cache m key of
       Some v \<Rightarrow> if p then Inr ((0, [v]), m) else Inl NullDereference
     | None \<Rightarrow> bindE (exchange w f its m) (\<lambda>(r, m1). case r of None \<Rightarrow> Inr ((dflt, []), m1)
         | Some ds \<Rightarrow> bindE (read_struct (following (fst w (commands m))) sz good ds) (\<lambda>(hresult, v). case v of
               None \<Rightarrow> Inr ((hresult, []), m1)
             | Some b \<Rightarrow> if p then Inr ((hresult, [b]), upd (\<lambda>c. c(key \<mapsto> b)) m1) else Inl NullDereference)))"

type_synonym module_result = "((u32 \<times> memory list) \<times> Module) or_error"

definition value_or :: "u32 \<Rightarrow> (u32 option \<times> Module) or_error \<Rightarrow> module_result" where
  "value_or d r = bindE r (\<lambda>(v, m). Inr ((case v of None \<Rightarrow> d | Some x \<Rightarrow> x, []), m))"

definition GetAdapterCount :: "world \<Rightarrow> Module \<Rightarrow> module_result" where
  "GetAdapterCount w m =
    (if m_adapterCount m \<noteq> 0 then Inr ((m_adapterCount m, []), m)
     else bindE (ask_value w (\<lambda>e. case_GetAdapterCount) [] m) (\<lambda>(v, m1). case v of
         None \<Rightarrow> Inr ((1, []), m1)
       | Some n \<Rightarrow> Inr ((n, []), m1\<lparr>m_adapterCount := n\<rparr>)))"

definition GetAdapterIdentifier :: "world \<Rightarrow> (u32 \<Rightarrow> u32) \<Rightarrow> u32 \<Rightarrow> u32 \<Rightarrow> bool \<Rightarrow> Module \<Rightarrow> module_result" where
  "GetAdapterIdentifier w h Adapter Flags pIdentifier m =
    (if \<not> pIdentifier then Inr ((INVALIDCALL, []), m)
     else if adapter_refused m Adapter then Inr ((INVALIDCALL, []), m)
     else cached_struct w (\<lambda>e. case_GetAdapterIdentifier) [Word Adapter, Word Flags] 1100 (1100 + 4) FAIL m_adapterIdentifiers m_adapterIdentifiers_update
       (GET_HASH h [Adapter, Flags]) True m)"

definition GetAdapterModeCount :: "world \<Rightarrow> (u32 \<Rightarrow> u32) \<Rightarrow> u32 \<Rightarrow> u32 \<Rightarrow> Module \<Rightarrow> module_result" where
  "GetAdapterModeCount w h Adapter Format m =
    (if adapter_refused m Adapter then Inr ((0, []), m)
     else let key = GET_HASH h [Adapter, Format] in
       case m_adapterModeCount m key of
         Some n \<Rightarrow> Inr ((n, []), m)
       | None \<Rightarrow> bindE (ask_value w (\<lambda>e. case_GetAdapterModeCount) [Word Adapter, Word Format] m) (\<lambda>(v, m1). case v of
           None \<Rightarrow> Inr ((0, []), m1)
         | Some n \<Rightarrow> Inr ((n, []), m1\<lparr>m_adapterModeCount := (m_adapterModeCount m1)(key \<mapsto> n)\<rparr>)))"

definition EnumAdapterModes :: "world \<Rightarrow> (u32 \<Rightarrow> u32) \<Rightarrow> u32 \<Rightarrow> u32 \<Rightarrow> u32 \<Rightarrow> bool \<Rightarrow> Module \<Rightarrow> module_result" where
  "EnumAdapterModes w h Adapter Format Mode pMode m =
    (if adapter_refused m Adapter then Inr ((INVALIDCALL, []), m)
     else cached_struct w (\<lambda>e. case_EnumAdapterModes) [Word Adapter, Word Format, Word Mode] 16 16 INVALIDCALL m_enumAdapterMode m_enumAdapterMode_update
       (GET_HASH h [Adapter, Format, Mode]) pMode m)"

definition GetAdapterDisplayMode :: "world \<Rightarrow> u32 \<Rightarrow> bool \<Rightarrow> Module \<Rightarrow> module_result" where
  "GetAdapterDisplayMode w Adapter pMode m =
    (if adapter_refused m Adapter then Inr ((INVALIDCALL, []), m)
     else cached_struct w (\<lambda>e. case_GetAdapterDisplayMode) [Word Adapter] 16 16 INVALIDCALL m_adapterDisplayMode m_adapterDisplayMode_update Adapter pMode m)"

definition CheckDeviceType :: "world \<Rightarrow> u32 \<Rightarrow> u32 \<Rightarrow> u32 \<Rightarrow> u32 \<Rightarrow> u32 \<Rightarrow> Module \<Rightarrow> module_result" where
  "CheckDeviceType w Adapter CheckType DisplayFormat BackBufferFormat Windowed m =
    (if adapter_refused m Adapter then Inr ((INVALIDCALL, []), m)
     else value_or FAIL (ask_value w (\<lambda>e. case_CheckDeviceType)
       [Word Adapter, Word CheckType, Word DisplayFormat, Word BackBufferFormat, Word Windowed] m))"

definition CheckDeviceFormat :: "world \<Rightarrow> u32 \<Rightarrow> u32 \<Rightarrow> u32 \<Rightarrow> u32 \<Rightarrow> u32 \<Rightarrow> u32 \<Rightarrow> Module \<Rightarrow> module_result" where
  "CheckDeviceFormat w Adapter DeviceType AdapterFormat Usage RType CheckFormat m =
    (if adapter_refused m Adapter then Inr ((INVALIDCALL, []), m)
     else value_or NOTAVAILABLE (ask_value w (\<lambda>e. case_CheckDeviceFormat)
       [Word Adapter, Word DeviceType, Word AdapterFormat, Word Usage, Word RType, Word CheckFormat] m))"

text \<open>\<open>D3DMULTISAMPLE_16_SAMPLES\<close> is 16.  The quality levels are written when the caller asks for them.\<close>

definition CheckDeviceMultiSampleType :: "world \<Rightarrow> u32 \<Rightarrow> u32 \<Rightarrow> u32 \<Rightarrow> u32 \<Rightarrow> u32 \<Rightarrow> bool \<Rightarrow> Module \<Rightarrow> module_result" where
  "CheckDeviceMultiSampleType w Adapter DeviceType SurfaceFormat Windowed MultiSampleType pQualityLevels m =
    (if adapter_refused m Adapter then Inr ((INVALIDCALL, []), m)
     else if MultiSampleType > 16 then Inr ((INVALIDCALL, []), m)
     else bindE (exchange w (\<lambda>e. case_CheckDeviceMultiSampleType) [Word Adapter, Word DeviceType, Word SurfaceFormat, Word Windowed, Word MultiSampleType] m)
       (\<lambda>(r, m1). case r of None \<Rightarrow> Inr ((FAIL, []), m1)
         | Some ds \<Rightarrow> bindE (answer_word ds) (\<lambda>(res, ds1). bindE (answer_word ds1) (\<lambda>(QualityLevelsLocal, _).
             Inr ((res, if pQualityLevels then [u32_bytes QualityLevelsLocal] else []), m1)))))"

definition CheckDepthStencilMatch :: "world \<Rightarrow> u32 \<Rightarrow> u32 \<Rightarrow> u32 \<Rightarrow> u32 \<Rightarrow> u32 \<Rightarrow> Module \<Rightarrow> module_result" where
  "CheckDepthStencilMatch w Adapter DeviceType AdapterFormat RenderTargetFormat DepthStencilFormat m =
    (if adapter_refused m Adapter then Inr ((INVALIDCALL, []), m)
     else value_or FAIL (ask_value w (\<lambda>e. case_CheckDepthStencilMatch)
       [Word Adapter, Word DeviceType, Word AdapterFormat, Word RenderTargetFormat, Word DepthStencilFormat] m))"

definition CheckDeviceFormatConversion :: "world \<Rightarrow> u32 \<Rightarrow> u32 \<Rightarrow> u32 \<Rightarrow> u32 \<Rightarrow> Module \<Rightarrow> module_result" where
  "CheckDeviceFormatConversion w Adapter DeviceType SourceFormat TargetFormat m =
    (if adapter_refused m Adapter then Inr ((INVALIDCALL, []), m)
     else value_or FAIL (ask_value w (\<lambda>e. case_CheckDeviceFormatConversion) [Word Adapter, Word DeviceType, Word SourceFormat, Word TargetFormat] m))"

definition GetDeviceCaps :: "world \<Rightarrow> (u32 \<Rightarrow> u32) \<Rightarrow> u32 \<Rightarrow> u32 \<Rightarrow> bool \<Rightarrow> Module \<Rightarrow> module_result" where
  "GetDeviceCaps w h Adapter DeviceType pCaps m =
    (if \<not> pCaps then Inr ((INVALIDCALL, []), m)
     else if adapter_refused m Adapter then Inr ((INVALIDCALL, []), m)
     else cached_struct w (\<lambda>e. case_GetDeviceCaps) [Word Adapter, Word DeviceType] 304 304 INVALIDCALL m_deviceCaps m_deviceCaps_update
       (GET_HASH h [Adapter, DeviceType]) True m)"

definition GetAdapterMonitor :: "world \<Rightarrow> u32 \<Rightarrow> Module \<Rightarrow> module_result" where
  "GetAdapterMonitor w Adapter m = value_or 0 (ask_value w (\<lambda>e. case_GetAdapterMonitor) [Word Adapter] m)"

text \<open>A null pointer is \<open>None\<close> from here on; \<open>send_data\<close> of a null pointer sends an empty object.\<close>

definition GetAdapterModeCountEx :: "world \<Rightarrow> u32 \<Rightarrow> memory option \<Rightarrow> Module \<Rightarrow> module_result" where
  "GetAdapterModeCountEx w Adapter pFilter m =
    (if adapter_refused m Adapter then Inr ((INVALIDCALL, []), m)
     else value_or 0 (ask_value w case_GetAdapterModeCountEx [Word Adapter, Obj pFilter] m))"

definition EnumAdapterModesEx :: "world \<Rightarrow> u32 \<Rightarrow> memory option \<Rightarrow> u32 \<Rightarrow> bool \<Rightarrow> Module \<Rightarrow> module_result" where
  "EnumAdapterModesEx w Adapter pFilter Mode pMode m =
    (if adapter_refused m Adapter then Inr ((INVALIDCALL, []), m)
     else if pFilter = None \<or> \<not> pMode then Inr ((INVALIDCALL, []), m)
     else bindE (exchange w (\<lambda>e. case_EnumAdapterModesEx) [Word Adapter, Word Mode, Obj pFilter] m) (\<lambda>(r, m1). case r of
         None \<Rightarrow> Inr ((INVALIDCALL, []), m1)
       | Some ds \<Rightarrow> bindE (read_struct (following (fst w (commands m))) 24 24 ds) (\<lambda>(hresult, v).
           Inr ((hresult, case v of None \<Rightarrow> [] | Some b \<Rightarrow> [b]), m1))))"

definition GetAdapterDisplayModeEx :: "world \<Rightarrow> u32 \<Rightarrow> memory option \<Rightarrow> memory option \<Rightarrow> Module \<Rightarrow> module_result" where
  "GetAdapterDisplayModeEx w Adapter pMode pRotation m =
    (if adapter_refused m Adapter then Inr ((INVALIDCALL, []), m)
     else if pMode = None then Inr ((INVALIDCALL, []), m)
     else bindE (exchange w (\<lambda>e. case_GetAdapterDisplayModeEx) [Word Adapter, Obj pMode, Obj pRotation] m) (\<lambda>(r, m1). case r of
         None \<Rightarrow> Inr ((INVALIDCALL, []), m1)
       | Some ds \<Rightarrow> bindE (answer_word ds) (\<lambda>(hresult, ds1).
           if SUCCEEDED hresult
           then bindE (copy_data (following (fst w (commands m))) 24 ds1) (\<lambda>(len, v, ds2).
             let hr1 = (if len \<noteq> 24 \<and> len \<noteq> 0 then INVALIDCALL else hresult) in
             bindE (copy_data (following (fst w (commands m))) 4 ds2) (\<lambda>(len2, v2, _).
               if pRotation = None then Inl NullDereference
               else Inr ((if len2 \<noteq> 4 \<and> len2 \<noteq> 0 then INVALIDCALL else hr1, [v, v2]), m1)))
           else Inr ((hresult, []), m1))))"

text \<open>\<open>sizeof(pLUID)\<close> is the size of a pointer, 4.\<close>

definition GetAdapterLUID :: "world \<Rightarrow> u32 \<Rightarrow> bool \<Rightarrow> Module \<Rightarrow> module_result" where
  "GetAdapterLUID w Adapter pLUID m =
    (if \<not> pLUID then Inr ((INVALIDCALL, []), m)
     else bindE (exchange w (\<lambda>e. case_GetAdapterLUID) [Word Adapter] m) (\<lambda>(r, m1). case r of
         None \<Rightarrow> Inr ((INVALIDCALL, []), m1)
       | Some ds \<Rightarrow> bindE (read_struct (following (fst w (commands m))) 8 4 ds) (\<lambda>(hresult, v).
           Inr ((hresult, case v of None \<Rightarrow> [] | Some b \<Rightarrow> [b]), m1))))"

definition RegisterSoftwareDevice :: "Module \<Rightarrow> module_result" where
  "RegisterSoftwareDevice m = Inr ((NOTAVAILABLE, []), m)"

section \<open>Calls\<close>

datatype call_kind = AdapterCount | AdapterIdentifier u32 u32 | AdapterModeCount u32 u32 | AdapterModes u32 u32 u32 | DisplayMode u32
  | DeviceType u32 u32 u32 u32 u32 | DeviceFormat u32 u32 u32 u32 u32 u32 | MultiSample u32 u32 u32 u32 u32 | DepthStencil u32 u32 u32 u32 u32
  | FormatConversion u32 u32 u32 u32 | DeviceCaps u32 u32 | AdapterMonitor u32 | ModesEx u32 memory u32 | DisplayModeEx u32 memory memory

fun perform :: "world \<Rightarrow> (u32 \<Rightarrow> u32) \<Rightarrow> call_kind \<Rightarrow> Module \<Rightarrow> module_result" where
  "perform w h AdapterCount m = GetAdapterCount w m"
| "perform w h (AdapterIdentifier a f) m = GetAdapterIdentifier w h a f True m"
| "perform w h (AdapterModeCount a f) m = GetAdapterModeCount w h a f m"
| "perform w h (AdapterModes a f n) m = EnumAdapterModes w h a f n True m"
| "perform w h (DisplayMode a) m = GetAdapterDisplayMode w a True m"
| "perform w h (DeviceType a t d b z) m = CheckDeviceType w a t d b z m"
| "perform w h (DeviceFormat a t f u r c) m = CheckDeviceFormat w a t f u r c m"
| "perform w h (MultiSample a t f z s) m = CheckDeviceMultiSampleType w a t f z s True m"
| "perform w h (DepthStencil a t f r d) m = CheckDepthStencilMatch w a t f r d m"
| "perform w h (FormatConversion a t f g) m = CheckDeviceFormatConversion w a t f g m"
| "perform w h (DeviceCaps a t) m = GetDeviceCaps w h a t True m"
| "perform w h (AdapterMonitor a) m = GetAdapterMonitor w a m"
| "perform w h (ModesEx a f n) m = EnumAdapterModesEx w a (Some f) n True m"
| "perform w h (DisplayModeEx a d r) m = GetAdapterDisplayModeEx w a (Some d) (Some r) m"

fun perform_all :: "world \<Rightarrow> (u32 \<Rightarrow> u32) \<Rightarrow> call_kind list \<Rightarrow> Module \<Rightarrow> (u32 \<times> memory list) list or_error" where
  "perform_all w h [] m = Inr []"
| "perform_all w h (c # cs) m = bindE (perform w h c m) (\<lambda>(r, m1). bindE (perform_all w h cs m1) (\<lambda>rs. Inr (r # rs)))"

text \<open>The same calls on the runtime itself: the method, the structures it fills in the server, and the value and the structures as the client declares them.\<close>

fun method_call :: "call_kind \<Rightarrow> string \<times> api_arg list" where
  "method_call AdapterCount = (''GetAdapterCount'', [])"
| "method_call (AdapterIdentifier a f) = (''GetAdapterIdentifier'', [W a, W f, Out])"
| "method_call (AdapterModeCount a f) = (''GetAdapterModeCount'', [W a, W f])"
| "method_call (AdapterModes a f n) = (''EnumAdapterModes'', [W a, W f, W n, Out])"
| "method_call (DisplayMode a) = (''GetAdapterDisplayMode'', [W a, Out])"
| "method_call (DeviceType a t d b z) = (''CheckDeviceType'', [W a, W t, W d, W b, W z])"
| "method_call (DeviceFormat a t f u r c) = (''CheckDeviceFormat'', [W a, W t, W f, W u, W r, W c])"
| "method_call (MultiSample a t f z s) = (''CheckDeviceMultiSampleType'', [W a, W t, W f, W z, W s, Out])"
| "method_call (DepthStencil a t f r d) = (''CheckDepthStencilMatch'', [W a, W t, W f, W r, W d])"
| "method_call (FormatConversion a t f g) = (''CheckDeviceFormatConversion'', [W a, W t, W f, W g])"
| "method_call (DeviceCaps a t) = (''GetDeviceCaps'', [W a, W t, Out])"
| "method_call (AdapterMonitor a) = (''GetAdapterMonitor'', [W a])"
| "method_call (ModesEx a f n) = (''EnumAdapterModesEx'', [W a, P (Some f), W n, Out])"
| "method_call (DisplayModeEx a d r) = (''GetAdapterDisplayModeEx'', [W a, P (Some d), P (Some r)])"

definition answer_to :: "rt1 \<Rightarrow> call_kind \<Rightarrow> rt_answer" where
  "answer_to rt c = (case method_call c of (n, as) \<Rightarrow> rt n as)"

fun filled :: "call_kind \<Rightarrow> nat list" where
  "filled (AdapterIdentifier a f) = [1104]"
| "filled (AdapterModes a f n) = [16]"
| "filled (DisplayMode a) = [16]"
| "filled (DeviceCaps a t) = [304]"
| "filled (ModesEx a f n) = [24]"
| "filled (DisplayModeEx a d r) = [24, 4]"
| "filled _ = []"

fun client_size :: "call_kind \<Rightarrow> nat" where
  "client_size (AdapterIdentifier a f) = 1100"
| "client_size (AdapterModes a f n) = 16"
| "client_size (DisplayMode a) = 16"
| "client_size (DeviceCaps a t) = 304"
| "client_size c = 24"

fun direct_answer :: "rt1 \<Rightarrow> call_kind \<Rightarrow> u32 \<times> memory list" where
  "direct_answer rt (AdapterMonitor a) = (ucast (monitor (answer_to rt (AdapterMonitor a))), [])"
| "direct_answer rt (MultiSample a t f z s) = (ret (answer_to rt (MultiSample a t f z s)), [u32_bytes (quality (answer_to rt (MultiSample a t f z s)))])"
| "direct_answer rt c = (ret (answer_to rt c), if filled c = [] then [] else map (take (client_size c)) (outs (answer_to rt c)))"

text \<open>What the caller may look at: structures only after a success.\<close>

definition observed :: "u32 \<times> memory list \<Rightarrow> u32 \<times> memory list" where
  "observed r = (fst r, if SUCCEEDED (fst r) then snd r else [])"

text \<open>The documented behaviour of the runtime: a success is \<open>S_OK\<close> and fills the structures, an adapter that does not exist and a sample type above 16 are refused.\<close>

fun adapter_of :: "call_kind \<Rightarrow> u32 option" where
  "adapter_of AdapterCount = None"
| "adapter_of (AdapterMonitor a) = None"
| "adapter_of (AdapterIdentifier a f) = Some a"
| "adapter_of (AdapterModeCount a f) = Some a"
| "adapter_of (AdapterModes a f n) = Some a"
| "adapter_of (DisplayMode a) = Some a"
| "adapter_of (DeviceType a t d b z) = Some a"
| "adapter_of (DeviceFormat a t f u r c) = Some a"
| "adapter_of (MultiSample a t f z s) = Some a"
| "adapter_of (DepthStencil a t f r d) = Some a"
| "adapter_of (FormatConversion a t f g) = Some a"
| "adapter_of (DeviceCaps a t) = Some a"
| "adapter_of (ModesEx a f n) = Some a"
| "adapter_of (DisplayModeEx a d r) = Some a"

definition adapters :: "rt1 \<Rightarrow> u32" where
  "adapters rt = ret (answer_to rt AdapterCount)"

definition refused :: "rt1 \<Rightarrow> call_kind \<Rightarrow> bool" where
  "refused rt c = ((case adapter_of c of None \<Rightarrow> False | Some a \<Rightarrow> a \<ge> adapters rt) \<or> (case c of MultiSample a t f z s \<Rightarrow> s > 16 | _ \<Rightarrow> False))"

definition documented :: "rt1 \<Rightarrow> call_kind \<Rightarrow> bool" where
  "documented rt c =
    ((refused rt c \<longrightarrow> ret (answer_to rt c) = (case c of AdapterModeCount a f \<Rightarrow> 0 | _ \<Rightarrow> INVALIDCALL))
     \<and> (filled c \<noteq> [] \<and> SUCCEEDED (ret (answer_to rt c)) \<longrightarrow> ret (answer_to rt c) = 0 \<and> map length (outs (answer_to rt c)) = filled c))"

text \<open>The sizes of the structures that the caller passes.\<close>

fun sized_call :: "call_kind \<Rightarrow> bool" where
  "sized_call (ModesEx a f n) = (length f = 12)"
| "sized_call (DisplayModeEx a d r) = (length d = 24 \<and> length r = 4)"
| "sized_call _ = True"

text \<open>The cache and the key of a call, and what is cached for it.\<close>

fun cache_slot :: "(u32 \<Rightarrow> u32) \<Rightarrow> call_kind \<Rightarrow> (nat \<times> u32) option" where
  "cache_slot h (AdapterIdentifier a f) = Some (0, GET_HASH h [a, f])"
| "cache_slot h (AdapterModeCount a f) = Some (1, GET_HASH h [a, f])"
| "cache_slot h (AdapterModes a f n) = Some (2, GET_HASH h [a, f, n])"
| "cache_slot h (DeviceCaps a t) = Some (3, GET_HASH h [a, t])"
| "cache_slot h (DisplayMode a) = Some (4, a)"
| "cache_slot h _ = None"

fun cached_result :: "(u32 \<Rightarrow> u32) \<Rightarrow> Module \<Rightarrow> call_kind \<Rightarrow> (u32 \<times> memory list) option" where
  "cached_result h m (AdapterIdentifier a f) = map_option (\<lambda>v. (0, [v])) (m_adapterIdentifiers m (GET_HASH h [a, f]))"
| "cached_result h m (AdapterModeCount a f) = map_option (\<lambda>v. (v, [])) (m_adapterModeCount m (GET_HASH h [a, f]))"
| "cached_result h m (AdapterModes a f n) = map_option (\<lambda>v. (0, [v])) (m_enumAdapterMode m (GET_HASH h [a, f, n]))"
| "cached_result h m (DeviceCaps a t) = map_option (\<lambda>v. (0, [v])) (m_deviceCaps m (GET_HASH h [a, t]))"
| "cached_result h m (DisplayMode a) = map_option (\<lambda>v. (0, [v])) (m_adapterDisplayMode m a)"
| "cached_result h m _ = None"

definition no_collision :: "(u32 \<Rightarrow> u32) \<Rightarrow> call_kind set \<Rightarrow> bool" where
  "no_collision h A = (\<forall>c \<in> A. \<forall>d \<in> A. cache_slot h c = cache_slot h d \<and> cache_slot h c \<noteq> None \<longrightarrow> c = d)"

section \<open>One call\<close>

definition steady :: "world \<Rightarrow> rt1 \<Rightarrow> bool" where
  "steady w rt = (\<forall>n. snd w n = rt \<and> answered (fst w n))"

definition module_ok :: "(u32 \<Rightarrow> u32) \<Rightarrow> rt1 \<Rightarrow> call_kind set \<Rightarrow> Module \<Rightarrow> bool" where
  "module_ok h rt A m = (m_adapterCount m \<in> {0, adapters rt} \<and> (\<forall>c \<in> A. cached_result h m c \<in> {None, Some (direct_answer rt c)}))"

definition good_step :: "(u32 \<Rightarrow> u32) \<Rightarrow> rt1 \<Rightarrow> call_kind \<Rightarrow> Module \<Rightarrow> module_result \<Rightarrow> bool" where
  "good_step h rt c m o1 = (\<exists>r m1. o1 = Inr (r, m1) \<and> observed r = observed (direct_answer rt c) \<and> m_adapterCount m1 \<in> {0, adapters rt}
     \<and> (\<forall>d. cached_result h m1 d = cached_result h m d \<or> cache_slot h d = cache_slot h c \<and> cache_slot h c \<noteq> None \<and> cached_result h m1 d = Some (direct_answer rt c)))"

lemma not_succeeded [simp]: "\<not> SUCCEEDED INVALIDCALL" "SUCCEEDED 0"
  by (simp_all add: SUCCEEDED_def)

lemma exchange_steady: "steady w rt \<Longrightarrow> exchange w f its m =
    bindE (f (fst w (commands m)) rt (map received its)) (\<lambda>reply. Inr (Some (map received reply), m\<lparr>commands := commands m + 1\<rparr>))"
  by (simp add: exchange_def steady_def Let_def)

lemma observed_failure: "\<not> SUCCEEDED v \<Longrightarrow> observed (v, xs) = (v, [])"
  by (simp add: observed_def)

lemma same_module: "m_adapterCount m \<in> {0, adapters rt} \<Longrightarrow> observed r = observed (direct_answer rt c) \<Longrightarrow> good_step h rt c m (Inr (r, m))"
  by (simp add: good_step_def)

lemma direct_value: "fst (direct_answer rt c) = (case c of AdapterMonitor a \<Rightarrow> ucast (monitor (answer_to rt c)) | _ \<Rightarrow> ret (answer_to rt c))"
  by (cases c) (simp_all add: Let_def)

lemma refused_step:
  assumes "documented rt c" and "refused rt c" and "m_adapterCount m \<in> {0, adapters rt}"
  shows "good_step h rt c m (Inr ((case c of AdapterModeCount a f \<Rightarrow> 0 | _ \<Rightarrow> INVALIDCALL, []), m))"
  using assms by (cases c) (auto intro!: same_module simp: documented_def observed_def refused_def Let_def)

lemma adapter_refused_step: "adapter_refused m a \<Longrightarrow> m_adapterCount m \<in> {0, adapters rt} \<Longrightarrow> adapter_of c = Some a \<Longrightarrow> refused rt c"
  by (auto simp: adapter_refused_def refused_def)

lemma command_sent [simp]: "cached_result h (m\<lparr>commands := k\<rparr>) d = cached_result h m d"
  by (cases d) simp_all

lemma counted [simp]: "cached_result h (m\<lparr>m_adapterCount := k\<rparr>) d = cached_result h m d"
  by (cases d) simp_all

lemma good_result:
  "m_adapterCount m \<in> {0, adapters rt} \<Longrightarrow> observed r = observed (direct_answer rt c) \<Longrightarrow> good_step h rt c m (Inr (r, m\<lparr>commands := k\<rparr>))"
  by (simp add: good_step_def)

text \<open>A getter whose cache has nothing for the key asks the server and keeps a success.\<close>

lemma cached_struct_miss:
  assumes "steady w rt" and "f (fst w (commands m)) rt (map received its) = send_structs a []" and "cache m key = None"
    and "SUCCEEDED (ret a) \<Longrightarrow> map length (outs a) = [good]" and "0 < sz" and "sz \<le> good"
  shows "cached_struct w f its sz good dflt cache upd key True m =
    Inr (if SUCCEEDED (ret a) then ((ret a, map (take sz) (outs a)), upd (\<lambda>c. c(key \<mapsto> take sz (hd (outs a)))) (m\<lparr>commands := commands m + 1\<rparr>))
         else ((ret a, []), m\<lparr>commands := commands m + 1\<rparr>))"
proof (cases "SUCCEEDED (ret a)")
  case True
  then obtain b where "outs a = [b]" "length b = good" using assms(4) by (cases "outs a") auto
  moreover then have "b \<noteq> []" using assms(5,6) by auto
  ultimately show ?thesis
    using True assms by (simp add: cached_struct_def exchange_steady send_structs_def read_struct_def answer_word_def copy_data_def)
next
  case False
  then show ?thesis using assms by (simp add: cached_struct_def exchange_steady send_structs_def read_struct_def answer_word_def)
qed

lemmas ask_defs = ask_value_def value_or_def exchange_steady server_defs answer_word_def answer_to_def

lemma guarded:
  assumes "documented rt c" and "m_adapterCount m \<in> {0, adapters rt}" and "adapter_of c = Some a" and "\<forall>x y. c \<noteq> AdapterModeCount x y"
    and "\<not> adapter_refused m a \<Longrightarrow> good_step h rt c m o1"
  shows "good_step h rt c m (if adapter_refused m a then Inr ((INVALIDCALL, []), m) else o1)"
proof (cases "adapter_refused m a")
  case True
  then show ?thesis
    using refused_step [OF assms(1) adapter_refused_step [OF True assms(2,3)] assms(2), of h] assms(4) by (simp split: call_kind.splits)
qed (use assms(5) in simp)

lemma value_step:
  assumes "steady w rt" and "documented rt c" and "m_adapterCount m \<in> {0, adapters rt}"
    and "case c of DeviceType a t d b z \<Rightarrow> True | DeviceFormat a t f u r k \<Rightarrow> True | DepthStencil a t f r d \<Rightarrow> True | FormatConversion a t f g \<Rightarrow> True
      | AdapterMonitor a \<Rightarrow> True | _ \<Rightarrow> False"
  shows "good_step h rt c m (perform w h c m)"
proof (cases c)
  case (DeviceType a t d b z)
  show ?thesis unfolding DeviceType perform.simps CheckDeviceType_def
    by (rule guarded [OF assms(2) [unfolded DeviceType] assms(3)]) (use assms(1,3) in \<open>simp_all add: ask_defs good_result\<close>)
next
  case (DeviceFormat a t f u r k)
  show ?thesis unfolding DeviceFormat perform.simps CheckDeviceFormat_def
    by (rule guarded [OF assms(2) [unfolded DeviceFormat] assms(3)]) (use assms(1,3) in \<open>simp_all add: ask_defs good_result\<close>)
next
  case (DepthStencil a t f r d)
  show ?thesis unfolding DepthStencil perform.simps CheckDepthStencilMatch_def
    by (rule guarded [OF assms(2) [unfolded DepthStencil] assms(3)]) (use assms(1,3) in \<open>simp_all add: ask_defs good_result\<close>)
next
  case (FormatConversion a t f g)
  show ?thesis unfolding FormatConversion perform.simps CheckDeviceFormatConversion_def
    by (rule guarded [OF assms(2) [unfolded FormatConversion] assms(3)]) (use assms(1,3) in \<open>simp_all add: ask_defs good_result\<close>)
next
  case (AdapterMonitor a)
  then show ?thesis using assms by (simp add: GetAdapterMonitor_def ask_defs good_result)
qed (use assms in simp_all)

lemma count_step:
  assumes "steady w rt" and "m_adapterCount m \<in> {0, adapters rt}"
  shows "good_step h rt AdapterCount m (perform w h AdapterCount m)"
proof (cases "m_adapterCount m = 0")
  case True
  then show ?thesis using assms by (simp add: GetAdapterCount_def ask_defs good_step_def adapters_def)
next
  case False
  then show ?thesis using assms by (simp add: GetAdapterCount_def same_module adapters_def)
qed

lemma mode_count_step:
  assumes "steady w rt" and "documented rt (AdapterModeCount a f)" and "m_adapterCount m \<in> {0, adapters rt}"
    and "cached_result h m (AdapterModeCount a f) \<in> {None, Some (direct_answer rt (AdapterModeCount a f))}"
  shows "good_step h rt (AdapterModeCount a f) m (perform w h (AdapterModeCount a f) m)"
proof (cases "adapter_refused m a")
  case True
  then show ?thesis
    using refused_step [OF assms(2) adapter_refused_step [OF True assms(3)] assms(3), of h] by (simp add: GetAdapterModeCount_def)
next
  case False
  show ?thesis
  proof (cases "m_adapterModeCount m (GET_HASH h [a, f])")
    case None
    have "good_step h rt (AdapterModeCount a f) m
      (Inr ((v, []), m\<lparr>commands := k, m_adapterModeCount := (m_adapterModeCount m)(GET_HASH h [a, f] \<mapsto> v)\<rparr>))"
      if "v = ret (answer_to rt (AdapterModeCount a f))" for v k
    proof -
      have "cached_result h (m\<lparr>commands := k, m_adapterModeCount := (m_adapterModeCount m)(GET_HASH h [a, f] \<mapsto> v)\<rparr>) d = cached_result h m d
        \<or> cache_slot h d = Some (1, GET_HASH h [a, f]) \<and> cached_result h (m\<lparr>commands := k, m_adapterModeCount := (m_adapterModeCount m)(GET_HASH h [a, f] \<mapsto> v)\<rparr>) d = Some (v, [])" for d
        by (cases d) simp_all
      then show ?thesis using that assms(3) by (simp add: good_step_def)
    qed
    then show ?thesis using None False assms(1) by (simp add: GetAdapterModeCount_def ask_defs Let_def)
  next
    case (Some v)
    then show ?thesis using False assms(3,4) by (simp add: GetAdapterModeCount_def Let_def same_module)
  qed
qed

text \<open>The four getters of structures, for a cache that is one of the four.\<close>

lemma struct_step:
  assumes "steady w rt" and "documented rt c" and "m_adapterCount m \<in> {0, adapters rt}" and "cached_result h m c \<in> {None, Some (direct_answer rt c)}"
    and "cached_result h m c = map_option (\<lambda>v. (0, [v])) (cache m key)" and "cache_slot h c \<noteq> None"
    and "f (fst w (commands m)) rt (map received its) = send_structs (answer_to rt c) []" and "filled c = [good]" and "0 < sz" and "sz \<le> good"
    and "direct_answer rt c = (ret (answer_to rt c), map (take sz) (outs (answer_to rt c)))"
    and "\<And>b k. m_adapterCount (upd (\<lambda>c. c(key \<mapsto> b)) (m\<lparr>commands := k\<rparr>)) = m_adapterCount m"
    and "\<And>b k d. cached_result h (upd (\<lambda>c. c(key \<mapsto> b)) (m\<lparr>commands := k\<rparr>)) d = cached_result h m d
       \<or> cache_slot h d = cache_slot h c \<and> cached_result h (upd (\<lambda>c. c(key \<mapsto> b)) (m\<lparr>commands := k\<rparr>)) d = Some (0, [b])"
  shows "good_step h rt c m (cached_struct w f its sz good dflt cache upd key True m)"
proof (cases "cache m key")
  case (Some v)
  then have "direct_answer rt c = (0, [v])" using assms(4,5) by simp
  then show ?thesis using Some assms(3) by (simp add: cached_struct_def same_module)
next
  case None
  have fill: "SUCCEEDED (ret (answer_to rt c)) \<Longrightarrow> ret (answer_to rt c) = 0 \<and> map length (outs (answer_to rt c)) = [good]"
    using assms(2,8) by (simp add: documented_def)
  show ?thesis
  proof (cases "SUCCEEDED (ret (answer_to rt c))")
    case False
    then show ?thesis using cached_struct_miss [where f = f and cache = cache and good = good and sz = sz and dflt = dflt and upd = upd, OF assms(1,7) None] fill assms(3,9,10,11)
      by (simp add: good_result observed_def)
  next
    case True
    then obtain b where b: "outs (answer_to rt c) = [b]" using fill by (cases "outs (answer_to rt c)") auto
    then have "direct_answer rt c = (0, [take sz b])" using True fill assms(11) by simp
    moreover have "cached_struct w f its sz good dflt cache upd key True m
        = Inr ((0, [take sz b]), upd (\<lambda>c. c(key \<mapsto> take sz b)) (m\<lparr>commands := commands m + 1\<rparr>))"
      using cached_struct_miss [where f = f and cache = cache and good = good and sz = sz and dflt = dflt and upd = upd, OF assms(1,7) None] fill True b assms(9,10) by simp
    ultimately show ?thesis using assms(3,6,12,13) by (simp add: good_step_def)
  qed
qed

lemma m_adapterIdentifiers_store:
  "cached_result h (m_adapterIdentifiers_update (\<lambda>c. c(key \<mapsto> b)) (m\<lparr>commands := k\<rparr>)) d = cached_result h m d
   \<or> cache_slot h d = Some (0, key) \<and> cached_result h (m_adapterIdentifiers_update (\<lambda>c. c(key \<mapsto> b)) (m\<lparr>commands := k\<rparr>)) d = Some (0, [b])"
  by (cases d) simp_all

lemma m_enumAdapterMode_store:
  "cached_result h (m_enumAdapterMode_update (\<lambda>c. c(key \<mapsto> b)) (m\<lparr>commands := k\<rparr>)) d = cached_result h m d
   \<or> cache_slot h d = Some (2, key) \<and> cached_result h (m_enumAdapterMode_update (\<lambda>c. c(key \<mapsto> b)) (m\<lparr>commands := k\<rparr>)) d = Some (0, [b])"
  by (cases d) simp_all

lemma m_adapterDisplayMode_store:
  "cached_result h (m_adapterDisplayMode_update (\<lambda>c. c(key \<mapsto> b)) (m\<lparr>commands := k\<rparr>)) d = cached_result h m d
   \<or> cache_slot h d = Some (4, key) \<and> cached_result h (m_adapterDisplayMode_update (\<lambda>c. c(key \<mapsto> b)) (m\<lparr>commands := k\<rparr>)) d = Some (0, [b])"
  by (cases d) simp_all

lemma m_deviceCaps_store:
  "cached_result h (m_deviceCaps_update (\<lambda>c. c(key \<mapsto> b)) (m\<lparr>commands := k\<rparr>)) d = cached_result h m d
   \<or> cache_slot h d = Some (3, key) \<and> cached_result h (m_deviceCaps_update (\<lambda>c. c(key \<mapsto> b)) (m\<lparr>commands := k\<rparr>)) d = Some (0, [b])"
  by (cases d) simp_all

lemma identifier_step:
  assumes "steady w rt" and "documented rt (AdapterIdentifier a f)" and "m_adapterCount m \<in> {0, adapters rt}"
    and "cached_result h m (AdapterIdentifier a f) \<in> {None, Some (direct_answer rt (AdapterIdentifier a f))}"
  shows "good_step h rt (AdapterIdentifier a f) m (perform w h (AdapterIdentifier a f) m)"
  unfolding perform.simps GetAdapterIdentifier_def simp_thms if_False
  by (rule guarded [OF assms(2,3)], simp_all only: adapter_of.simps call_kind.distinct simp_thms,
      rule struct_step [OF assms], insert m_adapterIdentifiers_store [of h])
    (simp_all add: server_defs answer_to_def)

lemma modes_step:
  assumes "steady w rt" and "documented rt (AdapterModes a f n)" and "m_adapterCount m \<in> {0, adapters rt}"
    and "cached_result h m (AdapterModes a f n) \<in> {None, Some (direct_answer rt (AdapterModes a f n))}"
  shows "good_step h rt (AdapterModes a f n) m (perform w h (AdapterModes a f n) m)"
  unfolding perform.simps EnumAdapterModes_def simp_thms if_False
  by (rule guarded [OF assms(2,3)], simp_all only: adapter_of.simps call_kind.distinct simp_thms,
      rule struct_step [OF assms], insert m_enumAdapterMode_store [of h])
    (simp_all add: server_defs answer_to_def)

lemma display_mode_step:
  assumes "steady w rt" and "documented rt (DisplayMode a)" and "m_adapterCount m \<in> {0, adapters rt}"
    and "cached_result h m (DisplayMode a) \<in> {None, Some (direct_answer rt (DisplayMode a))}"
  shows "good_step h rt (DisplayMode a) m (perform w h (DisplayMode a) m)"
  unfolding perform.simps GetAdapterDisplayMode_def simp_thms if_False
  by (rule guarded [OF assms(2,3)], simp_all only: adapter_of.simps call_kind.distinct simp_thms,
      rule struct_step [OF assms], insert m_adapterDisplayMode_store [of h])
    (simp_all add: server_defs answer_to_def)

lemma caps_step:
  assumes "steady w rt" and "documented rt (DeviceCaps a f)" and "m_adapterCount m \<in> {0, adapters rt}"
    and "cached_result h m (DeviceCaps a f) \<in> {None, Some (direct_answer rt (DeviceCaps a f))}"
  shows "good_step h rt (DeviceCaps a f) m (perform w h (DeviceCaps a f) m)"
  unfolding perform.simps GetDeviceCaps_def simp_thms if_False
  by (rule guarded [OF assms(2,3)], simp_all only: adapter_of.simps call_kind.distinct simp_thms,
      rule struct_step [OF assms], insert m_deviceCaps_store [of h])
    (simp_all add: server_defs answer_to_def)

lemma word_split [simp]: "bindE (answer_word (Word v # ds)) k = k (v, ds)"
  by (simp add: answer_word_def)

lemma multisample_step:
  assumes "steady w rt" and "documented rt (MultiSample a t f z s)" and "m_adapterCount m \<in> {0, adapters rt}"
  shows "good_step h rt (MultiSample a t f z s) m (perform w h (MultiSample a t f z s) m)"
  unfolding perform.simps CheckDeviceMultiSampleType_def
proof (rule guarded [OF assms(2,3)])
  show "good_step h rt (MultiSample a t f z s) m (if 16 < s then Inr ((INVALIDCALL, []), m) else
    bindE (exchange w (\<lambda>e. case_CheckDeviceMultiSampleType) [Word a, Word t, Word f, Word z, Word s] m)
       (\<lambda>(r, m1). case r of None \<Rightarrow> Inr ((FAIL, []), m1)
         | Some ds \<Rightarrow> bindE (answer_word ds) (\<lambda>(res, ds1). bindE (answer_word ds1) (\<lambda>(QualityLevelsLocal, _).
             Inr ((res, if True then [u32_bytes QualityLevelsLocal] else []), m1)))))"
  proof (cases "16 < s")
    case True
    then have "refused rt (MultiSample a t f z s)" by (simp add: refused_def)
    from refused_step [OF assms(2) this assms(3)] True show ?thesis by simp
  next
    case False
    then show ?thesis using assms(1,3) by (simp add: exchange_steady server_defs Let_def answer_to_def good_result)
  qed
qed simp_all

lemma modes_ex_step:
  assumes "steady w rt" and "documented rt (ModesEx a f n)" and "m_adapterCount m \<in> {0, adapters rt}" and "length f = 12"
  shows "good_step h rt (ModesEx a f n) m (perform w h (ModesEx a f n) m)"
  unfolding perform.simps EnumAdapterModesEx_def
proof (rule guarded [OF assms(2,3)], simp_all only: adapter_of.simps call_kind.distinct simp_thms option.distinct if_False, goal_cases)
  case 1
  let ?a = "rt ''EnumAdapterModesEx'' [W a, P (Some f), W n, Out]"
  have f: "f \<noteq> []" using assms(4) by auto
  show ?case
  proof (cases "SUCCEEDED (ret ?a)")
    case True
    then obtain b where b: "outs ?a = [b]" "length b = 24" "ret ?a = 0" using assms(2) by (auto simp: documented_def answer_to_def)
    then have "b \<noteq> []" by auto
    then show ?thesis using True b f assms(1,3) by (simp add: exchange_steady server_defs read_struct_def copy_data_def answer_to_def good_result)
  next
    case False
    then show ?thesis using f assms(1,3) by (simp add: exchange_steady server_defs read_struct_def answer_to_def good_result observed_def)
  qed
qed

lemma display_mode_ex_step:
  assumes "steady w rt" and "documented rt (DisplayModeEx a d r)" and "m_adapterCount m \<in> {0, adapters rt}" and "length d = 24" and "length r = 4"
  shows "good_step h rt (DisplayModeEx a d r) m (perform w h (DisplayModeEx a d r) m)"
  unfolding perform.simps GetAdapterDisplayModeEx_def
proof (rule guarded [OF assms(2,3)], simp_all only: adapter_of.simps call_kind.distinct simp_thms option.distinct if_False, goal_cases)
  case 1
  let ?a = "rt ''GetAdapterDisplayModeEx'' [W a, P (Some d), P (Some r)]"
  have dr: "d \<noteq> []" "r \<noteq> []" using assms(4,5) by auto
  show ?case
  proof (cases "SUCCEEDED (ret ?a)")
    case True
    then have "map length (outs ?a) = [24, 4]" "ret ?a = 0" using assms(2) by (simp_all add: documented_def answer_to_def)
    moreover then obtain x y where xy: "outs ?a = [x, y]" "length x = 24" "length y = 4" by (auto simp: map_eq_Cons_conv)
    moreover then have "x \<noteq> []" "y \<noteq> []" by auto
    ultimately show ?thesis using True dr assms(1,3) by (simp add: exchange_steady server_defs copy_data_def answer_to_def Let_def good_result)
  next
    case False
    then show ?thesis using dr assms(1,3) by (simp add: exchange_steady server_defs answer_to_def Let_def good_result observed_def)
  qed
qed

lemma perform_step:
  assumes "steady w rt" and "documented rt c" and "m_adapterCount m \<in> {0, adapters rt}" and "cached_result h m c \<in> {None, Some (direct_answer rt c)}" and "sized_call c"
  shows "good_step h rt c m (perform w h c m)"
proof (cases c)
  case AdapterCount
  then show ?thesis using assms count_step by simp
qed (use assms identifier_step [OF assms(1)] mode_count_step [OF assms(1)] modes_step [OF assms(1)] display_mode_step [OF assms(1)] caps_step [OF assms(1)]
  value_step [OF assms(1-3)] multisample_step [OF assms(1)] modes_ex_step [OF assms(1)] display_mode_ex_step [OF assms(1)] in auto)

section \<open>Any calls\<close>

lemma step_keeps_module:
  assumes "good_step h rt c m o1" and "module_ok h rt A m" and "c \<in> A" and "no_collision h A"
  shows "\<exists>r m1. o1 = Inr (r, m1) \<and> observed r = observed (direct_answer rt c) \<and> module_ok h rt A m1"
proof -
  obtain r m1 where o: "o1 = Inr (r, m1)" "observed r = observed (direct_answer rt c)" "m_adapterCount m1 \<in> {0, adapters rt}"
    and kept: "\<And>d. cached_result h m1 d = cached_result h m d
      \<or> cache_slot h d = cache_slot h c \<and> cache_slot h c \<noteq> None \<and> cached_result h m1 d = Some (direct_answer rt c)"
    using assms(1) by (auto simp: good_step_def)
  have "cached_result h m1 d \<in> {None, Some (direct_answer rt d)}" if d: "d \<in> A" for d
  proof (cases "cached_result h m1 d = cached_result h m d")
    case True
    then show ?thesis using assms(2) d by (auto simp: module_ok_def)
  next
    case False
    then have s: "cache_slot h d = cache_slot h c" "cache_slot h c \<noteq> None" "cached_result h m1 d = Some (direct_answer rt c)" using kept [of d] by auto
    then have "c = d" using assms(3,4) d unfolding no_collision_def by metis
    then show ?thesis using s by simp
  qed
  then show ?thesis using o by (auto simp: module_ok_def)
qed

lemma perform_all_direct:
  assumes "steady w rt" and "\<forall>c \<in> A. documented rt c \<and> sized_call c" and "no_collision h A"
  shows "set cs \<subseteq> A \<Longrightarrow> module_ok h rt A m \<Longrightarrow> \<exists>rs. perform_all w h cs m = Inr rs \<and> map observed rs = map (\<lambda>c. observed (direct_answer rt c)) cs"
proof (induction cs arbitrary: m)
  case (Cons c cs)
  then have "good_step h rt c m (perform w h c m)" using assms by (intro perform_step) (auto simp: module_ok_def)
  then obtain r m1 where "perform w h c m = Inr (r, m1)" "observed r = observed (direct_answer rt c)" "module_ok h rt A m1"
    using step_keeps_module [OF _ Cons.prems(2) _ assms(3)] Cons.prems(1) by (metis insert_subset list.set(2))
  then show ?case using Cons by fastforce
qed simp


definition demo_rt :: rt1 where
  "demo_rt name as = \<lparr>ret = (if name = ''GetAdapterCount'' then 1 else if name = ''GetAdapterModeCount'' then (if hd as = W 0 then 7 else 0)
     else if hd as = W 0 then 0 else INVALIDCALL), outs = [replicate 16 5], quality = 0, monitor = 0\<rparr>"


section \<open>What goes wrong\<close>

text \<open>The filter of \<open>GetAdapterModeCountEx\<close> never reaches the runtime: the count is the same for every filter.\<close>

theorem mode_count_filter_lost:
  assumes "f \<noteq> []" and "g \<noteq> []"
  shows "GetAdapterModeCountEx w Adapter (Some f) m = GetAdapterModeCountEx w Adapter (Some g) m"
  using assms by (simp add: GetAdapterModeCountEx_def ask_value_def exchange_def server_defs)

lemma mode_count_filter_lost_witness:
  "GetAdapterModeCountEx w 0 (Some (u32_bytes 12 @ u32_bytes 22 @ u32_bytes 1)) m = GetAdapterModeCountEx w 0 (Some (u32_bytes 12 @ u32_bytes 21 @ u32_bytes 1)) m"
  by (rule mode_count_filter_lost) (simp_all add: u32_bytes_def)

text \<open>\<open>GetAdapterLUID\<close> reports an invalid call whenever the runtime succeeds.\<close>

lemma luid_refused:
  assumes "steady w rt" and "SUCCEEDED (ret (rt ''GetAdapterLUID'' [W a, Out]))" and "map length (outs (rt ''GetAdapterLUID'' [W a, Out])) = [8]"
  shows "\<exists>b. GetAdapterLUID w a True m = Inr ((INVALIDCALL, [b]), m\<lparr>commands := commands m + 1\<rparr>)"
proof -
  obtain b where b: "outs (rt ''GetAdapterLUID'' [W a, Out]) = [b]" "length b = 8" using assms(3) by (auto simp: map_eq_Cons_conv)
  then have "b \<noteq> []" by auto
  then show ?thesis using b assms(1,2) by (simp add: GetAdapterLUID_def exchange_steady server_defs read_struct_def copy_data_def)
qed

text \<open>An answer of the wrong size is an error once; the next call takes it from the cache as a success.\<close>

lemma bad_size_cached:
  assumes "steady w rt" and "\<not> adapter_refused m a" and "m_adapterDisplayMode m a = None"
    and "rt ''GetAdapterDisplayMode'' [W a, Out] = \<lparr>ret = 0, outs = [b], quality = q, monitor = k\<rparr>" and "length b \<noteq> 16" and "b \<noteq> []"
  shows "\<exists>v m1. GetAdapterDisplayMode w a True m = Inr ((INVALIDCALL, [v]), m1) \<and> GetAdapterDisplayMode w a True m1 = Inr ((0, [v]), m1)"
  using assms by (simp add: GetAdapterDisplayMode_def cached_struct_def exchange_steady server_defs read_struct_def copy_data_def adapter_refused_def)

text \<open>A key has 32 bits and stands for 64 or more: whatever the hash, different questions share a key.\<close>

lemma keys_collide: "\<exists>x y. x \<noteq> y \<and> GET_HASH h [fst x, snd x] = GET_HASH h [fst y, snd y]"
proof (rule ccontr)
  assume "\<not> ?thesis"
  then have "inj (\<lambda>x. GET_HASH h [fst x, snd x])" unfolding inj_def by blast
  from card_inj_on_le [OF this subset_UNIV finite]
  have "card (UNIV :: (u32 \<times> u32) set) \<le> card (UNIV :: u32 set)" .
  then show False by (simp add: card_word card_prod)
qed

end
