(* ===== verification/Query_Wrappers.thy ===== *)
theory Query_Wrappers
  imports Direct3D_Module
begin

text \<open>
  Queries (\<open>client/d3d9_query.cpp\<close> and their cases in \<open>server/main.cpp\<close>), vertex declarations (\<open>client/d3d9_vertexdeclaration.h\<close>, \<open>.cpp\<close>)
  which give back what they were made of.
\<close>

section \<open>Queries\<close>

text \<open>The sizes of the structures of the query types, by \<open>D3DQUERYTYPE\<close>.\<close>

definition Query_GetDataSize :: "u32 \<Rightarrow> u32" where
  "Query_GetDataSize m_type =
    (if m_type = 4 then 16 else if m_type = 5 then 352 else if m_type = 6 then 8 else if m_type = 8 then 4 else if m_type = 9 then 4
     else if m_type = 10 then 8 else if m_type = 11 then 4 else if m_type = 12 then 8 else if m_type = 13 then 16 else if m_type = 14 then 20
     else if m_type = 15 then 8 else if m_type = 16 then 16 else if m_type = 17 then 20 else if m_type = 18 then 8 else 0)"

text \<open>What the runtime answers to \<open>GetData\<close>: the result and the bytes it writes into the buffer, whose other bytes stay what they were in the heap (\<open>junk\<close>).\<close>

type_synonym query_runtime = "u32 \<Rightarrow> u32 \<Rightarrow> u32 \<times> memory"

definition filled_buffer :: "u32 \<Rightarrow> memory \<Rightarrow> memory \<Rightarrow> memory" where
  "filled_buffer dwSize written junk = take (unat dwSize) (written @ drop (length written) junk)"

definition case_Query9_GetData :: "query_runtime \<Rightarrow> memory \<Rightarrow> server_case" where
  "case_Query9_GetData rt junk = take_word (\<lambda>dwSize. take_word (\<lambda>dwGetDataFlags. \<lambda>its.
     let (hresult, written) = rt dwSize dwGetDataFlags in
     Inr (Word hresult # (if SUCCEEDED hresult \<and> dwSize > 0 then [Obj (Some (filled_buffer dwSize written junk))] else []))))"

text \<open>The client: the result, what is written to \<open>pData\<close>, and the items of the answer that stay in the ring.\<close>

definition Query_GetData :: "query_runtime \<Rightarrow> memory \<Rightarrow> bool \<Rightarrow> u32 \<Rightarrow> u32 \<Rightarrow> (u32 \<times> memory option \<times> item list) or_error" where
  "Query_GetData rt junk pData dwSize dwGetDataFlags =
    bindE (case_Query9_GetData rt junk [Word dwSize, Word dwGetDataFlags]) (\<lambda>reply.
    bindE (answer_word (map received reply)) (\<lambda>(hresult, ds).
      if SUCCEEDED hresult \<and> dwSize > 0 \<and> pData
      then (case ds of Obj (Some bs) # r \<Rightarrow> if length bs < unat dwSize then Inl OutOfBounds else Inr (hresult, Some (take (unat dwSize) bs), r)
            | Obj None # r \<Rightarrow> Inl NullDereference | _ \<Rightarrow> Inl Desync)
      else Inr (hresult, None, ds)))"

lemma filled_length: "length written \<le> unat dwSize \<Longrightarrow> unat dwSize \<le> length junk \<Longrightarrow> length (filled_buffer dwSize written junk) = unat dwSize"
  by (simp add: filled_buffer_def)

lemma exchange_Query_GetData:
  assumes "rt dwSize flags = (hr, written)" and "length written \<le> unat dwSize" and "unat dwSize \<le> length junk"
  shows "Query_GetData rt junk pData dwSize flags =
    Inr (hr, if SUCCEEDED hr \<and> dwSize > 0 \<and> pData then Some (filled_buffer dwSize written junk) else None,
      if SUCCEEDED hr \<and> dwSize > 0 \<and> \<not> pData then [Obj (Some (filled_buffer dwSize written junk))] else [])"
proof (cases "dwSize > 0")
  case True
  then have "0 < unat dwSize" by (simp add: word_less_nat_alt)
  then have "filled_buffer dwSize written junk \<noteq> []" using filled_length [OF assms(2,3)] by auto
  then show ?thesis
    using assms filled_length [OF assms(2,3)] True
    by (simp add: Query_GetData_def case_Query9_GetData_def take_word_def answer_word_def)
next
  case False
  then show ?thesis using assms by (simp add: Query_GetData_def case_Query9_GetData_def take_word_def answer_word_def)
qed

text \<open>A query that is polled with a buffer leaves the channel in step; the buffer is the runtime's when the runtime fills it, and bytes of the server's heap when the
  result is not there yet (\<open>S_FALSE\<close> is a success).  Without a buffer but with a size the data stay in the ring, where the next answer is expected.\<close>

theorem query_poll:
  assumes "rt dwSize flags = (hr, written)" and "dwSize > 0" and "unat dwSize \<le> length junk" and "SUCCEEDED hr"
  shows "(length written = unat dwSize \<longrightarrow> Query_GetData rt junk True dwSize flags = Inr (hr, Some written, []))
    \<and> (written = [] \<longrightarrow> Query_GetData rt junk True dwSize flags = Inr (hr, Some (take (unat dwSize) junk), []))
    \<and> (length written \<le> unat dwSize \<longrightarrow> (\<exists>b r. Query_GetData rt junk False dwSize flags = Inr (hr, None, r) \<and> r \<noteq> [] \<and> answer_word (r @ next_reply) = Inl b))"
proof -
  have full: "length written = unat dwSize \<Longrightarrow> filled_buffer dwSize written junk = written" by (simp add: filled_buffer_def)
  show ?thesis
    using exchange_Query_GetData [where rt = rt and written = written and junk = junk, OF assms(1) _ assms(3)] assms(2,4) full by (auto simp: filled_buffer_def answer_word_def)
qed

lemma query_poll_witness:
  "Query_GetData (\<lambda>n f. (1, [])) [9, 8, 7, 6, 5] True 4 0 = Inr (1, Some [9, 8, 7, 6], [])"
  using query_poll [of "\<lambda>n f. (1, [])" 4 0 1 "[]" "[9, 8, 7, 6, 5]"] by (simp add: SUCCEEDED_def)

section \<open>Vertex declarations\<close>

text \<open>An element of eight bytes; \<open>Stream\<close> is its first word, 255 ends a declaration.\<close>

definition Stream_of :: "u64 \<Rightarrow> u16" where
  "Stream_of e = ucast e"

fun copy_elements :: "u64 list \<Rightarrow> u64 list or_error" where
  "copy_elements [] = Inl OutOfBounds"
| "copy_elements (counter # es) = (if Stream_of counter \<noteq> 0xFF then bindE (copy_elements es) (\<lambda>m_elements. Inr (counter # m_elements)) else Inr [counter])"

text \<open>The result, what is written to \<open>pElement\<close> and to \<open>pNumElements\<close>.\<close>

definition GetDeclaration :: "u64 list \<Rightarrow> bool \<Rightarrow> bool \<Rightarrow> u32 \<times> u64 list option \<times> u32 option" where
  "GetDeclaration m_elements pElement pNumElements =
    (if \<not> pNumElements then (INVALIDCALL, None, None)
     else (0, if pElement then Some m_elements else None, Some (word_of_nat (length m_elements))))"

lemma copy_elements_end: "list_all (\<lambda>e. Stream_of e \<noteq> 0xFF) es \<Longrightarrow> Stream_of d = 0xFF \<Longrightarrow> copy_elements (es @ d # rest) = Inr (es @ [d])"
  by (induction es) auto

lemma copy_elements_unterminated: "list_all (\<lambda>e. Stream_of e \<noteq> 0xFF) es \<Longrightarrow> copy_elements es = Inl OutOfBounds"
  by (induction es) auto

text \<open>A declaration is given back as it was passed, up to its end and with it.\<close>

lemma declaration_given_back:
  assumes "list_all (\<lambda>e. Stream_of e \<noteq> 0xFF) es" and "Stream_of d = 0xFF"
  shows "\<exists>m_elements. copy_elements (es @ d # rest) = Inr m_elements \<and> GetDeclaration m_elements True True = (0, Some (es @ [d]), Some (word_of_nat (Suc (length es))))"
  using copy_elements_end [OF assms] by (simp add: GetDeclaration_def)

end
