(* ===== verification/Private_Data.thy ===== *)
theory Private_Data
  imports Bridge_Prelude
begin

text \<open>
  Private data of resources and volumes (\<open>PrivateDataFactory\<close> of \<open>client/d3d9_privatedata.h\<close>) with the heap under it: \<open>PrivateData\<close> has a destructor that frees
  its block and the copy operations that the compiler makes, which copy the pointer.  The access to a block that was freed and freeing it again are
  \<open>OutOfBounds\<close>.  An address is used once.
\<close>

type_synonym GUID = "128 word"

text \<open>The blocks of the heap with a flag that tells whether they are still allocated, and the reference counts of the interfaces of the application.\<close>

record PrivateDataFactory =
  blocks :: "(memory \<times> bool) list"
  interface_refs :: "nat \<Rightarrow> int"
  m_privateData :: "GUID \<rightharpoonup> nat \<times> u32"
  m_privateInterfaces :: "GUID \<rightharpoonup> nat"

definition new_factory :: PrivateDataFactory where
  "new_factory = \<lparr>blocks = [], interface_refs = (\<lambda>_. 1), m_privateData = Map.empty, m_privateInterfaces = Map.empty\<rparr>"

section \<open>Construction and destruction of the values\<close>

definition free_block :: "nat \<Rightarrow> PrivateDataFactory \<Rightarrow> PrivateDataFactory or_error" where
  "free_block p s = (if p < length (blocks s) \<and> snd (blocks s ! p) then Inr (s\<lparr>blocks := (blocks s)[p := (fst (blocks s ! p), False)]\<rparr>) else Inl OutOfBounds)"

definition read_block :: "nat \<Rightarrow> u32 \<Rightarrow> PrivateDataFactory \<Rightarrow> memory or_error" where
  "read_block p n s = (if p < length (blocks s) \<and> snd (blocks s ! p) \<and> unat n \<le> length (fst (blocks s ! p)) then Inr (take (unat n) (fst (blocks s ! p)))
     else Inl OutOfBounds)"

text \<open>\<open>PrivateData(pData, size)\<close>: the new block and its address.\<close>

definition new_PrivateData :: "memory option \<Rightarrow> u32 \<Rightarrow> PrivateDataFactory \<Rightarrow> (nat \<times> PrivateDataFactory) or_error" where
  "new_PrivateData pData n s =
    bindE (case pData of None \<Rightarrow> if n = 0 then Inr [] else Inl NullDereference | Some bs \<Rightarrow> if length bs < unat n then Inl OutOfBounds else Inr (take (unat n) bs))
      (\<lambda>bs. Inr (length (blocks s), s\<lparr>blocks := blocks s @ [(bs, True)]\<rparr>))"

definition AddRef_interface :: "nat \<Rightarrow> PrivateDataFactory \<Rightarrow> PrivateDataFactory" where
  "AddRef_interface i s = s\<lparr>interface_refs := (interface_refs s)(i := interface_refs s i + 1)\<rparr>"

definition Release_interface :: "nat \<Rightarrow> PrivateDataFactory \<Rightarrow> PrivateDataFactory" where
  "Release_interface i s = s\<lparr>interface_refs := (interface_refs s)(i := interface_refs s i - 1)\<rparr>"

section \<open>Operations\<close>

text \<open>\<open>pData\<close> is given as the bytes it points to and as the interface it is; 1 is \<open>D3DSPD_IUNKNOWN\<close>.  An interface that replaces another is a temporary that is
  assigned and released, and what it replaces is not released.\<close>

definition setData :: "GUID \<Rightarrow> memory option \<Rightarrow> nat option \<Rightarrow> u32 \<Rightarrow> u32 \<Rightarrow> PrivateDataFactory \<Rightarrow> (u32 \<times> PrivateDataFactory) or_error" where
  "setData refguid pData pInterface SizeOfData Flags s =
    (if Flags AND 1 \<noteq> 0
     then if SizeOfData \<noteq> 4 then Inr (0x8876086C, s)
          else (case pInterface of None \<Rightarrow> Inr (0, s)
            | Some i \<Rightarrow> if m_privateInterfaces s refguid = None
                then let s1 = AddRef_interface i s in Inr (0, s1\<lparr>m_privateInterfaces := (m_privateInterfaces s1)(refguid \<mapsto> i)\<rparr>)
                else let s1 = AddRef_interface i s; s2 = s1\<lparr>m_privateInterfaces := (m_privateInterfaces s1)(refguid \<mapsto> i)\<rparr>
                     in Inr (0, Release_interface i s2))
     else bindE (new_PrivateData pData SizeOfData s) (\<lambda>(p, s1).
       let s2 = s1\<lparr>m_privateData := (m_privateData s1)(refguid \<mapsto> (p, SizeOfData))\<rparr>
       in bindE (free_block p s2) (\<lambda>s3. Inr (0, s3))))"

datatype got = Nothing | Data memory | Iface nat

text \<open>The result, what is written to the buffer, the size; \<open>pSizeOfData\<close> is not null.  The copy of the stored value is destroyed at the end.\<close>

definition getData :: "GUID \<Rightarrow> bool \<Rightarrow> PrivateDataFactory \<Rightarrow> ((u32 \<times> got \<times> u32) \<times> PrivateDataFactory) or_error" where
  "getData refguid pData s =
    (case m_privateData s refguid of
       Some (p, n) \<Rightarrow> bindE (if pData then bindE (read_block p n s) (Inr \<circ> Data) else Inr Nothing) (\<lambda>g.
         bindE (free_block p s) (\<lambda>s1. Inr ((0, g, n), s1)))
     | None \<Rightarrow> (case m_privateInterfaces s refguid of
         Some i \<Rightarrow> if pData then Inr ((0, Iface i, 4), AddRef_interface i s) else Inr ((0, Nothing, 4), s)
       | None \<Rightarrow> Inr ((0x8876086C, Nothing, 0), s)))"

definition freeData :: "GUID \<Rightarrow> PrivateDataFactory \<Rightarrow> (u32 \<times> PrivateDataFactory) or_error" where
  "freeData refguid s =
    (case m_privateData s refguid of
       Some (p, n) \<Rightarrow> bindE (free_block p s) (\<lambda>s1. Inr (0, s1\<lparr>m_privateData := (m_privateData s1)(refguid := None)\<rparr>))
     | None \<Rightarrow> (case m_privateInterfaces s refguid of
         Some i \<Rightarrow> Inr (0, (Release_interface i s)\<lparr>m_privateInterfaces := (m_privateInterfaces s)(refguid := None)\<rparr>)
       | None \<Rightarrow> Inr (0x8876086C, s)))"

text \<open>The destructor clears both tables; \<open>gs\<close> is the order in which the tables hold their keys.\<close>

fun destroy_factory :: "GUID list \<Rightarrow> GUID list \<Rightarrow> PrivateDataFactory \<Rightarrow> PrivateDataFactory or_error" where
  "destroy_factory (g # gs) is s = (case m_privateData s g of None \<Rightarrow> destroy_factory gs is s
     | Some (p, n) \<Rightarrow> bindE (free_block p s) (destroy_factory gs is))"
| "destroy_factory [] (i # is) s = (case m_privateInterfaces s i of None \<Rightarrow> destroy_factory [] is s
     | Some u \<Rightarrow> destroy_factory [] is (Release_interface u s))"
| "destroy_factory [] [] s = Inr s"

section \<open>Sequences of calls\<close>

datatype private_call = SetPrivateData GUID "memory option" "nat option" u32 u32 | GetPrivateData GUID bool | FreePrivateData GUID

primrec private_step :: "private_call \<Rightarrow> PrivateDataFactory \<Rightarrow> PrivateDataFactory or_error" where
  "private_step (SetPrivateData g b i n f) s = bindE (setData g b i n f s) (\<lambda>(r, s1). Inr s1)"
| "private_step (GetPrivateData g p) s = bindE (getData g p s) (\<lambda>(r, s1). Inr s1)"
| "private_step (FreePrivateData g) s = bindE (freeData g s) (\<lambda>(r, s1). Inr s1)"

primrec private_run :: "private_call list \<Rightarrow> PrivateDataFactory \<Rightarrow> PrivateDataFactory or_error" where
  "private_run [] s = Inr s"
| "private_run (c # cs) s = bindE (private_step c s) (private_run cs)"

text \<open>All stored blocks have been freed.\<close>

definition dangling :: "PrivateDataFactory \<Rightarrow> bool" where
  "dangling s = (\<forall>g p n. m_privateData s g = Some (p, n) \<longrightarrow> p < length (blocks s) \<and> \<not> snd (blocks s ! p))"

lemma dangling_refs [simp]: "dangling (AddRef_interface i s) = dangling s" "dangling (Release_interface i s) = dangling s"
  "dangling (s\<lparr>m_privateInterfaces := k\<rparr>) = dangling s"
  by (simp_all add: dangling_def AddRef_interface_def Release_interface_def)

lemma setData_dangling:
  assumes "dangling s" and "setData g b i n f s = Inr (r, s1)"
  shows "dangling s1"
proof (cases "f AND 1 \<noteq> 0")
  case True
  then show ?thesis using assms by (auto simp: setData_def Let_def split: if_splits option.splits)
next
  case False
  then obtain bs where s1: "s1 = s\<lparr>m_privateData := (m_privateData s)(g \<mapsto> (length (blocks s), n)), blocks := blocks s @ [(bs, False)]\<rparr>"
    using assms(2) by (auto simp: setData_def new_PrivateData_def free_block_def Let_def bindE_eq_Inr)
  show ?thesis
    unfolding dangling_def
  proof (intro allI impI)
    fix k p m
    assume "m_privateData s1 k = Some (p, m)"
    then have "p = length (blocks s) \<or> p < length (blocks s) \<and> \<not> snd (blocks s ! p)"
      using assms(1) unfolding dangling_def s1 by (cases "k = g") auto
    then show "p < length (blocks s1) \<and> \<not> snd (blocks s1 ! p)" by (auto simp: s1 nth_append)
  qed
qed

lemma dangling_free: "dangling s \<Longrightarrow> m_privateData s g = Some (p, n) \<Longrightarrow> free_block p s = Inl OutOfBounds"
  by (auto simp: dangling_def free_block_def)

lemma dangling_getData: "dangling s \<Longrightarrow> m_privateData s g = Some (p, n) \<Longrightarrow> getData g q s = Inl OutOfBounds"
  by (auto simp: getData_def dangling_free read_block_def dangling_def)

lemma dangling_freeData: "dangling s \<Longrightarrow> m_privateData s g = Some (p, n) \<Longrightarrow> freeData g s = Inl OutOfBounds"
  by (simp add: freeData_def dangling_free)

lemma private_step_dangling:
  assumes "dangling s" and "private_step c s = Inr s1"
  shows "dangling s1"
proof (cases c)
  case (SetPrivateData g b i n f)
  then show ?thesis using assms setData_dangling by (auto simp: bindE_eq_Inr)
next
  case (GetPrivateData g q)
  then show ?thesis using assms dangling_getData [OF assms(1), of g _ _ q]
    by (cases "m_privateData s g") (auto simp: bindE_eq_Inr getData_def split: option.splits if_splits)
next
  case (FreePrivateData g)
  then show ?thesis using assms dangling_freeData [OF assms(1), of g]
    by (cases "m_privateData s g") (auto simp: bindE_eq_Inr freeData_def split: option.splits if_splits)
qed

lemma private_run_dangling: "dangling s \<Longrightarrow> private_run cs s = Inr s1 \<Longrightarrow> dangling s1"
  by (induction cs arbitrary: s) (auto simp: bindE_eq_Inr dest: private_step_dangling)

text \<open>C10. Private data that an application stored cannot be used: after any calls, reading it back, freeing it and destroying the resource touch memory that was freed when
  it was stored.\<close>

theorem private_data_dangles:
  assumes "private_run cs new_factory = Inr s" and "setData g pData i n f s = Inr (0, s1)" and "f AND 1 = 0"
  shows "getData g q s1 = Inl OutOfBounds \<and> freeData g s1 = Inl OutOfBounds \<and> destroy_factory (g # gs) is s1 = Inl OutOfBounds"
proof -
  have "dangling new_factory" by (simp add: dangling_def new_factory_def)
  then have "dangling s" using assms(1) private_run_dangling by blast
  then have d: "dangling s1" using assms(2) setData_dangling by blast
  obtain p where p: "m_privateData s1 g = Some (p, n)"
    using assms(2,3) by (auto simp: setData_def new_PrivateData_def free_block_def Let_def bindE_eq_Inr)
  show ?thesis using dangling_getData [OF d p] dangling_freeData [OF d p] dangling_free [OF d p] p by simp
qed

lemma private_data_dangles_witness:
  "\<exists>s1. setData 7 (Some [1, 2, 3]) None 3 0 new_factory = Inr (0, s1) \<and> getData 7 True s1 = Inl OutOfBounds"
proof -
  obtain s1 where s1: "setData 7 (Some [1, 2, 3]) None 3 0 new_factory = Inr (0, s1)"
    by (simp add: setData_def new_PrivateData_def free_block_def new_factory_def Let_def)
  then show ?thesis using private_data_dangles [of "[]" new_factory 7 "Some [1, 2, 3]" None 3 0 s1 True "[]" "[]"] by simp
qed

text \<open>An interface is kept with one reference; but one that replaces another is kept with none, and the replaced one keeps its own for ever.\<close>

lemma interface_kept:
  assumes "m_privateData s g = None" and "m_privateInterfaces s g = None" and "setData g b (Some i) 4 1 s = Inr (r, s1)"
  shows "r = 0 \<and> interface_refs s1 i = interface_refs s i + 1 \<and> (\<exists>s2. freeData g s1 = Inr (0, s2) \<and> interface_refs s2 = interface_refs s)"
  using assms by (auto simp: setData_def freeData_def AddRef_interface_def Release_interface_def Let_def)

lemma interface_replaced:
  assumes "m_privateData s g = None" and "m_privateInterfaces s g = Some i" and "i \<noteq> j" and "setData g b (Some j) 4 1 s = Inr (r, s1)"
  shows "r = 0 \<and> interface_refs s1 = interface_refs s \<and> (\<exists>s2. freeData g s1 = Inr (0, s2) \<and> interface_refs s2 j = interface_refs s j - 1 \<and> interface_refs s2 i = interface_refs s i)"
  using assms by (auto simp: setData_def freeData_def AddRef_interface_def Release_interface_def Let_def)

end
