(* ===== verification/Frame_Pacer.thy ===== *)
theory Frame_Pacer
  imports Bridge_Prelude
begin

text \<open>
  The cap on the frame rate (\<open>FramePacer\<close> of \<open>client/d3d9_swapchain.cpp\<close>).  The performance counter is the list of the values it shows, in the order they
  are read; how long the timer really sleeps shows in the next value.  The 64-bit counters are integers: a counter of that width at any real
  frequency stays below its limit for centuries.
\<close>

record FramePacer =
  m_init :: bool
  m_freq :: int
  m_period :: int
  m_spinTicks :: int
  m_next :: int
  m_timer :: bool

definition new_pacer :: FramePacer where
  "new_pacer = \<lparr>m_init = False, m_freq = 0, m_period = 0, m_spinTicks = 0, m_next = 0, m_timer = False\<rparr>"

text \<open>\<open>freq\<close> is the answer of \<open>QueryPerformanceFrequency\<close>; \<open>high\<close> and \<open>coarse\<close> tell which timers can be created.\<close>

definition init_pacer :: "nat \<Rightarrow> int \<Rightarrow> bool \<Rightarrow> bool \<Rightarrow> int \<Rightarrow> FramePacer \<Rightarrow> FramePacer" where
  "init_pacer fps freq high coarse now p =
     p\<lparr>m_freq := freq, m_period := freq div int fps, m_timer := high \<or> coarse,
       m_spinTicks := (if high then freq div 1000 else freq * 3 div 1000),
       m_next := now + freq div int fps, m_init := True\<rparr>"

text \<open>The relative time the timer is set to, in units of 100 ns, when it is used at all.\<close>

definition timer_due :: "int \<Rightarrow> int \<Rightarrow> FramePacer \<Rightarrow> int option" where
  "timer_due now target p = (if m_timer p \<and> target - now > m_spinTicks p then Some (- ((target - now - m_spinTicks p) * 10000000 div m_freq p)) else None)"

fun spin :: "int \<Rightarrow> int list \<Rightarrow> (int \<times> int list) option" where
  "spin target [] = None"
| "spin target (now # obs) = (if now \<ge> target then Some (now, obs) else spin target obs)"

text \<open>\<open>wait\<close> with a cap: the time at which it returns and the values that are still to come; \<open>None\<close> when the values end before it returns.\<close>

definition pace :: "FramePacer \<Rightarrow> int list \<Rightarrow> (int \<times> FramePacer \<times> int list) option" where
  "pace p obs = (case obs of [] \<Rightarrow> None
     | now # rest \<Rightarrow> let target = m_next p in
        if now \<ge> target then Some (now, p\<lparr>m_next := now + m_period p\<rparr>, rest)
        else (case spin target rest of None \<Rightarrow> None | Some (t, obs1) \<Rightarrow> Some (t, p\<lparr>m_next := target + m_period p\<rparr>, obs1)))"

definition wait_frame :: "nat \<Rightarrow> int \<Rightarrow> bool \<Rightarrow> bool \<Rightarrow> FramePacer \<Rightarrow> int list \<Rightarrow> (int option \<times> FramePacer \<times> int list) option" where
  "wait_frame fps freq high coarse p obs =
    (if fps = 0 then Some (None, p, obs)
     else if m_init p then map_option (\<lambda>(t, r). (Some t, r)) (pace p obs)
     else (case obs of [] \<Rightarrow> None | now # rest \<Rightarrow> map_option (\<lambda>(t, r). (Some t, r)) (pace (init_pacer fps freq high coarse now p) rest)))"

primrec paced_frames :: "nat \<Rightarrow> nat \<Rightarrow> int \<Rightarrow> bool \<Rightarrow> bool \<Rightarrow> FramePacer \<Rightarrow> int list \<Rightarrow> (int list \<times> FramePacer \<times> int list) option" where
  "paced_frames 0 fps freq high coarse p obs = Some ([], p, obs)"
| "paced_frames (Suc k) fps freq high coarse p obs = (case wait_frame fps freq high coarse p obs of
     Some (Some t, p1, obs1) \<Rightarrow> map_option (\<lambda>(ts, r). (t # ts, r)) (paced_frames k fps freq high coarse p1 obs1)
   | _ \<Rightarrow> None)"

section \<open>The rate\<close>

lemma spin_reaches: "spin target obs = Some (t, obs1) \<Longrightarrow> target \<le> t"
  by (induction obs) (auto split: if_splits)

lemma spin_returns: "(\<exists>r. spin target obs = Some r) \<longleftrightarrow> (\<exists>t \<in> set obs. target \<le> t)"
  by (induction obs) auto

lemma pace_step:
  assumes "pace p obs = Some (t, p1, obs1)"
  shows "m_next p \<le> t \<and> m_next p + m_period p \<le> m_next p1 \<and> m_period p1 = m_period p \<and> m_init p1 = m_init p \<and> m_next p1 \<le> t + m_period p"
  using assms by (auto simp: pace_def Let_def dest: spin_reaches split: list.splits option.splits if_splits)

lemma wait_frame_init: "0 < fps \<Longrightarrow> m_init p \<Longrightarrow> wait_frame fps freq high coarse p obs = map_option (\<lambda>(t, r). (Some t, r)) (pace p obs)"
  by (simp add: wait_frame_def)

lemma frames_paced:
  "0 < fps \<Longrightarrow> m_init p \<Longrightarrow> paced_frames k fps freq high coarse p obs = Some (ts, r) \<Longrightarrow>
   length ts = k \<and> (\<forall>i < k. m_next p + int i * m_period p \<le> ts ! i)"
proof (induction k arbitrary: p obs ts r)
  case (Suc k)
  then obtain t p1 obs1 where t: "pace p obs = Some (t, p1, obs1)" by (auto simp: wait_frame_init split: option.splits)
  then obtain us where us: "ts = t # us" "paced_frames k fps freq high coarse p1 obs1 = Some (us, r)"
    using Suc.prems by (auto simp: wait_frame_init)
  note p1 = pace_step [OF t]
  from Suc.IH [OF Suc.prems(1) _ us(2)] p1 Suc.prems(2)
  have IH: "length us = k" "\<forall>i < k. m_next p1 + int i * m_period p \<le> us ! i" by simp_all
  have "m_next p + int i * m_period p \<le> ts ! i" if "i < Suc k" for i
  proof (cases i)
    case (Suc j)
    then have "m_next p1 + int j * m_period p \<le> us ! j" using IH(2) that by simp
    then show ?thesis using p1 us(1) Suc by (simp add: algebra_simps)
  qed (use p1 us(1) in simp)
  then show ?case using us(1) IH(1) by simp
qed simp

text \<open>C33. With a cap the i-th frame after the start is let go at the earliest i + 1 periods after the pacer was started, whatever the timers and the scheduler do; a late
  frame is not followed by a short one: it moves the next target a whole period after itself.\<close>

theorem frame_cap_holds:
  assumes "0 < fps" and "paced_frames (Suc k) fps freq high coarse new_pacer (start # obs) = Some (ts, p, rest)"
  shows "\<forall>i \<le> k. start + int (Suc i) * (freq div int fps) \<le> ts ! i"
proof -
  let ?p = "init_pacer fps freq high coarse start new_pacer"
  have same: "wait_frame fps freq high coarse new_pacer (start # obs) = wait_frame fps freq high coarse ?p obs"
    using assms(1) by (simp add: wait_frame_def new_pacer_def init_pacer_def)
  then have "paced_frames (Suc k) fps freq high coarse ?p obs = Some (ts, p, rest)" using assms(2) by simp
  from frames_paced [OF assms(1) _ this] show ?thesis by (simp add: init_pacer_def algebra_simps less_Suc_eq_le)
qed

lemma frame_cap_holds_witness:
  "\<exists>p. paced_frames (Suc 2) 60 6000 True True new_pacer (1000 # [1001, 1050, 1100, 1250, 1349, 1350]) = Some ([1100, 1250, 1350], p, [])
     \<and> 1000 + int (Suc 2) * (6000 div int 60) \<le> [1100, 1250, 1350] ! 2"
proof -
  have run: "paced_frames (Suc 2) 60 6000 True True new_pacer (1000 # [1001, 1050, 1100, 1250, 1349, 1350])
     = Some ([1100, 1250, 1350], \<lparr>m_init = True, m_freq = 6000, m_period = 100, m_spinTicks = 6, m_next = 1450, m_timer = True\<rparr>, [])"
    by (simp add: numeral_2_eq_2 wait_frame_def new_pacer_def init_pacer_def pace_def Let_def)
  have "0 < (60 :: nat)" by simp
  from frame_cap_holds [OF this run]
  have "1000 + int (Suc 2) * (6000 div int 60) \<le> [1100, 1250, 1350] ! 2" by (rule allE [of _ 2]) (erule mp, rule order_refl)
  then show ?thesis using run by (intro exI conjI)
qed

lemma late_frame_not_repaid:
  assumes "pace p (now # obs) = Some (t, p1, obs1)" and "m_next p \<le> now"
  shows "t = now \<and> m_next p1 = now + m_period p"
  using assms by (auto simp: pace_def Let_def)

end
