(* ===== verification/Window_Hook.thy ===== *)
theory Window_Hook
  imports Bridge_Prelude
begin

text \<open>
  The hooked window procedure of the application (\<open>client/window.cpp\<close>, \<open>client/window.h\<close>), the filter it puts before it, and the message channels
  (\<open>util/util_messagechannel.cpp\<close>, \<open>client/remix_state.cpp\<close>).  The windows of the operating system are a table from window and index to values; a value is
  kept for windows that exist.
\<close>

section \<open>Window procedures\<close>

record Windows =
  exists_window :: "u32 \<Rightarrow> bool"
  window_long :: "u32 \<Rightarrow> int \<Rightarrow> u32"
  g_hwnd :: u32
  g_gameWndProc :: u32

abbreviation GWLP_WNDPROC :: int where "GWLP_WNDPROC \<equiv> - 4"

text \<open>The functions of the operating system: 0 for a window that does not exist.\<close>

definition OrigSetWindowLong :: "u32 \<Rightarrow> int \<Rightarrow> u32 \<Rightarrow> Windows \<Rightarrow> u32 \<times> Windows" where
  "OrigSetWindowLong hWnd nIndex dwNewLong s =
    (if exists_window s hWnd then (window_long s hWnd nIndex, s\<lparr>window_long := (window_long s)(hWnd := (window_long s hWnd)(nIndex := dwNewLong))\<rparr>) else (0, s))"

definition OrigGetWindowLong :: "u32 \<Rightarrow> int \<Rightarrow> Windows \<Rightarrow> u32" where
  "OrigGetWindowLong hWnd nIndex s = (if exists_window s hWnd then window_long s hWnd nIndex else 0)"

definition isSet :: "Windows \<Rightarrow> bool" where
  "isSet s = (g_hwnd s \<noteq> 0 \<and> g_gameWndProc s \<noteq> 0)"

definition NewSetWindowLong :: "u32 \<Rightarrow> int \<Rightarrow> u32 \<Rightarrow> Windows \<Rightarrow> u32 \<times> Windows" where
  "NewSetWindowLong hWnd nIndex dwNewLong s =
    (if nIndex = GWLP_WNDPROC \<and> isSet s \<and> hWnd = g_hwnd s then (g_gameWndProc s, s\<lparr>g_gameWndProc := dwNewLong\<rparr>)
     else OrigSetWindowLong hWnd nIndex dwNewLong s)"

definition NewGetWindowLong :: "u32 \<Rightarrow> int \<Rightarrow> Windows \<Rightarrow> u32" where
  "NewGetWindowLong hWnd nIndex s =
    (if nIndex = GWLP_WNDPROC \<and> isSet s \<and> hWnd = g_hwnd s then g_gameWndProc s else OrigGetWindowLong hWnd nIndex s)"

definition unset_hook :: "Windows \<Rightarrow> Windows" where
  "unset_hook s = (let (prevWndProc, s1) = OrigSetWindowLong (g_hwnd s) GWLP_WNDPROC (g_gameWndProc s) s in s1\<lparr>g_hwnd := 0, g_gameWndProc := 0\<rparr>)"

text \<open>\<open>set\<close>; \<open>RemixWndProc\<close> is the address of the bridge's procedure.\<close>

definition set_hook :: "u32 \<Rightarrow> u32 \<Rightarrow> Windows \<Rightarrow> bool \<times> Windows" where
  "set_hook RemixWndProc hwnd s =
    (let s1 = (if g_gameWndProc s \<noteq> 0 \<or> g_hwnd s \<noteq> 0 \<and> hwnd \<noteq> g_hwnd s then unset_hook s else s);
         (p, s2) = OrigSetWindowLong hwnd GWLP_WNDPROC RemixWndProc (s1\<lparr>g_hwnd := hwnd\<rparr>)
     in (p \<noteq> 0, s2\<lparr>g_gameWndProc := p\<rparr>))"

definition terminate_hook :: "bool \<Rightarrow> Windows \<Rightarrow> bool \<times> Windows" where
  "terminate_hook detached s =
    (if \<not> detached then (False, s)
     else if g_gameWndProc s \<noteq> 0 then (True, if exists_window s (g_hwnd s) then unset_hook s else s\<lparr>g_gameWndProc := 0\<rparr>)
     else (True, s))"

section \<open>The hook is invisible\<close>

datatype window_op = AppSet u32 int u32 | AppGet u32 int | HookSet u32 | HookUnset | HookTerminate | Closed u32

fun window_step :: "u32 \<Rightarrow> window_op \<Rightarrow> Windows \<Rightarrow> u32 list \<times> Windows" where
  "window_step rw (AppSet w i v) s = (let (r, s1) = NewSetWindowLong w i v s in ([r], s1))"
| "window_step rw (AppGet w i) s = ([NewGetWindowLong w i s], s)"
| "window_step rw (HookSet w) s = ([], snd (set_hook rw w s))"
| "window_step rw HookUnset s = ([], unset_hook s)"
| "window_step rw HookTerminate s = ([], snd (terminate_hook True s))"
| "window_step rw (Closed w) s = ([], s\<lparr>exists_window := (exists_window s)(w := False)\<rparr>)"

fun window_run :: "u32 \<Rightarrow> window_op list \<Rightarrow> Windows \<Rightarrow> u32 list \<times> Windows" where
  "window_run rw [] s = ([], s)"
| "window_run rw (c # cs) s = (let (r, s1) = window_step rw c s; (rs, s2) = window_run rw cs s1 in (r @ rs, s2))"

text \<open>The same operations without a hook: the operating system alone.\<close>

fun plain_step :: "window_op \<Rightarrow> Windows \<Rightarrow> u32 list \<times> Windows" where
  "plain_step (AppSet w i v) s = (let (r, s1) = OrigSetWindowLong w i v s in ([r], s1))"
| "plain_step (AppGet w i) s = ([OrigGetWindowLong w i s], s)"
| "plain_step (Closed w) s = ([], s\<lparr>exists_window := (exists_window s)(w := False)\<rparr>)"
| "plain_step _ s = ([], s)"

fun plain_run :: "window_op list \<Rightarrow> Windows \<Rightarrow> u32 list \<times> Windows" where
  "plain_run [] s = ([], s)"
| "plain_run (c # cs) s = (let (r, s1) = plain_step c s; (rs, s2) = plain_run cs s1 in (r @ rs, s2))"

text \<open>What is asked of the operations: the application names windows that exist and procedures that are not null; the bridge hooks a window that exists and unhooks
  when it has hooked one, and it is told to stop before the window it hooked is closed.\<close>

fun allowed :: "window_op \<Rightarrow> Windows \<Rightarrow> bool" where
  "allowed (AppSet w i v) s = (exists_window s w \<and> v \<noteq> 0)"
| "allowed (AppGet w i) s = exists_window s w"
| "allowed (HookSet w) s = (w \<noteq> 0 \<and> exists_window s w)"
| "allowed HookUnset s = (g_hwnd s \<noteq> 0)"
| "allowed HookTerminate s = True"
| "allowed (Closed w) s = (w \<noteq> g_hwnd s)"

fun allowed_run :: "u32 \<Rightarrow> window_op list \<Rightarrow> Windows \<Rightarrow> bool" where
  "allowed_run rw [] s = True"
| "allowed_run rw (c # cs) s = (allowed c s \<and> allowed_run rw cs (snd (window_step rw c s)))"

definition shown :: "Windows \<Rightarrow> u32 \<Rightarrow> int \<Rightarrow> u32" where
  "shown s w i = (if i = GWLP_WNDPROC \<and> g_hwnd s \<noteq> 0 \<and> w = g_hwnd s then g_gameWndProc s else window_long s w i)"

definition hook_rel :: "Windows \<Rightarrow> Windows \<Rightarrow> bool" where
  "hook_rel s t = (exists_window t = exists_window s \<and> (g_hwnd s = 0 \<longleftrightarrow> g_gameWndProc s = 0)
     \<and> (g_hwnd s \<noteq> 0 \<longrightarrow> exists_window s (g_hwnd s))
     \<and> (\<forall>w i. exists_window s w \<longrightarrow> window_long t w i = shown s w i) \<and> (\<forall>w. exists_window s w \<longrightarrow> window_long t w GWLP_WNDPROC \<noteq> 0))"

lemma rel_app_set:
  assumes "hook_rel s t" and "exists_window s w" and "v \<noteq> 0"
  shows "fst (NewSetWindowLong w i v s) = fst (OrigSetWindowLong w i v t) \<and> hook_rel (snd (NewSetWindowLong w i v s)) (snd (OrigSetWindowLong w i v t))"
  using assms by (auto simp: hook_rel_def NewSetWindowLong_def OrigSetWindowLong_def isSet_def shown_def)

lemma rel_app_get: "hook_rel s t \<Longrightarrow> exists_window s w \<Longrightarrow> NewGetWindowLong w i s = OrigGetWindowLong w i t"
  by (auto simp: hook_rel_def NewGetWindowLong_def OrigGetWindowLong_def isSet_def shown_def)

lemma rel_unset: "hook_rel s t \<Longrightarrow> g_hwnd s \<noteq> 0 \<Longrightarrow> hook_rel (unset_hook s) t"
  by (auto simp: hook_rel_def unset_hook_def OrigSetWindowLong_def shown_def Let_def)

lemma rel_fresh_hook:
  assumes "hook_rel s t" and "g_hwnd s = 0" and "w \<noteq> 0" and "exists_window s w"
  shows "hook_rel (snd (set_hook rw w s)) t"
proof -
  have "g_gameWndProc s = 0" "window_long t w GWLP_WNDPROC = window_long s w GWLP_WNDPROC" "window_long s w GWLP_WNDPROC \<noteq> 0"
    using assms by (auto simp: hook_rel_def shown_def)
  then show ?thesis using assms by (auto simp: hook_rel_def set_hook_def OrigSetWindowLong_def shown_def Let_def)
qed

lemma unset_simps [simp]: "g_hwnd (unset_hook s) = 0" "g_gameWndProc (unset_hook s) = 0" "exists_window (unset_hook s) = exists_window s"
  by (simp_all add: unset_hook_def OrigSetWindowLong_def Let_def)

lemma set_after_unset: "g_gameWndProc s \<noteq> 0 \<Longrightarrow> set_hook rw w s = set_hook rw w (unset_hook s)"
  by (simp add: set_hook_def)

lemma rel_set:
  assumes "hook_rel s t" and "w \<noteq> 0" and "exists_window s w"
  shows "hook_rel (snd (set_hook rw w s)) t"
proof (cases "g_hwnd s = 0")
  case True
  then show ?thesis using rel_fresh_hook [OF assms(1) True assms(2,3)] by simp
next
  case False
  then have "g_gameWndProc s \<noteq> 0" using assms(1) by (auto simp: hook_rel_def)
  then show ?thesis using rel_fresh_hook [OF rel_unset [OF assms(1) False] _ assms(2)] assms(3) set_after_unset by simp
qed

lemma window_step_rel:
  assumes "hook_rel s t" and "allowed c s"
  shows "fst (window_step rw c s) = fst (plain_step c t) \<and> hook_rel (snd (window_step rw c s)) (snd (plain_step c t))"
proof (cases c)
  case (AppSet w i v)
  then show ?thesis using rel_app_set [OF assms(1), of w v i] assms(2) by (auto simp: split_beta Let_def)
next
  case (AppGet w i)
  then show ?thesis using rel_app_get [OF assms(1), of w i] assms by simp
next
  case (HookSet w)
  then show ?thesis using rel_set [OF assms(1), of w rw] assms(2) by simp
next
  case HookUnset
  then show ?thesis using rel_unset [OF assms(1)] assms(2) by simp
next
  case HookTerminate
  then show ?thesis using rel_unset [OF assms(1)] assms(1) by (auto simp: terminate_hook_def hook_rel_def)
next
  case (Closed w)
  then show ?thesis using assms by (auto simp: hook_rel_def shown_def)
qed



section \<open>The filter\<close>

text \<open>Message numbers: \<open>WM_KEYDOWN\<close> 256, \<open>WM_KEYUP\<close> 257, \<open>WM_CHAR\<close> 258, \<open>WM_SYSKEYDOWN\<close> 260, \<open>WM_SYSKEYUP\<close> 261, \<open>WM_SYSCHAR\<close> 262, \<open>WM_UNICHAR\<close> 265,
  \<open>WM_SYSCOMMAND\<close> 274, \<open>WM_MOUSEMOVE\<close> 512 to \<open>WM_MOUSEWHEEL\<close> 522, \<open>WM_MOUSEHOVER\<close> 673, \<open>WM_MOUSELEAVE\<close> 675, \<open>WM_INPUT\<close> 255; \<open>VK_MENU\<close> is 18.\<close>

definition isInputMessage :: "u32 \<Rightarrow> bool" where
  "isInputMessage msg = (msg \<in> {256, 257, 260, 261, 262, 513, 515, 514, 519, 521, 520, 516, 518, 517, 522, 512, 258, 265, 675, 673, 255})"

text \<open>What is swallowed while the Remix interface is active: \<open>SC_MOVE\<close> 0xF010, \<open>SC_SIZE\<close> 0xF000, \<open>SC_MINIMIZE\<close> 0xF020, \<open>SC_MAXIMIZE\<close> 0xF030; \<open>HTCLOSE\<close> is 20.\<close>

definition swallowed_window_msg :: "u32 \<Rightarrow> u32 \<Rightarrow> bool" where
  "swallowed_window_msg msg wParam =
    (msg = 675
     \<or> msg = 274 \<and> wParam \<in> {0xF010, 0xF000, 0xF012, 0xF020, 0xF030}
     \<or> msg AND 0xFFA0 = 0xA0 \<and> wParam \<noteq> 20)"

text \<open>\<open>remixMsg\<close>: \<open>consumed\<close> is the answer of the channel to the renderer, \<open>uiWasActive\<close> and \<open>ui\<close> the state of the interface before and after it.  The result: whether the
  message is swallowed, what is sent to the renderer, and the keys that are released in the application.\<close>

definition remixMsg :: "bool \<Rightarrow> bool \<Rightarrow> bool \<Rightarrow> u32 \<Rightarrow> u32 \<Rightarrow> u32 \<Rightarrow> bool \<times> (u32 \<times> u32 \<times> u32) option \<times> u32 list" where
  "remixMsg consumed uiWasActive ui msg wParam lParam =
    (if consumed then (True, None, if \<not> uiWasActive \<and> ui then [17, 16, 45] else [])
     else if ui \<and> swallowed_window_msg msg wParam then (True, None, [])
     else (ui \<and> isInputMessage msg \<and> (msg \<noteq> 257 \<or> wParam \<noteq> 18), if msg \<noteq> 255 then Some (msg, wParam, lParam) else None, []))"

text \<open>With the interface closed the application gets every message and the renderer a copy of all but raw input; with the interface open no input reaches the
  application but the release of the key ALT.\<close>

theorem message_filter:
  "remixMsg False ui0 False msg w l = (False, if msg \<noteq> 255 then Some (msg, w, l) else None, [])
   \<and> (isInputMessage msg \<longrightarrow> (fst (remixMsg False ui0 True msg w l) \<longleftrightarrow> \<not> (msg = 257 \<and> w = 18)))
   \<and> (\<not> isInputMessage msg \<and> \<not> swallowed_window_msg msg w \<longrightarrow> remixMsg False ui0 True msg w l = (False, Some (msg, w, l), []))"
proof -
  have "\<not> swallowed_window_msg 257 18" by (simp add: swallowed_window_msg_def)
  moreover have "isInputMessage 255" by (simp add: isInputMessage_def)
  ultimately show ?thesis by (auto simp: remixMsg_def)
qed

lemma message_filter_witness:
  "fst (remixMsg False False True 512 0 0) \<and> \<not> fst (remixMsg False False True 257 18 0) \<and> remixMsg False False True 15 0 0 = (False, Some (15, 0, 0), [])"
proof -
  have "isInputMessage 512" "isInputMessage 257" "\<not> isInputMessage 15" "\<not> swallowed_window_msg 15 0"
    by (simp_all add: isInputMessage_def swallowed_window_msg_def)
  then show ?thesis using message_filter [of False 512 0 0] message_filter [of False 257 18 0] message_filter [of False 15 0 0] by simp
qed

text \<open>The mask that is meant for the messages of the non-client area also takes those of controls, as \<open>BM_CLICK\<close> (245) and the scroll bar's (224).\<close>

lemma control_messages_swallowed: "swallowed_window_msg 245 0" "swallowed_window_msg 224 0" "swallowed_window_msg 0xA0 0" "\<not> swallowed_window_msg 0xC0 0"
  by (simp_all add: swallowed_window_msg_def)

section \<open>Messages that change the window\<close>

text \<open>\<open>windowMsg\<close> for a window with an entry in the map of swap chains: \<open>windowed\<close>, the size of the back buffer and whether \<open>D3DCREATE_NOWINDOWCHANGES\<close> is set;
  \<open>visible\<close> and \<open>iconic\<close> are what the operating system says.  \<open>WM_DESTROY\<close> 2, \<open>WM_SIZE\<close> 5, \<open>WM_ACTIVATEAPP\<close> 28.\<close>

record display_data =
  d_windowed :: bool
  d_width :: u32
  d_height :: u32
  d_no_changes :: bool

datatype window_effect = MoveTo u32 u32 | Minimise | PostActivate

definition windowMsg :: "bool \<Rightarrow> bool \<Rightarrow> u32 \<Rightarrow> u32 \<Rightarrow> u32 \<Rightarrow> (u32 \<rightharpoonup> display_data) \<times> bool \<Rightarrow> window_effect list \<times> ((u32 \<rightharpoonup> display_data) \<times> bool)" where
  "windowMsg visible iconic hWnd msg wParam st = (case st of (gSwapChainMap, g_bActivateProcessed) \<Rightarrow>
    (case gSwapChainMap hWnd of None \<Rightarrow> ([], st)
     | Some d \<Rightarrow>
        if msg = 2 then ([], (gSwapChainMap(hWnd := None), g_bActivateProcessed))
        else if msg = 28 \<and> \<not> d_windowed d then
          (if d_no_changes d then ([], st)
           else if wParam \<noteq> 0 \<and> \<not> g_bActivateProcessed then ([MoveTo (d_width d) (d_height d)], (gSwapChainMap, True))
           else if wParam = 0 then (if visible then [Minimise] else [], (gSwapChainMap, False))
           else ([], st))
        else if msg = 5 \<and> \<not> d_no_changes d \<and> \<not> iconic then ([PostActivate], st)
        else ([], st)))"

definition needs_windowMsg :: "u32 \<Rightarrow> bool" where
  "needs_windowMsg msg = (msg = 28 \<or> msg = 5 \<or> msg = 2)"

text \<open>An activation moves the window once until the application is deactivated, and the message a size change posts does not start a loop.\<close>

lemma activation_once:
  assumes "g hWnd = Some d" and "\<not> d_windowed d" and "\<not> d_no_changes d" and "w \<noteq> 0"
  shows "windowMsg v i hWnd 28 w (g, False) = ([MoveTo (d_width d) (d_height d)], (g, True)) \<and> windowMsg v i hWnd 28 w (g, True) = ([], (g, True))"
  using assms by (simp add: windowMsg_def)

section \<open>Message channels\<close>

text \<open>Handlers are named by numbers; \<open>register\<close> is \<open>RegisterWindowMessageA\<close>, 0 when it fails.\<close>

record MessageChannel =
  m_msgs :: "string \<rightharpoonup> u32"
  m_handlers :: "u32 \<rightharpoonup> nat"
  m_serverThreadId :: u32

definition getMessageId :: "(string \<Rightarrow> u32) \<Rightarrow> string \<Rightarrow> MessageChannel \<Rightarrow> u32 \<times> MessageChannel" where
  "getMessageId register msgName c = (case m_msgs c msgName of Some msg \<Rightarrow> (msg, c)
     | None \<Rightarrow> if register msgName \<noteq> 0 then (register msgName, c\<lparr>m_msgs := (m_msgs c)(msgName \<mapsto> register msgName)\<rparr>) else (0, c))"

definition registerHandler_id :: "u32 \<Rightarrow> nat \<Rightarrow> MessageChannel \<Rightarrow> bool \<times> MessageChannel" where
  "registerHandler_id msg handler c = (if msg \<noteq> 0 then (True, c\<lparr>m_handlers := (m_handlers c)(msg \<mapsto> handler)\<rparr>) else (False, c))"

definition registerHandler :: "(string \<Rightarrow> u32) \<Rightarrow> string \<Rightarrow> nat \<Rightarrow> MessageChannel \<Rightarrow> bool \<times> MessageChannel" where
  "registerHandler register msgName handler c = (let (msg, c1) = getMessageId register msgName c in
     if msg \<noteq> 0 then (True, c1\<lparr>m_handlers := (m_handlers c1)(msg \<mapsto> handler)\<rparr>) else (False, c1))"

text \<open>\<open>m_msgs[msgName]\<close> is 0 for a name that was never registered.\<close>

definition removeHandler :: "string \<Rightarrow> MessageChannel \<Rightarrow> MessageChannel" where
  "removeHandler msgName c = c\<lparr>m_handlers := (m_handlers c)((case m_msgs c msgName of None \<Rightarrow> 0 | Some m \<Rightarrow> m) := None), m_msgs := (m_msgs c)(msgName := None)\<rparr>"

definition removeHandler_id :: "u32 \<Rightarrow> MessageChannel \<Rightarrow> MessageChannel" where
  "removeHandler_id msg c = c\<lparr>m_handlers := (m_handlers c)(msg := None)\<rparr>"

definition onMessage :: "u32 \<Rightarrow> MessageChannel \<Rightarrow> nat option" where
  "onMessage msgId c = m_handlers c msgId"

text \<open>The client's constructor registers the handler of the handshake (0), which keeps the thread of the server.\<close>

definition new_client_channel :: "(string \<Rightarrow> u32) \<Rightarrow> string \<Rightarrow> MessageChannel" where
  "new_client_channel register handshakeMsgName =
    (let (m, c) = getMessageId register handshakeMsgName \<lparr>m_msgs = Map.empty, m_handlers = Map.empty, m_serverThreadId = 0\<rparr>
     in snd (registerHandler register handshakeMsgName 0 c))"

definition client_receive :: "u32 \<Rightarrow> u32 \<Rightarrow> MessageChannel \<Rightarrow> nat option \<times> MessageChannel" where
  "client_receive msg wParam c = (onMessage msg c, if onMessage msg c = Some 0 then c\<lparr>m_serverThreadId := wParam\<rparr> else c)"

definition client_send :: "u32 \<Rightarrow> u32 \<Rightarrow> u32 \<Rightarrow> MessageChannel \<Rightarrow> u32 \<times> u32 \<times> u32 \<times> u32" where
  "client_send msg wParam lParam c = (m_serverThreadId c, msg, wParam, lParam)"

definition client_send_name :: "(string \<Rightarrow> u32) \<Rightarrow> string \<Rightarrow> u32 \<Rightarrow> u32 \<Rightarrow> MessageChannel \<Rightarrow> (u32 \<times> u32 \<times> u32 \<times> u32) option \<times> MessageChannel" where
  "client_send_name register msgName wParam lParam c = (let (msg, c1) = getMessageId register msgName c in
     (if msg \<noteq> 0 then Some (client_send msg wParam lParam c1) else None, c1))"

text \<open>After the handshake messages go to the thread that announced itself, and other handlers leave that alone.\<close>

lemma handshake_sets_thread:
  assumes "register name \<noteq> 0"
  shows "client_send m a b (snd (client_receive (register name) tid (new_client_channel register name))) = (tid, m, a, b)"
  using assms by (simp add: new_client_channel_def registerHandler_def getMessageId_def client_receive_def onMessage_def client_send_def Let_def)

lemma handler_found:
  assumes "registerHandler register name h c = (True, c1)"
  shows "\<exists>msg. m_msgs c1 name = Some msg \<and> onMessage msg c1 = Some h \<and> onMessage msg (removeHandler name c1) = None"
  using assms by (auto simp: registerHandler_def getMessageId_def onMessage_def removeHandler_def Let_def split: option.splits if_splits)

text \<open>\<open>RemixState\<close>: the handler keeps the state of the interface and switches the cooperative levels.\<close>

definition ui_message :: "u32 \<Rightarrow> u64 \<Rightarrow> u64 \<times> bool" where
  "ui_message wParam m_state = (if wParam AND 1 \<noteq> 0 then (m_state OR 1, True) else (m_state AND NOT 1, False))"

definition isUIActive :: "u64 \<Rightarrow> bool" where
  "isUIActive m_state = (m_state AND 1 \<noteq> 0)"

lemma lowest_bit: "(m :: 'a :: len word) AND 1 \<noteq> 0 \<longleftrightarrow> bit m 0"
  using and_exp_eq_0_iff_not_bit [of m 0] by (simp only: power_0) blast

lemma ui_follows: "isUIActive (fst (ui_message w m)) = bit w 0"
  unfolding isUIActive_def ui_message_def lowest_bit by (simp add: bit_or_iff bit_and_iff bit_not_iff)

end
