(* ===== verification/Input_Forward.thy ===== *)
theory Input_Forward
  imports Window_Hook
begin

text \<open>
  Input (\<open>client/di_hook.cpp\<close>): what the hooks of DirectInput make of the state of keyboard and mouse and forward to the renderer as window messages, the cooperative
  levels of the devices while the Remix interface is open, and the hooked functions of the conventional input.  Translations of the operating system
  (\<open>MapVirtualKeyExA\<close>, \<open>ToAscii\<close>) are parameters.  Coordinates are integers: their sums stay in 32 bits for the movements of a mouse.
\<close>

section \<open>The forwarder\<close>

record WndMsg =
  w_hWnd :: u32
  w_msg :: u32
  w_wParam :: u32
  w_lParam :: u32

datatype ForwardPolicy = Never | RemixUIInactive | RemixUIActive | Always

record Forwarder =
  s_KS :: "u8 list"
  s_button0 :: u8
  s_button1 :: u8
  s_mouseX :: int
  s_mouseY :: int
  s_mouseExclusive :: bool
  s_keyboardExclusive :: bool
  s_mouseMove :: WndMsg
  s_mouseLButton :: WndMsg
  s_mouseRButton :: WndMsg
  s_mouseWheel :: WndMsg
  s_hwnd :: u32
  s_windowWidth :: int
  s_windowHeight :: int
  s_mousePolicy :: ForwardPolicy
  s_keyboardPolicy :: ForwardPolicy

definition no_msg :: WndMsg where
  "no_msg = \<lparr>w_hWnd = 0, w_msg = 0, w_wParam = 0, w_lParam = 0\<rparr>"

definition new_forwarder :: "ForwardPolicy \<Rightarrow> ForwardPolicy \<Rightarrow> Forwarder" where
  "new_forwarder mouse keyboard = \<lparr>s_KS = replicate 256 0, s_button0 = 0, s_button1 = 0, s_mouseX = 0, s_mouseY = 0, s_mouseExclusive = False,
     s_keyboardExclusive = False, s_mouseMove = no_msg, s_mouseLButton = no_msg, s_mouseRButton = no_msg, s_mouseWheel = no_msg, s_hwnd = 0,
     s_windowWidth = 3840, s_windowHeight = 2160, s_mousePolicy = mouse, s_keyboardPolicy = keyboard\<rparr>"

definition evaluatePolicy :: "bool \<Rightarrow> ForwardPolicy \<Rightarrow> bool" where
  "evaluatePolicy ui policy = (case policy of Never \<Rightarrow> False | Always \<Rightarrow> True | _ \<Rightarrow> (policy = RemixUIActive) = ui)"

text \<open>The messages handed to \<open>invokeRemixWndProc\<close>; \<open>WM_MOUSEFIRST\<close> is 512, \<open>WM_MOUSELAST\<close> 526.\<close>

definition forwardMessage :: "bool \<Rightarrow> Forwarder \<Rightarrow> WndMsg \<Rightarrow> WndMsg list" where
  "forwardMessage ui f wm =
    (if 512 \<le> w_msg wm \<and> w_msg wm \<le> 526
     then if s_mouseExclusive f \<and> evaluatePolicy ui (s_mousePolicy f) then [wm] else []
     else if s_keyboardExclusive f \<and> evaluatePolicy ui (s_keyboardPolicy f) then [wm] else [])"

definition updateWindowSize :: "int \<times> int \<Rightarrow> Forwarder \<Rightarrow> Forwarder" where
  "updateWindowSize rect f = f\<lparr>s_windowWidth := if fst rect > 16 then fst rect else s_windowWidth f,
     s_windowHeight := if snd rect > 16 then snd rect else s_windowHeight f\<rparr>"

definition setWindow :: "u32 \<Rightarrow> int \<times> int \<Rightarrow> Forwarder \<Rightarrow> Forwarder" where
  "setWindow hwnd rect f = updateWindowSize rect (f\<lparr>s_hwnd := hwnd\<rparr>)"

definition DInputSetDefaultWindow :: "u32 \<Rightarrow> int \<times> int \<Rightarrow> Forwarder \<Rightarrow> Forwarder" where
  "DInputSetDefaultWindow hwnd rect f = (setWindow hwnd rect f)\<lparr>s_keyboardExclusive := True, s_mouseExclusive := True\<rparr>"

section \<open>Keyboard\<close>

record keyboard_env =
  vsc_to_vk :: "nat \<Rightarrow> u32"
  to_ascii :: "u32 \<Rightarrow> nat \<Rightarrow> u8 list \<Rightarrow> u32 option"
  window_rect :: "int \<times> int"
  ui_active :: bool

definition key_code :: "keyboard_env \<Rightarrow> nat \<Rightarrow> u32" where
  "key_code e vsc = (if vsc = 210 then 45 else vsc_to_vk e vsc)"

definition key_messages :: "keyboard_env \<Rightarrow> u8 list \<Rightarrow> Forwarder \<Rightarrow> nat \<Rightarrow> WndMsg list" where
  "key_messages e KS f vsc =
    (let down = bit (KS ! vsc) 7; vk = key_code e vsc;
         wm = \<lparr>w_hWnd = s_hwnd f, w_msg = if down then 256 else 257, w_wParam = vk, w_lParam = 0\<rparr>
     in forwardMessage (ui_active e) f wm
        @ (if down then (case to_ascii e vk vsc KS of Some a \<Rightarrow> forwardMessage (ui_active e) f (wm\<lparr>w_msg := 258, w_wParam := a\<rparr>) | None \<Rightarrow> []) else []))"

definition key_step :: "keyboard_env \<Rightarrow> u8 list \<Rightarrow> nat \<Rightarrow> Forwarder \<times> WndMsg list \<times> bool \<Rightarrow> Forwarder \<times> WndMsg list \<times> bool" where
  "key_step e KS vsc st = (case st of (f, ms, windowUpdated) \<Rightarrow>
     if s_KS f ! vsc = KS ! vsc \<or> key_code e vsc = 0 then st
     else (let f1 = f\<lparr>s_KS := (s_KS f)[vsc := KS ! vsc]\<rparr>
           in (if windowUpdated then f1 else updateWindowSize (window_rect e) f1, ms @ key_messages e KS f vsc, True)))"

definition updateKeyState :: "keyboard_env \<Rightarrow> u8 list \<Rightarrow> Forwarder \<Rightarrow> Forwarder \<times> WndMsg list" where
  "updateKeyState e KS f = (let (f1, ms, u) = fold (key_step e KS) [0 ..< 256] (f, [], False) in (f1, ms))"

text \<open>What messages depend on.\<close>

definition same_target :: "Forwarder \<Rightarrow> Forwarder \<Rightarrow> bool" where
  "same_target f g = (s_hwnd g = s_hwnd f \<and> s_mouseExclusive g = s_mouseExclusive f \<and> s_keyboardExclusive g = s_keyboardExclusive f
     \<and> s_mousePolicy g = s_mousePolicy f \<and> s_keyboardPolicy g = s_keyboardPolicy f)"

lemma forward_same: "same_target f g \<Longrightarrow> forwardMessage ui g = forwardMessage ui f"
  by (auto simp: forwardMessage_def same_target_def)

lemma key_messages_same: "same_target f g \<Longrightarrow> key_messages e KS g v = key_messages e KS f v"
  using forward_same [of f g] by (auto simp: key_messages_def same_target_def Let_def split: option.split)

definition changed_keys :: "keyboard_env \<Rightarrow> u8 list \<Rightarrow> Forwarder \<Rightarrow> nat list \<Rightarrow> nat list" where
  "changed_keys e KS f vs = [v \<leftarrow> vs. s_KS f ! v \<noteq> KS ! v \<and> key_code e v \<noteq> 0]"

lemma key_fold:
  assumes "distinct vs" and "\<forall>v \<in> set vs. v < length (s_KS f)"
  shows "\<exists>g u1. fold (key_step e KS) vs (f, ms, u) = (g, ms @ concat (map (key_messages e KS f) (changed_keys e KS f vs)), u1) \<and> same_target f g
    \<and> length (s_KS g) = length (s_KS f) \<and> (\<forall>v. s_KS g ! v = (if v \<in> set vs \<and> key_code e v \<noteq> 0 then KS ! v else s_KS f ! v))"
  using assms
proof (induction vs arbitrary: f ms u)
  case Nil
  then show ?case by (simp add: changed_keys_def same_target_def)
next
  case (Cons v vs)
  obtain f1 ms1 u1 where st: "key_step e KS v (f, ms, u) = (f1, ms1, u1)" by (metis prod_cases3)
  have v: "v < length (s_KS f)" "v \<notin> set vs" "distinct vs" using Cons.prems by auto
  have f1: "same_target f f1" "length (s_KS f1) = length (s_KS f)" "ms1 = ms @ (if s_KS f ! v \<noteq> KS ! v \<and> key_code e v \<noteq> 0 then key_messages e KS f v else [])"
    "\<And>w. s_KS f1 ! w = (if w = v \<and> key_code e v \<noteq> 0 then KS ! v else s_KS f ! w)"
    using st v(1) by (auto simp: key_step_def same_target_def updateWindowSize_def Let_def nth_list_update split: if_splits)
  have ch: "changed_keys e KS f1 vs = changed_keys e KS f vs"
    unfolding changed_keys_def using f1(4) v(2) by (intro filter_cong) auto
  have km: "map (key_messages e KS f1) xs = map (key_messages e KS f) xs" for xs using key_messages_same [OF f1(1)] by simp
  obtain g u2 where g: "fold (key_step e KS) vs (f1, ms1, u1) = (g, ms1 @ concat (map (key_messages e KS f) (changed_keys e KS f vs)), u2)"
    "same_target f1 g" "length (s_KS g) = length (s_KS f1)" "\<forall>w. s_KS g ! w = (if w \<in> set vs \<and> key_code e w \<noteq> 0 then KS ! w else s_KS f1 ! w)"
    using Cons.IH [OF v(3), of f1 ms1 u1] Cons.prems(2) f1(2) unfolding ch km by auto
  have "same_target f g" using f1(1) g(2) by (simp add: same_target_def)
  moreover have "ms1 @ concat (map (key_messages e KS f) (changed_keys e KS f vs)) = ms @ concat (map (key_messages e KS f) (changed_keys e KS f (v # vs)))"
    by (simp add: f1(3) changed_keys_def)
  ultimately show ?case using g f1 st v(2) by auto
qed

text \<open>C38. The forwarder follows the keyboard: afterwards it has the state of every key that has a code, it sent the messages of the keys that changed, in order, and the
  same state again sends nothing.\<close>

theorem keys_followed:
  assumes "length (s_KS f) = 256" and "updateKeyState e KS f = (g, ms)"
  shows "(\<forall>v < 256. s_KS g ! v = (if key_code e v = 0 then s_KS f ! v else KS ! v))
    \<and> ms = concat (map (key_messages e KS f) (changed_keys e KS f [0 ..< 256])) \<and> length (s_KS g) = 256 \<and> snd (updateKeyState e KS g) = []"
proof -
  obtain u1 where st: "fold (key_step e KS) [0 ..< 256] (f, [], False) = (g, ms, u1)"
    using assms(2) by (auto simp: updateKeyState_def split: prod.splits)
  have r: "\<forall>v \<in> set [0 ..< 256]. v < length (s_KS f)" using assms(1) by simp
  from key_fold [OF distinct_upt r, of e KS "[]" False] st
  have g: "ms = concat (map (key_messages e KS f) (changed_keys e KS f [0 ..< 256]))" "length (s_KS g) = 256"
    "\<forall>v. s_KS g ! v = (if v \<in> set [0 ..< 256] \<and> key_code e v \<noteq> 0 then KS ! v else s_KS f ! v)" using assms(1) by auto
  then have none: "changed_keys e KS g [0 ..< 256] = []" by (auto simp: changed_keys_def filter_empty_conv)
  have r2: "\<forall>v \<in> set [0 ..< 256]. v < length (s_KS g)" using g(2) by simp
  from key_fold [OF distinct_upt r2, of e KS "[]" False] have "snd (updateKeyState e KS g) = []" by (auto simp: updateKeyState_def none)
  then show ?thesis using g by auto
qed

section \<open>Mouse\<close>

record mouse_state =
  lX :: int
  lY :: int
  lZ :: int
  button0 :: u8
  button1 :: u8

definition clamp :: "int \<Rightarrow> int \<Rightarrow> int" where
  "clamp hi x = (let x1 = (if x < 0 then 0 else x) in if x1 > hi then hi else x1)"

definition move_mouse :: "bool \<Rightarrow> mouse_state \<Rightarrow> Forwarder \<Rightarrow> Forwarder" where
  "move_mouse isAbsoluteAxis st f =
    f\<lparr>s_mouseX := clamp (s_windowWidth f) (if isAbsoluteAxis then lX st else s_mouseX f + lX st),
      s_mouseY := clamp (s_windowHeight f) (if isAbsoluteAxis then lY st else s_mouseY f + lY st)\<rparr>"

definition key_down :: "Forwarder \<Rightarrow> nat \<Rightarrow> bool" where
  "key_down f k = bit (s_KS f ! k) 7"

definition mouse_msg :: "mouse_state \<Rightarrow> Forwarder \<Rightarrow> WndMsg" where
  "mouse_msg st f = \<lparr>w_hWnd = s_hwnd f, w_msg = 512,
     w_wParam = (if bit (button0 st) 7 then 1 else 0) + (if bit (button1 st) 7 then 2 else 0)
       + (if key_down f 29 \<or> key_down f 157 then 8 else 0) + (if key_down f 42 \<or> key_down f 54 then 4 else 0),
     w_lParam = word_of_int (s_mouseX f) OR push_bit 16 (word_of_int (s_mouseY f))\<rparr>"

text \<open>\<open>LOWORD\<close>, \<open>MAKELONG\<close> and \<open>GET_WHEEL_DELTA_WPARAM\<close>.\<close>

definition MAKELONG :: "u16 \<Rightarrow> u16 \<Rightarrow> u32" where
  "MAKELONG lo hi = ucast lo OR push_bit 16 (ucast hi)"

definition wheel_delta :: "u32 \<Rightarrow> int" where
  "wheel_delta wParam = sint (ucast (drop_bit 16 wParam) :: u16)"

definition button_step :: "bool \<Rightarrow> u8 \<Rightarrow> u8 \<Rightarrow> u32 \<Rightarrow> WndMsg \<Rightarrow> WndMsg \<Rightarrow> Forwarder \<Rightarrow> WndMsg list \<times> WndMsg \<times> WndMsg" where
  "button_step ui old new down_msg last1 wm f =
    (if old \<noteq> new
     then let wm1 = wm\<lparr>w_msg := if bit new 7 then down_msg else down_msg + 1\<rparr>
          in if wm1 \<noteq> last1 then (forwardMessage ui f wm1, wm1, wm1) else ([], last1, wm1)
     else ([], last1, wm))"

definition wheel_step :: "bool \<Rightarrow> int \<Rightarrow> WndMsg \<Rightarrow> Forwarder \<Rightarrow> WndMsg list \<times> WndMsg" where
  "wheel_step ui z wm f =
    (if wheel_delta (w_wParam (s_mouseWheel f)) \<noteq> z
     then let wm1 = wm\<lparr>w_msg := 522, w_wParam := MAKELONG (ucast (w_wParam wm)) (word_of_int z)\<rparr> in (forwardMessage ui f wm1, wm1)
     else ([], s_mouseWheel f))"

definition updateMouseState :: "bool \<Rightarrow> bool \<Rightarrow> mouse_state \<Rightarrow> Forwarder \<Rightarrow> Forwarder \<times> WndMsg list" where
  "updateMouseState ui isAbsoluteAxis st f =
    (let f1 = move_mouse isAbsoluteAxis st f;
         wm = mouse_msg st f1;
         move = (if wm \<noteq> s_mouseMove f1 then forwardMessage ui f1 wm else []);
         (left, lmsg, wm1) = button_step ui (s_button0 f1) (button0 st) 513 (s_mouseLButton f1) wm f1;
         (right, rmsg, wm2) = button_step ui (s_button1 f1) (button1 st) 516 (s_mouseRButton f1) wm1 f1;
         (wheel, wmsg) = wheel_step ui (lZ st) wm2 f1
     in (f1\<lparr>s_mouseMove := wm, s_button0 := button0 st, s_mouseLButton := lmsg, s_button1 := button1 st, s_mouseRButton := rmsg, s_mouseWheel := wmsg\<rparr>,
         move @ left @ right @ wheel))"

fun mouse_states :: "bool \<Rightarrow> bool \<Rightarrow> mouse_state list \<Rightarrow> Forwarder \<Rightarrow> Forwarder \<times> WndMsg list" where
  "mouse_states ui ab [] f = (f, [])"
| "mouse_states ui ab (st # sts) f = (let (f1, ms) = updateMouseState ui ab st f; (f2, ms2) = mouse_states ui ab sts f1 in (f2, ms @ ms2))"

lemma wheel_step_delta:
  assumes "- 32768 \<le> z" and "z < 32768"
  shows "wheel_delta (w_wParam (snd (wheel_step ui z wm f))) = z"
proof -
  have "(ucast (drop_bit 16 (MAKELONG lo (word_of_int z))) :: u16) = word_of_int z" for lo
    unfolding MAKELONG_def by (rule bit_word_eqI) (auto simp: bit_simps dest: bit_imp_le_length)
  moreover have "sint (word_of_int z :: u16) = z"
    using assms by (simp add: sint_sbintrunc' signed_take_bit_int_eq_self)
  ultimately have "wheel_delta (MAKELONG lo (word_of_int z)) = z" for lo by (simp add: wheel_delta_def)
  then show ?thesis by (simp add: wheel_step_def Let_def)
qed

lemma update_wheel: "\<exists>wm. s_mouseWheel (fst (updateMouseState ui ab st f)) = snd (wheel_step ui (lZ st) wm (move_mouse ab st f))"
  unfolding updateMouseState_def Let_def split_beta fst_conv by (rule exI) simp

lemma update_fields:
  assumes "updateMouseState ui ab st f = (g, ms)"
  shows "s_mouseX g = clamp (s_windowWidth f) (if ab then lX st else s_mouseX f + lX st)" "s_mouseY g = clamp (s_windowHeight f) (if ab then lY st else s_mouseY f + lY st)"
    "s_windowWidth g = s_windowWidth f" "s_windowHeight g = s_windowHeight f" "s_button0 g = button0 st" "s_button1 g = button1 st" "same_target f g" "s_KS g = s_KS f"
    "\<exists>wm f1. s_mouseWheel g = snd (wheel_step ui (lZ st) wm f1)"
proof -
  note split = assms [unfolded updateMouseState_def Let_def split_beta]
  show "s_mouseX g = clamp (s_windowWidth f) (if ab then lX st else s_mouseX f + lX st)" "s_mouseY g = clamp (s_windowHeight f) (if ab then lY st else s_mouseY f + lY st)"
    "s_windowWidth g = s_windowWidth f" "s_windowHeight g = s_windowHeight f" "s_button0 g = button0 st" "s_button1 g = button1 st" "same_target f g" "s_KS g = s_KS f"
    using split by (auto simp: move_mouse_def same_target_def)
  show "\<exists>wm f1. s_mouseWheel g = snd (wheel_step ui (lZ st) wm f1)"
    using assms update_wheel [of ui ab st f] by auto
qed

text \<open>Through any movements the position stays inside the window.\<close>

theorem mouse_stays_inside:
  assumes "mouse_states ui ab sts f = (g, ms)" and "0 \<le> s_mouseX f" and "s_mouseX f \<le> s_windowWidth f" and "0 \<le> s_mouseY f" and "s_mouseY f \<le> s_windowHeight f"
  shows "0 \<le> s_mouseX g \<and> s_mouseX g \<le> s_windowWidth g \<and> 0 \<le> s_mouseY g \<and> s_mouseY g \<le> s_windowHeight g"
  using assms
proof (induction sts arbitrary: f g ms)
  case (Cons st sts)
  obtain f1 ms1 where u: "updateMouseState ui ab st f = (f1, ms1)" by fastforce
  obtain ms2 where r: "mouse_states ui ab sts f1 = (g, ms2)" using Cons.prems(1) u by (auto simp: Let_def split: prod.splits)
  show ?case using Cons.IH [OF r] update_fields(1-4) [OF u] Cons.prems(2-5) by (auto simp: clamp_def Let_def)
qed simp

text \<open>The wheel is compared with its last movement: a second notch in the same direction is not forwarded.\<close>

lemma second_notch_dropped:
  assumes "updateMouseState ui ab st f = (g, ms)" and "lZ st2 = lZ st" and "- 32768 \<le> lZ st" and "lZ st < 32768" and "updateMouseState ui ab st2 g = (g2, ms2)"
  shows "\<forall>m \<in> set ms2. w_msg m \<noteq> 522"
proof -
  obtain wm f1 where "s_mouseWheel g = snd (wheel_step ui (lZ st) wm f1)" using update_fields(9) [OF assms(1)] by blast
  then have "wheel_delta (w_wParam (s_mouseWheel g)) = lZ st2" using wheel_step_delta assms(2-4) by simp
  then have none: "fst (wheel_step ui (lZ st2) wm2 (move_mouse ab st2 g)) = []" for wm2 by (simp add: wheel_step_def move_mouse_def)
  have fw: "m \<in> set (forwardMessage ui h x) \<Longrightarrow> m = x" for m h x by (auto simp: forwardMessage_def split: if_splits)
  have btn: "m \<in> set (fst (button_step ui a b d l x h)) \<Longrightarrow> w_msg m \<in> {d, d + 1}" for m a b d l x h
    by (auto simp: button_step_def Let_def dest: fw split: if_splits)
  have "w_msg (mouse_msg st2 h) = 512" for h by (simp add: mouse_msg_def)
  then show ?thesis using assms(5) none by (auto simp: updateMouseState_def Let_def split_beta dest!: fw btn split: if_splits)
qed

section \<open>The hooks of DirectInput\<close>

text \<open>The devices are addresses, 0 for none; \<open>os_level\<close> is the cooperative level DirectInput was last given for a device.  \<open>DISCL_EXCLUSIVE\<close> 1,
  \<open>DISCL_NONEXCLUSIVE\<close> 2, \<open>DISCL_FOREGROUND\<close> 4.\<close>

record DirectInputHook =
  MouseDevice :: u32
  KeyboardDevice :: u32
  axis_absolute :: bool
  MouseDeviceStateUsed :: bool
  KeyboardDeviceStateUsed :: bool
  ogMouseLevel :: u32
  ogKeyboardLevel :: u32
  ExclusiveMode :: "u32 \<rightharpoonup> bool"
  os_level :: "u32 \<Rightarrow> u32"
  buffered_keys :: "u8 list"
  forwarder :: Forwarder

definition kDefaultCooperativeLevel :: u32 where
  "kDefaultCooperativeLevel = 2 OR 4"

definition new_input_hook :: "Forwarder \<Rightarrow> DirectInputHook" where
  "new_input_hook f = \<lparr>MouseDevice = 0, KeyboardDevice = 0, axis_absolute = False, MouseDeviceStateUsed = False, KeyboardDeviceStateUsed = False,
     ogMouseLevel = kDefaultCooperativeLevel, ogKeyboardLevel = kDefaultCooperativeLevel, ExclusiveMode = Map.empty, os_level = (\<lambda>_. 0),
     buffered_keys = replicate 256 0, forwarder = f\<rparr>"

text \<open>\<open>axis\<close> is the value of an axis mode property, \<open>None\<close> for the other properties; \<open>ok\<close> is \<open>DI_OK\<close>.\<close>

definition HookedSetProperty :: "bool \<Rightarrow> u32 \<Rightarrow> bool option \<Rightarrow> DirectInputHook \<Rightarrow> DirectInputHook" where
  "HookedSetProperty ok thiz axis d = (if ok \<and> MouseDevice d = thiz then (case axis of None \<Rightarrow> d | Some a \<Rightarrow> d\<lparr>axis_absolute := a\<rparr>) else d)"

text \<open>\<open>dev_type\<close> is the low four bits of \<open>dwDevType\<close>: 2 for a pointer, 3 for a keyboard.\<close>

definition HookedAcquire :: "u32 \<Rightarrow> u32 \<Rightarrow> DirectInputHook \<Rightarrow> DirectInputHook" where
  "HookedAcquire thiz dev_type d =
    (if KeyboardDevice d \<noteq> thiz \<or> MouseDevice d \<noteq> thiz
     then if KeyboardDevice d \<noteq> thiz \<and> dev_type = 3
          then d\<lparr>KeyboardDevice := thiz, forwarder := (case ExclusiveMode d thiz of None \<Rightarrow> forwarder d | Some x \<Rightarrow> (forwarder d)\<lparr>s_keyboardExclusive := x\<rparr>)\<rparr>
          else if MouseDevice d \<noteq> thiz \<and> dev_type = 2
          then d\<lparr>MouseDevice := thiz, forwarder := (case ExclusiveMode d thiz of None \<Rightarrow> forwarder d | Some x \<Rightarrow> (forwarder d)\<lparr>s_mouseExclusive := x\<rparr>)\<rparr>
          else d
     else d)"

definition HookedUnacquire :: "u32 \<Rightarrow> DirectInputHook \<Rightarrow> DirectInputHook" where
  "HookedUnacquire thiz d =
    (if KeyboardDevice d \<noteq> 0 \<and> KeyboardDevice d = thiz then d\<lparr>KeyboardDevice := 0\<rparr>
     else if MouseDevice d \<noteq> 0 \<and> MouseDevice d = thiz then d\<lparr>MouseDevice := 0\<rparr> else d)"

definition OrigSetCooperativeLevel :: "u32 \<Rightarrow> u32 \<Rightarrow> DirectInputHook \<Rightarrow> DirectInputHook" where
  "OrigSetCooperativeLevel thiz level d = d\<lparr>os_level := (os_level d)(thiz := level)\<rparr>"

definition HookedSetCooperativeLevel :: "bool \<Rightarrow> u32 \<Rightarrow> u32 \<Rightarrow> DirectInputHook \<Rightarrow> DirectInputHook" where
  "HookedSetCooperativeLevel disableExclusive thiz dwFlags d =
    (let d1 = (if thiz = MouseDevice d then d\<lparr>ogMouseLevel := dwFlags\<rparr> else if thiz = KeyboardDevice d then d\<lparr>ogKeyboardLevel := dwFlags\<rparr> else d);
         fl = (if disableExclusive then 2 OR 4 else dwFlags)
     in OrigSetCooperativeLevel thiz fl (d1\<lparr>ExclusiveMode := (ExclusiveMode d1)(thiz \<mapsto> (fl AND 1 \<noteq> 0))\<rparr>))"

definition give_level :: "u32 \<Rightarrow> u32 \<Rightarrow> DirectInputHook \<Rightarrow> DirectInputHook" where
  "give_level thiz level d = (if thiz \<noteq> 0 then (OrigSetCooperativeLevel thiz level d)\<lparr>ExclusiveMode := (ExclusiveMode d)(thiz \<mapsto> (level AND 1 \<noteq> 0))\<rparr> else d)"

definition unsetCooperativeLevel :: "DirectInputHook \<Rightarrow> DirectInputHook" where
  "unsetCooperativeLevel d = (if s_hwnd (forwarder d) \<noteq> 0
     then give_level (KeyboardDevice d) kDefaultCooperativeLevel (give_level (MouseDevice d) kDefaultCooperativeLevel d) else d)"

definition resetCooperativeLevel :: "DirectInputHook \<Rightarrow> DirectInputHook" where
  "resetCooperativeLevel d = (if s_hwnd (forwarder d) \<noteq> 0
     then give_level (KeyboardDevice d) (ogKeyboardLevel d) (give_level (MouseDevice d) (ogMouseLevel d) d) else d)"

text \<open>\<open>GetDeviceState\<close>: the state the original function filled in, with the messages and whether it is wiped.\<close>

datatype device_data = MouseData mouse_state | KeyData "u8 list" | OtherData

definition HookedGetDeviceState :: "keyboard_env \<Rightarrow> device_data \<Rightarrow> DirectInputHook \<Rightarrow> bool \<times> WndMsg list \<times> DirectInputHook" where
  "HookedGetDeviceState e data d =
    (case data of
       MouseData st \<Rightarrow> let (f, ms) = updateMouseState (ui_active e) (axis_absolute d) st (forwarder d) in (ui_active e, ms, d\<lparr>forwarder := f, MouseDeviceStateUsed := True\<rparr>)
     | KeyData KS \<Rightarrow> let (f, ms) = updateKeyState e KS (forwarder d) in (ui_active e, ms, d\<lparr>forwarder := f, KeyboardDeviceStateUsed := True\<rparr>)
     | OtherData \<Rightarrow> (ui_active e, [], d))"

text \<open>\<open>GetDeviceData\<close>: each buffered event becomes a state with everything else zero.  \<open>DIMOFS_X\<close> 0, \<open>DIMOFS_Y\<close> 4, \<open>DIMOFS_Z\<close> 8, buttons at 12 and 13.\<close>

definition event_state :: "nat \<times> u32 \<Rightarrow> mouse_state option" where
  "event_state ev = (case ev of (ofs, dw) \<Rightarrow> let z = \<lparr>lX = 0, lY = 0, lZ = 0, button0 = 0, button1 = 0\<rparr> in
     if ofs = 0 then Some (z\<lparr>lX := sint dw\<rparr>) else if ofs = 4 then Some (z\<lparr>lY := sint dw\<rparr>) else if ofs = 8 then Some (z\<lparr>lZ := sint dw\<rparr>)
     else if ofs = 12 then Some (z\<lparr>button0 := ucast dw\<rparr>) else if ofs = 13 then Some (z\<lparr>button1 := ucast dw\<rparr>) else None)"

fun buffer_keys :: "(nat \<times> u32) list \<Rightarrow> u8 list \<Rightarrow> u8 list or_error" where
  "buffer_keys [] ks = Inr ks"
| "buffer_keys ((ofs, dw) # evs) ks = (if ofs < length ks then buffer_keys evs (ks[ofs := ucast dw]) else Inl OutOfBounds)"

definition HookedGetDeviceData :: "keyboard_env \<Rightarrow> bool \<Rightarrow> u32 \<Rightarrow> (nat \<times> u32) list \<Rightarrow> DirectInputHook \<Rightarrow> (bool \<times> WndMsg list \<times> DirectInputHook) or_error" where
  "HookedGetDeviceData e ok thiz evs d =
    (if ok \<and> MouseDevice d = thiz \<and> \<not> MouseDeviceStateUsed d
     then let (f, ms) = mouse_states (ui_active e) (axis_absolute d) (List.map_filter event_state evs) (forwarder d) in Inr (ui_active e, ms, d\<lparr>forwarder := f\<rparr>)
     else if ok \<and> \<not> (MouseDevice d = thiz \<and> \<not> MouseDeviceStateUsed d) \<and> KeyboardDevice d = thiz \<and> \<not> KeyboardDeviceStateUsed d
     then bindE (buffer_keys evs (buffered_keys d)) (\<lambda>ks. let (f, ms) = updateKeyState e ks (forwarder d) in
       Inr (ui_active e, ms, d\<lparr>buffered_keys := ks, forwarder := f\<rparr>))
     else Inr (ui_active e, [], d))"

section \<open>Cooperative levels\<close>

lemma levels_after_ui:
  assumes "s_hwnd (forwarder d) \<noteq> 0" and "MouseDevice d \<noteq> 0" and "MouseDevice d \<noteq> KeyboardDevice d"
  shows "os_level (resetCooperativeLevel (unsetCooperativeLevel d)) (MouseDevice d) = ogMouseLevel d"
  using assms by (simp add: resetCooperativeLevel_def unsetCooperativeLevel_def give_level_def OrigSetCooperativeLevel_def)



section \<open>Buffered events\<close>

lemma button_step_change: "old \<noteq> new \<Longrightarrow> w_msg (fst (snd (button_step ui old new dm l wm f))) = (if bit new 7 then dm else dm + 1)"
  by (simp add: button_step_def Let_def) (metis WndMsg.select_convs(2) WndMsg.update_convs(2) WndMsg.surjective)

lemma update_left: "s_mouseLButton (fst (updateMouseState ui ab st f))
    = fst (snd (button_step ui (s_button0 f) (button0 st) 513 (s_mouseLButton f) (mouse_msg st (move_mouse ab st f)) (move_mouse ab st f)))"
  unfolding updateMouseState_def Let_def split_beta fst_conv by (simp add: move_mouse_def)

lemma left_messages: "set (fst (button_step ui (s_button0 f) (button0 st) 513 (s_mouseLButton f) (mouse_msg st (move_mouse ab st f)) (move_mouse ab st f)))
    \<subseteq> set (snd (updateMouseState ui ab st f))"
  unfolding updateMouseState_def Let_def split_beta snd_conv by (auto simp: move_mouse_def)

text \<open>C40. A buffered movement carries no buttons, so the forwarder takes it for their release: a drag is cut off at its first movement.\<close>

theorem buffered_drag_cut:
  assumes "s_button0 f = 0" and "s_mouseExclusive f" and "s_mousePolicy f = Always"
    and "mouse_states ui ab (List.map_filter event_state [(12, 0x80), (0, dx)]) f = (g, ms)"
  shows "\<exists>m \<in> set ms. w_msg m = 514 \<and> s_button0 g = 0"
proof -
  let ?s1 = "\<lparr>lX = 0, lY = 0, lZ = 0, button0 = 0x80, button1 = 0\<rparr>" and ?s2 = "\<lparr>lX = sint dx, lY = 0, lZ = 0, button0 = 0, button1 = 0\<rparr>"
  have evs: "List.map_filter event_state [(12, 0x80), (0, dx)] = [?s1, ?s2]" by (simp add: event_state_def Let_def map_filter_simps)
  obtain f1 ms1 where u1: "updateMouseState ui ab ?s1 f = (f1, ms1)" by fastforce
  obtain g2 ms2 where u: "updateMouseState ui ab ?s2 f1 = (g2, ms2)" by fastforce
  then have u2: "updateMouseState ui ab ?s2 f1 = (g, ms2)" "ms = ms1 @ ms2" using assms(4) u1 unfolding evs by simp_all
  have f1: "s_button0 f1 = 0x80" "same_target f f1" using update_fields(5,7) [OF u1] by simp_all
  have "s_mouseLButton f1 = s_mouseLButton (fst (updateMouseState ui ab ?s1 f))" using u1 by simp
  then have down: "w_msg (s_mouseLButton f1) = 513" using assms(1) by (simp only: update_left) (simp add: button_step_change)
  let ?m2 = "move_mouse ab ?s2 f1"
  let ?up = "(mouse_msg ?s2 ?m2)\<lparr>w_msg := 514\<rparr>"
  have on: "forwardMessage ui ?m2 ?up = [?up]"
    using f1(2) assms(2,3) by (simp add: forwardMessage_def move_mouse_def same_target_def evaluatePolicy_def)
  have "w_msg ?up = 514" by simp
  then have "?up \<noteq> s_mouseLButton f1" using down by force
  then have "fst (button_step ui (s_button0 f1) (button0 ?s2) 513 (s_mouseLButton f1) (mouse_msg ?s2 ?m2) ?m2) = [?up]"
    using f1(1) on by (simp add: button_step_def Let_def)
  then have "?up \<in> set ms2" using left_messages [of ui f1 ?s2 ab] u2(1) by simp
  then show ?thesis using u2(2) update_fields(5) [OF u2(1)] by (intro bexI [of _ ?up]) simp_all
qed

lemma buffered_drag_cut_witness:
  "\<exists>m \<in> set (snd (mouse_states True False (List.map_filter event_state [(12, 0x80), (0, 3)]) ((new_forwarder Always Always)\<lparr>s_mouseExclusive := True\<rparr>))). w_msg m = 514"
proof -
  let ?f = "(new_forwarder Always Always)\<lparr>s_mouseExclusive := True\<rparr>"
  have f: "s_button0 ?f = 0" "s_mouseExclusive ?f" "s_mousePolicy ?f = Always" by (simp_all add: new_forwarder_def)
  obtain g ms where r: "mouse_states True False (List.map_filter event_state [(12, 0x80), (0, 3)]) ?f = (g, ms)" by fastforce
  from buffered_drag_cut [OF f r] show ?thesis unfolding r snd_conv by blast
qed

section \<open>Conventional input\<close>

text \<open>The hooked functions: what they return when the original returns \<open>orig\<close>.\<close>

definition HookedGetCursorPos :: "bool \<Rightarrow> (int \<times> int) option \<Rightarrow> int \<times> int \<Rightarrow> (int \<times> int) option \<times> (int \<times> int)" where
  "HookedGetCursorPos ui orig lastKnownPos =
    (if ui then (Some lastKnownPos, lastKnownPos) else (case orig of Some p \<Rightarrow> (Some p, p) | None \<Rightarrow> (None, lastKnownPos)))"

definition HookedSetCursorPos :: "bool \<Rightarrow> bool \<Rightarrow> bool" where
  "HookedSetCursorPos ui orig = (ui \<or> orig)"

definition HookedGetKeyState :: "bool \<Rightarrow> u16 \<Rightarrow> u16" where
  "HookedGetKeyState ui orig = (if ui then 0 else orig)"

definition HookedGetKeyboardState :: "bool \<Rightarrow> u8 list option \<Rightarrow> u8 list option" where
  "HookedGetKeyboardState ui orig = (if ui then Some (replicate 256 0) else orig)"

text \<open>\<open>GetRawInputData\<close>: the last known mouse and keyboard are the fields; \<open>directInput\<close> is \<open>gClientUsesDirectInput\<close>, \<open>complete\<close> that the size returned is the size asked
  for.\<close>

datatype raw_input = RawMouse memory | RawKeyboard memory | RawOther

definition HookedGetRawInputData :: "bool \<Rightarrow> bool \<Rightarrow> bool \<Rightarrow> raw_input \<Rightarrow> memory \<times> memory \<Rightarrow> raw_input \<times> (memory \<times> memory)" where
  "HookedGetRawInputData ui directInput complete raw known = (case known of (mouse, keyboard) \<Rightarrow>
     if directInput \<or> \<not> complete then (raw, known)
     else if ui then ((case raw of RawMouse _ \<Rightarrow> RawMouse mouse | RawKeyboard _ \<Rightarrow> RawKeyboard keyboard | RawOther \<Rightarrow> RawOther), known)
     else (raw, case raw of RawMouse m \<Rightarrow> (m, keyboard) | RawKeyboard k \<Rightarrow> (mouse, k) | RawOther \<Rightarrow> known))"

text \<open>The hooked message pump on the messages that wait: \<open>swallow\<close> is the answer of \<open>remixMsg\<close>.  The message for the application and the rest; without removal
  nothing is filtered.\<close>

fun HookedGetMessage :: "('m \<Rightarrow> bool) \<Rightarrow> 'm list \<Rightarrow> 'm option \<times> 'm list" where
  "HookedGetMessage swallow [] = (None, [])"
| "HookedGetMessage swallow (m # ms) = (if swallow m then HookedGetMessage swallow ms else (Some m, ms))"

definition HookedPeekMessage :: "bool \<Rightarrow> ('m \<Rightarrow> bool) \<Rightarrow> 'm list \<Rightarrow> 'm option \<times> 'm list" where
  "HookedPeekMessage remove swallow ms = (if remove then HookedGetMessage swallow ms else (case ms of [] \<Rightarrow> (None, []) | m # r \<Rightarrow> (Some m, ms)))"

fun pump_all :: "nat \<Rightarrow> ('m \<Rightarrow> bool) \<Rightarrow> 'm list \<Rightarrow> 'm list" where
  "pump_all 0 swallow ms = []"
| "pump_all (Suc n) swallow ms = (case HookedGetMessage swallow ms of (Some m, r) \<Rightarrow> m # pump_all n swallow r | (None, r) \<Rightarrow> [])"

lemma pump_filters: "length ms \<le> n \<Longrightarrow> pump_all n swallow ms = filter (\<lambda>m. \<not> swallow m) ms"
proof (induction n arbitrary: ms)
  case (Suc n)
  have "pump_all (Suc n) swallow ms = filter (\<lambda>m. \<not> swallow m) ms" if "length ms \<le> Suc n" for ms
    using that by (induction ms) (auto simp: Suc.IH)
  then show ?case using Suc.prems by blast
qed simp

lemma input_frozen:
  "HookedGetCursorPos True o1 p = (Some p, p)" "HookedGetKeyState True k = 0" "fst (HookedGetRawInputData True False True (RawMouse m) (m0, k0)) = RawMouse m0"
  by (simp_all add: HookedGetCursorPos_def HookedGetKeyState_def HookedGetRawInputData_def)

lemma keys_followed_witness:
  "snd (updateKeyState \<lparr>vsc_to_vk = (\<lambda>v. 1), to_ascii = (\<lambda>a b c. None), window_rect = (0, 0), ui_active = True\<rparr>
      (replicate 256 0x80) (fst (updateKeyState \<lparr>vsc_to_vk = (\<lambda>v. 1), to_ascii = (\<lambda>a b c. None), window_rect = (0, 0), ui_active = True\<rparr>
        (replicate 256 0x80) (new_forwarder Always Always)))) = []"
  using keys_followed [of "new_forwarder Always Always" "\<lparr>vsc_to_vk = (\<lambda>v. 1), to_ascii = (\<lambda>a b c. None), window_rect = (0, 0), ui_active = True\<rparr>" "replicate 256 0x80"]
  by (simp add: new_forwarder_def split: prod.splits) (metis prod.collapse)

lemma mouse_stays_inside_witness:
  "s_mouseX (fst (mouse_states True False [\<lparr>lX = -9, lY = 5000, lZ = 0, button0 = 0, button1 = 0\<rparr>] (new_forwarder Always Always))) \<ge> 0"
proof -
  obtain g ms where r: "mouse_states True False [\<lparr>lX = -9, lY = 5000, lZ = 0, button0 = 0, button1 = 0\<rparr>] (new_forwarder Always Always) = (g, ms)" by fastforce
  have "0 \<le> s_mouseX g \<and> s_mouseX g \<le> s_windowWidth g \<and> 0 \<le> s_mouseY g \<and> s_mouseY g \<le> s_windowHeight g"
    by (rule mouse_stays_inside [OF r]) (simp_all add: new_forwarder_def)
  then show ?thesis unfolding r by simp
qed

end
