(* ===== verification/Spec2Isabelle.thy ===== *)
theory Spec2Isabelle
  imports Atomic_Queue Circular_Buffer Heap_Protocol Setter_Refinement State_Block Shader_Constants
    Client_Create Client_Use Present_Params Device_Invariant Data_Sync Bridge_Command Swap_Chain Lockable_Buffer
    Fast_Lock Remix_Calls Texture_Wrappers Volume_Data Ref_Runs Device_Reset
    Global_Options Query_Wrappers Private_Data Frame_Pacer Input_Forward
begin

text \<open>
  Verification of the bridge between a 32-bit Direct3D 9 application and a 64-bit renderer.

  The program.  A client library (\<open>src/src/client\<close>) stands in for Direct3D inside the application.  Its wrappers keep
  the state of the device, check the arguments of every call and turn it into a command: a header
  in a command queue and words and objects in a data ring, both in shared memory.  A server process
  (\<open>src/src/server/main.cpp\<close>) takes the headers in order, pulls the data of each, calls the real runtime on the
  object its handle tables name, and answers when the client waits.  \<open>src/src/util\<close> holds what both
  share: the queues, the channel with its overwrite protection, the command protocol, the shared heap.

  Theories, each with the files it models:

  \<^item> \<open>Bridge_Prelude\<close>: machine words, \<open>Result\<close>, \<open>align\<close> (\<open>util_common.h\<close>), error values and \<open>bindE\<close>, the byte memory.
  \<^item> \<open>Circular_Queue\<close>, \<open>Circular_Buffer\<close>: the data ring (\<open>util_circularqueue.h\<close>, \<open>util_circularbuffer.h\<close>), its two
    ends on one memory; block writes equal single writes, a reader that follows the writer reads the same items.
  \<^item> \<open>Channel_Interface\<close>: the contract of a command queue as the locale \<open>fifo_queue\<close>.
  \<^item> \<open>Atomic_Queue\<close>: the lock-free command queue (\<open>util_atomiccircularqueue.h\<close>) with the interleaving of the accesses of
    both threads; order, capacity, no lost slot, and the interpretation of the contract.
  \<^item> \<open>Data_Sync\<close>: the overwrite protection of the data ring (\<open>syncDataQueue\<close> in \<open>util_bridgecommand.cpp\<close>, the server's end of a command);
    what it guarantees, and the cases it does not see.
  \<^item> \<open>Bridge_Command\<close>: \<open>Command\<close> objects, \<open>waitForCommand\<close>, the UIDs of both processes (\<open>util_bridgecommand.h\<close>, \<open>.cpp\<close>); the
    locales \<open>peek_queue\<close> and \<open>command_link\<close> extend the queue contract, their interpretation gives the agreement of the
    UIDs and of commands and answers.
  \<^item> \<open>Shared_Heap\<close>, \<open>Heap_Protocol\<close>: the chunk allocator (\<open>util_sharedheap.h\<close>, \<open>.cpp\<close>) and the messages that keep the server's
    copy in step.
  \<^item> \<open>State_Batch\<close>: the batch of hot setters (\<open>d3d9_device.h\<close>) and its replay in \<open>main.cpp\<close>.
  \<^item> \<open>Device_State\<close>, \<open>Shader_Constants\<close>, \<open>State_Block\<close>: the state the device keeps, its setters with redundancy elimination and
    recording, shader constants, state blocks with capture flags and transfer plans (\<open>d3d9_device.cpp\<close>, \<open>d3d9_device_base.h\<close>,
    \<open>d3d9_stateblock.cpp\<close>).
  \<^item> \<open>Device_Invariant\<close>: every array of the device and of its blocks keeps its size under all of these operations.
  \<^item> \<open>Server_Dispatch\<close>: the device cases of the switch of \<open>main.cpp\<close>, as decoders from pulled items to runtime calls.
  \<^item> \<open>Setter_Refinement\<close>: client state, batch, wire and dispatch together are transparent for setters.
  \<^item> \<open>Client_Calls\<close>, \<open>Client_Create\<close>, \<open>Client_Use\<close>: the other device functions of the client and that the server decodes each
    message into the call the application made.
  \<^item> \<open>Shader_Code\<close>: the token walk over shader code (\<open>d3d9_commonshader.h\<close>).
  \<^item> \<open>Present_Params\<close>: completion and transfer of the presentation parameters.
  \<^item> \<open>Swap_Chain\<close>: the messages that create swap chains, their effect on the server's handle tables, the present semaphore.
  \<^item> \<open>Lockable_Buffer\<close>: locking and unlocking of vertex and index buffers in its three modes and the server's handler
    (\<open>lockable_buffer.h\<close>); the server's copy ends up equal to the shadow.
  \<^item> \<open>Object_Cases\<close>: the cases of the switch for state blocks, resources, textures, buffers, queries and bridge commands, with their effect on
    the handle tables.
  \<^item> \<open>Texture_Wrappers\<close>: textures, cube and volume textures with their children (\<open>d3d9_base_texture.h\<close>, \<open>d3d9_texture.cpp\<close>, \<open>d3d9_cubetexture.cpp\<close>,
    \<open>d3d9_volumetexture.cpp\<close>); their levels name the runtime's surfaces, destruction leaves nothing behind.
  \<^item> \<open>Surface_Data\<close>, \<open>Volume_Data\<close>: formats, pitches, lock and unlock of surfaces and volumes and what the server copies
    (\<open>util_texture_and_volume.h\<close>, \<open>d3d9_surface.cpp\<close>, \<open>d3d9_volume.cpp\<close>); uploads are exact where the rows are wide enough, and where they are not.
  \<^item> \<open>Fast_Lock\<close>: the recursive lock of a channel (\<open>util_fastlock.h\<close>) with the interleaving of its accesses; mutual exclusion.
  \<^item> \<open>Serializable\<close>, \<open>Remix_Structs\<close>, \<open>Remix_Mesh\<close>: serialisation (\<open>util_serializable.h\<close>) and the structures of the Remix API
    (\<open>util_remixapi.cpp\<close>); the locales \<open>codec\<close>, \<open>serializable\<close> and \<open>layout\<close> state what a member and a structure promise and are interpreted
    for every type, which gives the round trip through the frame.
  \<^item> \<open>Remix_Calls\<close>: the functions of the Remix API on the client (\<open>client/remix_api.cpp\<close>) and their cases on the server, with the chains of
    extensions and the tables of handles; the locale \<open>ext_channel\<close> is the agreement of the two switches over a chain.
  \<^item> \<open>Ref_Counts\<close>, \<open>Ref_Life\<close>, \<open>Ref_Runs\<close>: the fused reference counts, parents, containers and bound objects (\<open>base.h\<close>).  \<open>Ref_Life\<close> states what
    the counts are and that \<open>AddRef\<close>, \<open>Release\<close> and the release of slots keep it; \<open>Ref_Runs\<close> has the runs of an application: nothing is used after it is
    destroyed, nothing leaks, and what happens beyond 16 bits.
  \<^item> \<open>Device_Reset\<close>: the construction of a device, its implicit objects, \<open>Reset\<close> and \<open>ResetEx\<close> (\<open>d3d9_device.cpp\<close>, \<open>d3d9_device_base.cpp\<close>); the
    life of a device keeps its implicit objects, what a reset sets and what it forgets.
  \<^item> \<open>Direct3D_Module\<close>: the queries about adapters with the caches of the client (\<open>d3d9_module.cpp\<close>) and the server's cases (\<open>module_processing.cpp\<close>); calls
    give what the runtime gives unless keys of a cache collide, and the queries that do not.
  \<^item> \<open>Query_Wrappers\<close>: polling a query (\<open>d3d9_query.cpp\<close>), what a vertex declaration gives back.
  \<^item> \<open>Window_Hook\<close>: the hooked window procedure, the filter before it and the message channels (\<open>window.cpp\<close>, \<open>util_messagechannel.cpp\<close>,
    \<open>remix_state.cpp\<close>); the hook is invisible to the application.
  \<^item> \<open>Input_Forward\<close>: DirectInput and conventional input (\<open>di_hook.cpp\<close>): what is forwarded of keyboard and mouse, the cooperative levels.
  \<^item> \<open>Private_Data\<close>: private data of resources (\<open>d3d9_privatedata.h\<close>) with the heap under it.
  \<^item> \<open>Frame_Pacer\<close>: the cap on the frame rate (\<open>d3d9_swapchain.cpp\<close>).
  \<^item> \<open>Config_Parser\<close>, \<open>Global_Options\<close>: the lines of the configuration file, the table, the conversion of values (\<open>config.cpp\<close>), and the options with
    their accessors (\<open>global_options.h\<close>, \<open>global_options.cpp\<close>).

  Conventions.  Machine integers that wrap are words (\<open>u8\<close> to \<open>u64\<close>); positions and sizes that cannot wrap are
  natural numbers, positions that can be \<open>-1\<close> integers.  Undefined behaviour, exceptions and the end of the
  process are values of \<open>bridge_error\<close>.  A record of the model has the fields of the class it stands for, under their
  names.  The functions of the client return the reply, the new state and the message; a message is its command name and
  the items pushed.  Calls of the Direct3D runtime are data (\<open>req\<close>), and where objects matter the runtime is a parameter.

  Bounds and fuel.  Loops of the code that wait (\<open>acq_push\<close>, \<open>acq_peek\<close>, \<open>push_loop\<close>, \<open>wait_loop\<close>) recurse over a list of
  observations, one for each iteration, and are \<open>None\<close> when the list ends: \<open>acq_push_returns\<close>, \<open>wait_returns\<close> and \<open>destructor_ends\<close>
  give the length that is enough.  The walk over a shader and the search of the heap recurse on their data.

  Not modelled.  Operating system services, the attaching of hooks, logging, the profiler and the
  launcher call code outside the repository and keep no state of the bridge.  Neither are the start-up and the handshake of the processes, the
  options that only the client has (\<open>client_options.h\<close>), \<open>QueryInterface\<close> and \<open>GetDevice\<close> of the wrappers.
  Weak memory is not modelled: the accesses of the command queue are interleaved sequentially.
\<close>

end
